(* ===== verification/Prelude.thy ===== *)
theory Prelude
  imports Main "HOL-Library.AList" "HOL-Library.List_Lexorder" "HOL-Library.Char_ord"
begin

text \<open>
  The Python vocabulary the components share: errors as values, strings, decimal numbers and
  insertion-ordered dictionaries, with the simplification lemmas the component proofs rest on.

  Strings are lists of characters.  The case and white-space functions follow Python on the ASCII
  range, which is what the configuration, SNMP and web inputs of the program consist of.
\<close>

named_theorems dict_simps "lookups, keys and values of insertion-ordered dictionaries"
named_theorems str_simps "strings: strip, split, join and decimal numbers"
named_theorems inv_intros "operations that keep a component's invariant"

subsection \<open>Errors\<close>

text \<open>The exceptions the modelled code raises or lets through.\<close>

datatype py_error = OSError | ValueError | TypeError | KeyError | IndexError
  | AttributeError | RuntimeError | ConfigError

type_synonym 'a result = "py_error + 'a"

subsection \<open>Characters and strings\<close>

definition is_ws :: "char \<Rightarrow> bool" where
  "is_ws c = (let n = (of_char c :: nat)
     in (9 \<le> n \<and> n \<le> 13) \<or> (28 \<le> n \<and> n \<le> 31) \<or> n = 32)"

definition is_digit :: "char \<Rightarrow> bool" where
  "is_digit c = (let n = (of_char c :: nat) in 48 \<le> n \<and> n \<le> 57)"

definition digit_val :: "char \<Rightarrow> nat" where
  "digit_val c = (of_char c :: nat) - 48"

definition digit_char :: "nat \<Rightarrow> char" where
  "digit_char d = char_of (48 + d)"

definition lower_char :: "char \<Rightarrow> char" where
  "lower_char c = (let n = (of_char c :: nat)
     in if 65 \<le> n \<and> n \<le> 90 then char_of (n + 32) else c)"

definition upper_char :: "char \<Rightarrow> char" where
  "upper_char c = (let n = (of_char c :: nat)
     in if 97 \<le> n \<and> n \<le> 122 then char_of (n - 32) else c)"

definition lower :: "string \<Rightarrow> string" where
  "lower s = map lower_char s"

definition upper :: "string \<Rightarrow> string" where
  "upper s = map upper_char s"

definition lstrip :: "string \<Rightarrow> string" where
  "lstrip s = dropWhile is_ws s"

definition rstrip :: "string \<Rightarrow> string" where
  "rstrip s = rev (dropWhile is_ws (rev s))"

definition strip :: "string \<Rightarrow> string" where
  "strip s = rstrip (lstrip s)"

definition startswith :: "string \<Rightarrow> string \<Rightarrow> bool" where
  "startswith s p = (take (length p) s = p)"

definition endswith :: "string \<Rightarrow> string \<Rightarrow> bool" where
  "endswith s p = (length p \<le> length s \<and> drop (length s - length p) s = p)"

text \<open>\<open>needle in s\<close> on strings.\<close>

fun contains :: "string \<Rightarrow> string \<Rightarrow> bool" where
  "contains [] needle = (needle = [])"
| "contains (c # cs) needle = (startswith (c # cs) needle \<or> contains cs needle)"

text \<open>\<open>s.split(c)\<close> for a one-character separator.\<close>

fun split_on :: "char \<Rightarrow> string \<Rightarrow> string list" where
  "split_on c [] = [[]]"
| "split_on c (x # xs) =
     (if x = c then [] # split_on c xs
      else (case split_on c xs of [] \<Rightarrow> [[x]] | w # ws \<Rightarrow> (x # w) # ws))"

text \<open>\<open>s.split(sep, 1)\<close>: what precedes and what follows the first occurrence; \<open>s.split()\<close>.\<close>

fun split_once :: "string \<Rightarrow> string \<Rightarrow> (string \<times> string) option" where
  "split_once sep [] = (if sep = [] then Some ([], []) else None)"
| "split_once sep (c # cs) = (if startswith (c # cs) sep then Some ([], drop (length sep) (c # cs))
     else map_option (\<lambda>(a, b). (c # a, b)) (split_once sep cs))"

function words :: "string \<Rightarrow> string list" where
  "words s = (let t = dropWhile is_ws s in
     if t = [] then [] else takeWhile (\<lambda>c. \<not> is_ws c) t # words (dropWhile (\<lambda>c. \<not> is_ws c) t))"
  by pat_completeness auto
termination
proof (relation "measure length")
  fix s t :: string
  assume t: "t = dropWhile is_ws s" "t \<noteq> []"
  then have "\<not> is_ws (hd t)" using hd_dropWhile by blast
  then have "length (dropWhile (\<lambda>c. \<not> is_ws c) t) < length t"
    using t(2) by (cases t) (simp_all add: length_dropWhile_le le_imp_less_Suc)
  also have "\<dots> \<le> length s" unfolding t(1) by (rule length_dropWhile_le)
  finally show "(dropWhile (\<lambda>c. \<not> is_ws c) t, s) \<in> measure length" by simp
qed simp

declare words.simps [simp del]

fun join :: "string \<Rightarrow> string list \<Rightarrow> string" where
  "join sep [] = []"
| "join sep [w] = w"
| "join sep (w # v # ws) = w @ sep @ join sep (v # ws)"

text \<open>
  The helper \<open>_csv\<close>, spelled out in thresholds.py, tasks/interface_poll.py and
  trap_receiver.py: blanks count as commas, pieces are stripped, empty pieces dropped.
\<close>

definition csv :: "string \<Rightarrow> string list" where
  "csv v = filter (\<lambda>x. x \<noteq> [])
     (map strip (split_on (CHR '','') (map (\<lambda>c. if c = CHR '' '' then CHR '','' else c) v)))"

text \<open>The UTF-8 bytes of the dash in the messages.\<close>

definition em_dash :: string where
  "em_dash = [CHR 0xE2, CHR 0x80, CHR 0x94]"

text \<open>\<open>x or y\<close> on strings.\<close>

definition or_else :: "string \<Rightarrow> string \<Rightarrow> string" where
  "or_else s t = (if s = [] then t else s)"

lemma or_else_simps [simp]: "or_else [] t = t" "or_else s [] = s" "s \<noteq> [] \<Longrightarrow> or_else s t = s"
  by (simp_all add: or_else_def)

lemma or_else_nonempty [simp]: "or_else s t = [] \<longleftrightarrow> s = [] \<and> t = []"
  by (simp add: or_else_def)

lemma split_on_nonempty [simp]: "split_on c xs \<noteq> []"
  by (induction xs) (auto split: list.splits)

lemma split_on_no_sep: "c \<notin> set w \<Longrightarrow> split_on c w = [w]"
  by (induction w) auto

lemma split_on_append: "c \<notin> set w \<Longrightarrow> split_on c (w @ c # xs) = w # split_on c xs"
  by (induction w) auto

lemma split_join [str_simps]:
  "ws \<noteq> [] \<Longrightarrow> \<forall>w \<in> set ws. c \<notin> set w \<Longrightarrow> split_on c (join [c] ws) = ws"
  by (induction "[c]" ws rule: join.induct) (auto simp: split_on_no_sep split_on_append)

lemma join_split: "join [c] (split_on c s) = s"
proof (induction s)
  case (Cons x s)
  obtain w ws where w: "split_on c s = w # ws" by (cases "split_on c s") auto
  show ?case
  proof (cases "x = c")
    case True
    have "join [c] ([] # w # ws) = c # join [c] (w # ws)" by simp
    then show ?thesis using True w Cons by simp
  next
    case False
    have "join [c] ((x # w) # ws) = x # join [c] (w # ws)" by (cases ws) simp_all
    then show ?thesis using False w Cons by simp
  qed
qed simp

lemma split_on_pieces: "w \<in> set (split_on c s) \<Longrightarrow> c \<notin> set w \<and> set w \<subseteq> set s"
  by (induction s arbitrary: w) (fastforce split: if_splits list.splits)+

lemma lstrip_idem [simp]: "lstrip (lstrip s) = lstrip s"
  by (simp add: lstrip_def)

lemma rstrip_idem [simp]: "rstrip (rstrip s) = rstrip s"
  by (simp add: rstrip_def)

lemma lstrip_fix: "lstrip s = s \<longleftrightarrow> s = [] \<or> \<not> is_ws (hd s)"
proof (cases s)
  case (Cons c cs)
  show ?thesis
  proof (cases "is_ws c")
    case True
    have "length (dropWhile is_ws cs) \<le> length cs"
      by (rule length_dropWhile_le)
    then have "dropWhile is_ws cs \<noteq> c # cs"
      by (metis impossible_Cons)
    with True Cons show ?thesis by (simp add: lstrip_def)
  qed (simp add: lstrip_def Cons)
qed (simp add: lstrip_def)

lemma rstrip_hd: "rstrip s \<noteq> [] \<Longrightarrow> hd (rstrip s) = hd s"
proof -
  assume ne: "rstrip s \<noteq> []"
  have "s = rstrip s @ rev (takeWhile is_ws (rev s))"
    by (metis rev_append rev_rev_ident rstrip_def takeWhile_dropWhile_id)
  then show ?thesis using ne by (metis hd_append2)
qed

lemma strip_idem [simp]: "strip (strip s) = strip s"
proof -
  have "lstrip (rstrip (lstrip s)) = rstrip (lstrip s)"
  proof (cases "rstrip (lstrip s) = []")
    case False
    then have "lstrip s \<noteq> []" by (auto simp: rstrip_def)
    then have "\<not> is_ws (hd (lstrip s))"
      using lstrip_fix [of "lstrip s"] by simp
    then show ?thesis using False by (simp add: lstrip_fix rstrip_hd)
  qed (simp add: lstrip_def)
  then show ?thesis by (simp add: strip_def)
qed

lemma strip_no_ws: "\<forall>c \<in> set s. \<not> is_ws c \<Longrightarrow> strip s = s"
proof -
  assume a: "\<forall>c \<in> set s. \<not> is_ws c"
  have "dropWhile is_ws s = s" if "\<forall>c \<in> set s. \<not> is_ws c" for s
    using that by (cases s) auto
  from this [of s] this [of "rev s"] a show ?thesis
    by (simp add: strip_def lstrip_def rstrip_def)
qed

subsection \<open>Decimal numbers\<close>

text \<open>\<open>str(n)\<close> of a natural number and of an integer.\<close>

fun nat_str :: "nat \<Rightarrow> string" where
  "nat_str n = (if n < 10 then [digit_char n]
     else nat_str (n div 10) @ [digit_char (n mod 10)])"

declare nat_str.simps [simp del]

definition int_str :: "int \<Rightarrow> string" where
  "int_str n = (if n < 0 then CHR ''-'' # nat_str (nat (- n)) else nat_str (nat n))"

text \<open>
  \<open>int(s)\<close> on a string: surrounding white space, one sign, digits, and single underscores
  between digits; \<open>None\<close> is \<open>ValueError\<close>.  The flag says whether the last character was a digit.
\<close>

fun parse_digits :: "nat \<Rightarrow> bool \<Rightarrow> string \<Rightarrow> nat option" where
  "parse_digits acc prev [] = (if prev then Some acc else None)"
| "parse_digits acc prev (c # cs) =
     (if is_digit c then parse_digits (10 * acc + digit_val c) True cs
      else if c = CHR ''_'' \<and> prev then parse_digits acc False cs
      else None)"

definition py_int :: "string \<Rightarrow> int option" where
  "py_int s = (case strip s of
       [] \<Rightarrow> None
     | c # cs \<Rightarrow>
         if c = CHR ''-'' then map_option (\<lambda>n. - int n) (parse_digits 0 False cs)
         else if c = CHR ''+'' then map_option int (parse_digits 0 False cs)
         else map_option int (parse_digits 0 False (c # cs)))"

text \<open>\<open>s.isdigit()\<close>.\<close>

definition isdigit_str :: "string \<Rightarrow> bool" where
  "isdigit_str s = (s \<noteq> [] \<and> list_all is_digit s)"

lemma digit_chars [str_simps]:
  "digit_char 0 = CHR ''0''" "digit_char 1 = CHR ''1''" "digit_char 2 = CHR ''2''" "digit_char 3 = CHR ''3''"
  "digit_char 4 = CHR ''4''" "digit_char 5 = CHR ''5''" "digit_char 6 = CHR ''6''" "digit_char 7 = CHR ''7''"
  "digit_char 8 = CHR ''8''" "digit_char 9 = CHR ''9''"
  by code_simp+

lemma digit_char_props [simp]:
  "d < 10 \<Longrightarrow> is_digit (digit_char d)"
  "d < 10 \<Longrightarrow> digit_val (digit_char d) = d"
  "d < 10 \<Longrightarrow> \<not> is_ws (digit_char d)"
  by (simp_all add: is_digit_def digit_val_def digit_char_def is_ws_def)

lemma is_digit_not_ws: "is_digit c \<Longrightarrow> \<not> is_ws c"
  by (auto simp: is_digit_def is_ws_def Let_def)

lemma is_digit_not_special:
  "is_digit c \<Longrightarrow> c \<noteq> CHR ''-''" "is_digit c \<Longrightarrow> c \<noteq> CHR ''+''" "is_digit c \<Longrightarrow> c \<noteq> CHR ''.''"
  "is_digit c \<Longrightarrow> c \<noteq> CHR ''_''" "is_digit c \<Longrightarrow> c \<noteq> CHR '':''" "is_digit c \<Longrightarrow> c \<noteq> CHR ''T''"
  "is_digit c \<Longrightarrow> c \<noteq> CHR ''$''" "is_digit c \<Longrightarrow> c \<noteq> CHR ''=''" "is_digit c \<Longrightarrow> c \<noteq> CHR ''/''"
  by (auto simp: is_digit_def)

lemma nat_str_nonempty [simp]: "nat_str n \<noteq> []"
  by (subst nat_str.simps) simp

lemma nat_str_digits: "c \<in> set (nat_str n) \<Longrightarrow> is_digit c"
proof (induction n rule: nat_str.induct)
  case (1 n)
  then show ?case
    by (cases "n < 10") (auto simp: nat_str.simps [of n])
qed

lemma isdigit_nat_str [simp]: "isdigit_str (nat_str n)"
  using nat_str_digits by (auto simp: isdigit_str_def list_all_iff)

lemma parse_digits_append_digits:
  "\<forall>c \<in> set ds. is_digit c \<Longrightarrow> ds \<noteq> [] \<Longrightarrow>
   parse_digits acc prev (ds @ rest) =
     parse_digits (foldl (\<lambda>a c. 10 * a + digit_val c) acc ds) True rest"
proof (induction ds arbitrary: acc prev)
  case (Cons d ds)
  then show ?case by (cases "ds = []") auto
qed simp

lemma foldl_nat_str: "foldl (\<lambda>a c. 10 * a + digit_val c) 0 (nat_str n) = n"
proof (induction n rule: nat_str.induct)
  case (1 n)
  then show ?case
    by (cases "n < 10") (auto simp: nat_str.simps [of n])
qed

lemma parse_nat_str [simp]: "parse_digits 0 prev (nat_str n) = Some n"
  using parse_digits_append_digits [of "nat_str n" 0 prev "[]"] nat_str_digits
  by (simp add: foldl_nat_str)

lemma strip_nat_str [simp]: "strip (nat_str n) = nat_str n"
  using nat_str_digits is_digit_not_ws by (blast intro: strip_no_ws)

lemma py_int_nat_str [str_simps]: "py_int (nat_str n) = Some (int n)"
proof -
  obtain c cs where c: "nat_str n = c # cs" by (cases "nat_str n") auto
  then have d: "is_digit c" using nat_str_digits [of c n] by simp
  have s: "strip (c # cs) = c # cs" using strip_nat_str [of n] unfolding c .
  have "parse_digits 0 False (c # cs) = Some n" unfolding c [symmetric] by simp
  then show ?thesis
    by (simp add: py_int_def c s is_digit_not_special [OF d] del: parse_digits.simps)
qed

subsection \<open>Insertion-ordered dictionaries\<close>

text \<open>
  A Python dict keeps the insertion order of its keys: assigning to a present key replaces the
  value in place, to an absent key appends.  That is the library's \<open>AList.update\<close>.
\<close>

type_synonym ('k, 'v) dict = "('k \<times> 'v) list"

abbreviation dget :: "('k, 'v) dict \<Rightarrow> 'k \<Rightarrow> 'v option" where
  "dget d k \<equiv> map_of d k"

abbreviation dset :: "'k \<Rightarrow> 'v \<Rightarrow> ('k, 'v) dict \<Rightarrow> ('k, 'v) dict" where
  "dset k v d \<equiv> AList.update k v d"

abbreviation ddel :: "'k \<Rightarrow> ('k, 'v) dict \<Rightarrow> ('k, 'v) dict" where
  "ddel k d \<equiv> AList.delete k d"

abbreviation dkeys :: "('k, 'v) dict \<Rightarrow> 'k list" where
  "dkeys d \<equiv> map fst d"

abbreviation dvals :: "('k, 'v) dict \<Rightarrow> 'v list" where
  "dvals d \<equiv> map snd d"

definition has_key :: "('k, 'v) dict \<Rightarrow> 'k \<Rightarrow> bool" where
  "has_key d k = (dget d k \<noteq> None)"

text \<open>A dictionary in which every key occurs once and every entry satisfies \<open>P\<close>.\<close>

definition dict_ok :: "('k \<Rightarrow> 'v \<Rightarrow> bool) \<Rightarrow> ('k, 'v) dict \<Rightarrow> bool" where
  "dict_ok P d \<longleftrightarrow> distinct (dkeys d) \<and> (\<forall>(k, v) \<in> set d. P k v)"

lemma dget_dset [dict_simps, simp]:
  "dget (dset k v d) k' = (if k' = k then Some v else dget d k')"
  by (simp add: update_conv')

lemma dget_ddel [dict_simps, simp]:
  "dget (ddel k d) k' = (if k' = k then None else dget d k')"
  by (simp add: delete_conv')

lemma has_key_iff: "has_key d k \<longleftrightarrow> k \<in> set (dkeys d)"
  by (auto simp: has_key_def map_of_eq_None_iff)

lemma has_key_dset [simp]: "has_key (dset k v d) k' \<longleftrightarrow> k' = k \<or> has_key d k'"
  by (simp add: has_key_def)

lemma has_key_ddel [simp]: "has_key (ddel k d) k' \<longleftrightarrow> k' \<noteq> k \<and> has_key d k'"
  by (simp add: has_key_def)

lemma has_key_Nil [simp]: "\<not> has_key [] k"
  by (simp add: has_key_def)

lemma dset_fresh: "k \<notin> set (dkeys d) \<Longrightarrow> dset k v d = d @ [(k, v)]"
  by (induction d) auto

lemma dset_entries: "(k', v') \<in> set (dset k v d) \<Longrightarrow> (k', v') = (k, v) \<or> (k', v') \<in> set d"
  by (induction d) (auto split: if_splits)

lemma dict_ok_Nil [simp]: "dict_ok P []"
  by (simp add: dict_ok_def)

lemma dict_ok_dset [inv_intros]: "dict_ok P d \<Longrightarrow> P k v \<Longrightarrow> dict_ok P (dset k v d)"
  unfolding dict_ok_def using dset_entries [of _ _ k v d]
  by (fastforce simp: distinct_update)

lemma dict_ok_ddel [inv_intros]: "dict_ok P d \<Longrightarrow> dict_ok P (ddel k d)"
  by (simp add: dict_ok_def distinct_delete) (auto simp: AList.delete_eq)

lemma dict_okD: "dict_ok P d \<Longrightarrow> dget d k = Some v \<Longrightarrow> P k v"
  by (auto simp: dict_ok_def dest!: map_of_SomeD)

lemma dict_ok_amend [inv_intros]:
  "dict_ok P d \<Longrightarrow> dget d k = Some v \<Longrightarrow> (P k v \<Longrightarrow> P k v') \<Longrightarrow> dict_ok P (dset k v' d)"
  by (meson dict_okD dict_ok_dset)

lemma dict_ok_distinct: "dict_ok P d \<Longrightarrow> distinct (dkeys d)"
  by (simp add: dict_ok_def)

lemma dget_iff_mem: "distinct (dkeys d) \<Longrightarrow> dget d k = Some v \<longleftrightarrow> (k, v) \<in> set d"
  by (simp add: map_of_eq_Some_iff)

text \<open>The first value of a list that satisfies a test, for the lookup loops that return early.\<close>

lemma find_None_iff': "find P xs = None \<longleftrightarrow> (\<forall>x \<in> set xs. \<not> P x)"
  by (auto simp: find_None_iff)

lemma find_SomeD: "find P xs = Some x \<Longrightarrow> x \<in> set xs \<and> P x"
  by (auto simp: find_Some_iff in_set_conv_nth)

subsection \<open>Duplicate-free lists, first occurrence kept\<close>

text \<open>\<open>list(dict.fromkeys(xs))\<close>, and the \<open>seen\<close> set idiom of several loops.\<close>

fun dedupe_from :: "'a set \<Rightarrow> 'a list \<Rightarrow> 'a list" where
  "dedupe_from seen [] = []"
| "dedupe_from seen (x # xs) =
     (if x \<in> seen then dedupe_from seen xs else x # dedupe_from (insert x seen) xs)"

definition dedupe :: "'a list \<Rightarrow> 'a list" where
  "dedupe xs = dedupe_from {} xs"

lemma set_dedupe_from: "set (dedupe_from seen xs) = set xs - seen"
  by (induction xs arbitrary: seen) auto

lemma distinct_dedupe_from: "distinct (dedupe_from seen xs)"
  by (induction xs arbitrary: seen) (auto simp: set_dedupe_from)

lemma set_dedupe [simp]: "set (dedupe xs) = set xs"
  by (simp add: dedupe_def set_dedupe_from)

lemma distinct_dedupe [simp]: "distinct (dedupe xs)"
  by (simp add: dedupe_def distinct_dedupe_from)

subsection \<open>Runs of a deterministic machine\<close>

text \<open>
  Every stateful component is a function of its state and an event (an API call, a poll, a
  scheduler tick).  The locale carries invariants from one event to every run.
\<close>

locale machine =
  fixes step :: "'s \<Rightarrow> 'e \<Rightarrow> 's"
    and inv :: "'s \<Rightarrow> bool"
    and admissible :: "'e \<Rightarrow> bool"
  assumes step_inv: "inv s \<Longrightarrow> admissible e \<Longrightarrow> inv (step s e)"
begin

lemma run_inv: "inv s \<Longrightarrow> list_all admissible es \<Longrightarrow> inv (foldl step s es)"
  by (induction es arbitrary: s) (auto intro: step_inv)

lemma run_prefix_inv: "inv s \<Longrightarrow> list_all admissible (es @ es') \<Longrightarrow> inv (foldl step s es)"
  by (rule run_inv) simp_all

end

end
