(* ===== verification/Atomic_File.thy ===== *)
theory Atomic_File
  imports Prelude
begin

text \<open>
  The atomic write every JSON-backed store of the program spells out (\<open>_save\<close> in
  local_auth.py, api_tokens.py, manual_hosts.py and thresholds_store.py, \<open>JsonStore.save\<close>):
  create the directory, write a temporary file beside the target, fsync, rename over the target,
  set mode 600; on an exception remove the temporary file and re-raise.

  A disk holds the target file and the temporary file.  Every step may fail, chosen by the
  parameter \<open>fail\<close>, and the process may die between any two steps.  The file content is the JSON
  value itself: the text syntax of \<open>json.dump\<close> and \<open>json.load\<close> is not modelled.
\<close>

datatype 'a content = Missing | Corrupt | Holds 'a

record 'a disk =
  target :: "'a content"
  target_mode :: nat
  temp :: "('a content \<times> nat) option"

datatype save_step = MkDir | MkTemp | FChmod | Dump | FSync | Replace | Unlink | Chmod

type_synonym faults = "save_step \<Rightarrow> bool"

abbreviation no_faults :: faults where
  "no_faults \<equiv> \<lambda>_. False"

text \<open>
  The effect of one step, \<open>mode\<close> being the mode the code gives the file: \<open>mkstemp\<close> creates an empty file of mode 600 (\<open>0o600 = 384\<close>), which
  is not valid JSON, \<open>os.replace\<close> moves content and mode over the target.
\<close>

definition mode600 :: nat where
  "mode600 = 384"

fun step_effect :: "nat \<Rightarrow> 'a \<Rightarrow> save_step \<Rightarrow> 'a disk \<Rightarrow> 'a disk" where
  "step_effect mode p MkDir d = d"
| "step_effect mode p MkTemp d = d\<lparr>temp := Some (Corrupt, mode600)\<rparr>"
| "step_effect mode p FChmod d = d\<lparr>temp := map_option (\<lambda>(f, _). (f, mode)) (temp d)\<rparr>"
| "step_effect mode p Dump d = d\<lparr>temp := map_option (\<lambda>(f, m). (Holds p, m)) (temp d)\<rparr>"
| "step_effect mode p FSync d = d"
| "step_effect mode p Replace d =
     (case temp d of None \<Rightarrow> d
      | Some (f, m) \<Rightarrow> d\<lparr>target := f, target_mode := m, temp := None\<rparr>)"
| "step_effect mode p Unlink d = d\<lparr>temp := None\<rparr>"
| "step_effect mode p Chmod d = d\<lparr>target_mode := mode\<rparr>"

text \<open>Run steps until one fails; the Boolean says whether all of them succeeded.\<close>

fun run_steps :: "faults \<Rightarrow> nat \<Rightarrow> 'a \<Rightarrow> save_step list \<Rightarrow> 'a disk \<Rightarrow> bool \<times> 'a disk" where
  "run_steps fail mode p [] d = (True, d)"
| "run_steps fail mode p (s # ss) d =
     (if fail s then (False, d) else run_steps fail mode p ss (step_effect mode p s d))"

text \<open>
  The \<open>_save\<close> of the four registries: directory and temporary file are created outside the
  \<open>try\<close>, a failing final \<open>chmod\<close> is ignored, a failing step inside removes the temporary file
  (ignoring a failing \<open>unlink\<close>) and the exception escapes.
\<close>

definition atomic_save :: "faults \<Rightarrow> 'a \<Rightarrow> 'a disk \<Rightarrow> unit result \<times> 'a disk" where
  "atomic_save fail p d =
     (case run_steps fail mode600 p [MkDir, MkTemp] d of
        (False, d1) \<Rightarrow> (Inl OSError, d1)
      | (True, d1) \<Rightarrow>
          (case run_steps fail mode600 p [FChmod, Dump, FSync, Replace] d1 of
             (False, d2) \<Rightarrow> (Inl OSError, if fail Unlink then d2 else step_effect mode600 p Unlink d2)
           | (True, d2) \<Rightarrow> (Inr (), if fail Chmod then d2 else step_effect mode600 p Chmod d2)))"

text \<open>The state a crash leaves: the first \<open>n\<close> steps happened and nothing after them.\<close>

definition crash_after :: "nat \<Rightarrow> 'a \<Rightarrow> 'a disk \<Rightarrow> 'a disk" where
  "crash_after n p d = foldl (\<lambda>d s. step_effect mode600 p s d) d
     (take n [MkDir, MkTemp, FChmod, Dump, FSync, Replace, Chmod])"

lemma atomic_save_ok [simp]:
  "atomic_save no_faults p d
     = (Inr (), d\<lparr>target := Holds p, target_mode := mode600, temp := None\<rparr>)"
  by (simp add: atomic_save_def)

text \<open>The write is all or nothing, with the outcome telling which.\<close>

lemma atomic_save_target:
  "fst (atomic_save fail p d) = Inr () \<Longrightarrow> target (snd (atomic_save fail p d)) = Holds p"
  "fst (atomic_save fail p d) \<noteq> Inr () \<Longrightarrow> target (snd (atomic_save fail p d)) = target d"
  by (auto simp: atomic_save_def split: if_splits)

lemma atomic_save_outcome: "fst (atomic_save fail p d) \<in> {Inr (), Inl OSError}"
  by (auto simp: atomic_save_def)

lemma atomic_save_mode:
  "fst (atomic_save fail p d) = Inr () \<Longrightarrow> target_mode (snd (atomic_save fail p d)) = mode600"
  by (auto simp: atomic_save_def split: if_splits)

lemma atomic_save_no_leftover:
  "temp d = None \<Longrightarrow> \<not> fail Unlink \<Longrightarrow> temp (snd (atomic_save fail p d)) = None"
  by (auto simp: atomic_save_def)

text \<open>A crash at any point leaves the old or the new content, never a partial file.\<close>

lemma crash_after_target:
  "target (crash_after n p d) = (if n < 6 then target d else Holds p)"
proof -
  have "n = 0 \<or> n = 1 \<or> n = 2 \<or> n = 3 \<or> n = 4 \<or> n = 5 \<or> n = 6 \<or> n \<ge> 7" by linarith
  then show ?thesis by (auto simp: crash_after_def)
qed

subsection \<open>Registries: a dictionary in memory, a list of its values on disk\<close>

text \<open>
  The four JSON registries share one shape: a dictionary keyed by a field of its entries, loaded
  once from a list of entries (dropping entries the loader refuses), and rewritten as
  \<open>list(self._entries.values())\<close> by every change.
\<close>

record 'v registry =
  entries :: "(string, 'v) dict"
  backing :: "'v list disk"

text \<open>
  The loaders: entries are visited in file order; \<open>accept\<close> drops or repairs an entry and gives
  the key to file it under.  An absent or unreadable file leaves the dictionary empty.
\<close>

definition load_entries :: "('v \<Rightarrow> (string \<times> 'v) option) \<Rightarrow> 'v list content \<Rightarrow> (string, 'v) dict" where
  "load_entries accept f = (case f of
       Missing \<Rightarrow> []
     | Corrupt \<Rightarrow> []
     | Holds vs \<Rightarrow> foldl (\<lambda>d v. case accept v of None \<Rightarrow> d | Some (k, v') \<Rightarrow> dset k v' d) [] vs)"

definition registry_open :: "('v \<Rightarrow> (string \<times> 'v) option) \<Rightarrow> 'v list disk \<Rightarrow> 'v registry" where
  "registry_open accept d = \<lparr>entries = load_entries accept (target d), backing = d\<rparr>"

definition registry_save :: "faults \<Rightarrow> 'v registry \<Rightarrow> unit result \<times> 'v registry" where
  "registry_save fail r =
     (case atomic_save fail (dvals (entries r)) (backing r) of
        (res, d) \<Rightarrow> (res, r\<lparr>backing := d\<rparr>))"

text \<open>Store \<open>d\<close> as the new dictionary, save, and return \<open>a\<close> unless the save raised.\<close>

definition commit :: "faults \<Rightarrow> 'v registry \<Rightarrow> (string, 'v) dict \<Rightarrow> 'a \<Rightarrow> 'a result \<times> 'v registry" where
  "commit fail r d a =
     (case registry_save fail (r\<lparr>entries := d\<rparr>) of
        (Inl e, r') \<Rightarrow> (Inl e, r')
      | (Inr _, r') \<Rightarrow> (Inr a, r'))"

definition synced :: "'v registry \<Rightarrow> bool" where
  "synced r = (target (backing r) = Holds (dvals (entries r)))"

lemma entries_commit [simp]: "entries (snd (commit fail r d a)) = d"
  by (auto simp: commit_def registry_save_def split: prod.splits sum.splits)

lemma fst_commit: "fst (commit fail r d a) = Inr a \<or> fst (commit fail r d a) = Inl OSError"
  using atomic_save_outcome [of fail "dvals d" "backing r"]
  by (auto simp: commit_def registry_save_def split: prod.splits sum.splits)

lemma fst_commit_no_faults [simp]: "fst (commit no_faults r d a) = Inr a"
  by (simp add: commit_def registry_save_def)

lemma commit_no_faults:
  "commit no_faults r d a = (Inr a, r\<lparr>entries := d,
     backing := (backing r)\<lparr>target := Holds (dvals d), target_mode := mode600, temp := None\<rparr>\<rparr>)"
  by (simp add: commit_def registry_save_def)

lemma commit_synced:
  "fst (commit fail r d a) = Inr a' \<Longrightarrow> synced (snd (commit fail r d a))"
  using atomic_save_target [of fail "dvals d" "backing r"]
  by (auto simp: commit_def registry_save_def synced_def split: prod.splits sum.splits)

lemma commit_result: "fst (commit fail r d a) = Inr a' \<Longrightarrow> a' = a"
  using fst_commit [of fail r d a] by auto

lemma commit_failed:
  "fst (commit fail r d a) = Inl e \<Longrightarrow> target (backing (snd (commit fail r d a))) = target (backing r)"
  using atomic_save_target [of fail "dvals d" "backing r"]
  by (auto simp: commit_def registry_save_def split: prod.splits sum.splits)

lemma commitD:
  assumes "commit fail r d a = (res, r')"
  shows "entries r' = d \<and> (res = Inr a \<and> synced r' \<or> res = Inl OSError \<and> target (backing r') = target (backing r))"
proof -
  have "entries r' = d" using entries_commit [of fail r d a] assms by simp
  moreover have "res = Inr a \<and> synced r' \<or> res = Inl OSError \<and> target (backing r') = target (backing r)"
    using fst_commit [of fail r d a] commit_synced [of fail r d a a] commit_failed [of fail r d a OSError] assms by auto
  ultimately show ?thesis by blast
qed

text \<open>
  What every operation of a registry does: it leaves the registry alone, or commits a dictionary
  whose entries are still good.
\<close>

definition orderly :: "(string \<Rightarrow> 'v \<Rightarrow> bool) \<Rightarrow> 'v registry \<Rightarrow> 'a result \<times> 'v registry \<Rightarrow> bool" where
  "orderly P r x \<longleftrightarrow> snd x = r \<or> (\<exists>fail d a. dict_ok P d \<and> x = commit fail r d a)"

named_theorems orderly_intros "operations that refuse or commit good entries"

lemma orderly_same [orderly_intros, simp]: "orderly P r (res, r)"
  by (simp add: orderly_def)

lemma orderly_commit [orderly_intros]: "dict_ok P d \<Longrightarrow> orderly P r (commit fail r d a)"
  by (auto simp: orderly_def)

lemma orderly_inv: "orderly P r x \<Longrightarrow> dict_ok P (entries r) \<Longrightarrow> dict_ok P (entries (snd x))"
  by (auto simp: orderly_def)

lemma orderly_synced: "orderly P r x \<Longrightarrow> synced r \<Longrightarrow> fst x = Inr a \<Longrightarrow> synced (snd x)"
  by (auto simp: orderly_def dest: commit_synced)

lemma orderly_failed:
  "orderly P r x \<Longrightarrow> fst x = Inl e \<Longrightarrow> target (backing (snd x)) = target (backing r)"
  by (auto simp: orderly_def dest: commit_failed)

text \<open>
  The contract between a store's operations and its loader: an entry the operations may file
  under \<open>k\<close> is accepted by the loader, under the same key and unchanged.  Then a restart after a
  successful save restores the dictionary exactly, order included.
\<close>

locale json_registry =
  fixes accept :: "'v \<Rightarrow> (string \<times> 'v) option"
    and entry_ok :: "string \<Rightarrow> 'v \<Rightarrow> bool"
  assumes accept_ok: "entry_ok k v \<Longrightarrow> accept v = Some (k, v)"
    and accept_gives_ok: "accept v = Some (k, v') \<Longrightarrow> entry_ok k v'"
begin

lemma fold_ok:
  "dict_ok entry_ok d0 \<Longrightarrow> dict_ok entry_ok
     (foldl (\<lambda>d v. case accept v of None \<Rightarrow> d | Some (k, v') \<Rightarrow> dset k v' d) d0 vs)"
  by (induction vs arbitrary: d0)
    (auto split: option.splits intro: dict_ok_dset accept_gives_ok)

lemma load_ok: "dict_ok entry_ok (load_entries accept f)"
  by (cases f) (simp_all add: load_entries_def fold_ok)

lemma fold_values:
  "dict_ok entry_ok (d0 @ d) \<Longrightarrow>
   foldl (\<lambda>d v. case accept v of None \<Rightarrow> d | Some (k, v') \<Rightarrow> dset k v' d) d0 (dvals d) = d0 @ d"
proof (induction d arbitrary: d0)
  case (Cons kv d)
  obtain k v where kv: "kv = (k, v)" by (cases kv)
  from Cons.prems have "entry_ok k v" and "k \<notin> set (dkeys d0)"
    by (auto simp: dict_ok_def kv)
  then have "accept v = Some (k, v)" and "dset k v d0 = d0 @ [(k, v)]"
    by (simp_all add: accept_ok dset_fresh)
  with Cons.IH [of "d0 @ [(k, v)]"] Cons.prems show ?case
    by (simp add: kv)
qed simp

lemma load_values: "dict_ok entry_ok d \<Longrightarrow> load_entries accept (Holds (dvals d)) = d"
  using fold_values [of "[]" d] by (simp add: load_entries_def)

lemma restart:
  "synced r \<Longrightarrow> dict_ok entry_ok (entries r) \<Longrightarrow>
   entries (registry_open accept (backing r)) = entries r"
  by (simp add: synced_def registry_open_def load_values)

lemma open_ok: "dict_ok entry_ok (entries (registry_open accept d))"
  by (simp add: registry_open_def load_ok)

end

end
