(* ===== verification/Py_Data.thy ===== *)
theory Py_Data
  imports Complex_Main "HOL-Library.Multiset" Prelude
begin

text \<open>
  Values that cross the program's file and web boundaries: naive datetimes with the two text
  forms the code prints and parses, and JSON values with Python's truth value, \<open>int()\<close> and
  \<open>list()\<close> conversions.
\<close>

subsection \<open>Naive datetimes\<close>

record datetime =
  year :: nat
  month :: nat
  day :: nat
  hour :: nat
  minute :: nat
  second :: nat
  microsecond :: nat

definition leap_year :: "nat \<Rightarrow> bool" where
  "leap_year y = (y mod 4 = 0 \<and> (y mod 100 \<noteq> 0 \<or> y mod 400 = 0))"

definition days_in_month :: "nat \<Rightarrow> nat \<Rightarrow> nat" where
  "days_in_month y m = (if m = 2 then (if leap_year y then 29 else 28)
     else if m = 4 \<or> m = 6 \<or> m = 9 \<or> m = 11 then 30 else 31)"

definition valid_date :: "nat \<Rightarrow> nat \<Rightarrow> nat \<Rightarrow> bool" where
  "valid_date y m d = (1 \<le> y \<and> y \<le> 9999 \<and> 1 \<le> m \<and> m \<le> 12 \<and> 1 \<le> d \<and> d \<le> days_in_month y m)"

definition valid_time :: "nat \<Rightarrow> nat \<Rightarrow> nat \<Rightarrow> nat \<Rightarrow> bool" where
  "valid_time h m s u = (h < 24 \<and> m < 60 \<and> s < 60 \<and> u < 1000000)"

definition valid_dt :: "datetime \<Rightarrow> bool" where
  "valid_dt t = (valid_date (year t) (month t) (day t) \<and>
     valid_time (hour t) (minute t) (second t) (microsecond t))"

text \<open>
  Days since 0001-01-01 and microseconds since that midnight: \<open>date.toordinal\<close>, and the number
  that comparison and subtraction of naive datetimes go by.
\<close>

definition days_before_year :: "nat \<Rightarrow> nat" where
  "days_before_year y = (let z = y - 1 in 365 * z + z div 4 - z div 100 + z div 400)"

definition days_before_month :: "nat \<Rightarrow> nat \<Rightarrow> nat" where
  "days_before_month y m = sum_list (map (days_in_month y) [1..<m])"

definition ordinal :: "datetime \<Rightarrow> nat" where
  "ordinal t = days_before_year (year t) + days_before_month (year t) (month t) + (day t - 1)"

definition time_us :: "datetime \<Rightarrow> int" where
  "time_us t = ((int (hour t) * 60 + int (minute t)) * 60 + int (second t)) * 1000000
     + int (microsecond t)"

definition dt_us :: "datetime \<Rightarrow> int" where
  "dt_us t = int (ordinal t) * 86400000000 + time_us t"

text \<open>\<open>datetime.date()\<close>.\<close>

type_synonym date = "nat \<times> nat \<times> nat"

definition date_of :: "datetime \<Rightarrow> date" where
  "date_of t = (year t, month t, day t)"

text \<open>A number printed with leading zeros to a fixed width, and read back.\<close>

fun padded :: "nat \<Rightarrow> nat \<Rightarrow> string" where
  "padded 0 n = []"
| "padded (Suc w) n = padded w (n div 10) @ [digit_char (n mod 10)]"

definition read_num :: "nat \<Rightarrow> string \<Rightarrow> (nat \<times> string) option" where
  "read_num w s = (if w \<le> length s \<and> list_all is_digit (take w s)
     then Some (foldl (\<lambda>a c. 10 * a + digit_val c) 0 (take w s), drop w s) else None)"

definition read_char :: "char \<Rightarrow> string \<Rightarrow> string option" where
  "read_char c s = (case s of [] \<Rightarrow> None | x # xs \<Rightarrow> if x = c then Some xs else None)"

text \<open>\<open>isoformat()\<close> and \<open>isoformat(timespec="seconds")\<close>.\<close>

definition iso_seconds :: "datetime \<Rightarrow> string" where
  "iso_seconds t = padded 4 (year t) @ ''-'' @ padded 2 (month t) @ ''-'' @ padded 2 (day t)
     @ ''T'' @ padded 2 (hour t) @ '':'' @ padded 2 (minute t) @ '':'' @ padded 2 (second t)"

definition isoformat :: "datetime \<Rightarrow> string" where
  "isoformat t = iso_seconds t
     @ (if microsecond t = 0 then [] else ''.'' @ padded 6 (microsecond t))"

text \<open>
  \<open>datetime.fromisoformat\<close> for naive values: date, any separator character, time to the
  hour, minute, second, millisecond or microsecond.  Texts with a UTC offset, which the program
  never writes, are not modelled and read as malformed.
\<close>

definition parse_date :: "string \<Rightarrow> (date \<times> string) option" where
  "parse_date s = Option.bind (read_num 4 s) (\<lambda>(y, s).
     Option.bind (read_char (CHR ''-'') s) (\<lambda>s.
     Option.bind (read_num 2 s) (\<lambda>(m, s).
     Option.bind (read_char (CHR ''-'') s) (\<lambda>s.
     Option.bind (read_num 2 s) (\<lambda>(d, s).
     if valid_date y m d then Some ((y, m, d), s) else None)))))"

definition parse_fraction :: "string \<Rightarrow> nat option" where
  "parse_fraction s = (if length s = 6 then map_option fst (read_num 6 s)
     else if length s = 3 then map_option (\<lambda>(n, _). n * 1000) (read_num 3 s) else None)"

definition parse_time :: "string \<Rightarrow> (nat \<times> nat \<times> nat \<times> nat) option" where
  "parse_time s = Option.bind (read_num 2 s) (\<lambda>(h, s).
     if s = [] then Some (h, 0, 0, 0) else
     Option.bind (read_char (CHR '':'') s) (\<lambda>s.
     Option.bind (read_num 2 s) (\<lambda>(m, s).
     if s = [] then Some (h, m, 0, 0) else
     Option.bind (read_char (CHR '':'') s) (\<lambda>s.
     Option.bind (read_num 2 s) (\<lambda>(sec, s).
     if s = [] then Some (h, m, sec, 0) else
     Option.bind (read_char (CHR ''.'') s) (\<lambda>s.
     map_option (\<lambda>u. (h, m, sec, u)) (parse_fraction s)))))))"

definition make_dt :: "date \<Rightarrow> nat \<times> nat \<times> nat \<times> nat \<Rightarrow> datetime" where
  "make_dt ymd hmsu = (case (ymd, hmsu) of ((y, m, d), (h, mi, s, u)) \<Rightarrow>
     \<lparr>year = y, month = m, day = d, hour = h, minute = mi, second = s, microsecond = u\<rparr>)"

definition fromisoformat :: "string \<Rightarrow> datetime option" where
  "fromisoformat s = Option.bind (parse_date s) (\<lambda>(ymd, rest).
     case rest of [] \<Rightarrow> Some (make_dt ymd (0, 0, 0, 0))
     | sep # ts \<Rightarrow> Option.bind (parse_time ts) (\<lambda>(h, m, sec, u).
         if valid_time h m sec u then Some (make_dt ymd (h, m, sec, u)) else None))"

lemma length_padded [simp]: "length (padded w n) = w"
  by (induction w arbitrary: n) auto

lemma padded_digits [simp]: "list_all is_digit (padded w n)"
  by (induction w arbitrary: n) auto

lemma foldl_padded: "foldl (\<lambda>a c. 10 * a + digit_val c) 0 (padded w n) = n mod 10 ^ w"
proof (induction w arbitrary: n)
  case (Suc w)
  have "10 * (n div 10 mod 10 ^ w) + n mod 10 = n mod (10 * 10 ^ w)"
    by (simp add: mod_mult2_eq)
  with Suc show ?case by simp
qed simp

lemma read_padded [simp]:
  "n < 10 ^ w \<Longrightarrow> read_num w (padded w n @ s) = Some (n, s)"
  by (simp add: read_num_def foldl_padded)

lemma read_padded_end [simp]: "n < 10 ^ w \<Longrightarrow> read_num w (padded w n) = Some (n, [])"
  using read_padded [of n w "[]"] by simp

lemma read_char_simps [simp]:
  "read_char c (c # s) = Some s"
  "read_char c [] = None"
  by (simp_all add: read_char_def)

lemma days_in_month_le: "days_in_month y m \<le> 31"
  by (simp add: days_in_month_def)

text \<open>Parsing what \<open>isoformat\<close> printed gives the datetime back.\<close>

lemma valid_dt_bounds:
  assumes "valid_dt t"
  shows "year t < 10 ^ 4" "month t < 10 ^ 2" "day t < 10 ^ 2" "hour t < 10 ^ 2"
    "minute t < 10 ^ 2" "second t < 10 ^ 2" "microsecond t < 10 ^ 6"
  using assms days_in_month_le [of "year t" "month t"]
  by (auto simp: valid_dt_def valid_date_def valid_time_def)

lemma parse_date_print:
  assumes "valid_dt t"
  shows "parse_date (padded 4 (year t) @ CHR ''-'' # padded 2 (month t) @ CHR ''-'' # padded 2 (day t) @ s)
    = Some (date_of t, s)"
  using assms valid_dt_bounds [OF assms]
  by (simp add: parse_date_def date_of_def valid_dt_def del: padded.simps)

lemma parse_time_print:
  assumes "valid_dt t"
  shows "parse_time (padded 2 (hour t) @ CHR '':'' # padded 2 (minute t) @ CHR '':'' # padded 2 (second t)
      @ (if microsecond t = 0 then [] else CHR ''.'' # padded 6 (microsecond t)))
    = Some (hour t, minute t, second t, microsecond t)"
  using valid_dt_bounds [OF assms]
  by (auto simp: parse_time_def parse_fraction_def simp del: padded.simps)

lemma make_dt_fields [simp]:
  "make_dt (date_of t) (hour t, minute t, second t, microsecond t) = t"
  by (simp add: make_dt_def date_of_def)

lemma fromisoformat_isoformat [simp]: "valid_dt t \<Longrightarrow> fromisoformat (isoformat t) = Some t"
  using parse_date_print [of t] parse_time_print [of t]
  by (cases "microsecond t = 0")
    (simp_all add: fromisoformat_def isoformat_def iso_seconds_def valid_dt_def make_dt_def date_of_def
      del: padded.simps)

lemma isoformat_nonempty [simp]: "isoformat t \<noteq> []"
  by (simp add: isoformat_def iso_seconds_def)

definition sample_now :: datetime where
  "sample_now = \<lparr>year = 2026, month = 5, day = 12, hour = 18, minute = 30, second = 0, microsecond = 0\<rparr>"

subsection \<open>JSON values\<close>

datatype json = JNull | JBool bool | JInt int | JFloat rat | JStr string
  | JArr "json list" | JObj "(string \<times> json) list"

text \<open>Python's truth value of a loaded JSON value.\<close>

fun truthy :: "json \<Rightarrow> bool" where
  "truthy JNull = False"
| "truthy (JBool b) = b"
| "truthy (JInt n) = (n \<noteq> 0)"
| "truthy (JFloat x) = (x \<noteq> 0)"
| "truthy (JStr s) = (s \<noteq> [])"
| "truthy (JArr xs) = (xs \<noteq> [])"
| "truthy (JObj kvs) = (kvs \<noteq> [])"

text \<open>\<open>int(v)\<close>: booleans are 0 and 1, floats truncate towards zero, strings are parsed.\<close>

definition trunc_rat :: "rat \<Rightarrow> int" where
  "trunc_rat x = (if x < 0 then \<lceil>x\<rceil> else \<lfloor>x\<rfloor>)"

fun json_int :: "json \<Rightarrow> int result" where
  "json_int (JBool b) = Inr (if b then 1 else 0)"
| "json_int (JInt n) = Inr n"
| "json_int (JFloat x) = Inr (trunc_rat x)"
| "json_int (JStr s) = (case py_int s of None \<Rightarrow> Inl ValueError | Some n \<Rightarrow> Inr n)"
| "json_int _ = Inl TypeError"

text \<open>\<open>list(v)\<close> and iteration: strings give characters, objects their keys.\<close>

fun json_list :: "json \<Rightarrow> json list result" where
  "json_list (JArr xs) = Inr xs"
| "json_list (JStr s) = Inr (map (\<lambda>c. JStr [c]) s)"
| "json_list (JObj kvs) = Inr (map (\<lambda>(k, _). JStr k) kvs)"
| "json_list _ = Inl TypeError"

text \<open>\<open>v.get(k)\<close>: only objects have it.\<close>

fun json_get :: "json \<Rightarrow> string \<Rightarrow> json option result" where
  "json_get (JObj kvs) k = Inr (map_of kvs k)"
| "json_get _ k = Inl AttributeError"

text \<open>Sequencing of computations that may raise, and a traversal that stops at the first raise.\<close>

definition bind_r :: "'a result \<Rightarrow> ('a \<Rightarrow> 'b result) \<Rightarrow> 'b result" where
  "bind_r m f = (case m of Inl e \<Rightarrow> Inl e | Inr x \<Rightarrow> f x)"

fun fold_r :: "('a \<Rightarrow> 's \<Rightarrow> 's result) \<Rightarrow> 'a list \<Rightarrow> 's \<Rightarrow> 's result" where
  "fold_r f [] s = Inr s"
| "fold_r f (x # xs) s = bind_r (f x s) (fold_r f xs)"

lemma bind_r_simps [simp]: "bind_r (Inr x) f = f x" "bind_r (Inl e) f = Inl e"
  by (simp_all add: bind_r_def)

lemma fold_r_id: "\<forall>x \<in> set xs. f x s = Inr s \<Longrightarrow> fold_r f xs s = Inr s"
  by (induction xs) auto

text \<open>
  A traversal whose steps succeed from states satisfying \<open>P\<close>, move along a preorder \<open>R\<close> and
  establish \<open>Q x\<close>, succeeds and establishes \<open>Q\<close> for every element visited.
\<close>

lemma fold_r_progress:
  assumes "\<And>x s. x \<in> set xs \<Longrightarrow> P s \<Longrightarrow> \<exists>s'. f x s = Inr s' \<and> R s s' \<and> Q x s'"
    and "\<And>s. R s s" and "\<And>a b c. R a b \<Longrightarrow> R b c \<Longrightarrow> R a c"
    and "\<And>s s'. R s s' \<Longrightarrow> P s \<Longrightarrow> P s'" and "\<And>x s s'. R s s' \<Longrightarrow> Q x s \<Longrightarrow> Q x s'"
    and "P s"
  shows "\<exists>s'. fold_r f xs s = Inr s' \<and> R s s' \<and> (\<forall>x \<in> set xs. Q x s')"
  using assms(1,6)
proof (induction xs arbitrary: s)
  case Nil
  show ?case using assms(2) by simp
next
  case (Cons x xs)
  obtain s1 where 1: "f x s = Inr s1" "R s s1" "Q x s1" using Cons.prems by (meson list.set_intros(1))
  have "P s1" using assms(4) 1(2) Cons.prems(2) by blast
  then obtain s2 where 2: "fold_r f xs s1 = Inr s2" "R s1 s2" "\<forall>y \<in> set xs. Q y s2"
    using Cons.IH Cons.prems(1) by (meson list.set_intros(2))
  show ?case using 1 2 assms(3,5) by (metis bind_r_simps(1) fold_r.simps(2) set_ConsD)
qed

text \<open>\<open>json.dump(..., sort_keys=True)\<close> followed by \<open>json.load\<close>: object keys come back sorted.\<close>

function json_sort :: "json \<Rightarrow> json" where
  "json_sort (JArr xs) = JArr (map json_sort xs)"
| "json_sort (JObj kvs) = JObj (sort_key fst (map (\<lambda>kv. (fst kv, json_sort (snd kv))) kvs))"
| "json_sort JNull = JNull"
| "json_sort (JBool b) = JBool b"
| "json_sort (JInt n) = JInt n"
| "json_sort (JFloat x) = JFloat x"
| "json_sort (JStr s) = JStr s"
  by pat_completeness auto
termination
proof (relation "measure size", goal_cases)
  case (2 xs x)
  then show ?case
    by (simp add: less_Suc_eq_le size_list_estimation')
next
  case (3 kvs kv)
  have "size (snd kv) \<le> size_prod (\<lambda>_. 0) size kv"
    by (cases kv) simp
  with 3 have "size (snd kv) \<le> size_list (size_prod (\<lambda>_. 0) size) kvs"
    by (metis size_list_estimation' order_refl)
  then show ?case by simp
qed simp

lemma map_of_sort_key:
  assumes "distinct (map fst xs)"
  shows "map_of (sort_key fst xs) = map_of (xs :: (string \<times> 'a) list)"
proof -
  have "distinct (map fst (sort_key fst xs))"
    using assms by (metis mset_eq_imp_distinct_iff mset_map mset_sort)
  then have "map_of (sort_key fst xs) k = Some v \<longleftrightarrow> map_of xs k = Some v" for k v
    using assms by (simp add: map_of_eq_Some_iff)
  then show ?thesis by (intro ext) (metis not_Some_eq)
qed

end
