(* ===== verification/Json_Store.thy ===== *)
theory Json_Store
  imports Atomic_File Py_Data
begin

text \<open>
  The persistence interface of \<open>aruba_agent/store\<close> and its JSON file backend
  (\<open>store/json_store.py\<close>).  A backend gives back what was last saved, up to the order of the keys
  of objects; the locale \<open>snapshot_store\<close> is what \<open>AgentState\<close> relies on.
\<close>

subsection \<open>The contract of a snapshot store\<close>

text \<open>How a backend may change a value on its way through: keys of an object may be permuted.\<close>

locale key_permuting =
  fixes norm :: "json \<Rightarrow> json"
  assumes norm_scalar:
      "norm JNull = JNull" "norm (JBool b) = JBool b" "norm (JInt n) = JInt n"
      "norm (JFloat x) = JFloat x" "norm (JStr s) = JStr s"
    and norm_arr: "norm (JArr xs) = JArr (map norm xs)"
    and norm_obj: "\<exists>kvs'. norm (JObj kvs) = JObj kvs' \<and> mset kvs' = mset (map (apsnd norm) kvs)"
begin

lemma norm_obj_entries:
  assumes "distinct (map fst kvs)"
  obtains kvs' where "norm (JObj kvs) = JObj kvs'" "mset kvs' = mset (map (apsnd norm) kvs)"
    "distinct (map fst kvs')" "map_of kvs' = (\<lambda>k. map_option norm (map_of kvs k))"
proof -
  obtain kvs' where k: "norm (JObj kvs) = JObj kvs'" "mset kvs' = mset (map (apsnd norm) kvs)"
    using norm_obj by blast
  have keys: "map fst (map (apsnd norm) kvs) = map fst kvs" by (induction kvs) auto
  have d: "distinct (map fst kvs')"
    using assms k(2) keys by (metis mset_map mset_eq_imp_distinct_iff)
  have s: "set kvs' = apsnd norm ` set kvs" using k(2) by (metis list.set_map set_mset_mset)
  have "map_of kvs' q = map_option norm (map_of kvs q)" for q
  proof (cases "map_of kvs q")
    case None
    then have "q \<notin> fst ` set kvs'" by (force simp: s map_of_eq_None_iff)
    then have "map_of kvs' q = None" by (simp add: map_of_eq_None_iff)
    then show ?thesis using None by simp
  next
    case (Some v)
    then have "(q, norm v) \<in> set kvs'" using s by (force dest: map_of_SomeD)
    then show ?thesis using Some d by simp
  qed
  then show ?thesis using that [OF k(1) k(2) d] by blast
qed

lemma norm_get:
  "distinct (map fst kvs) \<Longrightarrow> json_get (norm (JObj kvs)) k = Inr (map_option norm (map_of kvs k))"
  by (erule norm_obj_entries) simp

end

locale snapshot_store = key_permuting +
  fixes load :: "'s \<Rightarrow> json option"
    and save :: "json \<Rightarrow> 's \<Rightarrow> 's"
    and durable :: "'s \<Rightarrow> bool"
  assumes load_save: "durable s \<Longrightarrow> load (save p s) = Some (norm p)"
    and durable_save: "durable s \<Longrightarrow> durable (save p s)"
    and save_lost: "load (save p s) = Some (norm p) \<or> load (save p s) = load s"
begin

lemma load_last_save: "durable s \<Longrightarrow> load (foldl (\<lambda>s p. save p s) s (ps @ [p])) = Some (norm p)"
proof -
  assume "durable s"
  then have "durable (foldl (\<lambda>s p. save p s) s ps)"
    by (induction ps arbitrary: s) (simp_all add: durable_save)
  then show ?thesis by (simp add: load_save)
qed

end

subsection \<open>\<open>JsonStore\<close>\<close>

text \<open>
  \<open>has_path\<close> is \<open>path is not None\<close>.  Which file-system steps currently fail is part of the
  environment, kept beside the disk; the store's own code never changes it.
\<close>

record json_store =
  has_path :: bool
  snapshot :: "json disk"
  io_faults :: faults

definition json_store_load :: "json_store \<Rightarrow> json option" where
  "json_store_load s = (if \<not> has_path s then None
     else case target (snapshot s) of Missing \<Rightarrow> None | Corrupt \<Rightarrow> None | Holds j \<Rightarrow> Some j)"

text \<open>
  As \<open>_save\<close> of the registries but without the two mode changes, and every \<open>OSError\<close> ends in a
  log line: the caller never learns that the snapshot was not written.
\<close>

definition json_store_save :: "json \<Rightarrow> json_store \<Rightarrow> json_store" where
  "json_store_save p s =
     (if \<not> has_path s then s
      else let fail = io_faults s; doc = json_sort p in
        case run_steps fail mode600 doc [MkDir, MkTemp] (snapshot s) of
          (False, d1) \<Rightarrow> s\<lparr>snapshot := d1\<rparr>
        | (True, d1) \<Rightarrow>
            (case run_steps fail mode600 doc [Dump, FSync, Replace] d1 of
               (False, d2) \<Rightarrow>
                 s\<lparr>snapshot := if fail Unlink then d2 else step_effect mode600 doc Unlink d2\<rparr>
             | (True, d2) \<Rightarrow> s\<lparr>snapshot := d2\<rparr>))"

text \<open>The time-series, FDB, neighbour and trap operations of the JSON backend are no-ops.\<close>

definition json_store_query :: "json_store \<Rightarrow> json list" where
  "json_store_query s = []"

definition json_store_ok :: "json_store \<Rightarrow> bool" where
  "json_store_ok s = (has_path s \<and> (\<forall>st \<in> {MkDir, MkTemp, Dump, FSync, Replace}. \<not> io_faults s st))"

definition open_json_store :: json_store where
  "open_json_store = \<lparr>has_path = True,
     snapshot = \<lparr>target = Missing, target_mode = 0, temp = None\<rparr>, io_faults = no_faults\<rparr>"

lemma json_sort_obj_mset:
  "\<exists>kvs'. json_sort (JObj kvs) = JObj kvs' \<and> mset kvs' = mset (map (apsnd json_sort) kvs)"
  by (auto simp: apsnd_def map_prod_def case_prod_unfold intro!: arg_cong [where f = mset])

lemma json_store_save_env [simp]:
  "has_path (json_store_save p s) = has_path s" "io_faults (json_store_save p s) = io_faults s"
  by (auto simp: json_store_save_def Let_def)

lemma json_store_load_save:
  "json_store_load (json_store_save p s) = Some (json_sort p)
   \<or> json_store_load (json_store_save p s) = json_store_load s"
  by (auto simp: json_store_save_def json_store_load_def Let_def)

lemma json_store_ok_save:
  "json_store_ok s \<Longrightarrow> json_store_load (json_store_save p s) = Some (json_sort p)"
  by (simp add: json_store_ok_def json_store_save_def json_store_load_def Let_def)

lemma json_store_ok_simps [simp]:
  "json_store_ok (json_store_save p s) = json_store_ok s"
  "json_store_ok open_json_store"
  by (simp_all add: json_store_ok_def open_json_store_def)

lemma json_store_save_faulty:
  "io_faults s Replace \<Longrightarrow> json_store_load (json_store_save p s) = json_store_load s"
  by (auto simp: json_store_save_def json_store_load_def Let_def)

interpretation js: snapshot_store json_sort json_store_load json_store_save json_store_ok
proof (unfold_locales, goal_cases)
  case (7 kvs)
  show ?case by (rule json_sort_obj_mset)
next
  case (10 p s)
  show ?case by (rule json_store_load_save)
qed (simp_all add: json_store_ok_save)

end
