(* ===== verification/Agent_State.thy ===== *)
theory Agent_State
  imports Json_Store
begin

text \<open>
  The shared state of the agent, \<open>aruba_agent/state.py\<close>: the tracked switches, the last backup
  run, the scanner inventory and the ARP timestamps, with the snapshot they are persisted to.
  The lock makes every operation atomic, so each is one function from state to state.  The clock
  (\<open>datetime.now()\<close>) is an argument.
\<close>

subsection \<open>Data\<close>

record switch_state =
  sw_name :: string
  sw_host :: string
  sw_hostname :: string
  sw_vendor :: string
  sw_os_version :: string
  sw_snmp_profile :: string
  sw_monitor_mode :: string
  sw_is_down :: bool
  sw_failures :: int
  sw_last_seen :: "datetime option"
  sw_last_event :: string
  sw_snmp_ok :: bool
  sw_alerts_muted :: bool
  sw_mute_until :: "datetime option"
  sw_unmanaged :: bool

definition new_switch :: "string \<Rightarrow> string \<Rightarrow> string \<Rightarrow> switch_state" where
  "new_switch name host mode =
     \<lparr>sw_name = name, sw_host = host, sw_hostname = [], sw_vendor = [], sw_os_version = [],
      sw_snmp_profile = [], sw_monitor_mode = mode, sw_is_down = False, sw_failures = 0,
      sw_last_seen = None, sw_last_event = ''Initializing'', sw_snmp_ok = True,
      sw_alerts_muted = False, sw_mute_until = None, sw_unmanaged = False\<rparr>"

record backup_run =
  br_timestamp :: "datetime option"
  br_success :: int
  br_failed :: int
  br_failed_devices :: "json list"

definition empty_backup :: backup_run where
  "empty_backup = \<lparr>br_timestamp = None, br_success = 0, br_failed = 0, br_failed_devices = []\<rparr>"

record agent_data =
  switches :: "(string, switch_state) dict"
  backup :: backup_run
  device_inventory :: "json list"
  scanner_last_run :: "datetime option"
  arp_last_run :: "(string, datetime option) dict"

record agent_state = agent_data +
  store :: json_store

definition empty_data :: agent_data where
  "empty_data = \<lparr>switches = [], backup = empty_backup, device_inventory = [],
     scanner_last_run = None, arp_last_run = []\<rparr>"

subsection \<open>Writing the snapshot: \<open>_save\<close>\<close>

definition iso :: "datetime option \<Rightarrow> json" where
  "iso dt = (case dt of None \<Rightarrow> JNull | Some t \<Rightarrow> JStr (isoformat t))"

definition parse_iso :: "json \<Rightarrow> datetime option" where
  "parse_iso v = (case v of JStr s \<Rightarrow> (if s = [] then None else fromisoformat s) | _ \<Rightarrow> None)"

definition switch_json :: "switch_state \<Rightarrow> json" where
  "switch_json s = JObj
     [(''name'', JStr (sw_name s)), (''host'', JStr (sw_host s)),
      (''hostname'', JStr (sw_hostname s)), (''vendor'', JStr (sw_vendor s)),
      (''os_version'', JStr (sw_os_version s)), (''snmp_profile'', JStr (sw_snmp_profile s)),
      (''monitor_mode'', JStr (sw_monitor_mode s)), (''is_down'', JBool (sw_is_down s)),
      (''snmp_ok'', JBool (sw_snmp_ok s)), (''alerts_muted'', JBool (sw_alerts_muted s)),
      (''mute_until'', iso (sw_mute_until s)), (''unmanaged'', JBool (sw_unmanaged s)),
      (''failures'', JInt (sw_failures s)), (''last_seen'', iso (sw_last_seen s)),
      (''last_event'', JStr (sw_last_event s))]"

definition backup_json :: "backup_run \<Rightarrow> json" where
  "backup_json b = JObj
     [(''timestamp'', iso (br_timestamp b)), (''success_count'', JInt (br_success b)),
      (''failed_count'', JInt (br_failed b)), (''failed_devices'', JArr (br_failed_devices b))]"

definition payload :: "'a agent_data_scheme \<Rightarrow> json" where
  "payload st = JObj
     [(''switches'', JArr (map switch_json (dvals (switches st)))),
      (''backup'', backup_json (backup st)),
      (''device_inventory'', JArr (device_inventory st)),
      (''scanner_last_run'', iso (scanner_last_run st)),
      (''arp_last_run'', JObj (map (\<lambda>(loc, ts). (loc, iso ts)) (arp_last_run st)))]"

definition save_state :: "agent_state \<Rightarrow> agent_state" where
  "save_state st = st\<lparr>store := json_store_save (payload st) (store st)\<rparr>"

subsection \<open>Reading it back: \<open>_load\<close>\<close>

text \<open>
  \<open>entry.get(k, d) or d\<close> for the string fields.  A truthy value that is not a string, which the
  code never writes, is read as malformed here.
\<close>

definition str_field :: "json \<Rightarrow> string \<Rightarrow> string \<Rightarrow> string result" where
  "str_field e k d = bind_r (json_get e k) (\<lambda>v. case v of
       None \<Rightarrow> Inr d
     | Some (JStr s) \<Rightarrow> Inr (or_else s d)
     | Some j \<Rightarrow> if truthy j then Inl TypeError else Inr d)"

definition bool_field :: "json \<Rightarrow> string \<Rightarrow> bool \<Rightarrow> bool result" where
  "bool_field e k d = bind_r (json_get e k) (\<lambda>v. Inr (case v of None \<Rightarrow> d | Some j \<Rightarrow> truthy j))"

definition int_field :: "json \<Rightarrow> string \<Rightarrow> int \<Rightarrow> int result" where
  "int_field e k d = bind_r (json_get e k) (\<lambda>v. case v of None \<Rightarrow> Inr d | Some j \<Rightarrow> json_int j)"

definition time_field :: "json \<Rightarrow> string \<Rightarrow> datetime option result" where
  "time_field e k = bind_r (json_get e k)
     (\<lambda>v. Inr (case v of None \<Rightarrow> None | Some j \<Rightarrow> parse_iso j))"

definition event_field :: "json \<Rightarrow> string result" where
  "event_field e = bind_r (json_get e ''last_event'') (\<lambda>v. case v of
       None \<Rightarrow> Inr ''Restored from snapshot'' | Some (JStr s) \<Rightarrow> Inr s | Some _ \<Rightarrow> Inl TypeError)"

definition list_field :: "json \<Rightarrow> string \<Rightarrow> json list result" where
  "list_field e k = bind_r (json_get e k) (\<lambda>v. case v of None \<Rightarrow> Inr [] | Some j \<Rightarrow> json_list j)"

definition load_switch :: "json \<Rightarrow> (string, switch_state) dict \<Rightarrow> (string, switch_state) dict result" where
  "load_switch e d =
     bind_r (str_field e ''name'' []) (\<lambda>name.
     bind_r (str_field e ''host'' []) (\<lambda>host.
     if name = [] \<or> host = [] then Inr d else
     bind_r (str_field e ''hostname'' []) (\<lambda>hostname.
     bind_r (str_field e ''vendor'' []) (\<lambda>vendor.
     bind_r (str_field e ''os_version'' []) (\<lambda>os_version.
     bind_r (str_field e ''snmp_profile'' []) (\<lambda>snmp_profile.
     bind_r (str_field e ''monitor_mode'' ''auto'') (\<lambda>monitor_mode.
     bind_r (bool_field e ''is_down'' False) (\<lambda>is_down.
     bind_r (bool_field e ''snmp_ok'' True) (\<lambda>snmp_ok.
     bind_r (bool_field e ''alerts_muted'' False) (\<lambda>alerts_muted.
     bind_r (time_field e ''mute_until'') (\<lambda>mute_until.
     bind_r (bool_field e ''unmanaged'' False) (\<lambda>unmanaged.
     bind_r (int_field e ''failures'' 0) (\<lambda>failures.
     bind_r (time_field e ''last_seen'') (\<lambda>last_seen.
     bind_r (event_field e) (\<lambda>last_event.
     Inr (dset name \<lparr>sw_name = name, sw_host = host, sw_hostname = hostname, sw_vendor = vendor,
       sw_os_version = os_version, sw_snmp_profile = snmp_profile,
       sw_monitor_mode = monitor_mode, sw_is_down = is_down, sw_failures = failures,
       sw_last_seen = last_seen, sw_last_event = last_event, sw_snmp_ok = snmp_ok,
       sw_alerts_muted = alerts_muted, sw_mute_until = mute_until, sw_unmanaged = unmanaged\<rparr> d)
     )))))))))))))))"

text \<open>\<open>data.get(k) or {}\<close>.\<close>

definition obj_field :: "json \<Rightarrow> string \<Rightarrow> json result" where
  "obj_field e k = bind_r (json_get e k) (\<lambda>v. Inr (case v of
     None \<Rightarrow> JObj [] | Some j \<Rightarrow> if truthy j then j else JObj []))"

definition load_backup :: "json \<Rightarrow> backup_run result" where
  "load_backup data = bind_r (obj_field data ''backup'') (\<lambda>b.
     bind_r (time_field b ''timestamp'') (\<lambda>ts.
     bind_r (int_field b ''success_count'' 0) (\<lambda>ok.
     bind_r (int_field b ''failed_count'' 0) (\<lambda>bad.
     bind_r (list_field b ''failed_devices'') (\<lambda>devs.
     Inr \<lparr>br_timestamp = ts, br_success = ok, br_failed = bad, br_failed_devices = devs\<rparr>)))))"

definition load_arp :: "json \<Rightarrow> (string, datetime option) dict result" where
  "load_arp data = bind_r (obj_field data ''arp_last_run'') (\<lambda>a.
     case a of JObj kvs \<Rightarrow> Inr (foldl (\<lambda>d (k, v). dset k (parse_iso v) d) [] kvs)
     | _ \<Rightarrow> Inl AttributeError)"

definition load_data :: "json \<Rightarrow> agent_data result" where
  "load_data data =
     bind_r (list_field data ''switches'') (\<lambda>es.
     bind_r (fold_r load_switch es []) (\<lambda>sws.
     bind_r (load_backup data) (\<lambda>b.
     bind_r (list_field data ''device_inventory'') (\<lambda>inv.
     bind_r (time_field data ''scanner_last_run'') (\<lambda>last.
     bind_r (load_arp data) (\<lambda>arp.
     Inr \<lparr>switches = sws, backup = b, device_inventory = inv, scanner_last_run = last,
          arp_last_run = arp\<rparr>))))))"

text \<open>\<open>AgentState.__init__\<close>: a missing, empty or malformed snapshot starts empty.\<close>

definition load_snapshot :: "json option \<Rightarrow> agent_data" where
  "load_snapshot snap = (case snap of
       None \<Rightarrow> empty_data
     | Some data \<Rightarrow> if \<not> truthy data then empty_data
         else (case load_data data of Inl _ \<Rightarrow> empty_data | Inr d \<Rightarrow> d))"

definition open_state :: "json_store \<Rightarrow> agent_state" where
  "open_state s = agent_data.extend (load_snapshot (json_store_load s)) \<lparr>store = s\<rparr>"

subsection \<open>Operations\<close>

abbreviation get_switch :: "agent_state \<Rightarrow> string \<Rightarrow> switch_state option" where
  "get_switch st name \<equiv> dget (switches st) name"

definition put_switch :: "string \<Rightarrow> switch_state \<Rightarrow> agent_state \<Rightarrow> agent_state" where
  "put_switch name sw st = st\<lparr>switches := dset name sw (switches st)\<rparr>"

definition register_switch :: "string \<Rightarrow> string \<Rightarrow> string \<Rightarrow> agent_state \<Rightarrow> agent_state" where
  "register_switch name host mode st = (case get_switch st name of
       None \<Rightarrow> save_state (put_switch name (new_switch name host mode) st)
     | Some sw \<Rightarrow>
         if mode \<noteq> [] \<and> sw_monitor_mode sw \<noteq> mode
         then save_state (put_switch name (sw\<lparr>sw_monitor_mode := mode\<rparr>) st)
         else st)"

text \<open>The four lookups by host scan the switches in registration order.\<close>

definition switch_for_host :: "agent_state \<Rightarrow> string \<Rightarrow> switch_state option" where
  "switch_for_host st h = find (\<lambda>sw. sw_host sw = h) (dvals (switches st))"

definition get_mode_for_host :: "agent_state \<Rightarrow> string \<Rightarrow> string" where
  "get_mode_for_host st h = (case switch_for_host st h of
     None \<Rightarrow> ''auto'' | Some sw \<Rightarrow> or_else (sw_monitor_mode sw) ''auto'')"

definition get_vendor_for_host :: "agent_state \<Rightarrow> string \<Rightarrow> string" where
  "get_vendor_for_host st h = (case switch_for_host st h of None \<Rightarrow> [] | Some sw \<Rightarrow> sw_vendor sw)"

definition get_hostname_for_host :: "agent_state \<Rightarrow> string \<Rightarrow> string" where
  "get_hostname_for_host st h =
     (case switch_for_host st h of None \<Rightarrow> [] | Some sw \<Rightarrow> sw_hostname sw)"

definition get_snmp_profile_for_host :: "agent_state \<Rightarrow> string \<Rightarrow> string" where
  "get_snmp_profile_for_host st h =
     (case switch_for_host st h of None \<Rightarrow> [] | Some sw \<Rightarrow> sw_snmp_profile sw)"

definition pin_vendor :: "string \<Rightarrow> string \<Rightarrow> agent_state \<Rightarrow> agent_state" where
  "pin_vendor name vendor st = (case get_switch st name of
       None \<Rightarrow> st
     | Some sw \<Rightarrow> if sw_vendor sw \<noteq> vendor
         then save_state (put_switch name (sw\<lparr>sw_vendor := vendor\<rparr>) st) else st)"

definition set_switch_profile :: "string \<Rightarrow> string \<Rightarrow> agent_state \<Rightarrow> bool \<times> agent_state" where
  "set_switch_profile name profile st = (case get_switch st name of
       None \<Rightarrow> (False, st)
     | Some sw \<Rightarrow> (True, save_state (put_switch name (sw\<lparr>sw_snmp_profile := profile\<rparr>) st)))"

definition set_os_version :: "string \<Rightarrow> string \<Rightarrow> agent_state \<Rightarrow> bool \<times> agent_state" where
  "set_os_version name v st = (case get_switch st name of
       None \<Rightarrow> (False, st)
     | Some sw \<Rightarrow> if v = sw_os_version sw then (False, st)
         else (True, save_state (put_switch name (sw\<lparr>sw_os_version := v\<rparr>) st)))"

definition set_snmp_health :: "string \<Rightarrow> bool \<Rightarrow> agent_state \<Rightarrow> bool \<times> agent_state" where
  "set_snmp_health name ok st = (case get_switch st name of
       None \<Rightarrow> (False, st)
     | Some sw \<Rightarrow> if ok = sw_snmp_ok sw then (False, st)
         else (True, save_state (put_switch name (sw\<lparr>sw_snmp_ok := ok\<rparr>) st)))"

definition set_alert_mute ::
    "string \<Rightarrow> bool \<Rightarrow> datetime option \<Rightarrow> agent_state \<Rightarrow> bool \<times> agent_state" where
  "set_alert_mute name muted until st = (case get_switch st name of
       None \<Rightarrow> (False, st)
     | Some sw \<Rightarrow> (True, save_state (put_switch name
         (sw\<lparr>sw_alerts_muted := muted, sw_mute_until := if muted then until else None\<rparr>) st)))"

text \<open>An expired mute is cleared, and the clear persisted, by the query itself.\<close>

definition alerts_suppressed :: "datetime \<Rightarrow> string \<Rightarrow> agent_state \<Rightarrow> bool \<times> agent_state" where
  "alerts_suppressed now name st = (case get_switch st name of
       None \<Rightarrow> (False, st)
     | Some sw \<Rightarrow>
         if \<not> sw_alerts_muted sw then (False, st)
         else (case sw_mute_until sw of
             None \<Rightarrow> (True, st)
           | Some u \<Rightarrow>
               if dt_us u \<le> dt_us now
               then (False, save_state (put_switch name
                       (sw\<lparr>sw_alerts_muted := False, sw_mute_until := None\<rparr>) st))
               else (True, st)))"

definition set_unmanaged :: "string \<Rightarrow> bool \<Rightarrow> agent_state \<Rightarrow> bool \<times> agent_state" where
  "set_unmanaged name u st = (case get_switch st name of
       None \<Rightarrow> (False, st)
     | Some sw \<Rightarrow> (True, save_state (put_switch name (sw\<lparr>sw_unmanaged := u\<rparr>) st)))"

definition remove_switch :: "string \<Rightarrow> agent_state \<Rightarrow> bool \<times> agent_state" where
  "remove_switch name st = (if \<not> has_key (switches st) name then (False, st)
     else (True, save_state (st\<lparr>switches := ddel name (switches st)\<rparr>)))"

text \<open>The keyword arguments \<open>update_switch\<close> is called with, applied by \<open>setattr\<close> in order.\<close>

datatype switch_update = Vendor string | Profile string | Hostname string
  | LastSeen "datetime option" | Failures int | LastEvent string | IsDown bool

fun apply_update :: "switch_update \<Rightarrow> switch_state \<Rightarrow> switch_state" where
  "apply_update (Vendor v) sw = sw\<lparr>sw_vendor := v\<rparr>"
| "apply_update (Profile p) sw = sw\<lparr>sw_snmp_profile := p\<rparr>"
| "apply_update (Hostname h) sw = sw\<lparr>sw_hostname := h\<rparr>"
| "apply_update (LastSeen t) sw = sw\<lparr>sw_last_seen := t\<rparr>"
| "apply_update (Failures n) sw = sw\<lparr>sw_failures := n\<rparr>"
| "apply_update (LastEvent e) sw = sw\<lparr>sw_last_event := e\<rparr>"
| "apply_update (IsDown b) sw = sw\<lparr>sw_is_down := b\<rparr>"

definition update_switch :: "string \<Rightarrow> switch_update list \<Rightarrow> agent_state \<Rightarrow> agent_state" where
  "update_switch name kwargs st = (case get_switch st name of
       None \<Rightarrow> st
     | Some sw \<Rightarrow> let sw' = fold apply_update kwargs sw; st' = put_switch name sw' st
         in if sw_is_down sw \<noteq> sw_is_down sw' then save_state st' else st')"

definition set_backup_result :: "datetime \<Rightarrow> int \<Rightarrow> int \<Rightarrow> json list \<Rightarrow> agent_state \<Rightarrow> agent_state" where
  "set_backup_result now ok bad devs st = save_state (st\<lparr>backup :=
     \<lparr>br_timestamp = Some now, br_success = ok, br_failed = bad, br_failed_devices = devs\<rparr>\<rparr>)"

definition set_device_inventory :: "datetime \<Rightarrow> json list \<Rightarrow> agent_state \<Rightarrow> agent_state" where
  "set_device_inventory now devs st =
     save_state (st\<lparr>device_inventory := devs, scanner_last_run := Some now\<rparr>)"

definition set_arp_last_run :: "datetime \<Rightarrow> string \<Rightarrow> agent_state \<Rightarrow> agent_state" where
  "set_arp_last_run now loc st =
     save_state (st\<lparr>arp_last_run := dset loc (Some now) (arp_last_run st)\<rparr>)"

text \<open>What the web API serves.\<close>

definition switch_view :: "switch_state \<Rightarrow> json" where
  "switch_view s = JObj
     [(''name'', JStr (sw_name s)), (''host'', JStr (sw_host s)),
      (''hostname'', JStr (or_else (sw_hostname s) (sw_name s))), (''vendor'', JStr (sw_vendor s)),
      (''os_version'', JStr (sw_os_version s)), (''snmp_profile'', JStr (sw_snmp_profile s)),
      (''monitor_mode'', JStr (or_else (sw_monitor_mode s) ''auto'')),
      (''is_down'', JBool (sw_is_down s)), (''snmp_ok'', JBool (sw_snmp_ok s)),
      (''alerts_muted'', JBool (sw_alerts_muted s)), (''mute_until'', iso (sw_mute_until s)),
      (''unmanaged'', JBool (sw_unmanaged s)), (''failures'', JInt (sw_failures s)),
      (''last_seen'', iso (sw_last_seen s)), (''last_event'', JStr (sw_last_event s)),
      (''status'', JStr (if sw_is_down s then ''DOWN'' else ''UP''))]"

definition to_dict :: "agent_state \<Rightarrow> json" where
  "to_dict st = JObj
     [(''switches'', JArr (map switch_view (dvals (switches st)))),
      (''backup'', backup_json (backup st)),
      (''scanner'', JObj [(''last_run'', iso (scanner_last_run st)),
         (''device_count'', JInt (int (length (device_inventory st)))),
         (''devices'', JArr (device_inventory st))]),
      (''arp_last_run'', JObj (map (\<lambda>(loc, ts). (loc, iso ts)) (arp_last_run st)))]"

end
