(* ===== verification/Agent_State_Proofs.thy ===== *)
theory Agent_State_Proofs
  imports Agent_State
begin

text \<open>
  Correctness of the shared state: what every operation keeps of the invariant, that a restart
  restores what was saved, and which part of the state is on disk at every moment.
\<close>

subsection \<open>Well-formed states\<close>

definition time_ok :: "datetime option \<Rightarrow> bool" where
  "time_ok t = (case t of None \<Rightarrow> True | Some d \<Rightarrow> valid_dt d)"

definition switch_ok :: "string \<Rightarrow> switch_state \<Rightarrow> bool" where
  "switch_ok k s = (sw_name s = k \<and> k \<noteq> [] \<and> sw_host s \<noteq> [] \<and> sw_monitor_mode s \<noteq> []
     \<and> time_ok (sw_last_seen s) \<and> time_ok (sw_mute_until s))"

definition data_ok :: "'a agent_data_scheme \<Rightarrow> bool" where
  "data_ok st = (dict_ok switch_ok (switches st) \<and> time_ok (br_timestamp (backup st))
     \<and> time_ok (scanner_last_run st) \<and> dict_ok (\<lambda>_. time_ok) (arp_last_run st))"

lemma time_ok_simps [simp]: "time_ok None" "time_ok (Some d) = valid_dt d"
  by (simp_all add: time_ok_def)

lemma fromisoformat_valid: "fromisoformat s = Some t \<Longrightarrow> valid_dt t"
  by (auto simp: fromisoformat_def parse_date_def make_dt_def valid_dt_def valid_time_def
      split: Option.bind_splits prod.splits list.splits if_splits)

lemma parse_iso_ok [simp]: "time_ok (parse_iso j)"
  by (auto simp: parse_iso_def time_ok_def dest: fromisoformat_valid
      split: json.splits option.splits)

lemma parse_iso_iso [simp]: "time_ok t \<Longrightarrow> parse_iso (iso t) = t"
  by (cases t) (simp_all add: iso_def parse_iso_def)

lemma save_state_data [simp]:
  "switches (save_state st) = switches st" "backup (save_state st) = backup st"
  "device_inventory (save_state st) = device_inventory st"
  "scanner_last_run (save_state st) = scanner_last_run st"
  "arp_last_run (save_state st) = arp_last_run st"
  "store (save_state st) = json_store_save (payload st) (store st)"
  by (simp_all add: save_state_def)

lemma put_switch_data [simp]:
  "switches (put_switch n sw st) = dset n sw (switches st)" "backup (put_switch n sw st) = backup st"
  "device_inventory (put_switch n sw st) = device_inventory st"
  "scanner_last_run (put_switch n sw st) = scanner_last_run st"
  "arp_last_run (put_switch n sw st) = arp_last_run st"
  "store (put_switch n sw st) = store st"
  by (simp_all add: put_switch_def)

lemma payload_save_state [simp]: "payload (save_state st) = payload st"
  by (simp add: payload_def)

lemma data_ok_save_state [simp]: "data_ok (save_state st) = data_ok st"
  by (simp add: data_ok_def)

lemma data_ok_put_switch [inv_intros]:
  "data_ok st \<Longrightarrow> switch_ok n sw \<Longrightarrow> data_ok (put_switch n sw st)"
  by (simp add: data_ok_def dict_ok_dset)

lemma data_ok_switch: "data_ok st \<Longrightarrow> get_switch st n = Some sw \<Longrightarrow> switch_ok n sw"
  by (auto simp: data_ok_def dest: dict_okD)

subsection \<open>Restart: loading what was saved\<close>

context key_permuting
begin

lemmas field_defs = str_field_def bool_field_def int_field_def time_field_def event_field_def
  list_field_def obj_field_def

lemma norm_iso [simp]: "norm (iso t) = iso t"
  by (cases t) (simp_all add: iso_def norm_scalar)

lemma load_switch_saved:
  "switch_ok k s \<Longrightarrow> load_switch (norm (switch_json s)) d = Inr (dset k s d)"
  by (cases s) (auto simp: load_switch_def field_defs switch_json_def norm_get norm_scalar switch_ok_def)

lemma load_switches_saved:
  "dict_ok switch_ok (d @ sws) \<Longrightarrow>
   fold_r load_switch (map (norm \<circ> switch_json) (dvals sws)) d = Inr (d @ sws)"
proof (induction sws arbitrary: d)
  case (Cons kv sws)
  obtain k s where kv: "kv = (k, s)" by (cases kv)
  from Cons.prems have "switch_ok k s" "k \<notin> set (dkeys d)"
    by (auto simp: dict_ok_def kv)
  then have "load_switch (norm (switch_json s)) d = Inr (d @ [(k, s)])"
    by (simp add: load_switch_saved dset_fresh)
  with Cons.IH [of "d @ [(k, s)]"] Cons.prems show ?case by (simp add: kv)
qed simp

lemma load_backup_saved:
  assumes "time_ok (br_timestamp b)" "json_get data ''backup'' = Inr (Some (norm (backup_json b)))"
  shows "load_backup data = Inr (b\<lparr>br_failed_devices := map norm (br_failed_devices b)\<rparr>)"
proof -
  have "truthy (norm (backup_json b))"
    using norm_obj by (metis (no_types, opaque_lifting) backup_json_def json_get.simps(1) list.distinct(1)
        list.map_disc_iff mset_zero_iff_right truthy.simps(7))
  then show ?thesis using assms
    by (simp add: load_backup_def field_defs backup_json_def norm_get norm_scalar norm_arr)
qed

lemma fold_dset_iso:
  "distinct (map fst kvs) \<Longrightarrow> distinct (dkeys d) \<Longrightarrow>
   dget (foldl (\<lambda>d (k, v). dset k (parse_iso v) d) d kvs) =
     (\<lambda>k. case map_of kvs k of None \<Rightarrow> dget d k | Some v \<Rightarrow> Some (parse_iso v))"
proof (induction kvs arbitrary: d)
  case (Cons kv kvs)
  obtain k v where kv: "kv = (k, v)" by (cases kv)
  have "map_of kvs k = None" using Cons.prems(1) by (simp add: kv map_of_eq_None_iff)
  with Cons show ?case
    by (auto simp: kv fun_eq_iff distinct_update split: option.splits)
qed simp

lemma load_arp_saved:
  assumes "dict_ok (\<lambda>_. time_ok) arp"
    "json_get data ''arp_last_run'' = Inr (Some (norm (JObj (map (\<lambda>(loc, ts). (loc, iso ts)) arp))))"
  shows "\<exists>arp'. load_arp data = Inr arp' \<and> dget arp' = dget arp"
proof -
  let ?kvs = "map (\<lambda>(loc, ts). (loc, iso ts)) arp"
  have keys: "map fst ?kvs = dkeys arp" by (induction arp) auto
  have m: "map_of ?kvs = (\<lambda>k. map_option iso (dget arp k))"
    by (induction arp) auto
  obtain kvs' where k: "norm (JObj ?kvs) = JObj kvs'" "distinct (map fst kvs')"
      "map_of kvs' = (\<lambda>k. map_option norm (map_of ?kvs k))"
    by (rule norm_obj_entries [of ?kvs]) (use assms(1) keys in \<open>simp_all only: dict_ok_def\<close>)
  have "dget (foldl (\<lambda>d (k, v). dset k (parse_iso v) d) [] kvs') = dget arp"
    using dict_okD [OF assms(1)]
    by (auto simp: fold_dset_iso [OF k(2)] k(3) m fun_eq_iff split: option.splits)
  moreover have "load_arp data = Inr (foldl (\<lambda>d (k, v). dset k (parse_iso v) d) [] kvs')"
    using assms(2) k(1) by (cases kvs') (auto simp: load_arp_def obj_field_def)
  ultimately show ?thesis by blast
qed

text \<open>
  The state a restart finds: everything as it was, except that the keys of the JSON objects in
  the device lists and of the ARP dictionary may come back in another order.
\<close>

lemma load_saved:
  assumes "data_ok st"
  shows "\<exists>arp. load_data (norm (payload st)) =
     Inr \<lparr>switches = switches st,
          backup = (backup st)\<lparr>br_failed_devices := map norm (br_failed_devices (backup st))\<rparr>,
          device_inventory = map norm (device_inventory st),
          scanner_last_run = scanner_last_run st, arp_last_run = arp\<rparr>
     \<and> dget arp = dget (arp_last_run st)"
proof -
  have get: "json_get (norm (payload st)) k = Inr (map_option norm (map_of
      [(''switches'', JArr (map switch_json (dvals (switches st)))),
      (''backup'', backup_json (backup st)),
      (''device_inventory'', JArr (device_inventory st)),
      (''scanner_last_run'', iso (scanner_last_run st)),
      (''arp_last_run'', JObj (map (\<lambda>(loc, ts). (loc, iso ts)) (arp_last_run st)))] k))" for k
    unfolding payload_def by (rule norm_get) simp
  obtain arp where "load_arp (norm (payload st)) = Inr arp" "dget arp = dget (arp_last_run st)"
    using load_arp_saved [of "arp_last_run st" "norm (payload st)"] assms
    by (auto simp: get data_ok_def)
  moreover have "load_backup (norm (payload st))
      = Inr ((backup st)\<lparr>br_failed_devices := map norm (br_failed_devices (backup st))\<rparr>)"
    using assms by (intro load_backup_saved) (simp_all add: get data_ok_def)
  moreover have "fold_r load_switch (map (norm \<circ> switch_json) (dvals (switches st))) []
      = Inr (switches st)"
    using load_switches_saved [of "[]" "switches st"] assms by (simp add: data_ok_def)
  ultimately show ?thesis using assms
    by (simp add: load_data_def list_field_def time_field_def get norm_arr data_ok_def comp_def)
qed

end

subsection \<open>What is on disk at every moment\<close>

text \<open>
  \<open>update_switch\<close> writes the snapshot only when \<open>is_down\<close> flips, so the fields it may change are
  not all on disk.  The rest is: the identity of every switch, its mode, reachability, SNMP
  health, mutes, management and version, and the backup, scanner and ARP results.
\<close>

definition stable_switch :: "switch_state \<Rightarrow> switch_state" where
  "stable_switch s = s\<lparr>sw_hostname := [], sw_vendor := [], sw_snmp_profile := [],
     sw_failures := 0, sw_last_seen := None, sw_last_event := []\<rparr>"

definition stable_part :: "'a agent_data_scheme \<Rightarrow> (string \<times> switch_state) list \<times> backup_run
    \<times> json list \<times> datetime option \<times> (string \<Rightarrow> datetime option option)" where
  "stable_part st = (map (apsnd stable_switch) (switches st),
     (backup st)\<lparr>br_failed_devices := map json_sort (br_failed_devices (backup st))\<rparr>,
     map json_sort (device_inventory st), scanner_last_run st, dget (arp_last_run st))"

definition on_disk :: "agent_state \<Rightarrow> agent_data" where
  "on_disk st = load_snapshot (json_store_load (store st))"

definition recoverable :: "agent_state \<Rightarrow> bool" where
  "recoverable st = (data_ok st \<and> json_store_ok (store st) \<and> stable_part (on_disk st) = stable_part st)"

lemma insort_key_apsnd:
  "insort_key fst (apsnd g x) (map (apsnd g) xs) = map (apsnd g) (insort_key fst x xs)"
  by (induction xs) auto

lemma sort_key_apsnd: "sort_key fst (map (apsnd g) xs) = map (apsnd g) (sort_key fst xs)"
  by (induction xs) (simp_all add: insort_key_apsnd)

lemma sort_key_twice: "sort_key f (sort_key f xs) = sort_key f xs"
  by (rule sort_key_id_if_sorted) simp

lemma json_sort_obj: "json_sort (JObj kvs) = JObj (map (apsnd json_sort) (sort_key fst kvs))"
  using sort_key_apsnd [of json_sort kvs] by (simp add: apsnd_def map_prod_def case_prod_unfold)

lemma json_sort_idem [simp]: "json_sort (json_sort j) = json_sort j"
proof (induction j rule: json_sort.induct)
  case (2 kvs)
  then have "map (apsnd json_sort) (map (apsnd json_sort) kvs) = map (apsnd json_sort) kvs"
    by (auto simp: apsnd_def map_prod_def case_prod_unfold)
  then show ?case
    by (simp only: json_sort_obj sort_key_apsnd [symmetric] sort_key_twice)
qed simp_all

declare json_sort.simps(2) [simp del]

lemma payload_truthy: "truthy (json_sort (payload st))"
  by (simp add: payload_def json_sort_obj) 

lemma saved_stable:
  "data_ok st \<Longrightarrow> json_store_ok (store st) \<Longrightarrow> stable_part (on_disk (save_state st)) = stable_part st"
  using js.load_saved [of st] payload_truthy [of st]
  by (auto simp: on_disk_def json_store_ok_save load_snapshot_def stable_part_def comp_def)

lemma stable_part_save: "stable_part (save_state st) = stable_part st"
  by (simp add: stable_part_def)

lemma recoverable_save [inv_intros]:
  "data_ok st \<Longrightarrow> json_store_ok (store st) \<Longrightarrow> recoverable (save_state st)"
  using saved_stable [of st] by (auto simp: recoverable_def stable_part_def)

lemma stable_part_put_switch:
  assumes "distinct (dkeys (switches st))" "get_switch st n = Some sw" "stable_switch sw' = stable_switch sw"
  shows "stable_part (put_switch n sw' st) = stable_part st"
proof -
  have "map (apsnd stable_switch) (dset n sw' d) = map (apsnd stable_switch) d"
    if "distinct (dkeys d)" "dget d n = Some sw" for d
    using that assms(3) by (induction d) (auto split: if_splits)
  with assms show ?thesis by (simp add: stable_part_def)
qed

subsection \<open>Operations as events\<close>

text \<open>Every call that changes the state, with the clock reading it happens at.\<close>

datatype state_op = RegisterSwitch string string string | PinVendor string string
  | SetProfile string string | SetOsVersion string string | SetSnmpHealth string bool
  | SetAlertMute string bool "datetime option" | AlertsSuppressed datetime string
  | SetUnmanaged string bool | RemoveSwitch string | UpdateSwitch string "switch_update list"
  | SetBackupResult datetime int int "json list" | SetInventory datetime "json list"
  | SetArpLastRun datetime string

fun state_step :: "agent_state \<Rightarrow> state_op \<Rightarrow> agent_state" where
  "state_step st (RegisterSwitch n h m) = register_switch n h m st"
| "state_step st (PinVendor n v) = pin_vendor n v st"
| "state_step st (SetProfile n p) = snd (set_switch_profile n p st)"
| "state_step st (SetOsVersion n v) = snd (set_os_version n v st)"
| "state_step st (SetSnmpHealth n b) = snd (set_snmp_health n b st)"
| "state_step st (SetAlertMute n b u) = snd (set_alert_mute n b u st)"
| "state_step st (AlertsSuppressed now n) = snd (alerts_suppressed now n st)"
| "state_step st (SetUnmanaged n b) = snd (set_unmanaged n b st)"
| "state_step st (RemoveSwitch n) = snd (remove_switch n st)"
| "state_step st (UpdateSwitch n kw) = update_switch n kw st"
| "state_step st (SetBackupResult now a b ds) = set_backup_result now a b ds st"
| "state_step st (SetInventory now ds) = set_device_inventory now ds st"
| "state_step st (SetArpLastRun now l) = set_arp_last_run now l st"

text \<open>
  What the callers guarantee: registered switches have a name, a host and a mode, and clock
  readings and expiry times are real datetimes.
\<close>

fun update_adm :: "switch_update \<Rightarrow> bool" where
  "update_adm (LastSeen t) = time_ok t"
| "update_adm _ = True"

fun op_adm :: "state_op \<Rightarrow> bool" where
  "op_adm (RegisterSwitch n h m) = (n \<noteq> [] \<and> h \<noteq> [] \<and> m \<noteq> [])"
| "op_adm (SetAlertMute n b u) = time_ok u"
| "op_adm (UpdateSwitch n kw) = list_all update_adm kw"
| "op_adm (SetBackupResult now a b ds) = valid_dt now"
| "op_adm (SetInventory now ds) = valid_dt now"
| "op_adm (SetArpLastRun now l) = valid_dt now"
| "op_adm _ = True"

lemma apply_update_ok: "switch_ok n sw \<Longrightarrow> update_adm u \<Longrightarrow> switch_ok n (apply_update u sw)"
  by (cases u) (simp_all add: switch_ok_def)

lemma apply_updates_ok:
  "switch_ok n sw \<Longrightarrow> list_all update_adm us \<Longrightarrow> switch_ok n (fold apply_update us sw)"
  by (induction us arbitrary: sw) (simp_all add: apply_update_ok)

lemma stable_switch_down: "stable_switch sw = (stable_switch sw)\<lparr>sw_is_down := sw_is_down sw\<rparr>"
  by (cases sw) (simp add: stable_switch_def)

lemma apply_updates_stable:
  "sw_is_down (fold apply_update us sw) = sw_is_down sw \<Longrightarrow>
   stable_switch (fold apply_update us sw) = stable_switch sw"
proof -
  have one: "stable_switch (apply_update u sw)
      = (stable_switch sw)\<lparr>sw_is_down := sw_is_down (apply_update u sw)\<rparr>" for u sw
    by (cases u) (simp_all add: stable_switch_def)
  have "stable_switch (fold apply_update us sw)
      = (stable_switch sw)\<lparr>sw_is_down := sw_is_down (fold apply_update us sw)\<rparr>" for us
  proof (induction us arbitrary: sw)
    case Nil
    show ?case using stable_switch_down by simp
  qed (simp add: one)
  moreover assume "sw_is_down (fold apply_update us sw) = sw_is_down sw"
  ultimately show ?thesis by (simp add: stable_switch_def)
qed

lemma data_ok_step: "data_ok st \<Longrightarrow> op_adm e \<Longrightarrow> data_ok (state_step st e)"
proof (cases e)
  case (UpdateSwitch n kw)
  assume "data_ok st" "op_adm e"
  with UpdateSwitch show ?thesis
    by (auto simp: update_switch_def Let_def intro!: data_ok_put_switch apply_updates_ok
        dest: data_ok_switch split: option.splits)
next
  case (RemoveSwitch n)
  assume "data_ok st"
  with RemoveSwitch show ?thesis
    by (auto simp: remove_switch_def data_ok_def intro: dict_ok_ddel)
next
  case (SetArpLastRun now l)
  assume "data_ok st" "op_adm e"
  with SetArpLastRun show ?thesis
    by (auto simp: set_arp_last_run_def data_ok_def intro!: dict_ok_dset)
qed (auto simp: register_switch_def pin_vendor_def set_switch_profile_def set_os_version_def
    set_snmp_health_def set_alert_mute_def alerts_suppressed_def set_unmanaged_def
    set_backup_result_def set_device_inventory_def new_switch_def switch_ok_def data_ok_def
    intro!: data_ok_put_switch dict_ok_dset dest: data_ok_switch dict_okD split: option.splits)

text \<open>Every operation either leaves the state alone, saves it, or changes unsaved fields only.\<close>

lemma state_step_shape:
  "state_step st e = st \<or> (\<exists>st'. state_step st e = save_state st' \<and> store st' = store st)
   \<or> (\<exists>n sw us. e = UpdateSwitch n us \<and> get_switch st n = Some sw
        \<and> sw_is_down (fold apply_update us sw) = sw_is_down sw
        \<and> state_step st e = put_switch n (fold apply_update us sw) st)"
proof (cases e)
  case (UpdateSwitch n us)
  show ?thesis
  proof (cases "get_switch st n")
    case (Some sw)
    let ?st = "put_switch n (fold apply_update us sw) st"
    have "state_step st e = (if sw_is_down sw \<noteq> sw_is_down (fold apply_update us sw)
        then save_state ?st else ?st)"
      by (simp add: UpdateSwitch Some update_switch_def Let_def)
    moreover have "store ?st = store st" by simp
    ultimately show ?thesis using Some UpdateSwitch by metis
  qed (simp add: UpdateSwitch update_switch_def)
next
  case (RegisterSwitch n h m)
  then show ?thesis
    by (cases "get_switch st n") (auto simp: register_switch_def intro!: exI [of _ "put_switch _ _ _"])
qed (auto simp: pin_vendor_def set_switch_profile_def set_os_version_def set_snmp_health_def
    set_alert_mute_def alerts_suppressed_def set_unmanaged_def remove_switch_def
    set_backup_result_def set_device_inventory_def set_arp_last_run_def split: option.splits)

lemma recoverable_step:
  assumes "recoverable st" "op_adm e" shows "recoverable (state_step st e)"
proof -
  have d: "data_ok (state_step st e)"
    using assms data_ok_step by (auto simp: recoverable_def)
  consider "state_step st e = st"
    | st' where "state_step st e = save_state st'" "store st' = store st"
    | n sw us where "get_switch st n = Some sw" "sw_is_down (fold apply_update us sw) = sw_is_down sw"
        "state_step st e = put_switch n (fold apply_update us sw) st"
    using state_step_shape [of st e] by blast
  then show ?thesis
  proof cases
    case 1
    with assms show ?thesis by simp
  next
    case 2
    with assms d show ?thesis by (auto simp: recoverable_def saved_stable stable_part_save)
  next
    case 3
    have "stable_part (put_switch n (fold apply_update us sw) st) = stable_part st"
      using assms by (intro stable_part_put_switch [OF _ 3(1) apply_updates_stable [OF 3(2)]])
        (simp add: recoverable_def data_ok_def dict_ok_def)
    with assms 3 d show ?thesis by (simp add: recoverable_def on_disk_def)
  qed
qed

interpretation st_data: machine state_step data_ok op_adm
  by unfold_locales (rule data_ok_step)

interpretation st_disk: machine state_step recoverable op_adm
  by unfold_locales (rule recoverable_step)

subsection \<open>A loaded state is well formed\<close>

lemma bind_r_Inr: "bind_r m f = Inr y \<longleftrightarrow> (\<exists>x. m = Inr x \<and> f x = Inr y)"
  by (cases m) simp_all

lemma str_field_default: "str_field e k d = Inr s \<Longrightarrow> d \<noteq> [] \<Longrightarrow> s \<noteq> []"
proof -
  assume a: "str_field e k d = Inr s" "d \<noteq> []"
  then obtain v where v: "(case v of None \<Rightarrow> Inr d | Some (JStr s) \<Rightarrow> Inr (or_else s d)
      | Some j \<Rightarrow> if truthy j then Inl TypeError else Inr d) = Inr s"
    by (auto simp: str_field_def bind_r_Inr)
  show ?thesis
  proof (cases v)
    case (Some j)
    with v a show ?thesis by (cases j) (auto split: if_splits)
  qed (use v a in simp)
qed

lemma time_field_ok: "time_field e k = Inr t \<Longrightarrow> time_ok t"
  by (auto simp: time_field_def bind_r_Inr split: option.splits)

lemma load_switch_ok: "load_switch e d = Inr d' \<Longrightarrow> dict_ok switch_ok d \<Longrightarrow> dict_ok switch_ok d'"
  unfolding load_switch_def
  by (auto simp: bind_r_Inr switch_ok_def time_field_ok str_field_default intro!: dict_ok_dset
      split: if_splits)

lemma fold_load_switch_ok:
  "fold_r load_switch es d = Inr d' \<Longrightarrow> dict_ok switch_ok d \<Longrightarrow> dict_ok switch_ok d'"
  by (induction es arbitrary: d) (auto simp: bind_r_Inr dest: load_switch_ok)

lemma load_backup_ok: "load_backup data = Inr b \<Longrightarrow> time_ok (br_timestamp b)"
  by (auto simp: load_backup_def bind_r_Inr time_field_ok)

lemma fold_arp_ok:
  "dict_ok (\<lambda>_. time_ok) d \<Longrightarrow>
   dict_ok (\<lambda>_. time_ok) (foldl (\<lambda>d (k, v). dset k (parse_iso v) d) d kvs)"
  by (induction kvs arbitrary: d) (auto simp: dict_ok_dset)

lemma load_arp_ok: "load_arp data = Inr arp \<Longrightarrow> dict_ok (\<lambda>_. time_ok) arp"
proof -
  assume "load_arp data = Inr arp"
  then obtain a where "(case a of JObj kvs \<Rightarrow> Inr (foldl (\<lambda>d (k, v). dset k (parse_iso v) d) [] kvs)
      | _ \<Rightarrow> Inl AttributeError) = Inr arp"
    by (auto simp: load_arp_def bind_r_Inr)
  then show ?thesis by (cases a) (auto simp: fold_arp_ok)
qed

lemma empty_data_ok: "data_ok empty_data"
  by (simp add: data_ok_def empty_data_def empty_backup_def)

lemma load_data_ok: "load_data j = Inr d \<Longrightarrow> data_ok d"
  by (auto simp: load_data_def bind_r_Inr data_ok_def fold_load_switch_ok load_backup_ok
      time_field_ok load_arp_ok)

lemma load_snapshot_ok: "data_ok (load_snapshot j)"
  by (auto simp: load_snapshot_def empty_data_ok load_data_ok split: option.splits sum.splits)

lemma open_state_fields [simp]:
  "switches (open_state s) = switches (load_snapshot (json_store_load s))"
  "backup (open_state s) = backup (load_snapshot (json_store_load s))"
  "device_inventory (open_state s) = device_inventory (load_snapshot (json_store_load s))"
  "scanner_last_run (open_state s) = scanner_last_run (load_snapshot (json_store_load s))"
  "arp_last_run (open_state s) = arp_last_run (load_snapshot (json_store_load s))"
  "store (open_state s) = s"
  by (simp_all add: open_state_def agent_data.defs)

lemma data_ok_open [simp]: "data_ok (open_state s)"
  using load_snapshot_ok [of "json_store_load s"] by (simp add: data_ok_def)

lemma stable_part_open: "stable_part (open_state s) = stable_part (load_snapshot (json_store_load s))"
  by (simp add: stable_part_def)

lemma recoverable_open: "json_store_ok s \<Longrightarrow> recoverable (open_state s)"
  by (simp add: recoverable_def on_disk_def stable_part_open)

lemma restart_after_save:
  assumes "data_ok st" and "json_store_ok (store st)"
  shows "\<exists>arp. load_snapshot (json_store_load (store (save_state st))) = \<lparr>switches = switches st,
        backup = (backup st)\<lparr>br_failed_devices := map json_sort (br_failed_devices (backup st))\<rparr>,
        device_inventory = map json_sort (device_inventory st),
        scanner_last_run = scanner_last_run st, arp_last_run = arp\<rparr>
      \<and> dget arp = dget (arp_last_run st)"
proof -
  obtain arp where "load_data (json_sort (payload st)) = Inr \<lparr>switches = switches st,
        backup = (backup st)\<lparr>br_failed_devices := map json_sort (br_failed_devices (backup st))\<rparr>,
        device_inventory = map json_sort (device_inventory st),
        scanner_last_run = scanner_last_run st, arp_last_run = arp\<rparr>"
      "dget arp = dget (arp_last_run st)"
    using js.load_saved [OF assms(1)] by blast
  then show ?thesis
    using assms(2) payload_truthy [of st] by (simp add: json_store_ok_save load_snapshot_def)
qed

subsection \<open>Properties\<close>

text \<open>
  C2: A restart after a save restores the state: opening a new AgentState on the store that a
  healthy save wrote to gives back the same switches (order and every field), backup run, scanner
  inventory and ARP timestamps.  Only the order of keys inside the JSON objects of the two device
  lists may differ, as the snapshot is written with sorted keys.
\<close>

theorem agent_restart_restores:
  assumes "data_ok st" and "json_store_ok (store st)"
  defines "st' \<equiv> open_state (store (save_state st))"
  shows "switches st' = switches st
    \<and> backup st' = (backup st)\<lparr>br_failed_devices := map json_sort (br_failed_devices (backup st))\<rparr>
    \<and> device_inventory st' = map json_sort (device_inventory st)
    \<and> scanner_last_run st' = scanner_last_run st
    \<and> dget (arp_last_run st') = dget (arp_last_run st)"
  using restart_after_save [OF assms(1,2)] by (auto simp: st'_def)

definition demo_dt :: datetime where
  "demo_dt = \<lparr>year = 2026, month = 9, day = 16, hour = 9, minute = 0, second = 0, microsecond = 5\<rparr>"

definition demo_state :: agent_state where
  "demo_state = set_arp_last_run demo_dt ''bldgA'' (update_switch ''sw1'' [IsDown True]
     (register_switch ''sw1'' ''10.0.0.1'' ''auto'' (open_state open_json_store)))"

lemma demo_dt_valid: "valid_dt demo_dt"
  by (simp add: valid_dt_def demo_dt_def valid_date_def valid_time_def days_in_month_def)

lemma demo_ok: "data_ok demo_state \<and> json_store_ok (store demo_state)"
proof -
  have "recoverable (foldl state_step (open_state open_json_store)
      [RegisterSwitch ''sw1'' ''10.0.0.1'' ''auto'', UpdateSwitch ''sw1'' [IsDown True],
       SetArpLastRun demo_dt ''bldgA''])"
    by (rule st_disk.run_inv) (simp_all add: recoverable_open demo_dt_valid)
  then show ?thesis by (simp add: demo_state_def recoverable_def)
qed

theorem agent_restart_restores_witness:
  "switches (open_state (store (save_state demo_state))) = switches demo_state"
  using agent_restart_restores [of demo_state] demo_ok by blast

text \<open>
  C1: Crash safety of the shared state.  Start an agent on any healthy store, run any sequence of
  state operations, and kill it: the restarted agent has the same switches with the same host,
  mode, reachability, SNMP health, mute, management flag and version, and the same backup, scanner
  and ARP results.  Only hostname, vendor, SNMP profile, failure count, last-seen time and last
  event of a switch may be older, because update_switch saves on an UP/DOWN flip only.
\<close>

theorem agent_crash_keeps_stable_part:
  assumes "json_store_ok s" and "list_all op_adm ops"
  defines "st \<equiv> foldl state_step (open_state s) ops"
  shows "stable_part (open_state (store st)) = stable_part st \<and> data_ok st"
  using st_disk.run_inv [OF recoverable_open [OF assms(1)] assms(2)]
  by (simp add: st_def recoverable_def on_disk_def stable_part_open)

theorem agent_crash_keeps_stable_part_witness:
  "stable_part (open_state (store (foldl state_step (open_state open_json_store)
       [RegisterSwitch ''sw1'' ''10.0.0.1'' ''icmp'', SetUnmanaged ''sw1'' True])))
   = stable_part (foldl state_step (open_state open_json_store)
       [RegisterSwitch ''sw1'' ''10.0.0.1'' ''icmp'', SetUnmanaged ''sw1'' True])"
  using agent_crash_keeps_stable_part [of open_json_store
      "[RegisterSwitch ''sw1'' ''10.0.0.1'' ''icmp'', SetUnmanaged ''sw1'' True]"]
  by simp

text \<open>
  A vendor and SNMP profile found by detection are not persisted: the update the poller makes
  after a successful detection leaves the snapshot as it was, so a restart before the next saving
  operation comes back with the profile the switch had before, although the docstrings of
  get_vendor_for_host and get_snmp_profile_for_host call both persisted.
\<close>

theorem detection_result_not_persisted:
  fixes v p :: string
  assumes "recoverable st" and "get_switch (open_state (store st)) n = Some old"
  defines "st' \<equiv> update_switch n [Vendor v, Profile p] st"
  shows "get_switch (open_state (store st')) n = Some old
    \<and> (\<forall>sw. get_switch st' n = Some sw \<longrightarrow> sw_vendor sw = v \<and> sw_snmp_profile sw = p)"
proof -
  have "store st' = store st"
    by (auto simp: st'_def update_switch_def Let_def split: option.splits)
  moreover have "\<forall>sw. get_switch st' n = Some sw \<longrightarrow> sw_vendor sw = v \<and> sw_snmp_profile sw = p"
    by (auto simp: st'_def update_switch_def Let_def split: option.splits)
  ultimately show ?thesis using assms(2) by simp
qed

theorem detection_result_not_persisted_witness:
  "\<exists>old. sw_snmp_profile old = [] \<and>
     get_switch (open_state (store (update_switch ''sw1'' [Vendor ''cisco_ios'', Profile ''campus'']
       (save_state (put_switch ''sw1'' (new_switch ''sw1'' ''10.0.0.1'' ''auto'')
         (open_state open_json_store)))))) ''sw1'' = Some old"
proof -
  let ?sw = "new_switch ''sw1'' ''10.0.0.1'' ''auto''"
  let ?st = "put_switch ''sw1'' ?sw (open_state open_json_store)"
  have ok: "data_ok ?st" "json_store_ok (store ?st)"
    by (rule data_ok_put_switch) (simp_all add: new_switch_def switch_ok_def)
  have "get_switch (open_state (store (save_state ?st))) ''sw1'' = Some ?sw"
    using restart_after_save [OF ok] by (auto simp del: save_state_data(6) open_state_fields(6))
  then show ?thesis
    using detection_result_not_persisted [OF recoverable_save [OF ok]]
    by (intro exI [of _ ?sw]) (simp only: new_switch_def switch_state.select_convs simp_thms)
qed

text \<open>
  Alert mutes expire exactly at their time.  The query answers True precisely when the switch
  is muted and the mute has no expiry or one that is still ahead; it clears an expired mute, and
  once it has answered False it answers False at every later time until someone mutes again.
\<close>

theorem alerts_suppressed_expiry:
  assumes "get_switch st n = Some sw" and "alerts_suppressed now n st = (r, st')"
  shows "r = (sw_alerts_muted sw \<and> (\<forall>u. sw_mute_until sw = Some u \<longrightarrow> dt_us now < dt_us u))
    \<and> (\<exists>sw'. get_switch st' n = Some sw' \<and> sw_alerts_muted sw' = r)
    \<and> (\<not> r \<longrightarrow> fst (alerts_suppressed now' n st') = False)"
  using assms
  by (cases "sw_mute_until sw") (auto simp: alerts_suppressed_def split: if_splits)

theorem alerts_suppressed_expiry_witness:
  "fst (alerts_suppressed demo_dt ''sw1'' (snd (set_alert_mute ''sw1'' True (Some demo_dt) demo_state))) = False"
proof -
  let ?m = "(new_switch ''sw1'' ''10.0.0.1'' ''auto'')
    \<lparr>sw_is_down := True, sw_alerts_muted := True, sw_mute_until := Some demo_dt\<rparr>"
  have "get_switch (snd (set_alert_mute ''sw1'' True (Some demo_dt) demo_state)) ''sw1'' = Some ?m"
    by (simp add: set_alert_mute_def demo_state_def set_arp_last_run_def update_switch_def
        register_switch_def json_store_load_def open_json_store_def load_snapshot_def empty_data_def
        new_switch_def Let_def)
  from alerts_suppressed_expiry [OF this, of demo_dt _ _ demo_dt] show ?thesis
    by (cases "alerts_suppressed demo_dt ''sw1''
        (snd (set_alert_mute ''sw1'' True (Some demo_dt) demo_state))") auto
qed

end
