(* ===== verification/Scheduler.thy ===== *)
theory Scheduler
  imports Py_Data "HOL-Library.Product_Lexorder"
begin

text \<open>
  The daily and interval scheduler, \<open>aruba_agent/scheduler.py\<close>.  A callable is known by its
  identity (\<open>id(fn)\<close>), here a number.  A tick takes the clock readings it makes (\<open>datetime.now()\<close>,
  \<open>time.time()\<close>) as arguments and returns the callables it starts threads for; \<open>_safe_run\<close> keeps
  their exceptions from the scheduler, so they have no other effect on it.
\<close>

type_synonym callable = nat

record scheduler =
  tasks :: "(string \<times> callable) list"
  last_run :: "(callable, date) dict"
  intervals :: "(callable, rat \<times> rat) dict"

definition new_scheduler :: scheduler where
  "new_scheduler = \<lparr>tasks = [], last_run = [], intervals = []\<rparr>"

definition tolerance_minutes :: int where
  "tolerance_minutes = 1"

definition add_daily :: "string \<Rightarrow> callable \<Rightarrow> scheduler \<Rightarrow> scheduler" where
  "add_daily time_str fn s = s\<lparr>tasks := tasks s @ [(time_str, fn)]\<rparr>"

definition add_interval :: "rat \<Rightarrow> callable \<Rightarrow> bool \<Rightarrow> rat \<Rightarrow> scheduler \<Rightarrow> scheduler" where
  "add_interval secs fn run_at_start now_ts s =
     (let prev = (if run_at_start then 0 else now_ts)
      in s\<lparr>intervals := dset fn (secs, prev) (intervals s)\<rparr>)"

text \<open>
  \<open>hh, mm = map(int, time_str.split(":"))\<close> and \<open>now.replace(...)\<close>: two integers in range, or the
  \<open>ValueError\<close> that makes the tick skip the task.
\<close>

definition scheduled_at :: "datetime \<Rightarrow> string \<Rightarrow> datetime option" where
  "scheduled_at now time_str = (case split_on (CHR '':'') time_str of
       [a, b] \<Rightarrow> (case (py_int a, py_int b) of
           (Some hh, Some mm) \<Rightarrow>
             if 0 \<le> hh \<and> hh < 24 \<and> 0 \<le> mm \<and> mm < 60
             then Some (now\<lparr>hour := nat hh, minute := nat mm, second := 0, microsecond := 0\<rparr>)
             else None
         | _ \<Rightarrow> None)
     | _ \<Rightarrow> None)"

definition in_window :: "datetime \<Rightarrow> string \<Rightarrow> bool" where
  "in_window now time_str = (case scheduled_at now time_str of
       None \<Rightarrow> False
     | Some t \<Rightarrow> \<bar>dt_us now - dt_us t\<bar> \<le> tolerance_minutes * 60 * 1000000)"

fun tick_daily :: "datetime \<Rightarrow> (string \<times> callable) list \<Rightarrow> (callable, date) dict
    \<Rightarrow> callable list \<times> (callable, date) dict" where
  "tick_daily now [] lr = ([], lr)"
| "tick_daily now ((time_str, fn) # rest) lr =
     (if dget lr fn = Some (date_of now) then tick_daily now rest lr
      else if in_window now time_str
      then (case tick_daily now rest (dset fn (date_of now) lr) of (fs, lr') \<Rightarrow> (fn # fs, lr'))
      else tick_daily now rest lr)"

text \<open>The loop runs over a copy of the items while it updates the dictionary.\<close>

fun tick_intervals :: "rat \<Rightarrow> (callable \<times> rat \<times> rat) list \<Rightarrow> (callable, rat \<times> rat) dict
    \<Rightarrow> callable list \<times> (callable, rat \<times> rat) dict" where
  "tick_intervals now_ts [] iv = ([], iv)"
| "tick_intervals now_ts ((fn, secs, prev) # rest) iv =
     (if now_ts - prev \<ge> secs
      then (case tick_intervals now_ts rest (dset fn (secs, now_ts) iv) of (fs, iv') \<Rightarrow> (fn # fs, iv'))
      else tick_intervals now_ts rest iv)"

definition tick :: "datetime \<Rightarrow> rat \<Rightarrow> scheduler \<Rightarrow> callable list \<times> scheduler" where
  "tick now now_ts s =
     (case tick_daily now (tasks s) (last_run s) of (fs, lr) \<Rightarrow>
      case tick_intervals now_ts (intervals s) (intervals s) of (gs, iv) \<Rightarrow>
        (fs @ gs, s\<lparr>last_run := lr, intervals := iv\<rparr>))"

text \<open>
  The loop of \<open>start\<close>: a tick at each reading of the clock until \<open>stop\<close>; the record of the daily
  firings carries the date.
\<close>

fun run_daily :: "datetime list \<Rightarrow> (string \<times> callable) list \<Rightarrow> (callable, date) dict
    \<Rightarrow> (callable \<times> date) list \<times> (callable, date) dict" where
  "run_daily [] ts lr = ([], lr)"
| "run_daily (now # nows) ts lr =
     (case tick_daily now ts lr of (fs, lr1) \<Rightarrow>
      case run_daily nows ts lr1 of (es, lr2) \<Rightarrow> (map (\<lambda>fn. (fn, date_of now)) fs @ es, lr2))"

fun run_ticks :: "(datetime \<times> rat) list \<Rightarrow> scheduler \<Rightarrow> callable list list \<times> scheduler" where
  "run_ticks [] s = ([], s)"
| "run_ticks ((now, ts) # rest) s =
     (case tick now ts s of (fs, s1) \<Rightarrow> case run_ticks rest s1 of (gs, s2) \<Rightarrow> (fs # gs, s2))"

subsection \<open>One tick\<close>

lemma tick_daily_spec:
  "tick_daily now ts lr = (fs, lr') \<Longrightarrow>
     distinct fs
   \<and> set fs = {fn. (\<exists>s. (s, fn) \<in> set ts \<and> in_window now s) \<and> dget lr fn \<noteq> Some (date_of now)}
   \<and> dget lr' = (\<lambda>fn. if fn \<in> set fs then Some (date_of now) else dget lr fn)"
proof (induction now ts lr arbitrary: fs lr' rule: tick_daily.induct)
  case (2 now time_str fn rest lr)
  consider (ran) "dget lr fn = Some (date_of now)"
    | (fire) "dget lr fn \<noteq> Some (date_of now)" "in_window now time_str"
    | (skip) "dget lr fn \<noteq> Some (date_of now)" "\<not> in_window now time_str" by blast
  then show ?case
  proof cases
    case ran
    with "2.IH"(1) "2.prems" show ?thesis by auto
  next
    case fire
    obtain fs1 lr1 where t: "tick_daily now rest (dset fn (date_of now) lr) = (fs1, lr1)"
      by (cases "tick_daily now rest (dset fn (date_of now) lr)")
    with fire "2.prems" have e: "fs = fn # fs1" "lr' = lr1" by auto
    from "2.IH"(2) [OF fire t] have
      "distinct fs1" "set fs1 = {f. (\<exists>s. (s, f) \<in> set rest \<and> in_window now s)
         \<and> dget (dset fn (date_of now) lr) f \<noteq> Some (date_of now)}"
      "dget lr1 = (\<lambda>f. if f \<in> set fs1 then Some (date_of now) else dget (dset fn (date_of now) lr) f)"
      by blast+
    with fire e show ?thesis by (auto simp: fun_eq_iff)
  next
    case skip
    with "2.IH"(3) "2.prems" show ?thesis by auto
  qed
qed auto

subsection \<open>Runs\<close>

lemma run_daily_spec:
  assumes "run_daily nows ts lr = (es, lr')" "sorted (map date_of nows)"
    "\<forall>fn d. dget lr fn = Some d \<longrightarrow> (\<forall>now \<in> set nows. d \<le> date_of now)"
  shows "distinct es \<and> set es = {(fn, date_of now) | fn now. now \<in> set nows
      \<and> (\<exists>s. (s, fn) \<in> set ts \<and> in_window now s) \<and> dget lr fn \<noteq> Some (date_of now)}"
  using assms
proof (induction nows ts lr arbitrary: es lr' rule: run_daily.induct)
  case (2 now nows ts lr)
  obtain fs lr1 where t: "tick_daily now ts lr = (fs, lr1)" by (cases "tick_daily now ts lr")
  obtain es1 lr2 where r: "run_daily nows ts lr1 = (es1, lr2)" by (cases "run_daily nows ts lr1")
  have e: "es = map (\<lambda>fn. (fn, date_of now)) fs @ es1" using "2.prems"(1) by (simp add: t r)
  note f = tick_daily_spec [OF t]
  have later: "\<forall>n \<in> set nows. date_of now \<le> date_of n" using "2.prems"(2) by simp
  have ih: "distinct es1 \<and> set es1 = {(fn, date_of n) | fn n. n \<in> set nows
      \<and> (\<exists>s. (s, fn) \<in> set ts \<and> in_window n s) \<and> dget lr1 fn \<noteq> Some (date_of n)}"
    by (rule "2.IH" [OF t [symmetric] r]) (use "2.prems"(2,3) f later in \<open>auto split: if_splits\<close>)
  have disj: "(fn, date_of now) \<notin> set es1" if "fn \<in> set fs" for fn
    using that ih f by auto
  have "set es = {(fn, date_of n) | fn n. n \<in> set (now # nows)
      \<and> (\<exists>s. (s, fn) \<in> set ts \<and> in_window n s) \<and> dget lr fn \<noteq> Some (date_of n)}" (is "_ = ?R")
  proof
    have A: "x \<in> ?R" if "x \<in> set es1" for x
    proof -
      from that ih obtain fn n where x: "x = (fn, date_of n)" "n \<in> set nows"
        "\<exists>s. (s, fn) \<in> set ts \<and> in_window n s" "dget lr1 fn \<noteq> Some (date_of n)" by blast
      have "dget lr fn \<noteq> Some (date_of n)"
      proof
        assume a: "dget lr fn = Some (date_of n)"
        have "date_of n \<le> date_of now"
          by (rule "2.prems"(3) [rule_format, OF a]) simp
        moreover have "date_of now \<le> date_of n" using later x(2) by blast
        ultimately have "date_of n = date_of now" by (rule order_antisym)
        with a x(4) f show False by (auto split: if_splits)
      qed
      with x show ?thesis by auto
    qed
    have B: "x \<in> ?R" if "x \<in> set (map (\<lambda>fn. (fn, date_of now)) fs)" for x
      using that f by auto
    show "set es \<subseteq> ?R" unfolding e set_append using A B by blast
    show "?R \<subseteq> set es"
    proof
      fix x assume "x \<in> ?R"
      then obtain fn n where x: "x = (fn, date_of n)" "n \<in> set (now # nows)"
        "\<exists>s. (s, fn) \<in> set ts \<and> in_window n s" "dget lr fn \<noteq> Some (date_of n)" by blast
      show "x \<in> set es"
      proof (cases "n = now \<or> fn \<in> set fs \<and> date_of n = date_of now")
        case True
        then have "fn \<in> set fs" using x f by auto
        then show ?thesis using True x by (auto simp: e)
      next
        case False
        then have "n \<in> set nows" "dget lr1 fn \<noteq> Some (date_of n)" using x f by auto
        then have "x \<in> set es1" using x ih by blast
        then show ?thesis by (simp add: e)
      qed
    qed
  qed
  moreover have "distinct es"
    using f ih disj by (auto simp: e distinct_map inj_on_def)
  ultimately show ?case by blast
qed simp

text \<open>A sequence of readings with gaps of at most \<open>2 * w\<close> cannot jump over a window of radius \<open>w\<close>.\<close>

lemma no_jump:
  fixes f :: "'a \<Rightarrow> int"
  assumes "xs \<noteq> []" "f (hd xs) \<le> c + w" "c - w \<le> f (last xs)"
    "\<forall>i. Suc i < length xs \<longrightarrow> f (xs ! Suc i) - f (xs ! i) \<le> 2 * w"
  shows "\<exists>x \<in> set xs. \<bar>f x - c\<bar> \<le> w"
  using assms
proof (induction xs)
  case (Cons x xs)
  show ?case
  proof (cases "\<bar>f x - c\<bar> \<le> w")
    case False
    then have x: "f x < c - w" using Cons.prems(2) by simp
    then have ne: "xs \<noteq> []" using Cons.prems(3) by auto
    then have "f (hd xs) - f x \<le> 2 * w"
      using Cons.prems(4) [THEN spec, of 0] by (simp add: hd_conv_nth)
    then have hd: "f (hd xs) \<le> c + w" using x by linarith
    have "\<exists>y \<in> set xs. \<bar>f y - c\<bar> \<le> w"
    proof (rule Cons.IH [OF ne hd])
      show "c - w \<le> f (last xs)" using Cons.prems(3) ne by simp
      show "\<forall>i. Suc i < length xs \<longrightarrow> f (xs ! Suc i) - f (xs ! i) \<le> 2 * w"
        using Cons.prems(4) by (metis Suc_less_eq length_Cons nth_Cons_Suc)
    qed
    then show ?thesis by simp
  qed auto
qed simp

subsection \<open>Interval tasks\<close>

lemma tick_intervals_spec:
  "tick_intervals now its iv = (fs, iv') \<Longrightarrow> distinct (map fst its) \<Longrightarrow>
   \<forall>(fn, v) \<in> set its. dget iv fn = Some v \<Longrightarrow>
     fs = map fst (filter (\<lambda>(fn, secs, prev). secs \<le> now - prev) its)
   \<and> dget iv' = (\<lambda>fn. if fn \<in> set fs then map_option (\<lambda>(secs, _). (secs, now)) (dget iv fn) else dget iv fn)"
proof (induction now its iv arbitrary: fs iv' rule: tick_intervals.induct)
  case (2 now fn secs prev rest iv)
  show ?case
  proof (cases "secs \<le> now - prev")
    case True
    obtain fs1 iv1 where t: "tick_intervals now rest (dset fn (secs, now) iv) = (fs1, iv1)"
      by (cases "tick_intervals now rest (dset fn (secs, now) iv)")
    have e: "fs = fn # fs1" "iv' = iv1" using "2.prems"(1) True t by auto
    have "\<forall>(f, v) \<in> set rest. dget (dset fn (secs, now) iv) f = Some v"
      using "2.prems"(2,3) by force
    with "2.IH"(1) [OF True t] "2.prems"(2) have
      ih: "fs1 = map fst (filter (\<lambda>(fn, secs, prev). secs \<le> now - prev) rest)"
        "dget iv1 = (\<lambda>f. if f \<in> set fs1 then map_option (\<lambda>(s, _). (s, now)) (dget (dset fn (secs, now) iv) f)
           else dget (dset fn (secs, now) iv) f)" by auto
    have "fn \<notin> set fs1" using "2.prems"(2) ih(1) by force
    with True e ih "2.prems"(3) show ?thesis by (auto simp: fun_eq_iff)
  next
    case False
    with "2.IH"(2) "2.prems" show ?thesis by auto
  qed
qed simp

subsection \<open>Properties\<close>

text \<open>
  C3: The scheduler fires a daily task exactly once on each day it is due.  Over any run of ticks
  whose dates do not go backwards, starting with no task run yet, no (task, day) pair is fired
  twice, and the pairs fired are precisely those for which some tick of the run fell within one
  minute of a time the task is registered for.
\<close>

theorem daily_fires_exactly_once:
  fixes s :: scheduler
  assumes "sorted (map date_of nows)"
  defines "es \<equiv> fst (run_daily nows (tasks s) [])"
  shows "distinct es
    \<and> ((fn, d) \<in> set es \<longleftrightarrow> (\<exists>now \<in> set nows. date_of now = d
         \<and> (\<exists>time_str. (time_str, fn) \<in> set (tasks s) \<and> in_window now time_str)))"
proof -
  obtain es' lr' where r: "run_daily nows (tasks s) [] = (es', lr')"
    by (cases "run_daily nows (tasks s) []")
  from run_daily_spec [OF r assms(1)] show ?thesis by (auto simp: es_def r)
qed

definition clock_at :: "nat \<Rightarrow> nat \<Rightarrow> nat \<Rightarrow> datetime" where
  "clock_at h m s = \<lparr>year = 2026, month = 9, day = 16, hour = h, minute = m, second = s, microsecond = 0\<rparr>"

theorem daily_fires_exactly_once_witness:
  "distinct (fst (run_daily [clock_at 2 58 30, clock_at 2 59 30, clock_at 3 0 30]
     (tasks (add_daily ''03:00'' 7 new_scheduler)) []))"
  using daily_fires_exactly_once [of "[clock_at 2 58 30, clock_at 2 59 30, clock_at 3 0 30]"
      "add_daily ''03:00'' 7 new_scheduler"]
  by (simp add: clock_at_def date_of_def)

text \<open>
  C4: No day is missed while the clock ticks.  If the ticks of one day start before the end of the
  two-minute window around a task's time, reach its beginning, and are never more than two
  minutes apart (the loop waits sixty seconds), then the task fires that day.
\<close>

theorem daily_not_missed:
  assumes "\<forall>now \<in> set nows. date_of now = d" and "nows \<noteq> []"
    and "(time_str, fn) \<in> set (tasks s)"
    and "\<forall>now \<in> set nows. \<exists>t. scheduled_at now time_str = Some t \<and> dt_us t = c"
    and "dt_us (hd nows) \<le> c + 60000000" and "c - 60000000 \<le> dt_us (last nows)"
    and "\<forall>i. Suc i < length nows \<longrightarrow> dt_us (nows ! Suc i) - dt_us (nows ! i) \<le> 2 * 60000000"
  shows "(fn, d) \<in> set (fst (run_daily nows (tasks s) []))"
proof -
  obtain now where n: "now \<in> set nows" "\<bar>dt_us now - c\<bar> \<le> 60000000"
    using no_jump [OF assms(2,5,6,7)] by blast
  then have w: "in_window now time_str"
    using assms(4) by (auto simp: in_window_def tolerance_minutes_def)
  obtain es lr where r: "run_daily nows (tasks s) [] = (es, lr)"
    by (cases "run_daily nows (tasks s) []")
  have "sorted (map date_of nows)"
    using assms(1) by (simp add: sorted_iff_nth_mono)
  from run_daily_spec [OF r this] show ?thesis
    using n(1) w assms(1,3) by (auto simp: r)
qed

theorem daily_not_missed_witness:
  "(7, (2026, 9, 16)) \<in> set (fst (run_daily [clock_at 2 58 0, clock_at 2 59 59, clock_at 3 1 58]
     (tasks (add_daily ''03:00'' 7 new_scheduler)) []))"
  by (rule daily_not_missed [where time_str = "''03:00''" and c = "dt_us (clock_at 3 0 0)"])
    (auto simp: clock_at_def date_of_def add_daily_def new_scheduler_def scheduled_at_def py_int_def
      strip_def lstrip_def rstrip_def is_ws_def is_digit_def digit_val_def dt_us_def time_us_def
      ordinal_def less_Suc_eq nth_Cons')

text \<open>
  A gap of more than two minutes between ticks skips the task for the whole day: with the task
  due at 03:00 and ticks at 02:58:59 and at 03:01:01 and at any later times of that day outside the
  window, nothing fires, although the module says a delayed tick "will never silently skip a task
  for the entire day".
\<close>

theorem daily_skipped_by_a_gap:
  assumes "\<forall>now \<in> set later. \<not> in_window now ''03:00''"
  shows "fst (run_daily (clock_at 2 58 59 # clock_at 3 1 1 # later) (tasks (add_daily ''03:00'' fn new_scheduler)) []) = []"
proof -
  have n: "\<not> in_window (clock_at 2 58 59) ''03:00''" "\<not> in_window (clock_at 3 1 1) ''03:00''"
    by (simp_all add: clock_at_def in_window_def scheduled_at_def py_int_def strip_def lstrip_def rstrip_def
        is_ws_def is_digit_def digit_val_def dt_us_def time_us_def ordinal_def tolerance_minutes_def)
  have "fst (run_daily nows [(''03:00'', fn)] []) = []" if "\<forall>now \<in> set nows. \<not> in_window now ''03:00''" for nows
    using that by (induction nows) (auto split: prod.splits)
  with assms n show ?thesis by (simp add: add_daily_def new_scheduler_def)
qed

theorem daily_skipped_by_a_gap_witness:
  "fst (run_daily [clock_at 2 58 59, clock_at 3 1 1, clock_at 23 0 0] (tasks (add_daily ''03:00'' 7 new_scheduler)) []) = []"
  by (rule daily_skipped_by_a_gap)
    (simp add: clock_at_def in_window_def scheduled_at_def py_int_def strip_def lstrip_def rstrip_def
      is_ws_def is_digit_def digit_val_def dt_us_def time_us_def ordinal_def tolerance_minutes_def)

text \<open>
  An interval task runs at its interval and not more often.  A tick fires it exactly when its
  interval has elapsed since its last firing (or since its registration), records the tick's time,
  and no later tick within the interval fires it again.
\<close>

theorem interval_respected:
  assumes "distinct (dkeys (intervals s))" and "dget (intervals s) fn = Some (secs, prev)"
    and "tick_intervals now (intervals s) (intervals s) = (fs, iv)"
  shows "(fn \<in> set fs \<longleftrightarrow> secs \<le> now - prev)
    \<and> dget iv fn = Some (secs, if secs \<le> now - prev then now else prev)
    \<and> (\<forall>now' < now + secs. fn \<in> set fs \<longrightarrow> fn \<notin> set (fst (tick_intervals now' iv iv)))"
proof -
  have self: "\<forall>(f, v) \<in> set d. dget d f = Some v" if "distinct (dkeys d)" for d :: "(callable, rat \<times> rat) dict"
    using that by auto
  note a = tick_intervals_spec [OF assms(3,1) self [OF assms(1)]]
  have mem: "(fn, secs, prev) \<in> set (intervals s)" using assms(2) by (rule map_of_SomeD)
  have u: "q = (secs, prev)" if "(fn, q) \<in> set (intervals s)" for q
    using that assms(1) mem by (metis eq_key_imp_eq_value)
  have f: "fn \<in> set fs \<longleftrightarrow> secs \<le> now - prev"
  proof
    assume "fn \<in> set fs"
    then show "secs \<le> now - prev" using a u by fastforce
  next
    assume "secs \<le> now - prev"
    then have "(fn, secs, prev) \<in> set (filter (\<lambda>(fn, secs, prev). secs \<le> now - prev) (intervals s))"
      using mem by simp
    then show "fn \<in> set fs" using a by force
  qed
  have iv: "dget iv fn = Some (secs, if secs \<le> now - prev then now else prev)"
    using a f assms(2) by auto
  have dist: "distinct (dkeys iv')" if "tick_intervals n its d = (g, iv')" "distinct (dkeys d)" for n its d g iv'
    using that by (induction n its d arbitrary: g iv' rule: tick_intervals.induct)
      (auto simp: distinct_update split: if_splits prod.splits)
  have "fn \<notin> set (fst (tick_intervals now' iv iv))" if "now' < now + secs" "fn \<in> set fs" for now'
  proof -
    obtain g iv' where t: "tick_intervals now' iv iv = (g, iv')" by (cases "tick_intervals now' iv iv")
    have di: "distinct (dkeys iv)" by (rule dist [OF assms(3,1)])
    note b = tick_intervals_spec [OF t di self [OF di]]
    have "dget iv fn = Some (secs, now)" using iv f that(2) by simp
    then have "q = (secs, now)" if "(fn, q) \<in> set iv" for q
      using di that by (metis eq_key_imp_eq_value map_of_SomeD)
    then show ?thesis using b that(1) by (fastforce simp: t)
  qed
  with f iv show ?thesis by blast
qed

theorem interval_respected_witness:
  "3 \<in> set (fst (tick_intervals 700 (intervals (add_interval 600 3 False 100 new_scheduler))
      (intervals (add_interval 600 3 False 100 new_scheduler))))"
  using interval_respected [of "add_interval 600 3 False 100 new_scheduler" 3 600 100 700 "[3]" "[(3, 600, 700)]"]
  by (simp add: add_interval_def new_scheduler_def)

end
