(* ===== verification/Config.thy ===== *)
theory Config
  imports Py_Data
begin

text \<open>
  The parsed \<open>config.ini\<close> as the program reads it through \<open>configparser.ConfigParser\<close>: sections
  of options with lower-case names, a default section, \<open>get\<close> with basic interpolation,
  \<open>getboolean\<close> and \<open>getint\<close> with fallbacks, and \<open>set\<close>.  The text syntax of the file is in
  Ini_Text; \<open>ConfigError\<close> stands for the interpolation errors.
\<close>

type_synonym options = "(string, string) dict"

record config =
  defaults :: options
  sections :: "(string, options) dict"

text \<open>The stored text of an option: the section's own, else the default section's.\<close>

definition config_raw :: "config \<Rightarrow> string \<Rightarrow> string \<Rightarrow> string option" where
  "config_raw c sec opt = (case dget (sections c) sec of
       None \<Rightarrow> if sec = ''DEFAULT'' then dget (defaults c) (lower opt) else None
     | Some os \<Rightarrow> (case dget os (lower opt) of
           Some v \<Rightarrow> Some v | None \<Rightarrow> dget (defaults c) (lower opt)))"

text \<open>
  \<open>BasicInterpolation\<close>: \<open>%%\<close> is a percent sign, \<open>%(name)s\<close> the named option, any other percent
  sign an error.  \<open>depth\<close> counts the nested references still allowed (ten levels).
\<close>

definition reference :: "string \<Rightarrow> (string \<times> string) option" where
  "reference s = (let name = takeWhile (\<lambda>c. c \<noteq> CHR '')'') s; rest = dropWhile (\<lambda>c. c \<noteq> CHR '')'') s in
     if name \<noteq> [] \<and> startswith rest '')s'' then Some (name, drop 2 rest) else None)"

lemma reference_shorter: "reference s = Some (name, rest) \<Longrightarrow> length rest < Suc (length s)"
  by (auto simp: reference_def Let_def split: if_splits)
    (metis diff_le_self le_trans length_dropWhile_le less_Suc_eq_le)

function interpolate :: "nat \<Rightarrow> (string \<Rightarrow> string option) \<Rightarrow> string \<Rightarrow> string result" where
  "interpolate depth m [] = Inr []"
| "interpolate depth m (c # cs) =
     (if c \<noteq> CHR ''%'' then bind_r (interpolate depth m cs) (\<lambda>r. Inr (c # r))
      else if cs \<noteq> [] \<and> hd cs = CHR ''%''
      then bind_r (interpolate depth m (tl cs)) (\<lambda>r. Inr (CHR ''%'' # r))
      else if cs \<noteq> [] \<and> hd cs = CHR ''('' then
        (case reference (tl cs) of
           None \<Rightarrow> Inl ConfigError
         | Some (name, rest) \<Rightarrow> (case m (lower name) of
               None \<Rightarrow> Inl ConfigError
             | Some v \<Rightarrow>
                 if CHR ''%'' \<in> set v
                 then (if depth = 0 then Inl ConfigError
                       else bind_r (interpolate (depth - 1) m v) (\<lambda>a.
                            bind_r (interpolate depth m rest) (\<lambda>b. Inr (a @ b))))
                 else bind_r (interpolate depth m rest) (\<lambda>b. Inr (v @ b))))
      else Inl ConfigError)"
  by pat_completeness auto
termination
  by (relation "measures [\<lambda>(depth, m, s). depth, \<lambda>(depth, m, s). length s]")
    (auto dest!: reference_shorter)

definition config_get :: "config \<Rightarrow> string \<Rightarrow> string \<Rightarrow> string \<Rightarrow> string result" where
  "config_get c sec opt fallback = (case config_raw c sec opt of
       None \<Rightarrow> Inr fallback
     | Some v \<Rightarrow> interpolate 9 (config_raw c sec) v)"

text \<open>\<open>getboolean\<close> and \<open>getint\<close>; the fallback covers absence only.\<close>

definition as_boolean :: "string \<Rightarrow> bool result" where
  "as_boolean v = (let s = lower v in
     if s \<in> {''1'', ''yes'', ''true'', ''on''} then Inr True
     else if s \<in> {''0'', ''no'', ''false'', ''off''} then Inr False
     else Inl ValueError)"

definition config_getboolean :: "config \<Rightarrow> string \<Rightarrow> string \<Rightarrow> bool \<Rightarrow> bool result" where
  "config_getboolean c sec opt fallback = (case config_raw c sec opt of
       None \<Rightarrow> Inr fallback
     | Some v \<Rightarrow> bind_r (interpolate 9 (config_raw c sec) v) as_boolean)"

definition config_getint :: "config \<Rightarrow> string \<Rightarrow> string \<Rightarrow> int \<Rightarrow> int result" where
  "config_getint c sec opt fallback = (case config_raw c sec opt of
       None \<Rightarrow> Inr fallback
     | Some v \<Rightarrow> bind_r (interpolate 9 (config_raw c sec) v)
         (\<lambda>s. case py_int s of None \<Rightarrow> Inl ValueError | Some n \<Rightarrow> Inr n))"

text \<open>\<open>set\<close> refuses a value whose percent signs are neither doubled nor part of a reference.\<close>

fun drop_doubled :: "string \<Rightarrow> string" where
  "drop_doubled (c # d # s) =
     (if c = CHR ''%'' \<and> d = CHR ''%'' then drop_doubled s else c # drop_doubled (d # s))"
| "drop_doubled s = s"

function drop_references :: "string \<Rightarrow> string" where
  "drop_references [] = []"
| "drop_references (c # cs) =
     (case (if c = CHR ''%'' \<and> cs \<noteq> [] \<and> hd cs = CHR ''('' then reference (tl cs) else None) of
        Some (name, rest) \<Rightarrow> drop_references rest
      | None \<Rightarrow> c # drop_references cs)"
  by pat_completeness auto
termination
  by (relation "measure length") (auto dest!: reference_shorter split: if_splits)

definition config_set :: "string \<Rightarrow> string \<Rightarrow> string \<Rightarrow> config \<Rightarrow> config result" where
  "config_set sec opt v c =
     (if CHR ''%'' \<in> set (drop_references (drop_doubled v)) then Inl ValueError
      else case dget (sections c) sec of
        None \<Rightarrow> Inl ConfigError
      | Some os \<Rightarrow> Inr (c\<lparr>sections := dset sec (dset (lower opt) v os) (sections c)\<rparr>))"

lemma interpolate_plain [simp]: "CHR ''%'' \<notin> set v \<Longrightarrow> interpolate depth m v = Inr v"
  by (induction v) auto

lemma drop_doubled_plain [simp]: "CHR ''%'' \<notin> set v \<Longrightarrow> drop_doubled v = v"
  by (induction v rule: drop_doubled.induct) auto

lemma drop_references_plain [simp]: "CHR ''%'' \<notin> set v \<Longrightarrow> drop_references v = v"
  by (induction v) (simp, force)

lemma config_get_plain:
  "config_raw c sec opt = Some v \<Longrightarrow> CHR ''%'' \<notin> set v \<Longrightarrow> config_get c sec opt fb = Inr v"
  by (simp add: config_get_def)

lemma config_raw_set:
  assumes "config_set sec opt v c = Inr c'"
  shows "config_raw c' s k = (if s = sec \<and> lower k = lower opt then Some v else config_raw c s k)"
proof -
  obtain os where "dget (sections c) sec = Some os"
    and "c' = c\<lparr>sections := dset sec (dset (lower opt) v os) (sections c)\<rparr>"
    using assms by (simp add: config_set_def split: if_splits option.splits)
  then show ?thesis
    by (cases "s = sec"; cases "lower k = lower opt") (simp_all add: config_raw_def cong: option.case_cong)
qed

end
