(* ===== verification/Secrets.thy ===== *)
theory Secrets
  imports Config Atomic_File
begin

text \<open>
  Passwords at rest, \<open>aruba_agent/secrets_store.py\<close>: the \<open>enc:\<close> form of a value, the readers
  that decrypt it, and the master key file.

  Fernet (the package cryptography) is a parameter: a randomised \<open>encrypt\<close>, the nonce being its
  first argument, and a \<open>decrypt\<close> that may reject a token.  What the code relies on is
  \<open>fernet_sound\<close>: decrypting a token of the same key gives the text back, and tokens, being
  URL-safe base64, have no percent sign.
\<close>

record fernet =
  f_encrypt :: "nat \<Rightarrow> string \<Rightarrow> string"
  f_decrypt :: "string \<Rightarrow> string option"

definition fernet_sound :: "fernet \<Rightarrow> bool" where
  "fernet_sound f \<longleftrightarrow> (\<forall>n p. f_decrypt f (f_encrypt f n p) = Some p \<and> CHR ''%'' \<notin> set (f_encrypt f n p))"

subsection \<open>Values\<close>

definition enc_prefix :: string where
  "enc_prefix = ''enc:''"

definition is_encrypted :: "string \<Rightarrow> bool" where
  "is_encrypted v = (v \<noteq> [] \<and> startswith v enc_prefix)"

definition sm_encrypt :: "fernet \<Rightarrow> nat \<Rightarrow> string \<Rightarrow> string" where
  "sm_encrypt f n p = (if p = [] then [] else if is_encrypted p then p
     else enc_prefix @ f_encrypt f n p)"

definition sm_decrypt :: "fernet \<Rightarrow> string \<Rightarrow> string" where
  "sm_decrypt f v = (if v = [] \<or> \<not> startswith v enc_prefix then v
     else (case f_decrypt f (drop (length enc_prefix) v) of None \<Rightarrow> [] | Some p \<Rightarrow> p))"

text \<open>The module-level \<open>decrypt\<close>, with the installed manager or none.\<close>

definition decrypt :: "fernet option \<Rightarrow> string \<Rightarrow> string" where
  "decrypt inst v = (if v = [] then v else if \<not> startswith v enc_prefix then v
     else (case inst of None \<Rightarrow> [] | Some f \<Rightarrow> sm_decrypt f v))"

definition cfg_get :: "fernet option \<Rightarrow> config \<Rightarrow> string \<Rightarrow> string \<Rightarrow> string \<Rightarrow> string result" where
  "cfg_get inst c sec key fallback =
     bind_r (config_get c sec key fallback) (\<lambda>raw. Inr (decrypt inst raw))"

text \<open>\<open>section_get\<close> on the proxy of section \<open>sec\<close>, which reads through the same \<open>get\<close>.\<close>

definition section_get :: "fernet option \<Rightarrow> config \<Rightarrow> string \<Rightarrow> string \<Rightarrow> string \<Rightarrow> string result" where
  "section_get inst c sec key fallback =
     bind_r (config_get c sec key fallback) (\<lambda>raw. Inr (decrypt inst raw))"

subsection \<open>Which fields are secret\<close>

definition sensitive_fields :: "(string \<times> string list) list" where
  "sensitive_fields =
     [(''credentials'', [''password'']),
      (''credentials.cisco'', [''password'', ''enable_secret'']),
      (''credentials.arista'', [''password'', ''enable_password'']),
      (''smtp'', [''password'']),
      (''radius'', [''secret'']),
      (''web'', [''secret_key'']),
      (''snmp'', [''auth_password'', ''priv_password'']),
      (''snmp.*'', [''auth_password'', ''priv_password''])]"

fun wildcard_fields :: "string \<Rightarrow> (string \<times> string list) list \<Rightarrow> string list" where
  "wildcard_fields name [] = []"
| "wildcard_fields name ((sec, fs) # rest) =
     (if endswith sec ''.*'' \<and> startswith name (take (length sec - 2) sec @ ''.'') then fs
      else wildcard_fields name rest)"

definition fields_for_section :: "string \<Rightarrow> string list" where
  "fields_for_section name = (case map_of sensitive_fields name of
       Some fs \<Rightarrow> fs
     | None \<Rightarrow> wildcard_fields name sensitive_fields)"

subsection \<open>The master key\<close>

text \<open>
  \<open>_load_or_create\<close>.  \<open>valid\<close> is whether \<open>Fernet(key)\<close> accepts the key, \<open>new_key\<close> what
  \<open>generate_key()\<close> returns; \<open>Corrupt\<close> is a file that cannot be read.  A missing key with
  \<open>create_if_missing\<close> off raises \<open>FileNotFoundError\<close>, an \<open>OSError\<close>.
\<close>

definition load_or_create ::
    "faults \<Rightarrow> (string \<Rightarrow> bool) \<Rightarrow> string \<Rightarrow> bool \<Rightarrow> string disk \<Rightarrow> string result \<times> string disk" where
  "load_or_create fail valid new_key create_if_missing d = (case target d of
       Holds k \<Rightarrow> (if valid (strip k) then (Inr (strip k), d) else (Inl RuntimeError, d))
     | Corrupt \<Rightarrow> (Inl RuntimeError, d)
     | Missing \<Rightarrow>
         if \<not> create_if_missing then (Inl OSError, d)
         else (case atomic_save fail new_key d of
             (Inl _, d') \<Rightarrow> (Inl RuntimeError, d')
           | (Inr _, d') \<Rightarrow> (Inr new_key, d')))"

subsection \<open>Values\<close>

lemma startswith_append [simp]: "startswith (p @ s) p"
  by (simp add: startswith_def)

lemma is_encrypted_token [simp]: "is_encrypted (enc_prefix @ t)"
  by (simp add: is_encrypted_def enc_prefix_def startswith_def)

lemma enc_prefix_nonempty [simp]: "enc_prefix \<noteq> []"
  by (simp add: enc_prefix_def)

lemma sm_decrypt_encrypt [simp]:
  "fernet_sound f \<Longrightarrow> \<not> is_encrypted p \<Longrightarrow> sm_decrypt f (sm_encrypt f n p) = p"
  by (auto simp: sm_encrypt_def sm_decrypt_def fernet_sound_def)

lemma sm_decrypt_plain: "\<not> is_encrypted v \<Longrightarrow> sm_decrypt f v = v"
  by (auto simp: is_encrypted_def sm_decrypt_def)

lemma sm_encrypt_encrypted: "p \<noteq> [] \<Longrightarrow> is_encrypted (sm_encrypt f n p)"
  by (simp add: sm_encrypt_def)

lemma sm_encrypt_plain:
  "fernet_sound f \<Longrightarrow> \<not> is_encrypted p \<Longrightarrow> CHR ''%'' \<notin> set (sm_encrypt f n p)"
  by (auto simp: sm_encrypt_def fernet_sound_def enc_prefix_def)

lemma decrypt_installed [simp]: "decrypt (Some f) v = sm_decrypt f v"
  by (simp add: decrypt_def sm_decrypt_def)

lemma fields_lower: "k \<in> set (fields_for_section s) \<Longrightarrow> lower k = k"
proof -
  have A: "k \<in> \<Union> (set ` snd ` set sensitive_fields) \<Longrightarrow> lower k = k" for k
    by (auto simp: sensitive_fields_def lower_def lower_char_def)
  have B: "set (wildcard_fields s fs) \<subseteq> \<Union> (set ` snd ` set fs)" for fs
    by (induction fs) (auto split: if_splits)
  assume k: "k \<in> set (fields_for_section s)"
  show ?thesis
  proof (cases "map_of sensitive_fields s")
    case None
    then have "k \<in> set (wildcard_fields s sensitive_fields)" using k by (simp add: fields_for_section_def)
    then show ?thesis using B [of sensitive_fields] A [of k] by (meson subsetD)
  next
    case (Some fs)
    then have "k \<in> set fs" using k by (simp add: fields_for_section_def)
    moreover have "fs \<in> snd ` set sensitive_fields" using map_of_SomeD [OF Some] by force
    ultimately show ?thesis using A [of k] by (meson UnionI imageI)
  qed
qed

text \<open>A concrete codec for instances: three digits per character.\<close>

definition sample_fernet :: fernet where
  "sample_fernet = \<lparr>f_encrypt = \<lambda>n p. concat (map (\<lambda>c. padded 3 (of_char c)) p),
     f_decrypt = \<lambda>t. Some (map (\<lambda>i. char_of (foldl (\<lambda>a c. 10 * a + digit_val c) (0::nat) (take 3 (drop (3 * i) t))))
       [0..<length t div 3])\<rparr>"

lemma sample_chunks:
  "length (concat (map (\<lambda>c. padded 3 (of_char c)) p)) = 3 * length p"
  "i < length p \<Longrightarrow> take 3 (drop (3 * i) (concat (map (\<lambda>c. padded 3 (of_char c)) p))) = padded 3 (of_char (p ! i))"
  by (induction p arbitrary: i) (auto simp: nth_Cons split: nat.splits simp del: padded.simps)

lemma sample_sound: "fernet_sound sample_fernet"
  unfolding fernet_sound_def
proof (intro allI conjI)
  fix n p
  have "(of_char c :: nat) < 10 ^ 3" for c :: char
    using less_trans [OF nat_of_char_less_256 [of c], of "10 ^ 3"] by simp
  then have *: "(of_char c :: nat) mod 10 ^ 3 = of_char c" for c :: char by simp
  have "map (\<lambda>i. char_of ((of_char (p ! i) :: nat) mod 10 ^ 3)) [0..<length p] = p"
    unfolding * by (simp add: map_nth)
  moreover have "map (\<lambda>i. char_of (foldl (\<lambda>a c. 10 * a + digit_val c) (0::nat)
        (take 3 (drop (3 * i) (concat (map (\<lambda>c. padded 3 (of_char c)) p)))))) [0..<length p]
      = map (\<lambda>i. char_of ((of_char (p ! i) :: nat) mod 10 ^ 3)) [0..<length p]"
    by (rule map_cong [OF refl], subst sample_chunks(2)) (simp_all only: foldl_padded set_upt atLeastLessThan_iff)
  ultimately show "f_decrypt sample_fernet (f_encrypt sample_fernet n p) = Some p"
    by (simp add: sample_fernet_def sample_chunks(1))
  have "CHR ''%'' \<notin> set (padded 3 m)" for m
    using padded_digits [of 3 m] by (auto simp: list_all_iff is_digit_def simp del: padded.simps padded_digits)
  then show "CHR ''%'' \<notin> set (f_encrypt sample_fernet n p)"
    by (auto simp: sample_fernet_def simp del: padded.simps)
qed

subsection \<open>Properties\<close>

text \<open>
  The master key is never regenerated over an existing one.  A key file that is there, readable
  or not, is left alone whatever happens; and a key generated at the first start, if its creation
  succeeded, is the key every later start loads.
\<close>

theorem master_key_is_stable:
  assumes "valid new_key" and "strip new_key = new_key"
    and "load_or_create fail valid new_key create d = (res, d')"
  shows "(target d \<noteq> Missing \<longrightarrow> d' = d)
    \<and> (target d = Corrupt \<longrightarrow> res = Inl RuntimeError)
    \<and> (\<forall>k. res = Inr k \<longrightarrow> load_or_create fail' valid other create' d' = (Inr k, d'))"
proof (cases "target d")
  case Missing
  show ?thesis
  proof (cases "fst (atomic_save fail new_key d)")
    case (Inl e)
    with Missing assms(3) show ?thesis by (auto simp: load_or_create_def split: prod.splits if_splits)
  next
    case (Inr u)
    then have "target (snd (atomic_save fail new_key d)) = Holds new_key"
      using atomic_save_target(1) [of fail new_key d] by simp
    with Missing assms show ?thesis
      by (auto simp: load_or_create_def split: prod.splits if_splits sum.splits)
  qed
qed (use assms in \<open>auto simp: load_or_create_def split: if_splits\<close>)

theorem master_key_is_stable_witness:
  "fst (load_or_create no_faults (\<lambda>k. length k = 4) ''other'' True
     (snd (load_or_create no_faults (\<lambda>k. length k = 4) ''key1'' True \<lparr>target = Missing, target_mode = 0, temp = None\<rparr>)))
   = Inr ''key1''"
  using master_key_is_stable [of "\<lambda>k. length k = 4" "''key1''" no_faults True
      "\<lparr>target = Missing, target_mode = 0, temp = None\<rparr>" "Inr ''key1''"
      "snd (load_or_create no_faults (\<lambda>k. length k = 4) ''key1'' True \<lparr>target = Missing, target_mode = 0, temp = None\<rparr>)"
      no_faults "''other''" True]
  by (simp add: load_or_create_def strip_def lstrip_def rstrip_def is_ws_def)

end
