(* ===== verification/Alert_Batcher.thy ===== *)
theory Alert_Batcher
  imports Secrets
begin

text \<open>
  The SMTP notifier (\<open>aruba_agent/notifier.py\<close>) and the batcher that coalesces reachability alerts
  (\<open>aruba_agent/alert_batcher.py\<close>).  Timer threads, the thread that shuts the agent down and the
  monitor threads interleave: every section under the lock, every \<open>_send\<close> outside it and every
  timer that elapses is one step of the relation \<open>batcher_run\<close>.
\<close>

subsection \<open>The notifier\<close>

record mail =
  m_from :: string
  m_to :: "string list"
  m_subject :: string
  m_body :: string

text \<open>
  \<open>n_delivers\<close> is the environment's answer to an SMTP conversation, \<open>n_outbox\<close> the mail handed to
  the server.  A failed conversation is logged and the mail is lost.
\<close>

record notifier =
  n_enabled :: bool
  n_host :: string
  n_port :: int
  n_use_tls :: bool
  n_username :: string
  n_password :: string
  n_from :: string
  n_to :: "string list"
  n_delivers :: bool
  n_outbox :: "mail list"

definition recipients :: "string \<Rightarrow> string list" where
  "recipients v = map strip (filter (\<lambda>a. strip a \<noteq> []) (split_on (CHR '','') v))"

definition open_notifier :: "fernet option \<Rightarrow> config \<Rightarrow> bool \<Rightarrow> notifier result" where
  "open_notifier inst c delivers =
     bind_r (config_getboolean c ''smtp'' ''enabled'' True) (\<lambda>enabled.
     bind_r (config_get c ''smtp'' ''host'' ''localhost'') (\<lambda>host.
     bind_r (config_getint c ''smtp'' ''port'' 587) (\<lambda>port.
     bind_r (config_getboolean c ''smtp'' ''use_tls'' True) (\<lambda>tls.
     bind_r (config_get c ''smtp'' ''username'' []) (\<lambda>user.
     bind_r (cfg_get inst c ''smtp'' ''password'' []) (\<lambda>pw.
     bind_r (config_get c ''smtp'' ''from'' user) (\<lambda>sender.
     bind_r (config_get c ''smtp'' ''to'' []) (\<lambda>to.
     Inr \<lparr>n_enabled = enabled, n_host = host, n_port = port, n_use_tls = tls, n_username = user,
       n_password = pw, n_from = sender, n_to = recipients to, n_delivers = delivers, n_outbox = []\<rparr>))))))))"

definition notifier_send :: "string \<Rightarrow> string \<Rightarrow> notifier \<Rightarrow> notifier" where
  "notifier_send subject body n =
     (if \<not> n_enabled n then n
      else if n_to n = [] then n
      else if n_delivers n
      then n\<lparr>n_outbox := n_outbox n
        @ [\<lparr>m_from = n_from n, m_to = n_to n, m_subject = subject, m_body = body\<rparr>]\<rparr>
      else n)"

definition notifier_works :: "notifier \<Rightarrow> bool" where
  "notifier_works n = (n_enabled n \<and> n_to n \<noteq> [] \<and> n_delivers n)"

text \<open>What the alerting components rely on: a working mailer keeps working and appends each mail.\<close>

locale mailer =
  fixes send :: "string \<Rightarrow> string \<Rightarrow> 'm \<Rightarrow> 'm"
    and outbox :: "'m \<Rightarrow> (string \<times> string) list"
    and works :: "'m \<Rightarrow> bool"
  assumes send_works: "works m \<Longrightarrow> outbox (send s b m) = outbox m @ [(s, b)]"
    and works_send: "works (send s b m) = works m"
    and send_broken: "\<not> works m \<Longrightarrow> outbox (send s b m) = outbox m"
begin

lemma works_sends: "works (fold (\<lambda>(s, b). send s b) ms m) = works m"
  by (induction ms arbitrary: m) (simp_all add: works_send case_prod_unfold)

lemma sends: "outbox (fold (\<lambda>(s, b). send s b) ms m) = (if works m then outbox m @ ms else outbox m)"
proof (induction ms arbitrary: m)
  case (Cons x ms)
  obtain s b where x: "x = (s, b)" by (cases x)
  have "outbox (fold (\<lambda>(s, b). send s b) (x # ms) m)
    = (if works m then outbox (send s b m) @ ms else outbox (send s b m))"
    using Cons.IH [of "send s b m"] by (simp add: x works_send)
  then show ?case by (cases "works m") (simp_all add: x send_works send_broken)
qed simp

end

definition outbox_texts :: "notifier \<Rightarrow> (string \<times> string) list" where
  "outbox_texts n = map (\<lambda>m. (m_subject m, m_body m)) (n_outbox n)"

interpretation smtp: mailer notifier_send outbox_texts notifier_works
  by unfold_locales (auto simp: notifier_send_def outbox_texts_def notifier_works_def)

subsection \<open>The batcher\<close>

text \<open>
  \<open>running\<close> lists the timers that are counting down with the kind they flush, \<open>flushing\<close> the
  calls of \<open>_flush\<close> that have started and wait for the lock, \<open>sending\<close> the calls of \<open>_send\<close> on
  their way.  A timer is known by its number.
\<close>

type_synonym alert_entry = "string \<times> string"

record batcher =
  window :: int
  pending :: "(string, alert_entry list) dict"
  timers :: "(string, nat) dict"
  running :: "(nat \<times> string) list"
  next_timer :: nat
  flushing :: "string list"
  sending :: "(string \<times> alert_entry list) list"
  notify :: notifier

definition new_batcher :: "notifier \<Rightarrow> int \<Rightarrow> batcher" where
  "new_batcher n window_seconds = \<lparr>window = max 0 window_seconds, pending = [], timers = [],
     running = [], next_timer = 0, flushing = [], sending = [], notify = n\<rparr>"

definition add_alert :: "string \<Rightarrow> string \<Rightarrow> string \<Rightarrow> batcher \<Rightarrow> batcher" where
  "add_alert kind label block b =
     (if window b \<le> 0 then b\<lparr>sending := sending b @ [(kind, [(label, block)])]\<rparr>
      else let old = (case dget (pending b) kind of None \<Rightarrow> [] | Some es \<Rightarrow> es);
               b1 = b\<lparr>pending := dset kind (old @ [(label, block)]) (pending b)\<rparr>
        in if has_key (timers b) kind then b1
           else b1\<lparr>timers := dset kind (next_timer b) (timers b),
                   running := running b @ [(next_timer b, kind)],
                   next_timer := Suc (next_timer b)\<rparr>)"

text \<open>A timer elapses: it can no longer be cancelled, and its \<open>_flush\<close> is about to run.\<close>

definition timer_fires :: "nat \<Rightarrow> string \<Rightarrow> batcher \<Rightarrow> batcher" where
  "timer_fires i kind b = b\<lparr>running := removeAll (i, kind) (running b), flushing := flushing b @ [kind]\<rparr>"

definition flush_all :: "batcher \<Rightarrow> batcher" where
  "flush_all b = b\<lparr>timers := [],
     running := filter (\<lambda>(i, _). i \<notin> set (dvals (timers b))) (running b),
     flushing := flushing b @ dkeys (pending b)\<rparr>"

definition flush_kind :: "string \<Rightarrow> batcher \<Rightarrow> batcher" where
  "flush_kind kind b =
     (let es = (case dget (pending b) kind of None \<Rightarrow> [] | Some es \<Rightarrow> es);
          b1 = b\<lparr>pending := ddel kind (pending b), timers := ddel kind (timers b),
                 flushing := remove1 kind (flushing b)\<rparr>
      in if es = [] then b1 else b1\<lparr>sending := sending b @ [(kind, es)]\<rparr>)"

definition separator :: string where
  "separator = ''\<newline>'' @ replicate 44 (CHR ''_'') @ ''\<newline>''"

definition subject_of :: "string \<Rightarrow> string list \<Rightarrow> string" where
  "subject_of kind labels =
     (let word = (if kind = ''restored'' then ''RESTORED'' else ''DOWN'')
      in case labels of
           [l] \<Rightarrow> ''[Network Agent] Switch '' @ word @ '': '' @ l
         | _ \<Rightarrow> ''[Network Agent] '' @ nat_str (length labels) @ '' switches '' @ word)"

definition mail_of :: "string \<times> alert_entry list \<Rightarrow> string \<times> string" where
  "mail_of batch = (case batch of (kind, es) \<Rightarrow>
     (subject_of kind (map fst es),
      (case es of [(_, block)] \<Rightarrow> block | _ \<Rightarrow> join separator (map snd es))))"

definition send_batch :: "string \<times> alert_entry list \<Rightarrow> batcher \<Rightarrow> batcher" where
  "send_batch batch b = b\<lparr>sending := remove1 batch (sending b),
     notify := (case mail_of batch of (s, body) \<Rightarrow> notifier_send s body (notify b))\<rparr>"

text \<open>
  Any interleaving from a state, with the alerts added so far and the batches sent so far.
\<close>

inductive batcher_run ::
    "batcher \<Rightarrow> (string \<times> alert_entry) list \<Rightarrow> (string \<times> alert_entry list) list \<Rightarrow> batcher \<Rightarrow> bool"
  for b0 :: batcher where
  start: "batcher_run b0 [] [] b0"
| added: "batcher_run b0 xs ss b \<Longrightarrow> batcher_run b0 (xs @ [(k, l, t)]) ss (add_alert k l t b)"
| fires: "batcher_run b0 xs ss b \<Longrightarrow> (i, k) \<in> set (running b) \<Longrightarrow> batcher_run b0 xs ss (timer_fires i k b)"
| shutdown: "batcher_run b0 xs ss b \<Longrightarrow> batcher_run b0 xs ss (flush_all b)"
| flush: "batcher_run b0 xs ss b \<Longrightarrow> k \<in> set (flushing b) \<Longrightarrow> batcher_run b0 xs ss (flush_kind k b)"
| send: "batcher_run b0 xs ss b \<Longrightarrow> x \<in> set (sending b) \<Longrightarrow> batcher_run b0 xs (ss @ [x]) (send_batch x b)"

inductive_cases batcher_runE: "batcher_run b0 xs ss b"

text \<open>
  The end of \<open>flush_all\<close> when nothing else happens: the flushes that wait, then the sends.
\<close>

definition drain :: "batcher \<Rightarrow> batcher" where
  "drain b = (let b1 = flush_all b; b2 = fold flush_kind (flushing b1) b1 in fold send_batch (sending b2) b2)"

subsection \<open>The invariant\<close>

definition alerts_in :: "(string \<times> alert_entry list) list \<Rightarrow> (string \<times> alert_entry) multiset" where
  "alerts_in bs = mset (concat (map (\<lambda>(k, es). map (Pair k) es) bs))"

lemma alerts_in_simps [simp]:
  "alerts_in [] = {#}" "alerts_in ((k, es) # bs) = mset (map (Pair k) es) + alerts_in bs"
  "alerts_in (xs @ ys) = alerts_in xs + alerts_in ys"
  by (simp_all add: alerts_in_def)

definition entries_for :: "(string, alert_entry list) dict \<Rightarrow> string \<Rightarrow> alert_entry list" where
  "entries_for d k = (case dget d k of None \<Rightarrow> [] | Some es \<Rightarrow> es)"

lemma alerts_in_dset:
  "distinct (dkeys d) \<Longrightarrow> alerts_in (dset k (entries_for d k @ [e]) d) = add_mset (k, e) (alerts_in d)"
proof (induction d)
  case (Cons kv d)
  then show ?case by (cases kv; cases "fst kv = k") (auto simp: entries_for_def)
qed (simp add: entries_for_def)

lemma ddel_fresh: "k \<notin> set (dkeys d) \<Longrightarrow> ddel k d = d"
  by (induction d) auto

lemma alerts_in_ddel:
  "distinct (dkeys d) \<Longrightarrow> alerts_in (ddel k d) + mset (map (Pair k) (entries_for d k)) = alerts_in d"
proof (induction d)
  case (Cons kv d)
  then show ?case
    by (cases kv; cases "fst kv = k") (auto simp: entries_for_def ddel_fresh split: option.splits)
qed (simp add: entries_for_def)

lemma alerts_in_remove1: "x \<in> set bs \<Longrightarrow> alerts_in (remove1 x bs) + alerts_in [x] = alerts_in bs"
  by (induction bs) (auto split: prod.splits)

definition batcher_inv :: "(string \<times> alert_entry) list \<Rightarrow> (string \<times> alert_entry list) list \<Rightarrow> batcher \<Rightarrow> bool" where
  "batcher_inv xs ss b \<longleftrightarrow> distinct (dkeys (pending b))
     \<and> (\<forall>k i. dget (timers b) k = Some i \<longrightarrow> (i, k) \<in> set (running b) \<or> k \<in> set (flushing b))
     \<and> (\<forall>k. has_key (pending b) k \<longrightarrow> has_key (timers b) k \<or> k \<in> set (flushing b))
     \<and> mset xs = alerts_in (pending b) + alerts_in (sending b) + alerts_in ss"

lemma add_alert_inv:
  assumes "batcher_inv xs ss b"
  shows "batcher_inv (xs @ [(k, l, t)]) ss (add_alert k l t b)"
proof (cases "window b \<le> 0")
  case True
  with assms show ?thesis by (simp add: batcher_inv_def add_alert_def)
next
  case False
  let ?d = "dset k (entries_for (pending b) k @ [(l, t)]) (pending b)"
  have e: "(case dget (pending b) k of None \<Rightarrow> [] | Some es \<Rightarrow> es) = entries_for (pending b) k"
    by (simp add: entries_for_def)
  have p: "pending (add_alert k l t b) = ?d" "sending (add_alert k l t b) = sending b"
    "flushing (add_alert k l t b) = flushing b"
    using False by (auto simp: add_alert_def Let_def e)
  have t: "timers (add_alert k l t b) = (if has_key (timers b) k then timers b else dset k (next_timer b) (timers b))"
    "running (add_alert k l t b) = (if has_key (timers b) k then running b else running b @ [(next_timer b, k)])"
    using False by (auto simp: add_alert_def Let_def)
  show ?thesis
    using assms unfolding batcher_inv_def p t
    by (auto simp: alerts_in_dset distinct_update)
qed

lemma timer_fires_inv: "batcher_inv xs ss b \<Longrightarrow> batcher_inv xs ss (timer_fires i k b)"
  by (auto simp: batcher_inv_def timer_fires_def)

lemma flush_all_inv: "batcher_inv xs ss b \<Longrightarrow> batcher_inv xs ss (flush_all b)"
  by (auto simp: batcher_inv_def flush_all_def has_key_iff)

lemma flush_kind_inv:
  assumes "batcher_inv xs ss b"
  shows "batcher_inv xs ss (flush_kind k b)"
proof -
  have e: "(case dget (pending b) k of None \<Rightarrow> [] | Some es \<Rightarrow> es) = entries_for (pending b) k"
    by (simp add: entries_for_def)
  have p: "pending (flush_kind k b) = ddel k (pending b)" "timers (flush_kind k b) = ddel k (timers b)"
    "flushing (flush_kind k b) = remove1 k (flushing b)" "running (flush_kind k b) = running b"
    by (auto simp: flush_kind_def Let_def)
  have s: "alerts_in (sending (flush_kind k b)) = alerts_in (sending b) + mset (map (Pair k) (entries_for (pending b) k))"
    by (simp add: flush_kind_def Let_def e)
  show ?thesis
    using assms alerts_in_ddel [of "pending b" k] unfolding batcher_inv_def p s
    by (auto simp: distinct_delete)
qed

lemma send_batch_inv:
  assumes "batcher_inv xs ss b" "x \<in> set (sending b)"
  shows "batcher_inv xs (ss @ [x]) (send_batch x b)"
  using assms alerts_in_remove1 [OF assms(2)]
  by (auto simp: batcher_inv_def send_batch_def)

lemma batcher_inv_new: "batcher_inv [] [] (new_batcher n w)"
  by (simp add: batcher_inv_def new_batcher_def)

lemma batcher_run_inv: "batcher_run b0 xs ss b \<Longrightarrow> batcher_inv [] [] b0 \<Longrightarrow> batcher_inv xs ss b"
  by (induction rule: batcher_run.induct)
    (auto intro: add_alert_inv timer_fires_inv flush_all_inv flush_kind_inv send_batch_inv)

lemma notify_simps [simp]:
  "notify (add_alert k l t b) = notify b" "notify (timer_fires i k b) = notify b"
  "notify (flush_all b) = notify b" "notify (flush_kind k b) = notify b"
  by (auto simp: add_alert_def timer_fires_def flush_all_def flush_kind_def Let_def)

lemma batcher_run_mails:
  "batcher_run b0 xs ss b \<Longrightarrow> notifier_works (notify b0) \<Longrightarrow>
     notifier_works (notify b) \<and> outbox_texts (notify b) = outbox_texts (notify b0) @ map mail_of ss"
  by (induction rule: batcher_run.induct)
    (auto simp: send_batch_def smtp.send_works smtp.works_send split: prod.splits)

subsection \<open>Runs that end\<close>

lemma batcher_run_flushes:
  "batcher_run b0 xs ss b \<Longrightarrow> mset ks \<subseteq># mset (flushing b) \<Longrightarrow> batcher_run b0 xs ss (fold flush_kind ks b)"
proof (induction ks arbitrary: b)
  case (Cons k ks)
  have k: "k \<in> set (flushing b)" using Cons.prems(2) by (metis insert_subset set_mset_add_mset_insert set_mset_mono set_mset_mset mset.simps(2))
  have "flushing (flush_kind k b) = remove1 k (flushing b)" by (auto simp: flush_kind_def Let_def)
  moreover have "mset ks \<subseteq># mset (flushing b) - {#k#}"
    using Cons.prems(2) by (simp add: insert_subset_eq_iff)
  ultimately show ?case using Cons.IH [of "flush_kind k b"] batcher_run.flush [OF Cons.prems(1) k] by simp
qed simp

lemma batcher_run_sends:
  "batcher_run b0 xs ss b \<Longrightarrow> sending b = qs \<Longrightarrow>
     batcher_run b0 xs (ss @ qs) (fold send_batch qs b) \<and> sending (fold send_batch qs b) = []
     \<and> pending (fold send_batch qs b) = pending b"
proof (induction qs arbitrary: b ss)
  case (Cons q qs)
  have "sending (send_batch q b) = qs" "pending (send_batch q b) = pending b"
    by (simp_all add: send_batch_def Cons.prems(2))
  with Cons.IH [OF batcher_run.send [OF Cons.prems(1), of q]] Cons.prems(2) show ?case by simp
qed simp

lemma flushes_empty:
  "dkeys (pending b) \<noteq> [] \<longrightarrow> set (dkeys (pending b)) \<subseteq> set ks \<Longrightarrow> pending (fold flush_kind ks b) = []"
proof (induction ks arbitrary: b)
  case (Cons k ks)
  have "pending (flush_kind k b) = ddel k (pending b)" by (auto simp: flush_kind_def Let_def)
  then show ?case using Cons.prems by (simp, intro Cons.IH) (auto simp: AList.delete_eq)
qed auto

subsection \<open>Properties\<close>

text \<open>
  C6: No alert is lost, duplicated or stuck, however the threads interleave.  In every reachable
  state the alerts added are exactly those still pending, those on their way to the notifier and
  those sent; a kind with pending alerts has a running timer or a flush under way; and with a
  working notifier the mails delivered are those of the batches sent, in that order.
\<close>

theorem alerts_conserved:
  assumes "batcher_run (new_batcher n w) xs ss b"
  shows "mset xs = alerts_in (pending b) + alerts_in (sending b) + alerts_in ss
    \<and> (\<forall>kind. has_key (pending b) kind \<longrightarrow>
         (\<exists>i. (i, kind) \<in> set (running b)) \<or> kind \<in> set (flushing b))
    \<and> (notifier_works n \<longrightarrow> outbox_texts (notify b) = outbox_texts n @ map mail_of ss)"
proof -
  have "batcher_inv xs ss b" by (rule batcher_run_inv [OF assms batcher_inv_new])
  then have "mset xs = alerts_in (pending b) + alerts_in (sending b) + alerts_in ss
    \<and> (\<forall>kind. has_key (pending b) kind \<longrightarrow>
         (\<exists>i. (i, kind) \<in> set (running b)) \<or> kind \<in> set (flushing b))"
    by (fastforce simp: batcher_inv_def has_key_def)
  moreover have "notify (new_batcher n w) = n" by (simp add: new_batcher_def)
  ultimately show ?thesis using batcher_run_mails [OF assms] by simp
qed

definition sample_notifier :: notifier where
  "sample_notifier = \<lparr>n_enabled = True, n_host = ''mail'', n_port = 587, n_use_tls = True, n_username = [],
     n_password = [], n_from = ''agent'', n_to = [''ops''], n_delivers = True, n_outbox = []\<rparr>"

theorem alerts_conserved_witness:
  "has_key (pending (add_alert ''down'' ''sw1'' ''body'' (new_batcher sample_notifier 60))) ''down''
   \<and> (\<exists>i. (i, ''down'') \<in> set (running (add_alert ''down'' ''sw1'' ''body'' (new_batcher sample_notifier 60))))"
  using alerts_conserved [OF batcher_run.added [OF batcher_run.start
      [of "new_batcher sample_notifier 60"], where k = "''down''" and l = "''sw1''" and t = "''body''"]]
  by (simp add: add_alert_def new_batcher_def has_key_def)

text \<open>
  A simultaneous outage is one mail.  Any number of alerts of a kind that arrive while its window
  is open start one timer only; when it elapses, one mail is delivered, its subject counts the
  switches and its body has every alert, in the order of arrival; nothing of the kind stays behind.
\<close>

theorem outage_is_one_mail:
  assumes "window b > 0" and "\<not> has_key (pending b) kind" and "\<not> has_key (timers b) kind"
    and "notifier_works (notify b)" and "es \<noteq> []"
    and "b1 = fold (\<lambda>(label, block). add_alert kind label block) es b"
    and "b2 = send_batch (kind, es) (flush_kind kind (timer_fires (next_timer b) kind b1))"
  shows "running b1 = running b @ [(next_timer b, kind)]
    \<and> (kind, es) \<in> set (sending (flush_kind kind (timer_fires (next_timer b) kind b1)))
    \<and> outbox_texts (notify b2) = outbox_texts (notify b)
        @ [(subject_of kind (map fst es), join separator (map snd es))]
    \<and> \<not> has_key (pending b2) kind"
proof -
  have more: "pending (fold (\<lambda>(l, t). add_alert kind l t) es c) = dset kind (old @ es) (pending c)
      \<and> running (fold (\<lambda>(l, t). add_alert kind l t) es c) = running c
      \<and> notify (fold (\<lambda>(l, t). add_alert kind l t) es c) = notify c"
    if "window c > 0" "dget (pending c) kind = Some old" "has_key (timers c) kind" for es c old
    using that
  proof (induction es arbitrary: c old)
    case (Cons e es)
    obtain l t where e: "e = (l, t)" by (cases e)
    let ?c = "add_alert kind l t c"
    have c: "window ?c = window c" "pending ?c = dset kind (old @ [e]) (pending c)" "timers ?c = timers c"
      "running ?c = running c"
      using Cons.prems by (auto simp: add_alert_def Let_def e)
    have "pending (fold (\<lambda>(l, t). add_alert kind l t) es ?c) = dset kind ((old @ [e]) @ es) (pending ?c)
      \<and> running (fold (\<lambda>(l, t). add_alert kind l t) es ?c) = running ?c
      \<and> notify (fold (\<lambda>(l, t). add_alert kind l t) es ?c) = notify ?c"
      by (rule Cons.IH) (use Cons.prems c in simp_all)
    then show ?case by (simp add: c e)
  qed (simp add: update_triv)
  obtain e es' where es: "es = e # es'" using assms(5) by (cases es) auto
  obtain l t where e: "e = (l, t)" by (cases e)
  let ?c = "add_alert kind l t b"
  have c: "window ?c = window b" "pending ?c = dset kind [e] (pending b)" "has_key (timers ?c) kind"
    "running ?c = running b @ [(next_timer b, kind)]"
    using assms(1-3) by (auto simp: add_alert_def Let_def e has_key_def)
  have b1: "pending b1 = dset kind es (pending b)" "running b1 = running b @ [(next_timer b, kind)]" "notify b1 = notify b"
    using more [of ?c "[e]" es'] assms(1,6) c by (simp_all add: es e)
  let ?f = "flush_kind kind (timer_fires (next_timer b) kind b1)"
  have f: "sending ?f = sending b1 @ [(kind, es)]" "pending ?f = ddel kind (pending b1)" "notify ?f = notify b"
    using assms(5) b1 by (auto simp: flush_kind_def timer_fires_def Let_def)
  have "mail_of (kind, es) = (subject_of kind (map fst es), join separator (map snd es))"
    by (cases es') (auto simp: mail_of_def es e)
  then show ?thesis using f b1 assms(4,7) by (simp add: send_batch_def smtp.send_works)
qed

theorem outage_is_one_mail_witness:
  "outbox_texts (notify (send_batch (''down'', [(''sw1'', ''x''), (''sw2'', ''y'')]) (flush_kind ''down'' (timer_fires 0 ''down''
     (add_alert ''down'' ''sw2'' ''y'' (add_alert ''down'' ''sw1'' ''x'' (new_batcher sample_notifier 60)))))))
   = [(subject_of ''down'' [''sw1'', ''sw2''], ''x'' @ separator @ ''y'')]"
proof -
  let ?b = "new_batcher sample_notifier 60"
  have b: "window ?b > 0" "\<not> has_key (pending ?b) ''down''" "\<not> has_key (timers ?b) ''down''"
    "notifier_works (notify ?b)" "next_timer ?b = 0" "outbox_texts (notify ?b) = []"
    by (simp_all add: new_batcher_def sample_notifier_def notifier_works_def outbox_texts_def)
  from outage_is_one_mail [OF b(1-4), of "[(''sw1'', ''x''), (''sw2'', ''y'')]", OF _ refl refl] b(5,6)
  show ?thesis by simp
qed

text \<open>
  Shutting down sends everything.  From any reachable state, flushing at once, letting the
  started flushes and sends finish, leaves nothing pending or on its way: every alert ever added
  has been sent exactly once.
\<close>

theorem shutdown_sends_everything:
  assumes "batcher_run (new_batcher n w) xs ss b"
  shows "\<exists>ss'. batcher_run (new_batcher n w) xs ss' (drain b) \<and> alerts_in ss' = mset xs
    \<and> pending (drain b) = [] \<and> sending (drain b) = []"
proof -
  let ?b1 = "flush_all b"
  let ?b2 = "fold flush_kind (flushing ?b1) ?b1"
  have "pending ?b2 = []"
    by (rule flushes_empty) (simp add: flush_all_def)
  moreover have "batcher_run (new_batcher n w) xs ss ?b2"
    by (rule batcher_run_flushes) (use assms in \<open>auto intro: batcher_run.shutdown\<close>)
  note batcher_run_sends [OF this refl]
  moreover have "drain b = fold send_batch (sending ?b2) ?b2" by (simp add: drain_def Let_def)
  ultimately have d: "batcher_run (new_batcher n w) xs (ss @ sending ?b2) (drain b)"
    "pending (drain b) = []" "sending (drain b) = []" by simp_all
  have "batcher_inv xs (ss @ sending ?b2) (drain b)"
    by (rule batcher_run_inv [OF d(1) batcher_inv_new])
  then have "alerts_in (ss @ sending ?b2) = mset xs" by (simp add: batcher_inv_def d)
  with d show ?thesis by blast
qed

theorem shutdown_sends_everything_witness:
  "pending (drain (add_alert ''down'' ''sw1'' ''body'' (new_batcher sample_notifier 60))) = []"
  using shutdown_sends_everything [OF batcher_run.added [OF batcher_run.start
      [of "new_batcher sample_notifier 60"], where k = "''down''" and l = "''sw1''" and t = "''body''"]]
  by blast

end
