(* ===== verification/Detector.thy ===== *)
theory Detector
  imports Secrets
begin

text \<open>
  The SNMP profile registry (\<open>aruba_agent/snmp_profiles.py\<close>), the profile resolution of
  \<open>SnmpAgent.get\<close> (\<open>aruba_agent/snmp.py\<close>) and vendor detection (\<open>drivers/detector.py\<close>).

  The SNMP exchange itself is pysnmp's and the network's: the parameter \<open>wire\<close> gives the answer to
  a GET with a profile's credentials, \<open>None\<close> for any failure, which is what \<open>get\<close> returns then.
\<close>

subsection \<open>Profiles\<close>

record snmp_creds =
  c_username :: string
  c_auth_protocol :: string
  c_auth_password :: string
  c_priv_protocol :: string
  c_priv_password :: string
  c_context_name :: string
  c_context_engine_id :: string

definition security_level :: "snmp_creds \<Rightarrow> string" where
  "security_level c = (if c_auth_password c \<noteq> [] \<and> c_priv_password c \<noteq> [] then ''authPriv''
     else if c_auth_password c \<noteq> [] then ''authNoPriv'' else ''noAuthNoPriv'')"

record snmp_profile =
  p_name :: string
  p_creds :: snmp_creds
  p_port :: int
  p_timeout :: int
  p_retries :: int

record registry_of_profiles =
  r_profiles :: "(string, snmp_profile) dict"
  r_default :: string

definition make_registry :: "(string, snmp_profile) dict \<Rightarrow> string \<Rightarrow> registry_of_profiles" where
  "make_registry ps default_name = \<lparr>r_profiles = ps,
     r_default = (if default_name \<noteq> [] \<and> has_key ps default_name then default_name
       else case ps of [] \<Rightarrow> [] | (n, _) # _ \<Rightarrow> n)\<rparr>"

definition profile_names :: "registry_of_profiles \<Rightarrow> string list" where
  "profile_names r = (if r_profiles r = [] then []
     else let rest = filter (\<lambda>n. n \<noteq> r_default r) (dkeys (r_profiles r))
       in if r_default r \<noteq> [] then r_default r # rest else rest)"

definition profiles_in_order :: "registry_of_profiles \<Rightarrow> snmp_profile list" where
  "profiles_in_order r = map (\<lambda>n. the (dget (r_profiles r) n)) (profile_names r)"

text \<open>\<open>sec.get(key, d) or d\<close> of a section.\<close>

definition section_or :: "config \<Rightarrow> string \<Rightarrow> string \<Rightarrow> string \<Rightarrow> string result" where
  "section_or c sec key d = bind_r (config_get c sec key d) (\<lambda>v. Inr (or_else v d))"

definition parse_one_profile ::
    "fernet option \<Rightarrow> config \<Rightarrow> string \<Rightarrow> string \<Rightarrow> snmp_profile option result" where
  "parse_one_profile inst c name sec =
     bind_r (section_or c sec ''username'' []) (\<lambda>user0.
     if strip user0 = [] then Inr None else
     bind_r (section_or c sec ''auth_protocol'' ''SHA'') (\<lambda>aproto.
     bind_r (section_or c sec ''auth_password'' []) (\<lambda>apw.
     bind_r (section_or c sec ''priv_protocol'' ''AES128'') (\<lambda>pproto.
     bind_r (section_or c sec ''priv_password'' []) (\<lambda>ppw.
     bind_r (section_or c sec ''context_name'' []) (\<lambda>ctx.
     bind_r (section_or c sec ''context_engine_id'' []) (\<lambda>eng.
     let creds = \<lparr>c_username = strip user0, c_auth_protocol = strip aproto,
       c_auth_password = decrypt inst apw, c_priv_protocol = strip pproto,
       c_priv_password = decrypt inst ppw, c_context_name = strip ctx, c_context_engine_id = strip eng\<rparr> in
     bind_r (section_or c sec ''port'' ''161'') (\<lambda>port.
     bind_r (if py_int port = None then Inr [] else section_or c sec ''timeout'' ''2'') (\<lambda>tmo.
     bind_r (if py_int port = None \<or> py_int tmo = None then Inr [] else section_or c sec ''retries'' ''1'') (\<lambda>rts.
     Inr (Some (case (py_int port, py_int tmo, py_int rts) of
         (Some p, Some t, Some r) \<Rightarrow>
           \<lparr>p_name = name, p_creds = creds, p_port = p, p_timeout = t, p_retries = r\<rparr>
       | _ \<Rightarrow> \<lparr>p_name = name, p_creds = creds, p_port = 161, p_timeout = 2, p_retries = 1\<rparr>)))))))))))) "

definition snmp_section_step ::
    "fernet option \<Rightarrow> config \<Rightarrow> string \<Rightarrow> (string, snmp_profile) dict \<Rightarrow> (string, snmp_profile) dict result" where
  "snmp_section_step inst c sec ps =
     (if \<not> startswith sec ''snmp.'' then Inr ps
      else let name = drop 5 sec in
        if strip name = [] then Inr ps
        else bind_r (parse_one_profile inst c name sec)
               (\<lambda>p. Inr (case p of None \<Rightarrow> ps | Some p \<Rightarrow> dset name p ps)))"

definition registry_from_config :: "fernet option \<Rightarrow> config \<Rightarrow> registry_of_profiles result" where
  "registry_from_config inst c =
     (if \<not> has_key (sections c) ''snmp'' then Inr (make_registry [] ''default'')
      else bind_r (section_or c ''snmp'' ''enabled'' ''false'') (\<lambda>en.
        if lower (strip en) \<notin> {''true'', ''1'', ''yes'', ''on''} then Inr (make_registry [] ''default'')
        else bind_r (fold_r (snmp_section_step inst c) (dkeys (sections c)) []) (\<lambda>ps.
             bind_r (if ps \<noteq> [] then Inr ps
                     else bind_r (parse_one_profile inst c ''default'' ''snmp'')
                       (\<lambda>p. Inr (case p of None \<Rightarrow> ps | Some p \<Rightarrow> [(''default'', p)]))) (\<lambda>ps.
             bind_r (section_or c ''snmp'' ''default_profile'' []) (\<lambda>dn.
             Inr (make_registry ps (or_else (strip dn) ''default'')))))))"

subsection \<open>SNMP GETs\<close>

text \<open>\<open>wire profile host oid\<close> is what the network answers.\<close>

type_synonym wire = "snmp_profile \<Rightarrow> string \<Rightarrow> string \<Rightarrow> string option"

definition oid_uptime :: string where "oid_uptime = ''1.3.6.1.2.1.1.3.0''"
definition oid_name :: string where "oid_name = ''1.3.6.1.2.1.1.5.0''"
definition oid_descr :: string where "oid_descr = ''1.3.6.1.2.1.1.1.0''"
definition oid_object_id :: string where "oid_object_id = ''1.3.6.1.2.1.1.2.0''"

text \<open>The empty name stands for \<open>None\<close> as well: both select the default profile.\<close>

definition snmp_get :: "wire \<Rightarrow> registry_of_profiles \<Rightarrow> string \<Rightarrow> string \<Rightarrow> string \<Rightarrow> string option" where
  "snmp_get wire r host oid profile_name =
     (case (if profile_name \<noteq> [] then dget (r_profiles r) profile_name else dget (r_profiles r) (r_default r)) of
        None \<Rightarrow> None
      | Some p \<Rightarrow> wire p host oid)"

definition snmp_reachable :: "wire \<Rightarrow> registry_of_profiles \<Rightarrow> string \<Rightarrow> string \<Rightarrow> bool" where
  "snmp_reachable wire r host profile_name = (snmp_get wire r host oid_uptime profile_name \<noteq> None)"

subsection \<open>Vendors\<close>

definition prefix_to_vendor :: "(string \<times> string) list" where
  "prefix_to_vendor =
     [(''1.3.6.1.4.1.47196'', ''aruba_cx''), (''1.3.6.1.4.1.14823'', ''aruba_os''),
      (''1.3.6.1.4.1.30065'', ''arista_eos''), (''1.3.6.1.4.1.11'', ''aruba_os''),
      (''1.3.6.1.4.1.9'', ''cisco_ios'')]"

definition descr_keywords :: "(string \<times> string) list" where
  "descr_keywords =
     [(''ArubaOS-CX'', ''aruba_cx''), (''Aruba JL'', ''aruba_cx''), (''ProCurve'', ''aruba_os''),
      (''HP J'', ''aruba_os''), (''Wireless Operating System'', ''aruba_aos8''), (''ArubaMM'', ''aruba_aos8''),
      (''Aruba9240'', ''aruba_aos8''), (''Aruba9004'', ''aruba_aos8''), (''Mobility Controller'', ''aruba_aos8''),
      (''Mobility Conductor'', ''aruba_aos8''), (''Aruba'', ''aruba_os''), (''Cisco IOS'', ''cisco_ios''),
      (''Cisco Internetwork'', ''cisco_ios''), (''Cisco Nexus'', ''cisco_ios''),
      (''Arista Networks'', ''arista_eos''), (''EOS-'', ''arista_eos'')]"

text \<open>An OID lies in the subtree of a prefix; \<open>strip\<close> and \<open>lstrip(".")\<close> normalise it.\<close>

definition in_subtree :: "string \<Rightarrow> string \<Rightarrow> bool" where
  "in_subtree oid prefix = (oid = prefix \<or> startswith oid (prefix @ ''.''))"

definition normalize_oid :: "string \<Rightarrow> string" where
  "normalize_oid oid = dropWhile (\<lambda>c. c = CHR ''.'') (strip oid)"

definition vendor_for_oid :: "string \<Rightarrow> string option" where
  "vendor_for_oid oid = (if oid = [] then None
     else map_option snd (find (\<lambda>(prefix, _). in_subtree (normalize_oid oid) prefix) prefix_to_vendor))"

definition vendor_for_descr :: "string \<Rightarrow> string option" where
  "vendor_for_descr descr = (if descr = [] then None
     else map_option snd (find (\<lambda>(kw, _). contains (lower descr) (lower kw)) descr_keywords))"

subsection \<open>The detector\<close>

type_synonym detector_cache = "(string, string \<times> string) dict"

text \<open>One profile's turn: the object id first, the description when it does not classify.\<close>

definition classify :: "wire \<Rightarrow> registry_of_profiles \<Rightarrow> string \<Rightarrow> string \<Rightarrow> string option" where
  "classify wire r host profile_name =
     (case Option.bind (snmp_get wire r host oid_object_id profile_name) vendor_for_oid of
        Some v \<Rightarrow> Some v
      | None \<Rightarrow> Option.bind (snmp_get wire r host oid_descr profile_name) vendor_for_descr)"

fun detect_profiles :: "wire \<Rightarrow> registry_of_profiles \<Rightarrow> string \<Rightarrow> snmp_profile list \<Rightarrow> (string \<times> string) option" where
  "detect_profiles wire r host [] = None"
| "detect_profiles wire r host (p # ps) =
     (case classify wire r host (p_name p) of
        Some v \<Rightarrow> Some (v, p_name p)
      | None \<Rightarrow> detect_profiles wire r host ps)"

definition detect_with_profile ::
    "wire \<Rightarrow> registry_of_profiles \<Rightarrow> string \<Rightarrow> detector_cache \<Rightarrow> (string \<times> string) option \<times> detector_cache" where
  "detect_with_profile wire r host cache = (case dget cache host of
       Some res \<Rightarrow> (Some res, cache)
     | None \<Rightarrow> (case detect_profiles wire r host (profiles_in_order r) of
           None \<Rightarrow> (None, cache)
         | Some res \<Rightarrow> (Some res, dset host res cache)))"

definition detect :: "wire \<Rightarrow> registry_of_profiles \<Rightarrow> string \<Rightarrow> detector_cache \<Rightarrow> string option \<times> detector_cache" where
  "detect wire r host cache = (case detect_with_profile wire r host cache of
     (res, cache') \<Rightarrow> (map_option fst res, cache'))"

definition invalidate :: "string \<Rightarrow> detector_cache \<Rightarrow> detector_cache" where
  "invalidate host cache = ddel host cache"

definition known :: "detector_cache \<Rightarrow> (string, string \<times> string) dict" where
  "known cache = cache"

subsection \<open>Lemmas\<close>

lemma startswith_both:
  "startswith s p \<Longrightarrow> startswith s q \<Longrightarrow> length p \<le> length q \<Longrightarrow> startswith q p"
  by (simp add: startswith_def) (metis min.absorb1 take_take)

lemma subtree_startswith: "in_subtree oid p \<Longrightarrow> startswith (oid @ ''.'') (p @ ''.'')"
proof -
  assume "in_subtree oid p"
  then consider "oid = p" | "take (Suc (length p)) oid = p @ ''.''" by (auto simp: in_subtree_def startswith_def)
  then show ?thesis
  proof cases
    case 2
    then have "Suc (length p) \<le> length oid" by (metis length_append_singleton length_take min.cobounded1)
    with 2 show ?thesis by (simp add: startswith_def)
  qed (simp add: startswith_def)
qed

lemma prefixes_disjoint_all:
  "\<forall>(p, v) \<in> set prefix_to_vendor. \<forall>(q, w) \<in> set prefix_to_vendor.
     startswith (q @ ''.'') (p @ ''.'') \<longrightarrow> (p, v) = (q, w)"
  by (simp add: prefix_to_vendor_def startswith_def)

lemma prefixes_disjoint:
  "(p, v) \<in> set prefix_to_vendor \<Longrightarrow> (q, w) \<in> set prefix_to_vendor \<Longrightarrow> startswith (q @ ''.'') (p @ ''.'') \<Longrightarrow>
   (p, v) = (q, w)"
  using prefixes_disjoint_all by blast

lemma subtree_unique:
  assumes "(p, v) \<in> set prefix_to_vendor" "(q, w) \<in> set prefix_to_vendor" "in_subtree oid p" "in_subtree oid q"
  shows "(p, v) = (q, w)"
proof (cases "length p \<le> length q")
  case True
  have "startswith (q @ ''.'') (p @ ''.'')"
    by (rule startswith_both [OF subtree_startswith subtree_startswith]) (use assms True in simp_all)
  with assms show ?thesis by (intro prefixes_disjoint)
next
  case False
  have "startswith (p @ ''.'') (q @ ''.'')"
    by (rule startswith_both [OF subtree_startswith subtree_startswith]) (use assms False in simp_all)
  with assms show ?thesis by (metis prefixes_disjoint)
qed

lemma detect_profiles_first:
  "detect_profiles wire r host ps = Some (v, n) \<longleftrightarrow>
     (\<exists>as p bs. ps = as @ p # bs \<and> p_name p = n \<and> classify wire r host (p_name p) = Some v
        \<and> (\<forall>a \<in> set as. classify wire r host (p_name a) = None))"
proof (induction ps)
  case (Cons q qs)
  show ?case
  proof (cases "classify wire r host (p_name q)")
    case None
    have "(\<exists>as p bs. q # qs = as @ p # bs \<and> p_name p = n \<and> classify wire r host (p_name p) = Some v
        \<and> (\<forall>a \<in> set as. classify wire r host (p_name a) = None))
      \<longleftrightarrow> (\<exists>as p bs. qs = as @ p # bs \<and> p_name p = n \<and> classify wire r host (p_name p) = Some v
        \<and> (\<forall>a \<in> set as. classify wire r host (p_name a) = None))" (is "?L \<longleftrightarrow> ?R")
    proof
      assume ?L
      then obtain as p bs where l: "q # qs = as @ p # bs" "p_name p = n" "classify wire r host (p_name p) = Some v"
        "\<forall>a \<in> set as. classify wire r host (p_name a) = None" by blast
      with None obtain as' where "as = q # as'" by (cases as) auto
      with l show ?R by auto
    next
      assume ?R
      then obtain as p bs where l: "qs = as @ p # bs" "p_name p = n" "classify wire r host (p_name p) = Some v"
        "\<forall>a \<in> set as. classify wire r host (p_name a) = None" by blast
      with None show ?L by (intro exI [of _ "q # as"]) auto
    qed
    with None Cons.IH show ?thesis by simp
  next
    case (Some w)
    show ?thesis
    proof
      assume "detect_profiles wire r host (q # qs) = Some (v, n)"
      with Some show "\<exists>as p bs. q # qs = as @ p # bs \<and> p_name p = n \<and> classify wire r host (p_name p) = Some v
        \<and> (\<forall>a \<in> set as. classify wire r host (p_name a) = None)" by (intro exI [of _ "[]"]) auto
    next
      assume "\<exists>as p bs. q # qs = as @ p # bs \<and> p_name p = n \<and> classify wire r host (p_name p) = Some v
        \<and> (\<forall>a \<in> set as. classify wire r host (p_name a) = None)"
      then obtain as p bs where l: "q # qs = as @ p # bs" "p_name p = n" "classify wire r host (p_name p) = Some v"
        "\<forall>a \<in> set as. classify wire r host (p_name a) = None" by blast
      with Some have "as = []" by (cases as) auto
      with l Some show "detect_profiles wire r host (q # qs) = Some (v, n)" by simp
    qed
  qed
qed simp

subsection \<open>Properties\<close>

text \<open>
  The vendor of an object id does not depend on the order of the table.  An OID is classified
  exactly when it is, up to blanks and leading dots, one of the enterprise prefixes or lies below
  one, and never below two of them (in particular 1.3.6.1.4.1.110 is not taken for 1.3.6.1.4.1.11).
\<close>

theorem vendor_for_oid_unambiguous:
  assumes "oid \<noteq> []"
  shows "vendor_for_oid oid = Some v \<longleftrightarrow>
    (\<exists>prefix. (prefix, v) \<in> set prefix_to_vendor \<and> in_subtree (normalize_oid oid) prefix)"
proof
  assume "vendor_for_oid oid = Some v"
  then obtain q where "find (\<lambda>(prefix, _). in_subtree (normalize_oid oid) prefix) prefix_to_vendor = Some (q, v)"
    using assms by (auto simp: vendor_for_oid_def)
  from find_SomeD [OF this]
  show "\<exists>prefix. (prefix, v) \<in> set prefix_to_vendor \<and> in_subtree (normalize_oid oid) prefix" by auto
next
  assume "\<exists>prefix. (prefix, v) \<in> set prefix_to_vendor \<and> in_subtree (normalize_oid oid) prefix"
  then obtain p where p: "(p, v) \<in> set prefix_to_vendor" "in_subtree (normalize_oid oid) p" by blast
  show "vendor_for_oid oid = Some v"
  proof (cases "find (\<lambda>(prefix, _). in_subtree (normalize_oid oid) prefix) prefix_to_vendor")
    case None
    with p show ?thesis by (auto simp: find_None_iff')
  next
    case (Some qw)
    obtain q w where qw: "qw = (q, w)" by (cases qw)
    from find_SomeD [OF Some] have "(p, v) = (q, w)"
      using subtree_unique [OF p(1) _ p(2)] by (auto simp: qw)
    with Some assms show ?thesis by (simp add: vendor_for_oid_def qw)
  qed
qed

theorem vendor_for_oid_unambiguous_witness: "vendor_for_oid ''.1.3.6.1.4.1.9.1.1745'' = Some ''cisco_ios''"
  by (subst vendor_for_oid_unambiguous)
    (auto simp: prefix_to_vendor_def in_subtree_def startswith_def normalize_oid_def strip_def lstrip_def rstrip_def is_ws_def)

text \<open>
  Detection answers with the first profile that classifies the host, and remembers it.  For a
  host not in the cache, the profiles are tried in registry order, default first, and the first
  whose object id or description is recognised gives vendor and profile; the next call returns the
  same without asking the network; after invalidate the host is probed again.
\<close>

theorem detection_first_profile_cached:
  assumes "dget cache host = None" and "detect_with_profile wire r host cache = (res, cache')"
  shows "(res = Some (v, n) \<longleftrightarrow>
      (\<exists>as p bs. profiles_in_order r = as @ p # bs \<and> p_name p = n \<and> classify wire r host n = Some v
        \<and> (\<forall>a \<in> set as. classify wire r host (p_name a) = None)))
    \<and> (res \<noteq> None \<longrightarrow> detect_with_profile wire' r' host cache' = (res, cache'))
    \<and> fst (detect_with_profile wire' r' host (invalidate host cache'))
        = detect_profiles wire' r' host (profiles_in_order r')"
proof -
  have res: "res = detect_profiles wire r host (profiles_in_order r)"
    using assms by (auto simp: detect_with_profile_def split: option.splits)
  have 1: "res = Some (v, n) \<longleftrightarrow>
      (\<exists>as p bs. profiles_in_order r = as @ p # bs \<and> p_name p = n \<and> classify wire r host n = Some v
        \<and> (\<forall>a \<in> set as. classify wire r host (p_name a) = None))"
    unfolding res detect_profiles_first by metis
  have 2: "detect_with_profile wire' r' host cache' = (res, cache')" if "res \<noteq> None"
    using assms that by (auto simp: detect_with_profile_def split: option.splits)
  have "fst (detect_with_profile wire' r' host (invalidate host cache'))
    = detect_profiles wire' r' host (profiles_in_order r')"
    by (auto simp: detect_with_profile_def invalidate_def split: option.splits)
  with 1 2 show ?thesis by blast
qed

definition sample_profile :: "string \<Rightarrow> snmp_profile" where
  "sample_profile n = \<lparr>p_name = n, p_creds = \<lparr>c_username = ''u'', c_auth_protocol = ''SHA'', c_auth_password = ''a'',
     c_priv_protocol = ''AES128'', c_priv_password = ''p'', c_context_name = [], c_context_engine_id = []\<rparr>,
     p_port = 161, p_timeout = 2, p_retries = 1\<rparr>"

definition sample_registry :: registry_of_profiles where
  "sample_registry = make_registry [(''aruba'', sample_profile ''aruba''), (''cisco'', sample_profile ''cisco'')] ''cisco''"

definition sample_wire :: wire where
  "sample_wire p host oid = (if p_name p = ''aruba'' \<and> oid = oid_object_id then Some ''1.3.6.1.4.1.47196.4.1'' else None)"

theorem detection_first_profile_cached_witness:
  "detect_with_profile (\<lambda>_ _ _. None) sample_registry ''10.0.0.1''
     (snd (detect_with_profile sample_wire sample_registry ''10.0.0.1'' []))
   = (Some (''aruba_cx'', ''aruba''), [(''10.0.0.1'', ''aruba_cx'', ''aruba'')])"
  using detection_first_profile_cached [of "[]" "''10.0.0.1''" sample_wire sample_registry
      "Some (''aruba_cx'', ''aruba'')" "[(''10.0.0.1'', ''aruba_cx'', ''aruba'')]" _ _ "\<lambda>_ _ _. None" sample_registry]
  by (simp add: detect_with_profile_def sample_registry_def make_registry_def profiles_in_order_def profile_names_def
      has_key_def sample_profile_def classify_def snmp_get_def sample_wire_def oid_object_id_def oid_descr_def
      vendor_for_oid_def vendor_for_descr_def prefix_to_vendor_def in_subtree_def startswith_def normalize_oid_def
      strip_def lstrip_def rstrip_def is_ws_def)

end
