(* ===== verification/Switch_Poller.thy ===== *)
theory Switch_Poller
  imports Agent_State_Proofs Detector Alert_Batcher
begin

text \<open>
  The reachability poller, \<open>aruba_agent/monitors/switch_poller.py\<close>: one monitor per host, its poll
  with the three reachability paths, the failure counter and the alerts, and the manager.

  One poll is one step: its calls on the shared state are not interleaved with other threads, and
  it reads the clock once.  What the network answers during a poll is a record of the environment.
\<close>

subsection \<open>Environment and state\<close>

text \<open>
  A driver session, as \<open>driver_for\<close> yields it: \<open>d_hostname\<close> may raise; \<open>d_firmware\<close> is the
  current and primary version of the firmware endpoint (empty for absent), \<open>None\<close> without the
  endpoint or an answer; \<open>d_os_version\<close> is empty without facts.
\<close>

record driver_session =
  d_logged_in :: bool
  d_reachable :: bool
  d_hostname :: "string option result"
  d_firmware :: "(string \<times> string) option"
  d_os_version :: string

record monitor =
  mon_name :: string
  mon_host :: string
  mon_username :: string
  mon_password :: string
  mon_verify :: bool
  mon_interval :: int
  mon_threshold :: int
  mon_snmp :: "registry_of_profiles option"
  mon_detects :: bool
  mon_batched :: bool
  mon_dedup :: int
  mon_last_alert :: "(string, datetime) dict"
  mon_cooldown :: "int option"
  mon_stopped :: bool

text \<open>
  \<open>e_banner\<close> is what the SSH port sends (\<open>None\<close> for an \<open>OSError\<close>), \<open>e_ping\<close> whether ping exits
  with 0, \<open>e_driver\<close> the session for a vendor hint (\<open>None\<close> when opening it raises).
\<close>

record net_env =
  e_now :: datetime
  e_wire :: wire
  e_ping :: "string \<Rightarrow> bool"
  e_banner :: "string \<Rightarrow> string option"
  e_driver :: "monitor \<Rightarrow> string option \<Rightarrow> driver_session option"

text \<open>What the monitors share: the agent state, the detector's cache, the batcher with its notifier.\<close>

record world =
  w_state :: agent_state
  w_cache :: detector_cache
  w_batcher :: batcher

definition us_of_seconds :: "int \<Rightarrow> int" where
  "us_of_seconds s = s * 1000000"

definition clock_text :: "datetime \<Rightarrow> string" where
  "clock_text t = padded 2 (hour t) @ '':'' @ padded 2 (minute t) @ '':'' @ padded 2 (second t)"

definition new_monitor ::
    "string \<Rightarrow> string \<Rightarrow> string \<Rightarrow> string \<Rightarrow> bool \<Rightarrow> int \<Rightarrow> int \<Rightarrow> registry_of_profiles option \<Rightarrow> bool \<Rightarrow> int
      \<Rightarrow> string \<Rightarrow> bool \<Rightarrow> agent_state \<Rightarrow> monitor \<times> agent_state" where
  "new_monitor name host username password verify interval threshold snmp detects dedup mode batched st =
     (\<lparr>mon_name = name, mon_host = host, mon_username = username, mon_password = password,
       mon_verify = verify, mon_interval = interval, mon_threshold = threshold, mon_snmp = snmp,
       mon_detects = detects, mon_batched = batched, mon_dedup = max 0 dedup, mon_last_alert = [],
       mon_cooldown = None, mon_stopped = False\<rparr>,
      register_switch name host (or_else mode ''auto'') st)"

abbreviation update_world :: "monitor \<Rightarrow> switch_update list \<Rightarrow> world \<Rightarrow> world" where
  "update_world m kwargs w \<equiv> w\<lparr>w_state := update_switch (mon_name m) kwargs (w_state w)\<rparr>"

subsection \<open>Reachability\<close>

definition cooldown_seconds :: int where
  "cooldown_seconds = 300"

text \<open>The pinned-profile path: poll, then resolve the hostname while it is unknown.\<close>

definition poll_profile :: "net_env \<Rightarrow> monitor \<Rightarrow> registry_of_profiles \<Rightarrow> string \<Rightarrow> world \<Rightarrow> bool \<times> world" where
  "poll_profile env m reg profile w =
     (if \<not> snmp_reachable (e_wire env) reg (mon_host m) profile then (False, w)
      else (True, case get_switch (w_state w) (mon_name m) of
          None \<Rightarrow> w
        | Some sw \<Rightarrow>
            if sw_hostname sw = [] \<or> sw_hostname sw = mon_name m then
              (case snmp_get (e_wire env) reg (mon_host m) oid_name profile of
                 None \<Rightarrow> w
               | Some h \<Rightarrow> if h \<noteq> [] \<and> h \<noteq> mon_name m then update_world m [Hostname h] w else w)
            else w))"

definition poll_snmp :: "net_env \<Rightarrow> monitor \<Rightarrow> registry_of_profiles \<Rightarrow> world \<Rightarrow> bool \<times> monitor \<times> world" where
  "poll_snmp env m reg w = (case get_switch (w_state w) (mon_name m) of
       None \<Rightarrow> (False, m, w)
     | Some sw \<Rightarrow>
         if sw_snmp_profile sw \<noteq> []
         then (case poll_profile env m reg (sw_snmp_profile sw) w of (ok, w') \<Rightarrow> (ok, m, w'))
         else if (case mon_cooldown m of None \<Rightarrow> False | Some until \<Rightarrow> dt_us (e_now env) < until)
         then (False, m, w)
         else if mon_detects m then
           (case detect_with_profile (e_wire env) reg (mon_host m) (w_cache w) of
              (None, cache) \<Rightarrow>
                (False, m\<lparr>mon_cooldown := Some (dt_us (e_now env) + us_of_seconds cooldown_seconds)\<rparr>,
                 w\<lparr>w_cache := cache\<rparr>)
            | (Some (vendor, profile), cache) \<Rightarrow>
                (case poll_profile env m reg profile
                        (update_world m [Vendor vendor, Profile profile] (w\<lparr>w_cache := cache\<rparr>)) of
                   (ok, w') \<Rightarrow> (ok, m\<lparr>mon_cooldown := None\<rparr>, w')))
         else (case poll_profile env m reg [] w of (ok, w') \<Rightarrow> (ok, m, w')))"

definition poll_rest :: "net_env \<Rightarrow> monitor \<Rightarrow> world \<Rightarrow> bool \<times> world" where
  "poll_rest env m w = (case e_driver env m None of
       None \<Rightarrow> (False, w)
     | Some d \<Rightarrow>
         if d_logged_in d \<and> d_reachable d then
           (case d_hostname d of
              Inl _ \<Rightarrow> (False, w)
            | Inr None \<Rightarrow> (True, w)
            | Inr (Some h) \<Rightarrow>
                (True, if h \<noteq> [] \<and> h \<noteq> mon_name m then update_world m [Hostname h] w else w))
         else (False, w))"

definition poll_icmp :: "net_env \<Rightarrow> monitor \<Rightarrow> bool" where
  "poll_icmp env m = e_ping env (mon_host m)"

definition ssh_reachable :: "net_env \<Rightarrow> monitor \<Rightarrow> bool" where
  "ssh_reachable env m = (case e_banner env (mon_host m) of
     None \<Rightarrow> False | Some banner \<Rightarrow> startswith banner ''SSH-'')"

definition poll_reachability ::
    "net_env \<Rightarrow> monitor \<Rightarrow> registry_of_profiles \<Rightarrow> world \<Rightarrow> (bool \<times> bool) \<times> monitor \<times> world" where
  "poll_reachability env m reg w = (case poll_snmp env m reg w of (snmp, m', w') \<Rightarrow>
     (if snmp then (True, True)
      else if \<not> poll_icmp env m then (False, True)
      else if ssh_reachable env m then (True, False)
      else (False, True), m', w'))"

text \<open>The dispatch on the monitor mode.\<close>

definition probe :: "net_env \<Rightarrow> monitor \<Rightarrow> world \<Rightarrow> (bool \<times> bool) \<times> monitor \<times> world" where
  "probe env m w =
     (let mode = (case get_switch (w_state w) (mon_name m) of
            None \<Rightarrow> ''auto'' | Some sw \<Rightarrow> or_else (sw_monitor_mode sw) ''auto'')
      in if mode = ''icmp'' then ((poll_icmp env m, True), m, w)
         else (case mon_snmp m of
             Some reg \<Rightarrow> if mode \<in> {''snmp_ro'', ''snmp_rw'', ''auto''} then poll_reachability env m reg w
               else (case poll_rest env m w of (ok, w') \<Rightarrow> ((ok, True), m, w'))
           | None \<Rightarrow> (case poll_rest env m w of (ok, w') \<Rightarrow> ((ok, True), m, w'))))"

subsection \<open>Vendor and version\<close>

text \<open>
  \<open>version\s+([^\s,;]+)\<close> without regard to case, then \<open>\b([A-Z]{2}\.\d+(?:\.\d+)+)\b\<close>.  The second
  match ends after the longest run of numbers that a word character does not follow.
\<close>

definition version_at :: "string \<Rightarrow> string option" where
  "version_at s =
     (let rest = drop 7 s; blanks = takeWhile is_ws rest;
          tok = takeWhile (\<lambda>c. \<not> is_ws c \<and> c \<noteq> CHR '','' \<and> c \<noteq> CHR '';'') (dropWhile is_ws rest)
      in if startswith (lower s) ''version'' \<and> blanks \<noteq> [] \<and> tok \<noteq> [] then Some tok else None)"

fun search_from :: "(string \<Rightarrow> string option) \<Rightarrow> string \<Rightarrow> string option" where
  "search_from p [] = p []"
| "search_from p (c # cs) = (case p (c # cs) of Some r \<Rightarrow> Some r | None \<Rightarrow> search_from p cs)"

definition is_upper :: "char \<Rightarrow> bool" where
  "is_upper c = (let n = (of_char c :: nat) in 65 \<le> n \<and> n \<le> 90)"

definition is_word :: "char \<Rightarrow> bool" where
  "is_word c = (let n = (of_char c :: nat)
     in is_digit c \<or> (65 \<le> n \<and> n \<le> 90) \<or> (97 \<le> n \<and> n \<le> 122) \<or> n = 95)"

text \<open>The numbers of a dotted run and what follows the last; the function decreases the text.\<close>

function dotted_numbers :: "string \<Rightarrow> string list \<times> string" where
  "dotted_numbers s =
     (if s \<noteq> [] \<and> hd s = CHR ''.'' \<and> takeWhile is_digit (tl s) \<noteq> []
      then (case dotted_numbers (dropWhile is_digit (tl s)) of
              (ns, rest) \<Rightarrow> (takeWhile is_digit (tl s) # ns, rest))
      else ([], s))"
  by pat_completeness auto
termination
  by (relation "measure length") (auto simp: le_imp_less_Suc length_dropWhile_le neq_Nil_conv)

declare dotted_numbers.simps [simp del]

definition token_at :: "string \<Rightarrow> string option" where
  "token_at s =
     (case dotted_numbers (drop 2 s) of (ns, rest) \<Rightarrow>
        let ns' = (if rest \<noteq> [] \<and> is_word (hd rest) then butlast ns else ns)
        in if 2 \<le> length s \<and> is_upper (s ! 0) \<and> is_upper (s ! 1) \<and> 2 \<le> length ns'
           then Some (take 2 s @ concat (map (\<lambda>n. CHR ''.'' # n) ns')) else None)"

text \<open>The search for the token, with the character before the current position.\<close>

fun search_token :: "char option \<Rightarrow> string \<Rightarrow> string option" where
  "search_token prev [] = None"
| "search_token prev (c # cs) =
     (case (if (case prev of None \<Rightarrow> True | Some p \<Rightarrow> \<not> is_word p) then token_at (c # cs) else None) of
        Some r \<Rightarrow> Some r
      | None \<Rightarrow> search_token (Some c) cs)"

definition rstrip_punct :: "string \<Rightarrow> string" where
  "rstrip_punct s = rev (dropWhile (\<lambda>c. c \<in> {CHR ''.'', CHR '','', CHR '';''}) (rev s))"

definition parse_version_from_descr :: "string \<Rightarrow> string" where
  "parse_version_from_descr descr = (if descr = [] then []
     else case search_from version_at descr of
       Some v \<Rightarrow> rstrip_punct (strip v)
     | None \<Rightarrow> (case search_token None descr of Some v \<Rightarrow> v | None \<Rightarrow> []))"

text \<open>\<open>get(...) or ""\<close>: a missing answer and an empty one are the same to the callers.\<close>

definition snmp_text :: "net_env \<Rightarrow> monitor \<Rightarrow> registry_of_profiles \<Rightarrow> string \<Rightarrow> string \<Rightarrow> string" where
  "snmp_text env m reg oid profile =
     (case snmp_get (e_wire env) reg (mon_host m) oid profile of None \<Rightarrow> [] | Some v \<Rightarrow> v)"

definition resolve_vendor :: "net_env \<Rightarrow> monitor \<Rightarrow> world \<Rightarrow> world" where
  "resolve_vendor env m w = (case (get_switch (w_state w) (mon_name m), mon_snmp m) of
       (Some sw, Some reg) \<Rightarrow>
         if sw_vendor sw \<noteq> [] then w
         else let profile = sw_snmp_profile sw;
             vendor = (case vendor_for_oid (snmp_text env m reg oid_object_id profile) of
                 Some v \<Rightarrow> Some v
               | None \<Rightarrow> vendor_for_descr (snmp_text env m reg oid_descr profile))
           in (case vendor of None \<Rightarrow> w | Some v \<Rightarrow> update_world m [Vendor v] w)
     | _ \<Rightarrow> w)"

definition os_version_via_driver :: "net_env \<Rightarrow> monitor \<Rightarrow> string \<Rightarrow> string" where
  "os_version_via_driver env m hint = (case e_driver env m (if hint = [] then None else Some hint) of
       None \<Rightarrow> []
     | Some d \<Rightarrow>
         if \<not> d_logged_in d then []
         else (case d_firmware d of
             Some (current, primary) \<Rightarrow> or_else (or_else current primary) (d_os_version d)
           | None \<Rightarrow> d_os_version d))"

definition resolve_os_version :: "net_env \<Rightarrow> monitor \<Rightarrow> world \<Rightarrow> world" where
  "resolve_os_version env m w = (case get_switch (w_state w) (mon_name m) of
       None \<Rightarrow> w
     | Some sw \<Rightarrow>
         if sw_os_version sw \<noteq> [] then w
         else let v1 = (if startswith (sw_vendor sw) ''aruba'' \<and> or_else (sw_monitor_mode sw) ''auto'' \<noteq> ''icmp''
                  then os_version_via_driver env m (sw_vendor sw) else []);
             v2 = (case mon_snmp m of
                 Some reg \<Rightarrow> if v1 = [] then parse_version_from_descr (snmp_text env m reg oid_descr (sw_snmp_profile sw))
                   else v1
               | None \<Rightarrow> v1)
           in if v2 \<noteq> [] then w\<lparr>w_state := snd (set_os_version (mon_name m) v2 (w_state w))\<rparr> else w)"

subsection \<open>Alerts\<close>

text \<open>
  \<open>_maybe_send_alert\<close>, returning the alerts it hands to the batcher or the notifier, with the time,
  beside the new states.
\<close>

type_synonym alert_log = "(int \<times> string \<times> string) list"

definition dispatch_alert :: "monitor \<Rightarrow> string \<Rightarrow> string \<Rightarrow> string \<Rightarrow> string \<Rightarrow> world \<Rightarrow> world" where
  "dispatch_alert m kind subject body label w = w\<lparr>w_batcher :=
     (if mon_batched m then add_alert kind (or_else label (mon_name m)) body (w_batcher w)
      else (w_batcher w)\<lparr>notify := notifier_send subject body (notify (w_batcher w))\<rparr>)\<rparr>"

definition maybe_send_alert ::
    "net_env \<Rightarrow> string \<Rightarrow> string \<Rightarrow> string \<Rightarrow> string \<Rightarrow> monitor \<Rightarrow> world \<Rightarrow> alert_log \<times> monitor \<times> world" where
  "maybe_send_alert env kind subject body label m w =
     (case alerts_suppressed (e_now env) (mon_name m) (w_state w) of
        (True, st) \<Rightarrow> ([], m, w\<lparr>w_state := st\<rparr>)
      | (False, st) \<Rightarrow>
          let w1 = w\<lparr>w_state := st\<rparr>;
              recent = (case dget (mon_last_alert m) kind of
                  None \<Rightarrow> False
                | Some t \<Rightarrow> dt_us (e_now env) - dt_us t < us_of_seconds (mon_dedup m));
              m1 = (if mon_dedup m > 0
                    then m\<lparr>mon_last_alert := dset kind (e_now env) (mon_last_alert m)\<rparr> else m)
          in if mon_dedup m > 0 \<and> recent then ([], m1, w1)
             else ([(dt_us (e_now env), kind, label)], m1, dispatch_alert m kind subject body label w1))"

subsection \<open>One poll\<close>

definition poll_up :: "net_env \<Rightarrow> bool \<Rightarrow> monitor \<Rightarrow> world \<Rightarrow> alert_log \<times> monitor \<times> world" where
  "poll_up env snmp_ok m w =
     (let event = (if snmp_ok then ''Reachable at '' @ clock_text (e_now env)
            else ''Reachable via SSH '' @ em_dash @ '' SNMP not responding at '' @ clock_text (e_now env));
          w1 = update_world m [LastSeen (Some (e_now env)), Failures 0, LastEvent event] w;
          w2 = w1\<lparr>w_state := snd (set_snmp_health (mon_name m) snmp_ok (w_state w1))\<rparr>;
          w3 = resolve_os_version env m (resolve_vendor env m w2)
      in case get_switch (w_state w3) (mon_name m) of
           None \<Rightarrow> ([], m, w3)
         | Some sw \<Rightarrow>
             if \<not> sw_is_down sw then ([], m, w3)
             else let hostname = or_else (sw_hostname sw) (mon_name m)
               in maybe_send_alert env ''restored'' (''[Network Agent] Switch RESTORED: '' @ hostname)
                    (''Switch Management Reachability '' @ em_dash @ '' RESTORED'' @
                     ''\<newline>Switch : '' @ mon_host m @ ''\<newline>Host   : '' @ hostname @
                     ''\<newline>Status : Management plane reachable\<newline>'')
                    hostname m (update_world m [IsDown False] w3))"

definition poll_failed :: "net_env \<Rightarrow> switch_state \<Rightarrow> monitor \<Rightarrow> world \<Rightarrow> alert_log \<times> monitor \<times> world" where
  "poll_failed env sw m w =
     (let n = sw_failures sw + 1;
          w1 = update_world m [Failures n,
            LastEvent (''Poll failed ('' @ int_str n @ ''x) at '' @ clock_text (e_now env))] w
      in if n \<ge> mon_threshold m \<and> \<not> sw_is_down sw
         then let hostname = or_else (sw_hostname sw) (mon_name m)
           in maybe_send_alert env ''down'' (''[Network Agent] Switch DOWN: '' @ hostname)
                (''Switch Management Reachability '' @ em_dash @ '' DOWN'' @
                 ''\<newline>Switch   : '' @ mon_host m @ ''\<newline>Host     : '' @ hostname @
                 ''\<newline>Failures : '' @ int_str n @ '' consecutive'' @
                 ''\<newline>Interval : '' @ int_str (mon_interval m) @ ''s\<newline>'')
                hostname m (update_world m [IsDown True] w1)
         else ([], m, w1))"

definition poll :: "net_env \<Rightarrow> monitor \<Rightarrow> world \<Rightarrow> alert_log \<times> monitor \<times> world" where
  "poll env m w =
     (if (case get_switch (w_state w) (mon_name m) of None \<Rightarrow> False | Some sw \<Rightarrow> sw_unmanaged sw)
      then ([], m, w)
      else case probe env m w of ((ok, snmp_ok), m1, w1) \<Rightarrow>
        (case get_switch (w_state w1) (mon_name m1) of
           None \<Rightarrow> ([], m1, w1)
         | Some sw \<Rightarrow> if ok then poll_up env snmp_ok m1 w1 else poll_failed env sw m1 w1))"

text \<open>The loop of \<open>start\<close>: one poll per environment until stopped.\<close>

fun poll_loop :: "net_env list \<Rightarrow> monitor \<Rightarrow> world \<Rightarrow> alert_log \<times> monitor \<times> world" where
  "poll_loop [] m w = ([], m, w)"
| "poll_loop (env # envs) m w =
     (if mon_stopped m then ([], m, w)
      else case poll env m w of (as, m1, w1) \<Rightarrow>
        case poll_loop envs m1 w1 of (bs, m2, w2) \<Rightarrow> (as @ bs, m2, w2))"

subsection \<open>The manager\<close>

record manager =
  g_username :: string
  g_password :: string
  g_verify :: bool
  g_interval :: int
  g_threshold :: int
  g_snmp :: "registry_of_profiles option"
  g_detects :: bool
  g_dedup :: int
  g_batched :: bool
  g_monitors :: "(string, monitor) dict"

definition or_int :: "int \<Rightarrow> int \<Rightarrow> int" where
  "or_int a b = (if a = 0 then b else a)"

definition manager_add ::
    "string \<Rightarrow> string \<Rightarrow> string \<Rightarrow> string \<Rightarrow> bool \<Rightarrow> int \<Rightarrow> int \<Rightarrow> string \<Rightarrow> manager \<Rightarrow> agent_state
      \<Rightarrow> manager \<times> agent_state" where
  "manager_add host name username password verify interval threshold mode g st =
     (if has_key (g_monitors g) host then (g, st)
      else case new_monitor name host (or_else username (g_username g)) (or_else password (g_password g))
               (verify \<or> g_verify g) (or_int interval (g_interval g)) (or_int threshold (g_threshold g))
               (g_snmp g) (g_detects g) (g_dedup g) (or_else mode ''auto'') (g_batched g) st of
        (m, st') \<Rightarrow> (g\<lparr>g_monitors := dset host m (g_monitors g)\<rparr>, st'))"

fun manager_sync :: "string list \<Rightarrow> manager \<Rightarrow> agent_state \<Rightarrow> manager \<times> agent_state" where
  "manager_sync [] g st = (g, st)"
| "manager_sync (ip # ips) g st =
     (case manager_add ip ip [] [] False 0 0 ''auto'' g st of (g', st') \<Rightarrow> manager_sync ips g' st')"

text \<open>The monitor taken out is stopped; its thread ends at its next look at the flag.\<close>

definition manager_remove :: "string \<Rightarrow> manager \<Rightarrow> bool \<times> manager" where
  "manager_remove host g = (if has_key (g_monitors g) host
     then (True, g\<lparr>g_monitors := ddel host (g_monitors g)\<rparr>) else (False, g))"

definition manager_stop_all :: "manager \<Rightarrow> manager" where
  "manager_stop_all g =
     g\<lparr>g_monitors := map (\<lambda>(h, m). (h, m\<lparr>mon_stopped := True\<rparr>)) (g_monitors g)\<rparr>"

text \<open>\<open>start_all\<close>: configuration, an empty pool, and the static \<open>[switch.*]\<close> sections.\<close>

definition config_int_or :: "config \<Rightarrow> string \<Rightarrow> string \<Rightarrow> string \<Rightarrow> int \<Rightarrow> int result" where
  "config_int_or c sec key fallback on_error =
     bind_r (config_get c sec key fallback) (\<lambda>v. Inr (case py_int v of None \<Rightarrow> on_error | Some n \<Rightarrow> n))"

definition seed_switch ::
    "fernet option \<Rightarrow> config \<Rightarrow> string \<Rightarrow> manager \<times> agent_state \<Rightarrow> (manager \<times> agent_state) result" where
  "seed_switch inst c sec gs =
     (if \<not> startswith sec ''switch.'' then Inr gs
      else case config_raw c sec ''host'' of
        None \<Rightarrow> Inl KeyError
      | Some _ \<Rightarrow>
          bind_r (config_get c sec ''host'' []) (\<lambda>host.
          bind_r (config_get c sec ''username'' []) (\<lambda>user.
          bind_r (section_get inst c sec ''password'' []) (\<lambda>pw.
          bind_r (config_getboolean c sec ''verify_ssl'' False) (\<lambda>verify.
          bind_r (config_getint c sec ''poll_interval'' 30) (\<lambda>interval.
          bind_r (config_getint c sec ''failure_threshold'' 3) (\<lambda>threshold.
          Inr (manager_add host (drop 7 sec) user pw verify interval threshold ''auto'' (fst gs) (snd gs)))))))))"

definition start_all ::
    "fernet option \<Rightarrow> config \<Rightarrow> notifier \<Rightarrow> agent_state \<Rightarrow> registry_of_profiles option \<Rightarrow> bool
      \<Rightarrow> (manager \<times> world) result" where
  "start_all inst c n st snmp detects =
     bind_r (config_int_or c ''agent'' ''alert_dedup_minutes'' ''5'' 5) (\<lambda>minutes.
     bind_r (config_int_or c ''agent'' ''alert_batch_seconds'' ''60'' 60) (\<lambda>batch.
     bind_r (config_get c ''credentials'' ''username'' ''admin'') (\<lambda>user.
     bind_r (cfg_get inst c ''credentials'' ''password'' []) (\<lambda>pw.
     let g = \<lparr>g_username = user, g_password = pw, g_verify = False, g_interval = 30, g_threshold = 3,
              g_snmp = snmp, g_detects = detects, g_dedup = max 0 minutes * 60, g_batched = True,
              g_monitors = []\<rparr> in
     bind_r (fold_r (seed_switch inst c) (dkeys (sections c)) (g, st)) (\<lambda>(g', st').
     Inr (g', \<lparr>w_state = st', w_cache = [], w_batcher = new_batcher n batch\<rparr>))))))"

end
