(* ===== verification/Switch_Poller_Proofs.thy ===== *)
theory Switch_Poller_Proofs
  imports Switch_Poller
begin

text \<open>
  The failure counter that the poller implements, the refinement of it by \<open>poll\<close>, and what follows
  for sequences of polls, for the alerts they hand over, and for the manager.
\<close>

subsection \<open>What a poll may touch\<close>

text \<open>The fields of a switch that the reachability logic depends on.\<close>

definition core :: "switch_state \<Rightarrow> int \<times> bool \<times> bool \<times> bool \<times> bool \<times> datetime option" where
  "core sw = (sw_failures sw, sw_is_down sw, sw_snmp_ok sw, sw_unmanaged sw, sw_alerts_muted sw, sw_mute_until sw)"

definition keeps :: "string \<Rightarrow> world \<Rightarrow> world \<Rightarrow> bool" where
  "keeps n w w' \<longleftrightarrow> map_option core (get_switch (w_state w') n) = map_option core (get_switch (w_state w) n)
     \<and> (\<forall>k. k \<noteq> n \<longrightarrow> get_switch (w_state w') k = get_switch (w_state w) k) \<and> w_batcher w' = w_batcher w"

lemma keeps_refl [simp]: "keeps n w w"
  by (simp add: keeps_def)

lemma keeps_trans: "keeps n w1 w2 \<Longrightarrow> keeps n w2 w3 \<Longrightarrow> keeps n w1 w3"
  by (simp add: keeps_def)

lemma get_update_switch:
  "get_switch (update_switch n kw st) k =
     (if k = n then map_option (fold apply_update kw) (get_switch st n) else get_switch st k)"
  by (simp add: update_switch_def Let_def split: option.splits)

lemma get_set_os_version:
  "get_switch (snd (set_os_version n v st)) k =
     (if k = n then map_option (\<lambda>sw. sw\<lparr>sw_os_version := v\<rparr>) (get_switch st n) else get_switch st k)"
  by (simp add: set_os_version_def split: option.splits)

lemma get_set_snmp_health:
  "get_switch (snd (set_snmp_health n v st)) k =
     (if k = n then map_option (\<lambda>sw. sw\<lparr>sw_snmp_ok := v\<rparr>) (get_switch st n) else get_switch st k)"
  by (simp add: set_snmp_health_def split: option.splits)

lemma keeps_update:
  "\<forall>u \<in> set kw. (\<exists>v. u = Vendor v) \<or> (\<exists>v. u = Profile v) \<or> (\<exists>v. u = Hostname v) \<Longrightarrow>
   keeps n w (w\<lparr>w_state := update_switch n kw (w_state w)\<rparr>)"
proof -
  assume a: "\<forall>u \<in> set kw. (\<exists>v. u = Vendor v) \<or> (\<exists>v. u = Profile v) \<or> (\<exists>v. u = Hostname v)"
  have "core (fold apply_update kw sw) = core sw" for sw
    using a by (induction kw arbitrary: sw) (auto simp: core_def)
  then show ?thesis by (simp add: keeps_def get_update_switch option.map_comp comp_def)
qed

lemma keeps_cache [simp]: "keeps n (w\<lparr>w_cache := c\<rparr>) w' = keeps n w w'" "keeps n w (w'\<lparr>w_cache := c\<rparr>) = keeps n w w'"
  by (simp_all add: keeps_def)

lemma keeps_profile: "poll_profile env m reg p w = (ok, w') \<Longrightarrow> keeps (mon_name m) w w'"
  by (auto simp: poll_profile_def intro!: keeps_update split: if_splits option.splits)

definition same_config :: "monitor \<Rightarrow> monitor \<Rightarrow> bool" where
  "same_config m m' \<longleftrightarrow> mon_name m' = mon_name m \<and> mon_threshold m' = mon_threshold m \<and> mon_host m' = mon_host m
     \<and> mon_dedup m' = mon_dedup m \<and> mon_stopped m' = mon_stopped m \<and> mon_batched m' = mon_batched m
     \<and> mon_snmp m' = mon_snmp m"

lemma same_config_refl [simp]: "same_config m m"
  by (simp add: same_config_def)

lemma poll_snmp_keeps:
  assumes "poll_snmp env m reg w = (ok, m', w')"
  shows "keeps (mon_name m) w w' \<and> same_config m m' \<and> mon_last_alert m' = mon_last_alert m"
proof (cases "get_switch (w_state w) (mon_name m)")
  case None
  with assms show ?thesis by (simp add: poll_snmp_def)
next
  case (Some sw)
  consider "sw_snmp_profile sw \<noteq> []"
    | "sw_snmp_profile sw = []" "case mon_cooldown m of None \<Rightarrow> False | Some until \<Rightarrow> dt_us (e_now env) < until"
    | "sw_snmp_profile sw = []" "\<not> (case mon_cooldown m of None \<Rightarrow> False | Some until \<Rightarrow> dt_us (e_now env) < until)"
      "mon_detects m"
    | "sw_snmp_profile sw = []" "\<not> (case mon_cooldown m of None \<Rightarrow> False | Some until \<Rightarrow> dt_us (e_now env) < until)"
      "\<not> mon_detects m" by blast
  then show ?thesis
  proof cases
    case 1
    with assms Some show ?thesis
      by (auto simp: poll_snmp_def dest: keeps_profile split: prod.splits)
  next
    case 2
    with assms Some show ?thesis by (simp add: poll_snmp_def)
  next
    case 3
    obtain res cache where d: "detect_with_profile (e_wire env) reg (mon_host m) (w_cache w) = (res, cache)"
      by fastforce
    show ?thesis
    proof (cases res)
      case None
      with assms Some 3 d show ?thesis by (auto simp: poll_snmp_def same_config_def)
    next
      case (Some vp)
      obtain v p where vp: "vp = (v, p)" by (cases vp)
      let ?w = "update_world m [Vendor v, Profile p] (w\<lparr>w_cache := cache\<rparr>)"
      obtain ok1 w1 where q: "poll_profile env m reg p ?w = (ok1, w1)" by fastforce
      have "keeps (mon_name m) (w\<lparr>w_cache := cache\<rparr>) ?w" by (rule keeps_update) simp
      with keeps_profile [OF q] have "keeps (mon_name m) w w1" using keeps_trans by fastforce
      with assms \<open>get_switch (w_state w) (mon_name m) = Some sw\<close> 3 d Some vp q show ?thesis
        by (auto simp: poll_snmp_def same_config_def)
    qed
  next
    case 4
    with assms Some show ?thesis
      by (auto simp: poll_snmp_def dest: keeps_profile split: prod.splits)
  qed
qed

lemma poll_rest_keeps: "poll_rest env m w = (ok, w') \<Longrightarrow> keeps (mon_name m) w w'"
  by (auto simp: poll_rest_def intro!: keeps_update split: if_splits option.splits sum.splits)

lemma probe_keeps:
  assumes "probe env m w = (oks, m', w')"
  shows "keeps (mon_name m) w w' \<and> same_config m m' \<and> mon_last_alert m' = mon_last_alert m"
  using assms
  by (auto simp: probe_def poll_reachability_def Let_def
      dest: poll_snmp_keeps poll_rest_keeps split: if_splits option.splits prod.splits)

lemma resolve_vendor_keeps: "keeps (mon_name m) w (resolve_vendor env m w)"
  by (auto simp: resolve_vendor_def Let_def intro!: keeps_update split: option.splits)

lemma resolve_os_version_keeps: "keeps (mon_name m) w (resolve_os_version env m w)"
proof -
  have "keeps (mon_name m) w (w\<lparr>w_state := snd (set_os_version (mon_name m) v (w_state w))\<rparr>)" for v
    by (simp add: keeps_def get_set_os_version option.map_comp comp_def) (simp add: core_def [abs_def])
  then show ?thesis by (auto simp: resolve_os_version_def Let_def split: option.splits)
qed

subsection \<open>Alerts\<close>

definition muted_at :: "datetime \<Rightarrow> switch_state \<Rightarrow> bool" where
  "muted_at now sw \<longleftrightarrow> sw_alerts_muted sw
     \<and> (case sw_mute_until sw of None \<Rightarrow> True | Some u \<Rightarrow> dt_us now < dt_us u)"

definition recent_alert :: "datetime \<Rightarrow> string \<Rightarrow> monitor \<Rightarrow> bool" where
  "recent_alert now kind m \<longleftrightarrow> mon_dedup m > 0 \<and> (case dget (mon_last_alert m) kind of
     None \<Rightarrow> False | Some t \<Rightarrow> dt_us now - dt_us t < us_of_seconds (mon_dedup m))"

lemma alerts_suppressed_spec:
  assumes "get_switch st n = Some sw" "alerts_suppressed now n st = (b, st')"
  shows "b = muted_at now sw
    \<and> (\<forall>k. k \<noteq> n \<longrightarrow> get_switch st' k = get_switch st k)
    \<and> (\<exists>sw'. get_switch st' n = Some sw' \<and> sw_failures sw' = sw_failures sw \<and> sw_is_down sw' = sw_is_down sw
         \<and> sw_unmanaged sw' = sw_unmanaged sw \<and> sw_snmp_ok sw' = sw_snmp_ok sw
         \<and> (sw_alerts_muted sw' \<longrightarrow> sw_alerts_muted sw))"
  using assms by (auto simp: alerts_suppressed_def muted_at_def split: if_splits option.splits)

lemma maybe_send_alert_spec:
  assumes "get_switch (w_state w) (mon_name m) = Some sw"
    and "maybe_send_alert env kind subject body label m w = (as, m', w')"
  shows "same_config m m' \<and> (\<forall>k. k \<noteq> mon_name m \<longrightarrow> get_switch (w_state w') k = get_switch (w_state w) k)
    \<and> (\<exists>sw'. get_switch (w_state w') (mon_name m) = Some sw' \<and> sw_failures sw' = sw_failures sw
         \<and> sw_is_down sw' = sw_is_down sw \<and> sw_unmanaged sw' = sw_unmanaged sw \<and> sw_snmp_ok sw' = sw_snmp_ok sw
         \<and> (sw_alerts_muted sw' \<longrightarrow> sw_alerts_muted sw))
    \<and> as = (if muted_at (e_now env) sw \<or> recent_alert (e_now env) kind m then []
            else [(dt_us (e_now env), kind, label)])
    \<and> (as = [] \<longrightarrow> w_batcher w' = w_batcher w)
    \<and> mon_last_alert m' = (if muted_at (e_now env) sw \<or> mon_dedup m \<le> 0 then mon_last_alert m
         else dset kind (e_now env) (mon_last_alert m))"
proof -
  obtain b st where s: "alerts_suppressed (e_now env) (mon_name m) (w_state w) = (b, st)" by fastforce
  note sp = alerts_suppressed_spec [OF assms(1) s]
  show ?thesis
  proof (cases "muted_at (e_now env) sw")
    case True
    with sp have b: "b = True" by simp
    have e: "as = []" "m' = m" "w' = w\<lparr>w_state := st\<rparr>"
      using assms(2) by (simp_all add: maybe_send_alert_def s b)
    show ?thesis using sp True by (simp add: e)
  next
    case False
    with sp have b: "b = False" by simp
    let ?m = "if mon_dedup m > 0 then m\<lparr>mon_last_alert := dset kind (e_now env) (mon_last_alert m)\<rparr> else m"
    have e: "m' = ?m"
      "(as, w') = (if recent_alert (e_now env) kind m then ([], w\<lparr>w_state := st\<rparr>)
         else ([(dt_us (e_now env), kind, label)], dispatch_alert m kind subject body label (w\<lparr>w_state := st\<rparr>)))"
      using assms(2) by (auto simp: maybe_send_alert_def s b Let_def recent_alert_def split: if_splits)
    have st: "w_state w' = st"
      using e(2) by (auto simp: dispatch_alert_def split: if_splits)
    have c: "same_config m m'" by (simp add: e(1) same_config_def)
    have "as = (if recent_alert (e_now env) kind m then [] else [(dt_us (e_now env), kind, label)])"
      "as = [] \<longrightarrow> w_batcher w' = w_batcher w" using e(2) by (auto split: if_splits)
    then show ?thesis using sp False c by (simp add: st e(1))
  qed
qed

subsection \<open>The failure counter\<close>

text \<open>What the reachability logic promises: a counter reset by success, and a flag it raises.\<close>

definition counter_step :: "int \<Rightarrow> bool \<Rightarrow> int \<times> bool \<Rightarrow> int \<times> bool" where
  "counter_step threshold ok fd = (if ok then (0, False)
     else (fst fd + 1, snd fd \<or> fst fd + 1 \<ge> threshold))"

definition counter_of :: "switch_state \<Rightarrow> int \<times> bool" where
  "counter_of sw = (sw_failures sw, sw_is_down sw)"

lemma keeps_switch:
  assumes "keeps n w w'" "get_switch (w_state w) n = Some sw"
  obtains sw' where "get_switch (w_state w') n = Some sw'" "core sw' = core sw"
  using assms by (auto simp: keeps_def)

lemma core_fields:
  "core sw' = core sw \<Longrightarrow> sw_failures sw' = sw_failures sw" "core sw' = core sw \<Longrightarrow> sw_is_down sw' = sw_is_down sw"
  "core sw' = core sw \<Longrightarrow> sw_unmanaged sw' = sw_unmanaged sw" "core sw' = core sw \<Longrightarrow> sw_alerts_muted sw' = sw_alerts_muted sw"
  "core sw' = core sw \<Longrightarrow> sw_snmp_ok sw' = sw_snmp_ok sw" "core sw' = core sw \<Longrightarrow> muted_at now sw' = muted_at now sw"
  by (simp_all add: core_def muted_at_def)

lemma poll_up_spec:
  assumes "get_switch (w_state w) (mon_name m) = Some sw" "poll_up env snmp_ok m w = (as, m', w')"
  shows "same_config m m' \<and> (\<forall>k. k \<noteq> mon_name m \<longrightarrow> get_switch (w_state w') k = get_switch (w_state w) k)
    \<and> (\<exists>sw'. get_switch (w_state w') (mon_name m) = Some sw' \<and> counter_of sw' = (0, False) \<and> sw_snmp_ok sw' = snmp_ok
         \<and> sw_unmanaged sw' = sw_unmanaged sw \<and> (sw_alerts_muted sw' \<longrightarrow> sw_alerts_muted sw))
    \<and> (as = [] \<longrightarrow> w_batcher w' = w_batcher w)
    \<and> (\<exists>label. as = (if sw_is_down sw \<and> \<not> muted_at (e_now env) sw \<and> \<not> recent_alert (e_now env) ''restored'' m
           then [(dt_us (e_now env), ''restored'', label)] else []))
    \<and> mon_last_alert m' = (if sw_is_down sw \<and> \<not> muted_at (e_now env) sw \<and> mon_dedup m > 0
         then dset ''restored'' (e_now env) (mon_last_alert m) else mon_last_alert m)"
proof -
  define ev where "ev = (if snmp_ok then ''Reachable at '' @ clock_text (e_now env)
    else ''Reachable via SSH '' @ em_dash @ '' SNMP not responding at '' @ clock_text (e_now env))"
  define w1 where "w1 = update_world m [LastSeen (Some (e_now env)), Failures 0, LastEvent ev] w"
  define w2 where "w2 = w1\<lparr>w_state := snd (set_snmp_health (mon_name m) snmp_ok (w_state w1))\<rparr>"
  define w3 where "w3 = resolve_os_version env m (resolve_vendor env m w2)"
  have k: "keeps (mon_name m) w2 w3"
    unfolding w3_def using resolve_vendor_keeps resolve_os_version_keeps keeps_trans by blast
  obtain sw2 where 2: "get_switch (w_state w2) (mon_name m) = Some sw2" "sw_failures sw2 = 0" "sw_snmp_ok sw2 = snmp_ok"
    "sw_is_down sw2 = sw_is_down sw" "sw_unmanaged sw2 = sw_unmanaged sw" "sw_alerts_muted sw2 = sw_alerts_muted sw"
    "muted_at (e_now env) sw2 = muted_at (e_now env) sw"
    using assms(1) by (simp add: w2_def w1_def get_set_snmp_health get_update_switch muted_at_def)
  have o2: "\<forall>k. k \<noteq> mon_name m \<longrightarrow> get_switch (w_state w2) k = get_switch (w_state w) k" "w_batcher w2 = w_batcher w"
    by (simp_all add: w2_def w1_def get_set_snmp_health get_update_switch)
  obtain sw3 where 3: "get_switch (w_state w3) (mon_name m) = Some sw3" "core sw3 = core sw2"
    using keeps_switch [OF k 2(1)] .
  have o3: "\<forall>k. k \<noteq> mon_name m \<longrightarrow> get_switch (w_state w3) k = get_switch (w_state w) k" "w_batcher w3 = w_batcher w"
    using k o2 by (simp_all add: keeps_def)
  note f = core_fields [OF 3(2)] 2
  have unfold: "poll_up env snmp_ok m w = (if \<not> sw_is_down sw3 then ([], m, w3)
      else let hostname = or_else (sw_hostname sw3) (mon_name m)
        in maybe_send_alert env ''restored'' (''[Network Agent] Switch RESTORED: '' @ hostname)
             (''Switch Management Reachability '' @ em_dash @ '' RESTORED'' @
              ''\<newline>Switch : '' @ mon_host m @ ''\<newline>Host   : '' @ hostname @
              ''\<newline>Status : Management plane reachable\<newline>'')
             hostname m (update_world m [IsDown False] w3))"
    unfolding poll_up_def ev_def [symmetric] w1_def [symmetric] Let_def w2_def [symmetric] w3_def [symmetric]
    by (simp add: 3(1))
  show ?thesis
  proof (cases "sw_is_down sw")
    case False
    then have "as = []" "m' = m" "w' = w3" using assms(2) f by (simp_all add: unfold)
    then show ?thesis using False 3(1) f o3 by (simp add: counter_of_def)
  next
    case True
    let ?w = "update_world m [IsDown False] w3" and ?sw = "sw3\<lparr>sw_is_down := False\<rparr>"
    have g: "get_switch (w_state ?w) (mon_name m) = Some ?sw" using 3(1) by (simp add: get_update_switch)
    obtain s b l where a: "maybe_send_alert env ''restored'' s b l m ?w = (as, m', w')"
      using assms(2) True f by (auto simp: unfold Let_def)
    have mu: "muted_at (e_now env) ?sw = muted_at (e_now env) sw" using f by (simp add: muted_at_def)
    note sp = maybe_send_alert_spec [OF g a]
    from sp have "\<exists>sw'. get_switch (w_state w') (mon_name m) = Some sw' \<and> counter_of sw' = (0, False) \<and> sw_snmp_ok sw' = snmp_ok
        \<and> sw_unmanaged sw' = sw_unmanaged sw \<and> (sw_alerts_muted sw' \<longrightarrow> sw_alerts_muted sw)"
      using f by (auto simp: counter_of_def)
    moreover have "\<forall>k. k \<noteq> mon_name m \<longrightarrow> get_switch (w_state w') k = get_switch (w_state w) k"
      "as = [] \<longrightarrow> w_batcher w' = w_batcher w"
      using sp o3 by (simp_all add: get_update_switch)
    ultimately show ?thesis using sp True by (auto simp: mu)
  qed
qed

lemma poll_failed_spec:
  assumes "get_switch (w_state w) (mon_name m) = Some sw" "poll_failed env sw m w = (as, m', w')"
  shows "same_config m m' \<and> (\<forall>k. k \<noteq> mon_name m \<longrightarrow> get_switch (w_state w') k = get_switch (w_state w) k)
    \<and> (\<exists>sw'. get_switch (w_state w') (mon_name m) = Some sw'
         \<and> counter_of sw' = counter_step (mon_threshold m) False (counter_of sw) \<and> sw_snmp_ok sw' = sw_snmp_ok sw
         \<and> sw_unmanaged sw' = sw_unmanaged sw \<and> (sw_alerts_muted sw' \<longrightarrow> sw_alerts_muted sw))
    \<and> (as = [] \<longrightarrow> w_batcher w' = w_batcher w)
    \<and> (\<exists>label. as = (if \<not> sw_is_down sw \<and> mon_threshold m \<le> sw_failures sw + 1
             \<and> \<not> muted_at (e_now env) sw \<and> \<not> recent_alert (e_now env) ''down'' m
           then [(dt_us (e_now env), ''down'', label)] else []))
    \<and> mon_last_alert m' = (if \<not> sw_is_down sw \<and> mon_threshold m \<le> sw_failures sw + 1
           \<and> \<not> muted_at (e_now env) sw \<and> mon_dedup m > 0
         then dset ''down'' (e_now env) (mon_last_alert m) else mon_last_alert m)"
proof -
  define n where "n = sw_failures sw + 1"
  define ev where "ev = ''Poll failed ('' @ int_str n @ ''x) at '' @ clock_text (e_now env)"
  let ?w1 = "update_world m [Failures n, LastEvent ev] w"
  have unfold: "poll_failed env sw m w = (if n \<ge> mon_threshold m \<and> \<not> sw_is_down sw
      then let hostname = or_else (sw_hostname sw) (mon_name m)
        in maybe_send_alert env ''down'' (''[Network Agent] Switch DOWN: '' @ hostname)
             (''Switch Management Reachability '' @ em_dash @ '' DOWN'' @
              ''\<newline>Switch   : '' @ mon_host m @ ''\<newline>Host     : '' @ hostname @
              ''\<newline>Failures : '' @ int_str n @ '' consecutive'' @
              ''\<newline>Interval : '' @ int_str (mon_interval m) @ ''s\<newline>'')
             hostname m (update_world m [IsDown True] ?w1)
      else ([], m, ?w1))"
    unfolding poll_failed_def n_def [symmetric] ev_def [symmetric] Let_def ..
  show ?thesis
  proof (cases "n \<ge> mon_threshold m \<and> \<not> sw_is_down sw")
    case False
    then have "as = []" "m' = m" "w' = ?w1"
      using assms(2) [unfolded unfold] by auto
    then show ?thesis using False assms(1)
      by (auto simp: get_update_switch counter_of_def counter_step_def n_def)
  next
    case True
    let ?w = "update_world m [IsDown True] ?w1"
    let ?sw = "sw\<lparr>sw_failures := n, sw_last_event := ev, sw_is_down := True\<rparr>"
    have g: "get_switch (w_state ?w) (mon_name m) = Some ?sw" using assms(1) by (simp add: get_update_switch)
    obtain s b l where a: "maybe_send_alert env ''down'' s b l m ?w = (as, m', w')"
      using assms(2) True unfolding unfold Let_def by (simp only: if_True simp_thms)
    have mu: "muted_at (e_now env) ?sw = muted_at (e_now env) sw" by (simp add: muted_at_def)
    note sp = maybe_send_alert_spec [OF g a]
    from sp have "\<exists>sw'. get_switch (w_state w') (mon_name m) = Some sw'
        \<and> counter_of sw' = counter_step (mon_threshold m) False (counter_of sw) \<and> sw_snmp_ok sw' = sw_snmp_ok sw
        \<and> sw_unmanaged sw' = sw_unmanaged sw \<and> (sw_alerts_muted sw' \<longrightarrow> sw_alerts_muted sw)"
      using True by (auto simp: counter_of_def counter_step_def n_def)
    moreover have "\<forall>k. k \<noteq> mon_name m \<longrightarrow> get_switch (w_state w') k = get_switch (w_state w) k"
      "as = [] \<longrightarrow> w_batcher w' = w_batcher w"
      using sp by (simp_all add: get_update_switch)
    moreover have c: "\<not> sw_is_down sw" "mon_threshold m \<le> sw_failures sw + 1"
      using True by (simp_all add: n_def)
    moreover have "same_config m m'" "as = (if muted_at (e_now env) sw \<or> recent_alert (e_now env) ''down'' m then []
        else [(dt_us (e_now env), ''down'', l)])"
      "mon_last_alert m' = (if muted_at (e_now env) sw \<or> mon_dedup m \<le> 0 then mon_last_alert m
         else dset ''down'' (e_now env) (mon_last_alert m))"
      using sp unfolding mu by blast+
    ultimately show ?thesis by simp
  qed
qed

subsection \<open>One poll as a step of the counter\<close>

lemma probe_cases:
  obtains ok snmp_ok m1 w1 where "probe env m w = ((ok, snmp_ok), m1, w1)"
  by (cases "probe env m w"; cases "fst (probe env m w)") auto

lemma recent_same: "same_config m m1 \<Longrightarrow> mon_last_alert m1 = mon_last_alert m \<Longrightarrow>
    recent_alert now kind m1 = recent_alert now kind m"
  by (simp add: recent_alert_def same_config_def cong: option.case_cong)

lemma same_config_trans: "same_config a b \<Longrightarrow> same_config b c \<Longrightarrow> same_config a c"
  by (simp add: same_config_def)

lemma poll_step:
  assumes "get_switch (w_state w) (mon_name m) = Some sw" "\<not> sw_unmanaged sw"
    and "probe env m w = ((ok, snmp_ok), m1, w1)" "poll env m w = (as, m', w')"
  obtains sw' where "same_config m m'"
    "\<forall>k. k \<noteq> mon_name m \<longrightarrow> get_switch (w_state w') k = get_switch (w_state w) k"
    "get_switch (w_state w') (mon_name m) = Some sw'"
    "counter_of sw' = counter_step (mon_threshold m) ok (counter_of sw)"
    "sw_snmp_ok sw' = (if ok then snmp_ok else sw_snmp_ok sw)"
    "\<not> sw_unmanaged sw'" "sw_alerts_muted sw' \<longrightarrow> sw_alerts_muted sw"
    "as = [] \<longrightarrow> w_batcher w' = w_batcher w"
    "\<exists>label. as = (if sw_is_down sw' \<noteq> sw_is_down sw \<and> \<not> muted_at (e_now env) sw
           \<and> \<not> recent_alert (e_now env) (if ok then ''restored'' else ''down'') m
         then [(dt_us (e_now env), if ok then ''restored'' else ''down'', label)] else [])"
    "mon_last_alert m' = (if sw_is_down sw' \<noteq> sw_is_down sw \<and> \<not> muted_at (e_now env) sw \<and> mon_dedup m > 0
         then dset (if ok then ''restored'' else ''down'') (e_now env) (mon_last_alert m) else mon_last_alert m)"
proof -
  have k: "keeps (mon_name m) w w1" and c: "same_config m m1" and l: "mon_last_alert m1 = mon_last_alert m"
    using probe_keeps [OF assms(3)] by blast+
  obtain sw1 where 1: "get_switch (w_state w1) (mon_name m) = Some sw1" "core sw1 = core sw"
    using keeps_switch [OF k assms(1)] .
  note f = core_fields [OF 1(2)]
  have n: "mon_name m1 = mon_name m" "mon_threshold m1 = mon_threshold m" "mon_dedup m1 = mon_dedup m"
    using c by (simp_all add: same_config_def)
  have g: "get_switch (w_state w1) (mon_name m1) = Some sw1" using 1(1) n by simp
  have o: "\<forall>k. k \<noteq> mon_name m \<longrightarrow> get_switch (w_state w1) k = get_switch (w_state w) k" "w_batcher w1 = w_batcher w"
    using k by (simp_all add: keeps_def)
  have p: "poll env m w = (if ok then poll_up env snmp_ok m1 w1 else poll_failed env sw1 m1 w1)"
    using assms(1-3) g by (simp add: poll_def)
  note r = recent_same [OF c l]
  show ?thesis
  proof (cases ok)
    case True
    then have "poll_up env snmp_ok m1 w1 = (as, m', w')" using assms(4) p by simp
    note sp = poll_up_spec [OF g this]
    from sp obtain sw' where "get_switch (w_state w') (mon_name m) = Some sw'" "counter_of sw' = (0, False)"
      "sw_snmp_ok sw' = snmp_ok" "sw_unmanaged sw' = sw_unmanaged sw" "sw_alerts_muted sw' \<longrightarrow> sw_alerts_muted sw"
      unfolding n f by blast
    then show ?thesis
      using sp True assms(2) o l r by (intro that [of sw']) (auto simp: n f counter_step_def counter_of_def
        intro: same_config_trans [OF c])
  next
    case False
    then have "poll_failed env sw1 m1 w1 = (as, m', w')" using assms(4) p by simp
    note sp = poll_failed_spec [OF g this]
    from sp obtain sw' where s: "get_switch (w_state w') (mon_name m) = Some sw'"
      "counter_of sw' = counter_step (mon_threshold m) False (counter_of sw)"
      "sw_snmp_ok sw' = sw_snmp_ok sw" "sw_unmanaged sw' = sw_unmanaged sw" "sw_alerts_muted sw' \<longrightarrow> sw_alerts_muted sw"
      unfolding n f counter_of_def by blast
    have t: "sw_is_down sw' \<noteq> sw_is_down sw \<longleftrightarrow> \<not> sw_is_down sw \<and> mon_threshold m \<le> sw_failures sw + 1"
      using s(2) by (auto simp: counter_of_def counter_step_def)
    from sp have a: "\<exists>label. as = (if (\<not> sw_is_down sw \<and> mon_threshold m \<le> sw_failures sw + 1)
             \<and> \<not> muted_at (e_now env) sw \<and> \<not> recent_alert (e_now env) ''down'' m
           then [(dt_us (e_now env), ''down'', label)] else [])"
      "mon_last_alert m' = (if (\<not> sw_is_down sw \<and> mon_threshold m \<le> sw_failures sw + 1)
           \<and> \<not> muted_at (e_now env) sw \<and> mon_dedup m > 0
         then dset ''down'' (e_now env) (mon_last_alert m) else mon_last_alert m)"
      unfolding n f r l conj_assoc by blast+
    have b: "same_config m m'" "\<forall>k. k \<noteq> mon_name m \<longrightarrow> get_switch (w_state w') k = get_switch (w_state w) k"
      "as = [] \<longrightarrow> w_batcher w' = w_batcher w"
      using sp o same_config_trans [OF c] n by auto
    from False have ok: "ok = False" by simp
    show ?thesis
      by (rule that [unfolded ok if_False, OF b(1,2) s(1,2,3) _ s(5) b(3) a(1) [folded t] a(2) [folded t]])
        (use s(4) assms(2) in simp)
  qed
qed

lemma poll_skips:
  "get_switch (w_state w) (mon_name m) = Some sw \<Longrightarrow> sw_unmanaged sw \<Longrightarrow> poll env m w = ([], m, w)"
  by (simp add: poll_def)

lemma poll_no_switch:
  assumes "get_switch (w_state w) (mon_name m) = None" "poll env m w = (as, m', w')"
  shows "as = [] \<and> same_config m m' \<and> mon_last_alert m' = mon_last_alert m
    \<and> get_switch (w_state w') (mon_name m) = None"
proof -
  obtain oks m1 w1 where p: "probe env m w = (oks, m1, w1)" by (cases "probe env m w")
  note k = probe_keeps [OF p]
  then have "get_switch (w_state w1) (mon_name m1) = None"
    using assms(1) by (simp add: keeps_def same_config_def)
  then have "poll env m w = ([], m1, w1)" using assms(1) p by (cases oks) (simp add: poll_def)
  then show ?thesis using assms k by (simp add: keeps_def)
qed

subsection \<open>Sequences of polls\<close>

fun outcomes :: "net_env list \<Rightarrow> monitor \<Rightarrow> world \<Rightarrow> bool list" where
  "outcomes [] m w = []"
| "outcomes (env # envs) m w = fst (fst (probe env m w)) #
     (case poll env m w of (_, m1, w1) \<Rightarrow> outcomes envs m1 w1)"

definition trailing_failures :: "bool list \<Rightarrow> nat" where
  "trailing_failures oks = length (takeWhile Not (rev oks))"

lemma counter_run:
  "fold (counter_step thr) oks (0, False) = (int (trailing_failures oks), thr \<le> int (trailing_failures oks))"
  if "thr > 0"
proof (induction oks rule: rev_induct)
  case (snoc ok oks)
  then show ?case using that by (cases ok) (auto simp: counter_step_def trailing_failures_def)
qed (use that in \<open>simp add: trailing_failures_def\<close>)

lemma poll_loop_counter:
  assumes "get_switch (w_state w) (mon_name m) = Some sw" "\<not> sw_unmanaged sw" "\<not> mon_stopped m"
    and "poll_loop envs m w = (as, m', w')"
  shows "\<exists>sw'. get_switch (w_state w') (mon_name m) = Some sw' \<and> \<not> sw_unmanaged sw'
    \<and> counter_of sw' = fold (counter_step (mon_threshold m)) (outcomes envs m w) (counter_of sw)"
  using assms
proof (induction envs arbitrary: m w sw as)
  case (Cons env envs)
  obtain ok snmp_ok m1 w1 where p: "probe env m w = ((ok, snmp_ok), m1, w1)" by (rule probe_cases)
  obtain as1 m2 w2 where q: "poll env m w = (as1, m2, w2)" by (metis prod_cases3)
  obtain sw2 where s: "same_config m m2" "get_switch (w_state w2) (mon_name m) = Some sw2"
    "counter_of sw2 = counter_step (mon_threshold m) ok (counter_of sw)" "\<not> sw_unmanaged sw2"
    by (rule poll_step [OF Cons.prems(1,2) p q]; rule that; assumption)
  obtain bs where l: "poll_loop envs m2 w2 = (bs, m', w')"
    using Cons.prems(3,4) q by (auto split: prod.splits)
  have n: "mon_name m2 = mon_name m" "mon_threshold m2 = mon_threshold m" "mon_stopped m2 = mon_stopped m"
    using s(1) by (simp_all add: same_config_def)
  show ?case
    using Cons.IH [of w2 m2 sw2 bs] s Cons.prems(3) l by (simp add: n p q)
qed auto

lemma poll_alerts:
  assumes "poll env m w = (as, m', w')"
  shows "same_config m m' \<and> (\<exists>kind. (as = [] \<or> (\<exists>l. as = [(dt_us (e_now env), kind, l)]) \<and> \<not> recent_alert (e_now env) kind m)
     \<and> (as = [] \<and> mon_last_alert m' = mon_last_alert m
        \<or> mon_last_alert m' = (if mon_dedup m > 0 then dset kind (e_now env) (mon_last_alert m) else mon_last_alert m)))"
proof (cases "get_switch (w_state w) (mon_name m)")
  case None
  with poll_no_switch [OF None assms] show ?thesis by simp
next
  case (Some sw)
  show ?thesis
  proof (cases "sw_unmanaged sw")
    case True
    with poll_skips [OF Some] assms show ?thesis by simp
  next
    case False
    obtain ok snmp_ok m1 w1 where p: "probe env m w = ((ok, snmp_ok), m1, w1)" by (rule probe_cases)
    let ?k = "if ok then ''restored'' else ''down''"
    obtain sw' :: switch_state where s: "same_config m m'"
      "\<exists>label. as = (if sw_is_down sw' \<noteq> sw_is_down sw \<and> \<not> muted_at (e_now env) sw
           \<and> \<not> recent_alert (e_now env) ?k m then [(dt_us (e_now env), ?k, label)] else [])"
      "mon_last_alert m' = (if sw_is_down sw' \<noteq> sw_is_down sw \<and> \<not> muted_at (e_now env) sw \<and> mon_dedup m > 0
         then dset ?k (e_now env) (mon_last_alert m) else mon_last_alert m)"
      by (rule poll_step [OF Some False p assms]; rule that; assumption)
    show ?thesis
    proof (intro conjI exI [of _ ?k])
      show "same_config m m'" by (rule s(1))
      show "as = [] \<or> (\<exists>l. as = [(dt_us (e_now env), ?k, l)]) \<and> \<not> recent_alert (e_now env) ?k m"
        using s(2) by (auto split: if_splits)
      show "as = [] \<and> mon_last_alert m' = mon_last_alert m
        \<or> mon_last_alert m' = (if mon_dedup m > 0 then dset ?k (e_now env) (mon_last_alert m) else mon_last_alert m)"
        using s(2,3) by (cases "sw_is_down sw' \<noteq> sw_is_down sw \<and> \<not> muted_at (e_now env) sw") auto
    qed
  qed
qed

definition spaced :: "int \<Rightarrow> alert_log \<Rightarrow> bool" where
  "spaced gap as = sorted_wrt (\<lambda>(t1, k1, _) (t2, k2, _). k1 = k2 \<longrightarrow> gap \<le> t2 - t1) as"

lemma poll_loop_spaced:
  assumes "poll_loop envs m w = (as, m', w')" "mon_dedup m > 0" "sorted (map (dt_us \<circ> e_now) envs)"
    and "\<forall>k t. dget (mon_last_alert m) k = Some t \<longrightarrow> (\<forall>env \<in> set envs. dt_us t \<le> dt_us (e_now env))"
  shows "spaced (us_of_seconds (mon_dedup m)) as
    \<and> (\<forall>(t, k, l) \<in> set as. (\<forall>t0. dget (mon_last_alert m) k = Some t0 \<longrightarrow> us_of_seconds (mon_dedup m) \<le> t - dt_us t0))"
  using assms
proof (induction envs arbitrary: m w as)
  case (Cons env envs)
  show ?case
  proof (cases "mon_stopped m")
    case True
    with Cons.prems(1) show ?thesis by (simp add: spaced_def)
  next
    case False
    obtain as1 m2 w2 where q: "poll env m w = (as1, m2, w2)" by (metis prod_cases3)
    obtain bs m3 w3 where l: "poll_loop envs m2 w2 = (bs, m3, w3)" by (metis prod_cases3)
    have e: "as = as1 @ bs" "m3 = m'" "w3 = w'" using Cons.prems(1) False q l by simp_all
    let ?now = "e_now env" and ?g = "us_of_seconds (mon_dedup m)"
    obtain kind where c: "same_config m m2"
      and a: "as1 = [] \<or> (\<exists>l. as1 = [(dt_us ?now, kind, l)]) \<and> \<not> recent_alert ?now kind m"
      and la: "as1 = [] \<and> mon_last_alert m2 = mon_last_alert m \<or> mon_last_alert m2 = dset kind ?now (mon_last_alert m)"
      using poll_alerts [OF q] Cons.prems(2) by auto
    have d: "mon_dedup m2 = mon_dedup m" using c by (simp add: same_config_def)
    have later: "\<forall>env' \<in> set envs. dt_us ?now \<le> dt_us (e_now env')" using Cons.prems(3) by simp
    have past: "dt_us t \<le> dt_us ?now" if "dget (mon_last_alert m) k = Some t" for k t
      using Cons.prems(4) that by simp
    have ih: "spaced ?g bs
      \<and> (\<forall>(t, k, l) \<in> set bs. \<forall>t0. dget (mon_last_alert m2) k = Some t0 \<longrightarrow> ?g \<le> t - dt_us t0)"
      unfolding d [symmetric]
    proof (rule Cons.IH)
      show "poll_loop envs m2 w2 = (bs, m', w')" using l e by simp
      show "0 < mon_dedup m2" using Cons.prems(2) d by simp
      show "sorted (map (dt_us \<circ> e_now) envs)" using Cons.prems(3) by (simp add: comp_def)
      show "\<forall>k t. dget (mon_last_alert m2) k = Some t \<longrightarrow> (\<forall>env' \<in> set envs. dt_us t \<le> dt_us (e_now env'))"
        using la later Cons.prems(4) by (auto split: if_splits)
    qed
    have bs: "\<forall>t0. dget (mon_last_alert m) k = Some t0 \<longrightarrow> ?g \<le> t - dt_us t0" if "(t, k, lb) \<in> set bs" for t k lb
    proof (intro allI impI)
      fix t0 assume t0: "dget (mon_last_alert m) k = Some t0"
      show "?g \<le> t - dt_us t0"
      proof (cases "mon_last_alert m2 = mon_last_alert m")
        case True
        then show ?thesis using ih that t0 by fastforce
      next
        case False
        then have m2: "mon_last_alert m2 = dset kind ?now (mon_last_alert m)" using la by blast
        show ?thesis
        proof (cases "k = kind")
          case True
          have "\<forall>t0. dget (mon_last_alert m2) k = Some t0 \<longrightarrow> ?g \<le> t - dt_us t0" using ih that by fast
          then have "?g \<le> t - dt_us ?now" using m2 True by simp
          then show ?thesis using past [OF t0] by simp
        next
          case ne: False
          have "\<forall>t0. dget (mon_last_alert m2) k = Some t0 \<longrightarrow> ?g \<le> t - dt_us t0" using ih that by fast
          then show ?thesis using m2 ne t0 by simp
        qed
      qed
    qed
    from a show ?thesis
    proof (elim disjE conjE exE)
      assume "as1 = []"
      with ih bs show ?thesis unfolding e by auto
    next
      fix lb assume as1: "as1 = [(dt_us ?now, kind, lb)]" and nr: "\<not> recent_alert ?now kind m"
      have m2: "mon_last_alert m2 = dset kind ?now (mon_last_alert m)" using la as1 by simp
      have "\<forall>(t, k, l) \<in> set bs. kind = k \<longrightarrow> ?g \<le> t - dt_us ?now" using ih m2 by fastforce
      moreover have "\<forall>t0. dget (mon_last_alert m) kind = Some t0 \<longrightarrow> ?g \<le> dt_us ?now - dt_us t0"
        using nr Cons.prems(2) by (auto simp: recent_alert_def)
      ultimately show ?thesis using ih bs unfolding e as1 spaced_def by auto
    qed
  qed
qed (simp add: spaced_def)

subsection \<open>A sample monitor\<close>

definition demo_monitor :: monitor where
  "demo_monitor = \<lparr>mon_name = ''sw'', mon_host = ''10.0.0.1'', mon_username = [], mon_password = [],
     mon_verify = False, mon_interval = 30, mon_threshold = 3, mon_snmp = None, mon_detects = False,
     mon_batched = True, mon_dedup = 300, mon_last_alert = [], mon_cooldown = None, mon_stopped = False\<rparr>"

definition demo_env :: "nat \<Rightarrow> nat \<Rightarrow> bool \<Rightarrow> net_env" where
  "demo_env mi s up = \<lparr>e_now = \<lparr>year = 2026, month = 9, day = 16, hour = 3, minute = mi, second = s, microsecond = 0\<rparr>,
     e_wire = \<lambda>_ _ _. None, e_ping = \<lambda>_. up, e_banner = \<lambda>_. None, e_driver = \<lambda>_ _. None\<rparr>"

definition demo_world :: "switch_state \<Rightarrow> world" where
  "demo_world sw = \<lparr>w_state = put_switch ''sw'' sw (open_state open_json_store), w_cache = [],
     w_batcher = new_batcher sample_notifier 60\<rparr>"

definition demo_switch :: switch_state where
  "demo_switch = new_switch ''sw'' ''10.0.0.1'' ''icmp''"

lemma demo_simps [simp]:
  "mon_name demo_monitor = ''sw''" "mon_threshold demo_monitor = 3" "mon_dedup demo_monitor = 300"
  "mon_stopped demo_monitor = False" "get_switch (w_state (demo_world sw)) ''sw'' = Some sw"
  "sw_unmanaged demo_switch = False" "sw_is_down demo_switch = False" "sw_failures demo_switch = 0"
  "sw_alerts_muted demo_switch = False" "sw_monitor_mode demo_switch = ''icmp''" "counter_of demo_switch = (0, False)"
  by (simp_all add: demo_monitor_def demo_world_def demo_switch_def new_switch_def counter_of_def)

lemma demo_probe:
  "get_switch (w_state w) ''sw'' = Some sw \<Longrightarrow> sw_monitor_mode sw = ''icmp'' \<Longrightarrow>
   probe (demo_env mi s up) demo_monitor w = ((up, True), demo_monitor, w)"
  by (simp add: probe_def poll_icmp_def demo_env_def)

subsection \<open>Properties\<close>

text \<open>
  C7: A poll is one step of the failure counter.  Whatever path the probe takes, a poll of a managed
  switch resets the counter and clears DOWN when the probe succeeds, else counts one failure and
  raises DOWN at the threshold; it touches no other switch; and it hands over one alert, named
  after the new state, exactly when the state flips while the switch is not muted and no alert of
  that kind was handed over or held back within the deduplication window.
\<close>

theorem poll_refines_counter:
  assumes "get_switch (w_state w) (mon_name m) = Some sw" and "\<not> sw_unmanaged sw"
    and "probe env m w = ((ok, snmp_ok), m1, w1)" and "poll env m w = (alerts, m', w')"
  shows "\<exists>sw' label. get_switch (w_state w') (mon_name m) = Some sw'
    \<and> counter_of sw' = counter_step (mon_threshold m) ok (counter_of sw)
    \<and> (\<forall>k. k \<noteq> mon_name m \<longrightarrow> get_switch (w_state w') k = get_switch (w_state w) k)
    \<and> alerts = (if sw_is_down sw' \<noteq> sw_is_down sw \<and> \<not> muted_at (e_now env) sw
           \<and> \<not> recent_alert (e_now env) (if ok then ''restored'' else ''down'') m
         then [(dt_us (e_now env), if ok then ''restored'' else ''down'', label)] else [])
    \<and> (alerts = [] \<longrightarrow> w_batcher w' = w_batcher w)"
  by (rule poll_step [OF assms]) metis

theorem poll_refines_counter_witness:
  "\<exists>sw'. get_switch (w_state (snd (snd (poll (demo_env 0 0 False) demo_monitor (demo_world demo_switch))))) ''sw'' = Some sw'
    \<and> counter_of sw' = (1, False)"
  using poll_refines_counter [of "demo_world demo_switch" demo_monitor demo_switch "demo_env 0 0 False" False True
      demo_monitor "demo_world demo_switch" "fst (poll (demo_env 0 0 False) demo_monitor (demo_world demo_switch))"
      "fst (snd (poll (demo_env 0 0 False) demo_monitor (demo_world demo_switch)))"
      "snd (snd (poll (demo_env 0 0 False) demo_monitor (demo_world demo_switch)))"]
    demo_probe [of "demo_world demo_switch" demo_switch 0 0 False]
  by (auto simp: counter_step_def)

text \<open>
  A switch is DOWN exactly while its last threshold polls all failed.  After any sequence of
  polls of a managed switch that starts up with no failures, the failure count is the number of
  failed polls since the last success, and DOWN is set exactly when that reaches the threshold.
\<close>

theorem down_iff_threshold:
  assumes "get_switch (w_state w) (mon_name m) = Some sw" and "\<not> sw_unmanaged sw"
    and "counter_of sw = (0, False)" and "\<not> mon_stopped m" and "mon_threshold m > 0"
    and "poll_loop envs m w = (alerts, m', w')"
  shows "\<exists>sw'. get_switch (w_state w') (mon_name m) = Some sw'
    \<and> sw_failures sw' = int (trailing_failures (outcomes envs m w))
    \<and> (sw_is_down sw' \<longleftrightarrow> mon_threshold m \<le> int (trailing_failures (outcomes envs m w)))"
  using poll_loop_counter [OF assms(1,2,4,6)] counter_run [OF assms(5), of "outcomes envs m w"] assms(3)
  by (auto simp: counter_of_def)

theorem down_iff_threshold_witness:
  "\<exists>sw'. get_switch (w_state (snd (snd (poll_loop [demo_env 0 0 False] demo_monitor (demo_world demo_switch))))) ''sw'' = Some sw'
    \<and> sw_failures sw' = 1"
proof -
  have "outcomes [demo_env 0 0 False] demo_monitor (demo_world demo_switch) = [False]"
    using demo_probe [of "demo_world demo_switch" demo_switch 0 0 False] by (simp split: prod.splits)
  with down_iff_threshold [of "demo_world demo_switch" demo_monitor demo_switch "[demo_env 0 0 False]"
      "fst (poll_loop [demo_env 0 0 False] demo_monitor (demo_world demo_switch))"
      "fst (snd (poll_loop [demo_env 0 0 False] demo_monitor (demo_world demo_switch)))"
      "snd (snd (poll_loop [demo_env 0 0 False] demo_monitor (demo_world demo_switch)))"]
  show ?thesis by (auto simp: trailing_failures_def simp del: poll_loop.simps outcomes.simps)
qed

text \<open>
  Repeated alerts are a window apart.  However a switch flaps, with a clock that does not run
  backwards, two alerts of the same kind handed over by one monitor are at least the deduplication
  window apart.
\<close>

theorem alerts_spaced:
  assumes "poll_loop envs m w = (alerts, m', w')" and "mon_dedup m > 0" and "mon_last_alert m = []"
    and "sorted (map (\<lambda>env. dt_us (e_now env)) envs)"
  shows "spaced (us_of_seconds (mon_dedup m)) alerts"
  using poll_loop_spaced [OF assms(1,2)] assms(3,4) by (simp add: comp_def)

theorem alerts_spaced_witness:
  "spaced (us_of_seconds 300) (fst (poll_loop [demo_env 0 0 False, demo_env 0 30 True, demo_env 1 0 False]
     demo_monitor (demo_world demo_switch)))"
  using alerts_spaced [of "[demo_env 0 0 False, demo_env 0 30 True, demo_env 1 0 False]" demo_monitor "demo_world demo_switch"
      "fst (poll_loop [demo_env 0 0 False, demo_env 0 30 True, demo_env 1 0 False] demo_monitor (demo_world demo_switch))"
      "fst (snd (poll_loop [demo_env 0 0 False, demo_env 0 30 True, demo_env 1 0 False] demo_monitor (demo_world demo_switch)))"
      "snd (snd (poll_loop [demo_env 0 0 False, demo_env 0 30 True, demo_env 1 0 False] demo_monitor (demo_world demo_switch)))"]
  by (simp del: poll_loop.simps) (simp add: demo_env_def dt_us_def time_us_def ordinal_def demo_monitor_def)

text \<open>
  The last word about a flapping switch may be wrong.  A switch that goes down again within the
  deduplication window of the previous DOWN alert is marked DOWN without an alert, and no later
  failing poll makes up for it, however long it stays down: if a RESTORED alert went out in
  between, that remains the last thing the operator is told.
\<close>

theorem flap_down_never_alerted:
  assumes "get_switch (w_state w) (mon_name m) = Some sw" and "\<not> sw_unmanaged sw" and "\<not> sw_is_down sw"
    and "mon_threshold m \<le> sw_failures sw + 1" and "\<not> mon_stopped m"
    and "recent_alert (e_now env) ''down'' m" and "list_all Not (outcomes (env # envs) m w)"
    and "poll_loop (env # envs) m w = (alerts, m', w')"
  shows "alerts = [] \<and> w_batcher w' = w_batcher w
    \<and> (\<exists>sw'. get_switch (w_state w') (mon_name m) = Some sw' \<and> sw_is_down sw')"
proof -
  obtain ok snmp_ok m1 w1 where p: "probe env m w = ((ok, snmp_ok), m1, w1)" by (rule probe_cases)
  obtain as1 m2 w2 where q: "poll env m w = (as1, m2, w2)" by (metis prod_cases3)
  have ok: "ok = False" using assms(7) p by simp
  obtain sw2 where s: "same_config m m2" "get_switch (w_state w2) (mon_name m) = Some sw2"
    "counter_of sw2 = counter_step (mon_threshold m) ok (counter_of sw)" "\<not> sw_unmanaged sw2"
    "as1 = [] \<longrightarrow> w_batcher w2 = w_batcher w"
    "\<exists>label. as1 = (if sw_is_down sw2 \<noteq> sw_is_down sw \<and> \<not> muted_at (e_now env) sw
           \<and> \<not> recent_alert (e_now env) (if ok then ''restored'' else ''down'') m
         then [(dt_us (e_now env), if ok then ''restored'' else ''down'', label)] else [])"
    by (rule poll_step [OF assms(1,2) p q]; rule that; assumption)
  have as1: "as1 = []" using s(6) assms(6) ok by simp
  have d: "sw_is_down sw2" using s(3) assms(4) ok by (simp add: counter_of_def counter_step_def)
  have quiet: "as = [] \<and> w_batcher w' = w_batcher w
      \<and> (\<exists>sw'. get_switch (w_state w') (mon_name m) = Some sw' \<and> sw_is_down sw')"
    if "get_switch (w_state w) (mon_name m) = Some sw" "\<not> sw_unmanaged sw" "sw_is_down sw"
      "list_all Not (outcomes envs m w)" "poll_loop envs m w = (as, m', w')" for envs as m w sw m' w'
    using that
  proof (induction envs arbitrary: m w sw as)
    case (Cons env envs)
    show ?case
    proof (cases "mon_stopped m")
      case False
      obtain ok snmp_ok m1 w1 where p: "probe env m w = ((ok, snmp_ok), m1, w1)" by (rule probe_cases)
      obtain as1 m2 w2 where q: "poll env m w = (as1, m2, w2)" by (metis prod_cases3)
      have ok: "ok = False" using Cons.prems(4) p by simp
      obtain sw2 where s: "same_config m m2" "get_switch (w_state w2) (mon_name m) = Some sw2"
        "counter_of sw2 = counter_step (mon_threshold m) ok (counter_of sw)" "\<not> sw_unmanaged sw2"
        "as1 = [] \<longrightarrow> w_batcher w2 = w_batcher w"
        "\<exists>label. as1 = (if sw_is_down sw2 \<noteq> sw_is_down sw \<and> \<not> muted_at (e_now env) sw
               \<and> \<not> recent_alert (e_now env) (if ok then ''restored'' else ''down'') m
             then [(dt_us (e_now env), if ok then ''restored'' else ''down'', label)] else [])"
        by (rule poll_step [OF Cons.prems(1,2) p q]; rule that; assumption)
      have d: "sw_is_down sw2" using s(3) Cons.prems(3) ok by (simp add: counter_of_def counter_step_def)
      then have e: "as1 = []" using s(6) Cons.prems(3) by simp
      have n: "mon_name m2 = mon_name m" using s(1) by (simp add: same_config_def)
      obtain bs where l: "poll_loop envs m2 w2 = (bs, m', w')" "as = bs"
        using Cons.prems(5) False q e by (auto split: prod.splits)
      have "list_all Not (outcomes envs m2 w2)" using Cons.prems(4) q by simp
      from Cons.IH [OF _ s(4) d this l(1)] s(2,5) e l(2) n show ?thesis by simp
    qed (use Cons.prems in simp)
  qed auto
  have n: "mon_name m2 = mon_name m" using s(1) by (simp add: same_config_def)
  obtain bs where l: "poll_loop envs m2 w2 = (bs, m', w')" "alerts = bs"
    using assms(5,8) q as1 by (auto split: prod.splits)
  have "list_all Not (outcomes envs m2 w2)" using assms(7) q by simp
  from quiet [OF _ s(4) d this l(1)] s(2,5) as1 l(2) n show ?thesis by simp
qed

theorem flap_down_never_alerted_witness:
  "fst (poll_loop [demo_env 3 0 False] (demo_monitor\<lparr>mon_last_alert := [(''down'', e_now (demo_env 0 0 True))]\<rparr>)
     (demo_world (demo_switch\<lparr>sw_failures := 2\<rparr>))) = []"
proof -
  let ?m = "demo_monitor\<lparr>mon_last_alert := [(''down'', e_now (demo_env 0 0 True))]\<rparr>"
  let ?sw = "demo_switch\<lparr>sw_failures := 2\<rparr>"
  have n: "mon_name ?m = ''sw''" "mon_threshold ?m = 3" "\<not> mon_stopped ?m" by (simp_all add: demo_monitor_def)
  have r: "recent_alert (e_now (demo_env 3 0 False)) ''down'' ?m"
    by (simp add: recent_alert_def demo_monitor_def demo_env_def us_of_seconds_def dt_us_def time_us_def ordinal_def)
  have "probe (demo_env 3 0 False) ?m (demo_world ?sw) = ((False, True), ?m, demo_world ?sw)"
    by (simp add: probe_def poll_icmp_def demo_env_def n)
  then have o: "list_all Not (outcomes [demo_env 3 0 False] ?m (demo_world ?sw))"
    by (simp split: prod.splits)
  obtain as m' w' where l: "poll_loop [demo_env 3 0 False] ?m (demo_world ?sw) = (as, m', w')" by (metis prod_cases3)
  have "get_switch (w_state (demo_world ?sw)) (mon_name ?m) = Some ?sw" "\<not> sw_unmanaged ?sw" "\<not> sw_is_down ?sw"
    "mon_threshold ?m \<le> sw_failures ?sw + 1" by (simp_all add: n)
  from flap_down_never_alerted [OF this n(3) r o l] show ?thesis by (simp only: l fst_conv)
qed

text \<open>
  C8: The reachability ladder.  For a managed switch in an SNMP-polled mode with a pinned profile, a
  poll has exactly these outcomes: SNMP answers: up, SNMP healthy; SNMP is silent but ping and SSH
  answer: up, SNMP flagged; anything else: one more failure, the SNMP flag left alone.
\<close>

theorem reachability_ladder:
  assumes "get_switch (w_state w) (mon_name m) = Some sw" and "\<not> sw_unmanaged sw"
    and "sw_monitor_mode sw \<in> {''auto'', ''snmp_ro'', ''snmp_rw''}" and "mon_snmp m = Some reg"
    and "sw_snmp_profile sw \<noteq> []" and "poll env m w = (alerts, m', w')"
  shows "\<exists>sw'. get_switch (w_state w') (mon_name m) = Some sw' \<and>
    (if snmp_get (e_wire env) reg (mon_host m) oid_uptime (sw_snmp_profile sw) \<noteq> None
     then counter_of sw' = (0, False) \<and> sw_snmp_ok sw'
     else if e_ping env (mon_host m) \<and> (\<exists>b. e_banner env (mon_host m) = Some (''SSH-'' @ b))
     then counter_of sw' = (0, False) \<and> \<not> sw_snmp_ok sw'
     else sw_failures sw' = sw_failures sw + 1 \<and> sw_snmp_ok sw' = sw_snmp_ok sw)"
proof -
  obtain ok snmp_ok m1 w1 where p: "probe env m w = ((ok, snmp_ok), m1, w1)" by (rule probe_cases)
  obtain snmp w0 where q: "poll_profile env m reg (sw_snmp_profile sw) w = (snmp, w0)" by fastforce
  have s: "snmp = (snmp_get (e_wire env) reg (mon_host m) oid_uptime (sw_snmp_profile sw) \<noteq> None)"
    using q by (auto simp: poll_profile_def snmp_reachable_def split: if_splits)
  have mode: "sw_monitor_mode sw \<noteq> []" using assms(3) by auto
  have ssh: "ssh_reachable env m = (\<exists>b. e_banner env (mon_host m) = Some (''SSH-'' @ b))"
    by (cases "e_banner env (mon_host m)")
      (auto simp: ssh_reachable_def startswith_def, metis append_Cons append_Nil append_take_drop_id)
  have "probe env m w = ((if snmp then (True, True) else if \<not> poll_icmp env m then (False, True)
      else if ssh_reachable env m then (True, False) else (False, True)), m, w0)"
    using assms(1,3-5) mode q by (auto simp: probe_def Let_def poll_reachability_def poll_snmp_def)
  then have r: "(ok, snmp_ok) = (if snmp then (True, True) else if \<not> poll_icmp env m then (False, True)
      else if ssh_reachable env m then (True, False) else (False, True))" using p by simp
  obtain sw' where "get_switch (w_state w') (mon_name m) = Some sw'"
    "counter_of sw' = counter_step (mon_threshold m) ok (counter_of sw)"
    "sw_snmp_ok sw' = (if ok then snmp_ok else sw_snmp_ok sw)"
    by (rule poll_step [OF assms(1,2) p assms(6)]; rule that; assumption)
  then show ?thesis
    using r by (intro exI [of _ sw'])
      (auto simp: s poll_icmp_def ssh counter_step_def counter_of_def split: if_splits)
qed

theorem reachability_ladder_witness:
  "\<exists>sw'. get_switch (w_state (snd (snd (poll (demo_env 0 0 True) (demo_monitor\<lparr>mon_snmp := Some sample_registry\<rparr>)
      (demo_world (demo_switch\<lparr>sw_monitor_mode := ''auto'', sw_snmp_profile := ''aruba''\<rparr>)))))) ''sw'' = Some sw'
    \<and> sw_failures sw' = 1"
proof -
  let ?m = "demo_monitor\<lparr>mon_snmp := Some sample_registry\<rparr>"
  let ?sw = "demo_switch\<lparr>sw_monitor_mode := ''auto'', sw_snmp_profile := ''aruba''\<rparr>"
  let ?e = "demo_env 0 0 True"
  obtain as m' w' where l: "poll ?e ?m (demo_world ?sw) = (as, m', w')" by (metis prod_cases3)
  have n: "mon_name ?m = ''sw''" by (simp add: demo_monitor_def)
  have a: "get_switch (w_state (demo_world ?sw)) (mon_name ?m) = Some ?sw" "\<not> sw_unmanaged ?sw"
    "sw_monitor_mode ?sw \<in> {''auto'', ''snmp_ro'', ''snmp_rw''}" "mon_snmp ?m = Some sample_registry"
    "sw_snmp_profile ?sw \<noteq> []" by (simp_all add: n)
  have "snmp_get (e_wire ?e) r h o' p = None" "e_banner ?e h = None" for r h o' p
    by (auto simp: demo_env_def snmp_get_def split: option.splits)
  with reachability_ladder [OF a l] show ?thesis by (auto simp: l n)
qed

subsection \<open>The manager\<close>

lemma new_monitor_host:
  "new_monitor n h u p v i t s d dd mo b st = (m, st') \<Longrightarrow> mon_host m = h"
  by (auto simp: new_monitor_def)

lemma manager_add_spec:
  assumes "manager_add host name u p v i t mode g st = (g', st')"
    and "dict_ok (\<lambda>h m. mon_host m = h) (g_monitors g)"
  shows "dict_ok (\<lambda>h m. mon_host m = h) (g_monitors g') \<and> (\<forall>h. has_key (g_monitors g') h \<longleftrightarrow> h = host \<or> has_key (g_monitors g) h)
    \<and> (\<forall>h. has_key (g_monitors g) h \<longrightarrow> dget (g_monitors g') h = dget (g_monitors g) h)"
  using assms by (auto simp: manager_add_def dest: new_monitor_host intro!: dict_ok_dset split: if_splits prod.splits)

lemma manager_sync_id:
  "\<forall>ip \<in> set ips. has_key (g_monitors g) ip \<Longrightarrow> manager_sync ips g st = (g, st)"
  by (induction ips) (auto simp: manager_add_def)

lemma manager_sync_spec:
  "manager_sync ips g st = (g', st') \<Longrightarrow> dict_ok (\<lambda>h m. mon_host m = h) (g_monitors g) \<Longrightarrow>
   dict_ok (\<lambda>h m. mon_host m = h) (g_monitors g') \<and> (\<forall>h. has_key (g_monitors g') h \<longleftrightarrow> h \<in> set ips \<or> has_key (g_monitors g) h)
    \<and> (\<forall>h. has_key (g_monitors g) h \<longrightarrow> dget (g_monitors g') h = dget (g_monitors g) h)"
proof (induction ips arbitrary: g st)
  case (Cons ip ips)
  obtain g1 st1 where a: "manager_add ip ip [] [] False 0 0 ''auto'' g st = (g1, st1)" by fastforce
  note 1 = manager_add_spec [OF a Cons.prems(2)]
  have "manager_sync ips g1 st1 = (g', st')" using Cons.prems(1) a by simp
  note 2 = Cons.IH [OF this]
  from 1 2 show ?case by (auto simp: has_key_def)
qed auto

definition all_auto :: "string \<Rightarrow> agent_state \<Rightarrow> bool" where
  "all_auto host st \<longleftrightarrow> (\<forall>(n, sw) \<in> set (switches st). sw_host sw = host \<longrightarrow> sw_monitor_mode sw = ''auto'')"

lemma all_auto_register: "all_auto host st \<Longrightarrow> all_auto host (register_switch n h ''auto'' st)"
  by (fastforce simp: all_auto_def register_switch_def new_switch_def dest: dset_entries map_of_SomeD split: option.splits if_splits)

lemma all_auto_sync: "manager_sync ips g st = (g', st') \<Longrightarrow> all_auto host st \<Longrightarrow> all_auto host st'"
  by (induction ips arbitrary: g st)
    (auto simp: manager_add_def new_monitor_def all_auto_register split: if_splits prod.splits)

lemma all_auto_mode: "all_auto host st \<Longrightarrow> get_mode_for_host st host = ''auto''"
proof (cases "switch_for_host st host")
  case (Some sw)
  assume "all_auto host st"
  moreover from find_SomeD [OF Some [unfolded switch_for_host_def]]
  have "sw \<in> snd ` set (switches st)" "sw_host sw = host" by simp_all
  ultimately have "sw_monitor_mode sw = ''auto''" by (force simp: all_auto_def)
  with Some show ?thesis by (simp add: get_mode_for_host_def)
qed (simp add: get_mode_for_host_def)

text \<open>
  Synchronising monitors every scanned host once and leaves the rest alone.  After a sync the
  pool has one monitor per host, keyed by it, for the hosts it had and those of the list; monitors
  that were running are the same; and repeating the sync changes neither pool nor state.
\<close>

theorem sync_monitors_each_host_once:
  assumes "dict_ok (\<lambda>h m. mon_host m = h) (g_monitors g)" and "manager_sync ips g st = (g', st')"
  shows "dict_ok (\<lambda>h m. mon_host m = h) (g_monitors g')
    \<and> (\<forall>h. has_key (g_monitors g') h \<longleftrightarrow> h \<in> set ips \<or> has_key (g_monitors g) h)
    \<and> (\<forall>h. has_key (g_monitors g) h \<longrightarrow> dget (g_monitors g') h = dget (g_monitors g) h)
    \<and> manager_sync ips g' st' = (g', st')"
  using manager_sync_spec [OF assms(2,1)] manager_sync_id [of ips g' st'] by simp

definition demo_manager :: manager where
  "demo_manager = \<lparr>g_username = ''admin'', g_password = [], g_verify = False, g_interval = 30, g_threshold = 3,
     g_snmp = None, g_detects = False, g_dedup = 300, g_batched = True, g_monitors = []\<rparr>"

theorem sync_monitors_each_host_once_witness:
  "has_key (g_monitors (fst (manager_sync [''10.0.0.1''] demo_manager (open_state open_json_store)))) ''10.0.0.1''"
  using sync_monitors_each_host_once [of demo_manager "[''10.0.0.1'']" "open_state open_json_store"
      "fst (manager_sync [''10.0.0.1''] demo_manager (open_state open_json_store))"
      "snd (manager_sync [''10.0.0.1''] demo_manager (open_state open_json_store))"]
  by (simp add: demo_manager_def del: manager_sync.simps)

text \<open>
  The mode chosen for a manual host is not applied when the scanner knows its address.  At
  start the scanned addresses are synchronised first; adding the manual host afterwards then
  changes nothing, so its monitor and its entry keep the mode auto whatever the operator chose.
\<close>

theorem manual_mode_not_applied:
  assumes "host \<in> set ips" and "dict_ok (\<lambda>h m. mon_host m = h) (g_monitors g)"
    and "manager_sync ips g st = (g', st')"
    and "\<forall>(n, sw) \<in> set (switches st). sw_host sw = host \<longrightarrow> sw_monitor_mode sw = ''auto''"
  shows "manager_add host name user pw verify interval threshold mode g' st' = (g', st')
    \<and> get_mode_for_host st' host = ''auto''"
proof -
  have "has_key (g_monitors g') host" using manager_sync_spec [OF assms(3,2)] assms(1) by simp
  moreover have "all_auto host st'"
    by (rule all_auto_sync [OF assms(3)]) (simp add: all_auto_def assms(4))
  ultimately show ?thesis by (simp add: manager_add_def all_auto_mode)
qed

theorem manual_mode_not_applied_witness:
  "get_mode_for_host (snd (manager_add ''10.0.0.1'' ''core-1'' [] [] False 0 0 ''icmp''
     (fst (manager_sync [''10.0.0.1''] demo_manager (open_state open_json_store)))
     (snd (manager_sync [''10.0.0.1''] demo_manager (open_state open_json_store))))) ''10.0.0.1'' = ''auto''"
proof -
  obtain g' st' where s: "manager_sync [''10.0.0.1''] demo_manager (open_state open_json_store) = (g', st')"
    by fastforce
  have e: "switches (load_snapshot (json_store_load open_json_store)) = []"
    by (simp add: open_json_store_def json_store_load_def load_snapshot_def empty_data_def)
  have "dict_ok (\<lambda>h m. mon_host m = h) (g_monitors demo_manager)" by (simp add: demo_manager_def)
  from manual_mode_not_applied [of "''10.0.0.1''" "[''10.0.0.1'']", OF _ this s]
  show ?thesis unfolding s fst_conv snd_conv by (simp add: e)
qed

end
