(* ===== verification/Py_Float.thy ===== *)
theory Py_Float
  imports Py_Data
begin

text \<open>
  Python floats as the code uses them: exact rationals (rounding is not modelled) and the three
  special values, with the comparisons, in which a NaN is never ordered, and \<open>float(s)\<close> on
  strings.
\<close>

datatype py_float = Fin rat | PosInf | NegInf | NaN

fun fl_less :: "py_float \<Rightarrow> py_float \<Rightarrow> bool" where
  "fl_less (Fin a) (Fin b) = (a < b)"
| "fl_less (Fin a) PosInf = True"
| "fl_less NegInf (Fin b) = True"
| "fl_less NegInf PosInf = True"
| "fl_less _ _ = False"

fun fl_eq :: "py_float \<Rightarrow> py_float \<Rightarrow> bool" where
  "fl_eq (Fin a) (Fin b) = (a = b)"
| "fl_eq PosInf PosInf = True"
| "fl_eq NegInf NegInf = True"
| "fl_eq _ _ = False"

definition fl_le :: "py_float \<Rightarrow> py_float \<Rightarrow> bool" where
  "fl_le a b = (fl_less a b \<or> fl_eq a b)"

text \<open>Digits with single underscores between them: value, number of digits, what follows.\<close>

fun digit_run :: "nat \<Rightarrow> nat \<Rightarrow> bool \<Rightarrow> string \<Rightarrow> (nat \<times> nat \<times> string) option" where
  "digit_run acc n prev [] = (if prev \<or> n = 0 then Some (acc, n, []) else None)"
| "digit_run acc n prev (c # cs) =
     (if is_digit c then digit_run (10 * acc + digit_val c) (Suc n) True cs
      else if c = CHR ''_'' \<and> prev then digit_run acc n False cs
      else if prev \<or> n = 0 then Some (acc, n, c # cs) else None)"

definition parse_exponent :: "string \<Rightarrow> int option" where
  "parse_exponent s = (case s of
       [] \<Rightarrow> Some 0
     | c # cs \<Rightarrow>
         if c = CHR ''e'' \<or> c = CHR ''E'' then
           (let (neg, ds) = (case cs of d # ds \<Rightarrow> if d = CHR ''-'' then (True, ds)
                 else if d = CHR ''+'' then (False, ds) else (False, cs) | [] \<Rightarrow> (False, cs))
            in case digit_run 0 0 False ds of
                 Some (e, n, rest) \<Rightarrow> if n > 0 \<and> rest = [] then Some (if neg then - int e else int e) else None
               | None \<Rightarrow> None)
         else None)"

definition scale10 :: "rat \<Rightarrow> int \<Rightarrow> rat" where
  "scale10 x e = (if e \<ge> 0 then x * 10 ^ nat e else x / 10 ^ nat (- e))"

definition parse_decimal :: "string \<Rightarrow> rat option" where
  "parse_decimal s = (case digit_run 0 0 False s of
       None \<Rightarrow> None
     | Some (a, n, rest) \<Rightarrow>
         (case (case rest of c # cs \<Rightarrow> if c = CHR ''.'' then digit_run a 0 False cs else Some (a, 0, rest)
                | [] \<Rightarrow> Some (a, 0, rest)) of
            None \<Rightarrow> None
          | Some (b, k, rest') \<Rightarrow>
              if n + k = 0 then None
              else map_option (\<lambda>e. scale10 (of_nat b) (e - int k)) (parse_exponent rest')))"

definition py_float :: "string \<Rightarrow> py_float option" where
  "py_float s = (let t = strip s;
       (neg, u) = (case t of c # cs \<Rightarrow> if c = CHR ''-'' then (True, cs)
          else if c = CHR ''+'' then (False, cs) else (False, t) | [] \<Rightarrow> (False, t));
       l = lower u
     in if l = ''inf'' \<or> l = ''infinity'' then Some (if neg then NegInf else PosInf)
        else if l = ''nan'' then Some NaN
        else map_option (\<lambda>x. Fin (if neg then - x else x)) (parse_decimal u))"

text \<open>\<open>round(x)\<close>, a tie to the even neighbour, and \<open>round(x, n)\<close> for a positive \<open>n\<close>.\<close>

definition round_half_even :: "rat \<Rightarrow> int" where
  "round_half_even x = (let f = \<lfloor>x\<rfloor>; d = x - of_int f in
     if d < 1 / 2 then f else if d > 1 / 2 then f + 1 else if even f then f else f + 1)"

definition round_digits :: "rat \<Rightarrow> nat \<Rightarrow> rat" where
  "round_digits x n = of_int (round_half_even (x * 10 ^ n)) / 10 ^ n"

lemma round_half_even_near: "\<bar>of_int (round_half_even x) - x\<bar> \<le> 1 / 2"
  using floor_correct [of x] by (auto simp: round_half_even_def Let_def abs_le_iff)

lemma round_digits_bounds:
  assumes "of_int a \<le> x" "x \<le> of_int b"
  shows "of_int a \<le> round_digits x n" "round_digits x n \<le> of_int b"
proof -
  let ?p = "10 ^ n :: rat" and ?r = "round_half_even (x * 10 ^ n)"
  have p: "?p > 0" by simp
  have near: "x * ?p - 1 / 2 \<le> of_int ?r" "of_int ?r \<le> x * ?p + 1 / 2"
    using round_half_even_near [of "x * ?p"] unfolding abs_le_iff by linarith+
  have "of_int a * ?p \<le> x * ?p" "x * ?p \<le> of_int b * ?p" using assms by (simp_all add: mult_right_mono)
  then have "(of_int (a * 10 ^ n - 1) :: rat) < of_int ?r" "(of_int ?r :: rat) < of_int (b * 10 ^ n + 1)"
    using near unfolding of_int_diff of_int_add of_int_mult of_int_power of_int_numeral of_int_1 by linarith+
  then have "a * 10 ^ n \<le> ?r" "?r \<le> b * 10 ^ n" unfolding of_int_less_iff by simp_all
  then have "(of_int (a * 10 ^ n) :: rat) \<le> of_int ?r" "(of_int ?r :: rat) \<le> of_int (b * 10 ^ n)"
    by (simp_all only: of_int_le_iff)
  then show "of_int a \<le> round_digits x n" "round_digits x n \<le> of_int b"
    using p by (simp_all add: round_digits_def le_divide_eq divide_le_eq)
qed

lemma fl_nan [simp]: "\<not> fl_less NaN b" "\<not> fl_less a NaN" "\<not> fl_le NaN b" "\<not> fl_le a NaN"
  by (cases a; cases b; simp add: fl_le_def)+

end
