(* ===== verification/Scope.thy ===== *)
theory Scope
  imports Prelude "HOL-Library.Word"
begin

text \<open>
  Scope matching by name, address or IPv4 network, spelled out alike in thresholds.py
  (\<open>match_scope\<close>, \<open>_host_in\<close>) and tasks/interface_poll.py (\<open>_matches\<close>), over the part of the
  module ipaddress it uses: IPv4 addresses and networks as 32-bit words.  IPv6 texts are not
  modelled and read as malformed, which the code treats as no match.
\<close>

unbundle bit_operations_syntax

type_synonym ipv4 = "32 word"

definition parse_octet :: "string \<Rightarrow> nat option" where
  "parse_octet s = (if s = [] \<or> \<not> list_all is_digit s \<or> length s > 3 then None
     else if length s > 1 \<and> hd s = CHR ''0'' then None
     else let n = foldl (\<lambda>a c. 10 * a + digit_val c) 0 s in if n > 255 then None else Some n)"

definition ipv4_of_octets :: "nat \<Rightarrow> nat \<Rightarrow> nat \<Rightarrow> nat \<Rightarrow> ipv4" where
  "ipv4_of_octets a b c d = of_nat (((a * 256 + b) * 256 + c) * 256 + d)"

definition parse_ipv4 :: "string \<Rightarrow> ipv4 option" where
  "parse_ipv4 s = (case map parse_octet (split_on (CHR ''.'') s) of
       [Some a, Some b, Some c, Some d] \<Rightarrow> Some (ipv4_of_octets a b c d)
     | _ \<Rightarrow> None)"

definition prefix_mask :: "nat \<Rightarrow> ipv4" where
  "prefix_mask n = NOT (mask (32 - n))"

text \<open>The prefix length of a contiguous mask: \<open>_prefix_from_ip_int\<close>.\<close>

definition prefix_of_mask :: "ipv4 \<Rightarrow> nat option" where
  "prefix_of_mask m = find (\<lambda>n. prefix_mask n = m) [0..<33]"

text \<open>\<open>_make_netmask\<close>: a prefix length, a netmask, or a host mask.\<close>

definition parse_prefix :: "string \<Rightarrow> nat option" where
  "parse_prefix s =
     (if s \<noteq> [] \<and> list_all is_digit s \<and> foldl (\<lambda>a c. 10 * a + digit_val c) 0 s \<le> 32
      then Some (foldl (\<lambda>a c. 10 * a + digit_val c) 0 s)
      else if s \<noteq> [] \<and> list_all is_digit s then None
      else case parse_ipv4 s of
        None \<Rightarrow> None
      | Some m \<Rightarrow> (case prefix_of_mask m of Some n \<Rightarrow> Some n | None \<Rightarrow> prefix_of_mask (NOT m)))"

text \<open>\<open>ip_network(p, strict=False)\<close>: the host bits of the address are dropped.\<close>

definition parse_network :: "string \<Rightarrow> (ipv4 \<times> nat) option" where
  "parse_network p = (case split_on (CHR ''/'') p of
       [a] \<Rightarrow> map_option (\<lambda>w. (w, 32)) (parse_ipv4 a)
     | [a, l] \<Rightarrow> (case (parse_ipv4 a, parse_prefix l) of
           (Some w, Some n) \<Rightarrow> Some (w AND prefix_mask n, n)
         | _ \<Rightarrow> None)
     | _ \<Rightarrow> None)"

definition in_network :: "ipv4 \<Rightarrow> ipv4 \<times> nat \<Rightarrow> bool" where
  "in_network a net = (a AND prefix_mask (snd net) = fst net)"

definition matches_pattern :: "string \<Rightarrow> string \<Rightarrow> string \<Rightarrow> bool" where
  "matches_pattern name host p =
     (p = name \<or> p = host \<or>
      CHR ''/'' \<in> set p \<and> (case (parse_ipv4 host, parse_network p) of
         (Some a, Some net) \<Rightarrow> in_network a net | _ \<Rightarrow> False))"

definition host_in :: "string \<Rightarrow> string \<Rightarrow> string list \<Rightarrow> bool" where
  "host_in name host patterns = list_ex (matches_pattern name host) patterns"

definition match_scope :: "string \<Rightarrow> string \<Rightarrow> string \<Rightarrow> string \<Rightarrow> bool" where
  "match_scope name host incl excl =
     (if csv excl \<noteq> [] \<and> host_in name host (csv excl) then False
      else if csv incl \<noteq> [] \<and> \<not> host_in name host (csv incl) then False
      else True)"

text \<open>Membership compares the leading bits of the two addresses.\<close>

lemma in_network_bits:
  assumes "n \<le> 32"
  shows "in_network a (w AND prefix_mask n, n) \<longleftrightarrow> (\<forall>i. 32 - n \<le> i \<and> i < 32 \<longrightarrow> bit a i = bit w i)"
proof -
  have "in_network a (w AND prefix_mask n, n) \<longleftrightarrow> (\<forall>i < 32. bit (a AND prefix_mask n) i = bit (w AND prefix_mask n) i)"
    by (simp add: in_network_def bit_eq_iff [of "a AND _"])
  then show ?thesis
    by (auto simp: prefix_mask_def bit_and_iff bit_not_iff bit_mask_iff)
qed

end
