(* ===== verification/Thresholds.thy ===== *)
theory Thresholds
  imports Atomic_File Py_Float Scope Alert_Batcher "HOL-Library.Product_Lexorder"
begin

text \<open>
  Threshold alerting: the rule store (\<open>aruba_agent/thresholds_store.py\<close>), the evaluation engine
  (\<open>aruba_agent/thresholds.py\<close>) and its periodic task (\<open>tasks/threshold_eval.py\<close>).

  A rule is a record of the fields \<open>save_rule\<close> writes, with the types it writes them in.  The
  text of a number inside a message is a parameter.
\<close>

subsection \<open>Rules and their store\<close>

definition valid_metrics :: "string list" where
  "valid_metrics = [''if_util_in'', ''if_util_out'', ''crc_errors'', ''cpu'', ''memory'', ''temperature'']"

definition valid_operators :: "string list" where
  "valid_operators = [''>'', ''>='', ''<'', ''<='']"

definition valid_severity :: "string list" where
  "valid_severity = [''warning'', ''critical'']"

record rule =
  t_name :: string
  t_enabled :: bool
  t_metric :: string
  t_operator :: string
  t_value :: py_float
  t_duration :: int
  t_severity :: string
  t_include :: string
  t_exclude :: string
  t_added_by :: string
  t_created :: string
  t_updated :: string

text \<open>\<open>_num\<close>: the number of a form or JSON value, or \<open>None\<close>.\<close>

fun num_of :: "json \<Rightarrow> py_float option" where
  "num_of (JBool b) = Some (Fin (if b then 1 else 0))"
| "num_of (JInt n) = Some (Fin (of_int n))"
| "num_of (JFloat x) = Some (Fin x)"
| "num_of (JStr s) = py_float s"
| "num_of _ = None"

definition valid_rule :: "rule \<Rightarrow> bool" where
  "valid_rule r = (t_metric r \<in> set valid_metrics \<and> t_operator r \<in> set valid_operators
     \<and> t_severity r \<in> set valid_severity)"

definition accept_rule :: "rule \<Rightarrow> (string \<times> rule) option" where
  "accept_rule r = (if strip (t_name r) \<noteq> [] \<and> valid_rule r then Some (strip (t_name r), r) else None)"

definition open_rules :: "rule list disk \<Rightarrow> rule registry" where
  "open_rules d = registry_open accept_rule d"

definition make_rule ::
    "datetime \<Rightarrow> string \<Rightarrow> string \<Rightarrow> string \<Rightarrow> py_float \<Rightarrow> int \<Rightarrow> string \<Rightarrow> string \<Rightarrow> string \<Rightarrow> bool \<Rightarrow> string
      \<Rightarrow> rule option \<Rightarrow> rule" where
  "make_rule now name metric oper value duration severity incl excl enabled added_by old =
     \<lparr>t_name = name, t_enabled = enabled, t_metric = metric, t_operator = oper, t_value = value,
       t_duration = duration, t_severity = severity, t_include = incl, t_exclude = excl,
       t_added_by = or_else added_by (case old of None \<Rightarrow> [] | Some r \<Rightarrow> t_added_by r),
       t_created = or_else (case old of None \<Rightarrow> [] | Some r \<Rightarrow> t_created r) (iso_seconds now),
       t_updated = iso_seconds now\<rparr>"

definition save_rule ::
    "faults \<Rightarrow> datetime \<Rightarrow> string \<Rightarrow> string \<Rightarrow> string \<Rightarrow> json \<Rightarrow> json \<Rightarrow> string \<Rightarrow> string \<Rightarrow> string \<Rightarrow> bool \<Rightarrow> string
      \<Rightarrow> rule registry \<Rightarrow> (bool \<times> string) result \<times> rule registry" where
  "save_rule fail now name0 metric0 operator0 value duration severity0 incl excl enabled added_by reg =
     (let name = strip name0; metric = strip metric0; oper = strip operator0;
          severity = strip (or_else severity0 ''warning'')
      in if name = [] then (Inr (False, ''name is required''), reg)
         else if metric \<notin> set valid_metrics
         then (Inr (False, ''metric must be one of '' @ join '', '' valid_metrics), reg)
         else if oper \<notin> set valid_operators
         then (Inr (False, ''operator must be one of '' @ join '', '' valid_operators), reg)
         else case num_of value of
             None \<Rightarrow> (Inr (False, ''value must be a number''), reg)
           | Some v \<Rightarrow>
               if severity \<notin> set valid_severity then (Inr (False, ''severity must be warning or critical''), reg)
               else (case json_int duration of
                   Inl _ \<Rightarrow> (Inr (False, ''duration_s must be an integer''), reg)
                 | Inr d \<Rightarrow>
                     let r = make_rule now name metric oper v (max 0 d) severity (strip incl) (strip excl)
                           enabled added_by (dget (entries reg) name)
                     in commit fail reg (dset name r (entries reg)) (True, [])))"

definition set_rule_enabled ::
    "faults \<Rightarrow> datetime \<Rightarrow> string \<Rightarrow> bool \<Rightarrow> rule registry \<Rightarrow> bool result \<times> rule registry" where
  "set_rule_enabled fail now name en reg = (case dget (entries reg) name of
       None \<Rightarrow> (Inr False, reg)
     | Some r \<Rightarrow> commit fail reg
         (dset name (r\<lparr>t_enabled := en, t_updated := iso_seconds now\<rparr>) (entries reg)) True)"

definition remove_rule :: "faults \<Rightarrow> string \<Rightarrow> rule registry \<Rightarrow> bool result \<times> rule registry" where
  "remove_rule fail name reg = (if \<not> has_key (entries reg) name then (Inr False, reg)
     else commit fail reg (ddel name (entries reg)) True)"

definition get_rule :: "string \<Rightarrow> rule registry \<Rightarrow> rule option" where
  "get_rule name reg = dget (entries reg) name"

definition list_rules :: "bool \<Rightarrow> rule registry \<Rightarrow> rule list" where
  "list_rules enabled_only reg =
     (let rs = dvals (entries reg); rs = (if enabled_only then filter t_enabled rs else rs)
      in sort_key (\<lambda>r. (t_metric r, t_name r)) rs)"

subsection \<open>The engine\<close>

definition op_of :: "string \<Rightarrow> (py_float \<Rightarrow> py_float \<Rightarrow> bool) option" where
  "op_of s = (if s = ''>'' then Some (\<lambda>a b. fl_less b a)
     else if s = ''>='' then Some (\<lambda>a b. fl_le b a)
     else if s = ''<'' then Some fl_less
     else if s = ''<='' then Some fl_le else None)"

record sample =
  s_device :: string
  s_host :: string
  s_metric :: string
  s_value :: "py_float option"
  s_instance :: string

type_synonym alert_key = "string \<times> string \<times> string"

record breach =
  br_since :: rat
  br_alerted :: bool
  br_value :: py_float
  br_severity :: string

type_synonym breaches = "(alert_key, breach) dict"

datatype event_type = Fire | Clear

record event =
  ev_type :: event_type
  ev_rule :: string
  ev_metric :: string
  ev_device :: string
  ev_host :: string
  ev_instance :: string
  ev_value :: py_float
  ev_threshold :: py_float
  ev_operator :: string
  ev_severity :: string
  ev_ts :: rat

definition make_event :: "event_type \<Rightarrow> rule \<Rightarrow> sample \<Rightarrow> py_float \<Rightarrow> rat \<Rightarrow> event" where
  "make_event typ r s val now = \<lparr>ev_type = typ, ev_rule = t_name r, ev_metric = t_metric r,
     ev_device = s_device s, ev_host = s_host s, ev_instance = s_instance s, ev_value = val,
     ev_threshold = t_value r, ev_operator = t_operator r, ev_severity = t_severity r, ev_ts = now\<rparr>"

text \<open>The message of an event; \<open>show\<close> prints a number.\<close>

definition event_message :: "(py_float \<Rightarrow> string) \<Rightarrow> event \<Rightarrow> string" where
  "event_message show e = (let place = strip (ev_device e @ '' '' @ ev_instance e) in case ev_type e of
       Fire \<Rightarrow> upper (ev_severity e) @ '' '' @ ev_rule e @ '': '' @ ev_metric e @ ''='' @ show (ev_value e)
         @ '' '' @ ev_operator e @ '' '' @ show (ev_threshold e) @ '' on '' @ place
     | Clear \<Rightarrow> ''RECOVERED '' @ ev_rule e @ '': '' @ ev_metric e @ ''='' @ show (ev_value e) @ '' on '' @ place)"

definition sample_key :: "rule \<Rightarrow> sample \<Rightarrow> alert_key" where
  "sample_key r s = (t_name r, s_device s, s_instance s)"

definition eval_sample ::
    "rat \<Rightarrow> rule \<Rightarrow> (py_float \<Rightarrow> py_float \<Rightarrow> bool) \<Rightarrow> sample \<Rightarrow> breaches \<Rightarrow> event list \<times> breaches" where
  "eval_sample now r oper s st =
     (if \<not> match_scope (s_device s) (s_host s) (t_include r) (t_exclude r) then ([], st)
      else case s_value s of None \<Rightarrow> ([], st)
      | Some val \<Rightarrow>
          if oper val (t_value r) then
            (let b = (case dget st (sample_key r s) of
                   None \<Rightarrow> \<lparr>br_since = now, br_alerted = False, br_value = val, br_severity = t_severity r\<rparr>
                 | Some b \<Rightarrow> b\<lparr>br_value := val\<rparr>)
             in if \<not> br_alerted b \<and> now - br_since b \<ge> of_int (t_duration r)
                then ([make_event Fire r s val now], dset (sample_key r s) (b\<lparr>br_alerted := True\<rparr>) st)
                else ([], dset (sample_key r s) b st))
          else (case dget st (sample_key r s) of
                  None \<Rightarrow> ([], st)
                | Some b \<Rightarrow> (if br_alerted b then [make_event Clear r s val now] else [],
                            ddel (sample_key r s) st)))"

fun eval_samples ::
    "rat \<Rightarrow> rule \<Rightarrow> (py_float \<Rightarrow> py_float \<Rightarrow> bool) \<Rightarrow> sample list \<Rightarrow> breaches \<Rightarrow> event list \<times> breaches" where
  "eval_samples now r oper [] st = ([], st)"
| "eval_samples now r oper (s # ss) st =
     (case eval_sample now r oper s st of (es, st1) \<Rightarrow>
      case eval_samples now r oper ss st1 of (fs, st2) \<Rightarrow> (es @ fs, st2))"

definition eval_rule :: "rat \<Rightarrow> sample list \<Rightarrow> rule \<Rightarrow> breaches \<Rightarrow> event list \<times> breaches" where
  "eval_rule now samples r st = (if \<not> t_enabled r then ([], st)
     else case op_of (t_operator r) of
       None \<Rightarrow> ([], st)
     | Some oper \<Rightarrow> eval_samples now r oper (filter (\<lambda>s. s_metric s = t_metric r) samples) st)"

fun evaluate :: "rat \<Rightarrow> rule list \<Rightarrow> sample list \<Rightarrow> breaches \<Rightarrow> event list \<times> breaches" where
  "evaluate now [] samples st = ([], st)"
| "evaluate now (r # rs) samples st =
     (case eval_rule now samples r st of (es, st1) \<Rightarrow>
      case evaluate now rs samples st1 of (fs, st2) \<Rightarrow> (es @ fs, st2))"

definition active_alerts :: "breaches \<Rightarrow> (alert_key \<times> breach) list" where
  "active_alerts st = filter (\<lambda>(k, b). br_alerted b) st"

subsection \<open>The task\<close>

record eval_task =
  et_enabled :: bool
  et_seconds :: int
  et_running :: bool
  et_last_run :: rat
  et_fired_total :: nat
  et_breaches :: breaches

definition new_eval_task :: "config \<Rightarrow> eval_task result" where
  "new_eval_task c =
     bind_r (config_get c ''thresholds'' ''enabled'' ''false'') (\<lambda>en.
     bind_r (config_get c ''thresholds'' ''eval_seconds'' ''60'') (\<lambda>secs.
     case py_int (or_else secs ''60'') of None \<Rightarrow> Inl ValueError
     | Some n \<Rightarrow> Inr \<lparr>et_enabled = (lower (or_else en ''false'') = ''true''), et_seconds = max 30 n,
         et_running = False, et_last_run = 0, et_fired_total = 0, et_breaches = []\<rparr>))"

text \<open>A source that raises gives \<open>None\<close> and is skipped.\<close>

definition notify_event :: "(py_float \<Rightarrow> string) \<Rightarrow> event \<Rightarrow> notifier \<Rightarrow> notifier" where
  "notify_event show e n = notifier_send
     (''[Network Agent] '' @ upper (ev_severity e) @ '' ''
       @ (case ev_type e of Fire \<Rightarrow> ''ALERT'' | Clear \<Rightarrow> ''RECOVERED'') @ '': '' @ ev_rule e)
     (event_message show e) n"

definition eval_task_run ::
    "(py_float \<Rightarrow> string) \<Rightarrow> rat \<Rightarrow> rule registry option \<Rightarrow> sample list option list \<Rightarrow> eval_task \<Rightarrow> notifier
      \<Rightarrow> eval_task \<times> notifier" where
  "eval_task_run show now rules sources t n =
     (if \<not> et_enabled t then (t, n)
      else case rules of None \<Rightarrow> (t, n)
      | Some reg \<Rightarrow>
          if et_running t then (t, n)
          else let rs = list_rules True reg in
            if rs = [] then (t, n)
            else (case evaluate now rs (concat (map (\<lambda>s. case s of None \<Rightarrow> [] | Some ss \<Rightarrow> ss) sources)) (et_breaches t) of
                (es, st) \<Rightarrow> (t\<lparr>et_breaches := st, et_last_run := now,
                   et_fired_total := et_fired_total t + length (filter (\<lambda>e. ev_type e = Fire) es)\<rparr>,
                 fold (notify_event show) es n)))"

end
