(* ===== verification/Thresholds_Proofs.thy ===== *)
theory Thresholds_Proofs
  imports Thresholds
begin

text \<open>
  What the engine promises: per rule and instance it is a debounce machine whose events alternate;
  and the rule store as an instance of the registry contract.
\<close>

subsection \<open>Events alternate\<close>

definition ev_key :: "event \<Rightarrow> alert_key" where
  "ev_key e = (ev_rule e, ev_device e, ev_instance e)"

definition alerted :: "breaches \<Rightarrow> alert_key \<Rightarrow> bool" where
  "alerted st k = (case dget st k of None \<Rightarrow> False | Some b \<Rightarrow> br_alerted b)"

text \<open>The flag after a sequence of events that alternates from a given flag.\<close>

fun tracks :: "bool \<Rightarrow> event_type list \<Rightarrow> bool option" where
  "tracks a [] = Some a"
| "tracks a (Fire # es) = (if a then None else tracks True es)"
| "tracks a (Clear # es) = (if a then tracks False es else None)"

definition types_for :: "alert_key \<Rightarrow> event list \<Rightarrow> event_type list" where
  "types_for k es = map ev_type (filter (\<lambda>e. ev_key e = k) es)"

lemma types_for_append [simp]: "types_for k (es @ fs) = types_for k es @ types_for k fs"
  by (simp add: types_for_def)

lemma tracks_append: "tracks a xs = Some b \<Longrightarrow> tracks a (xs @ ys) = tracks b ys"
  by (induction a xs rule: tracks.induct) (auto split: if_splits)

lemma ev_key_make [simp]: "ev_key (make_event t r s v now) = sample_key r s"
  by (simp add: ev_key_def make_event_def sample_key_def)

lemma ev_type_make [simp]: "ev_type (make_event t r s v now) = t"
  by (simp add: make_event_def)

lemma eval_sample_tracks:
  "eval_sample now r oper s st = (es, st') \<Longrightarrow> tracks (alerted st k) (types_for k es) = Some (alerted st' k)"
  by (auto simp: eval_sample_def alerted_def types_for_def Let_def split: if_splits option.splits)

lemma eval_samples_tracks:
  "eval_samples now r oper ss st = (es, st') \<Longrightarrow> tracks (alerted st k) (types_for k es) = Some (alerted st' k)"
proof (induction ss arbitrary: st es)
  case (Cons s ss)
  obtain e1 st1 where 1: "eval_sample now r oper s st = (e1, st1)" by fastforce
  obtain e2 st2 where 2: "eval_samples now r oper ss st1 = (e2, st2)" by fastforce
  have "es = e1 @ e2" "st' = st2" using Cons.prems 1 2 by simp_all
  then show ?case using tracks_append [OF eval_sample_tracks [OF 1]] Cons.IH [of st1 e2] 2 by simp
qed (simp add: types_for_def)

lemma eval_rule_tracks:
  "eval_rule now samples r st = (es, st') \<Longrightarrow> tracks (alerted st k) (types_for k es) = Some (alerted st' k)"
  using eval_samples_tracks
  by (auto simp: eval_rule_def types_for_def split: if_splits option.splits)

lemma evaluate_tracks:
  "evaluate now rs samples st = (es, st') \<Longrightarrow> tracks (alerted st k) (types_for k es) = Some (alerted st' k)"
proof (induction rs arbitrary: st es)
  case (Cons r rs)
  obtain e1 st1 where 1: "eval_rule now samples r st = (e1, st1)" by fastforce
  obtain e2 st2 where 2: "evaluate now rs samples st1 = (e2, st2)" by fastforce
  have "es = e1 @ e2" "st' = st2" using Cons.prems 1 2 by simp_all
  then show ?case using tracks_append [OF eval_rule_tracks [OF 1]] Cons.IH [of st1 e2] 2 by simp
qed (simp add: types_for_def)

subsection \<open>The engine as a debounce machine per key\<close>

text \<open>The readings of a key in one cycle: whether the value breaches, and the rule's duration.\<close>

definition sample_reading ::
    "rule \<Rightarrow> (py_float \<Rightarrow> py_float \<Rightarrow> bool) \<Rightarrow> alert_key \<Rightarrow> sample \<Rightarrow> (bool \<times> int) list" where
  "sample_reading r oper k s =
     (if s_metric s = t_metric r \<and> sample_key r s = k
         \<and> match_scope (s_device s) (s_host s) (t_include r) (t_exclude r)
      then (case s_value s of None \<Rightarrow> [] | Some v \<Rightarrow> [(oper v (t_value r), t_duration r)]) else [])"

definition rule_readings :: "alert_key \<Rightarrow> sample list \<Rightarrow> rule \<Rightarrow> (bool \<times> int) list" where
  "rule_readings k samples r = (if \<not> t_enabled r then []
     else case op_of (t_operator r) of None \<Rightarrow> []
     | Some oper \<Rightarrow> concat (map (sample_reading r oper k) samples))"

definition readings :: "alert_key \<Rightarrow> rule list \<Rightarrow> sample list \<Rightarrow> (bool \<times> int) list" where
  "readings k rs samples = concat (map (rule_readings k samples) rs)"

text \<open>The machine: since when the breach lasts, and whether it was announced.\<close>

definition debounce :: "rat \<Rightarrow> bool \<times> int \<Rightarrow> (rat \<times> bool) option \<Rightarrow> (rat \<times> bool) option" where
  "debounce now bd a = (if \<not> fst bd then None
     else case a of
       None \<Rightarrow> Some (now, (of_int (snd bd) :: rat) \<le> 0)
     | Some (t0, al) \<Rightarrow> Some (t0, al \<or> of_int (snd bd) \<le> now - t0))"

definition phase :: "breaches \<Rightarrow> alert_key \<Rightarrow> (rat \<times> bool) option" where
  "phase st k = map_option (\<lambda>b. (br_since b, br_alerted b)) (dget st k)"

lemma eval_sample_phase:
  "s_metric s = t_metric r \<Longrightarrow> eval_sample now r oper s st = (es, st') \<Longrightarrow>
   phase st' k = fold (debounce now) (sample_reading r oper k s) (phase st k)"
  by (auto simp: eval_sample_def phase_def sample_reading_def debounce_def Let_def split: if_splits option.splits)

lemma eval_samples_phase:
  "\<forall>s \<in> set ss. s_metric s = t_metric r \<Longrightarrow> eval_samples now r oper ss st = (es, st') \<Longrightarrow>
   phase st' k = fold (debounce now) (concat (map (sample_reading r oper k) ss)) (phase st k)"
proof (induction ss arbitrary: st es)
  case (Cons s ss)
  obtain e1 st1 where 1: "eval_sample now r oper s st = (e1, st1)" by fastforce
  obtain e2 st2 where 2: "eval_samples now r oper ss st1 = (e2, st2)" by fastforce
  show ?case using Cons eval_sample_phase [OF _ 1, of k] 1 2 by simp
qed simp

lemma sample_reading_filter:
  "concat (map (sample_reading r oper k) (filter (\<lambda>s. s_metric s = t_metric r) samples))
     = concat (map (sample_reading r oper k) samples)"
  by (induction samples) (auto simp: sample_reading_def)

lemma eval_rule_phase:
  "eval_rule now samples r st = (es, st') \<Longrightarrow>
   phase st' k = fold (debounce now) (rule_readings k samples r) (phase st k)"
  using eval_samples_phase [of "filter (\<lambda>s. s_metric s = t_metric r) samples" r now _ st es st' k]
  by (auto simp: eval_rule_def rule_readings_def sample_reading_filter split: if_splits option.splits)

lemma evaluate_phase:
  "evaluate now rs samples st = (es, st') \<Longrightarrow>
   phase st' k = fold (debounce now) (readings k rs samples) (phase st k)"
proof (induction rs arbitrary: st es)
  case (Cons r rs)
  obtain e1 st1 where 1: "eval_rule now samples r st = (e1, st1)" by fastforce
  obtain e2 st2 where 2: "evaluate now rs samples st1 = (e2, st2)" by fastforce
  show ?case using Cons eval_rule_phase [OF 1, of k] 1 2 by (simp add: readings_def)
qed (simp add: readings_def)

text \<open>Cycles of the engine: the time, the rules and the samples of each.\<close>

type_synonym cycle = "rat \<times> rule list \<times> sample list"

fun run_cycles :: "cycle list \<Rightarrow> breaches \<Rightarrow> event list \<times> breaches" where
  "run_cycles [] st = ([], st)"
| "run_cycles ((now, rs, samples) # cs) st =
     (case evaluate now rs samples st of (es, st1) \<Rightarrow>
      case run_cycles cs st1 of (fs, st2) \<Rightarrow> (es @ fs, st2))"

lemma run_cycles_tracks:
  "run_cycles cs st = (es, st') \<Longrightarrow> tracks (alerted st k) (types_for k es) = Some (alerted st' k)"
proof (induction cs arbitrary: st es)
  case (Cons c cs)
  obtain now rs ss where c: "c = (now, rs, ss)" by (cases c)
  obtain e1 st1 where 1: "evaluate now rs ss st = (e1, st1)" by fastforce
  obtain e2 st2 where 2: "run_cycles cs st1 = (e2, st2)" by fastforce
  have "es = e1 @ e2" "st' = st2" using Cons.prems 1 2 by (simp_all add: c)
  then show ?case using tracks_append [OF evaluate_tracks [OF 1]] Cons.IH [of st1 e2] 2 by simp
qed (simp add: types_for_def)

lemma run_cycles_phase:
  "run_cycles cs st = (es, st') \<Longrightarrow>
   phase st' k = fold (\<lambda>(now, rs, ss). fold (debounce now) (readings k rs ss)) cs (phase st k)"
proof (induction cs arbitrary: st es)
  case (Cons c cs)
  obtain now rs ss where c: "c = (now, rs, ss)" by (cases c)
  obtain e1 st1 where 1: "evaluate now rs ss st = (e1, st1)" by fastforce
  obtain e2 st2 where 2: "run_cycles cs st1 = (e2, st2)" by fastforce
  show ?case using Cons evaluate_phase [OF 1, of k] 1 2 by (simp add: c)
qed simp

text \<open>The breaching readings at the end of a sequence of timed readings.\<close>

definition streak :: "(rat \<times> bool) list \<Rightarrow> (rat \<times> bool) list" where
  "streak xs = rev (takeWhile snd (rev xs))"

lemma streak_snoc: "streak (xs @ [(t, b)]) = (if b then streak xs @ [(t, b)] else [])"
  by (simp add: streak_def)

lemma streak_last: "streak xs \<noteq> [] \<Longrightarrow> xs \<noteq> [] \<and> last (streak xs) = last xs"
  by (cases xs rule: rev_cases) (auto simp: streak_def last_rev split: if_splits)

lemma debounce_run:
  "sorted (map fst xs) \<Longrightarrow>
   fold (\<lambda>(t, b). debounce t (b, dur)) xs None
     = (case streak xs of [] \<Rightarrow> None | (t0, _) # _ \<Rightarrow> Some (t0, of_int dur \<le> fst (last xs) - t0))"
proof (induction xs rule: rev_induct)
  case (snoc x xs)
  obtain t b where x: "x = (t, b)" by (cases x)
  have ih: "fold (\<lambda>(t, b). debounce t (b, dur)) xs None
     = (case streak xs of [] \<Rightarrow> None | (t0, _) # _ \<Rightarrow> Some (t0, of_int dur \<le> fst (last xs) - t0))"
    using snoc by (simp add: sorted_append)
  have f: "fold (\<lambda>(t, b). debounce t (b, dur)) (xs @ [x]) None
      = debounce t (b, dur) (case streak xs of [] \<Rightarrow> None | (t0, _) # _ \<Rightarrow> Some (t0, of_int dur \<le> fst (last xs) - t0))"
    by (simp add: x ih)
  show ?case
    unfolding f
  proof (cases "streak xs")
    case Nil
    then show "debounce t (b, dur) (case streak xs of [] \<Rightarrow> None | (t0, _) # _ \<Rightarrow> Some (t0, of_int dur \<le> fst (last xs) - t0))
      = (case streak (xs @ [x]) of [] \<Rightarrow> None | (t0, _) # _ \<Rightarrow> Some (t0, of_int dur \<le> fst (last (xs @ [x])) - t0))"
      by (simp add: x streak_snoc debounce_def)
  next
    case (Cons y ys)
    have "fst (last xs) \<le> t"
      using snoc.prems streak_last [of xs] Cons by (simp add: x sorted_append)
    then show "debounce t (b, dur) (case streak xs of [] \<Rightarrow> None | (t0, _) # _ \<Rightarrow> Some (t0, of_int dur \<le> fst (last xs) - t0))
      = (case streak (xs @ [x]) of [] \<Rightarrow> None | (t0, _) # _ \<Rightarrow> Some (t0, of_int dur \<le> fst (last (xs @ [x])) - t0))"
      using Cons by (cases y) (auto simp: x streak_snoc debounce_def)
  qed
qed (simp add: streak_def)

subsection \<open>The rule store\<close>

definition rule_entry_ok :: "string \<Rightarrow> rule \<Rightarrow> bool" where
  "rule_entry_ok k r \<longleftrightarrow> strip (t_name r) = k \<and> k \<noteq> [] \<and> valid_rule r"

interpretation rules: json_registry accept_rule rule_entry_ok
  by unfold_locales (auto simp: accept_rule_def rule_entry_ok_def split: if_splits)

lemma save_rule_cases:
  assumes "save_rule fail now name metric oper value duration severity incl excl en by reg = (res, reg')"
  shows "(\<exists>msg. res = Inr (False, msg) \<and> msg \<noteq> [] \<and> reg' = reg)
    \<or> (\<exists>r. rule_entry_ok (strip name) r \<and> t_enabled r = en \<and> t_metric r = strip metric \<and> t_operator r = strip oper
         \<and> num_of value = Some (t_value r) \<and> 0 \<le> t_duration r
         \<and> (res, reg') = commit fail reg (dset (strip name) r (entries reg)) (True, []))"
proof (cases "\<exists>msg. res = Inr (False, msg) \<and> msg \<noteq> [] \<and> reg' = reg")
  case False
  let ?n = "strip name" and ?s = "strip (or_else severity ''warning'')"
  obtain v d where "?n \<noteq> []" "strip metric \<in> set valid_metrics" "strip oper \<in> set valid_operators"
    "num_of value = Some v" "?s \<in> set valid_severity" "json_int duration = Inr d"
    using assms False by (auto simp: save_rule_def Let_def split: if_splits option.splits sum.splits)
  moreover from this have "(res, reg') = commit fail reg (dset ?n (make_rule now ?n (strip metric) (strip oper) v
      (max 0 d) ?s (strip incl) (strip excl) en by (dget (entries reg) ?n)) (entries reg)) (True, [])"
    using assms by (simp add: save_rule_def Let_def)
  ultimately show ?thesis
    by (intro disjI2 exI [of _ "make_rule now ?n (strip metric) (strip oper) v (max 0 d) ?s (strip incl)
        (strip excl) en by (dget (entries reg) ?n)"])
      (simp add: rule_entry_ok_def valid_rule_def make_rule_def)
qed blast

lemma commit_keeps:
  assumes "commit fail reg d a = (res, reg')" "dict_ok rule_entry_ok d"
  shows "dict_ok rule_entry_ok (entries reg') \<and> (res = Inr a \<longrightarrow> entries (open_rules (backing reg')) = entries reg')"
proof -
  have e: "entries reg' = d" using entries_commit [of fail reg d a] assms(1) by simp
  moreover have "synced reg'" if "res = Inr a" using commit_synced [of fail reg d a a] assms(1) that by simp
  ultimately show ?thesis using rules.restart [of reg'] assms(2) by (simp add: open_rules_def)
qed

subsection \<open>Keys stay distinct\<close>

lemma eval_sample_distinct:
  "eval_sample now r oper s st = (es, st') \<Longrightarrow> distinct (dkeys st) \<Longrightarrow> distinct (dkeys st')"
  by (auto simp: eval_sample_def Let_def distinct_update distinct_delete split: if_splits option.splits)

lemma eval_samples_distinct:
  "eval_samples now r oper ss st = (es, st') \<Longrightarrow> distinct (dkeys st) \<Longrightarrow> distinct (dkeys st')"
  by (induction ss arbitrary: st es) (auto dest: eval_sample_distinct split: prod.splits)

lemma evaluate_distinct:
  "evaluate now rs ss st = (es, st') \<Longrightarrow> distinct (dkeys st) \<Longrightarrow> distinct (dkeys st')"
proof (induction rs arbitrary: st es)
  case (Cons r rs)
  obtain e1 st1 where 1: "eval_rule now ss r st = (e1, st1)" by fastforce
  obtain e2 st2 where 2: "evaluate now rs ss st1 = (e2, st2)" by fastforce
  have "distinct (dkeys st1)"
    using 1 Cons.prems(2) by (auto simp: eval_rule_def dest: eval_samples_distinct split: if_splits option.splits)
  then show ?case using Cons.IH [of st1 e2] Cons.prems(1) 1 2 by simp
qed simp

lemma run_cycles_distinct: "run_cycles cs st = (es, st') \<Longrightarrow> distinct (dkeys st) \<Longrightarrow> distinct (dkeys st')"
proof (induction cs arbitrary: st es)
  case (Cons c cs)
  obtain now rs ss where c: "c = (now, rs, ss)" by (cases c)
  obtain e1 st1 where 1: "evaluate now rs ss st = (e1, st1)" by fastforce
  obtain e2 st2 where 2: "run_cycles cs st1 = (e2, st2)" by fastforce
  have "st2 = st'" using Cons.prems(1) 1 2 by (simp add: c)
  then show ?case using Cons.IH 2 evaluate_distinct [OF 1 Cons.prems(2)] by blast
qed simp

lemma eval_samples_events:
  "e \<in> set (fst (eval_samples now r oper ss st)) \<Longrightarrow> \<exists>s st'. e \<in> set (fst (eval_sample now r oper s st'))"
proof (induction ss arbitrary: st)
  case (Cons s ss)
  obtain e1 st1 where 1: "eval_sample now r oper s st = (e1, st1)" by fastforce
  obtain e2 st2 where 2: "eval_samples now r oper ss st1 = (e2, st2)" by fastforce
  from Cons.prems have "e \<in> set e1 \<or> e \<in> set e2" by (simp add: 1 2)
  then show ?case using Cons.IH [of st1] 1 2 by (metis fst_conv)
qed simp

lemma active_iff_alerted: "distinct (dkeys st) \<Longrightarrow> k \<in> fst ` set (active_alerts st) \<longleftrightarrow> alerted st k"
proof -
  assume d: "distinct (dkeys st)"
  have "alerted st k \<longleftrightarrow> (\<exists>b. dget st k = Some b \<and> br_alerted b)"
    by (auto simp: alerted_def split: option.splits)
  also have "\<dots> \<longleftrightarrow> (\<exists>b. (k, b) \<in> set st \<and> br_alerted b)" using d by simp
  finally show ?thesis by (force simp: active_alerts_def)
qed

subsection \<open>Properties\<close>

definition sample_rule :: "py_float \<Rightarrow> rule" where
  "sample_rule v = \<lparr>t_name = ''cpu high'', t_enabled = True, t_metric = ''cpu'', t_operator = ''>'',
     t_value = v, t_duration = 60, t_severity = ''critical'', t_include = [], t_exclude = [], t_added_by = [],
     t_created = [], t_updated = []\<rparr>"

definition sample_cpu :: "rat \<Rightarrow> sample" where
  "sample_cpu v = \<lparr>s_device = ''sw'', s_host = ''10.0.0.1'', s_metric = ''cpu'', s_value = Some (Fin v), s_instance = []\<rparr>"

text \<open>
  A breach alerts once.  Over any sequence of evaluation cycles from an empty state, with
  whatever rules and samples each has, the events of one rule, device and instance alternate
  between fire and clear, beginning with fire, and active_alerts lists it exactly when the last
  one was a fire.
\<close>

theorem events_alternate:
  assumes "run_cycles cycles [] = (events, st)"
  shows "tracks False (map ev_type (filter (\<lambda>e. (ev_rule e, ev_device e, ev_instance e) = k) events))
    = Some (k \<in> fst ` set (active_alerts st))"
  using run_cycles_tracks [OF assms, of k] active_iff_alerted [OF run_cycles_distinct [OF assms], of k]
  by (simp add: alerted_def types_for_def ev_key_def)

theorem events_alternate_witness:
  "\<exists>b. tracks False (map ev_type (fst (run_cycles
     [(0, [sample_rule (Fin 90)], [sample_cpu 95]), (60, [sample_rule (Fin 90)], [sample_cpu 96])] []))) = Some b"
proof -
  let ?cs = "[(0, [sample_rule (Fin 90)], [sample_cpu 95]), (60, [sample_rule (Fin 90)], [sample_cpu 96])]"
  have "\<forall>e \<in> set (fst (run_cycles ?cs [])). (ev_rule e, ev_device e, ev_instance e) = (''cpu high'', ''sw'', [])"
    by (simp add: eval_rule_def sample_rule_def op_of_def sample_cpu_def eval_sample_def match_scope_def csv_def strip_def
        lstrip_def rstrip_def sample_key_def Let_def make_event_def)
  then have "filter (\<lambda>e. (ev_rule e, ev_device e, ev_instance e) = (''cpu high'', ''sw'', [])) (fst (run_cycles ?cs []))
    = fst (run_cycles ?cs [])" by (simp add: filter_id_conv del: run_cycles.simps)
  with events_alternate [of ?cs "fst (run_cycles ?cs [])" "snd (run_cycles ?cs [])" "(''cpu high'', ''sw'', [])"]
  show ?thesis by (simp del: run_cycles.simps)
qed

text \<open>
  C9: An alert stands exactly for a sustained breach.  With non-decreasing times and one reading of
  a rule, device and instance per cycle, after any cycles the alert is active exactly when the
  readings at the end all breach and they span at least the rule's duration.
\<close>

theorem alert_iff_sustained:
  assumes "run_cycles cycles [] = (events, st)" and "sorted (map fst cycles)"
    and "\<forall>(now, rs, samples) \<in> set cycles. \<exists>b. readings k rs samples = [(b, dur)]"
    and "s = streak (map (\<lambda>(now, rs, samples). (now, fst (hd (readings k rs samples)))) cycles)"
  shows "k \<in> fst ` set (active_alerts st) \<longleftrightarrow> s \<noteq> [] \<and> of_int dur \<le> fst (last s) - fst (hd s)"
proof -
  define xs where "xs = map (\<lambda>(now, rs, samples). (now, fst (hd (readings k rs samples)))) cycles"
  have m: "map fst xs = map fst cycles" by (simp add: xs_def case_prod_unfold)
  have "fold (\<lambda>(now, rs, ss). fold (debounce now) (readings k rs ss)) cycles a
      = fold (\<lambda>(t, b). debounce t (b, dur)) xs a" for a
    using assms(3) unfolding xs_def
  proof (induction cycles arbitrary: a)
    case (Cons c cs)
    obtain now rs ss where c: "c = (now, rs, ss)" by (cases c)
    obtain b where "readings k rs ss = [(b, dur)]" using Cons.prems by (auto simp: c)
    then show ?case using Cons by (simp add: c)
  qed simp
  moreover have "sorted (map fst xs)" using assms(2) m by simp
  note debounce_run [OF this, of dur]
  ultimately have ph: "phase st k = (case streak xs of [] \<Rightarrow> None
      | (t0, _) # _ \<Rightarrow> Some (t0, of_int dur \<le> fst (last xs) - t0))"
    using run_cycles_phase [OF assms(1), of k] by (simp only: phase_def map_of.simps option.map)
  have "alerted st k \<longleftrightarrow> (\<exists>t0. phase st k = Some (t0, True))"
    by (auto simp: alerted_def phase_def split: option.splits)
  moreover have "s = streak xs" by (simp only: assms(4) xs_def)
  ultimately have "alerted st k \<longleftrightarrow> s \<noteq> [] \<and> of_int dur \<le> fst (last s) - fst (hd s)"
    using ph streak_last [of xs] by (cases "streak xs") auto
  then show ?thesis using active_iff_alerted [OF run_cycles_distinct [OF assms(1)], of k] by simp
qed

theorem alert_iff_sustained_witness:
  "(''cpu high'', ''sw'', []) \<in> fst ` set (active_alerts (snd (run_cycles
     [(0 :: rat, [sample_rule (Fin 90)], [sample_cpu 95]), (60, [sample_rule (Fin 90)], [sample_cpu 96])] [])))"
proof -
  let ?k = "(''cpu high'', ''sw'', [])"
  let ?cs = "[(0 :: rat, [sample_rule (Fin 90)], [sample_cpu 95]), (60, [sample_rule (Fin 90)], [sample_cpu 96])]"
  have r: "readings ?k [sample_rule (Fin 90)] [sample_cpu v] = [(90 < v, 60)]" for v
    by (simp add: readings_def rule_readings_def sample_rule_def op_of_def sample_reading_def sample_cpu_def sample_key_def
        match_scope_def csv_def strip_def lstrip_def rstrip_def)
  have "run_cycles ?cs [] = (fst (run_cycles ?cs []), snd (run_cycles ?cs []))" by (rule prod.collapse [symmetric])
  moreover have "sorted (map fst ?cs)" by simp
  moreover have "\<forall>(now, rs, samples) \<in> set ?cs. \<exists>b. readings ?k rs samples = [(b, 60)]" by (auto simp: r)
  ultimately show ?thesis
    using alert_iff_sustained [of ?cs "fst (run_cycles ?cs [])" "snd (run_cycles ?cs [])" ?k 60, OF _ _ _ refl]
    by (simp add: r streak_def del: run_cycles.simps)
qed

text \<open>
  Removing or disabling a rule leaves its alert standing.  Once an alert is active, cycles in
  which no rule of that name is evaluated neither clear it nor remove it from active_alerts, so it
  is listed as currently firing until the process ends.
\<close>

theorem removed_rule_stays_active:
  assumes "distinct (dkeys st)" and "(rule, device, inst) \<in> fst ` set (active_alerts st)"
    and "\<forall>(now, rs, samples) \<in> set cycles. \<forall>r \<in> set rs. t_name r \<noteq> rule \<or> \<not> t_enabled r"
    and "run_cycles cycles st = (events, st')"
  shows "(rule, device, inst) \<in> fst ` set (active_alerts st')"
proof -
  let ?k = "(rule, device, inst)"
  have n: "rule_readings ?k ss r = []" if "t_name r \<noteq> rule \<or> \<not> t_enabled r" for ss r
    using that by (auto simp: rule_readings_def sample_reading_def sample_key_def split: option.splits)
  have none: "readings ?k rs ss = []" if "(now, rs, ss) \<in> set cycles" for now rs ss
    using assms(3) that n by (fastforce simp: readings_def)
  have "fold (\<lambda>(now, rs, ss). fold (debounce now) (readings ?k rs ss)) cycles a = a" for a
    using none
  proof (induction cycles arbitrary: a)
    case (Cons c cs)
    obtain now rs ss where c: "c = (now, rs, ss)" by (cases c)
    have "readings ?k rs ss = []" by (rule Cons.prems [of now]) (simp add: c)
    moreover have "fold (\<lambda>(now, rs, ss). fold (debounce now) (readings ?k rs ss)) cs a = a"
      by (rule Cons.IH, rule Cons.prems, erule list.set_intros(2))
    ultimately show ?case by (simp add: c)
  qed simp
  then have "phase st' ?k = phase st ?k" using run_cycles_phase [OF assms(4)] by simp
  then have "alerted st' ?k = alerted st ?k"
    by (auto simp: alerted_def phase_def split: option.splits)
  then show ?thesis
    using active_iff_alerted [OF assms(1), of ?k] active_iff_alerted [OF run_cycles_distinct [OF assms(4,1)], of ?k] assms(2)
    by simp
qed

theorem removed_rule_stays_active_witness:
  "(''cpu high'', ''sw'', []) \<in> fst ` set (active_alerts (snd (run_cycles [(100, [], [sample_cpu 1])]
     [((''cpu high'', ''sw'', []), \<lparr>br_since = 0, br_alerted = True, br_value = Fin 95, br_severity = ''critical''\<rparr>)])))"
  by (rule removed_rule_stays_active [where cycles = "[(100, [], [sample_cpu 1])]"
      and st = "[((''cpu high'', ''sw'', []), \<lparr>br_since = 0, br_alerted = True, br_value = Fin 95, br_severity = ''critical''\<rparr>)]"
      and events = "[]"])
    (simp_all add: active_alerts_def)

text \<open>
  The rule store validates what it saves and restores it.  A save either refuses with a message
  and leaves the store alone, or files under the stripped name a rule with a known metric, operator
  and severity, the number given and a duration that is not negative, touching no other rule; when
  the write succeeds, reopening the file gives back exactly the rules in memory, in their order,
  and when it fails the file still holds the old ones.
\<close>

theorem save_rule_validates_and_persists:
  assumes "dict_ok rule_entry_ok (entries reg)"
    and "save_rule fail now name metric oper value duration severity incl excl en by reg = (res, reg')"
  shows "(\<exists>msg. res = Inr (False, msg) \<and> msg \<noteq> [] \<and> reg' = reg)
    \<or> (\<exists>r. get_rule (strip name) reg' = Some r \<and> valid_rule r \<and> num_of value = Some (t_value r) \<and> 0 \<le> t_duration r
         \<and> (\<forall>k. k \<noteq> strip name \<longrightarrow> get_rule k reg' = get_rule k reg) \<and> dict_ok rule_entry_ok (entries reg')
         \<and> (res = Inr (True, []) \<and> entries (open_rules (backing reg')) = entries reg'
            \<or> res = Inl OSError \<and> target (backing reg') = target (backing reg)))"
proof -
  from save_rule_cases [OF assms(2)]
  consider "\<exists>msg. res = Inr (False, msg) \<and> msg \<noteq> [] \<and> reg' = reg"
    | r where "rule_entry_ok (strip name) r" "num_of value = Some (t_value r)" "0 \<le> t_duration r"
        "commit fail reg (dset (strip name) r (entries reg)) (True, []) = (res, reg')"
    by metis
  then show ?thesis
  proof cases
    case 2
    let ?d = "dset (strip name) r (entries reg)"
    have d: "dict_ok rule_entry_ok ?d" by (rule dict_ok_dset [OF assms(1) 2(1)])
    note e = commitD [OF 2(4)]
    have "res = Inr (True, []) \<and> entries (open_rules (backing reg')) = entries reg'
        \<or> res = Inl OSError \<and> target (backing reg') = target (backing reg)"
      using commit_keeps [OF 2(4) d] e by blast
    then show ?thesis
      using 2 d by (intro disjI2 exI [of _ r]) (simp add: get_rule_def rule_entry_ok_def e)
  qed simp
qed

definition empty_rules :: "rule registry" where
  "empty_rules = open_rules \<lparr>target = Missing, target_mode = 0, temp = None\<rparr>"

definition some_time :: datetime where
  "some_time = \<lparr>year = 2026, month = 9, day = 16, hour = 9, minute = 0, second = 0, microsecond = 0\<rparr>"

theorem save_rule_validates_and_persists_witness:
  "get_rule ''r'' (snd (save_rule no_faults some_time '' r '' ''cpu'' ''>'' (JInt 90) (JInt (-5)) ''critical'' [] [] True [] empty_rules)) \<noteq> None"
proof -
  let ?c = "save_rule no_faults some_time '' r '' ''cpu'' ''>'' (JInt 90) (JInt (-5)) ''critical'' [] [] True [] empty_rules"
  have "dict_ok rule_entry_ok (entries empty_rules)"
    by (simp add: empty_rules_def open_rules_def registry_open_def load_entries_def)
  moreover have "fst ?c = Inr (True, [])"
    by (simp add: save_rule_def valid_metrics_def valid_operators_def valid_severity_def strip_def lstrip_def rstrip_def is_ws_def Let_def)
  moreover have "?c = (fst ?c, snd ?c)" by (rule prod.collapse [symmetric])
  ultimately show ?thesis
    using save_rule_validates_and_persists [of empty_rules no_faults some_time "'' r ''" "''cpu''" "''>''" "JInt 90" "JInt (-5)"
        "''critical''" "[]" "[]" True "[]" "fst ?c" "snd ?c"]
    by (auto simp: strip_def lstrip_def rstrip_def is_ws_def)
qed

text \<open>
  A rule whose value is not a number is accepted and never fires.  The text nan passes the
  check that the value is a number; the saved rule then raises no alert whatever is measured.
\<close>

theorem nan_rule_never_fires:
  assumes "save_rule fail now name metric oper (JStr ''nan'') duration severity incl excl en by reg = (Inr (True, msg), reg')"
  shows "\<exists>r. get_rule (strip name) reg' = Some r \<and> t_value r = NaN
    \<and> (\<forall>ts samples st e. e \<in> set (fst (eval_rule ts samples r st)) \<longrightarrow> ev_type e \<noteq> Fire)"
proof -
  from save_rule_cases [OF assms] obtain r where r: "num_of (JStr ''nan'') = Some (t_value r)"
    "commit fail reg (dset (strip name) r (entries reg)) (True, []) = (Inr (True, msg), reg')" by auto
  have v: "t_value r = NaN"
    using r(1) by (simp add: py_float_def Let_def strip_def lstrip_def rstrip_def is_ws_def lower_def lower_char_def)
  have "entries reg' = dset (strip name) r (entries reg)"
    using commitD [OF r(2)] by blast
  moreover have "\<not> oper v (t_value r)" if "op_of s = Some oper" for s oper v
    using that by (auto simp: v op_of_def split: if_splits)
  then have "\<forall>e \<in> set (fst (eval_sample ts r oper s st)). ev_type e \<noteq> Fire" if "op_of q = Some oper" for ts q oper s st
    using that by (auto simp: eval_sample_def split: option.splits)
  then have "\<forall>e \<in> set (fst (eval_samples ts r oper ss st)). ev_type e \<noteq> Fire" if "op_of q = Some oper" for ts q oper ss st
    using that eval_samples_events by metis
  then have "\<forall>e \<in> set (fst (eval_rule ts samples r st)). ev_type e \<noteq> Fire" for ts samples st
    by (auto simp: eval_rule_def split: option.splits)
  ultimately show ?thesis using v by (auto simp: get_rule_def)
qed

theorem nan_rule_never_fires_witness:
  "\<exists>r. get_rule (strip ''r'') (snd (save_rule no_faults some_time ''r'' ''cpu'' ''>'' (JStr ''nan'') (JInt 0) ''critical'' [] [] True [] empty_rules)) = Some r
    \<and> t_value r = NaN"
proof -
  let ?c = "save_rule no_faults some_time ''r'' ''cpu'' ''>'' (JStr ''nan'') (JInt 0) ''critical'' [] [] True [] empty_rules"
  have "fst ?c = Inr (True, [])"
    by (simp add: save_rule_def valid_metrics_def valid_operators_def valid_severity_def strip_def lstrip_def rstrip_def is_ws_def
        Let_def py_float_def lower_def lower_char_def)
  then have "?c = (Inr (True, []), snd ?c)" by (metis prod.collapse)
  from nan_rule_never_fires [OF this] show ?thesis by blast
qed

end
