(* ===== verification/Snmp_Walk.thy ===== *)
theory Snmp_Walk
  imports Detector
begin

text \<open>
  \<open>SnmpAgent.bulk_walk\<close> (\<open>aruba_agent/snmp.py\<close>): the paginated GETBULK walk of table columns.

  What pysnmp's \<open>bulkCmd\<close> returns to the \<open>k\<close>-th request is the parameter \<open>reply\<close>: an exception, or
  the items of the response, with the bindings as pairs of the numeric OID and the printed value.
  Which shape pysnmp gives the rows of a table is not modelled.
\<close>

datatype bulk_item = No_Item | Bad_Item | Err_Indication string | Err_Status string | Bindings "(string \<times> string) list"

type_synonym bulk_reply = "string + bulk_item list"
type_synonym column = "(string, string) dict"

record column_walk =
  wk_start :: string
  wk_seen :: nat
  wk_advanced :: bool
  wk_stop :: bool
  wk_column :: column
  wk_error :: "string \<times> string"

definition index_suffix :: "string \<Rightarrow> string \<Rightarrow> string" where
  "index_suffix base oid = (if oid \<noteq> base then drop (length base + 1) oid else [])"

definition numeric_pairs :: "(string \<times> string) list \<Rightarrow> (string \<times> string) list" where
  "numeric_pairs ps = filter (\<lambda>(oid, v). oid \<noteq> [] \<and> is_digit (hd oid)) ps"

text \<open>One binding: inside the column it is recorded, outside it ends the walk after this response.\<close>

fun take_pair :: "string \<Rightarrow> string \<times> string \<Rightarrow> column_walk \<Rightarrow> column_walk" where
  "take_pair base (oid, v) w = (if in_subtree oid base
     then w\<lparr>wk_column := dset (index_suffix base oid) v (wk_column w), wk_start := oid, wk_advanced := True,
       wk_seen := Suc (wk_seen w)\<rparr>
     else w\<lparr>wk_stop := True\<rparr>)"

fun take_items :: "string \<Rightarrow> bulk_item list \<Rightarrow> column_walk \<Rightarrow> column_walk" where
  "take_items base [] w = w"
| "take_items base (No_Item # items) w = take_items base items w"
| "take_items base (Bad_Item # items) w = take_items base items w"
| "take_items base (Err_Indication e # items) w = w\<lparr>wk_error := (''engine_error'', e), wk_stop := True\<rparr>"
| "take_items base (Err_Status e # items) w = w\<lparr>wk_error := (''pdu_error'', e), wk_stop := True\<rparr>"
| "take_items base (Bindings ps # items) w = (let w' = fold (take_pair base) (numeric_pairs ps) w in
     if wk_stop w' then w' else take_items base items w')"

lemma take_pairs_progress:
  "wk_seen w \<le> wk_seen (fold (take_pair base) ps w)"
  "wk_advanced (fold (take_pair base) ps w) \<Longrightarrow> wk_advanced w \<or> wk_seen w < wk_seen (fold (take_pair base) ps w)"
proof (induction ps arbitrary: w)
  case (Cons p ps)
  obtain oid v where p: "p = (oid, v)" by fastforce
  {
    case 1
    show ?case using Cons.IH(1) [of "take_pair base p w"] by (auto simp: p split: if_splits)
  next
    case 2
    then show ?case using Cons.IH [of "take_pair base p w"] by (auto simp: p split: if_splits)
  }
qed simp_all

lemma take_items_progress:
  "wk_seen w \<le> wk_seen (take_items base items w)"
  "wk_advanced (take_items base items w) \<Longrightarrow> wk_advanced w \<or> wk_seen w < wk_seen (take_items base items w)"
proof (induction base items w rule: take_items.induct)
  case (6 base ps items w)
  note p = take_pairs_progress [where w = w and base = base and ps = "numeric_pairs ps"]
  {
    case 1
    show ?case using p "6.IH"(1) [OF refl] by (auto simp: Let_def intro: order_trans)
  next
    case 2
    then show ?case using p "6.IH" [OF refl] by (auto simp: Let_def split: if_splits)
  }
qed simp_all

text \<open>
  The pages of one column, from the \<open>k\<close>-th request on: the number of requests sent and the text of
  an exception or the walk.  Every page that continues the walk counts rows, which the limit bounds.
\<close>

function walk_from ::
    "(nat \<Rightarrow> string \<Rightarrow> bulk_reply) \<Rightarrow> string \<Rightarrow> nat \<Rightarrow> nat \<Rightarrow> column_walk \<Rightarrow> nat \<times> (string + column_walk)" where
  "walk_from reply base max_rows k w = (if max_rows \<le> wk_seen w then (k, Inr w)
     else case reply k (wk_start w) of
       Inl e \<Rightarrow> (Suc k, Inl e)
     | Inr items \<Rightarrow> (let w' = take_items base items (w\<lparr>wk_advanced := False, wk_stop := False\<rparr>) in
         if wk_stop w' \<or> \<not> wk_advanced w' then (Suc k, Inr w')
         else walk_from reply base max_rows (Suc k) w'))"
  by pat_completeness auto
termination
proof (relation "measure (\<lambda>(reply, base, max_rows, k, w). max_rows - wk_seen w)")
  fix reply :: "nat \<Rightarrow> string \<Rightarrow> bulk_reply" and base and max_rows :: nat and k w items w'
  assume a: "\<not> max_rows \<le> wk_seen w" "w' = take_items base items (w\<lparr>wk_advanced := False, wk_stop := False\<rparr>)"
    "\<not> (wk_stop w' \<or> \<not> wk_advanced w')"
  then have "wk_seen w < wk_seen w'" using take_items_progress(2) [where base = base and items = items and w = "w\<lparr>wk_advanced := False, wk_stop := False\<rparr>"] by simp
  then show "((reply, base, max_rows, Suc k, w'), reply, base, max_rows, k, w)
      \<in> measure (\<lambda>(reply, base, max_rows, k, w). max_rows - wk_seen w)" using a(1) by simp
qed simp

declare walk_from.simps [simp del]

fun walk_bases ::
    "(nat \<Rightarrow> string \<Rightarrow> bulk_reply) \<Rightarrow> nat \<Rightarrow> nat \<Rightarrow> string list \<Rightarrow> (string, column) dict \<Rightarrow> string \<times> string
      \<Rightarrow> nat \<times> (string, column) dict option \<times> (string \<times> string)" where
  "walk_bases reply max_rows k [] results err = (k, Some results, err)"
| "walk_bases reply max_rows k (b # bs) results err =
     (case walk_from reply b max_rows k \<lparr>wk_start = b, wk_seen = 0, wk_advanced = False, wk_stop = False,
         wk_column = (case dget results b of None \<Rightarrow> [] | Some c \<Rightarrow> c), wk_error = err\<rparr> of
        (k', Inl e) \<Rightarrow> (k', None, (''engine_error'', e))
      | (k', Inr w) \<Rightarrow> walk_bases reply max_rows k' bs (dset b (wk_column w) results) (wk_error w))"

text \<open>
  \<open>bulk_walk\<close>: the columns or \<open>None\<close>, with \<open>last_error\<close> and \<open>last_detail\<close>.  \<open>missing\<close> is the text
  of an import error of pysnmp, \<open>bad_hex\<close> what pysnmp says to an engine id.
\<close>

definition bulk_walk ::
    "string option \<Rightarrow> (string \<Rightarrow> string option) \<Rightarrow> (snmp_profile \<Rightarrow> string \<Rightarrow> nat \<Rightarrow> string \<Rightarrow> bulk_reply) \<Rightarrow> nat
      \<Rightarrow> registry_of_profiles \<Rightarrow> string \<Rightarrow> string list \<Rightarrow> string \<Rightarrow> (string, column) dict option \<times> (string \<times> string)" where
  "bulk_walk missing bad_hex reply max_rows r host bases profile_name =
     (if bases = [] then (Some [], [], [])
      else case (if profile_name \<noteq> [] then dget (r_profiles r) profile_name else dget (r_profiles r) (r_default r)) of
        None \<Rightarrow> (None, ''no_profile'', [])
      | Some p \<Rightarrow> (case missing of Some e \<Rightarrow> (None, ''pysnmp_unavailable'', e)
        | None \<Rightarrow> let eng = strip (filter (\<lambda>c. c \<noteq> CHR '':'') (c_context_engine_id (p_creds p))) in
            (case (if c_context_engine_id (p_creds p) = [] then None else bad_hex eng) of
               Some e \<Rightarrow> (None, ''bad_context_engine_id'', e)
             | None \<Rightarrow> snd (walk_bases (reply p host) max_rows 0 bases (map (\<lambda>b. (b, [])) (dedupe bases)) ([], [])))))"

subsection \<open>The walk ends\<close>

lemma walk_from_requests: "fst (walk_from reply base max_rows k w) \<le> k + (max_rows - wk_seen w)"
proof (induction reply base max_rows k w rule: walk_from.induct)
  case (1 reply base max_rows k w)
  show ?case
  proof (cases "max_rows \<le> wk_seen w")
    case False
    show ?thesis
    proof (cases "reply k (wk_start w)")
      case (Inr items)
      let ?w = "take_items base items (w\<lparr>wk_advanced := False, wk_stop := False\<rparr>)"
      have p: "wk_advanced ?w \<Longrightarrow> wk_seen w < wk_seen ?w"
        using take_items_progress(2) [where base = base and items = items and w = "w\<lparr>wk_advanced := False, wk_stop := False\<rparr>"] by simp
      show ?thesis
      proof (cases "wk_stop ?w \<or> \<not> wk_advanced ?w")
        case True
        then show ?thesis using False Inr by (subst walk_from.simps) (simp add: Let_def)
      next
        case go: False
        then have "fst (walk_from reply base max_rows (Suc k) ?w) \<le> Suc k + (max_rows - wk_seen ?w)"
          using 1 False Inr by simp
        then show ?thesis using go False Inr p by (subst walk_from.simps) (simp add: Let_def)
      qed
    qed (use False in \<open>simp add: walk_from.simps\<close>)
  qed (simp add: walk_from.simps)
qed

lemma walk_bases_requests: "fst (walk_bases reply max_rows k bases results err) \<le> k + max_rows * length bases"
proof (induction bases arbitrary: k results err)
  case (Cons b bs)
  let ?w = "\<lparr>wk_start = b, wk_seen = 0, wk_advanced = False, wk_stop = False,
         wk_column = (case dget results b of None \<Rightarrow> [] | Some c \<Rightarrow> c), wk_error = err\<rparr>"
  obtain k' r where w: "walk_from reply b max_rows k ?w = (k', r)" by fastforce
  have "k' \<le> k + max_rows" using walk_from_requests [of reply b max_rows k ?w] by (simp add: w)
  have "fst (walk_bases reply max_rows k' bs (dset b (wk_column x) results) (wk_error x)) \<le> k' + max_rows * length bs" for x
    by (rule Cons.IH)
  then have "fst (walk_bases reply max_rows k' bs (dset b (wk_column x) results) (wk_error x)) \<le> k + (max_rows + max_rows * length bs)" for x
    using \<open>k' \<le> k + max_rows\<close> unfolding add.assoc [symmetric] by (meson add_le_mono1 le_trans)
  then show ?case using \<open>k' \<le> k + max_rows\<close> by (cases r) (auto simp: w trans_le_add1)
qed simp

lemma walk_bases_keys:
  "walk_bases reply max_rows k bases results err = (n, Some cols, err') \<Longrightarrow> b \<in> set bases \<or> has_key results b \<Longrightarrow> has_key cols b"
proof (induction bases arbitrary: k results err)
  case (Cons b' bs)
  obtain k' r where w: "walk_from reply b' max_rows k \<lparr>wk_start = b', wk_seen = 0, wk_advanced = False, wk_stop = False,
         wk_column = (case dget results b' of None \<Rightarrow> [] | Some c \<Rightarrow> c), wk_error = err\<rparr> = (k', r)" by fastforce
  then obtain x where r: "r = Inr x" using Cons.prems(1) by (cases r) auto
  show ?case using Cons.IH [of k' "dset b' (wk_column x) results" "wk_error x"] Cons.prems by (auto simp: w r)
qed simp

text \<open>
  C18: Whatever the device answers, pages that repeat, go backwards or never end included, the walk of
  a list of columns returns after at most the row limit of requests per column, and unless an
  exception ended it there is a column, possibly empty, for every OID asked for.
\<close>

theorem walk_always_ends:
  "case walk_bases reply max_rows 0 bases results err of (requests, cols, err') \<Rightarrow>
     requests \<le> max_rows * length bases
     \<and> (cols = None \<or> (\<forall>b \<in> set bases. has_key (the cols) b))"
proof -
  obtain n cols err' where w: "walk_bases reply max_rows 0 bases results err = (n, cols, err')" by (metis prod_cases3)
  then show ?thesis
    using walk_bases_requests [of reply max_rows 0 bases results err] walk_bases_keys [of reply max_rows 0 bases results err n _ err']
    by (cases cols) auto
qed

subsection \<open>The walk is complete\<close>

text \<open>
  A device that serves a table as RFC 3416 has it: a request for a name is answered by the next
  entries of its view, the rows of the column first, in pages of up to \<open>reps\<close> entries; after the last entry of
  the view come bindings of its name, or of the name asked for if there is none, to \<open>endOfMibView\<close>,
  whose text is \<open>mark\<close>.
\<close>

definition position :: "string \<Rightarrow> (string \<times> string) list \<Rightarrow> string" where
  "position base es = (if es = [] then base else fst (last es))"

definition serves ::
    "(nat \<Rightarrow> string \<Rightarrow> bulk_reply) \<Rightarrow> nat \<Rightarrow> (nat \<Rightarrow> string \<Rightarrow> nat) \<Rightarrow> string \<Rightarrow> string \<Rightarrow> (string \<times> string) list \<Rightarrow> (string \<times> string) list \<Rightarrow> bool" where
  "serves reply reps paging mark base rows rest \<longleftrightarrow> base \<noteq> [] \<and> is_digit (hd base) \<and> distinct (dkeys rows)
     \<and> (\<forall>(oid, v) \<in> set (rows @ rest). oid \<noteq> [] \<and> is_digit (hd oid))
     \<and> (\<forall>(oid, v) \<in> set rows. startswith oid (base @ ''.'')) \<and> (\<forall>(oid, v) \<in> set rest. \<not> in_subtree oid base)
     \<and> (\<forall>k oid. 0 < paging k oid \<and> paging k oid \<le> reps)
     \<and> (\<forall>k pre post. rows = pre @ post \<longrightarrow> reply k (position base pre) = Inr [Bindings (take (paging k (position base pre))
          (post @ rest @ replicate (paging k (position base pre)) (position base (rows @ rest), mark)))])"

definition table_of :: "string \<Rightarrow> (string \<times> string) list \<Rightarrow> column" where
  "table_of base rows = map (\<lambda>(oid, v). (index_suffix base oid, v)) rows"

lemma subtree_suffix:
  assumes "startswith oid (base @ ''.'')"
  shows "in_subtree oid base" "oid = base @ ''.'' @ index_suffix base oid"
proof -
  obtain s where "oid = base @ ''.'' @ s"
    using assms by (metis append.assoc append_take_drop_id startswith_def)
  then show "in_subtree oid base" "oid = base @ ''.'' @ index_suffix base oid"
    using assms by (auto simp: in_subtree_def index_suffix_def)
qed

lemma numeric_all: "\<forall>(oid, v) \<in> set ps. oid \<noteq> [] \<and> is_digit (hd oid) \<Longrightarrow> numeric_pairs ps = ps"
  by (auto simp: numeric_pairs_def intro!: filter_True)

lemma take_rows:
  assumes "\<forall>(oid, v) \<in> set ps. startswith oid (base @ ''.'')" "distinct (dkeys (done @ ps))"
    and "\<forall>(oid, v) \<in> set done. startswith oid (base @ ''.'')" "wk_column w = table_of base done"
  shows "fold (take_pair base) ps w = w\<lparr>wk_column := table_of base (done @ ps), wk_seen := wk_seen w + length ps,
      wk_advanced := (wk_advanced w \<or> ps \<noteq> []), wk_start := (if ps = [] then wk_start w else fst (last ps))\<rparr>"
  using assms
proof (induction ps arbitrary: w "done")
  case (Cons p ps)
  obtain oid v where p: "p = (oid, v)" by fastforce
  have s: "startswith oid (base @ ''.'')" using Cons.prems(1) p by simp
  have "index_suffix base oid \<notin> set (dkeys (table_of base done))"
  proof
    assume "index_suffix base oid \<in> set (dkeys (table_of base done))"
    then obtain o' v' where "(o', v') \<in> set done" "index_suffix base oid = index_suffix base o'"
      by (auto simp: table_of_def)
    then have "oid = o'" "o' \<in> set (dkeys done)"
      using subtree_suffix(2) [OF s] subtree_suffix(2) [of o' base] Cons.prems(3) by force+
    then show False using Cons.prems(2) p by auto
  qed
  then have "dset (index_suffix base oid) v (table_of base done) = table_of base (done @ [p])"
    by (simp add: dset_fresh table_of_def p)
  then have "take_pair base p w = w\<lparr>wk_column := table_of base (done @ [p]), wk_start := oid, wk_advanced := True, wk_seen := Suc (wk_seen w)\<rparr>"
    using subtree_suffix(1) [OF s] Cons.prems(4) by (simp add: p)
  then show ?case using Cons.IH [of "done @ [p]" "take_pair base p w"] Cons.prems(1-3) p by auto
qed simp

lemma take_outside:
  "\<forall>(oid, v) \<in> set ps. \<not> in_subtree oid base \<Longrightarrow> fold (take_pair base) ps w = w\<lparr>wk_stop := (wk_stop w \<or> ps \<noteq> [])\<rparr>"
  by (induction ps arbitrary: w) auto

lemma table_append: "table_of base (xs @ ys) = table_of base xs @ table_of base ys"
  by (simp add: table_of_def)

lemma dset_same_value: "dset k v (dset k v c) = dset k v c"
  by (induction c) auto

lemma dset_at_end: "k \<notin> set (dkeys c) \<Longrightarrow> dset k v (c @ [(k, x)]) = c @ [(k, v)]"
  by (induction c) auto

text \<open>The state after the rows \<open>done\<close> of the column, and one more page.\<close>

definition walked :: "string \<Rightarrow> (string \<times> string) list \<Rightarrow> column_walk \<Rightarrow> bool" where
  "walked base done w \<longleftrightarrow> wk_column w = table_of base done \<and> wk_seen w = length done \<and> wk_start w = position base done"

abbreviation fresh :: "column_walk \<Rightarrow> column_walk" where
  "fresh w \<equiv> w\<lparr>wk_advanced := False, wk_stop := False\<rparr>"

lemma one_page:
  assumes "serves reply reps paging mark base (done @ todo) rest" "walked base done w"
  obtains n where "0 < n" "n = paging k (wk_start w)"
    "reply k (wk_start w) = Inr [Bindings (take n (todo @ rest @ replicate n (position base (done @ todo @ rest), mark)))]"
  using assms by (simp add: serves_def walked_def)

lemma rows_of_page:
  assumes "serves reply reps paging mark base (done @ todo) rest" "walked base done w"
  shows "fold (take_pair base) (take n todo) (fresh w) = (fresh w)\<lparr>wk_column := table_of base (done @ take n todo),
      wk_seen := wk_seen w + length (take n todo), wk_advanced := (take n todo \<noteq> []), wk_start := position base (done @ take n todo)\<rparr>"
proof -
  have s: "distinct (dkeys (done @ todo))" "\<forall>(oid, v) \<in> set (done @ todo). startswith oid (base @ ''.'')"
    using assms(1) by (auto simp: serves_def)
  have d: "distinct (dkeys (done @ take n todo))" using distinct_take [OF s(1), of "length done + n"] by (simp add: take_map)
  have "\<forall>(oid, v) \<in> set (take n todo). startswith oid (base @ ''.'')" "\<forall>(oid, v) \<in> set done. startswith oid (base @ ''.'')"
    using s(2) by (auto dest: in_set_takeD)
  from take_rows [OF this(1) d this(2), of "fresh w"] assms(2) show ?thesis
    by (auto simp: walked_def position_def)
qed

lemma numeric_page:
  assumes "serves reply reps paging mark base (done @ todo) rest"
  shows "numeric_pairs (take n (todo @ rest @ replicate m (position base (done @ todo @ rest), mark))) =
    take n (todo @ rest @ replicate m (position base (done @ todo @ rest), mark))"
proof (rule numeric_all)
  have s: "base \<noteq> []" "is_digit (hd base)" "\<forall>(oid, v) \<in> set (done @ todo @ rest). oid \<noteq> [] \<and> is_digit (hd oid)"
    using assms by (auto simp: serves_def)
  have e: "position base (done @ todo @ rest) \<noteq> [] \<and> is_digit (hd (position base (done @ todo @ rest)))"
  proof (cases "done @ todo @ rest = []")
    case False
    then have "last (done @ todo @ rest) \<in> set (done @ todo @ rest)" by (rule last_in_set)
    then have "case last (done @ todo @ rest) of (oid, v) \<Rightarrow> oid \<noteq> [] \<and> is_digit (hd oid)" by (rule bspec [OF s(3)])
    then show ?thesis unfolding position_def if_not_P [OF False] case_prod_unfold .
  next
    case True
    then show ?thesis using s(1,2) unfolding position_def if_P [OF True] by blast
  qed
  show "\<forall>(oid, v) \<in> set (take n (todo @ rest @ replicate m (position base (done @ todo @ rest), mark))). oid \<noteq> [] \<and> is_digit (hd oid)"
  proof
    fix b assume b: "b \<in> set (take n (todo @ rest @ replicate m (position base (done @ todo @ rest), mark)))"
    have "b \<in> set (done @ todo @ rest) \<or> b = (position base (done @ todo @ rest), mark)" using in_set_takeD [OF b] by auto
    then show "case b of (oid, v) \<Rightarrow> oid \<noteq> [] \<and> is_digit (hd oid)"
    proof
      assume "b \<in> set (done @ todo @ rest)"
      then show ?thesis by (rule bspec [OF s(3)])
    next
      assume "b = (position base (done @ todo @ rest), mark)"
      then show ?thesis using e by (simp only: prod.case simp_thms)
    qed
  qed
qed

text \<open>When something follows the column in the view, the page that passes its end stops the walk.\<close>

lemma next_page:
  assumes "serves reply reps paging mark base (done @ todo) rest" "walked base done w" "rest \<noteq> []" "0 < n"
  defines "w' \<equiv> take_items base [Bindings (take n (todo @ rest @ replicate n (position base (done @ todo @ rest), mark)))] (fresh w)"
  shows "walked base (done @ take n todo) w'" "wk_advanced w' \<longleftrightarrow> todo \<noteq> []" "wk_stop w' \<longleftrightarrow> length todo < n" "wk_error w' = wk_error w"
proof -
  let ?rest = "rest @ replicate n (position base (done @ todo @ rest), mark)"
  let ?in = "take n todo" and ?out = "take (n - length todo) ?rest"
  let ?w1 = "fold (take_pair base) ?in (fresh w)"
  note w1 = rows_of_page [OF assms(1,2), of n]
  have "position base (done @ todo @ rest) = fst (last rest)" using assms(3) by (simp add: position_def)
  moreover have "last rest \<in> set rest" using assms(3) by simp
  moreover have out: "\<forall>(oid, v) \<in> set rest. \<not> in_subtree oid base" using assms(1) by (auto simp: serves_def)
  ultimately have "\<forall>(oid, v) \<in> set ?rest. \<not> in_subtree oid base" by (auto split: if_splits)
  then have "\<forall>(oid, v) \<in> set ?out. \<not> in_subtree oid base" by (meson in_set_takeD)
  note o = take_outside [OF this, of ?w1]
  have "w' = fold (take_pair base) ?out ?w1"
    unfolding w'_def take_items.simps numeric_page [OF assms(1)] by (simp add: Let_def)
  also have "\<dots> = ?w1\<lparr>wk_stop := (?out \<noteq> [])\<rparr>" unfolding o by (simp add: w1)
  finally have "w' = ?w1\<lparr>wk_stop := (?out \<noteq> [])\<rparr>" .
  then show "walked base (done @ ?in) w'" "wk_advanced w' \<longleftrightarrow> todo \<noteq> []" "wk_stop w' \<longleftrightarrow> length todo < n" "wk_error w' = wk_error w"
    using assms(2-4) by (auto simp: w1 walked_def)
qed

lemma walk_from_complete:
  assumes "serves reply reps paging mark base (done @ todo) rest" "walked base done w" "length (done @ todo) \<le> max_rows" "rest \<noteq> []"
  shows "\<exists>k' w'. walk_from reply base max_rows k w = (k', Inr w') \<and> wk_column w' = table_of base (done @ todo)
    \<and> wk_error w' = wk_error w"
  using assms(1-3)
proof (induction "length todo" arbitrary: "done" todo k w rule: less_induct)
  case less
  show ?case
  proof (cases "max_rows \<le> wk_seen w")
    case True
    moreover have "wk_seen w = length done" using less.prems(2) by (simp add: walked_def)
    ultimately have "todo = []" using less.prems(3) by (cases todo) simp_all
    then show ?thesis using True less.prems(2) by (auto simp: walk_from.simps walked_def)
  next
    case False
    obtain n where n: "0 < n" and r: "reply k (wk_start w) =
        Inr [Bindings (take n (todo @ rest @ replicate n (position base (done @ todo @ rest), mark)))]"
      using one_page [OF less.prems(1,2)] by metis
    let ?w = "take_items base [Bindings (take n (todo @ rest @ replicate n (position base (done @ todo @ rest), mark)))] (fresh w)"
    note p = next_page [OF less.prems(1,2) assms(4) n]
    show ?thesis
    proof (cases "wk_stop ?w \<or> \<not> wk_advanced ?w")
      case True
      then have "take n todo = todo" using p(2,3) by auto
      then have "wk_column ?w = table_of base (done @ todo)" using p(1) by (simp add: walked_def)
      moreover have "walk_from reply base max_rows k w = (Suc k, Inr ?w)"
        using False True by (subst walk_from.simps) (simp add: r Let_def del: take_items.simps)
      ultimately show ?thesis using p(4) by blast
    next
      case go: False
      then have todo: "todo \<noteq> []" using p(2) by blast
      have "walk_from reply base max_rows k w = walk_from reply base max_rows (Suc k) ?w"
        using False go by (subst walk_from.simps) (simp add: r Let_def del: take_items.simps)
      moreover have "\<exists>k' w'. walk_from reply base max_rows (Suc k) ?w = (k', Inr w')
          \<and> wk_column w' = table_of base ((done @ take n todo) @ drop n todo) \<and> wk_error w' = wk_error ?w"
        using less.hyps [OF _ _ p(1), of "drop n todo"] less.prems(1,3) todo n by simp
      ultimately show ?thesis using p(4) by simp
    qed
  qed
qed

text \<open>
  When the column is the last of the view, the marks carry the name of its last row and count as rows:
  the walk goes on until the limit, and the last value is the text of a mark.
\<close>

definition last_marked :: "string \<Rightarrow> string \<Rightarrow> (string \<times> string) list \<Rightarrow> (string \<times> string) list" where
  "last_marked base mark rows = (if rows = [] then [(base, mark)] else butlast rows @ [(fst (last rows), mark)])"

lemma marks_fold:
  "in_subtree e base \<Longrightarrow> fold (take_pair base) (replicate m (e, mark)) w = (if m = 0 then w
     else w\<lparr>wk_column := dset (index_suffix base e) mark (wk_column w), wk_start := e, wk_advanced := True, wk_seen := wk_seen w + m\<rparr>)"
proof (induction m arbitrary: w)
  case (Suc m)
  have "dset (index_suffix base e) mark (dset (index_suffix base e) mark c) = dset (index_suffix base e) mark c" for c :: column
    by (simp add: dset_same_value)
  then show ?case using Suc by simp
qed simp

lemma serves_end:
  assumes "serves reply reps paging mark base rows []"
  shows "in_subtree (position base rows) base"
    and "dset (index_suffix base (position base rows)) mark (table_of base rows) = table_of base (last_marked base mark rows)"
proof -
  have s: "\<forall>(oid, v) \<in> set rows. startswith oid (base @ ''.'')" "distinct (dkeys rows)" using assms by (auto simp: serves_def)
  show "in_subtree (position base rows) base"
  proof (cases rows rule: rev_cases)
    case (snoc ys y)
    then show ?thesis using subtree_suffix(1) [of "fst y" base] s(1) by (auto simp: position_def)
  qed (simp add: position_def in_subtree_def)
  show "dset (index_suffix base (position base rows)) mark (table_of base rows) = table_of base (last_marked base mark rows)"
  proof (cases rows rule: rev_cases)
    case (snoc ys y)
    have "index_suffix base (fst y) \<notin> set (dkeys (table_of base ys))"
    proof
      assume "index_suffix base (fst y) \<in> set (dkeys (table_of base ys))"
      then obtain o' v' where o': "(o', v') \<in> set ys" "index_suffix base (fst y) = index_suffix base o'" by (auto simp: table_of_def)
      then have "fst y = o'" using subtree_suffix(2) [of "fst y" base] subtree_suffix(2) [of o' base] s(1) by (cases y) (force simp: snoc)
      moreover have "distinct (dkeys (ys @ [y]))" using s(2) snoc by simp
      moreover have "o' \<in> set (dkeys ys)" using o'(1) by force
      ultimately show False by simp
    qed
    from dset_at_end [OF this] show ?thesis
      by (cases y) (simp add: snoc last_marked_def position_def table_of_def)
  qed (simp add: last_marked_def position_def table_of_def)
qed

lemma walk_marks:
  assumes s: "serves reply reps paging mark base rows []"
    and w: "wk_start w = position base rows" "wk_column w = table_of base (last_marked base mark rows)"
  shows "\<exists>k' w'. walk_from reply base max_rows k w = (k', Inr w') \<and> wk_column w' = table_of base (last_marked base mark rows) \<and>
    wk_error w' = wk_error w \<and> max_rows + reps * k \<le> wk_seen w + reps * k'"
  using w
proof (induction "max_rows - wk_seen w" arbitrary: k w rule: less_induct)
  case less
  show ?case
  proof (cases "max_rows \<le> wk_seen w")
    case True
    then show ?thesis using less.prems by (auto simp: walk_from.simps)
  next
    case False
    let ?e = "position base rows"
    define n where "n = paging k ?e"
    have n: "0 < n" "n \<le> reps" using s by (simp_all add: n_def serves_def)
    have "reply k ?e = Inr [Bindings (replicate n (?e, mark))]" using s unfolding serves_def n_def by (metis append_Nil append_Nil2 take_all_iff length_replicate le_refl)
    moreover have "numeric_pairs (replicate n (?e, mark)) = replicate n (?e, mark)"
      using numeric_page [of reply reps paging mark base rows "[]" "[]" n n] s by simp
    moreover have "dset (index_suffix base ?e) mark (table_of base (last_marked base mark rows)) = table_of base (last_marked base mark rows)"
      using serves_end(2) [OF s] by (metis dset_same_value)
    ultimately have go: "walk_from reply base max_rows k w = walk_from reply base max_rows (Suc k)
        ((fresh w)\<lparr>wk_column := table_of base (last_marked base mark rows), wk_start := ?e, wk_advanced := True, wk_seen := wk_seen w + n\<rparr>)"
      using False less.prems n by (subst walk_from.simps) (simp add: marks_fold [OF serves_end(1) [OF s]] Let_def del: fold_replicate)
    have lt: "max_rows - (wk_seen w + n) < max_rows - wk_seen w" using False n(1) by linarith
    obtain k' w' where "walk_from reply base max_rows (Suc k) ((fresh w)\<lparr>wk_column := table_of base (last_marked base mark rows), wk_start := ?e, wk_advanced := True, wk_seen := wk_seen w + n\<rparr>) = (k', Inr w')"
      "wk_column w' = table_of base (last_marked base mark rows)" "wk_error w' = wk_error w" "max_rows + reps * Suc k \<le> wk_seen w + n + reps * k'"
      using less.hyps [of "(fresh w)\<lparr>wk_column := table_of base (last_marked base mark rows), wk_start := ?e, wk_advanced := True, wk_seen := wk_seen w + n\<rparr>" "Suc k"] less.prems lt by auto
    then show ?thesis using go n(2) by auto
  qed
qed

lemma walk_from_end:
  assumes s: "serves reply reps paging mark base (done @ todo) []"
    and w: "walked base done w" and few: "length (done @ todo) < max_rows"
  shows "\<exists>k' w'. walk_from reply base max_rows k w = (k', Inr w') \<and> wk_column w' = table_of base (last_marked base mark (done @ todo)) \<and>
    wk_error w' = wk_error w \<and> max_rows + reps * k \<le> wk_seen w + reps * k'"
  using s w few
proof (induction "length todo" arbitrary: "done" todo k w rule: less_induct)
  case less
  let ?e = "position base (done @ todo)"
  have lim: "\<not> max_rows \<le> wk_seen w" using less.prems(2,3) by (simp add: walked_def)
  obtain n where n: "0 < n" "n = paging k (wk_start w)" and r: "reply k (wk_start w) = Inr [Bindings (take n (todo @ replicate n (?e, mark)))]"
    using one_page [OF less.prems(1,2), of k] by auto
  have nN: "n \<le> reps" using n(2) less.prems(1) by (simp add: serves_def)
  define pg where "pg = take n (todo @ replicate n (?e, mark))"
  note r = r [folded pg_def]
  have num: "numeric_pairs pg = pg" using numeric_page [OF less.prems(1), of n n] by (simp add: pg_def)
  have page: "pg = take n todo @ replicate (n - length todo) (?e, mark)" by (simp add: pg_def)
  note rows = rows_of_page [OF less.prems(1,2), of n]
  let ?w1 = "fold (take_pair base) (take n todo) (fresh w)"
  show ?case
  proof (cases "length todo < n")
    case True
    let ?w = "(fresh w)\<lparr>wk_column := table_of base (last_marked base mark (done @ todo)), wk_seen := wk_seen w + n, wk_advanced := True, wk_start := ?e\<rparr>"
    have "fold (take_pair base) pg (fresh w) = ?w"
      using True rows serves_end [OF less.prems(1)] unfolding page by (simp add: marks_fold del: fold_replicate)
    then have go: "walk_from reply base max_rows k w = walk_from reply base max_rows (Suc k) ?w"
      using lim by (subst walk_from.simps) (simp add: r num Let_def)
    obtain k' w' where "walk_from reply base max_rows (Suc k) ?w = (k', Inr w')" "wk_column w' = table_of base (last_marked base mark (done @ todo))"
      "wk_error w' = wk_error w" "max_rows + reps * Suc k \<le> wk_seen w + n + reps * k'"
      using walk_marks [OF less.prems(1), of ?w max_rows "Suc k"] by auto
    then show ?thesis using go nN by auto
  next
    case False
    then have todo: "todo \<noteq> []" using n by auto
    let ?w = "(fresh w)\<lparr>wk_column := table_of base (done @ take n todo), wk_seen := wk_seen w + n, wk_advanced := True, wk_start := position base (done @ take n todo)\<rparr>"
    have "fold (take_pair base) pg (fresh w) = ?w" using False rows todo n unfolding page by simp
    then have go: "walk_from reply base max_rows k w = walk_from reply base max_rows (Suc k) ?w"
      using lim by (subst walk_from.simps) (simp add: r num Let_def)
    have "walked base (done @ take n todo) ?w" using less.prems(2) False by (simp add: walked_def)
    from less.hyps [OF _ _ this, of "drop n todo" "Suc k"] obtain k' w' where "walk_from reply base max_rows (Suc k) ?w = (k', Inr w')"
      "wk_column w' = table_of base (last_marked base mark (done @ todo))" "wk_error w' = wk_error w" "max_rows + reps * Suc k \<le> wk_seen w + n + reps * k'"
      using less.prems(1,3) todo n by auto
    then show ?thesis using go nN by auto
  qed
qed

text \<open>
  C17: From a device that answers as RFC 3416 has it, in pages of any sizes, the walk of a column with
  fewer rows than the limit ends without an error.  If something follows the column in the view of the
  device, it reads every row of the column and nothing else.  If nothing follows, the marks of the end
  of the view are taken for rows: the walk asks on until the limit is reached, and the last value of
  the column is replaced by the text of the mark (an empty column gets a row of it).
\<close>

theorem walk_reads_whole_column:
  assumes "serves reply reps paging mark base rows rest" and "length rows < max_rows"
  shows "\<exists>requests. walk_bases reply max_rows 0 [base] [(base, [])] err =
      (requests, Some [(base, table_of base (if rest \<noteq> [] then rows else if rows = [] then [(base, mark)]
         else butlast rows @ [(fst (last rows), mark)]))], err) \<and>
    (rest = [] \<longrightarrow> max_rows \<le> reps * requests)"
proof -
  let ?w = "\<lparr>wk_start = base, wk_seen = 0, wk_advanced = False, wk_stop = False, wk_column = [], wk_error = err\<rparr>"
  have w: "walked base [] ?w" by (simp add: walked_def table_of_def position_def)
  show ?thesis
  proof (cases "rest = []")
    case False
    obtain k' w' where "walk_from reply base max_rows 0 ?w = (k', Inr w')" "wk_column w' = table_of base rows" "wk_error w' = err"
      using walk_from_complete [OF _ w _ False, of reply reps paging mark rows max_rows 0] assms by auto
    then show ?thesis using False by simp
  next
    case True
    have s: "serves reply reps paging mark base ([] @ rows) []" "length ([] @ rows) < max_rows" using assms True by simp_all
    obtain k' w' where "walk_from reply base max_rows 0 ?w = (k', Inr w')" "wk_column w' = table_of base (last_marked base mark rows)"
      "wk_error w' = err" "max_rows \<le> reps * k'"
      using walk_from_end [OF s(1) w s(2), of 0] by auto
    then show ?thesis using True by (simp add: last_marked_def)
  qed
qed

definition sample_reply :: "nat \<Rightarrow> string \<Rightarrow> bulk_reply" where
  "sample_reply k oid = Inr [Bindings (if oid = ''1.3'' then [(''1.3.1'', ''up'')]
     else if oid = ''1.3.1'' then [(''1.3.2'', ''down'')] else [(''1.4.1'', ''x'')])]"

theorem walk_always_ends_witness:
  "fst (walk_bases sample_reply 5 0 [''1.3'', ''9.9''] [] ([], [])) \<le> 10"
  using walk_always_ends [where reply = sample_reply and max_rows = 5 and bases = "[''1.3'', ''9.9'']" and results = "[]" and err = "([], [])"]
  by (simp add: case_prod_unfold)

definition sample_end :: "nat \<Rightarrow> string \<Rightarrow> bulk_reply" where
  "sample_end k oid = Inr [Bindings [(if oid = ''1.3'' then (''1.3.1'', ''up'') else if oid = ''1.3.1'' then (''1.3.2'', ''down'') else (''1.3.2'', ''end''))]]"

theorem walk_reads_whole_column_witness:
  "(\<exists>requests. walk_bases sample_reply 8192 0 [''1.3''] [(''1.3'', [])] ([], [])
     = (requests, Some [(''1.3'', [(''1'', ''up''), (''2'', ''down'')])], ([], []))) \<and>
   (\<exists>requests \<ge> 8192. walk_bases sample_end 8192 0 [''1.3''] [(''1.3'', [])] ([], [])
     = (requests, Some [(''1.3'', [(''1'', ''up''), (''2'', ''end'')])], ([], [])))"
proof
  let ?rows = "[(''1.3.1'', ''up''), (''1.3.2'', ''down'')]"
  have splits: "?rows = pre @ post \<longleftrightarrow> pre = [] \<and> post = ?rows \<or> pre = [(''1.3.1'', ''up'')] \<and> post = [(''1.3.2'', ''down'')] \<or> pre = ?rows \<and> post = []" for pre post
    by (auto simp: Cons_eq_append_conv)
  have "serves sample_reply 1 (\<lambda>_ _. 1) ''end'' ''1.3'' ?rows [(''1.4.1'', ''x'')]"
    unfolding serves_def splits by (auto simp: sample_reply_def is_digit_def in_subtree_def startswith_def position_def)
  from walk_reads_whole_column [OF this, of 8192 "([], [])"]
  show "\<exists>requests. walk_bases sample_reply 8192 0 [''1.3''] [(''1.3'', [])] ([], [])
     = (requests, Some [(''1.3'', [(''1'', ''up''), (''2'', ''down'')])], ([], []))"
    by (simp add: table_of_def index_suffix_def)
  have "serves sample_end 1 (\<lambda>_ _. 1) ''end'' ''1.3'' ?rows []"
    unfolding serves_def splits by (auto simp: sample_end_def is_digit_def in_subtree_def startswith_def position_def)
  from walk_reads_whole_column [OF this, of 8192 "([], [])"]
  show "\<exists>requests \<ge> 8192. walk_bases sample_end 8192 0 [''1.3''] [(''1.3'', [])] ([], [])
     = (requests, Some [(''1.3'', [(''1'', ''up''), (''2'', ''end'')])], ([], []))"
    by (auto simp: table_of_def index_suffix_def)
qed

subsection \<open>A device that does not answer\<close>

text \<open>
  A request that times out is an error indication, not an exception: the walk returns empty columns,
  as it does for a device whose tables are empty.
\<close>

lemma walk_from_silent:
  "0 < max_rows \<Longrightarrow> (\<And>k oid. reply k oid = Inr [Err_Indication e]) \<Longrightarrow> wk_seen w = 0 \<Longrightarrow>
   walk_from reply base max_rows k w = (Suc k, Inr (w\<lparr>wk_advanced := False, wk_stop := True, wk_error := (''engine_error'', e)\<rparr>))"
  by (simp add: walk_from.simps Let_def)

lemma walk_bases_silent:
  assumes "0 < max_rows" "\<And>k oid. reply k oid = Inr [Err_Indication e]" "\<forall>b \<in> set bases. dget results b = Some []"
  shows "\<exists>n err'. walk_bases reply max_rows k bases results err = (n, Some results, err')"
  using assms(3)
proof (induction bases arbitrary: k err)
  case (Cons b bs)
  have "dset b [] results = results" using Cons.prems by (simp add: update_triv)
  moreover have "dget results b = Some []" using Cons.prems by simp
  ultimately show ?case using Cons walk_from_silent [OF assms(1,2)] by simp
qed simp

end
