(* ===== verification/Traps.thy ===== *)
theory Traps
  imports Agent_State Detector Alert_Batcher
begin

text \<open>
  SNMP traps: classification and alert policy (\<open>aruba_agent/traps.py\<close>) and the receiver's core
  (\<open>aruba_agent/trap_receiver.py\<close>): configuration, one trap from its variable bindings to the
  stored document and the mail, the suppression of duplicates, and the SNMPv3 users.  The pysnmp
  transport is not modelled; which registrations it accepts is a parameter.
\<close>

subsection \<open>Classification\<close>

datatype severity = Info | Warning | Critical
datatype category = System | Link | Auth | Hardware | Other

definition sev_rank :: "severity \<Rightarrow> nat" where
  "sev_rank s = (case s of Info \<Rightarrow> 0 | Warning \<Rightarrow> 1 | Critical \<Rightarrow> 2)"

text \<open>Severities are ordered by their rank.\<close>

instantiation severity :: linorder
begin

definition less_eq_severity :: "severity \<Rightarrow> severity \<Rightarrow> bool" where
  "less_eq_severity a b = (sev_rank a \<le> sev_rank b)"

definition less_severity :: "severity \<Rightarrow> severity \<Rightarrow> bool" where
  "less_severity a b = (sev_rank a < sev_rank b)"

instance
  by standard (auto simp: less_eq_severity_def less_severity_def sev_rank_def split: severity.splits)

end

definition severity_text :: "severity \<Rightarrow> string" where
  "severity_text s = (case s of Info \<Rightarrow> ''info'' | Warning \<Rightarrow> ''warning'' | Critical \<Rightarrow> ''critical'')"

definition category_text :: "category \<Rightarrow> string" where
  "category_text c = (case c of System \<Rightarrow> ''system'' | Link \<Rightarrow> ''link'' | Auth \<Rightarrow> ''auth''
     | Hardware \<Rightarrow> ''hardware'' | Other \<Rightarrow> ''other'')"

record trap =
  tp_name :: string
  tp_category :: category
  tp_severity :: severity
  tp_oid :: string
  tp_ifindex :: "string option"

type_synonym varbinds = "(string \<times> string) list"

definition generic_traps :: "(string \<times> string \<times> category \<times> severity) list" where
  "generic_traps =
     [(''1.3.6.1.6.3.1.1.5.1'', ''coldStart'', System, Warning),
      (''1.3.6.1.6.3.1.1.5.2'', ''warmStart'', System, Info),
      (''1.3.6.1.6.3.1.1.5.3'', ''linkDown'', Link, Warning),
      (''1.3.6.1.6.3.1.1.5.4'', ''linkUp'', Link, Info),
      (''1.3.6.1.6.3.1.1.5.5'', ''authenticationFailure'', Auth, Warning)]"

definition oid_if_index :: string where "oid_if_index = ''1.3.6.1.2.1.2.2.1.1''"

definition hardware_hints :: "string list" where
  "hardware_hints = [''powersupply'', ''power supply'', ''psu'', ''power-supply'', ''fan'', ''temperature'',
     ''thermal'', ''overheat'', ''over-temp'', ''vsf'', ''stack'', ''member'', ''fabric'', ''fault'', ''failed'',
     ''failure'', ''redundan'', ''module down'', ''poweroff'', ''hotswap'']"

definition down_hints :: "string list" where
  "down_hints = [''down'', ''fail'', ''fault'', ''off'', ''removed'', ''critical'', ''major'']"

definition text_of :: "varbinds \<Rightarrow> string" where
  "text_of vbs = lower (join '' '' (map snd vbs))"

fun extract_ifindex :: "varbinds \<Rightarrow> string option" where
  "extract_ifindex [] = None"
| "extract_ifindex ((oid, v) # vbs) =
     (if oid = oid_if_index \<or> startswith oid (oid_if_index @ ''.'') then
        (let tail = drop (length oid_if_index + 1) oid in
         if isdigit_str (strip v) then Some (strip v)
         else if isdigit_str tail then Some tail else extract_ifindex vbs)
      else extract_ifindex vbs)"

definition classify_trap :: "string \<Rightarrow> varbinds \<Rightarrow> string \<Rightarrow> trap" where
  "classify_trap oid0 vbs name_hint = (let oid = strip oid0 in
     case map_of generic_traps oid of
       Some (name, cat, sev) \<Rightarrow> \<lparr>tp_name = name, tp_category = cat, tp_severity = sev, tp_oid = oid,
         tp_ifindex = (if cat = Link then extract_ifindex vbs else None)\<rparr>
     | None \<Rightarrow>
         let blob = lower (name_hint @ '' '' @ text_of vbs) in
         if list_ex (contains blob) hardware_hints then
           \<lparr>tp_name = or_else name_hint ''enterprise-hardware'', tp_category = Hardware,
             tp_severity = (if list_ex (contains blob) down_hints then Critical else Warning),
             tp_oid = oid, tp_ifindex = None\<rparr>
         else \<lparr>tp_name = or_else name_hint ''enterprise'', tp_category = Other, tp_severity = Info,
           tp_oid = oid, tp_ifindex = None\<rparr>)"

definition should_alert :: "trap \<Rightarrow> string \<Rightarrow> bool" where
  "should_alert t policy0 = (let policy = lower (strip (or_else policy0 ''critical'')) in
     if policy = ''none'' then False
     else case tp_category t of
       Link \<Rightarrow> policy = ''critical+linkdown'' \<and> tp_name t = ''linkDown''
     | System \<Rightarrow> tp_name t = ''coldStart''
     | Auth \<Rightarrow> Warning \<le> tp_severity t
     | Hardware \<Rightarrow> Warning \<le> tp_severity t
     | Other \<Rightarrow> False)"

subsection \<open>The receiver\<close>

record trap_doc =
  td_ts :: datetime
  td_source :: string
  td_switch :: string
  td_trap :: trap
  td_varbinds :: varbinds
  td_message :: string

type_synonym recent_alerts = "(string \<times> string, rat) dict"

record receiver =
  rv_enabled :: bool
  rv_bind :: string
  rv_port :: int
  rv_communities :: "string list"
  rv_policy :: string
  rv_dedup :: int
  rv_v3_profiles :: "string list"
  rv_recent :: recent_alerts
  rv_v3_users :: "(string \<times> string \<times> string \<times> string \<times> string) list"
  rv_learned :: "string list"

definition new_receiver :: "config \<Rightarrow> receiver result" where
  "new_receiver c = (let sec = ''traps'' in
     bind_r (section_or c sec ''enabled'' ''false'') (\<lambda>enabled.
     bind_r (section_or c sec ''bind_address'' ''0.0.0.0'') (\<lambda>bind.
     bind_r (section_or c sec ''port'' ''162'') (\<lambda>port_text.
     case py_int port_text of None \<Rightarrow> Inl ValueError | Some port \<Rightarrow>
     bind_r (config_get c sec ''community'' ''public'') (\<lambda>community.
     bind_r (config_get c sec ''communities'' community) (\<lambda>communities.
     bind_r (section_or c sec ''alert_policy'' ''critical'') (\<lambda>policy.
     bind_r (section_or c sec ''alert_dedup_seconds'' ''300'') (\<lambda>dedup_text.
     case py_int dedup_text of None \<Rightarrow> Inl ValueError | Some dedup \<Rightarrow>
     bind_r (config_get c sec ''v3_profiles'' []) (\<lambda>v3.
     Inr \<lparr>rv_enabled = (lower enabled = ''true''), rv_bind = bind, rv_port = port,
       rv_communities = csv communities, rv_policy = lower (strip policy), rv_dedup = dedup,
       rv_v3_profiles = csv v3, rv_recent = [], rv_v3_users = [], rv_learned = []\<rparr>)))))))))"

definition host_to_switch :: "(string, switch_state) dict \<Rightarrow> string \<Rightarrow> string" where
  "host_to_switch sws ip = (case find (\<lambda>sw. sw_host sw = ip) (dvals sws) of None \<Rightarrow> ip | Some sw \<Rightarrow> sw_name sw)"

definition summarize :: "trap \<Rightarrow> string \<Rightarrow> varbinds \<Rightarrow> string" where
  "summarize t switch vbs = join [CHR 0x0A]
     ([upper (severity_text (tp_severity t)) @ '' '' @ tp_name t @ '' ('' @ category_text (tp_category t) @ '')'',
       ''switch: '' @ switch, ''trapOID: '' @ tp_oid t]
      @ (case tp_ifindex t of None \<Rightarrow> [] | Some i \<Rightarrow> if i = [] then [] else [''ifIndex: '' @ i])
      @ (if vbs = [] then [] else ''varbinds:'' # map (\<lambda>(o', v). ''  '' @ o' @ '' = '' @ v) (take 12 vbs)))"

text \<open>\<open>_rate_ok\<close>; an absent key reads as the epoch, \<open>limit\<close> is the size that triggers the pruning.\<close>

definition prune_limit :: nat where "prune_limit = 5000"

definition rate_ok :: "rat \<Rightarrow> string \<times> string \<Rightarrow> int \<Rightarrow> recent_alerts \<Rightarrow> bool \<times> recent_alerts" where
  "rate_ok now key dedup recent =
     (let last = (case dget recent key of None \<Rightarrow> 0 | Some t \<Rightarrow> t) in
      if now - last < of_int dedup then (False, recent)
      else let r = dset key now recent in
        (True, if prune_limit < length r then filter (\<lambda>(k, v). now - of_int dedup \<le> v) r else r))"

text \<open>
  One trap: \<open>saved\<close> says whether the store accepts the document; a mail that cannot be sent is
  dropped by the notifier.
\<close>

record trap_world =
  tw_receiver :: receiver
  tw_stored :: "trap_doc list"
  tw_notifier :: notifier

definition trap_subject :: "trap \<Rightarrow> string \<Rightarrow> string" where
  "trap_subject t switch = ''[Network Agent] '' @ upper (severity_text (tp_severity t)) @ '' trap: '' @ tp_name t
     @ '' on '' @ switch"

definition handle_trap ::
    "(string, switch_state) dict \<Rightarrow> rat \<Rightarrow> datetime \<Rightarrow> bool \<Rightarrow> string \<Rightarrow> string \<Rightarrow> varbinds \<Rightarrow> string \<Rightarrow> trap_world
      \<Rightarrow> trap_doc \<times> trap_world" where
  "handle_trap sws now ts saved source oid vbs name_hint w =
     (let t = classify_trap oid vbs name_hint; switch = host_to_switch sws source; msg = summarize t switch vbs;
          doc = \<lparr>td_ts = ts, td_source = source, td_switch = switch, td_trap = t, td_varbinds = vbs, td_message = msg\<rparr>;
          w1 = (if saved then w\<lparr>tw_stored := tw_stored w @ [doc]\<rparr> else w)
      in if \<not> should_alert t (rv_policy (tw_receiver w)) then (doc, w1)
         else (case rate_ok now (switch, tp_name t) (rv_dedup (tw_receiver w)) (rv_recent (tw_receiver w)) of
             (ok, recent) \<Rightarrow> (doc, w1\<lparr>tw_receiver := (tw_receiver w)\<lparr>rv_recent := recent\<rparr>,
               tw_notifier := (if ok then notifier_send (trap_subject t switch) msg (tw_notifier w) else tw_notifier w)\<rparr>)))"

text \<open>The callback: the trap OID and the system uptime leave the list of bindings.\<close>

definition oid_snmp_trap_oid :: string where "oid_snmp_trap_oid = ''1.3.6.1.6.3.1.1.4.1.0''"

fun split_bindings :: "varbinds \<Rightarrow> string \<times> varbinds \<Rightarrow> string \<times> varbinds" where
  "split_bindings [] (oid, pairs) = (oid, pairs)"
| "split_bindings ((name, v) # vbs) (oid, pairs) =
     (if name = oid_snmp_trap_oid then split_bindings vbs (strip v, pairs)
      else if name = oid_uptime then split_bindings vbs (oid, pairs)
      else split_bindings vbs (oid, pairs @ [(name, v)]))"

definition trap_callback ::
    "(string, switch_state) dict \<Rightarrow> rat \<Rightarrow> datetime \<Rightarrow> bool \<Rightarrow> string option \<Rightarrow> varbinds \<Rightarrow> trap_world \<Rightarrow> trap_world" where
  "trap_callback sws now ts saved source vbs w = (case split_bindings vbs ([], []) of
       (oid, pairs) \<Rightarrow> snd (handle_trap sws now ts saved (case source of None \<Rightarrow> ''?'' | Some ip \<Rightarrow> ip) oid pairs [] w))"

subsection \<open>SNMPv3 users\<close>

definition auth_protocols :: "string list" where
  "auth_protocols = [''MD5'', ''SHA'', ''SHA256'', ''SHA512'', ''NONE'']"

definition priv_protocols :: "string list" where
  "priv_protocols = [''DES'', ''AES128'', ''AES256'', ''NONE'']"

definition protocol_or :: "string list \<Rightarrow> string \<Rightarrow> string \<Rightarrow> string" where
  "protocol_or table d p = (let u = upper (or_else p d) in if u \<in> set table then u else d)"

definition v3_user :: "snmp_profile \<Rightarrow> string \<times> string \<times> string \<times> string \<times> string" where
  "v3_user p = (let c = p_creds p in (c_username c, protocol_or auth_protocols ''SHA'' (c_auth_protocol c),
     c_auth_password c, protocol_or priv_protocols ''AES128'' (c_priv_protocol c), c_priv_password c))"

text \<open>\<open>reg\<close> is \<open>Inl\<close> when the profiles cannot be read or pysnmp is missing.\<close>

definition build_v3_users :: "registry_of_profiles result \<Rightarrow> receiver \<Rightarrow> receiver" where
  "build_v3_users reg r = r\<lparr>rv_v3_users := (if rv_v3_profiles r = [] then []
     else case reg of Inl _ \<Rightarrow> []
     | Inr reg \<Rightarrow> concat (map (\<lambda>n. case dget (r_profiles reg) n of None \<Rightarrow> [] | Some p \<Rightarrow> [v3_user p]) (rv_v3_profiles r)))\<rparr>"

text \<open>\<open>_v3_learn\<close>: an engine is registered at most once; \<open>adds\<close> tells which users pysnmp accepts.\<close>

definition v3_learn ::
    "(string \<times> string \<times> string \<times> string \<times> string \<Rightarrow> bool) \<Rightarrow> string option \<Rightarrow> receiver \<Rightarrow> nat option \<times> receiver" where
  "v3_learn adds engine r = (case engine of
       None \<Rightarrow> (None, r)
     | Some eid \<Rightarrow>
         if eid = [] \<or> eid \<in> set (rv_learned r) then (None, r)
         else (Some (length (filter adds (rv_v3_users r))), r\<lparr>rv_learned := rv_learned r @ [eid]\<rparr>))"

end
