(* ===== verification/Hex.thy ===== *)
theory Hex
  imports Prelude "HOL-Library.Word"
begin

text \<open>
  Hexadecimal texts of octets, shared by the forwarding-table and the neighbour collectors: the
  digits Python's \<open>02x\<close> format prints and \<open>int(s, 16)\<close> reads, and \<open>str.replace\<close>.
\<close>

definition is_hex :: "char \<Rightarrow> bool" where
  "is_hex c = (c \<in> set ''0123456789abcdef'')"

definition hex_char :: "nat \<Rightarrow> char" where
  "hex_char n = (if n < 10 then char_of (48 + n) else char_of (87 + n))"

definition hex_val :: "char \<Rightarrow> nat" where
  "hex_val c = (let n = (of_char c :: nat) in if n < 58 then n - 48 else n - 87)"

definition hex_byte :: "8 word \<Rightarrow> string" where
  "hex_byte w = [hex_char (unat w div 16), hex_char (unat w mod 16)]"

text \<open>\<open>int(hexs[i:i + 2], 16)\<close> for every other position \<open>i\<close>.\<close>

fun hex_octets :: "string \<Rightarrow> 8 word list" where
  "hex_octets (a # b # cs) = of_nat (16 * hex_val a + hex_val b) # hex_octets cs"
| "hex_octets _ = []"

text \<open>\<open>s.replace(a, b)\<close> for a non-empty \<open>a\<close>: leftmost occurrences that do not overlap.\<close>

function str_replace :: "string \<Rightarrow> string \<Rightarrow> string \<Rightarrow> string" where
  "str_replace a b [] = []"
| "str_replace a b (c # cs) = (if a \<noteq> [] \<and> startswith (c # cs) a
     then b @ str_replace a b (drop (length a) (c # cs)) else c # str_replace a b cs)"
  by pat_completeness auto
termination by (relation "measure (\<lambda>(a, b, s). length s)") auto

lemma hex_char_table:
  "list_all (\<lambda>n. is_hex (hex_char n) \<and> hex_val (hex_char n) = n \<and> lower_char (hex_char n) = hex_char n
     \<and> \<not> is_ws (hex_char n) \<and> hex_char n \<notin> set ''x: '') [0..<16]"
  by code_simp

lemma hex_char_props [simp]:
  assumes "n < 16"
  shows "is_hex (hex_char n)" "hex_val (hex_char n) = n" "lower_char (hex_char n) = hex_char n"
    "\<not> is_ws (hex_char n)" "hex_char n \<noteq> CHR ''x''" "hex_char n \<noteq> CHR '':''" "hex_char n \<noteq> CHR '' ''"
  using assms hex_char_table by (auto simp: list_all_iff)

lemma unat_octet: "unat (w :: 8 word) < 256"
  using unsigned_less [of w] by simp

lemma nibbles [simp]: "unat (w :: 8 word) div 16 < 16" "unat w mod 16 < 16"
  using unat_octet [of w] by simp_all

lemma length_hex_byte [simp]: "length (hex_byte w) = 2"
  by (simp add: hex_byte_def)

lemma hex_byte_hex: "\<forall>c \<in> set (hex_byte w). is_hex c"
  by (simp add: hex_byte_def)

lemma hex_octets_bytes [simp]: "hex_octets (concat (map hex_byte ws)) = ws"
proof (induction ws)
  case (Cons w ws)
  have "16 * (unat w div 16) + unat w mod 16 = unat w" by simp
  then show ?case using Cons by (simp add: hex_byte_def del: mult.commute)
qed simp

lemma hex_bytes_plain:
  assumes "c \<in> set (concat (map hex_byte ws))"
  shows "is_hex c" "lower_char c = c" "\<not> is_ws c" "c \<noteq> CHR ''x''" "c \<noteq> CHR '':''" "c \<noteq> CHR '' ''"
  using assms by (auto simp: hex_byte_def dest: sym)

lemma length_hex_bytes [simp]: "length (concat (map hex_byte ws)) = 2 * length ws"
  by (induction ws) auto

lemma lower_hex_bytes [simp]: "lower (concat (map hex_byte ws)) = concat (map hex_byte ws)"
  unfolding lower_def by (rule map_idI) (rule hex_bytes_plain)

lemma str_replace_absent: "\<forall>c \<in> set s. c \<noteq> d \<Longrightarrow> d \<in> set a \<Longrightarrow> str_replace a b s = s"
proof (induction a b s rule: str_replace.induct)
  case (2 a b c cs)
  have "\<not> startswith (c # cs) a"
  proof
    assume "startswith (c # cs) a"
    then have "set a \<subseteq> set (c # cs)" by (metis set_take_subset startswith_def)
    then show False using 2(3,4) by blast
  qed
  then show ?case using 2 by simp
qed simp

end
