(* ===== verification/Fdb.thy ===== *)
theory Fdb
  imports Hex Snmp_Walk
begin

text \<open>
  The layer-2 forwarding table collector, \<open>aruba_agent/fdb.py\<close>: MAC addresses in every spelling,
  the index suffixes of the two bridge MIBs, and the assembly of the walked columns into one record
  per learned MAC and port.
\<close>

definition oid_q_fdb_port :: string where "oid_q_fdb_port = ''1.3.6.1.2.1.17.7.1.2.2.1.2''"
definition oid_d_fdb_port :: string where "oid_d_fdb_port = ''1.3.6.1.2.1.17.4.3.1.2''"
definition oid_baseport_if :: string where "oid_baseport_if = ''1.3.6.1.2.1.17.1.4.1.2''"
definition oid_if_name :: string where "oid_if_name = ''1.3.6.1.2.1.31.1.1.1.1''"

definition fdb_walk_bases :: "string list" where
  "fdb_walk_bases = [oid_q_fdb_port, oid_d_fdb_port, oid_baseport_if, oid_if_name]"

record fdb_row =
  fr_mac :: string
  fr_mac_fmt :: string
  fr_vlan :: int
  fr_ifindex :: string
  fr_ifname :: string
  fr_port_macs :: nat

subsection \<open>MAC addresses\<close>

definition normalize_mac :: "string \<Rightarrow> string option" where
  "normalize_mac s = (if s = [] then None
     else let hexs = filter is_hex (lower s) in if length hexs = 12 then Some hexs else None)"

fun pairs_of :: "string \<Rightarrow> string list" where
  "pairs_of (a # b # cs) = [a, b] # pairs_of cs"
| "pairs_of _ = []"

definition format_mac :: "string \<Rightarrow> string" where
  "format_mac canon = (case normalize_mac canon of None \<Rightarrow> canon | Some c \<Rightarrow> join '':'' (pairs_of c))"

text \<open>\<open>int(x) & 0xFF\<close> of six decimal components; the mask is the conversion to eight bits.\<close>

fun octets_of :: "string list \<Rightarrow> 8 word list option" where
  "octets_of [] = Some []"
| "octets_of (x # xs) = (case (py_int x, octets_of xs) of (Some n, Some os) \<Rightarrow> Some (word_of_int n # os) | _ \<Rightarrow> None)"

definition mac_from_decimal_components :: "string list \<Rightarrow> string option" where
  "mac_from_decimal_components comps = (if length comps \<noteq> 6 then None
     else map_option (\<lambda>os. concat (map hex_byte os)) (octets_of comps))"

definition parse_suffix_q :: "string \<Rightarrow> (int \<times> string) option" where
  "parse_suffix_q suffix = (let parts = split_on (CHR ''.'') suffix in
     if length parts \<noteq> 7 then None
     else case mac_from_decimal_components (tl parts) of
       None \<Rightarrow> None
     | Some mac \<Rightarrow> Some (case py_int (hd parts) of None \<Rightarrow> 0 | Some v \<Rightarrow> v, mac))"

definition parse_suffix_d :: "string \<Rightarrow> (int \<times> string) option" where
  "parse_suffix_d suffix = (case mac_from_decimal_components (split_on (CHR ''.'') suffix) of
     None \<Rightarrow> None | Some mac \<Rightarrow> if mac = [] then None else Some (0, mac))"

subsection \<open>Assembly\<close>

definition column_of :: "(string, column) dict \<Rightarrow> string \<Rightarrow> column" where
  "column_of columns oid = (case dget columns oid of None \<Rightarrow> [] | Some c \<Rightarrow> c)"

definition port_to_if :: "column \<Rightarrow> (string, string) dict" where
  "port_to_if base_if = fold (\<lambda>(bp, ifidx) d. case py_int (strip ifidx) of
     None \<Rightarrow> d | Some n \<Rightarrow> dset (strip bp) (int_str n) d) base_if []"

definition resolve_if :: "(string, string) dict \<Rightarrow> string \<Rightarrow> string option" where
  "resolve_if ports bridge_port = (let bp = strip bridge_port in
     if bp = [] \<or> bp = ''0'' then None
     else Some (case dget ports bp of None \<Rightarrow> bp | Some i \<Rightarrow> i))"

type_synonym fdb_entry = "int \<times> string \<times> string"

definition raw_entries ::
    "(string \<Rightarrow> (int \<times> string) option) \<Rightarrow> (string, string) dict \<Rightarrow> column \<Rightarrow> fdb_entry list" where
  "raw_entries parse ports fdb = concat (map (\<lambda>(suffix, port). case parse suffix of
       None \<Rightarrow> []
     | Some (vlan, mac) \<Rightarrow> (case resolve_if ports port of
         None \<Rightarrow> [] | Some i \<Rightarrow> if i = [] then [] else [(vlan, mac, i)])) fdb)"

text \<open>The first entry of every MAC on a port; the number of different MACs of a port.\<close>

fun first_entries :: "(string \<times> string) set \<Rightarrow> fdb_entry list \<Rightarrow> fdb_entry list" where
  "first_entries seen [] = []"
| "first_entries seen ((vlan, mac, i) # es) = (if (mac, i) \<in> seen then first_entries seen es
     else (vlan, mac, i) # first_entries (insert (mac, i) seen) es)"

definition macs_on :: "fdb_entry list \<Rightarrow> string \<Rightarrow> nat" where
  "macs_on raw i = length (dedupe (map (\<lambda>(v, mac, j). mac) (filter (\<lambda>(v, mac, j). j = i) raw)))"

definition assemble_fdb :: "(string, column) dict \<Rightarrow> fdb_row list" where
  "assemble_fdb columns =
     (let q = column_of columns oid_q_fdb_port; ports = port_to_if (column_of columns oid_baseport_if);
          names = column_of columns oid_if_name;
          raw = (if q \<noteq> [] then raw_entries parse_suffix_q ports q
                 else raw_entries parse_suffix_d ports (column_of columns oid_d_fdb_port))
      in map (\<lambda>(vlan, mac, i). \<lparr>fr_mac = mac, fr_mac_fmt = format_mac mac, fr_vlan = vlan, fr_ifindex = i,
           fr_ifname = (case dget names i of None \<Rightarrow> ''if'' @ i | Some n \<Rightarrow> n),
           fr_port_macs = macs_on raw i\<rparr>) (first_entries {} raw))"

definition fdb_collect :: "(string list \<Rightarrow> (string, column) dict option) \<Rightarrow> fdb_row list option" where
  "fdb_collect walk = map_option assemble_fdb (walk fdb_walk_bases)"

subsection \<open>Spellings of a MAC\<close>

lemma normalize_mac_form:
  "normalize_mac s = Some m \<Longrightarrow> length m = 12 \<and> (\<forall>c \<in> set m. is_hex c)"
  by (auto simp: normalize_mac_def Let_def split: if_splits)

lemma lower_hex: "is_hex c \<Longrightarrow> lower_char c = c"
  by (auto simp: is_hex_def lower_char_def)

lemma filter_hex_pairs: "\<forall>c \<in> set m. is_hex c \<Longrightarrow> even (length m) \<Longrightarrow> filter is_hex (lower (join '':'' (pairs_of m))) = m"
proof (induction m rule: pairs_of.induct)
  case (1 a b cs)
  have colon: "\<not> is_hex (lower_char (CHR '':''))" by code_simp
  show ?case
  proof (cases "pairs_of cs")
    case Nil
    then have "cs = []" using 1(3) by (cases cs rule: pairs_of.cases) auto
    then show ?thesis using 1 by (simp add: lower_def lower_hex)
  next
    case (Cons p ps)
    then show ?thesis using 1 colon by (simp add: lower_def lower_hex)
  qed
qed (auto simp: lower_def lower_hex)

lemma canonical_normal: "length m = 12 \<Longrightarrow> \<forall>c \<in> set m. is_hex c \<Longrightarrow> normalize_mac m = Some m"
  using map_idI [of m lower_char] by (auto simp: normalize_mac_def lower_def lower_hex filter_True)

text \<open>The printed form of a MAC reads back as the MAC.\<close>

lemma normalize_format:
  assumes "normalize_mac s = Some m"
  shows "normalize_mac (format_mac s) = Some m"
proof -
  note f = normalize_mac_form [OF assms]
  then obtain a b cs where "m = a # b # cs" by (cases m rule: pairs_of.cases) auto
  then have "join '':'' (pairs_of m) \<noteq> []" by (cases "pairs_of cs") auto
  then show ?thesis using f assms filter_hex_pairs [of m] by (simp add: format_mac_def normalize_mac_def [of "join _ _"] Let_def)
qed

subsection \<open>The records\<close>

lemma octets_of_length: "octets_of xs = Some os \<Longrightarrow> length os = length xs"
  by (induction xs arbitrary: os) (auto split: option.splits)

lemma mac_from_decimal_form:
  "mac_from_decimal_components comps = Some m \<Longrightarrow> length m = 12 \<and> (\<forall>c \<in> set m. is_hex c)"
  using hex_byte_hex by (auto simp: mac_from_decimal_components_def dest!: octets_of_length split: if_splits)

lemma parse_suffix_form:
  "parse_suffix_q s = Some (v, m) \<Longrightarrow> length m = 12 \<and> (\<forall>c \<in> set m. is_hex c)"
  "parse_suffix_d s = Some (v, m) \<Longrightarrow> length m = 12 \<and> (\<forall>c \<in> set m. is_hex c)"
  by (auto simp: parse_suffix_q_def parse_suffix_d_def Let_def dest: mac_from_decimal_form split: if_splits option.splits)

lemma raw_entries_form:
  assumes "\<And>s v m. parse s = Some (v, m) \<Longrightarrow> length m = 12 \<and> (\<forall>c \<in> set m. is_hex c)"
    and "(v, m, i) \<in> set (raw_entries parse ports fdb)"
  shows "length m = 12 \<and> (\<forall>c \<in> set m. is_hex c) \<and> i \<noteq> []"
proof -
  obtain s p where s: "parse s = Some (v, m)" "i \<noteq> []"
    using assms(2) by (auto simp: raw_entries_def split: option.splits if_splits)
  then show ?thesis using assms(1) by blast
qed

lemma set_first_entries:
  "snd ` set (first_entries seen es) = snd ` set es - seen"
  by (induction seen es rule: first_entries.induct) (auto simp: image_iff)

lemma first_entries_subset: "set (first_entries seen es) \<subseteq> set es"
  by (induction seen es rule: first_entries.induct) auto

lemma distinct_first_entries: "distinct (map snd (first_entries seen es))"
proof (induction seen es rule: first_entries.induct)
  case (2 seen v m i es)
  have "(m, i) \<notin> snd ` set (first_entries (insert (m, i) seen) es)"
    unfolding set_first_entries by blast
  then show ?case using 2 by simp
qed simp

lemma macs_on_card: "macs_on raw i = card {m. \<exists>v. (v, m, i) \<in> set raw}"
proof -
  have "{m. \<exists>v. (v, m, i) \<in> set raw} = set (dedupe (map (\<lambda>(v, mac, j). mac) (filter (\<lambda>(v, mac, j). j = i) raw)))"
    by force
  then show ?thesis unfolding macs_on_def by (simp only: distinct_card [OF distinct_dedupe])
qed

definition raw_of :: "(string, column) dict \<Rightarrow> fdb_entry list" where
  "raw_of columns = (let q = column_of columns oid_q_fdb_port; ports = port_to_if (column_of columns oid_baseport_if) in
     if q \<noteq> [] then raw_entries parse_suffix_q ports q else raw_entries parse_suffix_d ports (column_of columns oid_d_fdb_port))"

lemma assemble_fdb_raw:
  "assemble_fdb columns = map (\<lambda>(vlan, mac, i). \<lparr>fr_mac = mac, fr_mac_fmt = format_mac mac, fr_vlan = vlan, fr_ifindex = i,
     fr_ifname = (case dget (column_of columns oid_if_name) i of None \<Rightarrow> ''if'' @ i | Some n \<Rightarrow> n),
     fr_port_macs = macs_on (raw_of columns) i\<rparr>) (first_entries {} (raw_of columns))"
  by (simp add: assemble_fdb_def raw_of_def Let_def)

lemma raw_of_form: "(v, m, i) \<in> set (raw_of columns) \<Longrightarrow> length m = 12 \<and> (\<forall>c \<in> set m. is_hex c) \<and> i \<noteq> []"
  by (auto simp: raw_of_def Let_def dest: raw_entries_form [rotated] parse_suffix_form split: if_splits)

lemma fdb_keys: "map (\<lambda>r. (fr_mac r, fr_ifindex r)) (assemble_fdb columns) = map snd (first_entries {} (raw_of columns))"
  by (auto simp: assemble_fdb_raw)

lemma fdb_key_set:
  "(\<lambda>r. (fr_mac r, fr_ifindex r)) ` set (assemble_fdb columns) = snd ` set (raw_of columns)"
proof -
  have "(\<lambda>r. (fr_mac r, fr_ifindex r)) ` set (assemble_fdb columns) = set (map (\<lambda>r. (fr_mac r, fr_ifindex r)) (assemble_fdb columns))"
    by simp
  also have "\<dots> = snd ` set (raw_of columns)" unfolding fdb_keys by (simp add: set_first_entries)
  finally show ?thesis .
qed

end
