(* ===== verification/Lldp.thy ===== *)
theory Lldp
  imports Fdb
begin

text \<open>
  The neighbour collector, \<open>aruba_agent/lldp.py\<close>: the capability bits of LLDP and CDP, the hints in
  names and descriptions, and the assembly of the two protocols' tables into one list.
\<close>

unbundle bit_operations_syntax

definition oid_rem_portid :: string where "oid_rem_portid = ''1.0.8802.1.1.2.1.4.1.1.7''"
definition oid_rem_portdesc :: string where "oid_rem_portdesc = ''1.0.8802.1.1.2.1.4.1.1.8''"
definition oid_rem_sysname :: string where "oid_rem_sysname = ''1.0.8802.1.1.2.1.4.1.1.9''"
definition oid_rem_sysdesc :: string where "oid_rem_sysdesc = ''1.0.8802.1.1.2.1.4.1.1.10''"
definition oid_rem_cap_ena :: string where "oid_rem_cap_ena = ''1.0.8802.1.1.2.1.4.1.1.12''"
definition oid_loc_portid :: string where "oid_loc_portid = ''1.0.8802.1.1.2.1.3.7.1.3''"
definition oid_cdp_deviceid :: string where "oid_cdp_deviceid = ''1.3.6.1.4.1.9.9.23.1.2.1.1.6''"
definition oid_cdp_devport :: string where "oid_cdp_devport = ''1.3.6.1.4.1.9.9.23.1.2.1.1.7''"
definition oid_cdp_platform :: string where "oid_cdp_platform = ''1.3.6.1.4.1.9.9.23.1.2.1.1.8''"
definition oid_cdp_caps :: string where "oid_cdp_caps = ''1.3.6.1.4.1.9.9.23.1.2.1.1.9''"

definition lldp_walk_bases :: "string list" where
  "lldp_walk_bases = [oid_rem_portid, oid_rem_portdesc, oid_rem_sysname, oid_rem_sysdesc, oid_rem_cap_ena,
     oid_loc_portid, oid_cdp_deviceid, oid_cdp_devport, oid_cdp_platform, oid_cdp_caps, oid_if_name]"

record neighbor =
  nb_ifname :: string
  nb_protocol :: string
  nb_neighbor :: string
  nb_rem_port :: string
  nb_rem_desc :: string
  nb_device_type :: string

subsection \<open>Capabilities\<close>

definition hex_bytes :: "string \<Rightarrow> 8 word list" where
  "hex_bytes pretty = (let s = map (\<lambda>c. if c = CHR '':'' then CHR '' '' else c) (str_replace ''0x'' [] (lower pretty));
     hexs = filter is_hex s
   in hex_octets (if odd (length hexs) then CHR ''0'' # hexs else hexs))"

definition bit_set :: "8 word list \<Rightarrow> nat \<Rightarrow> bool" where
  "bit_set bs n = (n div 8 < length bs \<and> (bs ! (n div 8)) AND (drop_bit (n mod 8) 0x80) \<noteq> 0)"

definition classify_lldp :: "string \<Rightarrow> string" where
  "classify_lldp cap_pretty = (let bs = hex_bytes cap_pretty in
     if bs = [] then ''unknown''
     else if bit_set bs 3 then ''wireless-ap''
     else if bit_set bs 5 then ''voip-phone''
     else if bit_set bs 2 then ''switch''
     else if bit_set bs 4 then ''router''
     else if bit_set bs 7 then ''host''
     else ''other'')"

definition mask_of_octets :: "8 word list \<Rightarrow> int" where
  "mask_of_octets bs = fold (\<lambda>b val. push_bit 8 val OR uint b) bs 0"

definition type_of_mask :: "int \<Rightarrow> string" where
  "type_of_mask val = (if val AND 0x80 \<noteq> 0 then ''voip-phone''
     else if val AND 0x08 \<noteq> 0 \<or> val AND 0x02 \<noteq> 0 then ''switch''
     else if val AND 0x01 \<noteq> 0 then ''router''
     else if val AND 0x10 \<noteq> 0 then ''host''
     else ''other'')"

definition classify_cdp :: "string \<Rightarrow> string" where
  "classify_cdp caps_pretty = (let val = mask_of_octets (hex_bytes caps_pretty) in
     if val = 0 then (case py_int (strip caps_pretty) of None \<Rightarrow> ''unknown'' | Some n \<Rightarrow> type_of_mask n)
     else type_of_mask val)"

subsection \<open>Text hints\<close>

definition text_hints :: "(string \<times> string list) list" where
  "text_hints =
    [(''voip-phone'', [''sip-'', ''sip '', ''yealink'', ''polycom'', ''grandstream'', ''snom'', ''cisco ip phone'',
       ''ip phone'', ''avaya'', ''phone'', ''voip'', ''sep'']),
     (''wireless-ap'', [''aruba ap'', ''ap-'', ''ap '', ''instant ap'', '' iap'', ''aironet'', ''access point'', ''wireless ap'']),
     (''router'', [''router'', ''gateway'', ''mikrotik'', ''vyos'', ''edgerouter'', ''isr'', ''asr'']),
     (''switch'', [''switch'', ''procurve'', ''aruba-os'', ''arubaos-switch'', ''catalyst'', ''nexus'', ''aruba jl'',
       ''aruba cx'', ''6300'', ''6400'', ''2930'', ''2540''])]"

definition classify_by_text :: "string list \<Rightarrow> string option" where
  "classify_by_text texts = (let blob = lower (join '' '' (filter (\<lambda>t. t \<noteq> []) texts)) in
     if blob = [] then None
     else map_option fst (find (\<lambda>(dtype, needles). list_ex (contains blob) needles) text_hints))"

definition refine_type :: "string \<Rightarrow> string list \<Rightarrow> string" where
  "refine_type dtype texts = (if dtype = ''unknown'' \<or> dtype = ''other''
     then (case classify_by_text texts of None \<Rightarrow> dtype | Some t \<Rightarrow> or_else t dtype) else dtype)"

subsection \<open>Assembly\<close>

definition local_port_num :: "string \<Rightarrow> string option" where
  "local_port_num suffix = (let parts = split_on (CHR ''.'') suffix in if length parts \<ge> 3 then Some (parts ! 1) else None)"

text \<open>\<open>d.get(k) or ""\<close>.\<close>

definition get_or :: "(string, string) dict \<Rightarrow> string \<Rightarrow> string" where
  "get_or d k = (case dget d k of None \<Rightarrow> [] | Some v \<Rightarrow> v)"

definition assemble_lldp :: "(string, column) dict \<Rightarrow> neighbor list" where
  "assemble_lldp columns =
     (let col = column_of columns; loc = col oid_loc_portid; portid = col oid_rem_portid;
          portdsc = col oid_rem_portdesc; sysdesc = col oid_rem_sysdesc; capena = col oid_rem_cap_ena
      in concat (map (\<lambda>(suffix, name). case local_port_num suffix of
           None \<Rightarrow> []
         | Some pnum \<Rightarrow> [\<lparr>nb_ifname = or_else (get_or loc pnum) (''port'' @ pnum), nb_protocol = ''lldp'',
             nb_neighbor = strip name,
             nb_rem_port = strip (or_else (get_or portid suffix) (get_or portdsc suffix)),
             nb_rem_desc = strip (get_or sysdesc suffix),
             nb_device_type = refine_type (classify_lldp (get_or capena suffix))
               [name, get_or sysdesc suffix, get_or portid suffix]\<rparr>]) (col oid_rem_sysname)))"

definition assemble_cdp :: "(string, column) dict \<Rightarrow> neighbor list" where
  "assemble_cdp columns =
     (let col = column_of columns; names = col oid_if_name
      in map (\<lambda>(suffix, name). let ifidx = hd (split_on (CHR ''.'') suffix) in
           \<lparr>nb_ifname = (case dget names ifidx of None \<Rightarrow> ''if'' @ ifidx | Some n \<Rightarrow> n), nb_protocol = ''cdp'',
            nb_neighbor = strip name,
            nb_rem_port = strip (get_or (col oid_cdp_devport) suffix),
            nb_rem_desc = strip (get_or (col oid_cdp_platform) suffix),
            nb_device_type = refine_type (classify_cdp (get_or (col oid_cdp_caps) suffix))
              [name, get_or (col oid_cdp_platform) suffix]\<rparr>) (col oid_cdp_deviceid))"

definition assemble_neighbors :: "(string, column) dict \<Rightarrow> neighbor list" where
  "assemble_neighbors columns = (let lldp = assemble_lldp columns; seen = set (map nb_ifname lldp) in
     lldp @ filter (\<lambda>r. nb_ifname r \<notin> seen) (assemble_cdp columns))"

definition neighbors_collect :: "(string list \<Rightarrow> (string, column) dict option) \<Rightarrow> neighbor list option" where
  "neighbors_collect walk = map_option assemble_neighbors (walk lldp_walk_bases)"

subsection \<open>Rendered capability bits\<close>

text \<open>What pysnmp prints of an octet string that is not printable text.\<close>

definition rendered :: "8 word list \<Rightarrow> string" where
  "rendered bs = ''0x'' @ concat (map hex_byte bs)"

lemma hex_bytes_rendered [simp]: "hex_bytes (rendered bs) = bs"
proof -
  let ?h = "concat (map hex_byte bs)"
  have low: "lower (rendered bs) = ''0x'' @ ?h"
    using lower_hex_bytes [of bs] by (simp add: rendered_def lower_def lower_char_def)
  have "str_replace ''0x'' [] ?h = ?h"
    by (rule str_replace_absent [where d = "CHR ''x''"]) (use hex_bytes_plain in auto)
  then have r: "str_replace ''0x'' [] (lower (rendered bs)) = ?h" unfolding low by (simp add: startswith_def)
  have "map (\<lambda>c. if c = CHR '':'' then CHR '' '' else c) ?h = ?h" by (rule map_idI) (use hex_bytes_plain in auto)
  moreover have "filter is_hex ?h = ?h" by (rule filter_True) (use hex_bytes_plain in auto)
  ultimately show ?thesis unfolding hex_bytes_def r by (simp add: Let_def)
qed

lemma bit_set_bit: "bit_set bs n \<longleftrightarrow> n div 8 < length bs \<and> bit (bs ! (n div 8)) (7 - n mod 8)"
proof -
  have eq: "drop_bit k (0x80 :: 8 word) = push_bit (7 - k) 1" if "k < 8" for k :: nat
  proof -
    have "k \<in> set [0..<8]" using that by simp
    moreover have "list_all (\<lambda>k. drop_bit k (0x80 :: 8 word) = push_bit (7 - k) 1) [0..<8]" by code_simp
    ultimately show ?thesis by (simp only: list_all_iff)
  qed
  have "(w AND push_bit k 1 \<noteq> 0) = bit w k" for w :: "8 word" and k
    by (simp add: and_exp_eq_0_iff_not_bit)
  then show ?thesis by (simp add: bit_set_def eq)
qed

end
