(* ===== verification/Mongo_Store.thy ===== *)
theory Mongo_Store
  imports Traps Lldp Py_Float
begin

text \<open>
  The MongoDB backend, \<open>aruba_agent/store/mongo_store.py\<close>: the snapshot on the collections of
  devices and run-time values, and the collections of metrics, counters, forwarding entries,
  neighbours and traps.

  A collection is what its documents hold apart from \<open>_id\<close>, in the order \<open>find\<close> returns them.  Every
  operation takes the environment's answer: whether the server is up, or at which step of the
  operation it fails.  Indexes and the expiry of old documents by the server are not modelled.
\<close>

subsection \<open>Collections\<close>

type_synonym doc = "(string \<times> json) list"

record metric_doc =
  md_ts :: int
  md_device :: string
  md_metric :: string
  md_value :: py_float
  md_label :: "string option"

type_synonym counters = "(string, rat \<times> string \<times> string) dict"

record mongo =
  mg_client :: bool
  mg_devices :: "(string, doc) dict"
  mg_runtime :: "doc option"
  mg_metrics :: "metric_doc list"
  mg_counters :: "(string, counters) dict"
  mg_fdb :: "(string \<times> fdb_row) list"
  mg_neighbors :: "(string \<times> neighbor) list"
  mg_traps :: "trap_doc list"

subsection \<open>The snapshot\<close>

definition runtime_keys :: "string list" where
  "runtime_keys = [''backup'', ''device_inventory'', ''scanner_last_run'', ''arp_last_run'']"

definition some_keys :: "doc \<Rightarrow> string list \<Rightarrow> doc" where
  "some_keys d ks = concat (map (\<lambda>k. case map_of d k of None \<Rightarrow> [] | Some v \<Rightarrow> [(k, v)]) ks)"

definition mongo_load :: "bool \<Rightarrow> mongo \<Rightarrow> json option" where
  "mongo_load up m = (if \<not> mg_client m \<or> \<not> up then None
     else let devices = dvals (mg_devices m); runtime = (case mg_runtime m of None \<Rightarrow> [] | Some d \<Rightarrow> d) in
       if devices = [] \<and> runtime = [] then None
       else Some (JObj ((''switches'', JArr (map JObj devices)) # some_keys runtime runtime_keys)))"

text \<open>The name of a switch entry, when it has one; the names the program writes are strings.\<close>

fun entry_of :: "json \<Rightarrow> (string \<times> doc) option" where
  "entry_of (JObj kvs) = (case map_of kvs ''name'' of
     Some (JStr n) \<Rightarrow> if n = [] then None else Some (n, kvs) | _ \<Rightarrow> None)"
| "entry_of _ = None"

definition named_entries :: "json list \<Rightarrow> (string \<times> doc) list" where
  "named_entries es = concat (map (\<lambda>e. case entry_of e of None \<Rightarrow> [] | Some nd \<Rightarrow> [nd]) es)"

datatype mongo_step = Bulk_Write | Delete_Others | Replace_Runtime

text \<open>
  \<open>save\<close>.  \<open>fails\<close> is the step at which the server fails, with \<open>written\<close> the names a failing bulk
  write still replaced; the exception is logged and the earlier steps remain.
\<close>

definition upsert_all :: "(string \<times> doc) list \<Rightarrow> (string, doc) dict \<Rightarrow> (string, doc) dict" where
  "upsert_all ops d = fold (\<lambda>(n, kvs). dset n kvs) ops d"

definition mongo_save :: "mongo_step option \<Rightarrow> (string \<Rightarrow> bool) \<Rightarrow> json \<Rightarrow> mongo \<Rightarrow> mongo" where
  "mongo_save fails written p m = (if \<not> mg_client m then m
     else case p of JObj kvs \<Rightarrow>
       let switches = (case map_of kvs ''switches'' of Some (JArr es) \<Rightarrow> es | _ \<Rightarrow> []);
           ops = named_entries switches; names = map fst ops in
       if ops \<noteq> [] \<and> fails = Some Bulk_Write
       then m\<lparr>mg_devices := upsert_all (filter (\<lambda>(n, _). written n) ops) (mg_devices m)\<rparr>
       else let m1 = m\<lparr>mg_devices := upsert_all ops (mg_devices m)\<rparr> in
         if fails = Some Delete_Others then m1
         else let m2 = m1\<lparr>mg_devices := filter (\<lambda>(n, _). n \<in> set names) (mg_devices m1)\<rparr> in
           if fails = Some Replace_Runtime then m2
           else m2\<lparr>mg_runtime := Some (some_keys kvs runtime_keys)\<rparr>
     | _ \<Rightarrow> m)"

definition mongo_healthy :: "bool \<Rightarrow> mongo \<Rightarrow> bool" where
  "mongo_healthy up m = (mg_client m \<and> up)"

subsection \<open>Metrics and counters\<close>

definition record_metric :: "bool \<Rightarrow> int \<Rightarrow> string \<Rightarrow> string \<Rightarrow> py_float \<Rightarrow> string option \<Rightarrow> mongo \<Rightarrow> mongo" where
  "record_metric up ts device metric v label m = (if \<not> mg_client m \<or> \<not> up then m
     else m\<lparr>mg_metrics := mg_metrics m @ [\<lparr>md_ts = ts, md_device = device, md_metric = metric, md_value = v, md_label = label\<rparr>]\<rparr>)"

definition query_metrics :: "bool \<Rightarrow> string \<Rightarrow> string \<Rightarrow> int \<Rightarrow> int \<Rightarrow> mongo \<Rightarrow> metric_doc list" where
  "query_metrics up device metric start stop m = (if \<not> mg_client m \<or> \<not> up then []
     else sort_key md_ts (filter (\<lambda>d. md_device d = device \<and> md_metric d = metric \<and> start \<le> md_ts d \<and> md_ts d \<le> stop) (mg_metrics m)))"

text \<open>Counters are stored as text, so that a 64-bit value cannot overflow a BSON integer.\<close>

definition save_counters :: "bool \<Rightarrow> string \<Rightarrow> (string, rat \<times> int \<times> int) dict \<Rightarrow> mongo \<Rightarrow> mongo" where
  "save_counters up device cs m = (if \<not> mg_client m \<or> \<not> up then m
     else m\<lparr>mg_counters := dset device (map (\<lambda>(i, (t, a, b)). (i, (t, int_str a, int_str b))) cs) (mg_counters m)\<rparr>)"

definition load_counters :: "bool \<Rightarrow> string \<Rightarrow> mongo \<Rightarrow> counters option" where
  "load_counters up device m = (if \<not> mg_client m \<or> \<not> up then None else dget (mg_counters m) device)"

subsection \<open>Forwarding entries, neighbours, traps\<close>

text \<open>\<open>limit(n)\<close> of a cursor: 0 is no limit, a negative number counts as positive.\<close>

definition mongo_limit :: "int \<Rightarrow> 'a list \<Rightarrow> 'a list" where
  "mongo_limit n xs = (if n = 0 then xs else take (nat \<bar>n\<bar>) xs)"

datatype replace_fault = Delete_Fails | Insert_Fails

text \<open>Replacing the rows of one device: a deletion, then an insertion, of which a failing one keeps some.\<close>

definition replace_rows :: "replace_fault option \<Rightarrow> ('a \<Rightarrow> bool) \<Rightarrow> string \<Rightarrow> 'a list \<Rightarrow> (string \<times> 'a) list \<Rightarrow> (string \<times> 'a) list" where
  "replace_rows fails inserted device rows coll = (if fails = Some Delete_Fails then coll
     else filter (\<lambda>(d, _). d \<noteq> device) coll
       @ map (\<lambda>r. (device, r)) (if fails = Some Insert_Fails then filter inserted rows else rows))"

definition rows_of :: "string \<Rightarrow> (string \<times> 'a) list \<Rightarrow> 'a list" where
  "rows_of device coll = map snd (filter (\<lambda>(d, _). d = device) coll)"

definition save_fdb :: "replace_fault option \<Rightarrow> (fdb_row \<Rightarrow> bool) \<Rightarrow> string \<Rightarrow> fdb_row list \<Rightarrow> mongo \<Rightarrow> mongo" where
  "save_fdb fails inserted device rows m = (if \<not> mg_client m then m
     else m\<lparr>mg_fdb := replace_rows fails inserted device rows (mg_fdb m)\<rparr>)"

definition search_fdb :: "bool \<Rightarrow> string \<Rightarrow> int \<Rightarrow> mongo \<Rightarrow> (string \<times> fdb_row) list" where
  "search_fdb up mac limit m = (if \<not> mg_client m \<or> \<not> up then []
     else mongo_limit limit (sort_key (\<lambda>(d, r). fr_port_macs r) (filter (\<lambda>(d, r). fr_mac r = mac) (mg_fdb m))))"

definition load_fdb :: "bool \<Rightarrow> string \<Rightarrow> mongo \<Rightarrow> fdb_row list" where
  "load_fdb up device m = (if \<not> mg_client m \<or> \<not> up then [] else sort_key fr_ifindex (rows_of device (mg_fdb m)))"

definition save_neighbors :: "replace_fault option \<Rightarrow> (neighbor \<Rightarrow> bool) \<Rightarrow> string \<Rightarrow> neighbor list \<Rightarrow> mongo \<Rightarrow> mongo" where
  "save_neighbors fails inserted device rows m = (if \<not> mg_client m then m
     else m\<lparr>mg_neighbors := replace_rows fails inserted device rows (mg_neighbors m)\<rparr>)"

definition load_neighbors :: "bool \<Rightarrow> string \<Rightarrow> mongo \<Rightarrow> neighbor list" where
  "load_neighbors up device m = (if \<not> mg_client m \<or> \<not> up then [] else rows_of device (mg_neighbors m))"

definition save_trap :: "bool \<Rightarrow> trap_doc \<Rightarrow> mongo \<Rightarrow> mongo" where
  "save_trap up d m = (if \<not> mg_client m \<or> \<not> up then m else m\<lparr>mg_traps := mg_traps m @ [d]\<rparr>)"

definition query_traps :: "bool \<Rightarrow> string \<Rightarrow> severity option \<Rightarrow> datetime option \<Rightarrow> int \<Rightarrow> mongo \<Rightarrow> trap_doc list" where
  "query_traps up switch sev since limit m = (if \<not> mg_client m \<or> \<not> up then []
     else mongo_limit limit (sort_key (\<lambda>d. - dt_us (td_ts d)) (filter (\<lambda>d. (switch = [] \<or> td_switch d = switch)
       \<and> (case sev of None \<Rightarrow> True | Some s \<Rightarrow> tp_severity (td_trap d) = s)
       \<and> (case since of None \<Rightarrow> True | Some t \<Rightarrow> dt_us t \<le> dt_us (td_ts d))) (mg_traps m))))"

definition mongo_close :: "mongo \<Rightarrow> mongo" where
  "mongo_close m = m\<lparr>mg_client := False\<rparr>"

text \<open>\<open>_redact_uri\<close>: what the log shows of a connection string.\<close>

definition redact_uri :: "string \<Rightarrow> string" where
  "redact_uri uri = (if CHR ''@'' \<in> set uri then (case split_once ''://'' uri of
       None \<Rightarrow> uri
     | Some (scheme, rest) \<Rightarrow> (case split_once ''@'' rest of
         None \<Rightarrow> uri | Some (creds, host) \<Rightarrow> scheme @ ''://***@'' @ host)) else uri)"

end
