(* ===== verification/Mongo_Proofs.thy ===== *)
theory Mongo_Proofs
  imports Mongo_Store
begin

text \<open>
  The MongoDB backend: a snapshot comes back up to the order of the devices; what an outage at the
  start of the agent does to the stored devices; counters survive a restart.
\<close>

lemma upsert_all_get: "dget (upsert_all ops d) k = (case map_of (rev ops) k of None \<Rightarrow> dget d k | Some v \<Rightarrow> Some v)"
  unfolding upsert_all_def by (induction ops arbitrary: d) (auto simp: map_add_def split: option.splits)

lemma upsert_all_distinct: "distinct (dkeys d) \<Longrightarrow> distinct (dkeys (upsert_all ops d))"
  unfolding upsert_all_def by (induction ops arbitrary: d) (auto simp: distinct_update)

lemma map_of_reversed: "distinct (map fst ops) \<Longrightarrow> map_of (rev ops) k = map_of ops k"
proof -
  assume "distinct (map fst ops)"
  then have "map_of (rev ops) k = Some v \<longleftrightarrow> map_of ops k = Some v" for v by (simp add: rev_map [symmetric])
  then show ?thesis by (metis option.exhaust)
qed

lemma dkeys_filter_key: "dkeys (filter (\<lambda>(n, _). P n) d) = filter P (dkeys d)"
  by (induction d) auto

lemma dget_filter_keys: "dget (filter (\<lambda>(n, _). P n) d) k = (if P k then dget d k else None)"
  by (induction d) auto

lemma same_map_mset:
  assumes "distinct (dkeys a)" "distinct (dkeys b)" "\<And>k. dget a k = dget b k"
  shows "mset a = mset b"
proof -
  have "set a = set b" using assms by (metis map_of_eq_Some_iff subsetI subset_antisym surj_pair)
  then show ?thesis using assms(1,2) by (metis distinct_map set_eq_iff_mset_eq_distinct)
qed

text \<open>The devices a complete save leaves are exactly the entries of the payload.\<close>

lemma saved_devices:
  assumes "distinct (map fst ops)" "distinct (dkeys d)"
  shows "mset (filter (\<lambda>(n, _). n \<in> set (map fst ops)) (upsert_all ops d)) = mset ops"
proof (rule same_map_mset)
  have r: "map_of (rev ops) k = map_of ops k" for k using assms(1) by (rule map_of_reversed)
  show "dget (filter (\<lambda>(n, _). n \<in> set (map fst ops)) (upsert_all ops d)) k = dget ops k" for k
    using map_of_eq_None_iff [of ops k] by (cases "dget ops k") (simp_all add: dget_filter_keys upsert_all_get r)
  show "distinct (dkeys (filter (\<lambda>(n, _). n \<in> set (map fst ops)) (upsert_all ops d)))"
    using upsert_all_distinct [OF assms(2)] by (simp add: dkeys_filter_key)
qed (rule assms(1))

lemma named_switches:
  assumes "\<forall>(k, sw) \<in> set d. sw_name sw \<noteq> []"
  shows "named_entries (map switch_json (dvals d)) = map (\<lambda>(k, sw). (sw_name sw, case switch_json sw of JObj kvs \<Rightarrow> kvs | _ \<Rightarrow> [])) d"
  using assms unfolding named_entries_def by (induction d) (auto simp: switch_json_def)

definition switch_named :: "string \<Rightarrow> switch_state \<Rightarrow> bool" where
  "switch_named k sw \<longleftrightarrow> k = sw_name sw \<and> k \<noteq> []"

text \<open>
  C19: A snapshot saved without failures comes back with every run-time value and with the same
  switches, in some order, whatever the collections held before.
\<close>

theorem mongo_round_trip:
  assumes "mg_client m" and "distinct (dkeys (mg_devices m))" and "dict_ok switch_named (switches st)"
  shows "\<exists>ds. mset ds = mset (map switch_json (dvals (switches st)))
    \<and> mongo_load True (mongo_save None written (payload st) m) = Some (JObj
        [(''switches'', JArr ds), (''backup'', backup_json (backup st)), (''device_inventory'', JArr (device_inventory st)),
         (''scanner_last_run'', iso (scanner_last_run st)),
         (''arp_last_run'', JObj (map (\<lambda>(loc, ts). (loc, iso ts)) (arp_last_run st)))])"
proof -
  let ?ops = "named_entries (map switch_json (dvals (switches st)))"
  let ?doc = "\<lambda>sw. case switch_json sw of JObj kvs \<Rightarrow> kvs | _ \<Rightarrow> []"
  let ?rt = "[(''backup'', backup_json (backup st)), (''device_inventory'', JArr (device_inventory st)),
      (''scanner_last_run'', iso (scanner_last_run st)),
      (''arp_last_run'', JObj (map (\<lambda>(loc, ts). (loc, iso ts)) (arp_last_run st)))]"
  let ?left = "filter (\<lambda>(n, _). n \<in> set (map fst ?ops)) (upsert_all ?ops (mg_devices m))"
  have n: "\<forall>(k, sw) \<in> set (switches st). sw_name sw \<noteq> []" "\<forall>(k, sw) \<in> set (switches st). k = sw_name sw"
    using assms(3) by (auto simp: dict_ok_def switch_named_def)
  have ops: "?ops = map (\<lambda>(k, sw). (sw_name sw, ?doc sw)) (switches st)" by (rule named_switches [OF n(1)])
  have keys: "map fst ?ops = dkeys (switches st)" unfolding ops using n(2) by (auto simp: case_prod_unfold)
  have "mset ?left = mset ?ops"
    using assms(3) keys by (intro saved_devices [OF _ assms(2)]) (simp add: dict_ok_def)
  then have "mset (map JObj (dvals ?left)) = mset (map JObj (dvals ?ops))" by (simp only: mset_map)
  also have "map JObj (dvals ?ops) = map switch_json (dvals (switches st))"
    unfolding ops by (auto simp: case_prod_unfold switch_json_def)
  finally have ms: "mset (map JObj (dvals ?left)) = mset (map switch_json (dvals (switches st)))" .
  have sk: "some_keys ((''switches'', sws) # ?rt) runtime_keys = ?rt" "some_keys ?rt runtime_keys = ?rt" for sws
    by (simp_all add: some_keys_def runtime_keys_def)
  have "mongo_save None written (payload st) m = m\<lparr>mg_devices := ?left, mg_runtime := Some ?rt\<rparr>"
    using assms(1) sk(1) by (simp add: mongo_save_def payload_def Let_def)
  then have "mongo_load True (mongo_save None written (payload st) m)
      = Some (JObj ((''switches'', JArr (map JObj (dvals ?left))) # ?rt))"
    using assms(1) sk(2) by (simp add: mongo_load_def Let_def)
  with ms show ?thesis by blast
qed

text \<open>
  C20: When the server cannot be reached while the agent starts, the agent begins with no switches,
  and the first save after the server is back deletes every stored device that the agent has not
  registered again and replaces the run-time values: the outage costs the whole stored state.
\<close>

theorem outage_at_start_erases_devices:
  assumes "mg_client m" and "dict_ok switch_named (switches st)" and "dget (switches st) name = None"
  shows "switches (load_snapshot (mongo_load False m)) = []
    \<and> dget (mg_devices (mongo_save None written (payload st) m)) name = None
    \<and> (\<exists>rt. mg_runtime (mongo_save None written (payload st) m) = Some rt
        \<and> map_of rt ''backup'' = Some (backup_json (backup st)))"
proof -
  have n: "\<forall>(k, sw) \<in> set (switches st). sw_name sw \<noteq> []" "\<forall>(k, sw) \<in> set (switches st). k = sw_name sw"
    using assms(2) by (auto simp: dict_ok_def switch_named_def)
  have "map fst (named_entries (map switch_json (dvals (switches st)))) = dkeys (switches st)"
    unfolding named_switches [OF n(1)] using n(2) by (auto simp: case_prod_unfold)
  then have "name \<notin> set (map fst (named_entries (map switch_json (dvals (switches st)))))"
    using assms(3) by (simp add: map_of_eq_None_iff)
  then show ?thesis using assms(1)
    by (simp add: mongo_load_def load_snapshot_def empty_data_def mongo_save_def payload_def Let_def dget_filter_keys
        some_keys_def runtime_keys_def)
qed

lemma load_save_counters:
  "mg_client m \<Longrightarrow> load_counters True d (save_counters True d cs m) = Some (map (\<lambda>(i, (t, a, b)). (i, (t, int_str a, int_str b))) cs)"
  by (simp add: load_counters_def save_counters_def)

lemma rows_of_replace: "rows_of d (replace_rows None p d rows coll) = rows"
  by (simp add: rows_of_def replace_rows_def filter_map comp_def filter_filter case_prod_unfold)

definition empty_mongo :: mongo where
  "empty_mongo = \<lparr>mg_client = True, mg_devices = [(''old'', [(''name'', JStr ''old''), (''host'', JStr ''10.0.0.9'')])],
     mg_runtime = None, mg_metrics = [], mg_counters = [], mg_fdb = [], mg_neighbors = [], mg_traps = []\<rparr>"

definition one_switch :: agent_state where
  "one_switch = agent_data.extend (empty_data\<lparr>switches := [(''sw1'', new_switch ''sw1'' ''10.0.0.1'' ''auto'')]\<rparr>)
     \<lparr>store = open_json_store\<rparr>"

lemma one_switch_ok: "dict_ok switch_named (switches one_switch)"
  by (simp add: one_switch_def agent_data.defs empty_data_def dict_ok_def switch_named_def new_switch_def)

theorem mongo_round_trip_witness:
  "\<exists>ds rest. mset ds = mset [switch_json (new_switch ''sw1'' ''10.0.0.1'' ''auto'')]
    \<and> mongo_load True (mongo_save None (\<lambda>_. False) (payload one_switch) empty_mongo) = Some (JObj ((''switches'', JArr ds) # rest))"
proof -
  have "mg_client empty_mongo" "distinct (dkeys (mg_devices empty_mongo))" by (simp_all add: empty_mongo_def)
  from mongo_round_trip [OF this one_switch_ok, of "\<lambda>_. False"]
  obtain ds where "mset ds = mset (map switch_json (dvals (switches one_switch)))"
    "\<exists>rest. mongo_load True (mongo_save None (\<lambda>_. False) (payload one_switch) empty_mongo) = Some (JObj ((''switches'', JArr ds) # rest))"
    by blast
  moreover have "map switch_json (dvals (switches one_switch)) = [switch_json (new_switch ''sw1'' ''10.0.0.1'' ''auto'')]"
    by (simp add: one_switch_def agent_data.defs empty_data_def)
  ultimately show ?thesis by metis
qed

theorem outage_at_start_erases_devices_witness:
  "dget (mg_devices empty_mongo) ''old'' \<noteq> None
   \<and> dget (mg_devices (mongo_save None (\<lambda>_. True) (payload one_switch) empty_mongo)) ''old'' = None"
proof -
  have "mg_client empty_mongo" "dget (switches one_switch) ''old'' = None"
    by (simp_all add: empty_mongo_def one_switch_def agent_data.defs empty_data_def)
  from outage_at_start_erases_devices [OF this(1) one_switch_ok this(2), of "\<lambda>_. True"]
  show ?thesis by (simp add: empty_mongo_def)
qed

end
