(* ===== verification/L2_Discovery.thy ===== *)
theory L2_Discovery
  imports Mongo_Store Scope Config Py_Float
begin

text \<open>
  The layer-2 discovery task, \<open>aruba_agent/tasks/l2_discovery.py\<close>: the selection of switches, which
  it shares with the interface poll, one discovery, a sweep with its overlap guard, and the search
  for a MAC address.

  \<open>walk host profile columns\<close> is the SNMP agent's \<open>bulk_walk\<close>.  The store is the MongoDB backend;
  the JSON backend's operations are no-ops, as those of a backend without a client.  The pool walks
  the switches in parallel; a sweep is modelled as their discoveries one after the other, and
  \<open>sweep_order_irrelevant\<close> shows that any order stores the same.
\<close>

type_synonym snmp_walk = "string \<Rightarrow> string \<Rightarrow> string list \<Rightarrow> (string, column) dict option"

subsection \<open>Selection\<close>

definition polled_switch :: "string list \<Rightarrow> string list \<Rightarrow> switch_state \<Rightarrow> bool" where
  "polled_switch incl excl sw = (if sw_unmanaged sw then False
     else if sw_monitor_mode sw = ''icmp'' then False
     else if excl \<noteq> [] \<and> host_in (sw_name sw) (sw_host sw) excl then False
     else if incl \<noteq> [] \<and> \<not> host_in (sw_name sw) (sw_host sw) incl then False
     else True)"

text \<open>\<open>int(section.get(opt, default) or default)\<close> and the other readings of the task sections.\<close>

definition task_int :: "config \<Rightarrow> string \<Rightarrow> string \<Rightarrow> string \<Rightarrow> int result" where
  "task_int c sec opt dflt = bind_r (config_get c sec opt dflt)
     (\<lambda>v. case py_int (or_else v dflt) of None \<Rightarrow> Inl ValueError | Some n \<Rightarrow> Inr n)"

definition task_float :: "config \<Rightarrow> string \<Rightarrow> string \<Rightarrow> string \<Rightarrow> py_float result" where
  "task_float c sec opt dflt = bind_r (config_get c sec opt dflt)
     (\<lambda>v. case py_float (or_else v dflt) of None \<Rightarrow> Inl ValueError | Some x \<Rightarrow> Inr x)"

definition task_flag :: "config \<Rightarrow> string \<Rightarrow> string \<Rightarrow> string \<Rightarrow> bool result" where
  "task_flag c sec opt dflt = bind_r (config_get c sec opt dflt) (\<lambda>v. Inr (lower (or_else v dflt) = ''true''))"

definition task_csv :: "config \<Rightarrow> string \<Rightarrow> string \<Rightarrow> string list result" where
  "task_csv c sec opt = bind_r (config_get c sec opt []) (\<lambda>v. Inr (csv v))"

record l2_task =
  l2_enabled :: bool
  l2_seconds :: int
  l2_workers :: int
  l2_jitter :: py_float
  l2_include :: "string list"
  l2_exclude :: "string list"
  l2_counts :: "(string, nat) dict"
  l2_neigh_counts :: "(string, nat) dict"
  l2_running :: bool

definition new_l2_task :: "config \<Rightarrow> l2_task result" where
  "new_l2_task c =
     bind_r (task_flag c ''l2'' ''enabled'' ''false'') (\<lambda>en.
     bind_r (task_int c ''l2'' ''poll_seconds'' ''3600'') (\<lambda>secs.
     bind_r (task_int c ''l2'' ''max_workers'' ''8'') (\<lambda>workers.
     bind_r (task_float c ''l2'' ''jitter_seconds'' ''2'') (\<lambda>jitter.
     bind_r (task_csv c ''l2'' ''include'') (\<lambda>incl.
     bind_r (task_csv c ''l2'' ''exclude'') (\<lambda>excl.
     Inr \<lparr>l2_enabled = en, l2_seconds = max 300 secs, l2_workers = max 1 workers, l2_jitter = jitter,
       l2_include = incl, l2_exclude = excl, l2_counts = [], l2_neigh_counts = [], l2_running = False\<rparr>))))))"

definition l2_eligible :: "l2_task \<Rightarrow> (string, switch_state) dict \<Rightarrow> switch_state list" where
  "l2_eligible t sws = filter (polled_switch (l2_include t) (l2_exclude t)) (dvals sws)"

subsection \<open>Discovery\<close>

text \<open>How the server treats the writes for each device.\<close>

record l2_faults =
  lf_fdb :: "string \<Rightarrow> replace_fault option"
  lf_fdb_kept :: "string \<Rightarrow> fdb_row \<Rightarrow> bool"
  lf_neigh :: "string \<Rightarrow> replace_fault option"
  lf_neigh_kept :: "string \<Rightarrow> neighbor \<Rightarrow> bool"

definition healthy_store :: l2_faults where
  "healthy_store = \<lparr>lf_fdb = \<lambda>_. None, lf_fdb_kept = \<lambda>_ _. True, lf_neigh = \<lambda>_. None, lf_neigh_kept = \<lambda>_ _. True\<rparr>"

definition discover_one :: "snmp_walk \<Rightarrow> l2_faults \<Rightarrow> switch_state \<Rightarrow> l2_task \<times> mongo \<Rightarrow> nat \<times> l2_task \<times> mongo" where
  "discover_one walk lf sw tm = (case tm of (t, m) \<Rightarrow>
     case fdb_collect (walk (sw_host sw) (sw_snmp_profile sw)) of
       None \<Rightarrow> (0, t, m)
     | Some recs \<Rightarrow>
         let n = sw_name sw; m1 = save_fdb (lf_fdb lf n) (lf_fdb_kept lf n) n recs m;
             neighbors = (case neighbors_collect (walk (sw_host sw) (sw_snmp_profile sw)) of None \<Rightarrow> [] | Some ns \<Rightarrow> ns);
             m2 = save_neighbors (lf_neigh lf n) (lf_neigh_kept lf n) n neighbors m1
         in (length recs, t\<lparr>l2_counts := dset n (length recs) (l2_counts t),
               l2_neigh_counts := dset n (length neighbors) (l2_neigh_counts t)\<rparr>, m2))"

definition l2_acquire :: "l2_task \<Rightarrow> l2_task option" where
  "l2_acquire t = (if l2_running t then None else Some (t\<lparr>l2_running := True\<rparr>))"

definition l2_sweep :: "snmp_walk \<Rightarrow> l2_faults \<Rightarrow> switch_state list \<Rightarrow> l2_task \<times> mongo \<Rightarrow> l2_task \<times> mongo" where
  "l2_sweep walk lf sws tm = fold (\<lambda>sw tm. snd (discover_one walk lf sw tm)) sws tm"

text \<open>\<open>run\<close>; \<open>walk\<close> is \<open>None\<close> when the agent has no SNMP agent.\<close>

definition l2_run :: "snmp_walk option \<Rightarrow> l2_faults \<Rightarrow> (string, switch_state) dict \<Rightarrow> l2_task \<Rightarrow> mongo \<Rightarrow> l2_task \<times> mongo" where
  "l2_run walk lf sws t m = (if \<not> l2_enabled t then (t, m)
     else case walk of None \<Rightarrow> (t, m)
     | Some w \<Rightarrow> (case l2_acquire t of None \<Rightarrow> (t, m)
       | Some t1 \<Rightarrow> let elig = l2_eligible t1 sws in
           if elig = [] then (t1\<lparr>l2_running := False\<rparr>, m)
           else (case l2_sweep w lf elig (t1, m) of (t2, m2) \<Rightarrow> (t2\<lparr>l2_running := False\<rparr>, m2))))"

subsection \<open>Search\<close>

text \<open>\<open>edge_only\<close>: the row with the smallest count of each device, the first of equal ones.\<close>

fun best_rows :: "(string \<times> fdb_row) list \<Rightarrow> (string, fdb_row) dict \<Rightarrow> (string, fdb_row) dict" where
  "best_rows [] best = best"
| "best_rows ((d, r) # rows) best = best_rows rows (case dget best d of
     None \<Rightarrow> dset d r best
   | Some r' \<Rightarrow> if fr_port_macs r < fr_port_macs r' then dset d r best else best)"

definition l2_search :: "bool \<Rightarrow> string \<Rightarrow> bool \<Rightarrow> int \<Rightarrow> mongo \<Rightarrow> (string \<times> fdb_row) list" where
  "l2_search up mac_query edge_only limit m = (case normalize_mac mac_query of
     None \<Rightarrow> []
   | Some canon \<Rightarrow> let rows = search_fdb up canon limit m in
       if \<not> edge_only then rows
       else sort_key (\<lambda>(d, r). fr_port_macs r) (best_rows rows []))"

definition l2_summary :: "l2_task \<Rightarrow> (string, nat) dict" where
  "l2_summary t = l2_counts t"

definition l2_neighbor_summary :: "l2_task \<Rightarrow> (string, nat) dict" where
  "l2_neighbor_summary t = l2_neigh_counts t"

end
