(* ===== verification/L2_Proofs.thy ===== *)
theory L2_Proofs
  imports L2_Discovery
begin

text \<open>
  Layer-2 discovery: the shape of the forwarding records, the capability bits, independence of a
  sweep from the order of the pool, the search for a MAC, and what a device that stops answering
  does to its stored rows.
\<close>

subsection \<open>Rows kept per device\<close>

text \<open>
  The contract of the per-device collections: writing the rows of a device replaces them and leaves
  the other devices alone.
\<close>

locale device_rows =
  fixes put :: "string \<Rightarrow> 'r list \<Rightarrow> 's \<Rightarrow> 's"
    and rows :: "string \<Rightarrow> 's \<Rightarrow> 'r list"
  assumes rows_put: "rows d (put d' rs s) = (if d = d' then rs else rows d s)"
begin

definition put_all :: "('x \<Rightarrow> string) \<Rightarrow> ('x \<Rightarrow> 'r list option) \<Rightarrow> 'x list \<Rightarrow> 's \<Rightarrow> 's" where
  "put_all key f xs s = fold (\<lambda>x s. case f x of None \<Rightarrow> s | Some rs \<Rightarrow> put (key x) rs s) xs s"

lemma put_all_Nil: "put_all key f [] s = s"
  by (simp add: put_all_def)

lemma put_all_Cons: "put_all key f (x # xs) s = put_all key f xs (case f x of None \<Rightarrow> s | Some rs \<Rightarrow> put (key x) rs s)"
  by (simp add: put_all_def)

lemma rows_absent: "d \<notin> key ` set xs \<Longrightarrow> rows d (put_all key f xs s) = rows d s"
  by (induction xs arbitrary: s) (auto simp: put_all_Nil put_all_Cons rows_put split: option.splits)

lemma rows_present:
  "distinct (map key xs) \<Longrightarrow> x \<in> set xs \<Longrightarrow>
   rows (key x) (put_all key f xs s) = (case f x of None \<Rightarrow> rows (key x) s | Some rs \<Rightarrow> rs)"
proof (induction xs arbitrary: s)
  case (Cons y ys)
  show ?case
  proof (cases "y = x")
    case True
    then have "key x \<notin> key ` set ys" using Cons.prems(1) by simp
    then show ?thesis using True by (simp add: put_all_Cons rows_absent rows_put split: option.split)
  next
    case False
    then have x: "x \<in> set ys" using Cons.prems by simp
    then have "key x \<noteq> key y" using Cons.prems(1) by (metis distinct.simps(2) image_eqI list.set_map list.simps(9))
    note x = x this
    then show ?thesis using x Cons by (simp add: put_all_Cons rows_put split: option.split)
  qed
qed simp

lemma rows_permuted:
  assumes "distinct (map key xs)" "mset ys = mset xs"
  shows "rows d (put_all key f ys s) = rows d (put_all key f xs s)"
proof (cases "d \<in> key ` set xs")
  case True
  then obtain x where x: "x \<in> set xs" "d = key x" by blast
  have "distinct (map key ys)" "x \<in> set ys" using assms x(1) by (metis mset_eq_imp_distinct_iff mset_map, metis set_mset_mset)
  then show ?thesis using assms(1) x rows_present by metis
next
  case False
  moreover have "set ys = set xs" using assms(2) by (metis set_mset_mset)
  ultimately show ?thesis by (simp add: rows_absent)
qed

end

lemma rows_of_replaced: "rows_of d (replace_rows None p d' rs coll) = (if d = d' then rs else rows_of d coll)"
  by (induction coll) (auto simp: rows_of_def replace_rows_def filter_map comp_def case_prod_unfold)

interpretation kept: device_rows "replace_rows None (\<lambda>_. True)" rows_of
  by unfold_locales (rule rows_of_replaced)

subsection \<open>A sweep on a healthy store\<close>

definition fdb_answer :: "snmp_walk \<Rightarrow> switch_state \<Rightarrow> fdb_row list option" where
  "fdb_answer walk sw = fdb_collect (walk (sw_host sw) (sw_snmp_profile sw))"

definition neighbor_answer :: "snmp_walk \<Rightarrow> switch_state \<Rightarrow> neighbor list option" where
  "neighbor_answer walk sw = (if fdb_answer walk sw = None then None
     else Some (case neighbors_collect (walk (sw_host sw) (sw_snmp_profile sw)) of None \<Rightarrow> [] | Some ns \<Rightarrow> ns))"

lemma discover_store:
  assumes "mg_client m" "snd (discover_one walk healthy_store sw (t, m)) = (t', m')"
  shows "mg_client m'"
    "mg_fdb m' = (case fdb_answer walk sw of None \<Rightarrow> mg_fdb m
       | Some rs \<Rightarrow> replace_rows None (\<lambda>_. True) (sw_name sw) rs (mg_fdb m))"
    "mg_neighbors m' = (case neighbor_answer walk sw of None \<Rightarrow> mg_neighbors m
       | Some rs \<Rightarrow> replace_rows None (\<lambda>_. True) (sw_name sw) rs (mg_neighbors m))"
  using assms
  by (auto simp: discover_one_def fdb_answer_def neighbor_answer_def healthy_store_def save_fdb_def save_neighbors_def Let_def
      split: option.splits)

lemma sweep_store:
  "mg_client m \<Longrightarrow> mg_client (snd (l2_sweep walk healthy_store sws (t, m)))
     \<and> mg_fdb (snd (l2_sweep walk healthy_store sws (t, m))) = kept.put_all sw_name (fdb_answer walk) sws (mg_fdb m)
     \<and> mg_neighbors (snd (l2_sweep walk healthy_store sws (t, m))) = kept.put_all sw_name (neighbor_answer walk) sws (mg_neighbors m)"
proof (induction sws arbitrary: t m)
  case (Cons sw sws)
  obtain t' m1 where d: "snd (discover_one walk healthy_store sw (t, m)) = (t', m1)" by fastforce
  note s = discover_store [OF Cons.prems d]
  have "l2_sweep walk healthy_store (sw # sws) (t, m) = l2_sweep walk healthy_store sws (t', m1)"
    by (simp add: l2_sweep_def d)
  then show ?case using Cons.IH [OF s(1), of t'] s(2,3) by (simp only: kept.put_all_Cons)
qed (simp add: l2_sweep_def kept.put_all_Nil)

lemma sweep_rows:
  assumes "mg_client m" "distinct (map sw_name sws)" "sw \<in> set sws" "fdb_answer walk sw = Some recs"
  shows "rows_of (sw_name sw) (mg_fdb (snd (l2_sweep walk healthy_store sws (t, m)))) = recs"
  using sweep_store [OF assms(1)] kept.rows_present [OF assms(2,3), of "fdb_answer walk" "mg_fdb m"] assms(4) by simp

lemma sweep_neighbors:
  assumes "mg_client m" "distinct (map sw_name sws)" "sw \<in> set sws" "neighbor_answer walk sw = Some ns"
  shows "rows_of (sw_name sw) (mg_neighbors (snd (l2_sweep walk healthy_store sws (t, m)))) = ns"
  using sweep_store [OF assms(1)] kept.rows_present [OF assms(2,3), of "neighbor_answer walk" "mg_neighbors m"] assms(4) by simp

text \<open>
  C22: The pool may finish the switches of a sweep in any order: what a healthy store holds for every
  device afterwards, forwarding entries and neighbours, is the same.
\<close>

theorem sweep_order_irrelevant:
  assumes "mg_client m" and "distinct (map sw_name sws)" and "mset sws' = mset sws"
  shows "load_fdb True d (snd (l2_sweep walk healthy_store sws' (t, m))) = load_fdb True d (snd (l2_sweep walk healthy_store sws (t, m)))
    \<and> load_neighbors True d (snd (l2_sweep walk healthy_store sws' (t, m))) = load_neighbors True d (snd (l2_sweep walk healthy_store sws (t, m)))"
  using sweep_store [OF assms(1), of walk sws t] sweep_store [OF assms(1), of walk sws' t]
    kept.rows_permuted [OF assms(2,3), of d "fdb_answer walk" "mg_fdb m"]
    kept.rows_permuted [OF assms(2,3), of d "neighbor_answer walk" "mg_neighbors m"]
  by (simp add: load_fdb_def load_neighbors_def)

lemma run_sweeps:
  assumes "l2_enabled t" "\<not> l2_running t" "sw \<in> set (l2_eligible t sws)"
  shows "snd (l2_run (Some walk) lf sws t m) = snd (l2_sweep walk lf (l2_eligible t sws) (t\<lparr>l2_running := True\<rparr>, m))"
proof -
  have "l2_eligible (t\<lparr>l2_running := True\<rparr>) sws = l2_eligible t sws" by (simp add: l2_eligible_def)
  then show ?thesis using assms by (auto simp: l2_run_def l2_acquire_def Let_def split: prod.split)
qed

lemma eligible_distinct:
  assumes "dict_ok (\<lambda>k sw. k = sw_name sw) sws"
  shows "distinct (map sw_name (l2_eligible t sws))"
proof -
  have "map sw_name (dvals sws) = dkeys sws" using assms by (auto simp: dict_ok_def)
  then show ?thesis using assms unfolding l2_eligible_def by (metis dict_ok_distinct distinct_map_filter)
qed

subsection \<open>Search\<close>

lemma best_rows_keeps: "dget best d = Some r \<Longrightarrow> \<exists>r'. dget (best_rows rows best) d = Some r' \<and> fr_port_macs r' \<le> fr_port_macs r"
proof (induction rows best arbitrary: r rule: best_rows.induct)
  case (2 d' r' rows best)
  let ?b = "case dget best d' of None \<Rightarrow> dset d' r' best
    | Some q \<Rightarrow> if fr_port_macs r' < fr_port_macs q then dset d' r' best else best"
  have "\<exists>q. dget ?b d = Some q \<and> fr_port_macs q \<le> fr_port_macs r" using 2(2) by (auto split: option.split)
  then obtain q where "dget ?b d = Some q" "fr_port_macs q \<le> fr_port_macs r" by blast
  then show ?case using 2(1) by (fastforce intro: order_trans)
qed simp

lemma best_rows_least:
  "(d, r) \<in> set rows \<Longrightarrow> \<exists>r'. dget (best_rows rows best) d = Some r' \<and> fr_port_macs r' \<le> fr_port_macs r"
proof (induction rows best rule: best_rows.induct)
  case (2 d' r' rows best)
  show ?case
  proof (cases "(d, r) = (d', r')")
    case True
    let ?b = "case dget best d' of None \<Rightarrow> dset d' r' best
      | Some q \<Rightarrow> if fr_port_macs r' < fr_port_macs q then dset d' r' best else best"
    have "\<exists>q. dget ?b d = Some q \<and> fr_port_macs q \<le> fr_port_macs r"
      using True by (cases "dget best d'") auto
    then obtain q where "dget ?b d = Some q" "fr_port_macs q \<le> fr_port_macs r" by blast
    then show ?thesis using best_rows_keeps [of ?b d q rows] by (fastforce intro: order_trans)
  next
    case False
    then have "(d, r) \<in> set rows" using 2(2) by auto
    then show ?thesis using 2(1) by simp
  qed
qed simp

lemma best_rows_from: "dget (best_rows rows best) d = Some r \<Longrightarrow> dget best d = Some r \<or> (d, r) \<in> set rows"
  by (induction rows best rule: best_rows.induct) (auto split: option.splits if_splits)

lemma best_rows_distinct: "distinct (dkeys best) \<Longrightarrow> distinct (dkeys (best_rows rows best))"
  by (induction rows best rule: best_rows.induct) (auto simp: distinct_update split: option.splits)

text \<open>What a search without a limit finds for a device: the row of its port with the fewest MACs.\<close>

lemma search_device:
  assumes "mg_client m" "normalize_mac query = Some mac" "r \<in> set (rows_of d (mg_fdb m))" "fr_mac r = mac"
  shows "\<exists>r'. (d, r') \<in> set (l2_search True query True 0 m) \<and> r' \<in> set (rows_of d (mg_fdb m)) \<and> fr_mac r' = mac
    \<and> fr_port_macs r' \<le> fr_port_macs r"
proof -
  let ?rows = "search_fdb True mac 0 m"
  have rows: "set ?rows = {(d, r) \<in> set (mg_fdb m). fr_mac r = mac}"
    using assms(1) by (auto simp: search_fdb_def mongo_limit_def)
  then have "(d, r) \<in> set ?rows" using assms(3,4) by (auto simp: rows_of_def)
  from best_rows_least [OF this, of "[]"] obtain r' where
    r': "dget (best_rows ?rows []) d = Some r'" "fr_port_macs r' \<le> fr_port_macs r" by blast
  then have m: "(d, r') \<in> set ?rows" by (auto dest: best_rows_from)
  have "(d, r') \<in> set (l2_search True query True 0 m)"
    using r'(1) assms(2) by (simp add: l2_search_def Let_def map_of_SomeD)
  moreover have "r' \<in> set (rows_of d (mg_fdb m))" "fr_mac r' = mac" using m rows by (force simp: rows_of_def)+
  ultimately show ?thesis using r'(2) by blast
qed

text \<open>
  After a sweep of an enabled task on a healthy store, a search for any spelling of a MAC that an
  eligible switch has learned finds that switch, on the port that learned the fewest MACs among those
  of the switch that learned this one.
\<close>

theorem search_finds_learned_mac:
  assumes "l2_enabled t" and "\<not> l2_running t" and "mg_client m" and "dict_ok (\<lambda>k sw. k = sw_name sw) sws"
    and "sw \<in> set (l2_eligible t sws)"
    and "walk (sw_host sw) (sw_snmp_profile sw) fdb_walk_bases = Some columns"
    and "r \<in> set (assemble_fdb columns)" and "normalize_mac query = Some (fr_mac r)"
  shows "\<exists>r'. (sw_name sw, r') \<in> set (l2_search True query True 0 (snd (l2_run (Some walk) healthy_store sws t m)))
    \<and> r' \<in> set (assemble_fdb columns) \<and> fr_mac r' = fr_mac r \<and> fr_port_macs r' \<le> fr_port_macs r"
proof -
  let ?m = "snd (l2_run (Some walk) healthy_store sws t m)"
  note run = run_sweeps [OF assms(1,2,5), of walk healthy_store m]
  have "fdb_answer walk sw = Some (assemble_fdb columns)" using assms(6) by (simp add: fdb_answer_def fdb_collect_def)
  then have rows: "rows_of (sw_name sw) (mg_fdb ?m) = assemble_fdb columns"
    unfolding run by (rule sweep_rows [OF assms(3) eligible_distinct [OF assms(4)] assms(5)])
  have "mg_client ?m" unfolding run using sweep_store [OF assms(3)] by blast
  from search_device [OF this assms(8), of r "sw_name sw"] assms(7) show ?thesis unfolding rows by simp
qed

subsection \<open>A device that stops answering\<close>

lemma bulk_walk_silent:
  assumes "0 < max_rows" "\<And>p k oid. reply p host k oid = Inr [Err_Indication e]"
    and "dget (r_profiles r) (or_else prof (r_default r)) = Some p" "c_context_engine_id (p_creds p) = []" "bases \<noteq> []"
  shows "fst (bulk_walk None bad_hex reply max_rows r host bases prof) = Some (map (\<lambda>b. (b, [])) (dedupe bases))"
proof -
  let ?res = "map (\<lambda>b. (b, [])) (dedupe bases) :: (string, column) dict"
  have "dget ?res b = Some []" if "b \<in> set bases" for b
    using that set_dedupe [of bases] by (induction "dedupe bases" arbitrary: b rule: list.induct)
      (auto simp: map_of_map_restrict restrict_map_def)
  then obtain n err where w: "walk_bases (reply p host) max_rows 0 bases ?res ([], []) = (n, Some ?res, err)"
    using walk_bases_silent [OF assms(1), of "reply p host" e bases ?res 0 "([], [])"] assms(2) by blast
  then show ?thesis using assms(3-5) by (cases "prof = []") (simp_all add: bulk_walk_def Let_def)
qed

lemma assemble_empty:
  assumes "\<And>oid. column_of columns oid = []"
  shows "assemble_fdb columns = []" "assemble_neighbors columns = []"
  by (simp_all add: assemble_fdb_def assemble_neighbors_def assemble_lldp_def assemble_cdp_def raw_entries_def assms Let_def)

lemma column_of_empty: "column_of (map (\<lambda>b. (b, [])) bs) oid = []"
  by (induction bs) (auto simp: column_of_def)

text \<open>The SNMP agent of the tasks: its \<open>bulk_walk\<close> with the default row limit.\<close>

definition agent_walk :: "(snmp_profile \<Rightarrow> string \<Rightarrow> nat \<Rightarrow> string \<Rightarrow> bulk_reply) \<Rightarrow> registry_of_profiles \<Rightarrow> snmp_walk" where
  "agent_walk reply r host prof bases = fst (bulk_walk None (\<lambda>_. None) reply 8192 r host bases prof)"

text \<open>
  C23: A switch whose SNMP requests all time out is not a failed collection to the task: its sweep
  replaces the stored forwarding entries and neighbours of the switch by nothing.
\<close>

theorem timeout_erases_rows:
  assumes "l2_enabled t" and "\<not> l2_running t" and "mg_client m" and "dict_ok (\<lambda>k sw. k = sw_name sw) sws"
    and "sw \<in> set (l2_eligible t sws)"
    and "dget (r_profiles r) (or_else (sw_snmp_profile sw) (r_default r)) = Some p" and "c_context_engine_id (p_creds p) = []"
    and "\<And>p k oid. reply p (sw_host sw) k oid = Inr [Err_Indication ''No SNMP response received before timeout'']"
  shows "load_fdb True (sw_name sw) (snd (l2_run (Some (agent_walk reply r)) healthy_store sws t m)) = []
    \<and> load_neighbors True (sw_name sw) (snd (l2_run (Some (agent_walk reply r)) healthy_store sws t m)) = []"
proof -
  let ?w = "agent_walk reply r"
  note run = run_sweeps [OF assms(1,2,5), of ?w healthy_store m]
  have silent: "?w (sw_host sw) (sw_snmp_profile sw) bases = Some (map (\<lambda>b. (b, [])) (dedupe bases))" if "bases \<noteq> []" for bases
    unfolding agent_walk_def by (rule bulk_walk_silent [where reply = reply]) (use assms(6-8) that in simp_all)
  have "fdb_answer ?w sw = Some []" "neighbor_answer ?w sw = Some []"
    by (simp_all add: neighbor_answer_def fdb_answer_def fdb_collect_def neighbors_collect_def silent fdb_walk_bases_def
        lldp_walk_bases_def assemble_empty column_of_empty)
  then have "rows_of (sw_name sw) (mg_fdb (snd (l2_run (Some ?w) healthy_store sws t m))) = []"
    "rows_of (sw_name sw) (mg_neighbors (snd (l2_run (Some ?w) healthy_store sws t m))) = []"
    unfolding run using sweep_rows [OF assms(3) eligible_distinct [OF assms(4)] assms(5)]
      sweep_neighbors [OF assms(3) eligible_distinct [OF assms(4)] assms(5)] by blast+
  then show ?thesis by (simp add: load_fdb_def load_neighbors_def)
qed

subsection \<open>The shape of the records\<close>

text \<open>
  C21: Whatever a device answers, the forwarding records have one entry per MAC and port; every MAC is
  twelve lower-case hexadecimal digits whose printed form reads back as it; every entry has an
  interface index; and its count is the number of different MACs on that interface.
\<close>

theorem fdb_records_well_formed:
  "distinct (map (\<lambda>r. (fr_mac r, fr_ifindex r)) (assemble_fdb columns))
   \<and> (\<forall>r \<in> set (assemble_fdb columns). length (fr_mac r) = 12 \<and> list_all is_hex (fr_mac r) \<and> fr_ifindex r \<noteq> []
        \<and> normalize_mac (fr_mac_fmt r) = Some (fr_mac r)
        \<and> fr_port_macs r = card {fr_mac r' |r'. r' \<in> set (assemble_fdb columns) \<and> fr_ifindex r' = fr_ifindex r})"
proof (intro conjI ballI)
  show "distinct (map (\<lambda>r. (fr_mac r, fr_ifindex r)) (assemble_fdb columns))"
    unfolding fdb_keys by (rule distinct_first_entries)
next
  fix r
  assume "r \<in> set (assemble_fdb columns)"
  then obtain v m i where r: "(v, m, i) \<in> set (raw_of columns)" "fr_mac r = m" "fr_ifindex r = i"
    "fr_mac_fmt r = format_mac m" "fr_port_macs r = macs_on (raw_of columns) i"
    unfolding assemble_fdb_raw using first_entries_subset by fastforce
  have f: "length m = 12" "\<forall>c \<in> set m. is_hex c" "i \<noteq> []" using raw_of_form [OF r(1)] by blast+
  have "{fr_mac r' |r'. r' \<in> set (assemble_fdb columns) \<and> fr_ifindex r' = i} = {m. \<exists>v. (v, m, i) \<in> set (raw_of columns)}"
  proof -
    have "m \<in> {fr_mac r' |r'. r' \<in> set (assemble_fdb columns) \<and> fr_ifindex r' = i}
        \<longleftrightarrow> (m, i) \<in> (\<lambda>r. (fr_mac r, fr_ifindex r)) ` set (assemble_fdb columns)" for m by force
    then show ?thesis unfolding fdb_key_set by force
  qed
  then show "fr_port_macs r = card {fr_mac r' |r'. r' \<in> set (assemble_fdb columns) \<and> fr_ifindex r' = fr_ifindex r}"
    by (simp add: r macs_on_card)
  show "length (fr_mac r) = 12" "list_all is_hex (fr_mac r)" "fr_ifindex r \<noteq> []" "normalize_mac (fr_mac_fmt r) = Some (fr_mac r)"
    using f normalize_format [OF canonical_normal [OF f(1,2)]] by (simp_all add: r list_all_iff)
qed

subsection \<open>CDP capabilities\<close>

definition octets32 :: "32 word \<Rightarrow> 8 word list" where
  "octets32 w = [ucast (drop_bit 24 w), ucast (drop_bit 16 w), ucast (drop_bit 8 w), ucast w]"

lemma bit_octet: "bit (uint (ucast (drop_bit k w) :: 8 word)) i \<longleftrightarrow> i < 8 \<and> bit (w :: 32 word) (k + i)"
  by (auto simp: bit_uint_iff bit_ucast_iff bit_drop_bit_eq)

lemma bit_shift_in: "bit (push_bit 8 (v :: int) OR uint b) n \<longleftrightarrow> (if n < 8 then bit (uint (b :: 8 word)) n else bit v (n - 8))"
  by (auto simp: bit_or_iff bit_push_bit_iff bit_uint_iff)

lemma mask_octets32: "mask_of_octets (octets32 w) = uint w"
proof (rule bit_eqI)
  fix n :: nat
  note b = bit_octet [of 24 w] bit_octet [of 16 w] bit_octet [of 8 w] bit_octet [of 0 w, simplified]
  consider "n < 8" | "8 \<le> n" "n < 16" | "16 \<le> n" "n < 24" | "24 \<le> n" "n < 32" | "32 \<le> n" by linarith
  then show "bit (mask_of_octets (octets32 w)) n = bit (uint w) n"
    unfolding mask_of_octets_def octets32_def fold_simps comp_def id_def bit_shift_in b
    by cases (simp_all add: bit_uint_iff b less_diff_conv2)
qed

lemma type_of_mask_bits:
  "type_of_mask v = (if bit v 7 then ''voip-phone'' else if bit v 3 \<or> bit v 1 then ''switch''
     else if bit v 0 then ''router'' else if bit v 4 then ''host'' else ''other'')"
proof -
  have "v AND 0x80 = 0 \<longleftrightarrow> \<not> bit v 7" "v AND 0x08 = 0 \<longleftrightarrow> \<not> bit v 3" "v AND 0x02 = 0 \<longleftrightarrow> \<not> bit v 1"
    "v AND 0x01 = 0 \<longleftrightarrow> \<not> bit v 0" "v AND 0x10 = 0 \<longleftrightarrow> \<not> bit v 4"
    using and_exp_eq_0_iff_not_bit [of v 7] and_exp_eq_0_iff_not_bit [of v 3] and_exp_eq_0_iff_not_bit [of v 1]
      and_exp_eq_0_iff_not_bit [of v 0] and_exp_eq_0_iff_not_bit [of v 4] by simp_all
  then show ?thesis unfolding type_of_mask_def by (simp only: not_not)
qed

text \<open>
  A CDP capability mask with some bit set, printed as the octets of a 32-bit number, is classified
  by its bits: phone, then switch or bridge, then router, then host.
\<close>

theorem cdp_mask_classified:
  assumes "w \<noteq> 0"
  shows "classify_cdp (rendered (octets32 w)) = (if bit w 7 then ''voip-phone'' else if bit w 3 \<or> bit w 1 then ''switch''
     else if bit w 0 then ''router'' else if bit w 4 then ''host'' else ''other'')"
proof -
  have "uint w \<noteq> 0" using assms by (simp add: uint_0_iff)
  then show ?thesis by (simp add: classify_cdp_def mask_octets32 type_of_mask_bits bit_uint_iff Let_def)
qed

text \<open>An agent that prints the mask as a decimal number is read in hexadecimal: a phone becomes a switch.\<close>

lemma cdp_decimal_misread: "classify_cdp ''128'' = ''switch'' \<and> type_of_mask 128 = ''voip-phone''"
  by code_simp

text \<open>Text that happens to contain hexadecimal letters is not refused.\<close>

lemma hex_bytes_of_text: "hex_bytes ''bridge'' = [0x0b, 0xde]"
  by code_simp

subsection \<open>Sample values\<close>

definition sample_task :: l2_task where
  "sample_task = \<lparr>l2_enabled = True, l2_seconds = 3600, l2_workers = 8, l2_jitter = Fin 2, l2_include = [],
     l2_exclude = [], l2_counts = [], l2_neigh_counts = [], l2_running = False\<rparr>"

definition sample_db :: mongo where
  "sample_db = \<lparr>mg_client = True, mg_devices = [], mg_runtime = None, mg_metrics = [], mg_counters = [],
     mg_fdb = [(''sw1'', \<lparr>fr_mac = ''001122334455'', fr_mac_fmt = ''00:11:22:33:44:55'', fr_vlan = 1,
       fr_ifindex = ''7'', fr_ifname = ''1/1/7'', fr_port_macs = 1\<rparr>)], mg_neighbors = [], mg_traps = []\<rparr>"

definition sw1 :: switch_state where "sw1 = new_switch ''sw1'' ''10.0.0.1'' ''auto''"
definition sw2 :: switch_state where "sw2 = new_switch ''sw2'' ''10.0.0.2'' ''auto''"

definition sample_columns :: "(string, column) dict" where
  "sample_columns = [(oid_q_fdb_port, [(''10.0.17.34.51.68.85'', ''3''), (''20.0.17.34.51.68.85'', ''3'')]),
     (oid_baseport_if, [(''3'', ''103'')])]"

definition sample_walk :: snmp_walk where
  "sample_walk host prof bases = (if host = ''10.0.0.1'' then Some sample_columns else None)"

lemma sample_fdb: "assemble_fdb sample_columns = [\<lparr>fr_mac = ''001122334455'', fr_mac_fmt = ''00:11:22:33:44:55'',
    fr_vlan = 10, fr_ifindex = ''103'', fr_ifname = ''if103'', fr_port_macs = 1\<rparr>]"
  by code_simp

lemma sample_spelling: "normalize_mac ''0011.2233.4455'' = Some ''001122334455''"
  by code_simp

lemma sample_eligible:
  "l2_enabled sample_task" "\<not> l2_running sample_task" "mg_client sample_db"
  "dict_ok (\<lambda>k sw. k = sw_name sw) [(''sw1'', sw1)]" "sw1 \<in> set (l2_eligible sample_task [(''sw1'', sw1)])"
  "sw_host sw1 = ''10.0.0.1''" "sw_name sw1 = ''sw1''" "sw_snmp_profile sw1 = []"
  by (simp_all add: sample_task_def sample_db_def sw1_def new_switch_def dict_ok_def l2_eligible_def polled_switch_def)

theorem sweep_order_irrelevant_witness:
  "load_fdb True ''sw1'' (snd (l2_sweep sample_walk healthy_store [sw2, sw1] (sample_task, sample_db)))
   = load_fdb True ''sw1'' (snd (l2_sweep sample_walk healthy_store [sw1, sw2] (sample_task, sample_db)))"
proof -
  have "distinct (map sw_name [sw1, sw2])" "mset [sw2, sw1] = mset [sw1, sw2]" by (simp_all add: sw1_def sw2_def new_switch_def)
  from sweep_order_irrelevant [OF sample_eligible(3) this] show ?thesis by blast
qed

theorem search_finds_learned_mac_witness:
  "\<exists>r. (''sw1'', r) \<in> set (l2_search True ''0011.2233.4455'' True 0
      (snd (l2_run (Some sample_walk) healthy_store [(''sw1'', sw1)] sample_task sample_db))) \<and> fr_ifindex r = ''103''"
proof -
  have "sample_walk (sw_host sw1) (sw_snmp_profile sw1) fdb_walk_bases = Some sample_columns"
    by (simp add: sample_walk_def sample_eligible)
  moreover have "hd (assemble_fdb sample_columns) \<in> set (assemble_fdb sample_columns)"
    "normalize_mac ''0011.2233.4455'' = Some (fr_mac (hd (assemble_fdb sample_columns)))"
    by (simp_all add: sample_fdb sample_spelling)
  ultimately obtain r' where "(sw_name sw1, r') \<in> set (l2_search True ''0011.2233.4455'' True 0
      (snd (l2_run (Some sample_walk) healthy_store [(''sw1'', sw1)] sample_task sample_db)))" "r' \<in> set (assemble_fdb sample_columns)"
    using search_finds_learned_mac [where walk = sample_walk and sw = sw1, OF sample_eligible(1-5)] by blast
  then show ?thesis unfolding sample_fdb sample_eligible by auto
qed

definition sample_profile :: snmp_profile where
  "sample_profile = \<lparr>p_name = ''v3'', p_creds = \<lparr>c_username = ''u'', c_auth_protocol = ''SHA'', c_auth_password = [],
     c_priv_protocol = ''AES128'', c_priv_password = [], c_context_name = [], c_context_engine_id = []\<rparr>,
     p_port = 161, p_timeout = 3, p_retries = 1\<rparr>"

theorem timeout_erases_rows_witness:
  "load_fdb True ''sw1'' sample_db \<noteq> []
   \<and> load_fdb True ''sw1'' (snd (l2_run (Some (agent_walk (\<lambda>_ _ _ _. Inr [Err_Indication ''No SNMP response received before timeout''])
       (make_registry [(''v3'', sample_profile)] ''v3''))) healthy_store [(''sw1'', sw1)] sample_task sample_db)) = []"
proof -
  have "load_fdb True ''sw1'' sample_db \<noteq> []" by (simp add: load_fdb_def sample_db_def rows_of_def)
  moreover have "dget (r_profiles (make_registry [(''v3'', sample_profile)] ''v3''))
      (or_else (sw_snmp_profile sw1) (r_default (make_registry [(''v3'', sample_profile)] ''v3''))) = Some sample_profile"
    "c_context_engine_id (p_creds sample_profile) = []"
    by (simp_all add: make_registry_def sample_eligible sample_profile_def has_key_def)
  from timeout_erases_rows [OF sample_eligible(1-5) this] have
    "load_fdb True (sw_name sw1) (snd (l2_run (Some (agent_walk (\<lambda>_ _ _ _. Inr [Err_Indication ''No SNMP response received before timeout''])
       (make_registry [(''v3'', sample_profile)] ''v3''))) healthy_store [(''sw1'', sw1)] sample_task sample_db)) = []" by simp
  ultimately show ?thesis by (simp add: sample_eligible)
qed

theorem fdb_records_well_formed_witness:
  "normalize_mac ''00:11:22:33:44:55'' = Some ''001122334455''
   \<and> 1 = card {fr_mac r' |r'. r' \<in> set (assemble_fdb sample_columns) \<and> fr_ifindex r' = ''103''}"
  using fdb_records_well_formed [of sample_columns] by (simp add: sample_fdb)

theorem cdp_mask_classified_witness: "classify_cdp (rendered (octets32 0x90)) = ''voip-phone''"
proof -
  have "(0x90 :: 32 word) \<noteq> 0" "bit (0x90 :: 32 word) 7" by code_simp+
  then show ?thesis using cdp_mask_classified [of "0x90"] by simp
qed

end
