(* ===== verification/Interfaces.thy ===== *)
theory Interfaces
  imports L2_Discovery Thresholds
begin

text \<open>
  Interface statistics: \<open>aruba_agent/interfaces.py\<close> (assembly of the walked columns into rows, the
  utilisation from two counter readings) and the poll task \<open>aruba_agent/tasks/interface_poll.py\<close>
  with its counters kept in the store across restarts.

  Times and percentages are exact rationals.  The set of interface indices is taken in the order in
  which the columns show them; Python's order is not specified.
\<close>

definition if_oids :: "(string \<times> string) list" where
  "if_oids =
    [(''if_name'', ''1.3.6.1.2.1.31.1.1.1.1''),
     (''if_alias'', ''1.3.6.1.2.1.31.1.1.1.18''),
     (''high_speed'', ''1.3.6.1.2.1.31.1.1.1.15''),
     (''hc_in'', ''1.3.6.1.2.1.31.1.1.1.6''),
     (''hc_out'', ''1.3.6.1.2.1.31.1.1.1.10''),
     (''oper'', ''1.3.6.1.2.1.2.2.1.8''),
     (''admin'', ''1.3.6.1.2.1.2.2.1.7''),
     (''in_err'', ''1.3.6.1.2.1.2.2.1.14''),
     (''out_err'', ''1.3.6.1.2.1.2.2.1.20''),
     (''in_disc'', ''1.3.6.1.2.1.2.2.1.13''),
     (''out_disc'', ''1.3.6.1.2.1.2.2.1.19''),
     (''if_type'', ''1.3.6.1.2.1.2.2.1.3''),
     (''fcs_err'', ''1.3.6.1.2.1.10.7.2.1.3'')]"

definition ethernet :: int where "ethernet = 6"

definition oper_names :: "(string \<times> string) list" where
  "oper_names = [(''1'', ''up''), (''2'', ''down''), (''3'', ''testing''), (''4'', ''unknown''), (''5'', ''dormant''),
     (''6'', ''notPresent''), (''7'', ''lowerLayerDown'')]"

definition admin_names :: "(string \<times> string) list" where
  "admin_names = [(''1'', ''up''), (''2'', ''down''), (''3'', ''testing'')]"

record if_row =
  if_index :: string
  if_name :: string
  if_alias :: string
  if_speed :: int
  if_oper :: string
  if_admin :: string
  if_hc_in :: int
  if_hc_out :: int
  if_in_err :: int
  if_crc_err :: int
  if_out_err :: int
  if_in_disc :: int
  if_out_disc :: int

subsection \<open>Rows\<close>

text \<open>\<open>_int(v, 0)\<close>; an absent cell is \<open>None\<close>, whose text is no number either.\<close>

definition cell_int :: "string option \<Rightarrow> int" where
  "cell_int v = (case v of None \<Rightarrow> 0 | Some s \<Rightarrow> (case py_int (strip s) of None \<Rightarrow> 0 | Some n \<Rightarrow> n))"

definition cell :: "(string, column) dict \<Rightarrow> string \<Rightarrow> string \<Rightarrow> string option" where
  "cell columns key idx = dget (column_of columns key) idx"

definition status_name :: "(string \<times> string) list \<Rightarrow> string option \<Rightarrow> string" where
  "status_name names v = (let s = (case v of None \<Rightarrow> [] | Some s \<Rightarrow> s) in
     case map_of names (strip s) of None \<Rightarrow> s | Some n \<Rightarrow> n)"

definition row_of :: "(string, column) dict \<Rightarrow> string \<Rightarrow> if_row" where
  "row_of columns idx = (let c = (\<lambda>key. cell columns key idx) in
     \<lparr>if_index = idx,
      if_name = (case c ''if_name'' of None \<Rightarrow> ''if'' @ idx | Some n \<Rightarrow> n),
      if_alias = (case c ''if_alias'' of None \<Rightarrow> [] | Some a \<Rightarrow> a),
      if_speed = cell_int (c ''high_speed''),
      if_oper = status_name oper_names (c ''oper''),
      if_admin = status_name admin_names (c ''admin''),
      if_hc_in = cell_int (c ''hc_in''), if_hc_out = cell_int (c ''hc_out''),
      if_in_err = cell_int (c ''in_err''), if_crc_err = cell_int (c ''fcs_err''), if_out_err = cell_int (c ''out_err''),
      if_in_disc = cell_int (c ''in_disc''), if_out_disc = cell_int (c ''out_disc'')\<rparr>)"

definition row_indices :: "(string, column) dict \<Rightarrow> string list" where
  "row_indices columns = dedupe (concat (map dkeys (dvals columns)))"

definition assemble_rows :: "(string, column) dict \<Rightarrow> bool \<Rightarrow> (string, if_row) dict" where
  "assemble_rows columns physical_only = map (\<lambda>idx. (idx, row_of columns idx))
     (filter (\<lambda>idx. \<not> physical_only \<or> cell_int (cell columns ''if_type'' idx) = ethernet) (row_indices columns))"

text \<open>\<open>collect\<close>: the walked columns under the names of the fields.\<close>

definition if_columns :: "(string, column) dict \<Rightarrow> (string, column) dict" where
  "if_columns cols = concat (map (\<lambda>(b, v). case find (\<lambda>(k, oid). oid = b) if_oids of
     None \<Rightarrow> [] | Some (k, oid) \<Rightarrow> [(k, v)]) cols)"

definition if_collect :: "(string list \<Rightarrow> (string, column) dict option) \<Rightarrow> bool \<Rightarrow> (string, if_row) dict option" where
  "if_collect walk physical_only = map_option (\<lambda>w. assemble_rows (if_columns w) physical_only) (walk (dvals if_oids))"

subsection \<open>Utilisation\<close>

definition compute_util :: "int option \<Rightarrow> int \<Rightarrow> rat \<Rightarrow> int \<Rightarrow> rat option" where
  "compute_util prev_octets curr_octets elapsed_s speed_mbps = (case prev_octets of
     None \<Rightarrow> None
   | Some p \<Rightarrow> if elapsed_s \<le> 0 \<or> speed_mbps \<le> 0 then None
     else let delta = curr_octets - p in
       if delta < 0 then None
       else let bits = delta * 8; capacity = of_int (speed_mbps * 1000000) * elapsed_s in
         if capacity \<le> 0 then None else Some (round_digits (min 100 (of_int bits / capacity * 100)) 2))"

subsection \<open>The order of interfaces\<close>

text \<open>\<open>_sortkey\<close>: interfaces with a numeric index first, by number, then the others by text.\<close>

datatype if_key = Number int | Text string

fun if_key_le :: "if_key \<Rightarrow> if_key \<Rightarrow> bool" where
  "if_key_le (Number a) (Number b) = (a \<le> b)"
| "if_key_le (Number a) (Text t) = True"
| "if_key_le (Text s) (Number b) = False"
| "if_key_le (Text s) (Text t) = (s \<le> t)"

instantiation if_key :: linorder
begin

definition less_eq_if_key :: "if_key \<Rightarrow> if_key \<Rightarrow> bool" where
  "less_eq_if_key a b = if_key_le a b"

definition less_if_key :: "if_key \<Rightarrow> if_key \<Rightarrow> bool" where
  "less_if_key a b = (if_key_le a b \<and> \<not> if_key_le b a)"

instance
proof
  fix a b c :: if_key
  show "a < b \<longleftrightarrow> a \<le> b \<and> \<not> b \<le> a" by (simp add: less_eq_if_key_def less_if_key_def)
  show "a \<le> a" by (cases a) (simp_all add: less_eq_if_key_def)
  show "a \<le> b \<Longrightarrow> b \<le> c \<Longrightarrow> a \<le> c" by (cases a; cases b; cases c) (simp_all add: less_eq_if_key_def)
  show "a \<le> b \<Longrightarrow> b \<le> a \<Longrightarrow> a = b" by (cases a; cases b) (simp_all add: less_eq_if_key_def)
  show "a \<le> b \<or> b \<le> a" by (cases a; cases b) (auto simp: less_eq_if_key_def)
qed

end

definition if_sort_key :: "string \<Rightarrow> if_key" where
  "if_sort_key i = (case py_int i of None \<Rightarrow> Text i | Some n \<Rightarrow> Number n)"

end
