(* ===== verification/Interface_Poll.thy ===== *)
theory Interface_Poll
  imports Interfaces
begin

text \<open>
  The interface poll task, \<open>aruba_agent/tasks/interface_poll.py\<close>: the poll of one switch, whose
  utilisation compares the counters with those of the last poll, kept in memory and in the store;
  a sweep; and what the web pages and the threshold evaluator read.
\<close>

type_synonym reading = "rat \<times> int \<times> int"

record util_row = if_row +
  ur_in :: "rat option"
  ur_out :: "rat option"

record if_task =
  ip_enabled :: bool
  ip_seconds :: int
  ip_workers :: int
  ip_physical :: bool
  ip_jitter :: py_float
  ip_include :: "string list"
  ip_exclude :: "string list"
  ip_record :: bool
  ip_zero :: bool
  ip_prev :: "(string, (string, reading) dict) dict"
  ip_current :: "(string, util_row list) dict"
  ip_running :: bool

definition new_if_task :: "config \<Rightarrow> if_task result" where
  "new_if_task c =
     bind_r (task_flag c ''interfaces'' ''enabled'' ''false'') (\<lambda>en.
     bind_r (task_int c ''interfaces'' ''poll_seconds'' ''300'') (\<lambda>secs.
     bind_r (task_int c ''interfaces'' ''max_workers'' ''8'') (\<lambda>workers.
     bind_r (task_flag c ''interfaces'' ''physical_only'' ''true'') (\<lambda>phys.
     bind_r (task_float c ''interfaces'' ''jitter_seconds'' ''2'') (\<lambda>jitter.
     bind_r (task_csv c ''interfaces'' ''include'') (\<lambda>incl.
     bind_r (task_csv c ''interfaces'' ''exclude'') (\<lambda>excl.
     bind_r (task_flag c ''interfaces'' ''record_metrics'' ''true'') (\<lambda>rec.
     bind_r (task_flag c ''interfaces'' ''record_zero_util'' ''false'') (\<lambda>zero.
     Inr \<lparr>ip_enabled = en, ip_seconds = max 60 secs, ip_workers = max 1 workers, ip_physical = phys, ip_jitter = jitter,
       ip_include = incl, ip_exclude = excl, ip_record = rec, ip_zero = zero,
       ip_prev = [], ip_current = [], ip_running = False\<rparr>)))))))))"

definition if_eligible :: "if_task \<Rightarrow> (string, switch_state) dict \<Rightarrow> switch_state list" where
  "if_eligible t sws = filter (polled_switch (ip_include t) (ip_exclude t)) (dvals sws)"

subsection \<open>Counters of the last poll\<close>

text \<open>\<open>_load_prev\<close>; a stored text that is no number drops the interface.\<close>

definition parse_counters :: "counters \<Rightarrow> (string, reading) dict" where
  "parse_counters raw = concat (map (\<lambda>(i, (ts, a, b)). case (py_int a, py_int b) of
     (Some x, Some y) \<Rightarrow> [(i, (ts, x, y))] | _ \<Rightarrow> []) raw)"

definition load_prev :: "bool \<Rightarrow> string \<Rightarrow> mongo \<Rightarrow> (string, reading) dict" where
  "load_prev up name m = parse_counters (case load_counters up name m of None \<Rightarrow> [] | Some cs \<Rightarrow> cs)"

text \<open>
  What the environment gives to a poll: the walk, the clock (\<open>time.time()\<close>), the time the store
  stamps on a metric, and whether the store can be reached.
\<close>

record if_env =
  ie_walk :: snmp_walk
  ie_now :: rat
  ie_stamp :: int
  ie_up :: bool

definition if_answer :: "if_env \<Rightarrow> if_task \<Rightarrow> switch_state \<Rightarrow> (string, if_row) dict option" where
  "if_answer env t sw = if_collect (ie_walk env (sw_host sw) (sw_snmp_profile sw)) (ip_physical t)"

definition util_of :: "rat \<Rightarrow> (string, reading) dict \<Rightarrow> if_row \<Rightarrow> util_row" where
  "util_of now prev r = (let p = dget prev (if_index r); elapsed = (case p of None \<Rightarrow> 0 | Some (ts, a, b) \<Rightarrow> now - ts) in
     if_row.extend r
       \<lparr>ur_in = compute_util (map_option (\<lambda>(ts, a, b). a) p) (if_hc_in r) elapsed (if_speed r),
        ur_out = compute_util (map_option (\<lambda>(ts, a, b). b) p) (if_hc_out r) elapsed (if_speed r)\<rparr>)"

definition record_util :: "if_env \<Rightarrow> if_task \<Rightarrow> string \<Rightarrow> util_row \<Rightarrow> string \<Rightarrow> rat option \<Rightarrow> mongo \<Rightarrow> mongo" where
  "record_util env t name r dir u m = (case u of None \<Rightarrow> m
     | Some x \<Rightarrow> if ip_zero t \<or> x > 0
         then record_metric (ie_up env) (ie_stamp env) name (''if.'' @ if_index r @ dir) (Fin x) (Some (if_name r)) m else m)"

definition record_utils :: "if_env \<Rightarrow> if_task \<Rightarrow> string \<Rightarrow> util_row \<Rightarrow> mongo \<Rightarrow> mongo" where
  "record_utils env t name r m = (if ip_record t
     then record_util env t name r ''.out_util'' (ur_out r) (record_util env t name r ''.in_util'' (ur_in r) m) else m)"

text \<open>\<open>_poll_one_inner\<close>: the number of interfaces, the task and the store after the poll.\<close>

definition poll_one :: "if_env \<Rightarrow> switch_state \<Rightarrow> if_task \<times> mongo \<Rightarrow> nat \<times> if_task \<times> mongo" where
  "poll_one env sw tm = (case tm of (t, m) \<Rightarrow> case if_answer env t sw of
       None \<Rightarrow> (0, t, m)
     | Some rows \<Rightarrow>
         let name = sw_name sw;
             prev = (case dget (ip_prev t) name of Some p \<Rightarrow> p | None \<Rightarrow> load_prev (ie_up env) name m);
             urows = map (\<lambda>(i, r). util_of (ie_now env) prev r) rows;
             m1 = fold (record_utils env t name) urows m;
             newprev = map (\<lambda>(i, r). (i, (ie_now env, if_hc_in r, if_hc_out r))) rows;
             current = sort_key (\<lambda>r. if_sort_key (if_index r)) urows
         in (length current, t\<lparr>ip_prev := dset name newprev (ip_prev t), ip_current := dset name current (ip_current t)\<rparr>,
             save_counters (ie_up env) name newprev m1))"

subsection \<open>Sweeps and readings\<close>

definition if_sweep :: "(switch_state \<times> if_env) list \<Rightarrow> if_task \<times> mongo \<Rightarrow> if_task \<times> mongo" where
  "if_sweep polls tm = fold (\<lambda>(sw, env) tm. snd (poll_one env sw tm)) polls tm"

definition if_run :: "(switch_state \<Rightarrow> if_env) option \<Rightarrow> (string, switch_state) dict \<Rightarrow> if_task \<Rightarrow> mongo \<Rightarrow> if_task \<times> mongo" where
  "if_run snmp sws t m = (if \<not> ip_enabled t then (t, m)
     else case snmp of None \<Rightarrow> (t, m)
     | Some env \<Rightarrow> if ip_running t then (t, m)
       else let elig = if_eligible t sws in
         if elig = [] then (t, m)
         else (case if_sweep (map (\<lambda>sw. (sw, env sw)) elig) (t\<lparr>ip_running := True\<rparr>, m) of
             (t1, m1) \<Rightarrow> (t1\<lparr>ip_running := False\<rparr>, m1)))"

definition get_current :: "if_task \<Rightarrow> string \<Rightarrow> util_row list" where
  "get_current t name = (case dget (ip_current t) name of None \<Rightarrow> [] | Some rs \<Rightarrow> rs)"

definition if_summary :: "if_task \<Rightarrow> (string, nat) dict" where
  "if_summary t = map (\<lambda>(n, rs). (n, length rs)) (ip_current t)"

definition row_samples :: "string \<Rightarrow> string \<Rightarrow> util_row \<Rightarrow> sample list" where
  "row_samples name host r =
     (let s = (\<lambda>metric v. \<lparr>s_device = name, s_host = host, s_metric = metric, s_value = Some (Fin v), s_instance = if_name r\<rparr>) in
      (case ur_in r of None \<Rightarrow> [] | Some u \<Rightarrow> [s ''if_util_in'' u])
      @ (case ur_out r of None \<Rightarrow> [] | Some u \<Rightarrow> [s ''if_util_out'' u])
      @ [s ''crc_errors'' (of_int (if_crc_err r))])"

definition if_samples :: "(string, switch_state) dict \<Rightarrow> if_task \<Rightarrow> sample list" where
  "if_samples sws t = concat (map (\<lambda>(name, rows).
     concat (map (row_samples name (case dget sws name of None \<Rightarrow> name | Some sw \<Rightarrow> sw_host sw)) rows)) (ip_current t))"

end
