(* ===== verification/Interface_Proofs.thy ===== *)
theory Interface_Proofs
  imports Interface_Poll
begin

text \<open>
  Interface statistics: readings stay between 0 and 100 percent, a restart of the agent does not
  change what a poll computes, and a counter column lost by one walk makes the next poll report a
  full link.
\<close>

subsection \<open>Rounding and the range of a reading\<close>

lemma compute_util_range: "compute_util p c e s = Some u \<Longrightarrow> 0 \<le> u \<and> u \<le> 100"
  using round_digits_bounds [of 0 "min 100 (of_int ((c - the p) * 8) / (of_int (s * 1000000) * e) * 100)" 100 2]
  by (auto simp: compute_util_def Let_def not_le split: option.splits if_splits)

definition reading_ok :: "rat option \<Rightarrow> bool" where
  "reading_ok u = (case u of None \<Rightarrow> True | Some x \<Rightarrow> 0 \<le> x \<and> x \<le> 100)"

definition readings_ok :: "if_task \<times> mongo \<Rightarrow> bool" where
  "readings_ok tm = (\<forall>(n, rows) \<in> set (ip_current (fst tm)). \<forall>r \<in> set rows. reading_ok (ur_in r) \<and> reading_ok (ur_out r))"

lemma util_of_ok: "reading_ok (ur_in (util_of now prev r))" "reading_ok (ur_out (util_of now prev r))"
  by (auto simp: util_of_def Let_def if_row.defs reading_ok_def dest: compute_util_range split: option.split)

lemma poll_one_current:
  "(n, rows) \<in> set (ip_current (fst (snd (poll_one env sw tm)))) \<Longrightarrow>
   (n, rows) \<in> set (ip_current (fst tm)) \<or> (\<exists>now prev rs. set rows = util_of now prev ` rs)"
proof (cases "if_answer env (fst tm) sw")
  case (Some rs)
  assume a: "(n, rows) \<in> set (ip_current (fst (snd (poll_one env sw tm))))"
  let ?prev = "case dget (ip_prev (fst tm)) (sw_name sw) of Some p \<Rightarrow> p | None \<Rightarrow> load_prev (ie_up env) (sw_name sw) (snd tm)"
  have "ip_current (fst (snd (poll_one env sw tm))) = dset (sw_name sw)
      (sort_key (\<lambda>r. if_sort_key (if_index r)) (map (\<lambda>(i, r). util_of (ie_now env) ?prev r) rs)) (ip_current (fst tm))"
    using Some unfolding poll_one_def by (cases tm) (simp only: prod.case fst_conv snd_conv Let_def option.case, simp)
  then have "(n, rows) = (sw_name sw, sort_key (\<lambda>r. if_sort_key (if_index r)) (map (\<lambda>(i, r). util_of (ie_now env) ?prev r) rs))
      \<or> (n, rows) \<in> set (ip_current (fst tm))"
    using a by (metis dset_entries)
  then show ?thesis
  proof
    assume "(n, rows) = (sw_name sw, sort_key (\<lambda>r. if_sort_key (if_index r)) (map (\<lambda>(i, r). util_of (ie_now env) ?prev r) rs))"
    then have "set rows = util_of (ie_now env) ?prev ` (snd ` set rs)" by (auto simp: case_prod_unfold image_image)
    then show ?thesis by blast
  qed blast
qed (cases tm, simp add: poll_one_def)

interpretation polls: machine "\<lambda>tm (sw, env). snd (poll_one env sw tm)" readings_ok "\<lambda>_. True"
proof
  fix tm :: "if_task \<times> mongo" and e :: "switch_state \<times> if_env"
  assume ok: "readings_ok tm"
  obtain sw env where e: "e = (sw, env)" by fastforce
  have "reading_ok (ur_in r) \<and> reading_ok (ur_out r)"
    if "(n, rows) \<in> set (ip_current (fst (snd (poll_one env sw tm))))" "r \<in> set rows" for n rows r
    using poll_one_current [OF that(1)] that(2) ok util_of_ok unfolding readings_ok_def by fastforce
  then show "readings_ok (case e of (sw, env) \<Rightarrow> snd (poll_one env sw tm))" by (auto simp: e readings_ok_def)
qed

lemma if_sweep_machine: "if_sweep polls tm = foldl (\<lambda>tm (sw, env). snd (poll_one env sw tm)) tm polls"
  by (simp add: if_sweep_def foldl_conv_fold case_prod_unfold)

text \<open>
  C24: After any sequence of polls of any switches, whatever counters, speeds and clock readings the
  devices and the host gave, wraps, resets and clocks set back included, every utilisation handed to
  the threshold evaluator is a number between 0 and 100.
\<close>

theorem utilisation_in_range:
  assumes "ip_current t = []" and "s \<in> set (if_samples sws (fst (if_sweep polls (t, m))))"
    and "s_metric s = ''if_util_in'' \<or> s_metric s = ''if_util_out''"
  shows "\<exists>x. s_value s = Some (Fin x) \<and> 0 \<le> x \<and> x \<le> 100"
proof -
  have "readings_ok (if_sweep polls (t, m))"
    unfolding if_sweep_machine by (rule polls.run_inv) (simp_all add: readings_ok_def assms(1) list_all_iff)
  moreover obtain name rows r host where r: "(name, rows) \<in> set (ip_current (fst (if_sweep polls (t, m))))" "r \<in> set rows"
    "s \<in> set (row_samples name host r)"
    using assms(2) by (auto simp: if_samples_def)
  ultimately have "reading_ok (ur_in r)" "reading_ok (ur_out r)" by (auto simp: readings_ok_def)
  then show ?thesis using r(3) assms(3) by (auto simp: row_samples_def reading_ok_def Let_def split: option.splits)
qed

subsection \<open>A restart between two polls\<close>

lemma strip_minus_nat_str [simp]: "strip (CHR ''-'' # nat_str n) = CHR ''-'' # nat_str n"
  by (rule strip_no_ws) (use nat_str_digits is_digit_not_ws in \<open>auto simp: is_ws_def\<close>)

lemma py_int_int_str [simp]: "py_int (int_str n) = Some n"
proof (cases "n < 0")
  case True
  then have "py_int (int_str n) = map_option (\<lambda>k. - int k) (parse_digits 0 False (nat_str (nat (- n))))"
    by (simp add: int_str_def py_int_def del: parse_digits.simps)
  then show ?thesis using True by simp
qed (simp add: int_str_def py_int_nat_str)

lemma parse_stored: "parse_counters (map (\<lambda>(i, (t, a, b)). (i, (t, int_str a, int_str b))) cs) = cs"
  by (induction cs) (auto simp: parse_counters_def)

lemma load_prev_saved: "mg_client m \<Longrightarrow> load_prev True name (save_counters True name cs m) = cs"
  by (simp add: load_prev_def load_counters_def save_counters_def parse_stored)

lemma record_metric_client: "mg_client (record_metric up ts d mt v l m) = mg_client m"
  "mg_counters (record_metric up ts d mt v l m) = mg_counters m"
  by (simp_all add: record_metric_def)

lemma record_utils_client: "mg_client (fold (record_utils env t name) rs m) = mg_client m"
  "mg_counters (fold (record_utils env t name) rs m) = mg_counters m"
  by (induction rs arbitrary: m)
    (auto simp: record_utils_def record_util_def record_metric_client split: option.split)

text \<open>The task as a restarted agent has it: the configuration, and nothing remembered.\<close>

definition restarted :: "if_task \<Rightarrow> if_task" where
  "restarted t = t\<lparr>ip_prev := [], ip_current := [], ip_running := False\<rparr>"

lemma record_utils_config: "ip_record t = ip_record t' \<Longrightarrow> ip_zero t = ip_zero t' \<Longrightarrow> record_utils env t = record_utils env t'"
  unfolding record_utils_def record_util_def by (intro ext) (simp only:)

text \<open>
  C25: Restarting the agent between two polls of a switch on a reachable store does not change the
  second poll: the utilisation of every interface, the recorded metrics and the stored counters are
  those the running agent would have produced.
\<close>

theorem restart_keeps_utilisation:
  assumes "mg_client m" and "ie_up env1" and "ie_up env2" and "if_answer env1 t sw \<noteq> None" and "if_answer env2 t sw \<noteq> None"
    and "snd (poll_one env1 sw (t, m)) = (t1, m1)"
  shows "get_current (fst (snd (poll_one env2 sw (restarted t1, m1)))) (sw_name sw)
      = get_current (fst (snd (poll_one env2 sw (t1, m1)))) (sw_name sw)
    \<and> snd (snd (poll_one env2 sw (restarted t1, m1))) = snd (snd (poll_one env2 sw (t1, m1)))"
proof -
  obtain rows rows2 where rows: "if_answer env1 t sw = Some rows" "if_answer env2 t sw = Some rows2" using assms(4,5) by blast
  let ?new = "map (\<lambda>(i, r). (i, (ie_now env1, if_hc_in r, if_hc_out r))) rows"
  have t1: "dget (ip_prev t1) (sw_name sw) = Some ?new" "ip_physical t1 = ip_physical t"
    using assms(6) rows(1) by (auto simp: poll_one_def Let_def)
  obtain m0 where m1: "m1 = save_counters True (sw_name sw) ?new m0" "mg_client m0"
    using assms(1,2,6) rows(1) record_utils_client(1) by (auto simp: poll_one_def Let_def)
  have a: "if_answer env2 t1 sw = Some rows2" "if_answer env2 (restarted t1) sw = Some rows2"
    using rows(2) t1(2) by (simp_all add: if_answer_def restarted_def)
  have p: "load_prev (ie_up env2) (sw_name sw) m1 = ?new" using assms(3) m1 load_prev_saved by simp
  have "record_utils env2 (restarted t1) = record_utils env2 t1" by (rule record_utils_config) (simp_all add: restarted_def)
  then show ?thesis
    by (simp add: poll_one_def a t1(1) p Let_def get_current_def) (simp add: restarted_def p)
qed

subsection \<open>A counter column lost by one walk\<close>

lemma assembled_row: "dget (assemble_rows cols phys) i = Some r \<Longrightarrow> r = row_of cols i"
  by (auto simp: assemble_rows_def dest!: map_of_SomeD)

text \<open>The task after a poll that got an answer.\<close>

lemma poll_answered:
  assumes "if_answer env t sw = Some rows" "snd (poll_one env sw (t, m)) = (t', m')"
  shows "dget (ip_prev t') (sw_name sw) = Some (map (\<lambda>(i, r). (i, (ie_now env, if_hc_in r, if_hc_out r))) rows)"
    "ip_physical t' = ip_physical t" "if_answer env' t' sw' = if_answer env' t sw'"
    "dget (ip_prev t) (sw_name sw) = Some prev \<Longrightarrow>
      get_current t' (sw_name sw) = sort_key (\<lambda>r. if_sort_key (if_index r)) (map (\<lambda>(i, r). util_of (ie_now env) prev r) rows)"
  using assms by (auto simp: poll_one_def Let_def get_current_def if_answer_def)

lemma answered_row:
  assumes "if_answer env t sw = Some rows" "dget rows i = Some r"
  shows "if_index r = i" "(i, r) \<in> set rows"
proof -
  obtain cols where "rows = assemble_rows (if_columns cols) (ip_physical t)"
    using assms(1) by (auto simp: if_answer_def if_collect_def)
  then have "r = row_of (if_columns cols) i" using assms(2) by (blast dest: assembled_row)
  then show "if_index r = i" by (simp add: row_of_def Let_def)
qed (rule map_of_SomeD [OF assms(2)])

lemma full_link:
  assumes "0 < s" "0 < e" "of_int (s * 1000000) * e \<le> of_int (c * 8)"
  shows "compute_util (Some 0) c e s = Some 100"
proof -
  have cap: "0 < of_int (s * 1000000) * e" using assms(1,2) by (intro mult_pos_pos) simp_all
  then have "0 \<le> (of_int (c * 8) :: rat)" using assms(3) by linarith
  then have c: "0 \<le> c" by (simp only: of_int_0_le_iff)
  have "1 \<le> of_int (c * 8) / (of_int (s * 1000000) * e)" using cap assms(3) by (simp add: le_divide_eq)
  then have m: "min 100 (of_int (c * 8) / (of_int (s * 1000000) * e) * 100) = 100" by linarith
  have "round_digits 100 2 = 100" by (simp add: round_digits_def round_half_even_def)
  then show ?thesis using c cap assms(1,2) m by (simp add: compute_util_def Let_def not_le)
qed

text \<open>
  C26: A walk that loses the counter column of an interface, as one timed-out request does, makes the
  next poll report a full link as soon as the interface has ever carried as much as its link could in
  one interval, even when the link is idle.
\<close>

theorem lost_column_reports_full_link:
  assumes "ie_walk env1 (sw_host sw) (sw_snmp_profile sw) (dvals if_oids) = Some cols"
    and "dget (assemble_rows (if_columns cols) (ip_physical t)) i = Some r1" and "cell (if_columns cols) ''hc_in'' i = None"
    and "if_answer env2 t sw = Some rows" and "dget rows i = Some r2"
    and "0 < if_speed r2" and "ie_now env1 < ie_now env2"
    and "of_int (if_speed r2 * 1000000) * (ie_now env2 - ie_now env1) \<le> of_int (if_hc_in r2 * 8)"
  shows "\<exists>r \<in> set (get_current (fst (snd (poll_one env2 sw (snd (poll_one env1 sw (t, m)))))) (sw_name sw)).
    if_index r = i \<and> ur_in r = Some 100"
proof -
  let ?rows1 = "assemble_rows (if_columns cols) (ip_physical t)"
  obtain t1 m1 where p1: "snd (poll_one env1 sw (t, m)) = (t1, m1)" by fastforce
  have a1: "if_answer env1 t sw = Some ?rows1" using assms(1) by (simp add: if_answer_def if_collect_def)
  let ?prev = "map (\<lambda>(i, r). (i, (ie_now env1, if_hc_in r, if_hc_out r))) ?rows1"
  note t1 = poll_answered [OF a1 p1]
  have "if_hc_in r1 = 0" using assembled_row [OF assms(2)] assms(3) by (simp add: row_of_def cell_int_def Let_def)
  then have prev: "dget ?prev i = Some (ie_now env1, 0, if_hc_out r1)" using assms(2) by (simp add: map_of_map)
  have a2: "if_answer env2 t1 sw = Some rows" using assms(4) t1(3) by simp
  obtain t2 m2 where p2: "snd (poll_one env2 sw (t1, m1)) = (t2, m2)" by fastforce
  note r2 = answered_row [OF assms(4,5)]
  let ?u = "util_of (ie_now env2) ?prev r2"
  have "?u \<in> set (get_current t2 (sw_name sw))" using poll_answered(4) [OF a2 p2 t1(1)] r2(2) by force
  moreover have "if_index ?u = i" by (simp add: util_of_def Let_def if_row.defs r2(1))
  moreover have "ur_in ?u = Some 100"
    using full_link [OF assms(6) _ assms(8)] assms(7) by (simp add: util_of_def Let_def if_row.defs r2(1) prev)
  ultimately show ?thesis unfolding p1 p2 fst_conv by blast
qed

subsection \<open>Sample values\<close>

definition demo_switch :: switch_state where "demo_switch = new_switch ''sw1'' ''10.0.0.1'' ''auto''"

definition demo_task :: if_task where
  "demo_task = \<lparr>ip_enabled = True, ip_seconds = 300, ip_workers = 8, ip_physical = False, ip_jitter = Fin 2,
     ip_include = [], ip_exclude = [], ip_record = True, ip_zero = False, ip_prev = [], ip_current = [], ip_running = False\<rparr>"

definition demo_cols :: "bool \<Rightarrow> (string, column) dict" where
  "demo_cols counters = [(''1.3.6.1.2.1.31.1.1.1.1'', [(''7'', ''1/1/7'')]), (''1.3.6.1.2.1.31.1.1.1.15'', [(''7'', ''1'')])]
     @ (if counters then [(''1.3.6.1.2.1.31.1.1.1.6'', [(''7'', ''200000'')])] else [])"

definition demo_env :: "rat \<Rightarrow> bool \<Rightarrow> if_env" where
  "demo_env now counters = \<lparr>ie_walk = \<lambda>_ _ _. Some (demo_cols counters), ie_now = now, ie_stamp = 0, ie_up = True\<rparr>"

definition demo_db :: mongo where
  "demo_db = \<lparr>mg_client = True, mg_devices = [], mg_runtime = None, mg_metrics = [], mg_counters = [], mg_fdb = [],
     mg_neighbors = [], mg_traps = []\<rparr>"

lemma demo_columns:
  "if_columns (demo_cols True) = [(''if_name'', [(''7'', ''1/1/7'')]), (''high_speed'', [(''7'', ''1'')]), (''hc_in'', [(''7'', ''200000'')])]"
  "if_columns (demo_cols False) = [(''if_name'', [(''7'', ''1/1/7'')]), (''high_speed'', [(''7'', ''1'')])]"
  by code_simp+

lemma demo_numbers: "py_int (strip ''200000'') = Some 200000" "py_int (strip ''1'') = Some 1"
proof -
  have "nat_str 200000 = ''200000''" "nat_str 1 = ''1''"
    by (simp_all add: nat_str.simps digit_chars One_nat_def [symmetric] del: One_nat_def)
  then show "py_int (strip ''200000'') = Some 200000" "py_int (strip ''1'') = Some 1"
    using py_int_nat_str [of 200000] py_int_nat_str [of 1] strip_nat_str [of 200000] strip_nat_str [of 1] by simp_all
qed

lemma demo_rows: "assemble_rows (if_columns (demo_cols b)) False = [(''7'', row_of (if_columns (demo_cols b)) ''7'')]"
proof -
  have "row_indices (if_columns (demo_cols b)) = [''7'']"
    by (cases b) (simp_all add: row_indices_def demo_columns dedupe_def)
  then show ?thesis by (simp add: assemble_rows_def)
qed

lemma demo_row:
  "if_speed (row_of (if_columns (demo_cols b)) ''7'') = 1" "if_hc_in (row_of (if_columns (demo_cols True)) ''7'') = 200000"
  by (cases b) (simp_all add: row_of_def cell_def column_of_def demo_columns demo_numbers cell_int_def Let_def)

lemma demo_answer: "if_answer (demo_env now b) demo_task sw = Some [(''7'', row_of (if_columns (demo_cols b)) ''7'')]"
  by (simp add: if_answer_def if_collect_def demo_env_def demo_task_def demo_rows)

text \<open>The counter stands at 200000 throughout; one walk in between loses its column.\<close>

theorem lost_column_reports_full_link_witness:
  "\<exists>r \<in> set (get_current (fst (snd (poll_one (demo_env 2 True) demo_switch (snd (poll_one (demo_env 1 False) demo_switch
     (snd (poll_one (demo_env 0 True) demo_switch (demo_task, demo_db)))))))) ''sw1''). if_index r = ''7'' \<and> ur_in r = Some 100"
proof -
  obtain t m where tm: "snd (poll_one (demo_env 0 True) demo_switch (demo_task, demo_db)) = (t, m)" by fastforce
  note t = poll_answered [OF demo_answer tm]
  then have phys: "ip_physical t = False" by (simp add: demo_task_def)
  have a: "if_answer (demo_env 2 True) t demo_switch = Some [(''7'', row_of (if_columns (demo_cols True)) ''7'')]"
    by (simp add: t(3) demo_answer)
  have w: "ie_walk (demo_env 1 False) (sw_host demo_switch) (sw_snmp_profile demo_switch) (dvals if_oids) = Some (demo_cols False)"
    by (simp add: demo_env_def)
  have r: "dget (assemble_rows (if_columns (demo_cols False)) (ip_physical t)) ''7'' = Some (row_of (if_columns (demo_cols False)) ''7'')"
    by (simp add: phys demo_rows)
  have c: "cell (if_columns (demo_cols False)) ''hc_in'' ''7'' = None" by (simp add: cell_def column_of_def demo_columns)
  have "\<exists>r \<in> set (get_current (fst (snd (poll_one (demo_env 2 True) demo_switch
      (snd (poll_one (demo_env 1 False) demo_switch (t, m)))))) (sw_name demo_switch)). if_index r = ''7'' \<and> ur_in r = Some 100"
    by (rule lost_column_reports_full_link [OF w r c a]) (simp, simp only: demo_row, simp_all add: demo_row demo_env_def)
  moreover have "sw_name demo_switch = ''sw1''" by (simp add: demo_switch_def new_switch_def)
  ultimately show ?thesis by (simp only: tm)
qed

theorem utilisation_in_range_witness:
  "\<exists>s \<in> set (if_samples [] (fst (if_sweep [(demo_switch, demo_env 0 True), (demo_switch, demo_env 10 True)] (demo_task, demo_db)))).
     s_metric s = ''if_util_in'' \<and> (\<exists>x. s_value s = Some (Fin x) \<and> 0 \<le> x \<and> x \<le> 100)"
proof -
  let ?row = "row_of (if_columns (demo_cols True)) ''7''"
  obtain t m where tm: "snd (poll_one (demo_env 0 True) demo_switch (demo_task, demo_db)) = (t, m)" by fastforce
  obtain t' m' where tm': "snd (poll_one (demo_env 10 True) demo_switch (t, m)) = (t', m')" by fastforce
  note t = poll_answered [OF demo_answer tm]
  have a: "if_answer (demo_env 10 True) t demo_switch = Some [(''7'', ?row)]" by (simp add: t(3) demo_answer)
  let ?u = "util_of 10 [(''7'', (0, if_hc_in ?row, if_hc_out ?row))] ?row"
  have "get_current t' ''sw1'' = [?u]"
    using poll_answered(4) [OF a tm' t(1)] by (simp add: demo_env_def demo_switch_def new_switch_def)
  then have "dget (ip_current t') ''sw1'' = Some [?u]" by (auto simp: get_current_def split: option.splits)
  have "if_index ?row = ''7''" by (simp add: row_of_def Let_def)
  then have "ur_in ?u = Some 0"
    by (simp add: util_of_def Let_def if_row.defs compute_util_def demo_row round_digits_def round_half_even_def)
  define s where "s = \<lparr>s_device = ''sw1'', s_host = ''sw1'', s_metric = ''if_util_in'', s_value = Some (Fin 0), s_instance = if_name ?u\<rparr>"
  moreover have "s \<in> set (row_samples ''sw1'' ''sw1'' ?u)"
    unfolding row_samples_def Let_def \<open>ur_in ?u = Some 0\<close> s_def by simp
  moreover have "(''sw1'', [?u]) \<in> set (ip_current t')" using \<open>dget (ip_current t') ''sw1'' = Some [?u]\<close> by (rule map_of_SomeD)
  then have "set (row_samples ''sw1'' ''sw1'' ?u) \<subseteq> set (if_samples [] t')" unfolding if_samples_def by fastforce
  ultimately have s: "s \<in> set (if_samples [] t')" "s_metric s = ''if_util_in''" by auto
  have sw: "if_sweep [(demo_switch, demo_env 0 True), (demo_switch, demo_env 10 True)] (demo_task, demo_db) = (t', m')"
    by (simp add: if_sweep_def tm tm')
  have "ip_current demo_task = []" by (simp add: demo_task_def)
  from utilisation_in_range [OF this, of s "[]" "[(demo_switch, demo_env 0 True), (demo_switch, demo_env 10 True)]" demo_db] s
  show ?thesis unfolding sw fst_conv by blast
qed

theorem restart_keeps_utilisation_witness:
  "get_current (fst (snd (poll_one (demo_env 10 True) demo_switch
      (apfst restarted (snd (poll_one (demo_env 0 True) demo_switch (demo_task, demo_db))))))) ''sw1''
   = get_current (fst (snd (poll_one (demo_env 10 True) demo_switch
      (snd (poll_one (demo_env 0 True) demo_switch (demo_task, demo_db)))))) ''sw1''"
proof -
  obtain t m where tm: "snd (poll_one (demo_env 0 True) demo_switch (demo_task, demo_db)) = (t, m)" by fastforce
  have "mg_client demo_db" "ie_up (demo_env 0 True)" "ie_up (demo_env 10 True)"
    "if_answer (demo_env 0 True) demo_task demo_switch \<noteq> None" "if_answer (demo_env 10 True) demo_task demo_switch \<noteq> None"
    by (simp_all add: demo_answer) (simp_all add: demo_db_def demo_env_def)
  from restart_keeps_utilisation [OF this tm] have
    "get_current (fst (snd (poll_one (demo_env 10 True) demo_switch (restarted t, m)))) (sw_name demo_switch)
      = get_current (fst (snd (poll_one (demo_env 10 True) demo_switch (t, m)))) (sw_name demo_switch)" by blast
  moreover have "sw_name demo_switch = ''sw1''" by (simp add: demo_switch_def new_switch_def)
  ultimately show ?thesis by (simp only: tm apfst_conv)
qed

end
