(* ===== verification/Scanner.thy ===== *)
theory Scanner
  imports Switch_Poller Scope Py_Float
begin

text \<open>
  The network scanner, \<open>aruba_agent/tasks/scanner.py\<close>: the ping sweep of the configured subnets, the
  device file and the alert on new devices, the list of switches with its coverage guard, and what
  a run hands to the monitors and to the shared state.

  Who answers a ping, what the DNS knows, which host accepts a REST login and how the two files can
  be read and written are the environment of a run.  The rows of the device file are lists of cells;
  the quoting of the csv module is not modelled.
\<close>

subsection \<open>Addresses and networks as text\<close>

definition ip_octet :: "nat \<Rightarrow> ipv4 \<Rightarrow> nat" where
  "ip_octet k w = unat w div 256 ^ k mod 256"

definition ip_str :: "ipv4 \<Rightarrow> string" where
  "ip_str w = join ''.'' [nat_str (ip_octet 3 w), nat_str (ip_octet 2 w), nat_str (ip_octet 1 w), nat_str (ip_octet 0 w)]"

text \<open>\<open>net.hosts()\<close>: all addresses between the network and the broadcast address.\<close>

definition net_hosts :: "ipv4 \<times> nat \<Rightarrow> ipv4 list" where
  "net_hosts net = (case net of (w, n) \<Rightarrow> map (\<lambda>i. w + of_nat i)
     (if n = 32 then [0] else if n = 31 then [0, 1] else [1..<2 ^ (32 - n) - 1]))"

definition ip_key :: "string \<Rightarrow> ipv4" where
  "ip_key s = (case parse_ipv4 s of None \<Rightarrow> 0 | Some w \<Rightarrow> w)"

subsection \<open>Configuration\<close>

record scanner =
  ns_subnets :: "string list"
  ns_exclude :: "string list"
  ns_keywords :: "string list"
  ns_device_file :: string
  ns_ip_list :: string
  ns_icmp_timeout :: int
  ns_drop_pct :: int
  ns_guard :: bool
  ns_verify :: bool
  ns_workers :: int
  ns_user :: string
  ns_pass :: string

definition pieces :: "string \<Rightarrow> string list" where
  "pieces v = filter (\<lambda>x. x \<noteq> []) (map strip (split_on (CHR '','') v))"

definition affirmative :: "string \<Rightarrow> bool" where
  "affirmative v = (lower (strip v) \<in> {''1'', ''true'', ''yes'', ''on''})"

definition section_int :: "config \<Rightarrow> string \<Rightarrow> string \<Rightarrow> string \<Rightarrow> int result" where
  "section_int c sec opt dflt = bind_r (config_get c sec opt dflt)
     (\<lambda>v. case py_int v of None \<Rightarrow> Inl ValueError | Some n \<Rightarrow> Inr n)"

definition new_scanner :: "fernet option \<Rightarrow> config \<Rightarrow> scanner result" where
  "new_scanner inst c =
     bind_r (config_get c ''scanner'' ''subnets'' []) (\<lambda>subnets.
     bind_r (config_get c ''scanner'' ''exclude_suffixes'' ''1,2,3,255'') (\<lambda>excl.
     bind_r (config_get c ''scanner'' ''filter_keywords'' ''6100,6300,Aruba'') (\<lambda>kws.
     bind_r (config_get c ''scanner'' ''device_file'' ''/var/lib/aruba-agent/network_devices.csv'') (\<lambda>devfile.
     bind_r (config_get c ''scanner'' ''ip_list_output'' ''/var/lib/aruba-agent/ip_list.txt'') (\<lambda>iplist.
     bind_r (section_int c ''scanner'' ''icmp_timeout'' ''3'') (\<lambda>tmo.
     bind_r (section_int c ''scanner'' ''coverage_drop_alert_pct'' ''25'') (\<lambda>pct.
     bind_r (config_get c ''scanner'' ''coverage_guard'' ''true'') (\<lambda>guard.
     bind_r (config_get c ''scanner'' ''verify_via_api'' ''true'') (\<lambda>verify.
     bind_r (section_int c ''scanner'' ''api_workers'' ''16'') (\<lambda>workers.
     bind_r (config_get c ''credentials'' ''username'' []) (\<lambda>user.
     bind_r (cfg_get inst c ''credentials'' ''password'' []) (\<lambda>pw.
     Inr \<lparr>ns_subnets = pieces subnets, ns_exclude = pieces excl, ns_keywords = pieces kws, ns_device_file = devfile,
       ns_ip_list = iplist, ns_icmp_timeout = tmo, ns_drop_pct = pct, ns_guard = affirmative guard,
       ns_verify = (affirmative verify \<and> user \<noteq> [] \<and> pw \<noteq> []), ns_workers = workers, ns_user = user, ns_pass = pw\<rparr>))))))))))))"

subsection \<open>The environment of a run\<close>

text \<open>
  A name lookup gives a name, fails in one of the two ways the code expects, or raises something
  else.  A write succeeds, fails before the file is opened, or is cut off after some rows or
  characters.
\<close>

datatype dns_answer = Name string | Unknown_Name | Lookup_Raises

datatype write_outcome = Written | Not_Opened | Cut nat

record scan_env =
  se_alive :: "string \<Rightarrow> bool"
  se_dns :: "string \<Rightarrow> dns_answer"
  se_rest :: "string \<Rightarrow> string option"
  se_csv_readable :: bool
  se_csv_write :: write_outcome
  se_list_readable :: bool
  se_list_write :: write_outcome
  se_now :: datetime

record scan_files =
  sf_csv :: "string list list option"
  sf_list :: "string option"

subsection \<open>The sweep\<close>

fun resolve_alive :: "scan_env \<Rightarrow> string list \<Rightarrow> (string, string) dict \<Rightarrow> (string, string) dict" where
  "resolve_alive env [] devices = devices"
| "resolve_alive env (ip # ips) devices = (if se_alive env ip \<and> \<not> has_key devices ip
     then (case se_dns env ip of
         Name n \<Rightarrow> resolve_alive env ips (dset ip n devices)
       | Unknown_Name \<Rightarrow> resolve_alive env ips (dset ip ''N/A'' devices)
       | Lookup_Raises \<Rightarrow> devices)
     else resolve_alive env ips devices)"

definition scan_targets :: "scanner \<Rightarrow> ipv4 \<times> nat \<Rightarrow> string list" where
  "scan_targets s net = filter (\<lambda>ip. last (split_on (CHR ''.'') ip) \<notin> set (ns_exclude s)) (map ip_str (net_hosts net))"

definition scan_subnet :: "scan_env \<Rightarrow> scanner \<Rightarrow> string \<Rightarrow> (string, string) dict \<Rightarrow> (string, string) dict" where
  "scan_subnet env s subnet devices = (case parse_network subnet of
     None \<Rightarrow> devices | Some net \<Rightarrow> resolve_alive env (scan_targets s net) devices)"

definition scan :: "scan_env \<Rightarrow> scanner \<Rightarrow> (string, string) dict" where
  "scan env s = fold (scan_subnet env s) (ns_subnets s) []"

subsection \<open>The device file\<close>

definition load_existing :: "scan_env \<Rightarrow> scan_files \<Rightarrow> (string, string) dict" where
  "load_existing env f = (case sf_csv f of
       None \<Rightarrow> []
     | Some rows \<Rightarrow> if \<not> se_csv_readable env then []
         else let body = filter (\<lambda>r. r \<noteq> []) (drop 1 rows) in
           if list_ex (\<lambda>r. length r = 1) body then []
           else fold (\<lambda>r d. dset (r ! 0) (r ! 1) d) body [])"

definition device_rows_of :: "(string, string) dict \<Rightarrow> string list list" where
  "device_rows_of devices = [''IP_Address'', ''DNS_Name'']
     # map (\<lambda>(ip, name). [ip, name]) (sort_key (\<lambda>(ip, name). ip_key ip) devices)"

definition save_devices :: "scan_env \<Rightarrow> (string, string) dict \<Rightarrow> scan_files \<Rightarrow> bool \<times> scan_files" where
  "save_devices env devices f = (case se_csv_write env of
       Written \<Rightarrow> (True, f\<lparr>sf_csv := Some (device_rows_of devices)\<rparr>)
     | Not_Opened \<Rightarrow> (False, f)
     | Cut n \<Rightarrow> (False, f\<lparr>sf_csv := Some (take n (device_rows_of devices))\<rparr>))"

text \<open>\<open>_diff_new\<close> and \<open>_known_monitored_ips\<close>.\<close>

definition diff_new :: "(string, string) dict \<Rightarrow> (string, string) dict \<Rightarrow> string set \<Rightarrow> (string, string) dict" where
  "diff_new current existing known_ips = filter (\<lambda>(ip, _). \<not> has_key existing ip \<and> ip \<notin> known_ips) current"

definition inventory_ip :: "json \<Rightarrow> string option" where
  "inventory_ip d = (case d of JObj kvs \<Rightarrow> (case map_of kvs ''ip'' of Some (JStr s) \<Rightarrow> if s = [] then None else Some s | _ \<Rightarrow> None)
     | _ \<Rightarrow> None)"

definition known_monitored_ips :: "agent_state \<Rightarrow> string set" where
  "known_monitored_ips st = {h \<in> set (map sw_host (dvals (switches st))). h \<noteq> []}
     \<union> set (concat (map (\<lambda>d. case inventory_ip d of None \<Rightarrow> [] | Some ip \<Rightarrow> [ip]) (device_inventory st)))"

subsection \<open>The list of switches\<close>

text \<open>\<open>_verify_via_rest\<close>: the hosts that accept a REST login, with the host name the switch gives.\<close>

definition verify_via_rest :: "scan_env \<Rightarrow> string list \<Rightarrow> (string, string) dict" where
  "verify_via_rest env candidates = concat (map (\<lambda>ip. case se_rest env ip of
     None \<Rightarrow> [] | Some name \<Rightarrow> [(ip, or_else name ip)]) candidates)"

definition keyword_hits :: "scanner \<Rightarrow> (string, string) dict \<Rightarrow> (string, string) dict" where
  "keyword_hits s devices = filter (\<lambda>(ip, name). list_ex (contains name) (ns_keywords s)) devices"

definition rest_hits :: "scan_env \<Rightarrow> scanner \<Rightarrow> (string, string) dict \<Rightarrow> (string, string) dict" where
  "rest_hits env s devices = (if ns_verify s
     then verify_via_rest env (filter (\<lambda>ip. \<not> has_key (keyword_hits s devices) ip) (dkeys devices)) else [])"

definition listed_ips :: "scan_env \<Rightarrow> scanner \<Rightarrow> (string, string) dict \<Rightarrow> string list" where
  "listed_ips env s devices = sort_key ip_key (dkeys (keyword_hits s devices) @ dkeys (rest_hits env s devices))"

definition backfill :: "(string, string) dict \<Rightarrow> (string, string) dict \<Rightarrow> (string, string) dict" where
  "backfill hits devices = fold (\<lambda>(ip, hostname) d. dset ip hostname d) hits devices"

definition file_lines :: "string \<Rightarrow> string list" where
  "file_lines text = filter (\<lambda>l. l \<noteq> []) (map strip (split_on (CHR ''\<newline>'') text))"

definition previous_list :: "scan_env \<Rightarrow> scan_files \<Rightarrow> string list" where
  "previous_list env f = (case sf_list f of None \<Rightarrow> [] | Some text \<Rightarrow> if se_list_readable env then file_lines text else [])"

definition coverage_dropped :: "scanner \<Rightarrow> nat \<Rightarrow> nat \<Rightarrow> bool" where
  "coverage_dropped s prev_count new_count = (ns_drop_pct s > 0 \<and> prev_count \<ge> 10
     \<and> (of_nat new_count :: rat) < of_nat prev_count * (1 - of_int (ns_drop_pct s) / 100))"

definition drop_summary :: "nat \<Rightarrow> nat \<Rightarrow> string" where
  "drop_summary prev_count new_count = ''Discovery coverage dropped sharply: this scan found '' @ nat_str new_count
     @ '' switch(es) vs '' @ nat_str prev_count @ '' previously (-''
     @ int_str (round_half_even (of_int (int prev_count - int new_count) / of_nat prev_count * 100)) @ ''%).''"

definition write_list :: "scan_env \<Rightarrow> string list \<Rightarrow> scan_files \<Rightarrow> bool \<times> scan_files" where
  "write_list env ips f = (let text = concat (map (\<lambda>ip. ip @ ''\<newline>'') ips) in case se_list_write env of
       Written \<Rightarrow> (True, f\<lparr>sf_list := Some text\<rparr>)
     | Not_Opened \<Rightarrow> (False, f)
     | Cut n \<Rightarrow> (False, f\<lparr>sf_list := Some (take n text)\<rparr>))"

text \<open>
  \<open>_write_ip_list\<close> after the hits are known: the list handed on, or the error of the write, with
  the files and the notifier.
\<close>

definition store_list :: "scan_env \<Rightarrow> scanner \<Rightarrow> string list \<Rightarrow> scan_files \<Rightarrow> notifier \<Rightarrow> string list result \<times> scan_files \<times> notifier" where
  "store_list env s all_ips f n =
     (let prev = previous_list env f; prev_count = length prev; new_count = length all_ips;
          summary = drop_summary prev_count new_count;
          write = (\<lambda>n'. case write_list env all_ips f of (ok, f') \<Rightarrow> (if ok then Inr all_ips else Inl OSError, f', n'))
      in if coverage_dropped s prev_count new_count
         then if ns_guard s
           then (Inr prev, f, notifier_send (''[Network Agent] Discovery coverage drop '' @ em_dash @ '' list preserved'')
             (summary @ ''\<newline>\<newline>The previous '' @ nat_str prev_count @ ''-switch list at '' @ ns_ip_list s
               @ '' was preserved, so monitoring and backups are unchanged. Investigate discovery (routing, DNS, ''
               @ ''credentials) before the next scan.'') n)
           else write (notifier_send ''[Network Agent] Discovery coverage drop'' summary n)
         else write n)"

subsection \<open>A run\<close>

record scan_world =
  sc_files :: scan_files
  sc_notifier :: notifier
  sc_manager :: "manager option"
  sc_state :: agent_state

definition pad_right :: "nat \<Rightarrow> string \<Rightarrow> string" where
  "pad_right w s = s @ replicate (w - length s) (CHR '' '')"

definition alert_new :: "(string, string) dict \<Rightarrow> notifier \<Rightarrow> notifier" where
  "alert_new new_devs n = (if new_devs = [] then n
     else notifier_send ''[Network Agent] New Devices Discovered''
       (''New devices discovered on the network:\<newline>\<newline>''
         @ join ''\<newline>'' (map (\<lambda>(ip, name). ''  '' @ pad_right 16 ip @ ''  '' @ name) (sort_key (\<lambda>(ip, name). ip_key ip) new_devs))) n)"

definition inventory_json :: "(string, string) dict \<Rightarrow> json list" where
  "inventory_json current = map (\<lambda>(ip, name). JObj [(''ip'', JStr ip), (''name'', JStr name)]) current"

definition sync_monitors :: "string list \<Rightarrow> scan_world \<Rightarrow> scan_world" where
  "sync_monitors ips w = (case sc_manager w of None \<Rightarrow> w
     | Some g \<Rightarrow> if ips = [] then w
         else case manager_sync ips g (sc_state w) of (g', st') \<Rightarrow> w\<lparr>sc_manager := Some g', sc_state := st'\<rparr>)"

definition scanner_run :: "scan_env \<Rightarrow> scanner \<Rightarrow> scan_world \<Rightarrow> py_error option \<times> scan_world" where
  "scanner_run env s w =
     (if ns_subnets s = [] then (None, w)
      else let existing = load_existing env (sc_files w); current = scan env s;
               new_devs = diff_new current existing (known_monitored_ips (sc_state w));
               w1 = w\<lparr>sc_notifier := alert_new new_devs (sc_notifier w)\<rparr>
        in case save_devices env current (sc_files w1) of
          (False, f) \<Rightarrow> (Some OSError, w1\<lparr>sc_files := f\<rparr>)
        | (True, f) \<Rightarrow>
            let current' = backfill (rest_hits env s current) current in
            (case store_list env s (listed_ips env s current) f (sc_notifier w1) of
               (Inl e, f', n') \<Rightarrow> (Some e, w1\<lparr>sc_files := f', sc_notifier := n'\<rparr>)
             | (Inr ips, f', n') \<Rightarrow>
                 let w2 = sync_monitors ips (w1\<lparr>sc_files := f', sc_notifier := n'\<rparr>) in
                 (None, w2\<lparr>sc_state := set_device_inventory (se_now env) (inventory_json current') (sc_state w2)\<rparr>)))"

end
