(* ===== verification/Scanner_Proofs.thy ===== *)
theory Scanner_Proofs
  imports Scanner Switch_Poller_Proofs
begin

text \<open>
  The network scanner: addresses print and read back; which hosts a run lists and monitors; the
  coverage guard; and that a device is announced once.
\<close>

subsection \<open>Addresses read back\<close>

lemma short_nat_str: "n < 1000 \<Longrightarrow> length (nat_str n) \<le> 3"
  by (simp add: nat_str.simps [of n] nat_str.simps [of "n div 10"] nat_str.simps [of "n div 10 div 10"])

lemma nat_str_hd: "10 \<le> n \<Longrightarrow> hd (nat_str n) \<noteq> CHR ''0''"
proof (induction n rule: nat_str.induct)
  case (1 n)
  have d: "digit_char k \<noteq> CHR ''0''" if "0 < k" "k < 10" for k
  proof -
    have "list_all (\<lambda>k. digit_char k \<noteq> CHR ''0'') [1..<10]" by code_simp
    then show ?thesis using that by (auto simp: list_all_iff)
  qed
  show ?case
  proof (cases "n div 10 < 10")
    case True
    then have "nat_str (n div 10) = [digit_char (n div 10)]" by (simp add: nat_str.simps [of "n div 10"])
    then show ?thesis using 1(2) True d [of "n div 10"] by (simp add: nat_str.simps [of n])
  next
    case False
    then have "hd (nat_str (n div 10)) \<noteq> CHR ''0''" using 1 by simp
    then show ?thesis using 1(2) by (simp add: nat_str.simps [of n] hd_append)
  qed
qed

lemma parse_octet_nat_str: "n < 256 \<Longrightarrow> parse_octet (nat_str n) = Some n"
proof -
  assume n: "n < 256"
  have "length (nat_str n) = 1" if "n < 10" using that by (simp add: nat_str.simps [of n])
  then have "\<not> (length (nat_str n) > 1 \<and> hd (nat_str n) = CHR ''0'')" using nat_str_hd [of n] by (cases "n < 10") auto
  then show ?thesis
    using n short_nat_str [of n] isdigit_nat_str [of n] by (simp add: parse_octet_def foldl_nat_str isdigit_str_def Let_def)
qed

lemma octets_word: "ipv4_of_octets (ip_octet 3 w) (ip_octet 2 w) (ip_octet 1 w) (ip_octet 0 w) = w"
proof -
  define u where "u = unat w"
  have u: "u < 256 ^ 4" using unsigned_less [of w] by (simp add: u_def)
  then have "u div 256 ^ 3 mod 256 = u div 256 ^ 3" by simp
  moreover have "u div 256 ^ 3 = u div 256 div 256 div 256" "u div 256 ^ 2 = u div 256 div 256" by (simp_all add: div_mult2_eq [symmetric])
  ultimately have "((u div 256 ^ 3 mod 256 * 256 + u div 256 ^ 2 mod 256) * 256 + u div 256 ^ 1 mod 256) * 256 + u div 256 ^ 0 mod 256 = u"
    by simp
  then show ?thesis by (simp only: ipv4_of_octets_def ip_octet_def u_def [symmetric]) (simp add: u_def)
qed

lemma ip_str_split: "split_on (CHR ''.'') (ip_str w) = map (\<lambda>k. nat_str (ip_octet k w)) [3, 2, 1, 0]"
  using split_join [of "map (\<lambda>k. nat_str (ip_octet k w)) [3, 2, 1, 0]" "CHR ''.''"] nat_str_digits is_digit_not_special(3)
  by (auto simp: ip_str_def)

lemma parse_ip_str [simp]: "parse_ipv4 (ip_str w) = Some w"
proof -
  have "ip_octet k w < 256" for k by (simp add: ip_octet_def)
  then show ?thesis by (simp add: parse_ipv4_def ip_str_split parse_octet_nat_str octets_word [unfolded One_nat_def])
qed

lemma ip_key_str [simp]: "ip_key (ip_str w) = w"
  by (simp add: ip_key_def)

lemma ip_str_chars: "c \<in> set (ip_str w) \<Longrightarrow> is_digit c \<or> c = CHR ''.''"
  using nat_str_digits by (auto simp: ip_str_def)

lemma ip_str_plain: "c \<in> set (ip_str w) \<Longrightarrow> \<not> is_ws c" "ip_str w \<noteq> []"
  using ip_str_chars [of c w] is_digit_not_ws by (auto simp: is_ws_def ip_str_def)

lemma strip_ip_str [simp]: "strip (ip_str w) = ip_str w"
  by (rule strip_no_ws) (use ip_str_plain in blast)

subsection \<open>The sweep\<close>

lemma resolve_alive_keys:
  "(\<forall>ip \<in> set ips. se_alive env ip \<longrightarrow> se_dns env ip \<noteq> Lookup_Raises) \<Longrightarrow>
   has_key (resolve_alive env ips d) ip \<longleftrightarrow> has_key d ip \<or> ip \<in> set ips \<and> se_alive env ip"
  by (induction env ips d rule: resolve_alive.induct) (auto split: dns_answer.splits)

lemma resolve_alive_from: "has_key (resolve_alive env ips d) ip \<Longrightarrow> has_key d ip \<or> ip \<in> set ips"
  by (induction env ips d rule: resolve_alive.induct) (auto split: dns_answer.splits if_splits)

lemma resolve_alive_distinct: "distinct (dkeys d) \<Longrightarrow> distinct (dkeys (resolve_alive env ips d))"
  by (induction env ips d rule: resolve_alive.induct) (auto simp: distinct_update split: dns_answer.splits)

text \<open>The hosts a scan is to find: those of a readable subnet, without the excluded suffixes.\<close>

definition in_range :: "scanner \<Rightarrow> string \<Rightarrow> bool" where
  "in_range s ip \<longleftrightarrow> (\<exists>subnet \<in> set (ns_subnets s). \<exists>net. parse_network subnet = Some net \<and> ip \<in> set (scan_targets s net))"

lemma scan_fold_keys:
  "(\<forall>ip. se_dns env ip \<noteq> Lookup_Raises) \<Longrightarrow>
   has_key (fold (scan_subnet env s) subnets d) ip \<longleftrightarrow> has_key d ip
     \<or> se_alive env ip \<and> (\<exists>subnet \<in> set subnets. \<exists>net. parse_network subnet = Some net \<and> ip \<in> set (scan_targets s net))"
  by (induction subnets arbitrary: d) (auto simp: scan_subnet_def resolve_alive_keys split: option.splits)

lemma scan_keys: "(\<forall>ip. se_dns env ip \<noteq> Lookup_Raises) \<Longrightarrow> has_key (scan env s) ip \<longleftrightarrow> se_alive env ip \<and> in_range s ip"
  by (simp add: scan_def scan_fold_keys in_range_def)

lemma scan_fold_ips: "has_key (fold (scan_subnet env s) subnets d) ip \<Longrightarrow> has_key d ip \<or> (\<exists>w. ip = ip_str w)"
proof (induction subnets arbitrary: d)
  case (Cons subnet subnets)
  then have "has_key (scan_subnet env s subnet d) ip \<or> (\<exists>w. ip = ip_str w)" by simp
  then show ?case by (auto simp: scan_subnet_def scan_targets_def dest!: resolve_alive_from split: option.splits)
qed simp

lemma scan_ips: "has_key (scan env s) ip \<Longrightarrow> \<exists>w. ip = ip_str w"
  using scan_fold_ips [of env s "ns_subnets s" "[]" ip] by (simp add: scan_def)

lemma scan_distinct: "distinct (dkeys (scan env s))"
proof -
  have "distinct (dkeys d) \<Longrightarrow> distinct (dkeys (fold (scan_subnet env s) subnets d))" for subnets d
    by (induction subnets arbitrary: d) (auto simp: scan_subnet_def resolve_alive_distinct split: option.splits)
  then show ?thesis by (simp add: scan_def)
qed

subsection \<open>The list\<close>

text \<open>A host that is taken for a switch: by its name, or by the REST login.\<close>

definition taken_for_switch :: "scan_env \<Rightarrow> scanner \<Rightarrow> string \<Rightarrow> bool" where
  "taken_for_switch env s ip \<longleftrightarrow> (\<exists>name. dget (scan env s) ip = Some name
     \<and> (list_ex (contains name) (ns_keywords s) \<or> ns_verify s \<and> se_rest env ip \<noteq> None))"

lemma rest_keys: "dkeys (verify_via_rest env ips) = filter (\<lambda>ip. se_rest env ip \<noteq> None) ips"
  by (induction ips) (auto simp: verify_via_rest_def split: option.split)

lemma rest_hit_keys: "set (dkeys (rest_hits env s d)) = (if ns_verify s
    then {ip \<in> set (dkeys d). ip \<notin> set (dkeys (keyword_hits s d)) \<and> se_rest env ip \<noteq> None} else {})"
  "distinct (dkeys d) \<Longrightarrow> distinct (dkeys (rest_hits env s d))"
proof -
  have "dkeys (rest_hits env s d) = (if ns_verify s
      then filter (\<lambda>ip. se_rest env ip \<noteq> None) (filter (\<lambda>ip. \<not> has_key (keyword_hits s d) ip) (dkeys d)) else [])"
    by (cases "ns_verify s") (simp_all only: rest_hits_def rest_keys if_True if_False list.map)
  then show "set (dkeys (rest_hits env s d)) = (if ns_verify s
      then {ip \<in> set (dkeys d). ip \<notin> set (dkeys (keyword_hits s d)) \<and> se_rest env ip \<noteq> None} else {})"
    "distinct (dkeys d) \<Longrightarrow> distinct (dkeys (rest_hits env s d))"
    by (simp_all only: if_distrib [of set] list.set set_filter has_key_iff distinct_filter split: if_split) auto
qed

lemma keyword_keys: "distinct (dkeys d) \<Longrightarrow> ip \<in> set (dkeys (keyword_hits s d)) \<longleftrightarrow> (\<exists>n. dget d ip = Some n \<and> list_ex (contains n) (ns_keywords s))"
  by (force simp: keyword_hits_def dget_iff_mem)

lemma listed_set: "ip \<in> set (listed_ips env s (scan env s)) \<longleftrightarrow> taken_for_switch env s ip"
proof -
  note k = keyword_keys [OF scan_distinct, of ip s env s]
  note r = rest_hit_keys(1) [of env s "scan env s"]
  have "ip \<in> set (dkeys (scan env s)) \<longleftrightarrow> (\<exists>n. dget (scan env s) ip = Some n)"
    using has_key_iff [of "scan env s" ip] by (auto simp: has_key_def)
  then show ?thesis unfolding listed_ips_def taken_for_switch_def set_sort set_append r using k by auto
qed

lemma listed_distinct: "distinct (listed_ips env s (scan env s))"
proof -
  have "distinct (dkeys (keyword_hits s (scan env s)))"
    unfolding keyword_hits_def using scan_distinct by (rule distinct_map_filter)
  moreover have "distinct (dkeys (rest_hits env s (scan env s)))"
    using scan_distinct by (rule rest_hit_keys(2))
  moreover have "set (dkeys (keyword_hits s (scan env s))) \<inter> set (dkeys (rest_hits env s (scan env s))) = {}"
    unfolding rest_hit_keys(1) by auto
  ultimately show ?thesis by (simp only: listed_ips_def distinct_sort distinct_append)
qed

lemma listed_ip: "ip \<in> set (listed_ips env s (scan env s)) \<Longrightarrow> \<exists>w. ip = ip_str w"
  unfolding listed_set taken_for_switch_def using scan_ips [of env s ip] by (auto simp: has_key_def)

text \<open>What is written is read back line by line.\<close>

lemma lines_read_back: "(\<forall>ip \<in> set ips. \<exists>w. ip = ip_str w) \<Longrightarrow> file_lines (concat (map (\<lambda>ip. ip @ ''\<newline>'') ips)) = ips"
proof (induction ips)
  case (Cons ip ips)
  then obtain w where w: "ip = ip_str w" by auto
  have "CHR ''\<newline>'' \<notin> set ip" using ip_str_plain(1) [of "CHR ''\<newline>''" w] by (auto simp: w is_ws_def)
  then show ?case using Cons ip_str_plain(2) [of w]
    by (simp add: file_lines_def split_on_append w)
qed (simp add: file_lines_def strip_def lstrip_def rstrip_def)

text \<open>The name of a host that answered.\<close>

definition dns_name :: "scan_env \<Rightarrow> string \<Rightarrow> string" where
  "dns_name env ip = (case se_dns env ip of Name n \<Rightarrow> n | _ \<Rightarrow> ''N/A'')"

definition named_by :: "scan_env \<Rightarrow> (string, string) dict \<Rightarrow> bool" where
  "named_by env d \<longleftrightarrow> (\<forall>ip n. dget d ip = Some n \<longrightarrow> n = dns_name env ip)"

lemma named_dset: "named_by env d \<Longrightarrow> named_by env (dset ip (dns_name env ip) d)"
  unfolding named_by_def by auto

lemma resolve_alive_names: "named_by env d \<Longrightarrow> named_by env (resolve_alive env ips d)"
proof (induction env ips d rule: resolve_alive.induct)
  case (2 env ip ips devices)
  show ?case
  proof (cases "se_dns env ip")
    case (Name n)
    then show ?thesis using 2 named_dset [OF 2(4), of ip] by (simp add: dns_name_def)
  next
    case Unknown_Name
    then show ?thesis using 2 named_dset [OF 2(4), of ip] by (simp add: dns_name_def)
  qed (use 2 in simp)
qed simp

lemma scan_subnet_names: "named_by env d \<Longrightarrow> named_by env (scan_subnet env s subnet d)"
  by (cases "parse_network subnet") (simp_all add: scan_subnet_def resolve_alive_names)

lemma scan_names: "dget (scan env s) ip = Some n \<Longrightarrow> n = dns_name env ip"
proof -
  have fold: "named_by env d \<Longrightarrow> named_by env (fold (scan_subnet env s) subnets d)" for subnets d
    by (induction subnets arbitrary: d) (simp_all add: scan_subnet_names)
  have "named_by env []" unfolding named_by_def by simp
  then have "named_by env (scan env s)" unfolding scan_def by (rule fold)
  then show "dget (scan env s) ip = Some n \<Longrightarrow> n = dns_name env ip" unfolding named_by_def by blast
qed

definition switch_like :: "scan_env \<Rightarrow> scanner \<Rightarrow> string \<Rightarrow> bool" where
  "switch_like env s ip \<longleftrightarrow> list_ex (contains (dns_name env ip)) (ns_keywords s) \<or> ns_verify s \<and> se_rest env ip \<noteq> None"

lemma taken_iff:
  assumes "\<forall>ip. se_dns env ip \<noteq> Lookup_Raises"
  shows "taken_for_switch env s ip \<longleftrightarrow> se_alive env ip \<and> in_range s ip \<and> switch_like env s ip"
proof -
  have "se_alive env ip \<and> in_range s ip \<longleftrightarrow> (\<exists>n. dget (scan env s) ip = Some n)"
    using scan_keys [OF assms, of s ip] by (auto simp: has_key_def)
  then show ?thesis unfolding taken_for_switch_def switch_like_def using scan_names by blast
qed

subsection \<open>A run\<close>

lemma save_devices_list: "save_devices env d f = (ok, f') \<Longrightarrow> sf_list f' = sf_list f"
  by (auto simp: save_devices_def split: write_outcome.splits)

lemma previous_list_same: "sf_list f = sf_list f' \<Longrightarrow> previous_list env f = previous_list env f'"
  by (simp add: previous_list_def)

lemma run_success:
  assumes "scanner_run env s w = (None, w')" "ns_subnets s \<noteq> []"
  obtains f n ips f' n' w2 where "save_devices env (scan env s) (sc_files w) = (True, f)"
    "store_list env s (listed_ips env s (scan env s)) f n = (Inr ips, f', n')"
    "w2 = sync_monitors ips (w\<lparr>sc_files := f', sc_notifier := n'\<rparr>)"
    "w' = w2\<lparr>sc_state := set_device_inventory (se_now env)
       (inventory_json (backfill (rest_hits env s (scan env s)) (scan env s))) (sc_state w2)\<rparr>"
proof -
  obtain ok f where f: "save_devices env (scan env s) (sc_files w) = (ok, f)" by fastforce
  let ?n = "alert_new (diff_new (scan env s) (load_existing env (sc_files w)) (known_monitored_ips (sc_state w))) (sc_notifier w)"
  obtain r f' n' where l: "store_list env s (listed_ips env s (scan env s)) f ?n = (r, f', n')" by (metis prod_cases3)
  show thesis
  proof (cases "ok \<and> (\<exists>ips. r = Inr ips)")
    case True
    then obtain ips where "ok" "r = Inr ips" by blast
    then show thesis using assms f l by (intro that [of f ?n ips f' n']) (auto simp: scanner_run_def Let_def)
  next
    case False
    then show thesis using assms f l by (cases ok; cases r) (auto simp: scanner_run_def Let_def)
  qed
qed

lemma sync_files [simp]: "sc_files (sync_monitors ips w) = sc_files w"
  by (auto simp: sync_monitors_def split: option.split prod.split)

lemma sync_manager:
  assumes "sc_manager w = Some g" "dict_ok (\<lambda>h m. mon_host m = h) (g_monitors g)"
  shows "\<exists>g'. sc_manager (sync_monitors ips w) = Some g'
    \<and> (\<forall>h. has_key (g_monitors g') h \<longleftrightarrow> h \<in> set ips \<or> has_key (g_monitors g) h)"
proof -
  obtain g' st' where "manager_sync ips g (sc_state w) = (g', st')" by fastforce
  with manager_sync_spec [OF this assms(2)] show ?thesis using assms(1) by (simp add: sync_monitors_def)
qed

lemma written_list:
  assumes "write_list env ips f = (True, f')" "se_list_readable env" "\<forall>ip \<in> set ips. \<exists>w. ip = ip_str w"
  shows "previous_list env f' = ips"
  using assms lines_read_back [OF assms(3)]
  by (auto simp: write_list_def previous_list_def Let_def split: write_outcome.splits)

lemma store_list_outcome:
  assumes "store_list env s ips f n = (Inr ips', f', n')" "se_list_readable env" "\<forall>ip \<in> set ips. \<exists>w. ip = ip_str w"
  shows "if coverage_dropped s (length (previous_list env f)) (length ips) \<and> ns_guard s
    then ips' = previous_list env f \<and> f' = f else ips' = ips \<and> previous_list env f' = ips"
  using assms written_list [OF _ assms(2,3), of f]
  by (auto simp: store_list_def Let_def split: if_splits prod.splits)

text \<open>
  C27: When coverage has not dropped, a successful run writes the list of exactly the hosts that answer
  a ping, lie in a configured subnet outside the excluded suffixes and are taken for a switch, by their
  name or by a REST login, each once and in the order of their addresses; all of them are monitored
  from then on, beside everything that was monitored before.
\<close>

theorem scan_lists_and_monitors:
  assumes "scanner_run env s w = (None, w')" and "ns_subnets s \<noteq> []" and "\<forall>ip. se_dns env ip \<noteq> Lookup_Raises"
    and "se_list_readable env" and "sc_manager w = Some g" and "dict_ok (\<lambda>h m. mon_host m = h) (g_monitors g)"
    and "\<not> coverage_dropped s (length (previous_list env (sc_files w))) (length (listed_ips env s (scan env s)))"
  shows "\<exists>ips g'. previous_list env (sc_files w') = ips \<and> distinct ips \<and> sorted (map ip_key ips)
    \<and> (\<forall>ip. ip \<in> set ips \<longleftrightarrow> se_alive env ip \<and> in_range s ip \<and> switch_like env s ip)
    \<and> sc_manager w' = Some g' \<and> (\<forall>h. has_key (g_monitors g') h \<longleftrightarrow> h \<in> set ips \<or> has_key (g_monitors g) h)"
proof -
  obtain f n ips f' n' w2 where r: "save_devices env (scan env s) (sc_files w) = (True, f)"
    "store_list env s (listed_ips env s (scan env s)) f n = (Inr ips, f', n')"
    "w2 = sync_monitors ips (w\<lparr>sc_files := f', sc_notifier := n'\<rparr>)"
    "w' = w2\<lparr>sc_state := set_device_inventory (se_now env)
       (inventory_json (backfill (rest_hits env s (scan env s)) (scan env s))) (sc_state w2)\<rparr>"
    by (rule run_success [OF assms(1,2)])
  have "previous_list env f = previous_list env (sc_files w)"
    by (rule previous_list_same) (rule save_devices_list [OF r(1)])
  then have ips: "ips = listed_ips env s (scan env s)" "previous_list env f' = ips"
    using store_list_outcome [OF r(2) assms(4)] listed_ip assms(7) by auto
  obtain g' where g': "sc_manager w2 = Some g'" "\<forall>h. has_key (g_monitors g') h \<longleftrightarrow> h \<in> set ips \<or> has_key (g_monitors g) h"
    using sync_manager [of "w\<lparr>sc_files := f', sc_notifier := n'\<rparr>" g ips] assms(5,6) r(3) by auto
  have "previous_list env (sc_files w') = ips" using ips(2) by (simp add: r(3,4))
  moreover have "distinct ips" unfolding ips(1) by (rule listed_distinct)
  moreover have "sorted (map ip_key ips)" unfolding ips(1) listed_ips_def by (rule sorted_sort_key)
  moreover have "\<forall>ip. ip \<in> set ips \<longleftrightarrow> se_alive env ip \<and> in_range s ip \<and> switch_like env s ip"
    unfolding ips(1) listed_set by (simp only: taken_iff [OF assms(3)]) simp
  ultimately show ?thesis using g' by (auto simp: r(4))
qed

text \<open>
  C28: With the guard on, no successful run shrinks a list of ten or more switches by more than the
  configured percentage, whatever the network, the DNS and the REST logins answered, and none stops
  the monitoring of a host.
\<close>

theorem coverage_guard_holds:
  assumes "scanner_run env s w = (None, w')" and "ns_guard s" and "0 < ns_drop_pct s" and "se_list_readable env"
    and "10 \<le> length (previous_list env (sc_files w))"
    and "sc_manager w = Some g" and "dict_ok (\<lambda>h m. mon_host m = h) (g_monitors g)"
  shows "of_nat (length (previous_list env (sc_files w))) * (1 - of_int (ns_drop_pct s) / 100)
      \<le> (of_nat (length (previous_list env (sc_files w'))) :: rat)
    \<and> (\<exists>g'. sc_manager w' = Some g' \<and> (\<forall>h. has_key (g_monitors g) h \<longrightarrow> has_key (g_monitors g') h))"
proof (cases "ns_subnets s = []")
  case True
  have "of_nat (length (previous_list env (sc_files w))) * (of_int (ns_drop_pct s) / 100) \<ge> (0 :: rat)"
    using assms(3) by (intro mult_nonneg_nonneg) simp_all
  moreover have "w' = w" using True assms(1) by (simp add: scanner_run_def)
  ultimately show ?thesis using assms(6) by (simp add: right_diff_distrib)
next
  case False
  let ?p = "length (previous_list env (sc_files w))"
  obtain f n ips f' n' w2 where r: "save_devices env (scan env s) (sc_files w) = (True, f)"
    "store_list env s (listed_ips env s (scan env s)) f n = (Inr ips, f', n')"
    "w2 = sync_monitors ips (w\<lparr>sc_files := f', sc_notifier := n'\<rparr>)"
    "w' = w2\<lparr>sc_state := set_device_inventory (se_now env)
       (inventory_json (backfill (rest_hits env s (scan env s)) (scan env s))) (sc_state w2)\<rparr>"
    by (rule run_success [OF assms(1) False])
  have p: "previous_list env f = previous_list env (sc_files w)"
    by (rule previous_list_same) (rule save_devices_list [OF r(1)])
  have same: "previous_list env (sc_files w') = previous_list env f'" by (simp add: r(3,4))
  have "of_nat ?p * (1 - of_int (ns_drop_pct s) / 100) \<le> (of_nat (length (previous_list env f')) :: rat)"
  proof (cases "coverage_dropped s ?p (length (listed_ips env s (scan env s)))")
    case True
    then have "f' = f" using store_list_outcome [OF r(2) assms(4)] listed_ip assms(2) p by auto
    moreover have "of_nat ?p * (of_int (ns_drop_pct s) / 100) \<ge> (0 :: rat)"
      using assms(3) by (intro mult_nonneg_nonneg) simp_all
    ultimately show ?thesis using p by (simp add: right_diff_distrib)
  next
    case False
    then have "previous_list env f' = listed_ips env s (scan env s)" using store_list_outcome [OF r(2) assms(4)] listed_ip p by auto
    then show ?thesis using False assms(3,5) by (simp add: coverage_dropped_def not_less)
  qed
  moreover obtain g' where "sc_manager w2 = Some g'" "\<forall>h. has_key (g_monitors g') h \<longleftrightarrow> h \<in> set ips \<or> has_key (g_monitors g) h"
    using sync_manager [of "w\<lparr>sc_files := f', sc_notifier := n'\<rparr>" g ips] assms(6,7) r(3) by auto
  moreover have "sc_manager w' = sc_manager w2" by (simp add: r(4))
  ultimately show ?thesis unfolding same by metis
qed

subsection \<open>New devices\<close>

lemma backfill_keys: "has_key d ip \<Longrightarrow> has_key (backfill hits d) ip"
proof (induction hits arbitrary: d)
  case (Cons hit hits)
  then show ?case by (cases hit) (simp add: backfill_def)
qed (simp add: backfill_def)

lemma inventory_known:
  assumes "device_inventory st = inventory_json devices" "has_key devices ip" "ip \<noteq> []"
  shows "ip \<in> known_monitored_ips st"
proof -
  obtain n where "(ip, n) \<in> set devices" using assms(2) by (auto simp: has_key_iff)
  then have "JObj [(''ip'', JStr ip), (''name'', JStr n)] \<in> set (device_inventory st)"
    unfolding assms(1) inventory_json_def by force
  moreover have "inventory_ip (JObj [(''ip'', JStr ip), (''name'', JStr n)]) = Some ip" using assms(3) by (simp add: inventory_ip_def)
  ultimately show ?thesis unfolding known_monitored_ips_def by force
qed

text \<open>
  A device that answered in a successful run is not announced as new by the next run, however the
  device file, the subnets and the answers have changed in between.
\<close>

theorem device_announced_once:
  assumes "scanner_run env s w = (None, w')" and "ns_subnets s \<noteq> []" and "has_key (scan env s) ip"
  shows "\<not> has_key (diff_new (scan env2 s2) (load_existing env2 (sc_files w')) (known_monitored_ips (sc_state w'))) ip"
proof -
  obtain f n ips f' n' w2 where "w' = w2\<lparr>sc_state := set_device_inventory (se_now env)
       (inventory_json (backfill (rest_hits env s (scan env s)) (scan env s))) (sc_state w2)\<rparr>"
    by (rule run_success [OF assms(1,2)])
  then have "device_inventory (sc_state w') = inventory_json (backfill (rest_hits env s (scan env s)) (scan env s))"
    by (simp add: set_device_inventory_def)
  moreover have "ip \<noteq> []" using scan_ips [OF assms(3)] ip_str_plain(2) by auto
  ultimately have "ip \<in> known_monitored_ips (sc_state w')" using inventory_known backfill_keys assms(3) by blast
  then show ?thesis by (auto simp: diff_new_def has_key_iff)
qed

text \<open>
  The names the switches gave reach the inventory only: the device file was written before, with the
  names of the DNS.
\<close>

lemma csv_not_backfilled:
  assumes "scanner_run env s w = (None, w')" "ns_subnets s \<noteq> []"
  shows "sf_csv (sc_files w') = Some (device_rows_of (scan env s))"
proof -
  obtain f n ips f' n' w2 where r: "save_devices env (scan env s) (sc_files w) = (True, f)"
    "store_list env s (listed_ips env s (scan env s)) f n = (Inr ips, f', n')"
    "w2 = sync_monitors ips (w\<lparr>sc_files := f', sc_notifier := n'\<rparr>)"
    "w' = w2\<lparr>sc_state := set_device_inventory (se_now env)
       (inventory_json (backfill (rest_hits env s (scan env s)) (scan env s))) (sc_state w2)\<rparr>"
    by (rule run_success [OF assms])
  have "sf_csv f' = sf_csv f" using r(2) by (auto simp: store_list_def write_list_def Let_def split: if_splits prod.splits write_outcome.splits)
  moreover have "sf_csv f = Some (device_rows_of (scan env s))" using r(1) by (auto simp: save_devices_def split: write_outcome.splits)
  ultimately show ?thesis by (simp add: r(3,4))
qed

text \<open>A write of the list that is cut off leaves a short list, and the next run has nothing to guard.\<close>

lemma cut_list_disarms_guard:
  assumes "store_list env s ips f n = (Inl e, f', n')" "se_list_write env = Cut 0"
  shows "previous_list env' f' = [] \<and> \<not> coverage_dropped s' (length (previous_list env' f')) k"
proof -
  have "sf_list f' = Some []"
    using assms by (auto simp: store_list_def write_list_def Let_def split: if_splits)
  then have "previous_list env' f' = []" by (simp add: previous_list_def file_lines_def strip_def lstrip_def rstrip_def)
  then show ?thesis by (simp add: coverage_dropped_def)
qed

subsection \<open>Sample values\<close>

definition lab_env :: scan_env where
  "lab_env = \<lparr>se_alive = \<lambda>_. True, se_dns = \<lambda>_. Name ''lab-6300-1'', se_rest = \<lambda>_. None, se_csv_readable = True,
     se_csv_write = Written, se_list_readable = True, se_list_write = Written,
     se_now = \<lparr>year = 2026, month = 9, day = 16, hour = 3, minute = 0, second = 0, microsecond = 0\<rparr>\<rparr>"

definition lab_scanner :: scanner where
  "lab_scanner = \<lparr>ns_subnets = [''10.0.0.0/30''], ns_exclude = [''1''], ns_keywords = [''6300''], ns_device_file = ''devices.csv'',
     ns_ip_list = ''ip_list.txt'', ns_icmp_timeout = 3, ns_drop_pct = 25, ns_guard = True, ns_verify = False, ns_workers = 16,
     ns_user = [], ns_pass = []\<rparr>"

definition lab_world :: "string option \<Rightarrow> scan_world" where
  "lab_world ips = \<lparr>sc_files = \<lparr>sf_csv = None, sf_list = ips\<rparr>, sc_notifier = sample_notifier, sc_manager = Some demo_manager,
     sc_state = open_state open_json_store\<rparr>"

lemma run_succeeds:
  assumes "se_csv_write env = Written" "se_list_write env = Written"
  shows "\<exists>w'. scanner_run env s w = (None, w')"
proof -
  have "\<exists>ips f' n'. store_list env s all_ips f n = (Inr ips, f', n')" for all_ips f n
    using assms(2) by (auto simp: store_list_def write_list_def Let_def)
  then show ?thesis using assms(1)
    by (auto simp: scanner_run_def save_devices_def Let_def split: prod.split sum.split) (metis Inr_not_Inl prod.inject)+
qed

lemma lab_address: "ip_str 0x0A000002 = ''10.0.0.2''" "ip_str 0x0A000000 = ''10.0.0.0''"
  by (simp_all add: ip_str_def ip_octet_def nat_str.simps digit_chars One_nat_def [symmetric] del: One_nat_def)

lemma lab_network: "parse_network ''10.0.0.0/30'' = Some (0x0A000000, 30)"
proof -
  have "parse_ipv4 ''10.0.0.0'' = Some 0x0A000000" using parse_ip_str [of "0x0A000000"] by (simp only: lab_address)
  moreover have "parse_prefix ''30'' = Some 30" by (simp add: parse_prefix_def is_digit_def digit_val_def)
  moreover have "(0x0A000000 :: ipv4) AND prefix_mask 30 = 0x0A000000" by (simp add: prefix_mask_def mask_eq_exp_minus_1)
  ultimately show ?thesis by (simp add: parse_network_def)
qed

lemma lab_range: "in_range lab_scanner ''10.0.0.2''"
proof -
  note lab_network
  moreover have "''10.0.0.2'' \<in> set (scan_targets lab_scanner (0x0A000000, 30))"
  proof -
    have "net_hosts (0x0A000000, 30) = [0x0A000001, 0x0A000002]" by (simp add: net_hosts_def upt_rec)
    then show ?thesis by (simp add: scan_targets_def lab_address lab_scanner_def)
  qed
  ultimately show ?thesis by (auto simp: in_range_def lab_scanner_def)
qed

theorem scan_lists_and_monitors_witness:
  "\<exists>w' g'. scanner_run lab_env lab_scanner (lab_world None) = (None, w') \<and> ''10.0.0.2'' \<in> set (previous_list lab_env (sc_files w'))
     \<and> sc_manager w' = Some g' \<and> has_key (g_monitors g') ''10.0.0.2''"
proof -
  obtain w' where run: "scanner_run lab_env lab_scanner (lab_world None) = (None, w')"
    using run_succeeds [of lab_env] by (auto simp: lab_env_def)
  have "ns_subnets lab_scanner \<noteq> []" "\<forall>ip. se_dns lab_env ip \<noteq> Lookup_Raises" "se_list_readable lab_env"
    "sc_manager (lab_world None) = Some demo_manager" "dict_ok (\<lambda>h m. mon_host m = h) (g_monitors demo_manager)"
    "\<not> coverage_dropped lab_scanner (length (previous_list lab_env (sc_files (lab_world None)))) (length (listed_ips lab_env lab_scanner (scan lab_env lab_scanner)))"
    by (simp_all add: lab_scanner_def lab_env_def lab_world_def demo_manager_def coverage_dropped_def previous_list_def)
  from scan_lists_and_monitors [OF run this]
  obtain ips g' where r: "previous_list lab_env (sc_files w') = ips"
    "\<forall>ip. ip \<in> set ips \<longleftrightarrow> se_alive lab_env ip \<and> in_range lab_scanner ip \<and> switch_like lab_env lab_scanner ip"
    "sc_manager w' = Some g'" "\<forall>h. has_key (g_monitors g') h \<longleftrightarrow> h \<in> set ips \<or> has_key (g_monitors demo_manager) h" by blast
  have "switch_like lab_env lab_scanner ''10.0.0.2''" by (simp add: switch_like_def dns_name_def lab_env_def lab_scanner_def startswith_def)
  then have "''10.0.0.2'' \<in> set ips" using r(2) lab_range by (simp add: lab_env_def)
  then show ?thesis using run r by blast
qed

definition twenty_ips :: "string list" where
  "twenty_ips = map (\<lambda>i. ip_str (of_nat i)) [5..<25]"

theorem coverage_guard_holds_witness:
  "\<exists>w'. scanner_run lab_env lab_scanner (lab_world (Some (concat (map (\<lambda>ip. ip @ ''\<newline>'') twenty_ips)))) = (None, w')
     \<and> 15 \<le> length (previous_list lab_env (sc_files w'))"
proof -
  let ?w = "lab_world (Some (concat (map (\<lambda>ip. ip @ ''\<newline>'') twenty_ips)))"
  obtain w' where run: "scanner_run lab_env lab_scanner ?w = (None, w')"
    using run_succeeds [of lab_env] by (auto simp: lab_env_def)
  have "file_lines (concat (map (\<lambda>ip. ip @ ''\<newline>'') twenty_ips)) = twenty_ips"
    by (rule lines_read_back) (auto simp: twenty_ips_def)
  then have p: "length (previous_list lab_env (sc_files ?w)) = 20"
    by (simp add: previous_list_def lab_world_def lab_env_def) (simp add: twenty_ips_def)
  have "ns_guard lab_scanner" "0 < ns_drop_pct lab_scanner" "se_list_readable lab_env"
    "10 \<le> length (previous_list lab_env (sc_files ?w))" "sc_manager ?w = Some demo_manager"
    "dict_ok (\<lambda>h m. mon_host m = h) (g_monitors demo_manager)"
    by (simp_all only: p) (simp_all add: lab_scanner_def lab_env_def lab_world_def demo_manager_def)
  from coverage_guard_holds [OF run this]
  have "(15 :: rat) \<le> of_nat (length (previous_list lab_env (sc_files w')))" by (simp add: p lab_scanner_def)
  then show ?thesis using run by (metis of_nat_le_iff of_nat_numeral)
qed

theorem device_announced_once_witness:
  "\<exists>w'. scanner_run lab_env lab_scanner (lab_world None) = (None, w')
     \<and> \<not> has_key (diff_new (scan lab_env lab_scanner) (load_existing lab_env (sc_files w')) (known_monitored_ips (sc_state w'))) ''10.0.0.2''"
proof -
  obtain w' where run: "scanner_run lab_env lab_scanner (lab_world None) = (None, w')"
    using run_succeeds [of lab_env] by (auto simp: lab_env_def)
  have "has_key (scan lab_env lab_scanner) ''10.0.0.2''"
    using scan_keys [of lab_env lab_scanner] lab_range by (simp add: lab_env_def)
  with device_announced_once [OF run] run show ?thesis by (auto simp: lab_scanner_def)
qed

end
