(* ===== verification/Py_Text.thy ===== *)
theory Py_Text
  imports Prelude
begin

text \<open>
  Texts as their UTF-8 bytes: decoding with replacement, \<open>str.splitlines\<close>, the line ends of text
  files, and the first field of a table row that is an IPv4 address.
\<close>

subsection \<open>Bytes and lines\<close>

text \<open>
  \<open>bytes.decode("utf-8", errors="replace")\<close>, with texts as their UTF-8 bytes: \<open>utf8_prefix\<close> gives
  the length of the longest prefix that can start a character and whether it is a whole one; what
  is not becomes one replacement character per such prefix.
\<close>

definition byte :: "char \<Rightarrow> nat" where "byte c = of_char c"

definition continues :: "nat \<Rightarrow> nat \<Rightarrow> string \<Rightarrow> bool" where
  "continues lo hi s = (case s of [] \<Rightarrow> False | c # _ \<Rightarrow> lo \<le> byte c \<and> byte c \<le> hi)"

fun tail_bytes :: "nat \<Rightarrow> nat \<Rightarrow> string \<Rightarrow> nat \<times> bool" where
  "tail_bytes 0 k s = (k, True)"
| "tail_bytes (Suc n) k s = (if continues 0x80 0xBF s then tail_bytes n (Suc k) (tl s) else (k, False))"

definition utf8_prefix :: "char \<Rightarrow> string \<Rightarrow> nat \<times> bool" where
  "utf8_prefix c s = (let b = byte c in
     if b < 0x80 then (1, True)
     else if 0xC2 \<le> b \<and> b \<le> 0xDF then tail_bytes 1 1 s
     else if 0xE0 \<le> b \<and> b \<le> 0xEF then
       (if continues (if b = 0xE0 then 0xA0 else 0x80) (if b = 0xED then 0x9F else 0xBF) s
        then tail_bytes 1 2 (tl s) else (1, False))
     else if 0xF0 \<le> b \<and> b \<le> 0xF4 then
       (if continues (if b = 0xF0 then 0x90 else 0x80) (if b = 0xF4 then 0x8F else 0xBF) s
        then tail_bytes 2 2 (tl s) else (1, False))
     else (1, False))"

definition replacement :: string where
  "replacement = [CHR 0xEF, CHR 0xBF, CHR 0xBD]"

function utf8_replace :: "string \<Rightarrow> string" where
  "utf8_replace [] = []"
| "utf8_replace (c # s) = (case utf8_prefix c s of (k, ok) \<Rightarrow>
     (if ok then c # take (k - 1) s else replacement) @ utf8_replace (drop (k - 1) s))"
  by pat_completeness auto
termination by (relation "measure length") auto

text \<open>\<open>str.splitlines\<close>: the length of the line break the text starts with, 0 for none.\<close>

definition line_break :: "string \<Rightarrow> nat" where
  "line_break s = (if startswith s [CHR 0x0D, CHR 0x0A] then 2
     else if s \<noteq> [] \<and> byte (hd s) \<in> {0x0A, 0x0B, 0x0C, 0x0D, 0x1C, 0x1D, 0x1E} then 1
     else if startswith s [CHR 0xC2, CHR 0x85] then 2
     else if startswith s [CHR 0xE2, CHR 0x80, CHR 0xA8] \<or> startswith s [CHR 0xE2, CHR 0x80, CHR 0xA9] then 3
     else 0)"

function lines_from :: "string \<Rightarrow> string \<Rightarrow> string list" where
  "lines_from acc [] = (if acc = [] then [] else [rev acc])"
| "lines_from acc (c # s) = (let k = line_break (c # s) in
     if k = 0 then lines_from (c # acc) s else rev acc # lines_from [] (drop (k - 1) s))"
  by pat_completeness auto
termination by (relation "measure (length \<circ> snd)") auto

definition splitlines :: "string \<Rightarrow> string list" where
  "splitlines s = lines_from [] s"

definition newline :: string where "newline = [CHR 0x0A]"

text \<open>Reading a text file turns the other line ends into a line feed.\<close>

fun universal_newlines :: "string \<Rightarrow> string" where
  "universal_newlines [] = []"
| "universal_newlines (c # s) =
     (if c = CHR 0x0D then
        (case s of [] \<Rightarrow> newline
         | d # s' \<Rightarrow> if d = CHR 0x0A then CHR 0x0A # universal_newlines s' else CHR 0x0A # universal_newlines s)
      else c # universal_newlines s)"

subsection \<open>Table rows\<close>

definition hex_digit :: "char \<Rightarrow> bool" where
  "hex_digit c = (is_digit c \<or> c \<in> set ''abcdefABCDEF'')"

text \<open>Six pairs of hexadecimal digits, separated by one of the given characters.\<close>

definition mac_text :: "char list \<Rightarrow> string \<Rightarrow> bool" where
  "mac_text seps s = (length s = 17 \<and> (\<forall>i \<in> set [0..<17]. if i mod 3 = 2 then s ! i \<in> set seps else hex_digit (s ! i)))"

text \<open>\<open>[0-9]+\<close> four times with dots between: the whole text, or its beginning up to a word boundary.\<close>

definition dotted_quad :: "string \<Rightarrow> bool" where
  "dotted_quad s = (let ps = split_on (CHR ''.'') s in length ps = 4 \<and> list_all isdigit_str ps)"

definition word_char :: "char \<Rightarrow> bool" where
  "word_char c = (is_digit c \<or> c = CHR ''_'' \<or> (97 \<le> (of_char (lower_char c) :: nat) \<and> (of_char (lower_char c) :: nat) \<le> 122))"

fun dotted_prefix :: "nat \<Rightarrow> string \<Rightarrow> bool" where
  "dotted_prefix n s = (let rest = dropWhile is_digit s in
     s \<noteq> [] \<and> is_digit (hd s) \<and>
     (case n of
        0 \<Rightarrow> rest = [] \<or> \<not> word_char (hd rest)
      | Suc m \<Rightarrow> rest \<noteq> [] \<and> hd rest = CHR ''.'' \<and> dotted_prefix m (tl rest)))"

declare dotted_prefix.simps [simp del]

end
