(* ===== verification/Cx_Session.thy ===== *)
theory Cx_Session
  imports Py_Data Py_Text
begin

text \<open>
  The AOS-CX REST session, \<open>aruba_agent/cx_session.py\<close>, and the driver over it,
  \<open>aruba_agent/drivers/aruba_cx.py\<close>: login over the API versions, the requests with their second
  login after a 401, logout with one retry, and the operations built on them.

  The switch and the library \<open>requests\<close> are one argument, from the requests sent so far and the
  next one to what comes back: a response, or the text of a \<open>RequestException\<close>.  The masking of
  credentials in such texts, \<open>redact\<close>, is an argument too.
\<close>

subsection \<open>Requests and answers\<close>

datatype http_method = GET | PUT | POST

record http_request =
  rq_method :: http_method
  rq_url :: string
  rq_params :: "(string, string) dict"
  rq_headers :: "(string, string) dict"
  rq_json :: "json option"
  rq_verify :: bool
  rq_timeout :: nat

record http_response =
  rp_status :: int
  rp_token :: "string option"
  rp_cookies :: "(string, string) dict"
  rp_content :: string
  rp_json :: "json option"

datatype http_answer = Raises string | Answer http_response

type_synonym http = "http_request list \<Rightarrow> http_request \<Rightarrow> http_answer"

subsection \<open>The session\<close>

text \<open>
  \<open>cx_token\<close> is the header \<open>x-csrf-token\<close> of the session, sent with every request, and \<open>cx_sent\<close>
  the requests sent so far.  \<open>cx_verify\<close> is what the constructor stores in \<open>Session.verify\<close>.
\<close>

record cx =
  cx_host :: string
  cx_user :: string
  cx_password :: string
  cx_verify :: bool
  cx_versions :: "string list"
  cx_base :: "string option"
  cx_version :: "string option"
  cx_logged_in :: bool
  cx_error :: string
  cx_token :: "string option"
  cx_cookies :: "(string, string) dict"
  cx_sent :: "http_request list"

definition default_versions :: "string list" where
  "default_versions = [''v10.13'', ''v10.10'', ''v10.04'']"

definition new_cx :: "string \<Rightarrow> string \<Rightarrow> string \<Rightarrow> bool \<Rightarrow> string option \<Rightarrow> cx" where
  "new_cx host user pw verify preferred = \<lparr>cx_host = host, cx_user = user, cx_password = pw, cx_verify = verify,
     cx_versions = dedupe ((case preferred of Some v \<Rightarrow> if v = [] then [] else [v] | None \<Rightarrow> []) @ default_versions),
     cx_base = None, cx_version = None, cx_logged_in = False, cx_error = [], cx_token = None, cx_cookies = [], cx_sent = []\<rparr>"

definition token_header :: string where
  "token_header = ''x-csrf-token''"

definition cx_request ::
    "cx \<Rightarrow> http_method \<Rightarrow> string \<Rightarrow> (string, string) dict \<Rightarrow> (string, string) dict \<Rightarrow> json option \<Rightarrow> nat \<Rightarrow> http_request" where
  "cx_request s m url params headers body timeout =
     \<lparr>rq_method = m, rq_url = url, rq_params = params,
      rq_headers = fold (\<lambda>(k, v). dset k v) headers (case cx_token s of None \<Rightarrow> [] | Some t \<Rightarrow> [(token_header, t)]),
      rq_json = body, rq_verify = False, rq_timeout = timeout\<rparr>"

text \<open>One exchange; the session keeps the cookies of every response.\<close>

definition cx_send :: "http \<Rightarrow> http_request \<Rightarrow> cx \<Rightarrow> http_answer \<times> cx" where
  "cx_send net rq s = (let a = net (cx_sent s) rq; s1 = s\<lparr>cx_sent := cx_sent s @ [rq]\<rparr> in
     (a, case a of Raises _ \<Rightarrow> s1
       | Answer r \<Rightarrow> s1\<lparr>cx_cookies := fold (\<lambda>(k, v). dset k v) (rp_cookies r) (cx_cookies s)\<rparr>))"

subsection \<open>Login\<close>

definition rest_base :: "string \<Rightarrow> string \<Rightarrow> string" where
  "rest_base host ver = ''https://'' @ host @ ''/rest/'' @ ver @ ''/''"

definition credentials :: "cx \<Rightarrow> (string, string) dict" where
  "credentials s = [(''username'', cx_user s), (''password'', cx_password s)]"

definition login_request :: "cx \<Rightarrow> string \<Rightarrow> http_request" where
  "login_request s ver = cx_request s POST (rest_base (cx_host s) ver @ ''login'') (credentials s)
     [(''x-use-csrf-token'', ''true'')] None 10"

definition host_unreachable :: "string \<Rightarrow> bool" where
  "host_unreachable err = (contains err ''Connection refused'' \<or> contains err ''timed out'' \<or> contains err ''Timeout'')"

definition logged_in_as :: "string \<Rightarrow> http_response \<Rightarrow> cx \<Rightarrow> cx" where
  "logged_in_as ver r s = s\<lparr>cx_base := Some (rest_base (cx_host s) ver), cx_version := Some ver, cx_logged_in := True,
     cx_token := (case rp_token r of Some t \<Rightarrow> if t = [] then cx_token s else Some t | None \<Rightarrow> cx_token s)\<rparr>"

fun try_versions :: "http \<Rightarrow> (string \<Rightarrow> string) \<Rightarrow> string list \<Rightarrow> cx \<Rightarrow> bool \<times> cx" where
  "try_versions net redact [] s = (False, s\<lparr>cx_error := or_else (cx_error s) ''All API versions failed''\<rparr>)"
| "try_versions net redact (ver # vers) s = (case cx_send net (login_request s ver) s of
     (Answer r, s1) \<Rightarrow>
       if rp_status r = 200 then (True, logged_in_as ver r s1)
       else if rp_status r = 401 then (False, s1\<lparr>cx_error := ''Authentication failed''\<rparr>)
       else try_versions net redact vers s1
   | (Raises e, s1) \<Rightarrow> (let s2 = s1\<lparr>cx_error := redact e\<rparr> in
       if host_unreachable (redact e) then (False, s2) else try_versions net redact vers s2))"

definition cx_login :: "http \<Rightarrow> (string \<Rightarrow> string) \<Rightarrow> cx \<Rightarrow> bool \<times> cx" where
  "cx_login net redact s = try_versions net redact (cx_versions s) s"

subsection \<open>Logout\<close>

definition success :: "http_answer \<Rightarrow> bool" where
  "success a = (case a of Raises _ \<Rightarrow> False | Answer r \<Rightarrow> 200 \<le> rp_status r \<and> rp_status r < 300)"

definition logout_request :: "cx \<Rightarrow> string \<Rightarrow> http_request" where
  "logout_request s base = cx_request s POST (base @ ''logout'') [] [] None 15"

definition cx_logout :: "http \<Rightarrow> cx \<Rightarrow> cx" where
  "cx_logout net s = (case cx_base s of
       None \<Rightarrow> s
     | Some base \<Rightarrow> if \<not> cx_logged_in s then s
         else case cx_send net (logout_request s base) s of (a, s1) \<Rightarrow>
           if success a then s1\<lparr>cx_logged_in := False\<rparr>
           else (snd (cx_send net (logout_request s1 base) s1))\<lparr>cx_logged_in := False\<rparr>)"

subsection \<open>The request helpers\<close>

definition failed_with :: "(string \<Rightarrow> string) \<Rightarrow> string \<Rightarrow> cx \<Rightarrow> http_response option \<times> cx" where
  "failed_with redact e s = (None, s\<lparr>cx_error := redact e\<rparr>)"

definition get_request :: "cx \<Rightarrow> string \<Rightarrow> string \<Rightarrow> nat \<Rightarrow> http_request" where
  "get_request s base endpoint timeout = cx_request s GET (base @ endpoint) [] [] None timeout"

definition get_again :: "http \<Rightarrow> (string \<Rightarrow> string) \<Rightarrow> string \<Rightarrow> nat \<Rightarrow> cx \<Rightarrow> http_response option \<times> cx" where
  "get_again net redact endpoint timeout s = (case cx_base s of None \<Rightarrow> (None, s)
     | Some base \<Rightarrow> (case cx_send net (get_request s base endpoint timeout) s of
         (Raises e, s1) \<Rightarrow> failed_with redact e s1 | (Answer r, s1) \<Rightarrow> (Some r, s1)))"

definition cx_get :: "http \<Rightarrow> (string \<Rightarrow> string) \<Rightarrow> string \<Rightarrow> nat \<Rightarrow> cx \<Rightarrow> http_response option \<times> cx" where
  "cx_get net redact endpoint timeout s = (case get_again net redact endpoint timeout s of
       (None, s1) \<Rightarrow> (None, s1)
     | (Some r, s1) \<Rightarrow> if rp_status r = 401
         then (case cx_login net redact (s1\<lparr>cx_logged_in := False\<rparr>) of
             (True, s2) \<Rightarrow> get_again net redact endpoint timeout s2
           | (False, s2) \<Rightarrow> (Some r, s2))
         else (Some r, s1))"

definition cx_put ::
    "http \<Rightarrow> (string \<Rightarrow> string) \<Rightarrow> string \<Rightarrow> (string, string) dict \<Rightarrow> nat \<Rightarrow> cx \<Rightarrow> http_response option \<times> cx" where
  "cx_put net redact endpoint params timeout s = (case cx_base s of None \<Rightarrow> (None, s)
     | Some base \<Rightarrow> (case cx_send net (cx_request s PUT (base @ endpoint) params [] None timeout) s of
         (Raises e, s1) \<Rightarrow> failed_with redact e s1 | (Answer r, s1) \<Rightarrow> (Some r, s1)))"

definition cx_post ::
    "http \<Rightarrow> (string \<Rightarrow> string) \<Rightarrow> string \<Rightarrow> (string, string) dict \<Rightarrow> json \<Rightarrow> cx \<Rightarrow> http_response option \<times> cx" where
  "cx_post net redact endpoint headers body s = (case cx_base s of None \<Rightarrow> (None, s)
     | Some base \<Rightarrow> (case cx_send net (cx_request s POST (base @ endpoint) [] headers (Some body) 30) s of
         (Raises e, s1) \<Rightarrow> failed_with redact e s1 | (Answer r, s1) \<Rightarrow> (Some r, s1)))"

subsection \<open>The operations\<close>

definition status_is :: "int \<Rightarrow> http_response option \<Rightarrow> bool" where
  "status_is n r = (case r of None \<Rightarrow> False | Some r \<Rightarrow> rp_status r = n)"

definition cx_reachable :: "http \<Rightarrow> (string \<Rightarrow> string) \<Rightarrow> cx \<Rightarrow> bool \<times> cx" where
  "cx_reachable net redact s = (case cx_get net redact ''system'' 15 s of (r, s1) \<Rightarrow> (status_is 200 r, s1))"

text \<open>\<open>resp.json()\<close>: a \<open>JSONDecodeError\<close>, a \<open>ValueError\<close>, when the body is not JSON.\<close>

definition response_json :: "http_response \<Rightarrow> json result" where
  "response_json r = (case rp_json r of None \<Rightarrow> Inl ValueError | Some j \<Rightarrow> Inr j)"

definition cx_hostname :: "http \<Rightarrow> (string \<Rightarrow> string) \<Rightarrow> cx \<Rightarrow> json option result \<times> cx" where
  "cx_hostname net redact s = (case cx_get net redact ''system'' 15 s of (r, s1) \<Rightarrow>
     (case r of
        Some p \<Rightarrow> if rp_status p = 200 then bind_r (response_json p) (\<lambda>j. json_get j ''hostname'') else Inr None
      | None \<Rightarrow> Inr None, s1))"

definition config_endpoint :: string where
  "config_endpoint = ''fullconfigs/startup-config''"

definition cx_save :: "http \<Rightarrow> (string \<Rightarrow> string) \<Rightarrow> cx \<Rightarrow> bool \<times> cx" where
  "cx_save net redact s = (case cx_put net redact config_endpoint
       [(''from'', ''/rest/'' @ (case cx_version s of None \<Rightarrow> ''None'' | Some v \<Rightarrow> v) @ ''/fullconfigs/running-config'')] 60 s of
     (r, s1) \<Rightarrow> (status_is 200 r \<or> status_is 204 r, s1))"

definition cx_config :: "http \<Rightarrow> (string \<Rightarrow> string) \<Rightarrow> cx \<Rightarrow> string option \<times> cx" where
  "cx_config net redact s = (case cx_get net redact config_endpoint 60 s of (r, s1) \<Rightarrow>
     (case r of Some p \<Rightarrow> if rp_status p = 200 \<and> rp_content p \<noteq> [] then Some (rp_content p) else None
      | None \<Rightarrow> None, s1))"

definition cookie :: "cx \<Rightarrow> string \<Rightarrow> string" where
  "cookie s k = (case dget (cx_cookies s) k of None \<Rightarrow> [] | Some v \<Rightarrow> v)"

definition cx_cli :: "http \<Rightarrow> (string \<Rightarrow> string) \<Rightarrow> string \<Rightarrow> cx \<Rightarrow> string option \<times> cx" where
  "cx_cli net redact cmd s =
     (let csrf = or_else (cookie s ''csrftoken'') (cookie s ''csrf_token'');
          headers = [(''Accept'', ''text/plain''), (''Content-Type'', ''application/json'')]
            @ (if csrf = [] then [] else [(token_header, csrf)])
      in case cx_post net redact ''cli'' headers (JObj [(''cmd'', JStr cmd)]) s of (r, s1) \<Rightarrow>
        (case r of Some p \<Rightarrow> if rp_status p = 200 then Some (rp_content p) else None | None \<Rightarrow> None, s1))"

definition cx_firmware :: "http \<Rightarrow> (string \<Rightarrow> string) \<Rightarrow> cx \<Rightarrow> json option result \<times> cx" where
  "cx_firmware net redact s = (case cx_get net redact ''firmware'' 15 s of (r, s1) \<Rightarrow>
     (case r of Some p \<Rightarrow> if rp_status p = 200 then map_sum id Some (response_json p) else Inr None
      | None \<Rightarrow> Inr None, s1))"

subsection \<open>The driver\<close>

record facts =
  fc_hostname :: json
  fc_vendor :: string
  fc_model :: json
  fc_version :: json
  fc_serial :: json

text \<open>\<open>data.get(k, "") or ""\<close>.\<close>

definition field_or_empty :: "json \<Rightarrow> string \<Rightarrow> json result" where
  "field_or_empty j k = bind_r (json_get j k) (\<lambda>v. Inr (case v of None \<Rightarrow> JStr [] | Some w \<Rightarrow> if truthy w then w else JStr []))"

definition facts_of :: "json \<Rightarrow> facts result" where
  "facts_of j =
     bind_r (field_or_empty j ''hostname'') (\<lambda>h. bind_r (field_or_empty j ''platform_name'') (\<lambda>m.
     bind_r (field_or_empty j ''software_version'') (\<lambda>v. bind_r (field_or_empty j ''base_mac_address'') (\<lambda>b.
     Inr \<lparr>fc_hostname = h, fc_vendor = ''aruba_cx'', fc_model = m, fc_version = v, fc_serial = b\<rparr>))))"

definition cx_facts :: "http \<Rightarrow> (string \<Rightarrow> string) \<Rightarrow> cx \<Rightarrow> facts option result \<times> cx" where
  "cx_facts net redact s = (case cx_get net redact ''system'' 15 s of (r, s1) \<Rightarrow>
     (case r of
        None \<Rightarrow> Inr None
      | Some p \<Rightarrow> if rp_status p \<noteq> 200 then Inr None
          else (case rp_json p of None \<Rightarrow> Inr None | Some j \<Rightarrow> map_sum id Some (facts_of j)), s1))"

text \<open>\<open>_ARP_ROW\<close>: an address, a hardware address, and at most two further columns.\<close>

record arp_entry =
  ae_ip :: string
  ae_mac :: string
  ae_interface :: string
  ae_vlan :: string
  ae_age :: string

definition cx_arp_row :: "string \<Rightarrow> arp_entry option" where
  "cx_arp_row line = (case words line of
       ip # mac # cols \<Rightarrow>
         if dotted_quad ip \<and> mac_text '':.-'' mac \<and> length cols \<le> 2 \<and> (cols \<noteq> [] \<or> is_ws (last line))
         then Some \<lparr>ae_ip = ip, ae_mac = mac, ae_interface = (if length cols = 2 then cols ! 1 else []),
           ae_vlan = (if cols = [] then [] else hd cols), ae_age = []\<rparr> else None
     | _ \<Rightarrow> None)"

definition cx_arp_table :: "http \<Rightarrow> (string \<Rightarrow> string) \<Rightarrow> cx \<Rightarrow> arp_entry list \<times> cx" where
  "cx_arp_table net redact s = (case cx_cli net redact ''show arp'' s of (out, s1) \<Rightarrow>
     (case out of None \<Rightarrow> [] | Some text \<Rightarrow> List.map_filter cx_arp_row (splitlines text), s1))"

text \<open>A session of one caller: \<open>with ArubaCXDriver(...) as drv\<close>.\<close>

datatype cx_call = Reachable | Hostname | Facts | Save | Fetch_Config | Cli string | Arp_Table | Firmware

definition cx_do :: "http \<Rightarrow> (string \<Rightarrow> string) \<Rightarrow> cx_call \<Rightarrow> cx \<Rightarrow> cx" where
  "cx_do net redact c s = (case c of
       Reachable \<Rightarrow> snd (cx_reachable net redact s)
     | Hostname \<Rightarrow> snd (cx_hostname net redact s)
     | Facts \<Rightarrow> snd (cx_facts net redact s)
     | Save \<Rightarrow> snd (cx_save net redact s)
     | Fetch_Config \<Rightarrow> snd (cx_config net redact s)
     | Cli cmd \<Rightarrow> snd (cx_cli net redact cmd s)
     | Arp_Table \<Rightarrow> snd (cx_arp_table net redact s)
     | Firmware \<Rightarrow> snd (cx_firmware net redact s))"

definition cx_block :: "http \<Rightarrow> (string \<Rightarrow> string) \<Rightarrow> cx_call list \<Rightarrow> cx \<Rightarrow> cx" where
  "cx_block net redact calls s = cx_logout net (fold (cx_do net redact) calls (snd (cx_login net redact s)))"

end
