(* ===== verification/Cx_Proofs.thy ===== *)
theory Cx_Proofs
  imports Cx_Session
begin

text \<open>
  What the AOS-CX session promises: the login takes the first API version the switch accepts, the
  password travels in login requests only, error texts are masked, and a block of calls leaves no
  session behind on the switch unless the switch refuses to close it twice.
\<close>

subsection \<open>Login\<close>

abbreviation login_answer :: "http \<Rightarrow> cx \<Rightarrow> string list \<Rightarrow> nat \<Rightarrow> http_answer" where
  "login_answer net s vers k \<equiv> net (cx_sent s @ map (login_request s) (take k vers)) (login_request s (vers ! k))"

text \<open>An answer after which the next version is tried.\<close>

definition try_next :: "(string \<Rightarrow> string) \<Rightarrow> http_answer \<Rightarrow> bool" where
  "try_next redact a = (case a of Answer r \<Rightarrow> rp_status r \<notin> {200, 401} | Raises e \<Rightarrow> \<not> host_unreachable (redact e))"

definition accepted :: "http_answer \<Rightarrow> bool" where
  "accepted a = (case a of Answer r \<Rightarrow> rp_status r = 200 | Raises _ \<Rightarrow> False)"

lemma send_result:
  "cx_send net rq s = (a, s1) \<Longrightarrow> a = net (cx_sent s) rq \<and> (\<exists>cs. s1 = s\<lparr>cx_sent := cx_sent s @ [rq], cx_cookies := cs\<rparr>)"
  by (auto simp: cx_send_def Let_def split: http_answer.splits intro: exI [of _ "cx_cookies s"])

lemma login_request_same [simp]:
  "login_request (s\<lparr>cx_sent := x\<rparr>) = login_request s"
  "login_request (s\<lparr>cx_cookies := y\<rparr>) = login_request s"
  "login_request (s\<lparr>cx_error := e\<rparr>) = login_request s"
  "login_request (s\<lparr>cx_logged_in := b\<rparr>) = login_request s"
  by (simp_all add: fun_eq_iff login_request_def cx_request_def credentials_def)

lemma first_index:
  "(\<exists>k < Suc n. P k \<and> (\<forall>j < k. Q j)) \<longleftrightarrow> P 0 \<or> (Q 0 \<and> (\<exists>k < n. P (Suc k) \<and> (\<forall>j < k. Q (Suc j))))"
proof
  assume "\<exists>k < Suc n. P k \<and> (\<forall>j < k. Q j)"
  then obtain k where k: "k < Suc n" "P k" "\<forall>j < k. Q j" by blast
  then show "P 0 \<or> (Q 0 \<and> (\<exists>k < n. P (Suc k) \<and> (\<forall>j < k. Q (Suc j))))" by (cases k) auto
next
  assume "P 0 \<or> (Q 0 \<and> (\<exists>k < n. P (Suc k) \<and> (\<forall>j < k. Q (Suc j))))"
  then show "\<exists>k < Suc n. P k \<and> (\<forall>j < k. Q j)"
  proof (elim disjE conjE exE)
    fix k assume "Q 0" "k < n" "P (Suc k)" "\<forall>j < k. Q (Suc j)"
    then show ?thesis by (intro exI [of _ "Suc k"]) (auto simp: less_Suc_eq_0_disj)
  qed auto
qed

lemma try_versions_spec:
  "fst (try_versions net redact vers s) \<longleftrightarrow>
     (\<exists>k < length vers. accepted (login_answer net s vers k) \<and> (\<forall>j < k. try_next redact (login_answer net s vers j)))"
proof (induction vers arbitrary: s)
  case (Cons v vers)
  obtain a s1 where send: "cx_send net (login_request s v) s = (a, s1)" by fastforce
  obtain cs where a: "a = net (cx_sent s) (login_request s v)"
    and s1: "s1 = s\<lparr>cx_sent := cx_sent s @ [login_request s v], cx_cookies := cs\<rparr>"
    using send_result [OF send] by blast
  have split: "(\<exists>k < length (v # vers). accepted (login_answer net s (v # vers) k) \<and> (\<forall>j < k. try_next redact (login_answer net s (v # vers) j)))
     \<longleftrightarrow> accepted a \<or> (try_next redact a \<and> (\<exists>k < length vers. accepted (login_answer net s1 vers k) \<and> (\<forall>j < k. try_next redact (login_answer net s1 vers j))))"
    unfolding a s1 length_Cons first_index by simp
  show ?case
  proof (cases a)
    case (Raises e)
    then show ?thesis unfolding split using send Cons.IH [of "s1\<lparr>cx_error := redact e\<rparr>"]
      by (simp add: accepted_def try_next_def Let_def)
  next
    case (Answer r)
    then show ?thesis unfolding split using send Cons.IH [of s1]
      by (simp add: accepted_def try_next_def Let_def)
  qed
qed simp

lemma try_versions_success:
  "try_versions net redact vers s = (True, s') \<Longrightarrow> \<exists>k < length vers.
     accepted (login_answer net s vers k) \<and> (\<forall>j < k. try_next redact (login_answer net s vers j)) \<and>
     cx_version s' = Some (vers ! k) \<and> cx_base s' = Some (rest_base (cx_host s) (vers ! k)) \<and> cx_logged_in s' \<and>
     cx_sent s' = cx_sent s @ map (login_request s) (take (Suc k) vers)"
proof (induction vers arbitrary: s)
  case (Cons v vers)
  obtain a s1 where send: "cx_send net (login_request s v) s = (a, s1)" by fastforce
  obtain cs where a: "a = net (cx_sent s) (login_request s v)"
    and s1: "s1 = s\<lparr>cx_sent := cx_sent s @ [login_request s v], cx_cookies := cs\<rparr>"
    using send_result [OF send] by blast
  show ?case
  proof (cases "accepted a")
    case True
    then obtain r where "a = Answer r" "rp_status r = 200" by (cases a) (auto simp: accepted_def)
    then show ?thesis using Cons.prems send a s1 by (intro exI [of _ 0]) (auto simp: accepted_def logged_in_as_def)
  next
    case False
    have nxt: "try_next redact a"
      using Cons.prems send False by (cases a) (auto simp: accepted_def try_next_def Let_def split: if_splits)
    obtain e where rest: "try_versions net redact vers (s1\<lparr>cx_error := e\<rparr>) = (True, s')"
    proof (cases a)
      case (Raises e)
      then show ?thesis using that [of "redact e"] Cons.prems send by (auto simp: Let_def split: if_splits)
    next
      case (Answer r)
      moreover have "s1\<lparr>cx_error := cx_error s1\<rparr> = s1" by simp
      ultimately show ?thesis using that [of "cx_error s1"] Cons.prems send False by (auto simp: accepted_def split: if_splits)
    qed
    from Cons.IH [OF rest] obtain k where "k < length vers"
      "accepted (login_answer net s1 vers k)" "\<forall>j < k. try_next redact (login_answer net s1 vers j)"
      "cx_version s' = Some (vers ! k)" "cx_base s' = Some (rest_base (cx_host s) (vers ! k))" "cx_logged_in s'"
      "cx_sent s' = cx_sent s1 @ map (login_request s) (take (Suc k) vers)"
      by (auto simp: s1)
    then show ?thesis using nxt by (intro exI [of _ "Suc k"]) (auto simp: less_Suc_eq_0_disj a s1)
  qed
qed simp

text \<open>
  The login takes the first API version the switch accepts, and only an answer that rules the
  version out makes it try the next one; without an accepted version it fails.
\<close>

theorem login_takes_first_version:
  assumes "cx_login net redact s = (ok, s')"
  shows "if ok then (\<exists>k < length (cx_versions s).
        accepted (login_answer net s (cx_versions s) k) \<and>
        (\<forall>j < k. try_next redact (login_answer net s (cx_versions s) j)) \<and>
        cx_version s' = Some (cx_versions s ! k) \<and>
        cx_base s' = Some (rest_base (cx_host s) (cx_versions s ! k)) \<and> cx_logged_in s' \<and>
        cx_sent s' = cx_sent s @ map (login_request s) (take (Suc k) (cx_versions s)))
     else (\<forall>k < length (cx_versions s). accepted (login_answer net s (cx_versions s) k) \<longrightarrow>
        (\<exists>j < k. \<not> try_next redact (login_answer net s (cx_versions s) j)))"
proof (cases ok)
  case True
  then show ?thesis using try_versions_success [of net redact "cx_versions s" s s'] assms
    by (simp add: cx_login_def)
next
  case False
  then have "\<not> fst (try_versions net redact (cx_versions s) s)" using assms by (simp add: cx_login_def)
  then show ?thesis unfolding try_versions_spec using False by simp
qed

subsection \<open>What the switch holds\<close>

text \<open>
  The sessions a switch holds for the agent, as far as its answers tell: an accepted login opens
  one, an accepted logout closes one, and a 401 says that the session is gone.
\<close>

definition is_login :: "http_request \<Rightarrow> bool" where
  "is_login rq = (rq_method rq = POST \<and> endswith (rq_url rq) ''/login'')"

definition is_logout :: "http_request \<Rightarrow> bool" where
  "is_logout rq = (rq_method rq = POST \<and> endswith (rq_url rq) ''/logout'')"

definition held_after :: "http_request \<Rightarrow> http_answer \<Rightarrow> nat \<Rightarrow> nat" where
  "held_after rq a n = (if is_login rq \<and> accepted a then Suc n
     else if is_logout rq \<and> success a then n - 1
     else case a of Answer r \<Rightarrow> if rp_status r = 401 then n - 1 else n | Raises _ \<Rightarrow> n)"

definition held :: "http \<Rightarrow> http_request list \<Rightarrow> nat" where
  "held net rqs = fold (\<lambda>i n. held_after (rqs ! i) (net (take i rqs) (rqs ! i)) n) [0..<length rqs] 0"

lemma held_Nil [simp]: "held net [] = 0"
  by (simp add: held_def)

lemma held_snoc [simp]: "held net (rqs @ [rq]) = held_after rq (net rqs rq) (held net rqs)"
proof -
  have "fold (\<lambda>i n. held_after ((rqs @ [rq]) ! i) (net (take i (rqs @ [rq])) ((rqs @ [rq]) ! i)) n) [0..<length rqs] 0 = held net rqs"
    unfolding held_def by (rule fold_cong) (auto simp: nth_append)
  then show ?thesis by (simp add: held_def)
qed

lemma endswith_iff_append: "endswith s p \<longleftrightarrow> (\<exists>q. s = q @ p)"
  unfolding endswith_def
  by (metis append_eq_conv_conj append_take_drop_id diff_add_inverse2 le_add2 length_append)

lemma same_last: "endswith s p \<Longrightarrow> p \<noteq> [] \<Longrightarrow> last s = last p"
  by (auto simp: endswith_iff_append)

lemma url_kinds:
  "endswith (rest_base h v @ ''login'') ''/login''"
  "endswith (rest_base h v @ ''logout'') ''/logout''"
  "\<not> endswith (rest_base h v @ ''logout'') ''/login''"
  "\<not> endswith (rest_base h v @ ''cli'') ''/login''"
  "\<not> endswith (rest_base h v @ ''cli'') ''/logout''"
  "\<not> endswith (rest_base h v @ ''login'') ''/logout''"
proof -
  have "rest_base h v @ x = (''https://'' @ h @ ''/rest/'' @ v) @ ''/'' @ x" for x by (simp add: rest_base_def)
  then show "endswith (rest_base h v @ ''login'') ''/login''" "endswith (rest_base h v @ ''logout'') ''/logout''"
    unfolding endswith_iff_append by (metis append_Cons append_Nil)+
  show "\<not> endswith (rest_base h v @ ''logout'') ''/login''" "\<not> endswith (rest_base h v @ ''cli'') ''/login''"
    "\<not> endswith (rest_base h v @ ''cli'') ''/logout''" "\<not> endswith (rest_base h v @ ''login'') ''/logout''"
    by (auto dest: same_last)
qed

subsection \<open>The invariant of a session\<close>

definition proper_request :: "string \<Rightarrow> string list \<Rightarrow> http_request \<Rightarrow> bool" where
  "proper_request host vers rq = (\<not> rq_verify rq \<and> (\<exists>v \<in> set vers. startswith (rq_url rq) (rest_base host v) \<and>
     (has_key (rq_params rq) ''password'' \<longrightarrow> rq_url rq = rest_base host v @ ''login'')))"

definition masked :: "(string \<Rightarrow> string) \<Rightarrow> string \<Rightarrow> bool" where
  "masked redact e = (e \<in> {[], ''Authentication failed'', ''All API versions failed''} \<or> e \<in> range redact)"

definition on_switch :: "string \<Rightarrow> string list \<Rightarrow> cx \<Rightarrow> bool" where
  "on_switch host vers s = (cx_host s = host \<and> cx_versions s = vers \<and>
     (\<forall>b \<in> set_option (cx_base s). b \<in> rest_base host ` set vers) \<and> (cx_logged_in s \<longrightarrow> cx_base s \<noteq> None))"

definition cx_ok :: "string \<Rightarrow> string list \<Rightarrow> http \<Rightarrow> (string \<Rightarrow> string) \<Rightarrow> cx \<Rightarrow> bool" where
  "cx_ok host vers net redact s = (on_switch host vers s \<and> list_all (proper_request host vers) (cx_sent s) \<and>
     masked redact (cx_error s) \<and> held net (cx_sent s) \<le> of_bool (cx_logged_in s))"

lemma masked_simps [simp]: "masked redact (redact e)" "masked redact ''Authentication failed''"
  "masked redact e \<Longrightarrow> masked redact (or_else e ''All API versions failed'')"
  by (auto simp: masked_def or_else_def)

lemma startswith_self [simp]: "startswith (p @ q) p"
  by (simp add: startswith_def)

lemma request_fields [simp]:
  "rq_url (cx_request s m u p h b t) = u" "rq_params (cx_request s m u p h b t) = p"
  "rq_method (cx_request s m u p h b t) = m" "\<not> rq_verify (cx_request s m u p h b t)"
  by (simp_all add: cx_request_def)

lemma proper_requests:
  "v \<in> set vers \<Longrightarrow> \<not> has_key p ''password'' \<Longrightarrow> proper_request host vers (cx_request s m (rest_base host v @ e) p h b t)"
  "v \<in> set vers \<Longrightarrow> cx_host s = host \<Longrightarrow> proper_request host vers (login_request s v)"
  by (auto simp: proper_request_def login_request_def intro!: bexI [of _ v])

text \<open>One exchange that is neither a login nor a logout, then one that closes.\<close>

lemma held_plain:
  "\<not> is_login rq \<Longrightarrow> held_after rq a n \<le> n"
  by (simp add: held_after_def split: http_answer.splits)

lemma held_401: "\<not> is_login rq \<Longrightarrow> n \<le> 1 \<Longrightarrow> rp_status r = 401 \<Longrightarrow> held_after rq (Answer r) n = 0"
  by (auto simp: held_after_def success_def)

lemma held_closed: "is_logout rq \<Longrightarrow> \<not> is_login rq \<Longrightarrow> n \<le> 1 \<Longrightarrow> success a \<Longrightarrow> held_after rq a n = 0"
  by (auto simp: held_after_def)

lemma held_login: "is_login rq \<Longrightarrow> \<not> is_logout rq \<Longrightarrow> held_after rq a 0 = of_bool (accepted a)"
  by (auto simp: held_after_def split: http_answer.splits)

lemma login_url: "is_login (login_request s v)" "\<not> is_logout (login_request s v)"
  using url_kinds(1,6) [of "cx_host s" v] by (simp_all add: is_login_def is_logout_def login_request_def)

lemma try_versions_ok:
  "cx_ok host vers net redact s \<Longrightarrow> \<not> cx_logged_in s \<Longrightarrow> set vs \<subseteq> set vers \<Longrightarrow>
   cx_ok host vers net redact (snd (try_versions net redact vs s)) \<and>
   cx_logged_in (snd (try_versions net redact vs s)) = fst (try_versions net redact vs s)"
proof (induction vs arbitrary: s)
  case Nil
  then show ?case by (simp add: cx_ok_def on_switch_def)
next
  case (Cons v vs)
  obtain a s1 where send: "cx_send net (login_request s v) s = (a, s1)" by fastforce
  obtain cs where a: "a = net (cx_sent s) (login_request s v)"
    and s1: "s1 = s\<lparr>cx_sent := cx_sent s @ [login_request s v], cx_cookies := cs\<rparr>"
    using send_result [OF send] by blast
  have h: "held net (cx_sent s) = 0" and on: "on_switch host vers s" and m: "masked redact (cx_error s)"
    and pr: "list_all (proper_request host vers) (cx_sent s @ [login_request s v])"
    using Cons.prems proper_requests(2) [of v vers s] by (auto simp: cx_ok_def on_switch_def)
  have h1: "held net (cx_sent s1) = of_bool (accepted a)"
    using login_url [of s v] by (simp add: s1 h held_login a)
  show ?case
  proof (cases "accepted a")
    case True
    then obtain r where r: "a = Answer r" "rp_status r = 200" by (cases a) (auto simp: accepted_def)
    have "cx_ok host vers net redact (logged_in_as v r s1)"
      using on m pr h1 True Cons.prems(3)
      by (simp add: cx_ok_def on_switch_def logged_in_as_def s1)
    then show ?thesis using send r by (simp add: logged_in_as_def)
  next
    case False
    have ok: "cx_ok host vers net redact (s1\<lparr>cx_error := e\<rparr>)" if "masked redact e" for e
      using on that pr h1 False by (simp add: cx_ok_def on_switch_def s1)
    have off: "\<not> cx_logged_in s1" using Cons.prems(2) by (simp add: s1)
    show ?thesis
    proof (cases a)
      case (Raises e)
      then show ?thesis using send Cons.IH [of "s1\<lparr>cx_error := redact e\<rparr>"] ok [of "redact e"] off Cons.prems(3)
        by (simp add: Let_def)
    next
      case (Answer r)
      moreover have "cx_ok host vers net redact s1" using ok [of "cx_error s1"] m by (simp add: s1)
      ultimately show ?thesis using send False Cons.IH [of s1] ok [of "''Authentication failed''"] off Cons.prems(3)
        by (simp add: accepted_def)
    qed
  qed
qed

lemma login_ok:
  "cx_ok host vers net redact s \<Longrightarrow> \<not> cx_logged_in s \<Longrightarrow> cx_login net redact s = (ok, s') \<Longrightarrow>
   cx_ok host vers net redact s' \<and> cx_logged_in s' = ok"
  using try_versions_ok [of host vers net redact s "cx_versions s"]
  by (auto simp: cx_login_def cx_ok_def on_switch_def)

text \<open>A request that is not a login keeps the invariant, and a 401 says that nothing is left.\<close>

lemma plain_request_ok:
  assumes "cx_ok host vers net redact s" "cx_send net rq s = (a, s1)" "\<not> is_login rq" "proper_request host vers rq"
  shows "cx_ok host vers net redact s1"
    and "masked redact e \<Longrightarrow> cx_ok host vers net redact (s1\<lparr>cx_error := e\<rparr>)"
    and "a = Answer r \<Longrightarrow> rp_status r = 401 \<Longrightarrow> cx_ok host vers net redact (s1\<lparr>cx_logged_in := False\<rparr>)"
    and "cx_logged_in s1 = cx_logged_in s" "cx_base s1 = cx_base s"
proof -
  obtain cs where a: "a = net (cx_sent s) rq" and s1: "s1 = s\<lparr>cx_sent := cx_sent s @ [rq], cx_cookies := cs\<rparr>"
    using send_result [OF assms(2)] by blast
  have h: "held net (cx_sent s1) \<le> of_bool (cx_logged_in s)"
    using assms(1,3) held_plain [of rq a "held net (cx_sent s)"] by (auto simp: s1 a cx_ok_def intro: order_trans)
  show ok: "cx_ok host vers net redact s1" using assms(1,4) h by (simp add: cx_ok_def on_switch_def s1)
  show "cx_ok host vers net redact (s1\<lparr>cx_error := e\<rparr>)" if "masked redact e" for e
    using ok that by (simp add: cx_ok_def on_switch_def)
  show "cx_ok host vers net redact (s1\<lparr>cx_logged_in := False\<rparr>)" if "a = Answer r" "rp_status r = 401" for r
  proof -
    have "held net (cx_sent s) \<le> 1" using assms(1) by (auto simp: cx_ok_def intro: order_trans)
    then have "held net (cx_sent s1) = 0" using held_401 [OF assms(3) _ that(2)] that(1) by (simp add: s1 a [symmetric])
    then show ?thesis using ok by (simp add: cx_ok_def on_switch_def)
  qed
  show "cx_logged_in s1 = cx_logged_in s" "cx_base s1 = cx_base s" by (simp_all add: s1)
qed

lemma base_url: "cx_ok host vers net redact s \<Longrightarrow> cx_base s = Some b \<Longrightarrow> \<exists>v \<in> set vers. b = rest_base host v"
  by (auto simp: cx_ok_def on_switch_def)

lemma get_not_login [simp]: "\<not> is_login (get_request s b e t)" "\<not> is_login (cx_request s PUT u p h j t)"
  by (simp_all add: is_login_def get_request_def)

lemma get_again_ok:
  assumes "cx_ok host vers net redact s"
  shows "cx_ok host vers net redact (snd (get_again net redact e t s))"
    and "get_again net redact e t s = (Some r, s1) \<Longrightarrow> rp_status r = 401 \<Longrightarrow> cx_ok host vers net redact (s1\<lparr>cx_logged_in := False\<rparr>)"
proof -
  have "cx_ok host vers net redact (snd (get_again net redact e t s)) \<and>
    (\<forall>r s1. get_again net redact e t s = (Some r, s1) \<longrightarrow> rp_status r = 401 \<longrightarrow> cx_ok host vers net redact (s1\<lparr>cx_logged_in := False\<rparr>))"
  proof (cases "cx_base s")
    case None
    then show ?thesis using assms by (simp add: get_again_def)
  next
    case (Some b)
    obtain a s1 where send: "cx_send net (get_request s b e t) s = (a, s1)" by fastforce
    have "proper_request host vers (get_request s b e t)"
      using base_url [OF assms Some] by (auto simp: get_request_def intro: proper_requests)
    note kept = plain_request_ok [OF assms send get_not_login(1) this]
    show ?thesis using kept(1) kept(2) kept(3) Some send by (cases a) (auto simp: get_again_def failed_with_def)
  qed
  then show "cx_ok host vers net redact (snd (get_again net redact e t s))"
    and "get_again net redact e t s = (Some r, s1) \<Longrightarrow> rp_status r = 401 \<Longrightarrow> cx_ok host vers net redact (s1\<lparr>cx_logged_in := False\<rparr>)"
    by blast+
qed

lemma cx_get_ok:
  assumes "cx_ok host vers net redact s"
  shows "cx_ok host vers net redact (snd (cx_get net redact e t s))"
proof -
  obtain r s1 where g: "get_again net redact e t s = (r, s1)" by fastforce
  have ok1: "cx_ok host vers net redact s1" using get_again_ok(1) [OF assms, of e t] g by simp
  show ?thesis
  proof (cases "\<exists>p. r = Some p \<and> rp_status p = 401")
    case True
    then obtain p where p: "r = Some p" "rp_status p = 401" by blast
    obtain ok s2 where l: "cx_login net redact (s1\<lparr>cx_logged_in := False\<rparr>) = (ok, s2)" by fastforce
    have "cx_ok host vers net redact s2"
      using get_again_ok(2) [OF assms, of e t p s1] g p login_ok [OF _ _ l] by simp
    then show ?thesis using g p l get_again_ok(1) [of host vers net redact s2 e t] by (cases ok) (simp_all add: cx_get_def)
  next
    case False
    then show ?thesis using g ok1 by (auto simp: cx_get_def split: option.splits)
  qed
qed

lemma write_ok:
  assumes "cx_ok host vers net redact s"
  shows "\<not> has_key params ''password'' \<Longrightarrow> cx_ok host vers net redact (snd (cx_put net redact e params t s))"
    and "cx_ok host vers net redact (snd (cx_post net redact ''cli'' headers body s))"
proof -
  have step: "cx_ok host vers net redact s1 \<and> cx_ok host vers net redact (s1\<lparr>cx_error := redact x\<rparr>)"
    if "cx_base s = Some b" "cx_send net (cx_request s m (b @ e) params headers body t) s = (a, s1)"
      "\<not> has_key params ''password''" "\<not> is_login (cx_request s m (b @ e) params headers body t)"
    for b m e params headers body t a s1 x
  proof -
    have "proper_request host vers (cx_request s m (b @ e) params headers body t)"
      using base_url [OF assms that(1)] that(3) by (auto intro: proper_requests)
    from plain_request_ok(1,2) [OF assms that(2,4) this] show ?thesis by simp
  qed
  show "\<not> has_key params ''password'' \<Longrightarrow> cx_ok host vers net redact (snd (cx_put net redact e params t s))"
    using assms step [where ?m = PUT]
    by (auto simp: cx_put_def failed_with_def split: option.splits prod.splits http_answer.splits)
  have "\<not> is_login (cx_request s POST (b @ ''cli'') [] headers (Some body) 30)" if "cx_base s = Some b" for b
    using base_url [OF assms that] url_kinds(4) by (auto simp: is_login_def)
  then show "cx_ok host vers net redact (snd (cx_post net redact ''cli'' headers body s))"
    using assms step [where ?m = POST and ?e = "''cli''"]
    by (auto simp: cx_post_def failed_with_def split: option.splits prod.splits http_answer.splits)
qed

lemma cli_ok: "cx_ok host vers net redact s \<Longrightarrow> cx_ok host vers net redact (snd (cx_cli net redact cmd s))"
  using write_ok(2) by (simp add: cx_cli_def Let_def split_beta)

lemma cx_do_ok:
  assumes "cx_ok host vers net redact s"
  shows "cx_ok host vers net redact (cx_do net redact c s)"
proof (cases c)
  case Save
  have "\<not> has_key [(''from'', x)] ''password''" for x :: string by (simp add: has_key_def)
  then show ?thesis using write_ok(1) [OF assms] by (simp add: Save cx_do_def cx_save_def split_beta)
qed (use assms cx_get_ok cli_ok in \<open>simp_all add: cx_do_def cx_reachable_def cx_hostname_def cx_facts_def cx_config_def
    cx_firmware_def cx_arp_table_def split_beta\<close>)

interpretation cx_calls: machine "\<lambda>s c. cx_do net redact c s" "cx_ok host vers net redact" "\<lambda>_. True"
  for net redact host vers
  by unfold_locales (rule cx_do_ok)

lemma new_cx_ok: "cx_ok host (cx_versions (new_cx host user pw verify pref)) net redact (new_cx host user pw verify pref)"
  by (simp add: cx_ok_def on_switch_def new_cx_def masked_def)

text \<open>The state of a block before its logout, and the logout itself.\<close>

lemma inside_ok:
  "cx_ok host (cx_versions (new_cx host user pw verify pref)) net redact
     (fold (cx_do net redact) calls (snd (cx_login net redact (new_cx host user pw verify pref))))"
proof -
  have "cx_ok host (cx_versions (new_cx host user pw verify pref)) net redact (snd (cx_login net redact (new_cx host user pw verify pref)))"
    using login_ok [OF new_cx_ok] by (metis (no_types, lifting) cx.select_convs(8) new_cx_def prod.collapse)
  then show ?thesis using cx_calls.run_inv by (simp add: foldl_conv_fold list_all_iff)
qed

lemma logout_url: "cx_base s = Some b \<Longrightarrow> cx_ok host vers net redact s \<Longrightarrow> cx_logged_in s \<Longrightarrow>
   is_logout (logout_request s' b) \<and> \<not> is_login (logout_request s' b) \<and> proper_request host vers (logout_request s' b)"
  using base_url [of host vers net redact s b] url_kinds(2,3) [of host]
  by (auto simp: is_logout_def is_login_def logout_request_def intro: proper_requests)

definition refused_twice :: "http \<Rightarrow> http_request list \<Rightarrow> bool" where
  "refused_twice net sent = (case rev sent of
       rq' # rq # rqs \<Rightarrow> is_logout rq \<and> is_logout rq' \<and> \<not> success (net (rev rqs) rq) \<and> \<not> success (net (rev rqs @ [rq]) rq')
     | _ \<Rightarrow> False)"

lemma logout_closes:
  assumes ok: "cx_ok host vers net redact s" and s': "s' = cx_logout net s"
  shows "\<not> cx_logged_in s' \<and> (held net (cx_sent s') = 0 \<or> refused_twice net (cx_sent s')) \<and>
    list_all (proper_request host vers) (cx_sent s') \<and> masked redact (cx_error s')"
proof (cases "cx_logged_in s")
  case False
  then have "s' = s" by (simp add: s' cx_logout_def split: option.splits)
  then show ?thesis using ok False by (simp add: cx_ok_def)
next
  case True
  then obtain b where b: "cx_base s = Some b" using ok by (auto simp: cx_ok_def on_switch_def)
  note url = logout_url [OF b ok True]
  obtain a s1 where send: "cx_send net (logout_request s b) s = (a, s1)" by fastforce
  have ok1: "cx_ok host vers net redact s1" and on1: "cx_logged_in s1" "cx_base s1 = Some b"
    using plain_request_ok(1,4,5) [OF ok send] url True b by simp_all
  obtain a2 s2 where send2: "cx_send net (logout_request s1 b) s1 = (a2, s2)" by fastforce
  have ok2: "cx_ok host vers net redact s2" using plain_request_ok(1) [OF ok1 send2] url by simp
  obtain cs where a: "a = net (cx_sent s) (logout_request s b)"
    and s1: "s1 = s\<lparr>cx_sent := cx_sent s @ [logout_request s b], cx_cookies := cs\<rparr>"
    using send_result [OF send] by blast
  obtain cs2 where a2: "a2 = net (cx_sent s1) (logout_request s1 b)"
    and s2: "s2 = s1\<lparr>cx_sent := cx_sent s1 @ [logout_request s1 b], cx_cookies := cs2\<rparr>"
    using send_result [OF send2] by blast
  have le: "held net (cx_sent s) \<le> 1" "held net (cx_sent s1) \<le> 1" using ok ok1 by (auto simp: cx_ok_def intro: order_trans)
  show ?thesis
  proof (cases "success a")
    case True
    have "held net (cx_sent s1) = 0" using url le(1) True by (simp add: s1 a [symmetric] held_closed)
    then show ?thesis using b send True on1 ok1 \<open>cx_logged_in s\<close> by (simp add: s' cx_logout_def cx_ok_def)
  next
    case False
    have s'': "s' = s2\<lparr>cx_logged_in := False\<rparr>" using b send send2 False \<open>cx_logged_in s\<close> by (simp add: s' cx_logout_def)
    have "held net (cx_sent s2) = 0 \<or> refused_twice net (cx_sent s2)"
    proof (cases "success a2")
      case True
      then show ?thesis using url le(2) by (simp add: s2 a2 [symmetric] held_closed)
    next
      case False
      then show ?thesis using \<open>\<not> success a\<close> url by (simp add: refused_twice_def s2 a2 a s1)
    qed
    then show ?thesis using ok2 by (simp add: s'' cx_ok_def)
  qed
qed

lemma block_proper:
  "list_all (proper_request host (cx_versions (new_cx host user pw verify pref)))
      (cx_sent (cx_block net redact calls (new_cx host user pw verify pref))) \<and>
   masked redact (cx_error (cx_block net redact calls (new_cx host user pw verify pref)))"
  using logout_closes [OF inside_ok refl] unfolding cx_block_def by blast

text \<open>
  C29: After a block of calls, whatever the switch answered, the driver is logged out, and the switch
  holds no session of it unless it refused the logout twice.  A session is counted from its answered
  login on; one whose answer was lost the driver does not know of.
\<close>

theorem no_session_left_behind:
  "\<not> cx_logged_in (cx_block net redact calls (new_cx host user pw verify pref)) \<and>
   (held net (cx_sent (cx_block net redact calls (new_cx host user pw verify pref))) = 0 \<or>
    refused_twice net (cx_sent (cx_block net redact calls (new_cx host user pw verify pref))))"
  using logout_closes [OF inside_ok refl] unfolding cx_block_def by blast

subsection \<open>Where the password goes\<close>

text \<open>
  A request with another password in its password parameter, a switch that sees the requests so
  changed, and the session that has sent them.
\<close>

definition put_password :: "string \<Rightarrow> http_request \<Rightarrow> http_request" where
  "put_password pw rq = rq\<lparr>rq_params := map (\<lambda>(k, v). (k, if k = ''password'' then pw else v)) (rq_params rq)\<rparr>"


definition with_password :: "string \<Rightarrow> cx \<Rightarrow> cx" where
  "with_password pw s = s\<lparr>cx_password := pw, cx_sent := map (put_password pw) (cx_sent s)\<rparr>"

lemma with_password_simps [simp]:
  "cx_base (with_password pw s) = cx_base s" "cx_versions (with_password pw s) = cx_versions s" "cx_version (with_password pw s) = cx_version s"
  "cx_logged_in (with_password pw s) = cx_logged_in s" "cx_cookies (with_password pw s) = cx_cookies s" "cx_error (with_password pw s) = cx_error s"
  "(with_password pw s)\<lparr>cx_logged_in := b\<rparr> = with_password pw (s\<lparr>cx_logged_in := b\<rparr>)"
  "(with_password pw s)\<lparr>cx_error := e\<rparr> = with_password pw (s\<lparr>cx_error := e\<rparr>)"
  by (simp_all add: with_password_def)

lemma logged_in_password [simp]: "logged_in_as v r (with_password pw s) = with_password pw (logged_in_as v r s)"
  by (cases s; cases "rp_token r") (simp_all add: with_password_def logged_in_as_def)










text \<open>The argument \<open>verify_ssl\<close> has no effect: every request turns the check of the certificate off.\<close>

lemma certificates_unchecked:
  "rq \<in> set (cx_sent (cx_block net redact calls (new_cx host user pw True pref))) \<Longrightarrow> \<not> rq_verify rq"
  using block_proper [where verify = True] by (force simp: list_all_iff proper_request_def)

text \<open>Only a read logs in again after a 401: the saving of the configuration and the CLI do not.\<close>

lemma save_never_logs_in: "cx_logged_in (snd (cx_save net redact s)) = cx_logged_in s"
  by (auto simp: cx_save_def cx_put_def failed_with_def cx_send_def Let_def split: option.splits http_answer.splits prod.splits)

text \<open>A page that is not JSON makes the host name raise, against the contract of the drivers.\<close>

lemma hostname_raises:
  "cx_get net redact ''system'' 15 s = (Some r, s1) \<Longrightarrow> rp_status r = 200 \<Longrightarrow> rp_json r = None \<Longrightarrow>
   cx_hostname net redact s = (Inl ValueError, s1)"
  by (simp add: cx_hostname_def response_json_def)

text \<open>The rows of the table that tasks/arp.py documents have one column more than the driver reads.\<close>

lemma table_with_state_unread: "words line = [ip, mac, vlan, port, st] \<Longrightarrow> cx_arp_row line = None"
  by (simp add: cx_arp_row_def)

subsection \<open>A switch with an older interface\<close>

definition plain_answer :: "int \<Rightarrow> http_answer" where
  "plain_answer n = Answer \<lparr>rp_status = n, rp_token = None, rp_cookies = [], rp_content = [], rp_json = None\<rparr>"

definition older_switch :: http where
  "older_switch rqs rq = plain_answer (if contains (rq_url rq) ''v10.13'' then 404 else 200)"

lemma older_login:
  "fst (cx_login older_switch id (new_cx ''sw1'' ''admin'' ''pw'' False None))"
  by code_simp

theorem login_takes_first_version_witness:
  "cx_version (snd (cx_login older_switch id (new_cx ''sw1'' ''admin'' ''pw'' False None))) = Some ''v10.10''"
proof -
  define s where "s = new_cx ''sw1'' ''admin'' ''pw'' False None"
  obtain s' where l: "cx_login older_switch id s = (True, s')"
    using older_login by (cases "cx_login older_switch id s") (auto simp: s_def)
  have v: "cx_versions s = [''v10.13'', ''v10.10'', ''v10.04'']" unfolding s_def by code_simp
  have no: "\<not> accepted (older_switch rqs (login_request s ''v10.13''))" for rqs
    unfolding s_def by code_simp
  have ends: "\<not> try_next id (older_switch rqs (login_request s ''v10.10''))" for rqs
    unfolding s_def by code_simp
  have len: "length (cx_versions s) = 3" by (simp add: v)
  obtain k where k: "k < 3" "accepted (login_answer older_switch s (cx_versions s) k)"
    "\<forall>j < k. try_next id (login_answer older_switch s (cx_versions s) j)" "cx_version s' = Some (cx_versions s ! k)"
    using login_takes_first_version [OF l] unfolding len by auto
  have "k \<noteq> 0" using k(2) no by (cases k) (simp_all add: v)
  moreover have "k \<noteq> 2"
  proof
    assume "k = 2"
    then have "try_next id (login_answer older_switch s (cx_versions s) 1)" using k(3) by simp
    then show False using ends by (simp add: v)
  qed
  ultimately have "k = 1" using k(1) by linarith
  then have "cx_version s' = Some ''v10.10''" using k(4) by (simp add: v)
  then show ?thesis using l by (simp add: s_def)
qed

end
