(* ===== verification/Cli_Drivers.thy ===== *)
theory Cli_Drivers
  imports Cx_Session Py_Float
begin

text \<open>
  The drivers that reach a device through a library: \<open>drivers/cisco_ios.py\<close> and
  \<open>drivers/arista_eos.py\<close> over NAPALM, \<open>drivers/aruba_os.py\<close> and \<open>drivers/aos8.py\<close> over netmiko.

  What the library and the device answer is an argument of every operation, a record with one entry
  per call; an entry \<open>Inl\<close> is the text of an exception.  Answers of NAPALM have the shapes its
  documentation gives.  \<open>redact\<close> masks credentials in texts, as before.
\<close>

type_synonym 'a attempt = "string + 'a"

text \<open>An exception by the name of its class and its text.\<close>

type_synonym raised = "string \<times> string"

definition exc_text :: "raised \<Rightarrow> string" where
  "exc_text e = fst e @ '': '' @ snd e"

definition str_or_empty :: "string option \<Rightarrow> string" where
  "str_or_empty v = (case v of None \<Rightarrow> [] | Some s \<Rightarrow> s)"

definition nonempty :: "string \<Rightarrow> string option" where
  "nonempty s = (if s = [] then None else Some s)"

subsection \<open>NAPALM: Cisco IOS and Arista EOS\<close>

datatype option_value = Text string | Number int | Switched bool | Real py_float

record napalm_args =
  na_driver :: string
  na_host :: string
  na_user :: string
  na_password :: string
  na_timeout :: nat
  na_options :: "(string, option_value) dict"

datatype napalm_config = Config_Dict "(string, string option) dict" | Config_Text string

datatype napalm_row = Row "string option" "string option" "string option" "string option" | Not_A_Row

record napalm_box =
  nb_import :: "raised option"
  nb_driver :: "string \<Rightarrow> string option"
  nb_open :: "napalm_args \<Rightarrow> raised option"
  nb_alive :: "(string, bool) dict option attempt"
  nb_facts :: "(string, string option) dict attempt"
  nb_config :: "napalm_config attempt"
  nb_cli :: "string \<Rightarrow> (string, string option) dict option attempt"
  nb_arp :: "napalm_row list attempt"

datatype napalm_vendor = Cisco_IOS | Arista_EOS

record napalm =
  np_vendor :: napalm_vendor
  np_args :: napalm_args
  np_connected :: bool
  np_error :: string

definition new_cisco ::
    "string \<Rightarrow> string \<Rightarrow> string \<Rightarrow> string \<Rightarrow> string \<Rightarrow> string \<Rightarrow> int \<Rightarrow> py_float \<Rightarrow> napalm" where
  "new_cisco host user pw enable driver key_file read_timeout delay = \<lparr>np_vendor = Cisco_IOS,
     np_args = \<lparr>na_driver = driver, na_host = host, na_user = user, na_password = pw, na_timeout = 30,
       na_options = [(''global_delay_factor'', Real delay), (''read_timeout_override'', Number read_timeout), (''fast_cli'', Switched False)]
         @ (if enable = [] then [] else [(''secret'', Text enable)])
         @ (if strip key_file = [] then [] else [(''use_keys'', Switched True), (''key_file'', Text (strip key_file))])\<rparr>,
     np_connected = False, np_error = []\<rparr>"

definition new_arista :: "string \<Rightarrow> string \<Rightarrow> string \<Rightarrow> string \<Rightarrow> string \<Rightarrow> int option \<Rightarrow> napalm" where
  "new_arista host user pw enable transport port = \<lparr>np_vendor = Arista_EOS,
     np_args = \<lparr>na_driver = ''eos'', na_host = host, na_user = user, na_password = pw, na_timeout = 30,
       na_options = (''transport'', Text transport)
         # (case port of None \<Rightarrow> [] | Some p \<Rightarrow> [(''port'', Number p)])
         @ (if enable = [] then [] else [(''enable_password'', Text enable)])\<rparr>,
     np_connected = False, np_error = []\<rparr>"

definition quote_char :: string where
  "quote_char = [CHR 0x27]"

text \<open>\<open>repr\<close> of a name without quotes and backslashes.\<close>

definition no_driver :: "napalm \<Rightarrow> string \<Rightarrow> string" where
  "no_driver s e = (case np_vendor s of
       Cisco_IOS \<Rightarrow> ''unknown napalm driver '' @ quote_char @ na_driver (np_args s) @ quote_char @ '': '' @ e
     | Arista_EOS \<Rightarrow> ''napalm '' @ quote_char @ ''eos'' @ quote_char @ '' driver unavailable: '' @ e)"

definition not_installed :: "string \<Rightarrow> raised \<Rightarrow> string" where
  "not_installed lib e = lib @ '' not installed '' @ em_dash @ '' pip3 install -r /opt/aruba-agent/requirements.txt ('' @ exc_text e @ '')''"

definition napalm_login :: "napalm_box \<Rightarrow> napalm \<Rightarrow> bool \<times> napalm" where
  "napalm_login box s = (case nb_import box of
       Some e \<Rightarrow> (False, s\<lparr>np_error := not_installed ''napalm'' e\<rparr>)
     | None \<Rightarrow> (case nb_driver box (na_driver (np_args s)) of
         Some e \<Rightarrow> (False, s\<lparr>np_error := no_driver s e\<rparr>)
       | None \<Rightarrow> (case nb_open box (np_args s) of
           Some e \<Rightarrow> (False, s\<lparr>np_error := exc_text e, np_connected := False\<rparr>)
         | None \<Rightarrow> (True, s\<lparr>np_connected := True\<rparr>))))"

definition napalm_logout :: "napalm \<Rightarrow> napalm" where
  "napalm_logout s = s\<lparr>np_connected := False\<rparr>"

text \<open>A call on the device: nothing without a session, and an exception is masked and kept.\<close>

definition napalm_call :: "(string \<Rightarrow> string) \<Rightarrow> 'a attempt \<Rightarrow> 'b \<Rightarrow> ('a \<Rightarrow> 'b) \<Rightarrow> napalm \<Rightarrow> 'b \<times> napalm" where
  "napalm_call redact answer none f s = (if \<not> np_connected s then (none, s)
     else case answer of Inl e \<Rightarrow> (none, s\<lparr>np_error := redact e\<rparr>) | Inr x \<Rightarrow> (f x, s))"

definition napalm_reachable :: "(string \<Rightarrow> string) \<Rightarrow> napalm_box \<Rightarrow> napalm \<Rightarrow> bool \<times> napalm" where
  "napalm_reachable redact box = napalm_call redact (nb_alive box) False
     (\<lambda>st. case st of None \<Rightarrow> False | Some d \<Rightarrow> dget d ''is_alive'' = Some True)"

definition text_at :: "(string, string option) dict \<Rightarrow> string \<Rightarrow> string" where
  "text_at d k = (case dget d k of None \<Rightarrow> [] | Some v \<Rightarrow> str_or_empty v)"

definition napalm_key :: "napalm \<Rightarrow> string" where
  "napalm_key s = (case np_vendor s of Cisco_IOS \<Rightarrow> ''cisco_ios'' | Arista_EOS \<Rightarrow> ''arista_eos'')"

definition napalm_facts :: "(string \<Rightarrow> string) \<Rightarrow> napalm_box \<Rightarrow> napalm \<Rightarrow> facts option \<times> napalm" where
  "napalm_facts redact box s = napalm_call redact (nb_facts box) None
     (\<lambda>d. Some \<lparr>fc_hostname = JStr (text_at d ''hostname''), fc_vendor = napalm_key s, fc_model = JStr (text_at d ''model''),
        fc_version = JStr (text_at d ''os_version''), fc_serial = JStr (text_at d ''serial_number'')\<rparr>) s"

definition napalm_hostname :: "(string \<Rightarrow> string) \<Rightarrow> napalm_box \<Rightarrow> napalm \<Rightarrow> json option \<times> napalm" where
  "napalm_hostname redact box s = (case napalm_facts redact box s of (f, s1) \<Rightarrow> (map_option fc_hostname f, s1))"

definition config_text :: "napalm_config \<Rightarrow> string" where
  "config_text c = (case c of Config_Dict d \<Rightarrow> text_at d ''running'' | Config_Text t \<Rightarrow> t)"

definition napalm_config :: "(string \<Rightarrow> string) \<Rightarrow> napalm_box \<Rightarrow> napalm \<Rightarrow> string option \<times> napalm" where
  "napalm_config redact box = napalm_call redact (nb_config box) None (\<lambda>c. nonempty (config_text c))"

definition save_command :: "napalm \<Rightarrow> string" where
  "save_command s = (case np_vendor s of Cisco_IOS \<Rightarrow> ''write memory'' | Arista_EOS \<Rightarrow> ''copy running-config startup-config'')"

definition napalm_save :: "(string \<Rightarrow> string) \<Rightarrow> napalm_box \<Rightarrow> napalm \<Rightarrow> bool \<times> napalm" where
  "napalm_save redact box s = napalm_call redact (nb_cli box (save_command s)) False (\<lambda>_. True) s"

definition napalm_cli :: "(string \<Rightarrow> string) \<Rightarrow> napalm_box \<Rightarrow> string \<Rightarrow> napalm \<Rightarrow> string option \<times> napalm" where
  "napalm_cli redact box cmd = napalm_call redact (nb_cli box cmd) None
     (\<lambda>out. case out of None \<Rightarrow> None | Some d \<Rightarrow> (case dget d cmd of None \<Rightarrow> None | Some v \<Rightarrow> v))"

definition napalm_entry :: "napalm_row \<Rightarrow> arp_entry option" where
  "napalm_entry r = (case r of Not_A_Row \<Rightarrow> None
     | Row ip mac intf age \<Rightarrow> Some \<lparr>ae_ip = str_or_empty ip, ae_mac = str_or_empty mac, ae_interface = str_or_empty intf,
         ae_vlan = [], ae_age = str_or_empty age\<rparr>)"

definition napalm_arp :: "(string \<Rightarrow> string) \<Rightarrow> napalm_box \<Rightarrow> napalm \<Rightarrow> arp_entry list \<times> napalm" where
  "napalm_arp redact box = napalm_call redact (nb_arp box) [] (List.map_filter napalm_entry)"

subsection \<open>netmiko: ArubaOS-Switch and AOS-8 controllers\<close>

text \<open>
  A command answers with its output, with a \<open>TypeError\<close> (an older netmiko without the argument
  \<open>read_timeout\<close>) or with another exception; the flag says whether the argument was given.
\<close>

datatype send_answer = Output string | Type_Error string | Send_Failed string

record netmiko_args =
  ka_device_type :: string
  ka_host :: string
  ka_user :: string
  ka_password :: string
  ka_timeout :: nat
  ka_secret :: "string option"

record flash_box =
  fb_import :: "string option"
  fb_connect :: "raised option"
  fb_sftp :: "(string \<Rightarrow> string option) option"
  fb_scp :: "(string \<Rightarrow> string option) option"

record netmiko_box =
  kb_import :: "raised option"
  kb_connect :: "netmiko_args \<Rightarrow> raised option"
  kb_send :: "bool \<Rightarrow> string \<Rightarrow> send_answer"
  kb_alive :: "bool attempt"
  kb_prompt :: "string attempt"
  kb_flash :: flash_box

record netmiko =
  nk_args :: netmiko_args
  nk_flash_mode :: bool
  nk_connected :: bool
  nk_error :: string

definition new_netmiko :: "string \<Rightarrow> bool \<Rightarrow> string \<Rightarrow> string \<Rightarrow> string \<Rightarrow> string \<Rightarrow> netmiko" where
  "new_netmiko device_type flash host user pw enable = \<lparr>nk_args = \<lparr>ka_device_type = device_type, ka_host = host, ka_user = user,
       ka_password = pw, ka_timeout = 30, ka_secret = nonempty enable\<rparr>,
     nk_flash_mode = flash, nk_connected = False, nk_error = []\<rparr>"

definition new_aruba_os :: "string \<Rightarrow> string \<Rightarrow> string \<Rightarrow> string \<Rightarrow> netmiko" where
  "new_aruba_os = new_netmiko ''hp_procurve'' False"

definition new_aos8 :: "string \<Rightarrow> string \<Rightarrow> string \<Rightarrow> string \<Rightarrow> string \<Rightarrow> netmiko" where
  "new_aos8 host user pw enable backup_mode =
     new_netmiko ''aruba_os'' (lower (strip (or_else backup_mode ''flash'')) = ''flash'') host user pw enable"

text \<open>\<open>enable\<close> and \<open>clear_buffer\<close> after the connection are best effort and leave no trace.\<close>

definition netmiko_login :: "(string \<Rightarrow> string) \<Rightarrow> netmiko_box \<Rightarrow> netmiko \<Rightarrow> bool \<times> netmiko" where
  "netmiko_login redact box s = (case kb_import box of
       Some e \<Rightarrow> (False, s\<lparr>nk_error := not_installed ''netmiko'' e\<rparr>)
     | None \<Rightarrow> (case kb_connect box (nk_args s) of
         Some e \<Rightarrow> (False, s\<lparr>nk_error := redact (exc_text e), nk_connected := False\<rparr>)
       | None \<Rightarrow> (True, s\<lparr>nk_connected := True\<rparr>)))"

definition netmiko_logout :: "netmiko \<Rightarrow> netmiko" where
  "netmiko_logout s = s\<lparr>nk_connected := False\<rparr>"

definition netmiko_send :: "(string \<Rightarrow> string) \<Rightarrow> netmiko_box \<Rightarrow> string \<Rightarrow> netmiko \<Rightarrow> string option \<times> netmiko" where
  "netmiko_send redact box cmd s = (if \<not> nk_connected s then (None, s)
     else case (case kb_send box True cmd of Type_Error _ \<Rightarrow> kb_send box False cmd | a \<Rightarrow> a) of
       Output out \<Rightarrow> (Some out, s)
     | Type_Error e \<Rightarrow> (None, s\<lparr>nk_error := redact e\<rparr>)
     | Send_Failed e \<Rightarrow> (None, s\<lparr>nk_error := redact e\<rparr>))"

definition netmiko_reachable :: "(string \<Rightarrow> string) \<Rightarrow> netmiko_box \<Rightarrow> netmiko \<Rightarrow> bool \<times> netmiko" where
  "netmiko_reachable redact box s = (if \<not> nk_connected s then (False, s)
     else case kb_alive box of Inl e \<Rightarrow> (False, s\<lparr>nk_error := redact e\<rparr>) | Inr b \<Rightarrow> (b, s))"

definition rstrip_chars :: "char list \<Rightarrow> string \<Rightarrow> string" where
  "rstrip_chars cs s = rev (dropWhile (\<lambda>c. c \<in> set cs) (rev s))"

definition switch_prompt :: "string \<Rightarrow> string option" where
  "switch_prompt p = nonempty (strip (rstrip_chars ''#> '' p))"

definition controller_prompt :: "string \<Rightarrow> string option" where
  "controller_prompt prompt = (let p = strip prompt in
     if startswith p ''('' \<and> CHR '')'' \<in> set p then nonempty (strip (drop 1 (takeWhile (\<lambda>c. c \<noteq> CHR '')'') p)))
     else nonempty (strip (rstrip_chars ''#> '' p)))"

definition netmiko_hostname ::
    "(string \<Rightarrow> string option) \<Rightarrow> (string \<Rightarrow> string) \<Rightarrow> netmiko_box \<Rightarrow> netmiko \<Rightarrow> string option \<times> netmiko" where
  "netmiko_hostname name_of redact box s = (if \<not> nk_connected s then (None, s)
     else case kb_prompt box of Inl e \<Rightarrow> (None, s\<lparr>nk_error := redact e\<rparr>) | Inr p \<Rightarrow> (name_of p, s))"

definition running_config :: "(string \<Rightarrow> string) \<Rightarrow> netmiko_box \<Rightarrow> netmiko \<Rightarrow> string option \<times> netmiko" where
  "running_config redact box s = (case netmiko_send redact box ''show running-config'' s of
       (None, s1) \<Rightarrow> (None, if nk_error s1 = [] then s1\<lparr>nk_error := ''empty running-config''\<rparr> else s1)
     | (Some out, s1) \<Rightarrow> (nonempty (strip out), s1))"

text \<open>\<open>" ".join(out.split())[:200]\<close>.\<close>

definition short_output :: "string \<Rightarrow> string" where
  "short_output out = take 200 (join '' '' (words out))"

definition aruba_os_save :: "(string \<Rightarrow> string) \<Rightarrow> netmiko_box \<Rightarrow> netmiko \<Rightarrow> bool \<times> netmiko" where
  "aruba_os_save redact box s = (case netmiko_send redact box ''write memory'' s of
       (None, s1) \<Rightarrow> (False, s1)
     | (Some out, s1) \<Rightarrow>
         if contains (lower out) ''success'' then (True, s1)
         else if list_ex (contains (lower out)) [''invalid input'', ''unknown command'', ''incomplete'', ''not found'']
         then (False, s1\<lparr>nk_error := short_output out\<rparr>)
         else (True, s1))"

definition aos8_save :: "(string \<Rightarrow> string) \<Rightarrow> netmiko_box \<Rightarrow> netmiko \<Rightarrow> bool \<times> netmiko" where
  "aos8_save redact box s = (case netmiko_send redact box ''write memory'' s of
       (None, s1) \<Rightarrow> (False, s1)
     | (Some out, s1) \<Rightarrow> if list_ex (contains (lower out)) [''error'', ''invalid'', ''failure'', ''cannot'']
         then (False, s1\<lparr>nk_error := short_output out\<rparr>) else (True, s1))"

definition aruba_os_arp_row :: "string \<Rightarrow> arp_entry option" where
  "aruba_os_arp_row line = (case words line of
       ip # mac # cols \<Rightarrow> if count_list ip (CHR ''.'') = 3 \<and> CHR ''-'' \<in> set mac
         then Some \<lparr>ae_ip = ip, ae_mac = mac, ae_interface = (if 2 \<le> length cols then cols ! 1 else []), ae_vlan = [], ae_age = []\<rparr>
         else None
     | _ \<Rightarrow> None)"

definition aruba_os_arp :: "(string \<Rightarrow> string) \<Rightarrow> netmiko_box \<Rightarrow> netmiko \<Rightarrow> arp_entry list \<times> netmiko" where
  "aruba_os_arp redact box s = (case netmiko_send redact box ''show arp'' s of
       (None, s1) \<Rightarrow> ([], s1) | (Some out, s1) \<Rightarrow> (List.map_filter aruba_os_arp_row (splitlines out), s1))"

text \<open>The flash archive of a controller: created, then pulled over SFTP or else SCP.\<close>

definition flash_paths :: "string list" where
  "flash_paths = [''/flash/flashbackup.tar.gz'', ''flash/flashbackup.tar.gz'', ''flashbackup.tar.gz'']"

definition first_copy :: "(string \<Rightarrow> string option) option \<Rightarrow> string option" where
  "first_copy channel = (case channel of None \<Rightarrow> None
     | Some f \<Rightarrow> find (\<lambda>data. data \<noteq> []) (List.map_filter f flash_paths))"

definition pull_flash :: "(string \<Rightarrow> string) \<Rightarrow> netmiko_box \<Rightarrow> netmiko \<Rightarrow> string option \<times> netmiko" where
  "pull_flash redact box s = (case netmiko_send redact box ''backup flash'' s of (out, s0) \<Rightarrow>
     let s1 = (case out of None \<Rightarrow> s0 | Some t \<Rightarrow>
           if contains (lower t) ''error'' \<and> \<not> contains (lower t) ''success'' then s0\<lparr>nk_error := short_output t\<rparr> else s0);
         missing = (\<lambda>s. if nk_error s = [] then s\<lparr>nk_error := ''could not retrieve flashbackup.tar.gz (SFTP/SCP unavailable)''\<rparr> else s)
     in case fb_import (kb_flash box) of
          Some e \<Rightarrow> (None, s1\<lparr>nk_error := ''paramiko not available for flash pull ('' @ e @ '')''\<rparr>)
        | None \<Rightarrow> (case fb_connect (kb_flash box) of
            Some e \<Rightarrow> (None, missing (s1\<lparr>nk_error := redact (''flash pull failed: '' @ exc_text e)\<rparr>))
          | None \<Rightarrow> (case first_copy (fb_sftp (kb_flash box)) of
              Some data \<Rightarrow> (Some data, s1)
            | None \<Rightarrow> (case first_copy (fb_scp (kb_flash box)) of
                Some data \<Rightarrow> (Some data, s1) | None \<Rightarrow> (None, missing s1)))))"

definition aos8_config :: "(string \<Rightarrow> string) \<Rightarrow> netmiko_box \<Rightarrow> netmiko \<Rightarrow> string option \<times> netmiko" where
  "aos8_config redact box s = (if nk_flash_mode s
     then case pull_flash redact box s of
         (Some data, s1) \<Rightarrow> (Some data, s1)
       | (None, s1) \<Rightarrow> running_config redact box (s1\<lparr>nk_error := []\<rparr>)
     else running_config redact box s)"

end
