(* ===== verification/Drivers.thy ===== *)
theory Drivers
  imports Cx_Proofs Cli_Drivers
begin

text \<open>
  The choice of a driver, \<open>drivers/factory.py\<close>, and the protocol \<open>SwitchDriver\<close> of
  \<open>drivers/base.py\<close>: the operations the tasks call, by cases on the driver, and a locale with what
  the tasks rely on, interpreted for every driver and for the choice between them.
\<close>

subsection \<open>The protocol\<close>

datatype driver = Aruba_CX cx | Napalm_Driver napalm | Aruba_OS netmiko | Aruba_AOS8 netmiko

record device_side =
  ds_http :: http
  ds_napalm :: napalm_box
  ds_netmiko :: netmiko_box
  ds_redact :: "string \<Rightarrow> string"

definition drv_vendor :: "driver \<Rightarrow> string" where
  "drv_vendor d = (case d of Aruba_CX _ \<Rightarrow> ''aruba_cx'' | Napalm_Driver n \<Rightarrow> napalm_key n
     | Aruba_OS _ \<Rightarrow> ''aruba_os'' | Aruba_AOS8 _ \<Rightarrow> ''aruba_aos8'')"

definition drv_logged_in :: "driver \<Rightarrow> bool" where
  "drv_logged_in d = (case d of Aruba_CX s \<Rightarrow> cx_logged_in s | Napalm_Driver s \<Rightarrow> np_connected s
     | Aruba_OS s \<Rightarrow> nk_connected s | Aruba_AOS8 s \<Rightarrow> nk_connected s)"

definition drv_error :: "driver \<Rightarrow> string" where
  "drv_error d = (case d of Aruba_CX s \<Rightarrow> cx_error s | Napalm_Driver s \<Rightarrow> np_error s
     | Aruba_OS s \<Rightarrow> nk_error s | Aruba_AOS8 s \<Rightarrow> nk_error s)"

definition drv_login :: "device_side \<Rightarrow> driver \<Rightarrow> bool \<times> driver" where
  "drv_login w d = (case d of
       Aruba_CX s \<Rightarrow> map_prod id Aruba_CX (cx_login (ds_http w) (ds_redact w) s)
     | Napalm_Driver s \<Rightarrow> map_prod id Napalm_Driver (napalm_login (ds_napalm w) s)
     | Aruba_OS s \<Rightarrow> map_prod id Aruba_OS (netmiko_login (ds_redact w) (ds_netmiko w) s)
     | Aruba_AOS8 s \<Rightarrow> map_prod id Aruba_AOS8 (netmiko_login (ds_redact w) (ds_netmiko w) s))"

definition drv_logout :: "device_side \<Rightarrow> driver \<Rightarrow> driver" where
  "drv_logout w d = (case d of Aruba_CX s \<Rightarrow> Aruba_CX (cx_logout (ds_http w) s)
     | Napalm_Driver s \<Rightarrow> Napalm_Driver (napalm_logout s)
     | Aruba_OS s \<Rightarrow> Aruba_OS (netmiko_logout s) | Aruba_AOS8 s \<Rightarrow> Aruba_AOS8 (netmiko_logout s))"

definition drv_cli :: "device_side \<Rightarrow> string \<Rightarrow> driver \<Rightarrow> string option \<times> driver" where
  "drv_cli w cmd d = (case d of
       Aruba_CX s \<Rightarrow> map_prod id Aruba_CX (cx_cli (ds_http w) (ds_redact w) cmd s)
     | Napalm_Driver s \<Rightarrow> map_prod id Napalm_Driver (napalm_cli (ds_redact w) (ds_napalm w) cmd s)
     | Aruba_OS s \<Rightarrow> map_prod id Aruba_OS (netmiko_send (ds_redact w) (ds_netmiko w) cmd s)
     | Aruba_AOS8 s \<Rightarrow> map_prod id Aruba_AOS8 (netmiko_send (ds_redact w) (ds_netmiko w) cmd s))"

definition drv_save :: "device_side \<Rightarrow> driver \<Rightarrow> bool \<times> driver" where
  "drv_save w d = (case d of
       Aruba_CX s \<Rightarrow> map_prod id Aruba_CX (cx_save (ds_http w) (ds_redact w) s)
     | Napalm_Driver s \<Rightarrow> map_prod id Napalm_Driver (napalm_save (ds_redact w) (ds_napalm w) s)
     | Aruba_OS s \<Rightarrow> map_prod id Aruba_OS (aruba_os_save (ds_redact w) (ds_netmiko w) s)
     | Aruba_AOS8 s \<Rightarrow> map_prod id Aruba_AOS8 (aos8_save (ds_redact w) (ds_netmiko w) s))"

definition drv_config :: "device_side \<Rightarrow> driver \<Rightarrow> string option \<times> driver" where
  "drv_config w d = (case d of
       Aruba_CX s \<Rightarrow> map_prod id Aruba_CX (cx_config (ds_http w) (ds_redact w) s)
     | Napalm_Driver s \<Rightarrow> map_prod id Napalm_Driver (napalm_config (ds_redact w) (ds_napalm w) s)
     | Aruba_OS s \<Rightarrow> map_prod id Aruba_OS (running_config (ds_redact w) (ds_netmiko w) s)
     | Aruba_AOS8 s \<Rightarrow> map_prod id Aruba_AOS8 (aos8_config (ds_redact w) (ds_netmiko w) s))"

definition drv_reachable :: "device_side \<Rightarrow> driver \<Rightarrow> bool \<times> driver" where
  "drv_reachable w d = (case d of
       Aruba_CX s \<Rightarrow> map_prod id Aruba_CX (cx_reachable (ds_http w) (ds_redact w) s)
     | Napalm_Driver s \<Rightarrow> map_prod id Napalm_Driver (napalm_reachable (ds_redact w) (ds_napalm w) s)
     | Aruba_OS s \<Rightarrow> map_prod id Aruba_OS (netmiko_reachable (ds_redact w) (ds_netmiko w) s)
     | Aruba_AOS8 s \<Rightarrow> map_prod id Aruba_AOS8 (netmiko_reachable (ds_redact w) (ds_netmiko w) s))"

definition drv_hostname :: "device_side \<Rightarrow> driver \<Rightarrow> json option result \<times> driver" where
  "drv_hostname w d = (case d of
       Aruba_CX s \<Rightarrow> map_prod id Aruba_CX (cx_hostname (ds_http w) (ds_redact w) s)
     | Napalm_Driver s \<Rightarrow> map_prod Inr Napalm_Driver (napalm_hostname (ds_redact w) (ds_napalm w) s)
     | Aruba_OS s \<Rightarrow> map_prod (Inr \<circ> map_option JStr) Aruba_OS (netmiko_hostname switch_prompt (ds_redact w) (ds_netmiko w) s)
     | Aruba_AOS8 s \<Rightarrow> map_prod (Inr \<circ> map_option JStr) Aruba_AOS8 (netmiko_hostname controller_prompt (ds_redact w) (ds_netmiko w) s))"

definition drv_arp :: "device_side \<Rightarrow> driver \<Rightarrow> arp_entry list \<times> driver" where
  "drv_arp w d = (case d of
       Aruba_CX s \<Rightarrow> map_prod id Aruba_CX (cx_arp_table (ds_http w) (ds_redact w) s)
     | Napalm_Driver s \<Rightarrow> map_prod id Napalm_Driver (napalm_arp (ds_redact w) (ds_napalm w) s)
     | Aruba_OS s \<Rightarrow> map_prod id Aruba_OS (aruba_os_arp (ds_redact w) (ds_netmiko w) s)
     | Aruba_AOS8 s \<Rightarrow> ([], d))"

subsection \<open>The factory\<close>

record vendor_login =
  vl_user :: string
  vl_password :: string
  vl_enable :: string

record driver_options =
  do_cisco :: vendor_login
  do_cisco_driver :: string
  do_cisco_read_timeout :: int
  do_cisco_delay :: py_float
  do_cisco_key_file :: string
  do_arista :: vendor_login
  do_arista_transport :: string
  do_arista_port :: "int option"
  do_aruba_os :: vendor_login
  do_aos8 :: vendor_login
  do_aos8_mode :: string

definition blank_login :: vendor_login where
  "blank_login = \<lparr>vl_user = [], vl_password = [], vl_enable = []\<rparr>"

definition default_options :: driver_options where
  "default_options = \<lparr>do_cisco = blank_login, do_cisco_driver = ''ios'', do_cisco_read_timeout = 60, do_cisco_delay = Fin 2,
     do_cisco_key_file = [], do_arista = blank_login, do_arista_transport = ''https'', do_arista_port = None,
     do_aruba_os = blank_login, do_aos8 = blank_login, do_aos8_mode = ''flash''\<rparr>"

definition driver_for ::
    "string \<Rightarrow> string \<Rightarrow> string \<Rightarrow> bool \<Rightarrow> string option \<Rightarrow> string option \<Rightarrow> driver_options \<Rightarrow> driver" where
  "driver_for host user pw verify preferred hint opt =
     (let login = (\<lambda>v. (or_else (vl_user v) user, or_else (vl_password v) pw)) in
      if hint = Some ''cisco_ios'' then (case login (do_cisco opt) of (u, p) \<Rightarrow>
        Napalm_Driver (new_cisco host u p (vl_enable (do_cisco opt)) (do_cisco_driver opt) (do_cisco_key_file opt)
          (do_cisco_read_timeout opt) (do_cisco_delay opt)))
      else if hint = Some ''arista_eos'' then (case login (do_arista opt) of (u, p) \<Rightarrow>
        Napalm_Driver (new_arista host u p (vl_enable (do_arista opt)) (do_arista_transport opt) (do_arista_port opt)))
      else if hint = Some ''aruba_aos8'' then (case login (do_aos8 opt) of (u, p) \<Rightarrow>
        Aruba_AOS8 (new_aos8 host u p (vl_enable (do_aos8 opt)) (do_aos8_mode opt)))
      else if hint = Some ''aruba_os'' then (case login (do_aruba_os opt) of (u, p) \<Rightarrow>
        Aruba_OS (new_aruba_os host u p (vl_enable (do_aruba_os opt))))
      else Aruba_CX (new_cx host user pw verify preferred))"

subsection \<open>What the tasks rely on\<close>

text \<open>
  \<open>with driver_for(...) as drv\<close>: login on entry, whatever its result, and logout on exit.
\<close>

definition with_session :: "('s \<Rightarrow> bool \<times> 's) \<Rightarrow> ('s \<Rightarrow> 's) \<Rightarrow> ('s \<Rightarrow> 'a \<times> 's) \<Rightarrow> 's \<Rightarrow> 'a \<times> 's" where
  "with_session login logout body s = (case body (snd (login s)) of (x, s') \<Rightarrow> (x, logout s'))"

locale switch_driver =
  fixes login :: "device_side \<Rightarrow> 's \<Rightarrow> bool \<times> 's"
    and logout :: "device_side \<Rightarrow> 's \<Rightarrow> 's"
    and logged_in :: "'s \<Rightarrow> bool"
    and cli :: "device_side \<Rightarrow> string \<Rightarrow> 's \<Rightarrow> string option \<times> 's"
    and save :: "device_side \<Rightarrow> 's \<Rightarrow> bool \<times> 's"
    and sound :: "'s \<Rightarrow> bool"
    and untried :: "'s \<Rightarrow> bool"
  assumes login_result: "sound s \<Longrightarrow> untried s \<Longrightarrow> login w s = (ok, s') \<Longrightarrow> logged_in s' = ok \<and> sound s'"
    and failed_login: "sound s \<Longrightarrow> untried s \<Longrightarrow> login w s = (False, s') \<Longrightarrow> fst (cli w' cmd s') = None \<and> \<not> fst (save w' s')"
    and calls_sound: "sound s \<Longrightarrow> sound (snd (cli w cmd s))" "sound s \<Longrightarrow> sound (snd (save w s))"
    and logout_off: "sound s \<Longrightarrow> \<not> logged_in (logout w s)"
begin

text \<open>Whatever a body of such calls does, the session is closed when the block is left.\<close>

lemma block_closes:
  assumes "sound s" "untried s" "\<And>t. sound t \<Longrightarrow> sound (snd (body t))"
  shows "\<not> logged_in (snd (with_session (login w) (logout w) body s))"
proof -
  obtain ok s1 where l: "login w s = (ok, s1)" by fastforce
  have "sound s1" using login_result [OF assms(1,2) l] by blast
  then show ?thesis using assms(3) logout_off by (simp add: with_session_def l split_beta)
qed

text \<open>Output of a command means that the login went through.\<close>

lemma output_needs_login:
  assumes "sound s" "untried s" "fst (with_session (login w) (logout w) (cli w cmd) s) = Some out"
  shows "fst (login w s)"
proof (rule ccontr)
  assume "\<not> fst (login w s)"
  then obtain s1 where "login w s = (False, s1)" by (cases "login w s") simp
  then show False using failed_login [OF assms(1,2)] assms(3) by (simp add: with_session_def split_beta)
qed

end

subsection \<open>The drivers keep the contract\<close>

definition cx_sound :: "cx \<Rightarrow> bool" where
  "cx_sound s = (cx_logged_in s \<longrightarrow> cx_base s \<noteq> None)"

lemma try_versions_sound:
  "cx_base s = None \<Longrightarrow> \<not> cx_logged_in s \<Longrightarrow> try_versions net redact vs s = (ok, s') \<Longrightarrow>
   cx_logged_in s' = ok \<and> (cx_base s' = None \<longleftrightarrow> \<not> ok)"
proof (induction vs arbitrary: s)
  case (Cons v vs)
  obtain a s1 where send: "cx_send net (login_request s v) s = (a, s1)" by fastforce
  then have s1: "cx_base s1 = None" "\<not> cx_logged_in s1"
    using send_result [OF send] Cons.prems by auto
  show ?case
  proof (cases a)
    case (Raises e)
    then show ?thesis using Cons.prems send s1 Cons.IH [of "s1\<lparr>cx_error := redact e\<rparr>"]
      by (auto simp: Let_def split: if_splits)
  next
    case (Answer r)
    then show ?thesis using Cons.prems send s1 Cons.IH [of s1] by (auto simp: logged_in_as_def split: if_splits)
  qed
qed auto

lemma post_frame:
  "cx_base (snd (cx_post net redact e h j s)) = cx_base s \<and> cx_logged_in (snd (cx_post net redact e h j s)) = cx_logged_in s"
  "cx_base (snd (cx_put net redact e p t s)) = cx_base s \<and> cx_logged_in (snd (cx_put net redact e p t s)) = cx_logged_in s"
  by (auto simp: cx_post_def cx_put_def failed_with_def cx_send_def Let_def split: option.splits http_answer.splits)

lemma cx_write_snd:
  "\<exists>h. snd (cx_cli net redact cmd s) = snd (cx_post net redact ''cli'' h (JObj [(''cmd'', JStr cmd)]) s)"
  "\<exists>p. snd (cx_save net redact s) = snd (cx_put net redact config_endpoint p 60 s)"
  unfolding cx_cli_def cx_save_def Let_def split_beta snd_conv by (rule exI, rule refl)+

lemma cx_write_frame:
  "cx_base (snd (cx_cli net redact cmd s)) = cx_base s \<and> cx_logged_in (snd (cx_cli net redact cmd s)) = cx_logged_in s"
  "cx_base (snd (cx_save net redact s)) = cx_base s \<and> cx_logged_in (snd (cx_save net redact s)) = cx_logged_in s"
  using cx_write_snd(1) [of net redact cmd s] cx_write_snd(2) [of net redact s] by (metis post_frame)+

lemma map_prod_eq: "map_prod id f p = (a, b) \<longleftrightarrow> (\<exists>c. p = (a, c) \<and> b = f c)"
  by (cases p) auto

interpretation cx_driver: switch_driver
  "\<lambda>w. cx_login (ds_http w) (ds_redact w)" "\<lambda>w. cx_logout (ds_http w)" cx_logged_in
  "\<lambda>w. cx_cli (ds_http w) (ds_redact w)" "\<lambda>w. cx_save (ds_http w) (ds_redact w)" cx_sound
  "\<lambda>s. cx_base s = None \<and> \<not> cx_logged_in s"
proof
  fix w w' s ok s' cmd
  show "cx_sound s \<Longrightarrow> cx_base s = None \<and> \<not> cx_logged_in s \<Longrightarrow> cx_login (ds_http w) (ds_redact w) s = (ok, s') \<Longrightarrow>
      cx_logged_in s' = ok \<and> cx_sound s'"
    using try_versions_sound [of s "ds_http w" "ds_redact w" "cx_versions s" ok s'] by (simp add: cx_login_def cx_sound_def)
  show "cx_sound s \<Longrightarrow> cx_base s = None \<and> \<not> cx_logged_in s \<Longrightarrow> cx_login (ds_http w) (ds_redact w) s = (False, s') \<Longrightarrow>
      fst (cx_cli (ds_http w') (ds_redact w') cmd s') = None \<and> \<not> fst (cx_save (ds_http w') (ds_redact w') s')"
    using try_versions_sound [of s "ds_http w" "ds_redact w" "cx_versions s" False s']
    by (simp add: cx_login_def cx_cli_def cx_post_def cx_save_def cx_put_def Let_def status_is_def)
  show "cx_sound s \<Longrightarrow> cx_sound (snd (cx_cli (ds_http w) (ds_redact w) cmd s))"
    "cx_sound s \<Longrightarrow> cx_sound (snd (cx_save (ds_http w) (ds_redact w) s))"
    by (simp_all add: cx_sound_def cx_write_frame)
  show "cx_sound s \<Longrightarrow> \<not> cx_logged_in (cx_logout (ds_http w) s)"
    by (auto simp: cx_sound_def cx_logout_def split: option.splits prod.splits)
qed

interpretation napalm_driver: switch_driver
  "\<lambda>w. napalm_login (ds_napalm w)" "\<lambda>w. napalm_logout" np_connected
  "\<lambda>w. napalm_cli (ds_redact w) (ds_napalm w)" "\<lambda>w. napalm_save (ds_redact w) (ds_napalm w)" "\<lambda>_. True" "\<lambda>s. \<not> np_connected s"
  by unfold_locales (auto simp: napalm_login_def napalm_logout_def napalm_cli_def napalm_save_def napalm_call_def
      split: option.splits)

interpretation aruba_os_driver: switch_driver
  "\<lambda>w. netmiko_login (ds_redact w) (ds_netmiko w)" "\<lambda>w. netmiko_logout" nk_connected
  "\<lambda>w. netmiko_send (ds_redact w) (ds_netmiko w)" "\<lambda>w. aruba_os_save (ds_redact w) (ds_netmiko w)" "\<lambda>_. True" "\<lambda>s. \<not> nk_connected s"
  by unfold_locales (auto simp: netmiko_login_def netmiko_logout_def netmiko_send_def aruba_os_save_def split: option.splits)

interpretation aos8_driver: switch_driver
  "\<lambda>w. netmiko_login (ds_redact w) (ds_netmiko w)" "\<lambda>w. netmiko_logout" nk_connected
  "\<lambda>w. netmiko_send (ds_redact w) (ds_netmiko w)" "\<lambda>w. aos8_save (ds_redact w) (ds_netmiko w)" "\<lambda>_. True" "\<lambda>s. \<not> nk_connected s"
  by unfold_locales (auto simp: netmiko_login_def netmiko_logout_def netmiko_send_def aos8_save_def split: option.splits)

definition drv_sound :: "driver \<Rightarrow> bool" where
  "drv_sound d = (case d of Aruba_CX s \<Rightarrow> cx_sound s | _ \<Rightarrow> True)"

definition drv_untried :: "driver \<Rightarrow> bool" where
  "drv_untried d = (case d of Aruba_CX s \<Rightarrow> cx_base s = None \<and> \<not> cx_logged_in s | _ \<Rightarrow> \<not> drv_logged_in d)"

lemmas drv_defs = drv_login_def drv_logout_def drv_logged_in_def drv_cli_def drv_save_def drv_sound_def drv_untried_def

interpretation drv: switch_driver drv_login drv_logout drv_logged_in drv_cli drv_save drv_sound drv_untried
proof
  fix w w' d ok d' cmd
  assume sound: "drv_sound d"
  show "drv_untried d \<Longrightarrow> drv_login w d = (ok, d') \<Longrightarrow> drv_logged_in d' = ok \<and> drv_sound d'"
  proof (cases d)
    case (Aruba_CX s)
    then show "drv_untried d \<Longrightarrow> drv_login w d = (ok, d') \<Longrightarrow> drv_logged_in d' = ok \<and> drv_sound d'"
      using cx_driver.login_result [of s w] sound by (auto simp: drv_defs map_prod_eq)
  next
    case (Napalm_Driver s)
    then show "drv_untried d \<Longrightarrow> drv_login w d = (ok, d') \<Longrightarrow> drv_logged_in d' = ok \<and> drv_sound d'"
      using napalm_driver.login_result [of s w] by (auto simp: drv_defs map_prod_eq)
  next
    case (Aruba_OS s)
    then show "drv_untried d \<Longrightarrow> drv_login w d = (ok, d') \<Longrightarrow> drv_logged_in d' = ok \<and> drv_sound d'"
      using aruba_os_driver.login_result [of s w] by (auto simp: drv_defs map_prod_eq)
  next
    case (Aruba_AOS8 s)
    then show "drv_untried d \<Longrightarrow> drv_login w d = (ok, d') \<Longrightarrow> drv_logged_in d' = ok \<and> drv_sound d'"
      using aos8_driver.login_result [of s w] by (auto simp: drv_defs map_prod_eq)
  qed
  show "drv_untried d \<Longrightarrow> drv_login w d = (False, d') \<Longrightarrow> fst (drv_cli w' cmd d') = None \<and> \<not> fst (drv_save w' d')"
  proof (cases d)
    case (Aruba_CX s)
    then show "drv_untried d \<Longrightarrow> drv_login w d = (False, d') \<Longrightarrow> fst (drv_cli w' cmd d') = None \<and> \<not> fst (drv_save w' d')"
      using cx_driver.failed_login [of s w] sound by (auto simp: drv_defs map_prod_eq)
  next
    case (Napalm_Driver s)
    then show "drv_untried d \<Longrightarrow> drv_login w d = (False, d') \<Longrightarrow> fst (drv_cli w' cmd d') = None \<and> \<not> fst (drv_save w' d')"
      using napalm_driver.failed_login [of s w] by (auto simp: drv_defs map_prod_eq)
  next
    case (Aruba_OS s)
    then show "drv_untried d \<Longrightarrow> drv_login w d = (False, d') \<Longrightarrow> fst (drv_cli w' cmd d') = None \<and> \<not> fst (drv_save w' d')"
      using aruba_os_driver.failed_login [of s w] by (auto simp: drv_defs map_prod_eq)
  next
    case (Aruba_AOS8 s)
    then show "drv_untried d \<Longrightarrow> drv_login w d = (False, d') \<Longrightarrow> fst (drv_cli w' cmd d') = None \<and> \<not> fst (drv_save w' d')"
      using aos8_driver.failed_login [of s w] by (auto simp: drv_defs map_prod_eq)
  qed
  show "drv_sound (snd (drv_cli w cmd d))" "drv_sound (snd (drv_save w d))"
    using sound cx_driver.calls_sound by (cases d; simp add: drv_defs)+
  show "\<not> drv_logged_in (drv_logout w d)"
    using sound cx_driver.logout_off napalm_driver.logout_off aruba_os_driver.logout_off aos8_driver.logout_off
    by (cases d) (simp_all add: drv_defs)
qed

lemma new_driver: "drv_sound (driver_for host user pw verify pref hint opt)" "drv_untried (driver_for host user pw verify pref hint opt)"
  by (simp_all add: driver_for_def drv_defs cx_sound_def new_cx_def new_cisco_def new_arista_def new_aos8_def
      new_aruba_os_def new_netmiko_def)

text \<open>
  The credentials of one vendor do not reach a device of another: the driver for a host does not
  depend on the login, the enable secret or the key of a vendor that the hint does not name.
\<close>

theorem vendor_secrets_apart:
  "hint \<noteq> Some ''cisco_ios'' \<Longrightarrow> driver_for host user pw verify pref hint (opt\<lparr>do_cisco := v, do_cisco_key_file := k\<rparr>) =
     driver_for host user pw verify pref hint opt"
  "hint \<noteq> Some ''arista_eos'' \<Longrightarrow> driver_for host user pw verify pref hint (opt\<lparr>do_arista := v\<rparr>) =
     driver_for host user pw verify pref hint opt"
  "hint \<noteq> Some ''aruba_os'' \<Longrightarrow> driver_for host user pw verify pref hint (opt\<lparr>do_aruba_os := v\<rparr>) =
     driver_for host user pw verify pref hint opt"
  "hint \<noteq> Some ''aruba_aos8'' \<Longrightarrow> driver_for host user pw verify pref hint (opt\<lparr>do_aos8 := v\<rparr>) =
     driver_for host user pw verify pref hint opt"
  by (simp_all add: driver_for_def)

lemma driver_vendor:
  "drv_vendor (driver_for host user pw verify pref hint opt) =
     (if hint \<in> {Some ''cisco_ios'', Some ''arista_eos'', Some ''aruba_aos8'', Some ''aruba_os''} then the hint else ''aruba_cx'')"
  by (simp add: driver_for_def drv_vendor_def napalm_key_def new_cisco_def new_arista_def)

text \<open>
  With a key file and no Cisco password the passphrase is the default password, not the empty one
  that an unencrypted key needs.
\<close>

lemma key_gets_default_password:
  "vl_password (do_cisco opt) = [] \<Longrightarrow> driver_for host user pw verify pref (Some ''cisco_ios'') opt = Napalm_Driver s \<Longrightarrow>
   na_password (np_args s) = pw"
  by (auto simp: driver_for_def new_cisco_def)

text \<open>A failed connection over NAPALM keeps the text of the exception as it is, unmasked.\<close>

lemma napalm_login_unmasked:
  "nb_import box = None \<Longrightarrow> nb_driver box (na_driver (np_args s)) = None \<Longrightarrow> nb_open box (np_args s) = Some e \<Longrightarrow>
   np_error (snd (napalm_login box s)) = exc_text e"
  by (simp add: napalm_login_def)

text \<open>A controller in flash mode hands out its archive without the login of the driver.\<close>

lemma flash_needs_no_login:
  "nk_flash_mode s \<Longrightarrow> \<not> nk_connected s \<Longrightarrow> fb_import (kb_flash box) = None \<Longrightarrow> fb_connect (kb_flash box) = None \<Longrightarrow>
   first_copy (fb_sftp (kb_flash box)) = Some data \<Longrightarrow> fst (aos8_config redact box s) = Some data"
  by (simp add: aos8_config_def pull_flash_def netmiko_send_def)

theorem vendor_secrets_apart_witness:
  "driver_for ''10.0.0.1'' ''admin'' ''pw'' False None (Some ''arista_eos'')
     (default_options\<lparr>do_cisco := \<lparr>vl_user = ''ios'', vl_password = ''secret'', vl_enable = ''en''\<rparr>, do_cisco_key_file := ''/k''\<rparr>) =
   driver_for ''10.0.0.1'' ''admin'' ''pw'' False None (Some ''arista_eos'') default_options"
  by (rule vendor_secrets_apart(1)) simp

end
