(* ===== verification/Backup_Files.thy ===== *)
theory Backup_Files
  imports Agent_State Secrets
begin

text \<open>
  The backup files on disk: path names, the directory tree as far as \<open>aruba_agent/tasks/backup.py\<close>
  uses it, the write of one backup with its checksum, the rotation, \<open>verify_backups\<close> and
  \<open>decrypt_backup\<close>.

  File contents are byte strings.  SHA-256 is a parameter, a function to hexadecimal text, and
  Fernet the one of \<open>Secrets\<close> on bytes.  The directories of the hosts hold files only, and the
  names of hosts hold none of the characters \<open>* ? [\<close> that \<open>glob\<close> gives a meaning.
\<close>

subsection \<open>Paths\<close>

definition slash :: char where "slash = CHR ''/''"

definition path_join :: "string \<Rightarrow> string \<Rightarrow> string" where
  "path_join a b = (if startswith b [slash] then b
     else if a = [] \<or> endswith a [slash] then a @ b else a @ slash # b)"

text \<open>\<open>os.path.dirname\<close> and \<open>basename\<close>.\<close>

definition path_head :: "string \<Rightarrow> string" where
  "path_head p = rev (dropWhile (\<lambda>c. c \<noteq> slash) (rev p))"

definition dirname :: "string \<Rightarrow> string" where
  "dirname p = (let h = path_head p in
     if list_all (\<lambda>c. c = slash) h then h else rev (dropWhile (\<lambda>c. c = slash) (rev h)))"

definition basename :: "string \<Rightarrow> string" where
  "basename p = rev (takeWhile (\<lambda>c. c \<noteq> slash) (rev p))"

subsection \<open>The tree\<close>

record stored_file =
  sf_bytes :: string
  sf_mtime :: rat

record tree =
  t_files :: "(string, stored_file) dict"
  t_dirs :: "string list"

text \<open>\<open>os.listdir\<close>; the order of the dictionary is the order of the listing.\<close>

definition in_dir :: "string \<Rightarrow> string \<Rightarrow> bool" where
  "in_dir d p = (let pre = path_join d [] in
     startswith p pre \<and> length pre < length p \<and> slash \<notin> set (drop (length pre) p))"

definition listdir :: "tree \<Rightarrow> string \<Rightarrow> string list" where
  "listdir t d = map (drop (length (path_join d []))) (filter (in_dir d) (dkeys (t_files t)))"

text \<open>\<open>os.makedirs(d, exist_ok=True)\<close>: the directory and its ancestors.\<close>

definition dir_chain :: "string \<Rightarrow> string list" where
  "dir_chain d = filter (\<lambda>p. p \<noteq> []) (map (\<lambda>i. take i d) (filter (\<lambda>i. i = length d \<or> d ! i = slash) [0..<Suc (length d)]))"

definition makedirs :: "string \<Rightarrow> tree \<Rightarrow> tree" where
  "makedirs d t = t\<lparr>t_dirs := t_dirs t @ filter (\<lambda>p. p \<notin> set (t_dirs t)) (dir_chain d)\<rparr>"

definition no_such_file :: "string \<Rightarrow> string" where
  "no_such_file p = ''[Errno 2] No such file or directory: '' @ [CHR 0x27] @ p @ [CHR 0x27]"

text \<open>
  \<open>open(p, "wb")\<close> and \<open>write\<close>.  A fault is the text of the exception, with the number of bytes that
  reached the file when it was opened before the failure.
\<close>

type_synonym io_fault = "(string \<times> nat option) option"

definition write_file :: "io_fault \<Rightarrow> rat \<Rightarrow> string \<Rightarrow> string \<Rightarrow> tree \<Rightarrow> string option \<times> tree" where
  "write_file fault now p bytes t =
     (let put = (\<lambda>b. t\<lparr>t_files := dset p \<lparr>sf_bytes = b, sf_mtime = now\<rparr> (t_files t)\<rparr>) in
      if dirname p \<notin> set (t_dirs t) then (Some (no_such_file p), t)
      else case fault of
        None \<Rightarrow> (None, put bytes)
      | Some (e, None) \<Rightarrow> (Some e, t)
      | Some (e, Some k) \<Rightarrow> (Some e, put (take k bytes)))"

text \<open>
  The same for \<open>open(p, "w", encoding="ascii")\<close>: a text that is not ASCII leaves an empty file and
  the exception \<open>unenc\<close>.
\<close>

definition is_ascii :: "string \<Rightarrow> bool" where
  "is_ascii s = list_all (\<lambda>c. of_char c < (128 :: nat)) s"

definition write_ascii :: "io_fault \<Rightarrow> string \<Rightarrow> rat \<Rightarrow> string \<Rightarrow> string \<Rightarrow> tree \<Rightarrow> string option \<times> tree" where
  "write_ascii fault unenc now p s t =
     (if is_ascii s \<or> (\<exists>e \<in> set_option fault. snd e = None) then write_file fault now p s t
      else (case write_file None now p [] t of (Some e, t') \<Rightarrow> (Some e, t') | (None, t') \<Rightarrow> (Some unenc, t')))"

definition remove_file :: "string \<Rightarrow> tree \<Rightarrow> tree" where
  "remove_file p t = t\<lparr>t_files := ddel p (t_files t)\<rparr>"

subsection \<open>Rotation\<close>

definition cfg_suffix :: string where "cfg_suffix = ''.cfg''"
definition enc_suffix :: string where "enc_suffix = ''.cfg.enc''"
definition sha_suffix :: string where "sha_suffix = ''.sha256''"
definition backup_infix :: string where "backup_infix = ''-startup-config-''"

text \<open>\<open>glob\<close> on the pattern \<open>hostname-startup-config-*suffix\<close> in \<open>host_dir\<close>.\<close>

definition name_matches :: "string \<Rightarrow> string \<Rightarrow> string \<Rightarrow> bool" where
  "name_matches pre suf n = (length pre + length suf \<le> length n \<and> startswith n pre \<and> endswith n suf)"

definition glob_in :: "tree \<Rightarrow> string \<Rightarrow> string \<Rightarrow> string \<Rightarrow> string list" where
  "glob_in t host_dir pre suf = map (path_join host_dir) (filter (name_matches pre suf) (listdir t host_dir))"

definition mtime_of :: "tree \<Rightarrow> string \<Rightarrow> rat" where
  "mtime_of t p = (case dget (t_files t) p of None \<Rightarrow> 0 | Some f \<Rightarrow> sf_mtime f)"

text \<open>\<open>files[:-n]\<close>: for \<open>n = 0\<close> the empty slice, for a negative \<open>n\<close> the first ones.\<close>

definition before_last :: "int \<Rightarrow> 'a list \<Rightarrow> 'a list" where
  "before_last n xs = (if 0 < n then take (length xs - nat n) xs else take (nat (- n)) xs)"

definition backups_by_age :: "tree \<Rightarrow> string \<Rightarrow> string \<Rightarrow> string list" where
  "backups_by_age t host_dir hostname = sort_key (mtime_of t)
     (glob_in t host_dir (hostname @ backup_infix) cfg_suffix @ glob_in t host_dir (hostname @ backup_infix) enc_suffix)"

definition remove_unless :: "(string \<Rightarrow> bool) \<Rightarrow> string \<Rightarrow> tree \<Rightarrow> tree" where
  "remove_unless stuck p t = (if stuck p then t else remove_file p t)"

definition remove_old :: "(string \<Rightarrow> bool) \<Rightarrow> string \<Rightarrow> tree \<Rightarrow> tree" where
  "remove_old stuck p t = (let t1 = remove_unless stuck p t; side = p @ sha_suffix in
     if has_key (t_files t1) side then remove_unless stuck side t1 else t1)"

definition cleanup :: "(string \<Rightarrow> bool) \<Rightarrow> int \<Rightarrow> string \<Rightarrow> string \<Rightarrow> tree \<Rightarrow> tree" where
  "cleanup stuck retention host_dir hostname t =
     fold (remove_old stuck) (before_last retention (backups_by_age t host_dir hostname)) t"

subsection \<open>Verification and restore\<close>

text \<open>\<open>os.walk\<close> below \<open>base\<close>, one directory after the other.\<close>

definition walk :: "tree \<Rightarrow> string \<Rightarrow> (string \<times> string) list" where
  "walk t base = concat (map (\<lambda>d. map (\<lambda>n. (d, n)) (listdir t d))
     (base # filter (\<lambda>d. d \<noteq> base \<and> startswith d (path_join base [])) (t_dirs t)))"

definition is_backup_name :: "string \<Rightarrow> bool" where
  "is_backup_name fn = (endswith fn cfg_suffix \<or> endswith fn enc_suffix)"

definition first_word :: "string \<Rightarrow> string" where
  "first_word s = takeWhile (\<lambda>c. \<not> is_ws c) (lstrip s)"

text \<open>
  One file: \<open>Inr None\<close> without a sidecar, \<open>Inr (Some b)\<close> when it was checked.  A sidecar that is
  not ASCII raises \<open>UnicodeDecodeError\<close>, a \<open>ValueError\<close>, which the handler does not catch.
\<close>

definition check_file :: "(string \<Rightarrow> string) \<Rightarrow> tree \<Rightarrow> string \<Rightarrow> bool option result" where
  "check_file sha t p = (case dget (t_files t) (p @ sha_suffix) of
       None \<Rightarrow> Inr None
     | Some s \<Rightarrow>
         if \<not> is_ascii (sf_bytes s) then Inl ValueError
         else if strip (sf_bytes s) = [] then Inr (Some False)
         else case dget (t_files t) p of
           None \<Rightarrow> Inr (Some False)
         | Some f \<Rightarrow> Inr (Some (lower (first_word (sf_bytes s)) = sha (sf_bytes f))))"

definition verify_step ::
    "(string \<Rightarrow> string) \<Rightarrow> tree \<Rightarrow> string \<times> string \<Rightarrow> nat \<times> nat \<times> string list \<Rightarrow> (nat \<times> nat \<times> string list) result" where
  "verify_step sha t e acc = (case (e, acc) of ((d, fn), (ok, bad, bad_paths)) \<Rightarrow>
     if \<not> is_backup_name fn then Inr acc
     else bind_r (check_file sha t (path_join d fn)) (\<lambda>r. Inr (case r of
         None \<Rightarrow> acc
       | Some True \<Rightarrow> (ok + 1, bad, bad_paths)
       | Some False \<Rightarrow> (ok, bad + 1, bad_paths @ [path_join d fn]))))"

definition verify_backups :: "(string \<Rightarrow> string) \<Rightarrow> tree \<Rightarrow> string \<Rightarrow> (nat \<times> nat \<times> string list) result" where
  "verify_backups sha t base = (if base \<notin> set (t_dirs t) then Inr (0, 0, [])
     else fold_r (verify_step sha t) (walk t base) (0, 0, []))"

text \<open>\<open>decrypt_backup\<close>; \<open>Inl\<close> is the message of the \<open>RuntimeError\<close>.  \<open>str(InvalidToken())\<close> is empty.\<close>

definition decrypt_backup :: "fernet option \<Rightarrow> tree \<Rightarrow> string \<Rightarrow> string + string" where
  "decrypt_backup inst t p = (case dget (t_files t) p of
       None \<Rightarrow> Inl (''Backup file not found: '' @ p)
     | Some f \<Rightarrow>
         if endswith p cfg_suffix \<and> \<not> endswith p enc_suffix then Inr (sf_bytes f)
         else case inst of
           None \<Rightarrow> Inl (p @ '' is encrypted but no master key is loaded. Configure /etc/aruba-agent/master.key (or pass --config so the agent can find it).'')
         | Some k \<Rightarrow> (case f_decrypt k (sf_bytes f) of
             Some plain \<Rightarrow> Inr plain
           | None \<Rightarrow> Inl (''Could not decrypt '' @ p @ '': . Wrong master key, corrupted file, or a backup that predates this master.key.'')))"

end
