(* ===== verification/Config_Diff.thy ===== *)
theory Config_Diff
  imports Backup_Files Py_Text
begin

text \<open>
  Change detection between backup versions, \<open>aruba_agent/config_diff.py\<close>.  The comparison is of
  decoded plaintext; \<open>difflib.unified_diff\<close>, which only lays the change out for the reader, is the
  parameter \<open>udiff\<close>: from the lines and the names of both sides to the lines of the diff.
\<close>

subsection \<open>Versions of a host\<close>

definition list_versions :: "tree \<Rightarrow> string \<Rightarrow> string \<Rightarrow> string list" where
  "list_versions t base hostname = (let d = path_join base hostname in
     if d \<notin> set (t_dirs t) then [] else rev (sort (filter is_backup_name (listdir t d))))"

definition read_version :: "fernet option \<Rightarrow> tree \<Rightarrow> string \<Rightarrow> string \<Rightarrow> string \<Rightarrow> string option" where
  "read_version inst t base hostname filename =
     (case decrypt_backup inst t (path_join (path_join base hostname) filename) of
        Inl _ \<Rightarrow> None | Inr bytes \<Rightarrow> Some (utf8_replace bytes))"

type_synonym differ = "string list \<Rightarrow> string list \<Rightarrow> string \<Rightarrow> string \<Rightarrow> string list"

definition unified :: "differ \<Rightarrow> string \<Rightarrow> string \<Rightarrow> string \<Rightarrow> string \<Rightarrow> string" where
  "unified udiff old new fromfile tofile = join newline (udiff (splitlines old) (splitlines new) fromfile tofile)"

definition diff_versions ::
    "differ \<Rightarrow> fernet option \<Rightarrow> tree \<Rightarrow> string \<Rightarrow> string \<Rightarrow> string \<Rightarrow> string \<Rightarrow> string option" where
  "diff_versions udiff inst t base hostname a b =
     (case (read_version inst t base hostname a, read_version inst t base hostname b) of
        (Some ta, Some tb) \<Rightarrow> Some (unified udiff ta tb a b)
      | _ \<Rightarrow> None)"

definition count_changes :: "string \<Rightarrow> nat \<times> nat" where
  "count_changes diff = (let ls = splitlines diff in
     (length (filter (\<lambda>l. startswith l ''+'' \<and> \<not> startswith l ''+++'') ls),
      length (filter (\<lambda>l. startswith l ''-'' \<and> \<not> startswith l ''---'') ls)))"

record change =
  ch_hostname :: string
  ch_prev :: string
  ch_curr :: string
  ch_changed :: bool
  ch_added :: nat
  ch_removed :: nat
  ch_diff :: string

definition changed_since_previous ::
    "differ \<Rightarrow> fernet option \<Rightarrow> tree \<Rightarrow> string \<Rightarrow> string \<Rightarrow> change option" where
  "changed_since_previous udiff inst t base hostname = (case list_versions t base hostname of
       newest # older # _ \<Rightarrow>
         (case (read_version inst t base hostname newest, read_version inst t base hostname older) of
            (Some tc, Some tp) \<Rightarrow>
              if tc = tp then Some \<lparr>ch_hostname = hostname, ch_prev = older, ch_curr = newest, ch_changed = False,
                ch_added = 0, ch_removed = 0, ch_diff = []\<rparr>
              else let diff = unified udiff tp tc older newest in
                (case count_changes diff of (added, removed) \<Rightarrow>
                  Some \<lparr>ch_hostname = hostname, ch_prev = older, ch_curr = newest, ch_changed = True,
                    ch_added = added, ch_removed = removed, ch_diff = diff\<rparr>)
          | _ \<Rightarrow> None)
     | _ \<Rightarrow> None)"

definition detect_changes :: "differ \<Rightarrow> fernet option \<Rightarrow> tree \<Rightarrow> string \<Rightarrow> string list \<Rightarrow> change list" where
  "detect_changes udiff inst t base hostnames =
     concat (map (\<lambda>h. case changed_since_previous udiff inst t base h of
         None \<Rightarrow> [] | Some c \<Rightarrow> if ch_changed c then [c] else [])
       (dedupe (filter (\<lambda>h. h \<noteq> []) hostnames)))"

subsection \<open>The report\<close>

definition ljust :: "nat \<Rightarrow> string \<Rightarrow> string" where
  "ljust n s = s @ replicate (n - length s) (CHR '' '')"

definition right_arrow :: string where
  "right_arrow = [CHR 0xE2, CHR 0x86, CHR 0x92]"

definition rule_line :: string where
  "rule_line = concat (replicate 60 [CHR 0xE2, CHR 0x94, CHR 0x80])"

text \<open>\<open>xs[:n]\<close>.\<close>

definition slice_to :: "int \<Rightarrow> 'a list \<Rightarrow> 'a list" where
  "slice_to n xs = (if 0 \<le> n then take (nat n) xs else take (length xs - nat (- n)) xs)"

definition truncated_body :: "int \<Rightarrow> string list \<Rightarrow> string list" where
  "truncated_body n body = (if n < int (length body)
     then slice_to n body @ [''... (diff truncated at '' @ int_str n @ '' lines; full diff in the web UI)'']
     else body)"

definition format_change_email :: "change list \<Rightarrow> int \<Rightarrow> string" where
  "format_change_email changes max_lines = (let cs = sort_key ch_hostname changes in join newline
     ([''Configuration changes detected on '' @ nat_str (length changes) @ '' device(s) in the latest backup:'' @ newline]
      @ map (\<lambda>c. ''  '' @ ljust 28 (ch_hostname c) @ '' +'' @ nat_str (ch_added c) @ '' / -''
          @ nat_str (ch_removed c) @ '' lines'') cs
      @ [[]]
      @ concat (map (\<lambda>c. [rule_line,
            ch_hostname c @ ''   ('' @ ch_prev c @ '' '' @ right_arrow @ '' '' @ ch_curr c @ '')'', rule_line]
          @ truncated_body max_lines (splitlines (ch_diff c)) @ [[]]) cs)))"

end
