(* ===== verification/Backup_Task.thy ===== *)
theory Backup_Task
  imports Config_Diff Detector Alert_Batcher Py_Float
begin

text \<open>
  The nightly backup, \<open>aruba_agent/tasks/backup.py\<close>: configuration, the list of devices, one visit
  to a device, the run over all of them with its report, and the mail about changed
  configurations.

  The session with a device (\<open>driver_for\<close>, a network conversation) is a record of its answers,
  an argument of the run; a call that raises answers \<open>Inl\<close> with the text of the exception.  The
  drivers' \<open>logout\<close> does not raise.  \<open>redact\<close>, the regular expressions that mask credentials in
  such texts, is an argument too.
\<close>

subsection \<open>Configuration\<close>

record device_login =
  dl_username :: string
  dl_password :: string
  dl_enable :: string

record backup_task =
  bt_ip_list :: string
  bt_path :: string
  bt_retention :: int
  bt_change_alerts :: bool
  bt_max_lines :: int
  bt_username :: string
  bt_password :: string
  bt_api_version :: string
  bt_cisco :: device_login
  bt_cisco_napalm :: string
  bt_cisco_key_file :: string
  bt_cisco_read_timeout :: int
  bt_cisco_delay_factor :: py_float
  bt_arubaos :: device_login
  bt_aos8 :: device_login
  bt_controllers_enabled :: bool
  bt_controllers_backup :: bool
  bt_controllers_vendor :: string
  bt_aos8_backup_mode :: string
  bt_controller_ips :: "string list"
  bt_arista :: device_login
  bt_arista_transport :: string
  bt_arista_port :: "int option"

definition re_split :: "string \<Rightarrow> string list" where
  "re_split v = filter (\<lambda>x. x \<noteq> [])
     (split_on (CHR '','') (map (\<lambda>c. if is_ws c then CHR '','' else c) v))"

definition controller_ip :: "string \<Rightarrow> string" where
  "controller_ip tok = (let m = map (\<lambda>c. if c = CHR ''='' then CHR '':'' else c) tok in strip (last (split_on (CHR '':'') m)))"

definition controller_ips :: "string \<Rightarrow> string list" where
  "controller_ips hosts = dedupe (filter (\<lambda>ip. ip \<noteq> []) (map controller_ip (re_split hosts)))"

definition device_login_of :: "fernet option \<Rightarrow> config \<Rightarrow> string \<Rightarrow> string \<Rightarrow> device_login result" where
  "device_login_of inst c sec enable_key =
     bind_r (config_get c sec ''username'' []) (\<lambda>user.
     bind_r (section_get inst c sec ''password'' []) (\<lambda>pw.
     bind_r (section_get inst c sec enable_key []) (\<lambda>en.
     Inr \<lparr>dl_username = strip user, dl_password = pw, dl_enable = en\<rparr>)))"

definition int_or :: "int \<Rightarrow> string \<Rightarrow> int" where
  "int_or d s = (case py_int s of None \<Rightarrow> d | Some n \<Rightarrow> n)"

definition flag :: "string \<Rightarrow> bool" where
  "flag s = (lower s = ''true'')"

text \<open>The options of the vendors, in the order the constructor reads them.\<close>

definition read_cisco :: "fernet option \<Rightarrow> config \<Rightarrow> backup_task \<Rightarrow> backup_task result" where
  "read_cisco inst c t = (let sec = ''credentials.cisco'' in
     bind_r (device_login_of inst c sec ''enable_secret'') (\<lambda>acc.
     bind_r (section_or c sec ''napalm_driver'' ''ios'') (\<lambda>napalm.
     bind_r (config_get c sec ''key_file'' []) (\<lambda>key_file.
     bind_r (section_or c sec ''read_timeout'' ''60'') (\<lambda>tmo.
     bind_r (section_or c sec ''global_delay_factor'' ''2'') (\<lambda>delay.
     Inr (t\<lparr>bt_cisco := acc, bt_cisco_napalm := strip napalm, bt_cisco_key_file := strip key_file,
       bt_cisco_read_timeout := int_or 60 tmo,
       bt_cisco_delay_factor := (case py_float delay of None \<Rightarrow> Fin 2 | Some d \<Rightarrow> d)\<rparr>)))))))"

definition read_aruba :: "fernet option \<Rightarrow> config \<Rightarrow> backup_task \<Rightarrow> backup_task result" where
  "read_aruba inst c t = (let sec = ''controllers'' in
     bind_r (device_login_of inst c ''credentials.aruba_os'' ''enable_secret'') (\<lambda>aos.
     bind_r (device_login_of inst c ''credentials.aos8'' ''enable_secret'') (\<lambda>aos8.
     bind_r (section_or c sec ''enabled'' ''false'') (\<lambda>en.
     bind_r (section_or c sec ''backup'' ''true'') (\<lambda>bk.
     bind_r (section_or c sec ''vendor'' ''aruba_aos8'') (\<lambda>vendor.
     bind_r (section_or c sec ''backup_mode'' ''flash'') (\<lambda>bmode.
     bind_r (config_get c sec ''hosts'' []) (\<lambda>hosts.
     Inr (t\<lparr>bt_arubaos := aos, bt_aos8 := aos8, bt_controllers_enabled := flag en, bt_controllers_backup := flag bk,
       bt_controllers_vendor := strip vendor, bt_aos8_backup_mode := strip bmode,
       bt_controller_ips := controller_ips hosts\<rparr>)))))))))"

definition read_arista :: "fernet option \<Rightarrow> config \<Rightarrow> backup_task \<Rightarrow> backup_task result" where
  "read_arista inst c t = (let sec = ''credentials.arista'' in
     bind_r (device_login_of inst c sec ''enable_password'') (\<lambda>acc.
     bind_r (section_or c sec ''transport'' ''https'') (\<lambda>transport.
     bind_r (config_get c sec ''port'' []) (\<lambda>port.
     Inr (t\<lparr>bt_arista := acc, bt_arista_transport := strip transport,
       bt_arista_port := (if strip port = [] then None else py_int port)\<rparr>)))))"

definition no_login :: device_login where
  "no_login = \<lparr>dl_username = [], dl_password = [], dl_enable = []\<rparr>"

definition new_backup_task :: "fernet option \<Rightarrow> config \<Rightarrow> backup_task result" where
  "new_backup_task inst c = (let sec = ''backup'' in
     bind_r (config_get c sec ''ip_list'' ''/etc/aruba-agent/ip_list.txt'') (\<lambda>ip_list.
     bind_r (config_get c sec ''backup_path'' ''/var/lib/aruba-agent/backups'') (\<lambda>path.
     bind_r (config_get c sec ''retention_days'' ''7'') (\<lambda>retention.
     case py_int retention of None \<Rightarrow> Inl ValueError | Some keep \<Rightarrow>
     bind_r (section_or c sec ''change_alerts'' ''true'') (\<lambda>alerts.
     bind_r (section_or c sec ''change_diff_max_lines'' ''80'') (\<lambda>lines.
     bind_r (config_get c ''credentials'' ''username'' ''admin'') (\<lambda>user.
     bind_r (section_get inst c ''credentials'' ''password'' []) (\<lambda>pw.
     bind_r (config_get c sec ''api_version'' []) (\<lambda>api.
     bind_r (read_cisco inst c \<lparr>bt_ip_list = ip_list, bt_path = path, bt_retention = keep,
         bt_change_alerts = flag (strip alerts), bt_max_lines = int_or 80 lines, bt_username = user, bt_password = pw,
         bt_api_version = api, bt_cisco = no_login, bt_cisco_napalm = [], bt_cisco_key_file = [],
         bt_cisco_read_timeout = 60, bt_cisco_delay_factor = Fin 2, bt_arubaos = no_login, bt_aos8 = no_login,
         bt_controllers_enabled = False, bt_controllers_backup = False, bt_controllers_vendor = [],
         bt_aos8_backup_mode = [], bt_controller_ips = [], bt_arista = no_login, bt_arista_transport = [],
         bt_arista_port = None\<rparr>) (\<lambda>t.
     bind_r (read_aruba inst c t) (read_arista inst c)))))))))))"

subsection \<open>The devices\<close>

text \<open>\<open>_load_ips\<close>; a missing list is logged and empty.\<close>

definition load_ips :: "string option \<Rightarrow> string list" where
  "load_ips content = (case content of None \<Rightarrow> []
     | Some text \<Rightarrow> map strip (filter (\<lambda>l. strip l \<noteq> [] \<and> \<not> startswith l ''#'')
         (split_on (CHR 0x0A) (universal_newlines text))))"

definition backup_targets :: "backup_task \<Rightarrow> string option \<Rightarrow> string list" where
  "backup_targets t content = (let ips = load_ips content in
     if bt_controllers_enabled t \<and> bt_controllers_backup t
     then ips @ filter (\<lambda>ip. ip \<notin> set ips) (sort (bt_controller_ips t)) else ips)"

subsection \<open>One device\<close>

type_synonym 'a answer = "string + 'a"

record visit =
  vs_open :: "unit answer"
  vs_vendor :: string
  vs_login :: "string option"
  vs_hostname :: "string answer"
  vs_save :: "string option answer"
  vs_config :: "(string \<times> string) answer"
  vs_mkdir :: "string option"
  vs_encrypt :: "string option"
  vs_write :: io_fault
  vs_sidecar :: io_fault
  vs_unencodable :: string
  vs_stuck :: "string \<Rightarrow> bool"
  vs_now :: datetime
  vs_mtime :: rat
  vs_nonce :: nat

record backup_env =
  be_cipher :: "fernet option"
  be_sha :: "string \<Rightarrow> string"
  be_redact :: "string \<Rightarrow> string"
  be_visit :: "nat \<Rightarrow> backup_task \<Rightarrow> string \<Rightarrow> string option \<Rightarrow> visit"

datatype outcome = Skipped | Failure string string | Saved string

text \<open>
  The session: host name and issue of a failure, or host name and configuration.  A failed answer
  of \<open>vs_login\<close> and \<open>vs_save\<close>, and the second part of \<open>vs_config\<close>, is \<open>drv.error\<close>.
\<close>

definition session_config :: "(string \<Rightarrow> string) \<Rightarrow> string \<Rightarrow> visit \<Rightarrow> (string \<times> string) + (string \<times> string)" where
  "session_config redact registered v = (let tag = vs_vendor v @ ''): '' in case vs_open v of
       Inl e \<Rightarrow> Inl (''N/A'', redact e)
     | Inr _ \<Rightarrow> (case vs_login v of
         Some err \<Rightarrow> Inl (''N/A'', ''Login failed ('' @ tag @ err)
       | None \<Rightarrow> (case (if registered \<noteq> [] then Inr registered else vs_hostname v) of
           Inl e \<Rightarrow> Inl (''N/A'', redact e)
         | Inr h0 \<Rightarrow> let h = or_else h0 ''unknown'' in (case vs_save v of
             Inl e \<Rightarrow> Inl (h, redact e)
           | Inr (Some err) \<Rightarrow> Inl (h, ''Save running'' @ right_arrow @ ''startup failed ('' @ tag @ err)
           | Inr None \<Rightarrow> (case vs_config v of
               Inl e \<Rightarrow> Inl (h, redact e)
             | Inr (data, err) \<Rightarrow> if data = [] then Inl (h, ''Config download failed ('' @ tag @ err) else Inr (h, data))))))"

definition backup_stamp :: "datetime \<Rightarrow> string" where
  "backup_stamp d = padded 4 (year d) @ ''-'' @ padded 2 (month d) @ ''-'' @ padded 2 (day d) @ ''_''
     @ padded 2 (hour d) @ padded 2 (minute d) @ padded 2 (second d)"

definition backup_name :: "string \<Rightarrow> datetime \<Rightarrow> string \<Rightarrow> string" where
  "backup_name hostname d suf = hostname @ backup_infix @ backup_stamp d @ suf"

text \<open>From the configuration to the file, its checksum and the rotation; \<open>Some\<close> is the issue.\<close>

definition store_backup ::
    "backup_env \<Rightarrow> backup_task \<Rightarrow> string \<Rightarrow> string \<Rightarrow> visit \<Rightarrow> tree \<Rightarrow> string option \<times> tree" where
  "store_backup env task hostname data v t =
     (let host_dir = path_join (bt_path task) hostname in
      case vs_mkdir v of
        Some e \<Rightarrow> (Some (be_redact env e), t)
      | None \<Rightarrow> let t1 = makedirs host_dir t in
          if be_cipher env \<noteq> None \<and> vs_encrypt v \<noteq> None
          then (map_option (\<lambda>e. ''Encryption failed: '' @ e) (vs_encrypt v), t1)
          else let suf = (if be_cipher env = None then cfg_suffix else enc_suffix);
              on_disk = (case be_cipher env of None \<Rightarrow> data | Some f \<Rightarrow> f_encrypt f (vs_nonce v) data);
              p = path_join host_dir (backup_name hostname (vs_now v) suf)
            in (case write_file (vs_write v) (vs_mtime v) p on_disk t1 of
                (Some e, t2) \<Rightarrow> (Some (be_redact env e), t2)
              | (None, t2) \<Rightarrow>
                  (case write_ascii (vs_sidecar v) (vs_unencodable v) (vs_mtime v) (p @ sha_suffix)
                      (be_sha env on_disk @ ''  '' @ basename p @ newline) t2 of
                     (Some e, t3) \<Rightarrow> (Some (be_redact env e), t3)
                   | (None, t3) \<Rightarrow> (None, cleanup (vs_stuck v) (bt_retention task) host_dir hostname t3))))"

definition skip_modes :: "string list" where
  "skip_modes = [''icmp'', ''snmp_ro'']"

definition skips_device :: "backup_task \<Rightarrow> agent_state \<Rightarrow> string \<Rightarrow> bool" where
  "skips_device task st ip = (get_mode_for_host st ip \<in> set skip_modes \<and> ip \<notin> set (bt_controller_ips task))"

definition vendor_hint :: "backup_task \<Rightarrow> agent_state \<Rightarrow> string \<Rightarrow> string option" where
  "vendor_hint task st ip = (if ip \<in> set (bt_controller_ips task) then Some (bt_controllers_vendor task)
     else if get_vendor_for_host st ip = [] then None else Some (get_vendor_for_host st ip))"

definition visit_to :: "backup_env \<Rightarrow> backup_task \<Rightarrow> agent_state \<Rightarrow> nat \<Rightarrow> string \<Rightarrow> visit" where
  "visit_to env task st i ip = be_visit env i task ip (vendor_hint task st ip)"

definition session_with ::
    "backup_env \<Rightarrow> backup_task \<Rightarrow> agent_state \<Rightarrow> nat \<Rightarrow> string \<Rightarrow> (string \<times> string) + (string \<times> string)" where
  "session_with env task st i ip =
     session_config (be_redact env) (get_hostname_for_host st ip) (visit_to env task st i ip)"

definition backup_one ::
    "backup_env \<Rightarrow> backup_task \<Rightarrow> agent_state \<Rightarrow> nat \<Rightarrow> string \<Rightarrow> tree \<Rightarrow> outcome \<times> tree" where
  "backup_one env task st i ip t =
     (if skips_device task st ip then (Skipped, t)
      else case session_with env task st i ip of
        Inl (h, issue) \<Rightarrow> (Failure h issue, t)
      | Inr (h, data) \<Rightarrow> (case store_backup env task h data (visit_to env task st i ip) t of
          (Some issue, t') \<Rightarrow> (Failure h issue, t')
        | (None, t') \<Rightarrow> (Saved h, t')))"

subsection \<open>The run\<close>

fun backup_all ::
    "backup_env \<Rightarrow> backup_task \<Rightarrow> agent_state \<Rightarrow> nat \<Rightarrow> string list \<Rightarrow> tree \<Rightarrow> (string \<times> outcome) list \<times> tree" where
  "backup_all env task st i [] t = ([], t)"
| "backup_all env task st i (ip # ips) t = (case backup_one env task st i ip t of
     (r, t1) \<Rightarrow> (case backup_all env task st (Suc i) ips t1 of (rs, t2) \<Rightarrow> ((ip, r) # rs, t2)))"

fun saved_row :: "string \<times> outcome \<Rightarrow> (string \<times> string) list" where
  "saved_row (ip, Saved h) = [(ip, h)]"
| "saved_row (ip, r) = []"

fun failed_row :: "string \<times> outcome \<Rightarrow> (string \<times> string \<times> string) list" where
  "failed_row (ip, Failure h issue) = [(ip, h, issue)]"
| "failed_row (ip, r) = []"

definition saved_rows :: "(string \<times> outcome) list \<Rightarrow> (string \<times> string) list" where
  "saved_rows rs = concat (map saved_row rs)"

definition failed_rows :: "(string \<times> outcome) list \<Rightarrow> (string \<times> string \<times> string) list" where
  "failed_rows rs = concat (map failed_row rs)"

definition failed_json :: "string \<times> string \<times> string \<Rightarrow> json" where
  "failed_json r = (case r of (ip, h, issue) \<Rightarrow>
     JObj [(''ip'', JStr ip), (''hostname'', JStr h), (''issue'', JStr issue)])"

definition day_text :: "datetime \<Rightarrow> string" where
  "day_text d = padded 4 (year d) @ ''-'' @ padded 2 (month d) @ ''-'' @ padded 2 (day d)"

definition report_body :: "datetime \<Rightarrow> (string \<times> string) list \<Rightarrow> (string \<times> string \<times> string) list \<Rightarrow> string" where
  "report_body now ok bad =
     ''Aruba CX Config Backup '' @ em_dash @ '' '' @ day_text now @ '' '' @ padded 2 (hour now) @ '':'' @ padded 2 (minute now)
       @ '':'' @ padded 2 (second now) @ newline
     @ ''Total: '' @ nat_str (length ok + length bad) @ ''  |  OK: '' @ nat_str (length ok) @ ''  |  Failed: ''
       @ nat_str (length bad) @ newline
     @ (if ok = [] then [] else newline @ ''SUCCESSFUL:'' @ newline
         @ join newline (map (\<lambda>(ip, h). ''  '' @ ljust 16 ip @ ''  '' @ h) ok))
     @ (if bad = [] then [] else newline @ newline @ ''FAILED:'' @ newline
         @ join newline (map (\<lambda>(ip, h, issue). ''  '' @ ljust 16 ip @ ''  '' @ ljust 24 h @ ''  '' @ issue) bad))"

definition report_subject :: "datetime \<Rightarrow> string" where
  "report_subject now = ''[Network Agent] Config Backup Report '' @ em_dash @ '' '' @ day_text now"

definition alert_config_changes ::
    "differ \<Rightarrow> backup_env \<Rightarrow> backup_task \<Rightarrow> tree \<Rightarrow> string list \<Rightarrow> notifier \<Rightarrow> notifier" where
  "alert_config_changes udiff env task t hostnames n =
     (let changes = detect_changes udiff (be_cipher env) t (bt_path task) hostnames in
      if changes = [] then n
      else notifier_send (''[Network Agent] Config changed on '' @ nat_str (length changes) @ '' device(s)'')
        (format_change_email changes (bt_max_lines task)) n)"

record backup_world =
  bw_tree :: tree
  bw_state :: agent_state
  bw_notifier :: notifier

definition backup_run_task ::
    "differ \<Rightarrow> backup_env \<Rightarrow> backup_task \<Rightarrow> datetime \<Rightarrow> string option \<Rightarrow> backup_world \<Rightarrow> backup_world" where
  "backup_run_task udiff env task now content w =
     (let ips = backup_targets task content in
      if ips = [] then w
      else case backup_all env task (bw_state w) 0 ips (bw_tree w) of (rs, t) \<Rightarrow>
        let ok = saved_rows rs; bad = failed_rows rs;
            st = set_backup_result now (int (length ok)) (int (length bad)) (map failed_json bad) (bw_state w);
            n = notifier_send (report_subject now) (report_body now ok bad) (bw_notifier w);
            n' = (if bt_change_alerts task \<and> ok \<noteq> []
              then alert_config_changes udiff env task t (filter (\<lambda>h. h \<noteq> []) (map snd ok)) n else n)
        in \<lparr>bw_tree = t, bw_state = st, bw_notifier = n'\<rparr>)"

end
