(* ===== verification/Arp.thy ===== *)
theory Arp
  imports Drivers Backup_Task Scope
begin

text \<open>
  ARP discovery, \<open>aruba_agent/tasks/arp.py\<close>: one task per location that asks its routers for their
  ARP tables, writes the hosts in its subnets to a CSV file and keeps the newest files.

  What nmap prints, how a router answers and how the file system behaves are the environment of a
  run.  The name of the output directory holds none of the characters that \<open>glob\<close> interprets.
\<close>

subsection \<open>Configuration\<close>

record arp_task =
  at_name :: string
  at_routers :: "string list"
  at_ip_list :: string
  at_output_dir :: string
  at_retention :: int
  at_user :: string
  at_password :: string
  at_options :: driver_options

definition listed :: "string \<Rightarrow> string list" where
  "listed v = filter (\<lambda>r. r \<noteq> []) (map strip (split_on (CHR '','') v))"

definition arp_cisco :: "fernet option \<Rightarrow> config \<Rightarrow> driver_options \<Rightarrow> driver_options result" where
  "arp_cisco inst c opt = (let sec = ''credentials.cisco'' in
     bind_r (config_get c sec ''username'' []) (\<lambda>user.
     bind_r (section_get inst c sec ''password'' []) (\<lambda>pw.
     bind_r (section_get inst c sec ''enable_secret'' []) (\<lambda>en.
     bind_r (section_or c sec ''napalm_driver'' ''ios'') (\<lambda>napalm.
     bind_r (config_get c sec ''key_file'' []) (\<lambda>key.
     Inr (opt\<lparr>do_cisco := \<lparr>vl_user = strip user, vl_password = pw, vl_enable = en\<rparr>, do_cisco_driver := strip napalm,
       do_cisco_key_file := strip key\<rparr>)))))))"

definition arp_arista :: "fernet option \<Rightarrow> config \<Rightarrow> driver_options \<Rightarrow> driver_options result" where
  "arp_arista inst c opt = (let sec = ''credentials.arista'' in
     bind_r (config_get c sec ''username'' []) (\<lambda>user.
     bind_r (section_get inst c sec ''password'' []) (\<lambda>pw.
     bind_r (section_get inst c sec ''enable_password'' []) (\<lambda>en.
     bind_r (section_or c sec ''transport'' ''https'') (\<lambda>transport.
     bind_r (config_get c sec ''port'' []) (\<lambda>port.
     Inr (opt\<lparr>do_arista := \<lparr>vl_user = strip user, vl_password = pw, vl_enable = en\<rparr>, do_arista_transport := strip transport,
       do_arista_port := (if strip port = [] then None else py_int port)\<rparr>)))))))"

definition new_arp_task :: "fernet option \<Rightarrow> config \<Rightarrow> string \<Rightarrow> arp_task result" where
  "new_arp_task inst c name = (let sec = ''arp.'' @ name in
     bind_r (config_get c sec ''routers'' []) (\<lambda>routers.
     bind_r (config_get c sec ''ip_list'' []) (\<lambda>ip_list.
     bind_r (config_get c sec ''output_dir'' (''/var/lib/aruba-agent/arp/'' @ name)) (\<lambda>out.
     bind_r (section_or c sec ''retention_days'' ''30'') (\<lambda>keep.
     bind_r (config_get c ''credentials'' ''username'' ''admin'') (\<lambda>user.
     bind_r (section_get inst c ''credentials'' ''password'' []) (\<lambda>pw.
     bind_r (arp_cisco inst c default_options) (\<lambda>opt.
     bind_r (arp_arista inst c opt) (\<lambda>opt.
     Inr \<lparr>at_name = name, at_routers = listed routers, at_ip_list = ip_list, at_output_dir = out,
       at_retention = int_or 30 keep, at_user = user, at_password = pw, at_options = opt\<rparr>)))))))))"

subsection \<open>The environment of a run\<close>

record arp_env =
  ao_subnets :: "string option result"
  ao_nmap :: "string \<Rightarrow> string option"
  ao_side :: "nat \<Rightarrow> string \<Rightarrow> device_side"
  ao_mkdir :: "py_error option"
  ao_write :: io_fault
  ao_stuck :: "string \<Rightarrow> bool"
  ao_now :: datetime
  ao_mtime :: rat

record arp_world =
  aw_tree :: tree
  aw_state :: agent_state

definition load_subnets :: "arp_env \<Rightarrow> arp_task \<Rightarrow> string list result" where
  "load_subnets env task = (if at_ip_list task = [] then Inr []
     else bind_r (ao_subnets env) (\<lambda>content. Inr (load_ips content)))"

subsection \<open>Names from the ping sweep\<close>

definition nmap_prefix :: string where
  "nmap_prefix = ''Nmap scan report for''"

text \<open>One line of the report: address and name.  \<open>s.split("(")[1]\<close> ends at the next parenthesis.\<close>

definition nmap_line :: "string \<Rightarrow> (string \<times> string) option" where
  "nmap_line line = (let ws = words line; info = join '' '' (drop 4 ws) in
     if \<not> startswith line nmap_prefix \<or> length ws < 5 then None
     else if CHR ''('' \<in> set info \<and> CHR '')'' \<in> set info
     then Some (strip (rstrip_chars '')'' (split_on (CHR ''('') info ! 1)),
       (case split_once '' ('' info of Some (a, _) \<Rightarrow> a | None \<Rightarrow> info))
     else Some (strip info, []))"

definition nmap_report :: "string \<Rightarrow> (string, string) dict \<Rightarrow> (string, string) dict" where
  "nmap_report out names = fold (\<lambda>(ip, dns). dset ip dns) (List.map_filter nmap_line (splitlines out)) names"

definition nmap_scan :: "arp_env \<Rightarrow> string list \<Rightarrow> (string, string) dict" where
  "nmap_scan env subnets = fold (\<lambda>net names. case ao_nmap env net of None \<Rightarrow> names | Some out \<Rightarrow> nmap_report out names) subnets []"

subsection \<open>The ARP tables\<close>

record arp_row =
  ar_ip :: string
  ar_mac :: string
  ar_type :: string
  ar_port :: string

definition arp_states :: "string list" where
  "arp_states = [''reachable'', ''permanent'', ''incomplete'', ''stale'', ''delay'', ''probe'', ''failed'', ''static'']"

definition broadcast_mac :: string where
  "broadcast_mac = ''FF:FF:FF:FF:FF:FF''"

definition arp_line :: "string \<Rightarrow> arp_row option" where
  "arp_line line = (if \<not> dotted_prefix 3 (lstrip line) then None
     else case words line of
       ip # mac # vlan # rest \<Rightarrow>
         if \<not> mac_text '':-'' mac \<or> upper mac = broadcast_mac then None
         else Some \<lparr>ar_ip = ip, ar_mac = mac, ar_type = vlan,
           ar_port = (case rest of [] \<Rightarrow> [] | p # _ \<Rightarrow> if lower p \<in> set arp_states then [] else p)\<rparr>
     | _ \<Rightarrow> None)"

definition parse_arp :: "string \<Rightarrow> arp_row list" where
  "parse_arp text = List.map_filter arp_line (splitlines (strip text))"

definition arp_driver :: "arp_task \<Rightarrow> agent_state \<Rightarrow> string \<Rightarrow> driver" where
  "arp_driver task st router = driver_for router (at_user task) (at_password task) False None
     (let v = get_vendor_for_host st router in if v = [] then None else Some v) (at_options task)"

definition fetch_arp :: "device_side \<Rightarrow> driver \<Rightarrow> arp_row list" where
  "fetch_arp w d = (case fst (with_session (drv_login w) (drv_logout w)
       (\<lambda>d. if \<not> drv_logged_in d then (None, d) else drv_cli w ''show arp'' d) d) of
       None \<Rightarrow> [] | Some text \<Rightarrow> if text = [] then [] else parse_arp text)"

fun fetch_all :: "arp_env \<Rightarrow> arp_task \<Rightarrow> agent_state \<Rightarrow> nat \<Rightarrow> string list \<Rightarrow> arp_row list" where
  "fetch_all env task st i [] = []"
| "fetch_all env task st i (r # rs) =
     (if get_mode_for_host st r \<in> set skip_modes then [] else fetch_arp (ao_side env i r) (arp_driver task st r))
       @ fetch_all env task st (Suc i) rs"

subsection \<open>The file\<close>

definition last_octet :: "string \<Rightarrow> int option" where
  "last_octet ip = py_int (last (split_on (CHR ''.'') ip))"

definition reported :: "string list \<Rightarrow> string \<Rightarrow> bool" where
  "reported subnets ip = (case (last_octet ip, parse_ipv4 ip) of
       (Some n, Some a) \<Rightarrow> n \<notin> {1, 2, 3, 255} \<and> list_ex (in_network a) (List.map_filter parse_network subnets)
     | _ \<Rightarrow> False)"

definition by_ip :: "arp_row list \<Rightarrow> (string, arp_row) dict" where
  "by_ip es = fold (\<lambda>e. dset (ar_ip e) e) es []"

definition csv_rows :: "arp_row list \<Rightarrow> (string, string) dict \<Rightarrow> string list \<Rightarrow> string list list" where
  "csv_rows es names subnets = map (\<lambda>(ip, e). [ip, ar_mac e, ar_type e, ar_port e,
       (case dget names ip of None \<Rightarrow> [] | Some n \<Rightarrow> n)])
     (filter (\<lambda>(ip, e). reported subnets ip) (by_ip es))"

text \<open>\<open>csv.writer\<close> with its defaults: a field with a special character is quoted.\<close>

definition dquote :: char where
  "dquote = CHR 0x22"

definition csv_field :: "string \<Rightarrow> string" where
  "csv_field f = (if list_ex (\<lambda>c. c \<in> {CHR '','', dquote, CHR 0x0D, CHR 0x0A}) f
     then dquote # concat (map (\<lambda>c. if c = dquote then [dquote, dquote] else [c]) f) @ [dquote] else f)"

definition csv_line :: "string list \<Rightarrow> string" where
  "csv_line cols = join '','' (map csv_field cols) @ [CHR 0x0D, CHR 0x0A]"

definition csv_header :: "string list" where
  "csv_header = [''IP Address'', ''MAC Address'', ''Type'', ''Port'', ''DNS'']"

definition arp_prefix :: string where "arp_prefix = ''arp_scan_''"
definition csv_suffix :: string where "csv_suffix = ''.csv''"

definition arp_stamp :: "datetime \<Rightarrow> string" where
  "arp_stamp d = padded 4 (year d) @ ''-'' @ padded 2 (month d) @ ''-'' @ padded 2 (day d) @ ''_''
     @ padded 2 (hour d) @ ''-'' @ padded 2 (minute d) @ ''-'' @ padded 2 (second d)"

definition arp_file :: "datetime \<Rightarrow> string" where
  "arp_file d = arp_prefix @ arp_stamp d @ csv_suffix"

text \<open>\<open>makedirs("")\<close> raises \<open>FileNotFoundError\<close>.\<close>

definition write_csv :: "arp_env \<Rightarrow> arp_task \<Rightarrow> string list list \<Rightarrow> tree \<Rightarrow> py_error option \<times> tree" where
  "write_csv env task rows t = (if rows = [] then (None, t)
     else if at_output_dir task = [] then (Some OSError, t)
     else case ao_mkdir env of Some e \<Rightarrow> (Some e, t)
     | None \<Rightarrow> (case write_file (ao_write env) (ao_mtime env) (path_join (at_output_dir task) (arp_file (ao_now env)))
           (concat (map csv_line (csv_header # rows))) (makedirs (at_output_dir task) t) of
         (Some _, t1) \<Rightarrow> (Some OSError, t1) | (None, t1) \<Rightarrow> (None, t1)))"

definition arp_files :: "tree \<Rightarrow> string \<Rightarrow> string list" where
  "arp_files t dir = sort_key (mtime_of t) (glob_in t dir arp_prefix csv_suffix)"

definition arp_cleanup :: "(string \<Rightarrow> bool) \<Rightarrow> int \<Rightarrow> string \<Rightarrow> tree \<Rightarrow> tree" where
  "arp_cleanup stuck retention dir t = (if retention \<le> 0 then t
     else fold (remove_unless stuck) (before_last retention (arp_files t dir)) t)"

subsection \<open>The run\<close>

definition arp_run :: "arp_env \<Rightarrow> arp_task \<Rightarrow> arp_world \<Rightarrow> py_error option \<times> arp_world" where
  "arp_run env task w = (case load_subnets env task of
       Inl e \<Rightarrow> (Some e, w)
     | Inr subnets \<Rightarrow>
         if subnets = [] \<or> at_routers task = [] then (None, w)
         else let names = nmap_scan env subnets;
                  es = fetch_all env task (aw_state w) 0 (at_routers task)
              in case (if es = [] then (None, aw_tree w) else write_csv env task (csv_rows es names subnets) (aw_tree w)) of
                   (Some e, t) \<Rightarrow> (Some e, w\<lparr>aw_tree := t\<rparr>)
                 | (None, t) \<Rightarrow> (None, w\<lparr>aw_tree := arp_cleanup (ao_stuck env) (at_retention task) (at_output_dir task) t,
                     aw_state := set_arp_last_run (ao_now env) (at_name task) (aw_state w)\<rparr>))"

end
