(* ===== verification/Backup_Proofs.thy ===== *)
theory Backup_Proofs
  imports Backup_Task
begin

text \<open>
  The nightly backup: the rotation keeps exactly the newest files, and after a run every device
  that is reported as saved has a backup that verifies and decrypts to the configuration it gave.
\<close>

subsection \<open>Paths\<close>

lemma startswith_iff: "startswith s p \<longleftrightarrow> (\<exists>q. s = p @ q)"
  unfolding startswith_def by (metis append_eq_conv_conj append_take_drop_id)

lemma endswith_iff: "endswith s p \<longleftrightarrow> (\<exists>q. s = q @ p)"
  unfolding endswith_def
  by (metis append_take_drop_id diff_add_inverse2 length_append append_eq_conv_conj le_add2)

definition clean_dir :: "string \<Rightarrow> bool" where
  "clean_dir d \<longleftrightarrow> d \<noteq> [] \<and> last d \<noteq> slash"

definition clean_name :: "string \<Rightarrow> bool" where
  "clean_name n \<longleftrightarrow> n \<noteq> [] \<and> slash \<notin> set n"

lemma endswith_last: "endswith s [c] \<longleftrightarrow> s \<noteq> [] \<and> last s = c"
  by (cases s rule: rev_cases) (auto simp: endswith_iff)

lemma startswith_hd: "startswith s [c] \<longleftrightarrow> s \<noteq> [] \<and> hd s = c"
  by (cases s) (auto simp: startswith_iff)

lemma path_join_name: "clean_dir d \<Longrightarrow> slash \<notin> set n \<Longrightarrow> path_join d n = d @ slash # n"
  by (cases n) (auto simp: path_join_def clean_dir_def endswith_last startswith_hd)

lemma clean_dir_join [simp]: "clean_dir d \<Longrightarrow> clean_name h \<Longrightarrow> clean_dir (path_join d h)"
  by (auto simp: path_join_name clean_name_def) (auto simp: clean_dir_def dest: last_in_set)

lemma in_dir_iff: "clean_dir d \<Longrightarrow> in_dir d p \<longleftrightarrow> (\<exists>n. clean_name n \<and> p = path_join d n)"
  by (auto simp: in_dir_def path_join_name clean_name_def Let_def startswith_iff)

lemma in_dir_join [simp]: "clean_dir d \<Longrightarrow> clean_name n \<Longrightarrow> in_dir d (path_join d n)"
  by (auto simp: in_dir_iff)

lemma to_slash:
  "slash \<notin> set xs \<Longrightarrow> takeWhile (\<lambda>c. c \<noteq> slash) (xs @ slash # ys) = xs"
  "slash \<notin> set xs \<Longrightarrow> dropWhile (\<lambda>c. c \<noteq> slash) (xs @ slash # ys) = slash # ys"
  by (induction xs) auto

lemma join_inj: "clean_dir d \<Longrightarrow> clean_dir d' \<Longrightarrow> clean_name n \<Longrightarrow> clean_name n' \<Longrightarrow>
   path_join d n = path_join d' n' \<longleftrightarrow> d = d' \<and> n = n'"
proof
  assume a: "clean_dir d" "clean_dir d'" "clean_name n" "clean_name n'" "path_join d n = path_join d' n'"
  then have e: "rev n @ slash # rev d = rev n' @ slash # rev d'"
    by (metis path_join_name clean_name_def rev_append rev.simps(2) append_assoc append_Cons append_Nil)
  have "takeWhile (\<lambda>c. c \<noteq> slash) (rev n @ slash # rev d) = rev n"
    "takeWhile (\<lambda>c. c \<noteq> slash) (rev n' @ slash # rev d') = rev n'"
    using a(3,4) by (simp_all add: clean_name_def to_slash)
  with e show "d = d' \<and> n = n'" by auto
qed simp

lemma dir_unique: "clean_dir d \<Longrightarrow> clean_dir d' \<Longrightarrow> in_dir d p \<Longrightarrow> in_dir d' p \<Longrightarrow> d = d'"
  by (auto simp: in_dir_iff join_inj)

lemma dirname_join: "clean_dir d \<Longrightarrow> clean_name n \<Longrightarrow> dirname (path_join d n) = d"
proof -
  assume c: "clean_dir d" "clean_name n"
  have h: "path_head (path_join d n) = d @ [slash]"
    using c to_slash(2) [of "rev n" "rev d"] by (simp add: path_head_def path_join_name clean_name_def)
  have "\<not> list_all (\<lambda>c. c = slash) d" using c(1) last_in_set [of d] by (auto simp: clean_dir_def list_all_iff)
  moreover have "dropWhile (\<lambda>c. c = slash) (rev d) = rev d"
    using c(1) by (cases d rule: rev_cases) (auto simp: clean_dir_def)
  ultimately show ?thesis by (simp add: dirname_def h)
qed

lemma own_dir: "d \<noteq> [] \<Longrightarrow> d \<in> set (dir_chain d)"
  by (force simp: dir_chain_def)

lemma makedirs_exists: "d \<noteq> [] \<Longrightarrow> d \<in> set (t_dirs (makedirs d t))"
  using own_dir [of d] by (auto simp: makedirs_def)

lemma makedirs_files [simp]: "t_files (makedirs d t) = t_files t"
  by (simp add: makedirs_def)

subsection \<open>Names of backups\<close>

lemma endswith_same_last: "endswith s p \<Longrightarrow> p \<noteq> [] \<Longrightarrow> last s = last p"
  by (auto simp: endswith_iff)

lemma suffixes_apart [simp]:
  "endswith s cfg_suffix \<Longrightarrow> \<not> endswith s enc_suffix"
  "\<not> is_backup_name (s @ sha_suffix)"
  using endswith_same_last [of s cfg_suffix] endswith_same_last [of s enc_suffix]
    endswith_same_last [of "s @ sha_suffix" cfg_suffix] endswith_same_last [of "s @ sha_suffix" enc_suffix]
  by (auto simp: cfg_suffix_def enc_suffix_def sha_suffix_def is_backup_name_def)

lemma name_matches_backup: "name_matches pre cfg_suffix n \<or> name_matches pre enc_suffix n \<Longrightarrow> is_backup_name n"
  by (auto simp: name_matches_def is_backup_name_def)

lemma endswith_append [simp]: "endswith (s @ p) p"
  by (simp add: endswith_iff)

definition host_backup :: "string \<Rightarrow> string \<Rightarrow> bool" where
  "host_backup h n \<longleftrightarrow> name_matches (h @ backup_infix) cfg_suffix n \<or> name_matches (h @ backup_infix) enc_suffix n"

lemma backup_name_matches: "host_backup h (backup_name h d cfg_suffix)" "host_backup h (backup_name h d enc_suffix)"
  by (simp_all add: host_backup_def name_matches_def backup_name_def startswith_iff endswith_iff)

lemma stamp_no_slash: "slash \<notin> set (backup_stamp d)"
proof -
  have p: "slash \<notin> set (padded w n)" for w n
  proof (induction w arbitrary: n)
    case (Suc w)
    have "digit_char k \<noteq> slash" if "k < 10" for k
      using digit_char_props(1) [OF that] by (auto simp: slash_def is_digit_def)
    from this [of "n mod 10"] show ?case using Suc by (auto dest: sym)
  qed simp
  show ?thesis by (simp add: backup_stamp_def p) (simp add: slash_def)
qed

lemma backup_name_clean: "clean_name h \<Longrightarrow> suf \<in> {cfg_suffix, enc_suffix} \<Longrightarrow> clean_name (backup_name h d suf)"
  using stamp_no_slash [of d]
  by (auto simp: clean_name_def backup_name_def cfg_suffix_def enc_suffix_def backup_infix_def slash_def)

lemma sha_suffix_ne [simp]: "sha_suffix \<noteq> []"
  by (simp add: sha_suffix_def)

lemma sidecar_clean: "clean_name n \<Longrightarrow> clean_name (n @ sha_suffix)"
  by (auto simp: clean_name_def sha_suffix_def slash_def)

lemma join_suffix: "clean_dir d \<Longrightarrow> clean_name n \<Longrightarrow> path_join d n @ sha_suffix = path_join d (n @ sha_suffix)"
  using sidecar_clean [of n] by (simp add: path_join_name clean_name_def)

subsection \<open>Rotation\<close>

definition removed :: "(string \<Rightarrow> bool) \<Rightarrow> string list \<Rightarrow> string \<Rightarrow> bool" where
  "removed stuck ps p \<longleftrightarrow> \<not> stuck p \<and> (p \<in> set ps \<or> (\<exists>q \<in> set ps. p = q @ sha_suffix))"

lemma dkeys_filter: "dkeys (filter (\<lambda>(k, v). P k) d) = filter P (dkeys d)"
  by (induction d) auto

lemma remove_unless_files:
  "t_files (remove_unless stuck p t) = filter (\<lambda>(k, v). \<not> (\<not> stuck k \<and> k = p)) (t_files t)"
proof (cases "stuck p")
  case True
  then show ?thesis by (auto simp: remove_unless_def intro!: filter_True [symmetric])
next
  case False
  then show ?thesis by (auto simp: remove_unless_def remove_file_def AList.delete_eq intro!: filter_cong)
qed

lemma filter_absent: "\<not> has_key d k \<Longrightarrow> filter (\<lambda>(q, v). stuck q \<or> q \<noteq> k) d = d"
  by (rule filter_True) (force simp: has_key_iff)

lemma remove_old_files:
  "t_files (remove_old stuck q t) = filter (\<lambda>(k, v). \<not> removed stuck [q] k) (t_files t)"
proof -
  have "t_files (remove_old stuck q t)
      = filter (\<lambda>(k, v). \<not> (\<not> stuck k \<and> k = q @ sha_suffix)) (t_files (remove_unless stuck q t))"
    by (simp add: remove_old_def Let_def filter_absent remove_unless_files [of stuck "q @ sha_suffix"])
  then show ?thesis by (auto simp: remove_unless_files removed_def intro!: filter_cong)
qed

lemma remove_old_dirs [simp]: "t_dirs (remove_old stuck q t) = t_dirs t"
  by (simp add: remove_old_def remove_unless_def remove_file_def Let_def)

lemma remove_all_files:
  "t_files (fold (remove_old stuck) ps t) = filter (\<lambda>(k, v). \<not> removed stuck ps k) (t_files t)"
proof (induction ps arbitrary: t)
  case (Cons q ps)
  have "t_files (fold (remove_old stuck) (q # ps) t)
      = filter (\<lambda>(k, v). \<not> removed stuck ps k) (filter (\<lambda>(k, v). \<not> removed stuck [q] k) (t_files t))"
    by (simp add: Cons.IH remove_old_files)
  then show ?case by (auto simp: removed_def intro!: filter_cong)
qed (simp add: removed_def)

lemma remove_all_dirs [simp]: "t_dirs (fold (remove_old stuck) ps t) = t_dirs t"
  by (induction ps arbitrary: t) simp_all

lemma glob_keys:
  "clean_dir d \<Longrightarrow> map (path_join d) (filter Q (map (drop (length (path_join d []))) (filter (in_dir d) ks)))
     = filter (\<lambda>p. in_dir d p \<and> Q (drop (Suc (length d)) p)) ks"
  by (induction ks) (auto simp: in_dir_iff path_join_name clean_name_def)

lemma glob_in_eq:
  "clean_dir d \<Longrightarrow> glob_in t d pre suf
     = filter (\<lambda>p. in_dir d p \<and> name_matches pre suf (drop (Suc (length d)) p)) (dkeys (t_files t))"
  unfolding glob_in_def listdir_def by (rule glob_keys)

lemma backups_iff:
  "clean_dir d \<Longrightarrow> p \<in> set (backups_by_age t d h) \<longleftrightarrow>
     has_key (t_files t) p \<and> (\<exists>n. clean_name n \<and> p = path_join d n \<and> host_backup h n)"
  by (auto simp: backups_by_age_def glob_in_eq host_backup_def has_key_iff in_dir_iff path_join_name clean_name_def)

lemma sort_key_same: "(\<And>x. x \<in> set xs \<Longrightarrow> f x = g x) \<Longrightarrow> sort_key f xs = sort_key g xs"
proof -
  have ins: "insort_key f x xs = insort_key g x xs" if "\<And>y. y \<in> insert x (set xs) \<Longrightarrow> f y = g y" for x xs
    using that by (induction xs) auto
  show "(\<And>x. x \<in> set xs \<Longrightarrow> f x = g x) \<Longrightarrow> sort_key f xs = sort_key g xs"
    using ins by (induction xs) force+
qed

lemma dget_filter_key: "dget (filter (\<lambda>(k, v). P k) d) k = (if P k then dget d k else None)"
  by (induction d) auto

lemma cleanup_files:
  "t_files (cleanup stuck n d h t) = filter (\<lambda>(k, v). \<not> removed stuck (before_last n (backups_by_age t d h)) k) (t_files t)"
  by (simp add: cleanup_def remove_all_files)

lemma before_last_subset: "set (before_last n xs) \<subseteq> set xs"
  by (auto simp: before_last_def dest: in_set_takeD)

lemma no_sidecar_backup: "clean_dir d \<Longrightarrow> q \<in> set (backups_by_age t d h) \<Longrightarrow> q @ sha_suffix \<notin> set (backups_by_age t' d h)"
proof
  assume c: "clean_dir d" and q: "q \<in> set (backups_by_age t d h)" and s: "q @ sha_suffix \<in> set (backups_by_age t' d h)"
  obtain n where n: "clean_name n" "q = path_join d n" using q c by (auto simp: backups_iff)
  obtain m where m: "clean_name m" "q @ sha_suffix = path_join d m" "host_backup h m" using s c by (auto simp: backups_iff)
  have "m = n @ sha_suffix" using m(1,2) n c sidecar_clean by (simp add: join_suffix join_inj)
  then show False using m(3) name_matches_backup [of "h @ backup_infix" m] by (auto simp: host_backup_def)
qed

lemma kept_backups:
  assumes "clean_dir d" "\<And>p. \<not> stuck p"
  shows "backups_by_age (cleanup stuck n d h t) d h
    = filter (\<lambda>p. p \<notin> set (before_last n (backups_by_age t d h))) (backups_by_age t d h)"
proof -
  let ?B = "backups_by_age t d h" and ?t = "cleanup stuck n d h t"
  let ?old = "before_last n ?B"
  let ?G = "\<lambda>t. glob_in t d (h @ backup_infix) cfg_suffix @ glob_in t d (h @ backup_infix) enc_suffix"
  have set: "set (?G t) = set ?B" by (simp add: backups_by_age_def)
  have keep: "removed stuck ?old p \<longleftrightarrow> p \<in> set ?old" if "p \<in> set ?B" for p
    using that no_sidecar_backup [OF assms(1)] before_last_subset [of n ?B] assms(2) by (auto simp: removed_def)
  have "?G ?t = filter (\<lambda>p. \<not> removed stuck ?old p) (?G t)"
    by (simp add: glob_in_eq [OF assms(1)] cleanup_files dkeys_filter conj_commute)
  also have "\<dots> = filter (\<lambda>p. p \<notin> set ?old) (?G t)"
    using keep set by (metis (no_types, lifting) filter_cong)
  finally have g: "?G ?t = filter (\<lambda>p. p \<notin> set ?old) (?G t)" .
  have "backups_by_age ?t d h = sort_key (mtime_of t) (?G ?t)"
    unfolding backups_by_age_def
  proof (rule sort_key_same)
    fix p assume "p \<in> set (?G ?t)"
    then have "p \<in> set ?B" "p \<notin> set ?old" unfolding g using set by auto
    then have "\<not> removed stuck ?old p" using keep by simp
    then show "mtime_of ?t p = mtime_of t p" by (simp add: mtime_of_def cleanup_files dget_filter_key)
  qed
  then show ?thesis by (simp only: g filter_sort [symmetric] backups_by_age_def [of t d h])
qed

lemma backups_distinct: "clean_dir d \<Longrightarrow> distinct (dkeys (t_files t)) \<Longrightarrow> distinct (backups_by_age t d h)"
  by (auto simp: backups_by_age_def glob_in_eq name_matches_def)

lemma filter_not_before: "distinct xs \<Longrightarrow> filter (\<lambda>p. p \<notin> set (take k xs)) xs = drop k xs"
proof -
  assume d: "distinct xs"
  have "filter (\<lambda>p. p \<notin> set (take k xs)) (take k xs @ drop k xs) = drop k xs"
    using d by (subst filter_append) (auto simp: filter_id_conv filter_empty_conv dest: set_take_disj_set_drop_if_distinct [of xs k k])
  then show ?thesis by simp
qed

text \<open>
  The rotation of one host with a positive retention leaves exactly the newest files, as many as
  the retention allows, deletes their checksums with them, and touches nothing else.  A retention of
  zero deletes nothing.
\<close>

theorem rotation_keeps_newest:
  fixes t :: tree and d h :: string and stuck :: "string \<Rightarrow> bool" and n :: int
  assumes "clean_dir d" and "distinct (dkeys (t_files t))" and "\<forall>p. \<not> stuck p" and "0 \<le> n"
  defines "B \<equiv> backups_by_age t d h" and "t' \<equiv> cleanup stuck n d h t"
  shows "sorted (map (mtime_of t) B)
    \<and> backups_by_age t' d h = (if n = 0 then B else drop (length B - nat n) B)
    \<and> (\<forall>p. dget (t_files t') p = (if p \<in> set B - set (backups_by_age t' d h)
        \<or> (\<exists>q \<in> set B - set (backups_by_age t' d h). p = q @ sha_suffix) then None else dget (t_files t) p))"
proof (intro conjI)
  let ?k = "length B - nat n"
  have dist: "distinct B" unfolding B_def by (rule backups_distinct [OF assms(1,2)])
  have old: "before_last n B = (if n = 0 then [] else take ?k B)" using assms(4) by (simp add: before_last_def)
  show "sorted (map (mtime_of t) B)" by (simp add: B_def backups_by_age_def)
  have kept: "backups_by_age t' d h = filter (\<lambda>p. p \<notin> set (before_last n B)) B"
    unfolding t'_def B_def using kept_backups assms(1,3) by blast
  then show "backups_by_age t' d h = (if n = 0 then B else drop ?k B)"
    using filter_not_before [OF dist, of ?k] by (simp add: old)
  have gone: "set B - set (backups_by_age t' d h) = set (before_last n B)"
    using before_last_subset [of n B] by (auto simp: kept)
  show "\<forall>p. dget (t_files t') p = (if p \<in> set B - set (backups_by_age t' d h)
      \<or> (\<exists>q \<in> set B - set (backups_by_age t' d h). p = q @ sha_suffix) then None else dget (t_files t) p)"
    unfolding gone using assms(3) by (auto simp: t'_def cleanup_files dget_filter_key removed_def B_def)
qed

subsection \<open>One stored backup\<close>

definition sha_ok :: "(string \<Rightarrow> string) \<Rightarrow> bool" where
  "sha_ok sha \<longleftrightarrow> (\<forall>x. sha x \<noteq> [] \<and> set (sha x) \<subseteq> set ''0123456789abcdef'')"

definition cipher_ok :: "fernet option \<Rightarrow> bool" where
  "cipher_ok inst \<longleftrightarrow> (\<forall>f. inst = Some f \<longrightarrow> fernet_sound f)"

lemma hex_char: "c \<in> set ''0123456789abcdef'' \<Longrightarrow> \<not> is_ws c \<and> lower_char c = c \<and> of_char c < (128 :: nat)"
  by (auto simp: is_ws_def lower_char_def)

lemma sha_word:
  assumes "sha_ok sha"
  shows "lower (first_word (sha x @ ''  '' @ r)) = sha x" "strip (sha x @ ''  '' @ r) \<noteq> []"
    "is_ascii (sha x @ ''  '' @ r) = is_ascii r"
proof -
  have ne: "sha x \<noteq> []" and hex: "\<And>c. c \<in> set (sha x) \<Longrightarrow> \<not> is_ws c \<and> lower_char c = c \<and> of_char c < (128 :: nat)"
    using assms hex_char unfolding sha_ok_def by blast+
  then have l: "lstrip (sha x @ ''  '' @ r) = sha x @ ''  '' @ r" by (cases "sha x") (auto simp: lstrip_def)
  have "takeWhile (\<lambda>c. \<not> is_ws c) (sha x @ ''  '' @ r) = sha x"
    using hex by (subst takeWhile_append2) (auto simp: is_ws_def)
  moreover have "map lower_char (sha x) = sha x" using hex by (auto intro!: map_idI)
  ultimately show "lower (first_word (sha x @ ''  '' @ r)) = sha x" unfolding first_word_def l lower_def by simp
  have "dropWhile is_ws (rev (sha x @ ''  '' @ r)) \<noteq> []" using ne hex [of "hd (sha x)"] by auto
  then show "strip (sha x @ ''  '' @ r) \<noteq> []" unfolding strip_def l rstrip_def by simp
  show "is_ascii (sha x @ ''  '' @ r) = is_ascii r" using hex by (auto simp: is_ascii_def list_all_iff)
qed

lemma write_file_frame:
  "write_file f m p b t = (r, t') \<Longrightarrow> q \<noteq> p \<Longrightarrow> dget (t_files t') q = dget (t_files t) q"
  "write_file f m p b t = (r, t') \<Longrightarrow> distinct (dkeys (t_files t)) \<Longrightarrow> distinct (dkeys (t_files t'))"
  by (auto simp: write_file_def distinct_update split: if_splits option.splits)

lemma write_ascii_frame:
  "write_ascii f u m p b t = (r, t') \<Longrightarrow> q \<noteq> p \<Longrightarrow> dget (t_files t') q = dget (t_files t) q"
  "write_ascii f u m p b t = (r, t') \<Longrightarrow> distinct (dkeys (t_files t)) \<Longrightarrow> distinct (dkeys (t_files t'))"
  by (auto simp: write_ascii_def split: if_splits option.splits prod.splits dest: write_file_frame)

lemma write_file_done:
  "write_file f m p b t = (None, t') \<Longrightarrow> t' = t\<lparr>t_files := dset p \<lparr>sf_bytes = b, sf_mtime = m\<rparr> (t_files t)\<rparr>"
  by (auto simp: write_file_def Let_def split: if_splits option.splits)

lemma write_ascii_done: "write_ascii f u m p b t = (None, t') \<Longrightarrow> write_file f m p b t = (None, t') \<and> is_ascii b"
  by (auto simp: write_ascii_def write_file_def Let_def split: if_splits option.splits prod.splits)

text \<open>A file of directory \<open>d\<close> that verifies and decrypts to \<open>data\<close>.\<close>

definition restorable :: "backup_env \<Rightarrow> tree \<Rightarrow> string \<Rightarrow> string \<Rightarrow> string \<Rightarrow> bool" where
  "restorable env t d h data \<longleftrightarrow> (\<exists>n. clean_name n \<and> host_backup h n
     \<and> decrypt_backup (be_cipher env) t (path_join d n) = Inr data
     \<and> check_file (be_sha env) t (path_join d n) = Inr (Some True))"

definition same_in :: "string \<Rightarrow> tree \<Rightarrow> tree \<Rightarrow> bool" where
  "same_in d t t' \<longleftrightarrow> (\<forall>q. in_dir d q \<longrightarrow> dget (t_files t') q = dget (t_files t) q)"

lemma restorable_same: "clean_dir d \<Longrightarrow> same_in d t t' \<Longrightarrow> restorable env t d h data \<Longrightarrow> restorable env t' d h data"
proof -
  assume d: "clean_dir d" and s: "same_in d t t'" and "restorable env t d h data"
  then obtain n where n: "clean_name n" "host_backup h n" "decrypt_backup (be_cipher env) t (path_join d n) = Inr data"
      "check_file (be_sha env) t (path_join d n) = Inr (Some True)"
    unfolding restorable_def by blast
  have a: "dget (t_files t') (path_join d n) = dget (t_files t) (path_join d n)"
    "dget (t_files t') (path_join d n @ sha_suffix) = dget (t_files t) (path_join d n @ sha_suffix)"
    using s in_dir_join [OF d n(1)] in_dir_join [OF d sidecar_clean [OF n(1)]] join_suffix [OF d n(1)]
    unfolding same_in_def by auto
  have "decrypt_backup (be_cipher env) t' (path_join d n) = decrypt_backup (be_cipher env) t (path_join d n)"
    "check_file (be_sha env) t' (path_join d n) = check_file (be_sha env) t (path_join d n)"
    by (simp_all only: decrypt_backup_def check_file_def a)
  then show ?thesis unfolding restorable_def using n by metis
qed

lemma newest_not_before_last:
  assumes "distinct xs" "sorted (map f xs)" "p \<in> set xs" "\<And>q. q \<in> set xs \<Longrightarrow> q \<noteq> p \<Longrightarrow> f q < (f p :: rat)" "0 \<le> n"
  shows "p \<notin> set (before_last n xs)"
proof
  assume "p \<in> set (before_last n xs)"
  then obtain i where i: "xs ! i = p" "i < length xs - nat n" "0 < n"
    using assms(5) by (auto simp: before_last_def in_set_conv_nth split: if_splits)
  let ?j = "length xs - 1"
  have j: "i < ?j" "?j < length xs" using i by auto
  then have "f p \<le> f (xs ! ?j)" using assms(2) i(1) by (auto simp: sorted_iff_nth_mono)
  moreover have "xs ! ?j \<noteq> p" using assms(1) j i(1) by (metis nth_eq_iff_index_eq less_irrefl order.strict_trans)
  ultimately show False using assms(4) [of "xs ! ?j"] j(2) by fastforce
qed

definition older_than :: "rat \<Rightarrow> string \<Rightarrow> tree \<Rightarrow> bool" where
  "older_than m d t \<longleftrightarrow> (\<forall>q f. in_dir d q \<longrightarrow> dget (t_files t) q = Some f \<longrightarrow> sf_mtime f < m)"

lemma older_same: "same_in d t t' \<Longrightarrow> older_than m d t \<Longrightarrow> older_than m d t'"
  by (simp add: same_in_def older_than_def)

text \<open>Every call of the visit that touches the disk or the cipher works.\<close>

definition disk_ok :: "visit \<Rightarrow> bool" where
  "disk_ok v \<longleftrightarrow> vs_mkdir v = None \<and> vs_encrypt v = None \<and> vs_write v = None \<and> vs_sidecar v = None"

text \<open>The name and the bytes of the new file, and the ways the store can end.\<close>

definition new_suffix :: "backup_env \<Rightarrow> string" where
  "new_suffix env = (if be_cipher env = None then cfg_suffix else enc_suffix)"

definition new_path :: "backup_env \<Rightarrow> backup_task \<Rightarrow> string \<Rightarrow> visit \<Rightarrow> string" where
  "new_path env task h v = path_join (path_join (bt_path task) h) (backup_name h (vs_now v) (new_suffix env))"

definition new_bytes :: "backup_env \<Rightarrow> string \<Rightarrow> visit \<Rightarrow> string" where
  "new_bytes env data v = (case be_cipher env of None \<Rightarrow> data | Some f \<Rightarrow> f_encrypt f (vs_nonce v) data)"

definition new_sidecar :: "backup_env \<Rightarrow> string \<Rightarrow> string \<Rightarrow> visit \<Rightarrow> string" where
  "new_sidecar env h data v = be_sha env (new_bytes env data v) @ ''  '' @ backup_name h (vs_now v) (new_suffix env) @ newline"

lemma new_name:
  assumes "clean_dir (bt_path task)" "clean_name h"
  shows "clean_name (backup_name h (vs_now v) (new_suffix env))" "host_backup h (backup_name h (vs_now v) (new_suffix env))"
    "in_dir (path_join (bt_path task) h) (new_path env task h v)"
    "in_dir (path_join (bt_path task) h) (new_path env task h v @ sha_suffix)"
    "dirname (new_path env task h v) = path_join (bt_path task) h"
    "dirname (new_path env task h v @ sha_suffix) = path_join (bt_path task) h"
    "basename (new_path env task h v) = backup_name h (vs_now v) (new_suffix env)"
proof -
  let ?n = "backup_name h (vs_now v) (new_suffix env)"
  show n: "clean_name ?n" using assms(2) by (auto simp: new_suffix_def backup_name_clean)
  show "host_backup h ?n" by (simp add: new_suffix_def backup_name_matches)
  note d = clean_dir_join [OF assms]
  show "in_dir (path_join (bt_path task) h) (new_path env task h v)" using n d by (simp add: new_path_def)
  show "in_dir (path_join (bt_path task) h) (new_path env task h v @ sha_suffix)"
    using n d sidecar_clean [OF n] by (simp add: new_path_def join_suffix)
  show "dirname (new_path env task h v) = path_join (bt_path task) h"
    "dirname (new_path env task h v @ sha_suffix) = path_join (bt_path task) h"
    using n d sidecar_clean [OF n] by (simp_all add: new_path_def join_suffix dirname_join)
  have "rev (new_path env task h v) = rev ?n @ slash # rev (path_join (bt_path task) h)"
    using n d by (simp add: new_path_def path_join_name [of "path_join (bt_path task) h"] clean_name_def)
  then show "basename (new_path env task h v) = ?n"
    using n by (simp add: basename_def to_slash clean_name_def)
qed

lemma store_backup_cases:
  assumes "clean_dir (bt_path task)" "clean_name h" "store_backup env task h data v t = (r, t')"
  obtains (aborted) e where "r = Some e" "t_files t' = t_files t" "vs_mkdir v \<noteq> None \<or> vs_encrypt v \<noteq> None"
  | (unwritten) e f where "r = Some f"
      "write_file (vs_write v) (vs_mtime v) (new_path env task h v) (new_bytes env data v) (makedirs (path_join (bt_path task) h) t) = (Some e, t')"
  | (side) t2 e f where "r = Some f"
      "write_file (vs_write v) (vs_mtime v) (new_path env task h v) (new_bytes env data v) (makedirs (path_join (bt_path task) h) t) = (None, t2)"
      "write_ascii (vs_sidecar v) (vs_unencodable v) (vs_mtime v) (new_path env task h v @ sha_suffix) (new_sidecar env h data v) t2 = (Some e, t')"
  | (stored) t2 t3 where "r = None"
      "write_file (vs_write v) (vs_mtime v) (new_path env task h v) (new_bytes env data v) (makedirs (path_join (bt_path task) h) t) = (None, t2)"
      "write_ascii (vs_sidecar v) (vs_unencodable v) (vs_mtime v) (new_path env task h v @ sha_suffix) (new_sidecar env h data v) t2 = (None, t3)"
      "t' = cleanup (vs_stuck v) (bt_retention task) (path_join (bt_path task) h) h t3"
proof -
  let ?d = "path_join (bt_path task) h"
  let ?w = "write_file (vs_write v) (vs_mtime v) (new_path env task h v) (new_bytes env data v) (makedirs ?d t)"
  let ?s = "write_ascii (vs_sidecar v) (vs_unencodable v) (vs_mtime v) (new_path env task h v @ sha_suffix) (new_sidecar env h data v)"
  have e: "store_backup env task h data v t = (case vs_mkdir v of Some e \<Rightarrow> (Some (be_redact env e), t)
     | None \<Rightarrow> if be_cipher env \<noteq> None \<and> vs_encrypt v \<noteq> None
         then (map_option (\<lambda>e. ''Encryption failed: '' @ e) (vs_encrypt v), makedirs ?d t)
         else (case ?w of (Some e, t2) \<Rightarrow> (Some (be_redact env e), t2)
           | (None, t2) \<Rightarrow> (case ?s t2 of (Some e, t3) \<Rightarrow> (Some (be_redact env e), t3)
             | (None, t3) \<Rightarrow> (None, cleanup (vs_stuck v) (bt_retention task) ?d h t3))))"
    unfolding store_backup_def Let_def new_sidecar_def new_name(7) [OF assms(1,2), symmetric]
    by (simp only: new_path_def new_suffix_def new_bytes_def)
  show thesis
  proof (cases "vs_mkdir v")
    case (Some x)
    then have "r = Some (be_redact env x)" "t' = t" using assms(3) e by simp_all
    then show thesis using Some aborted by blast
  next
    case None
    show thesis
    proof (cases "be_cipher env \<noteq> None \<and> vs_encrypt v \<noteq> None")
      case True
      then obtain x where "vs_encrypt v = Some x" by blast
      then have "r = Some (''Encryption failed: '' @ x)" "t' = makedirs ?d t" "vs_encrypt v \<noteq> None"
        using assms(3) None True e by simp_all
      then show thesis using aborted makedirs_files by blast
    next
      case False
      obtain r1 t2 where w: "?w = (r1, t2)" by fastforce
      obtain r2 t3 where s: "?s t2 = (r2, t3)" by fastforce
      show thesis using assms(3) None False w s unwritten side stored unfolding e
        by (cases r1; cases r2) auto
    qed
  qed
qed

lemma cleanup_frame:
  assumes "clean_dir d" "\<not> in_dir d q"
  shows "dget (t_files (cleanup stuck n d h t)) q = dget (t_files t) q"
proof -
  have "\<not> removed stuck (before_last n (backups_by_age t d h)) q"
  proof
    assume "removed stuck (before_last n (backups_by_age t d h)) q"
    then obtain p where "p \<in> set (backups_by_age t d h)" "q = p \<or> q = p @ sha_suffix"
      using before_last_subset [of n "backups_by_age t d h"] by (auto simp: removed_def)
    then show False using assms by (auto simp: backups_iff join_suffix sidecar_clean)
  qed
  then show ?thesis by (simp add: cleanup_files dget_filter_key)
qed

lemma cleanup_distinct: "distinct (dkeys (t_files t)) \<Longrightarrow> distinct (dkeys (t_files (cleanup stuck n d h t)))"
  by (simp add: cleanup_files dkeys_filter)

lemma store_backup_frame:
  assumes base: "clean_dir (bt_path task)" and h: "clean_name h" and st: "store_backup env task h data v t = (r, t')"
  shows "(\<not> in_dir (path_join (bt_path task) h) q \<longrightarrow> dget (t_files t') q = dget (t_files t) q) \<and>
    (distinct (dkeys (t_files t)) \<longrightarrow> distinct (dkeys (t_files t')))"
proof -
  have ne: "\<not> in_dir (path_join (bt_path task) h) q \<Longrightarrow> q \<noteq> new_path env task h v \<and> q \<noteq> new_path env task h v @ sha_suffix"
    using new_name(3,4) [OF base h] by metis
  show ?thesis
    using base h st
  proof (cases rule: store_backup_cases)
    case unwritten
    then show ?thesis using write_file_frame [OF unwritten(2)] ne by simp
  next
    case side
    then show ?thesis using write_file_frame [OF side(2)] write_ascii_frame [OF side(3)] ne by simp
  next
    case stored
    then show ?thesis
      using write_file_frame [OF stored(2)] write_ascii_frame [OF stored(3)] ne
        cleanup_frame [OF clean_dir_join [OF base h]] cleanup_distinct by simp
  qed simp
qed

lemma is_ascii_append [simp]: "is_ascii (a @ b) \<longleftrightarrow> is_ascii a \<and> is_ascii b"
  by (simp add: is_ascii_def)

lemma stamp_ascii: "is_ascii (backup_stamp d)"
proof -
  have p: "is_ascii (padded w n)" for w n
  proof (induction w arbitrary: n)
    case (Suc w)
    have "of_char (digit_char (n mod 10)) < (128 :: nat)" by (simp add: digit_char_def)
    with Suc show ?case by (simp add: is_ascii_def)
  qed (simp add: is_ascii_def)
  show ?thesis using p unfolding backup_stamp_def by (simp add: is_ascii_def)
qed

lemma backup_name_ascii: "is_ascii h \<Longrightarrow> is_ascii (backup_name h d (new_suffix env) @ newline)"
  using stamp_ascii by (simp add: backup_name_def)
    (simp add: is_ascii_def backup_infix_def new_suffix_def cfg_suffix_def enc_suffix_def newline_def)

lemma store_backup_succeeds:
  assumes base: "clean_dir (bt_path task)" and h: "clean_name h" and st: "store_backup env task h data v t = (r, t')"
    and ok: "disk_ok v" "is_ascii h" "sha_ok (be_sha env)"
  shows "r = None"
  using base h st
proof (cases rule: store_backup_cases)
  case unwritten
  then show ?thesis using ok(1) makedirs_exists new_name(5) [OF base h] clean_dir_join [OF base h]
    by (auto simp: write_file_def disk_ok_def clean_dir_def split: if_splits)
next
  case (side t2 e f)
  have a: "is_ascii (new_sidecar env h data v)"
    using sha_word(3) [OF ok(3)] backup_name_ascii [OF ok(2)] by (simp only: new_sidecar_def)
  have d: "path_join (bt_path task) h \<in> set (t_dirs t2)"
    using makedirs_exists clean_dir_join [OF base h] write_file_done [OF side(2)] by (simp add: clean_dir_def)
  show ?thesis using side(3) a d ok(1) new_name(6) [OF base h]
    by (simp add: write_ascii_def write_file_def disk_ok_def)
qed (use ok(1) in \<open>auto simp: disk_ok_def\<close>)

lemma store_backup_restorable:
  assumes base: "clean_dir (bt_path task)" and h: "clean_name h" and st: "store_backup env task h data v t = (None, t')"
    and ok: "cipher_ok (be_cipher env)" "sha_ok (be_sha env)" "0 \<le> bt_retention task" "distinct (dkeys (t_files t))"
    and old: "older_than (vs_mtime v) (path_join (bt_path task) h) t"
  shows "restorable env t' (path_join (bt_path task) h) h data"
  using base h st
proof (cases rule: store_backup_cases)
  case (stored t2 t3)
  let ?d = "path_join (bt_path task) h" and ?p = "new_path env task h v"
  let ?n = "backup_name h (vs_now v) (new_suffix env)" and ?B = "backups_by_age t3 (path_join (bt_path task) h) h"
  note d = clean_dir_join [OF base h] and n = new_name [OF base h, where v = v and env = env]
  have t2: "t_files t2 = dset ?p \<lparr>sf_bytes = new_bytes env data v, sf_mtime = vs_mtime v\<rparr> (t_files t)"
    using write_file_done [OF stored(2)] by simp
  have w: "write_file (vs_sidecar v) (vs_mtime v) (?p @ sha_suffix) (new_sidecar env h data v) t2 = (None, t3)"
    and asc: "is_ascii (new_sidecar env h data v)"
    using write_ascii_done [OF stored(3)] by auto
  have t3: "t_files t3 = dset (?p @ sha_suffix) \<lparr>sf_bytes = new_sidecar env h data v, sf_mtime = vs_mtime v\<rparr> (t_files t2)"
    using write_file_done [OF w] by simp
  have pB: "?p \<in> set ?B" using n(1,2) by (auto simp: backups_iff [OF d] t3 t2 has_key_def new_path_def)
  have "mtime_of t3 q < mtime_of t3 ?p" if "q \<in> set ?B" "q \<noteq> ?p" for q
  proof -
    have "q \<noteq> ?p @ sha_suffix" using no_sidecar_backup [OF d pB] that(1) by blast
    moreover have "in_dir ?d q" using that(1) d by (auto simp: backups_iff)
    moreover have "has_key (t_files t3) q" using that(1) d by (auto simp: backups_iff)
    ultimately show ?thesis using old that(2)
      by (auto simp: mtime_of_def t3 t2 older_than_def has_key_def)
  qed
  moreover have srt: "sorted (map (mtime_of t3) ?B)" by (simp add: backups_by_age_def)
  moreover have ds: "distinct (dkeys (t_files t3))" using ok(4) by (simp add: t3 t2 distinct_update)
  ultimately have keep: "?p \<notin> set (before_last (bt_retention task) ?B)"
    using newest_not_before_last [OF backups_distinct [OF d] _ pB, of "mtime_of t3"] ok(3,4) srt ds by blast
  let ?old = "before_last (bt_retention task) ?B"
  have sub: "\<And>q. q \<in> set ?old \<Longrightarrow> q \<in> set ?B"
    using before_last_subset [of "bt_retention task" ?B] by auto
  have side: "\<And>q. q \<in> set ?B \<Longrightarrow> q @ sha_suffix \<notin> set ?B" using no_sidecar_backup [OF d] by blast
  have "\<not> removed (vs_stuck v) ?old ?p"
  proof
    assume "removed (vs_stuck v) ?old ?p"
    then obtain q where q: "q \<in> set ?old" "?p = q @ sha_suffix" using keep unfolding removed_def by blast
    then have "q @ sha_suffix \<in> set ?B" using pB by (simp only:)
    then show False using side [OF sub [OF q(1)]] by blast
  qed
  moreover have "\<not> removed (vs_stuck v) ?old (?p @ sha_suffix)"
    unfolding removed_def using keep sub side [OF pB] by auto
  ultimately have g: "dget (t_files t') ?p = Some \<lparr>sf_bytes = new_bytes env data v, sf_mtime = vs_mtime v\<rparr>"
    "dget (t_files t') (?p @ sha_suffix) = Some \<lparr>sf_bytes = new_sidecar env h data v, sf_mtime = vs_mtime v\<rparr>"
    by (simp_all add: stored(4) cleanup_files dget_filter_key t3 t2)
  have "?p = ?d @ slash # ?n" using n(1) d by (simp add: new_path_def path_join_name [of ?d] clean_name_def)
  then have suf: "endswith ?p (new_suffix env)" by (auto simp: endswith_iff backup_name_def)
  have "decrypt_backup (be_cipher env) t' ?p = Inr data"
  proof (cases "be_cipher env")
    case None
    then show ?thesis using g(1) suf by (simp add: decrypt_backup_def new_suffix_def new_bytes_def)
  next
    case (Some f)
    then show ?thesis using g(1) suf ok(1)
      by (simp add: decrypt_backup_def new_suffix_def new_bytes_def cipher_ok_def fernet_sound_def)
  qed
  moreover have "check_file (be_sha env) t' ?p = Inr (Some True)"
    using g asc sha_word(1,2) [OF ok(2)] by (simp add: check_file_def) (simp add: new_sidecar_def)
  ultimately show ?thesis unfolding restorable_def using n(1,2) new_path_def by metis
qed simp_all

subsection \<open>The run\<close>

text \<open>What a device hands over, when it is not skipped: host name and configuration.\<close>

definition handed :: "backup_env \<Rightarrow> backup_task \<Rightarrow> agent_state \<Rightarrow> nat \<Rightarrow> string \<Rightarrow> (string \<times> string) option" where
  "handed env task st i ip = (if skips_device task st ip then None
     else case session_with env task st i ip of Inl _ \<Rightarrow> None | Inr given \<Rightarrow> Some given)"

fun handed_hosts :: "backup_env \<Rightarrow> backup_task \<Rightarrow> agent_state \<Rightarrow> nat \<Rightarrow> string list \<Rightarrow> string list" where
  "handed_hosts env task st i [] = []"
| "handed_hosts env task st i (ip # ips) =
     (case handed env task st i ip of None \<Rightarrow> [] | Some (h, _) \<Rightarrow> [h]) @ handed_hosts env task st (Suc i) ips"

text \<open>What the outcome of one device promises about the tree at the end.\<close>

definition honest :: "backup_env \<Rightarrow> backup_task \<Rightarrow> agent_state \<Rightarrow> nat \<Rightarrow> string \<Rightarrow> outcome \<Rightarrow> tree \<Rightarrow> bool" where
  "honest env task st i ip r t \<longleftrightarrow> (case r of
       Skipped \<Rightarrow> skips_device task st ip
     | Failure h issue \<Rightarrow> \<not> skips_device task st ip \<and> (session_with env task st i ip = Inl (h, issue)
         \<or> (\<exists>data. session_with env task st i ip = Inr (h, data) \<and> \<not> (disk_ok (visit_to env task st i ip) \<and> is_ascii h)))
     | Saved h \<Rightarrow> (\<exists>data. handed env task st i ip = Some (h, data)
         \<and> restorable env t (path_join (bt_path task) h) h data))"

fun all_honest ::
    "backup_env \<Rightarrow> backup_task \<Rightarrow> agent_state \<Rightarrow> nat \<Rightarrow> (string \<times> outcome) list \<Rightarrow> tree \<Rightarrow> bool" where
  "all_honest env task st i [] t = True"
| "all_honest env task st i ((ip, r) # rs) t = (honest env task st i ip r t \<and> all_honest env task st (Suc i) rs t)"

definition fresh_run :: "backup_env \<Rightarrow> backup_task \<Rightarrow> agent_state \<Rightarrow> tree \<Rightarrow> bool" where
  "fresh_run env task st t \<longleftrightarrow> (\<forall>i ip q f. dget (t_files t) q = Some f \<longrightarrow> sf_mtime f < vs_mtime (visit_to env task st i ip))"

definition fresh_hosts :: "backup_env \<Rightarrow> backup_task \<Rightarrow> agent_state \<Rightarrow> string list \<Rightarrow> tree \<Rightarrow> bool" where
  "fresh_hosts env task st hs t \<longleftrightarrow> (\<forall>h \<in> set hs. \<forall>i ip. older_than (vs_mtime (visit_to env task st i ip)) (path_join (bt_path task) h) t)"

lemma backup_one_spec:
  assumes base: "clean_dir (bt_path task)" and hosts: "\<And>h data. handed env task st i ip = Some (h, data) \<Longrightarrow> clean_name h"
    and ok: "cipher_ok (be_cipher env)" "sha_ok (be_sha env)" "0 \<le> bt_retention task" "distinct (dkeys (t_files t))"
    and old: "\<And>h data. handed env task st i ip = Some (h, data) \<Longrightarrow> older_than (vs_mtime (visit_to env task st i ip)) (path_join (bt_path task) h) t"
    and one: "backup_one env task st i ip t = (r, t')"
  shows "honest env task st i ip r t'" "distinct (dkeys (t_files t'))"
    "(\<And>h data. handed env task st i ip = Some (h, data) \<Longrightarrow> \<not> in_dir (path_join (bt_path task) h) q) \<Longrightarrow>
      dget (t_files t') q = dget (t_files t) q"
proof -
  have "honest env task st i ip r t' \<and> distinct (dkeys (t_files t')) \<and>
    ((\<forall>h data. handed env task st i ip = Some (h, data) \<longrightarrow> \<not> in_dir (path_join (bt_path task) h) q) \<longrightarrow>
      dget (t_files t') q = dget (t_files t) q)"
  proof (cases "handed env task st i ip")
    case None
    then show ?thesis using one ok(4)
      by (auto simp: backup_one_def honest_def handed_def split: if_splits sum.splits)
  next
    case (Some given)
    obtain h data where given: "given = (h, data)" by fastforce
    let ?v = "visit_to env task st i ip"
    have s: "\<not> skips_device task st ip" "session_with env task st i ip = Inr (h, data)"
      using Some given by (auto simp: handed_def split: if_splits sum.splits)
    obtain x t2 where sb: "store_backup env task h data ?v t = (x, t2)" by fastforce
    have t2: "t2 = t'" "r = (case x of Some issue \<Rightarrow> Failure h issue | None \<Rightarrow> Saved h)"
      using one s sb by (auto simp: backup_one_def split: option.splits)
    have h: "clean_name h" using hosts Some given by blast
    note f = store_backup_frame [OF base h sb [unfolded t2]]
    have "honest env task st i ip r t'"
    proof (cases x)
      case None
      then show ?thesis using store_backup_restorable [OF base h _ ok old] sb Some given t2 by (auto simp: honest_def)
    next
      case x: (Some e)
      then have "\<not> (disk_ok ?v \<and> is_ascii h)" using store_backup_succeeds [OF base h sb] ok(2) by auto
      then show ?thesis using s x t2 by (simp add: honest_def)
    qed
    then show ?thesis using f ok(4) Some given by blast
  qed
  then show "honest env task st i ip r t'" "distinct (dkeys (t_files t'))"
    "(\<And>h data. handed env task st i ip = Some (h, data) \<Longrightarrow> \<not> in_dir (path_join (bt_path task) h) q) \<Longrightarrow>
      dget (t_files t') q = dget (t_files t) q" by blast+
qed

lemma hosts_apart:
  assumes "clean_dir base" "clean_name h" "clean_name h'" "h \<noteq> h'" "in_dir (path_join base h) q"
  shows "\<not> in_dir (path_join base h') q"
  using dir_unique [OF clean_dir_join clean_dir_join, OF assms(1,2,1,3) assms(5)] join_inj assms by blast

lemma honest_same:
  assumes "honest env task st i ip r t" "clean_dir (bt_path task)"
    and "\<And>h data. handed env task st i ip = Some (h, data) \<Longrightarrow> clean_name h \<and> same_in (path_join (bt_path task) h) t t'"
  shows "honest env task st i ip r t'"
proof (cases r)
  case (Saved h)
  then obtain data where d: "handed env task st i ip = Some (h, data)" "restorable env t (path_join (bt_path task) h) h data"
    using assms(1) by (auto simp: honest_def)
  then have "restorable env t' (path_join (bt_path task) h) h data"
    using assms(2) assms(3) [OF d(1)] restorable_same clean_dir_join by blast
  then show ?thesis using Saved d(1) by (auto simp: honest_def)
qed (use assms(1) in \<open>auto simp: honest_def\<close>)

lemma handed_hosts_Cons: "handed env task st i ip = Some (h, data) \<Longrightarrow> h \<in> set (handed_hosts env task st i (ip # ips))"
  by simp

lemma backup_all_spec:
  assumes base: "clean_dir (bt_path task)"
    and ok: "cipher_ok (be_cipher env)" "sha_ok (be_sha env)" "0 \<le> bt_retention task"
    and "distinct (dkeys (t_files t))"
    and "\<forall>h \<in> set (handed_hosts env task st i ips). clean_name h" "distinct (handed_hosts env task st i ips)"
    and "fresh_hosts env task st (handed_hosts env task st i ips) t"
    and "backup_all env task st i ips t = (rs, t')"
  shows "map fst rs = ips \<and> all_honest env task st i rs t'
    \<and> (\<forall>q. (\<forall>h \<in> set (handed_hosts env task st i ips). \<not> in_dir (path_join (bt_path task) h) q) \<longrightarrow>
        dget (t_files t') q = dget (t_files t) q)"
  using assms(5-)
proof (induction ips arbitrary: i t rs)
  case (Cons ip ips)
  obtain r t1 where one: "backup_one env task st i ip t = (r, t1)" by fastforce
  obtain rs1 t2 where rest: "backup_all env task st (Suc i) ips t1 = (rs1, t2)" by fastforce
  have rs: "rs = (ip, r) # rs1" "t' = t2" using Cons.prems(5) one rest by simp_all
  have rest: "backup_all env task st (Suc i) ips t1 = (rs1, t')" using rest rs(2) by simp
  let ?hs = "handed_hosts env task st (Suc i) ips"
  have mine: "clean_name h" "h \<notin> set ?hs" "older_than (vs_mtime (visit_to env task st i ip)) (path_join (bt_path task) h) t"
    if "handed env task st i ip = Some (h, data)" for h data
    using Cons.prems(2,3,4) that by (auto simp: fresh_hosts_def)
  have s: "honest env task st i ip r t1" "distinct (dkeys (t_files t1))"
    "\<And>q. (\<And>h data. handed env task st i ip = Some (h, data) \<Longrightarrow> \<not> in_dir (path_join (bt_path task) h) q) \<Longrightarrow>
      dget (t_files t1) q = dget (t_files t) q"
    using backup_one_spec [OF base _ ok Cons.prems(1) _ one] mine by blast+
  have clean: "\<forall>h \<in> set ?hs. clean_name h" "distinct ?hs" using Cons.prems(2,3) by auto
  have apart: "\<not> in_dir (path_join (bt_path task) h) q"
    if "handed env task st i ip = Some (h, data)" "h' \<in> set ?hs" "in_dir (path_join (bt_path task) h') q" for h data h' q
    using hosts_apart [OF base _ mine(1) _ that(3)] clean(1) mine(2) that(1,2) by blast
  have "fresh_hosts env task st ?hs t1"
    unfolding fresh_hosts_def
  proof (intro ballI allI)
    fix h j ip'
    assume h: "h \<in> set ?hs"
    have "same_in (path_join (bt_path task) h) t t1"
      unfolding same_in_def using s(3) apart h by blast
    moreover have "older_than (vs_mtime (visit_to env task st j ip')) (path_join (bt_path task) h) t"
      using Cons.prems(4) h by (simp add: fresh_hosts_def)
    ultimately show "older_than (vs_mtime (visit_to env task st j ip')) (path_join (bt_path task) h) t1"
      using older_same by blast
  qed
  note IH = Cons.IH [OF s(2) clean this rest]
  have "honest env task st i ip r t'"
  proof (rule honest_same [OF s(1) base])
    fix h data
    assume h: "handed env task st i ip = Some (h, data)"
    then have "\<forall>h' \<in> set ?hs. in_dir (path_join (bt_path task) h) q \<longrightarrow> \<not> in_dir (path_join (bt_path task) h') q" for q
      using apart by blast
    then show "clean_name h \<and> same_in (path_join (bt_path task) h) t1 t'"
      using IH mine(1) [OF h] unfolding same_in_def by blast
  qed
  moreover have "dget (t_files t') q = dget (t_files t) q"
    if "\<forall>h \<in> set (handed_hosts env task st i (ip # ips)). \<not> in_dir (path_join (bt_path task) h) q" for q
  proof -
    have "dget (t_files t') q = dget (t_files t1) q" using IH that by simp
    moreover have "dget (t_files t1) q = dget (t_files t) q"
      using s(3) [of q] that handed_hosts_Cons by blast
    ultimately show ?thesis by simp
  qed
  ultimately show ?case using IH rs by simp
qed simp

text \<open>
  C16: One nightly run over devices whose host names are distinct, with a clock that is ahead of the
  files of earlier runs.  Every listed device is accounted for once, in order, and the recorded
  counts are those of the outcomes.  A device is skipped only for its monitoring mode and reported
  as failed only when its own session, encryption or write failed.  At the end of the run, whatever
  happened to the others, every device reported as saved has a file in its directory that
  decrypt_backup turns back into the configuration the device gave and whose checksum verifies;
  and no file outside the directories of the devices that answered has changed.
\<close>

theorem saved_devices_are_restorable:
  assumes base: "clean_dir (bt_path task)" and "0 \<le> bt_retention task"
    and ok: "cipher_ok (be_cipher env)" "sha_ok (be_sha env)"
    and tree: "distinct (dkeys (t_files (bw_tree w)))" "fresh_run env task (bw_state w) (bw_tree w)"
    and ips: "backup_targets task content = ips" "ips \<noteq> []"
    and hosts: "\<forall>h \<in> set (handed_hosts env task (bw_state w) 0 ips). clean_name h" "distinct (handed_hosts env task (bw_state w) 0 ips)"
    and run: "backup_run_task udiff env task now content w = w'"
  shows "\<exists>rs. map fst rs = ips \<and> all_honest env task (bw_state w) 0 rs (bw_tree w')
    \<and> backup (bw_state w') = \<lparr>br_timestamp = Some now, br_success = int (length (saved_rows rs)),
        br_failed = int (length (failed_rows rs)), br_failed_devices = map failed_json (failed_rows rs)\<rparr>
    \<and> (\<forall>q. (\<forall>h \<in> set (handed_hosts env task (bw_state w) 0 ips). \<not> in_dir (path_join (bt_path task) h) q) \<longrightarrow>
        dget (t_files (bw_tree w')) q = dget (t_files (bw_tree w)) q)"
proof -
  obtain rs t where all: "backup_all env task (bw_state w) 0 ips (bw_tree w) = (rs, t)" by fastforce
  have "fresh_hosts env task (bw_state w) (handed_hosts env task (bw_state w) 0 ips) (bw_tree w)"
    using tree(2) by (auto simp: fresh_hosts_def fresh_run_def older_than_def)
  note s = backup_all_spec [OF base ok assms(2) tree(1) hosts this all]
  have "bw_tree w' = t" "backup (bw_state w') = \<lparr>br_timestamp = Some now, br_success = int (length (saved_rows rs)),
      br_failed = int (length (failed_rows rs)), br_failed_devices = map failed_json (failed_rows rs)\<rparr>"
    using ips all unfolding run [symmetric]
    by (simp_all add: backup_run_task_def Let_def set_backup_result_def save_state_def)
  then show ?thesis using s by blast
qed

text \<open>Two devices, one of which refuses the login.\<close>

definition sample_visit :: "string option \<Rightarrow> visit" where
  "sample_visit refused = \<lparr>vs_open = Inr (), vs_vendor = ''aruba_cx'', vs_login = refused, vs_hostname = Inr ''core'',
     vs_save = Inr None, vs_config = Inr (''vlan 10'', []), vs_mkdir = None, vs_encrypt = None, vs_write = None,
     vs_sidecar = None, vs_unencodable = [], vs_stuck = (\<lambda>_. False), vs_now = sample_now, vs_mtime = 100, vs_nonce = 0\<rparr>"

definition sample_env :: backup_env where
  "sample_env = \<lparr>be_cipher = Some sample_fernet, be_sha = (\<lambda>_. ''00ff''), be_redact = (\<lambda>s. s),
     be_visit = (\<lambda>i task ip vendor. sample_visit (if ip = ''10.0.0.2'' then Some ''HTTP 401'' else None))\<rparr>"

definition sample_task :: backup_task where
  "sample_task = \<lparr>bt_ip_list = ''ip_list.txt'', bt_path = ''/backups'', bt_retention = 7, bt_change_alerts = True,
     bt_max_lines = 80, bt_username = ''admin'', bt_password = ''x'', bt_api_version = [], bt_cisco = no_login,
     bt_cisco_napalm = ''ios'', bt_cisco_key_file = [], bt_cisco_read_timeout = 60, bt_cisco_delay_factor = Fin 2,
     bt_arubaos = no_login, bt_aos8 = no_login, bt_controllers_enabled = False, bt_controllers_backup = True,
     bt_controllers_vendor = ''aruba_aos8'', bt_aos8_backup_mode = ''flash'', bt_controller_ips = [],
     bt_arista = no_login, bt_arista_transport = ''https'', bt_arista_port = None\<rparr>"

definition sample_world :: backup_world where
  "sample_world = \<lparr>bw_tree = \<lparr>t_files = [(''/backups/core/old.txt'', \<lparr>sf_bytes = [], sf_mtime = 1\<rparr>)], t_dirs = []\<rparr>,
     bw_state = agent_data.extend empty_data \<lparr>store = open_json_store\<rparr>, bw_notifier = sample_notifier\<rparr>"

definition sample_list :: string where
  "sample_list = ''10.0.0.1'' @ newline @ ''# spare'' @ newline @ ''10.0.0.2''"

lemma sample_targets: "backup_targets sample_task (Some sample_list) = [''10.0.0.1'', ''10.0.0.2'']"
  by code_simp

lemma sample_sessions:
  "handed_hosts sample_env sample_task (bw_state sample_world) 0 [''10.0.0.1'', ''10.0.0.2''] = [''core'']"
  by (simp add: handed_def skips_device_def skip_modes_def session_with_def session_config_def visit_to_def
      sample_env_def sample_visit_def sample_world_def sample_task_def get_mode_for_host_def get_hostname_for_host_def
      switch_for_host_def empty_data_def agent_data.defs or_else_def)

theorem saved_devices_are_restorable_witness:
  "\<exists>rs. map fst rs = [''10.0.0.1'', ''10.0.0.2'']
    \<and> all_honest sample_env sample_task (bw_state sample_world) 0 rs
        (bw_tree (backup_run_task (\<lambda>_ _ _ _. []) sample_env sample_task sample_now (Some sample_list) sample_world))"
proof -
  have "clean_dir (bt_path sample_task)" "0 \<le> bt_retention sample_task" "cipher_ok (be_cipher sample_env)"
    "sha_ok (be_sha sample_env)" "distinct (dkeys (t_files (bw_tree sample_world)))"
    "fresh_run sample_env sample_task (bw_state sample_world) (bw_tree sample_world)"
    by (simp_all add: sample_task_def sample_env_def sample_visit_def sample_world_def clean_dir_def slash_def
        cipher_ok_def sample_sound sha_ok_def fresh_run_def visit_to_def)
  note f = saved_devices_are_restorable [OF this sample_targets]
  have "[''10.0.0.1'', ''10.0.0.2''] \<noteq> []"
    "\<forall>h \<in> set (handed_hosts sample_env sample_task (bw_state sample_world) 0 [''10.0.0.1'', ''10.0.0.2'']). clean_name h"
    "distinct (handed_hosts sample_env sample_task (bw_state sample_world) 0 [''10.0.0.1'', ''10.0.0.2''])"
    unfolding sample_sessions by (simp_all add: clean_name_def slash_def)
  from f [OF this refl, where udiff = "\<lambda>_ _ _ _. []" and now = sample_now] show ?thesis by (elim exE conjE, intro exI conjI)
qed

theorem rotation_keeps_newest_witness:
  "backups_by_age (cleanup (\<lambda>_. False) 1 ''/b/h'' ''h''
      \<lparr>t_files = [(''/b/h/h-startup-config-2.cfg'', \<lparr>sf_bytes = [], sf_mtime = 9\<rparr>),
         (''/b/h/h-startup-config-1.cfg'', \<lparr>sf_bytes = [], sf_mtime = 5\<rparr>)], t_dirs = []\<rparr>) ''/b/h'' ''h''
    = [''/b/h/h-startup-config-2.cfg'']"
proof -
  let ?t = "\<lparr>t_files = [(''/b/h/h-startup-config-2.cfg'', \<lparr>sf_bytes = [], sf_mtime = 9\<rparr>),
         (''/b/h/h-startup-config-1.cfg'', \<lparr>sf_bytes = [], sf_mtime = 5\<rparr>)], t_dirs = []\<rparr>"
  have "clean_dir ''/b/h''" "distinct (dkeys (t_files ?t))" "\<forall>p. \<not> (\<lambda>_. False) p" "(0::int) \<le> 1"
    by (simp_all add: clean_dir_def slash_def)
  note f = rotation_keeps_newest [OF this, of "''h''"]
  have "backups_by_age ?t ''/b/h'' ''h'' = [''/b/h/h-startup-config-1.cfg'', ''/b/h/h-startup-config-2.cfg'']"
    by code_simp
  then show ?thesis using f by simp
qed

text \<open>What the configuration page calls days is a number of files, and a retention of zero keeps everything.\<close>

lemma no_retention_keeps_all: "cleanup stuck 0 d h t = t"
  by (simp add: cleanup_def before_last_def)

end
