(* ===== verification/Arp_Proofs.thy ===== *)
theory Arp_Proofs
  imports Arp Backup_Proofs
begin

text \<open>
  ARP discovery: the table of a router is read back row by row, the CSV lists each reported host
  once with its latest entry, and the history keeps the newest files.
\<close>

subsection \<open>Words and lines\<close>

lemma words_empty: "words [] = []"
  by (subst words.simps) simp

lemma words_blank: "is_ws c \<Longrightarrow> words (c # s) = words s"
  unfolding words.simps [of "c # s"] words.simps [of s] by simp

lemma words_first: "\<not> is_ws c \<Longrightarrow> words (c # s) = takeWhile (\<lambda>c. \<not> is_ws c) (c # s) # words (dropWhile (\<lambda>c. \<not> is_ws c) s)"
  by (subst words.simps) (simp add: Let_def)

lemmas words_Nil = words_empty words_blank words_first

lemma words_ws: "\<forall>c \<in> set g. is_ws c \<Longrightarrow> words (g @ s) = words s"
  by (induction g) (simp_all add: words_Nil)

lemma dropWhile_all: "\<forall>c \<in> set w. P c \<Longrightarrow> dropWhile P (w @ s) = dropWhile P s"
  by (induction w) auto

lemma takeWhile_all: "\<forall>c \<in> set w. P c \<Longrightarrow> takeWhile P (w @ s) = w @ takeWhile P s"
  by (induction w) auto

definition word :: "string \<Rightarrow> bool" where
  "word w = (w \<noteq> [] \<and> (\<forall>c \<in> set w. \<not> is_ws c))"

lemma words_word: "word w \<Longrightarrow> words (w @ g) = (w @ takeWhile (\<lambda>c. \<not> is_ws c) g) # words (dropWhile (\<lambda>c. \<not> is_ws c) g)"
  by (cases w) (auto simp: word_def words_Nil dropWhile_all takeWhile_all)

lemma words_gap: "word w \<Longrightarrow> g \<noteq> [] \<Longrightarrow> \<forall>c \<in> set g. is_ws c \<Longrightarrow> words (w @ g @ s) = w # words s"
  by (cases g) (simp_all add: words_word words_ws words_Nil)

lemma words_last: "word w \<Longrightarrow> words w = [w]"
  using words_word [of w "[]"] by (simp add: words_Nil)

text \<open>Texts without a line break of their own.\<close>

definition plain_line :: "string \<Rightarrow> bool" where
  "plain_line l = (\<forall>c \<in> set l. byte c \<ge> 32 \<and> byte c < 128)"

lemma no_break: "byte c \<ge> 32 \<Longrightarrow> byte c < 128 \<Longrightarrow> line_break (c # s) = 0"
  by (auto simp: line_break_def startswith_def byte_def)

lemma lines_from_plain: "plain_line l \<Longrightarrow> lines_from acc (l @ s) = lines_from (rev l @ acc) s"
proof (induction l arbitrary: acc)
  case (Cons c l)
  then have "line_break (c # l @ s) = 0" using no_break [of c "l @ s"] by (simp add: plain_line_def)
  then show ?case using Cons by (simp add: plain_line_def)
qed simp

lemma lines_from_newline: "lines_from acc (CHR 0x0A # s) = rev acc # lines_from [] s"
  by (simp add: line_break_def startswith_def byte_def)

lemma splitlines_join:
  "ls \<noteq> [] \<Longrightarrow> \<forall>l \<in> set ls. plain_line l \<Longrightarrow> last ls \<noteq> [] \<Longrightarrow> splitlines (join newline ls) = ls"
proof (induction newline ls rule: join.induct)
  case (2 w)
  then show ?case using lines_from_plain [of w "[]" "[]"] by (simp add: splitlines_def)
next
  case (3 w v ws)
  have "splitlines (join newline (w # v # ws)) = lines_from [] (w @ CHR 0x0A # join newline (v # ws))"
    by (simp add: splitlines_def newline_def)
  also have "\<dots> = w # splitlines (join newline (v # ws))"
    using 3(3) by (simp add: lines_from_plain lines_from_newline splitlines_def del: join.simps lines_from.simps)
  finally show ?case using 3 by simp
qed simp

subsection \<open>The table of a router\<close>

definition arp_row_ok :: "arp_row \<Rightarrow> bool" where
  "arp_row_ok e = (dotted_quad (ar_ip e) \<and> mac_text '':-'' (ar_mac e) \<and> upper (ar_mac e) \<noteq> broadcast_mac \<and>
     word (ar_type e) \<and> plain_line (ar_type e) \<and>
     (ar_port e = [] \<or> word (ar_port e) \<and> plain_line (ar_port e) \<and> lower (ar_port e) \<notin> set arp_states))"

text \<open>A row of \<open>show arp\<close> with columns of width \<open>n\<close> or more; a missing port leaves its column blank.\<close>

definition print_arp :: "nat \<Rightarrow> string \<Rightarrow> arp_row \<Rightarrow> string" where
  "print_arp n st e = ljust n (ar_ip e) @ '' '' @ ljust n (ar_mac e) @ '' '' @ ljust n (ar_type e) @ '' '' @ ljust n (ar_port e) @ '' '' @ st"

lemma digits_prefix:
  assumes "isdigit_str w" "\<not> is_digit c"
  shows "dotted_prefix 0 (w @ c # s) \<longleftrightarrow> \<not> word_char c" "dotted_prefix (Suc m) (w @ c # s) \<longleftrightarrow> c = CHR ''.'' \<and> dotted_prefix m s"
proof -
  have "w \<noteq> []" "is_digit (hd w)" "dropWhile is_digit (w @ c # s) = c # s"
    using assms by (cases w; auto simp: isdigit_str_def list_all_iff dropWhile_all)+
  then show "dotted_prefix 0 (w @ c # s) \<longleftrightarrow> \<not> word_char c" "dotted_prefix (Suc m) (w @ c # s) \<longleftrightarrow> c = CHR ''.'' \<and> dotted_prefix m s"
    by (simp_all add: dotted_prefix.simps [of _ "w @ c # s"])
qed

lemma dotted_quad_join:
  assumes "dotted_quad ip"
  obtains a b c d where "ip = a @ CHR ''.'' # b @ CHR ''.'' # c @ CHR ''.'' # d"
    "isdigit_str a" "isdigit_str b" "isdigit_str c" "isdigit_str d"
proof -
  obtain a b c d where s: "split_on (CHR ''.'') ip = [a, b, c, d]"
    using assms by (auto simp: dotted_quad_def Let_def numeral_eq_Suc length_Suc_conv)
  have "ip = a @ CHR ''.'' # b @ CHR ''.'' # c @ CHR ''.'' # d"
    using join_split [of "CHR ''.''" ip] unfolding s by simp
  then show ?thesis using that assms s by (simp add: dotted_quad_def)
qed

lemma quad_prefix:
  assumes "dotted_quad ip" "\<not> word_char x"
  shows "dotted_prefix 3 (ip @ x # s)"
proof -
  obtain a b c d where ip: "ip = a @ CHR ''.'' # b @ CHR ''.'' # c @ CHR ''.'' # d"
    and d: "isdigit_str a" "isdigit_str b" "isdigit_str c" "isdigit_str d"
    using dotted_quad_join [OF assms(1)] .
  have dot: "\<not> is_digit (CHR ''.'')" by (simp add: is_digit_def)
  have x: "\<not> is_digit x" using assms(2) by (auto simp: word_char_def)
  show ?thesis unfolding ip numeral_3_eq_3
    using digits_prefix(2) [OF d(1) dot] digits_prefix(2) [OF d(2) dot] digits_prefix(2) [OF d(3) dot]
      digits_prefix(1) [OF d(4) x] assms(2) by simp
qed

lemma quad_chars: "dotted_quad ip \<Longrightarrow> c \<in> set ip \<Longrightarrow> is_digit c \<or> c = CHR ''.''"
  by (erule dotted_quad_join) (auto simp: isdigit_str_def list_all_iff)

lemma digit_plain: "is_digit c \<Longrightarrow> \<not> is_ws c \<and> 32 \<le> byte c \<and> byte c < 128"
  by (auto simp: is_digit_def is_ws_def byte_def Let_def)

lemma quad_word: "dotted_quad ip \<Longrightarrow> word ip \<and> plain_line ip"
proof -
  assume q: "dotted_quad ip"
  have "\<not> is_ws c \<and> 32 \<le> byte c \<and> byte c < 128" if "is_digit c \<or> c = CHR ''.''" for c
    using that digit_plain [of c] by (auto simp: is_ws_def byte_def)
  moreover have "ip \<noteq> []" using q by (auto simp: dotted_quad_def)
  ultimately show ?thesis using quad_chars [OF q] by (simp add: word_def plain_line_def)
qed

lemma mac_chars: "mac_text '':-'' m \<Longrightarrow> c \<in> set m \<Longrightarrow> hex_digit c \<or> c \<in> {CHR '':'', CHR ''-''}"
  by (auto simp: mac_text_def in_set_conv_nth split: if_splits)

lemma mac_word: "mac_text '':-'' m \<Longrightarrow> word m \<and> plain_line m"
proof -
  assume m: "mac_text '':-'' m"
  have "\<not> is_ws c \<and> 32 \<le> byte c \<and> byte c < 128" if "hex_digit c \<or> c \<in> {CHR '':'', CHR ''-''}" for c
    using that digit_plain [of c] by (auto simp: hex_digit_def is_ws_def byte_def)
  moreover have "m \<noteq> []" using m by (auto simp: mac_text_def)
  ultimately show ?thesis using mac_chars [OF m] by (simp add: word_def plain_line_def)
qed

lemma ljust_gap: "\<exists>g. ljust n w @ '' '' = w @ g \<and> g \<noteq> [] \<and> (\<forall>c \<in> set g. is_ws c) \<and> hd g = CHR '' ''"
  by (rule exI [of _ "replicate (n - length w) (CHR '' '') @ '' ''"]) (cases "n - length w"; simp add: ljust_def is_ws_def)

lemma words_column: "word w \<Longrightarrow> words (ljust n w @ CHR '' '' # s) = w # words s"
  using ljust_gap [of n w] words_gap by (metis append_assoc append_Cons append_Nil)

lemma words_blank_column: "words (ljust n [] @ CHR '' '' # s) = words s"
  using ljust_gap [of n "[]"] words_ws by (metis append_assoc append_Cons append_Nil)

lemma state_words: "st \<in> set arp_states \<Longrightarrow> word st \<and> plain_line st \<and> lower st \<in> set arp_states"
proof -
  have "list_all (\<lambda>st. st \<noteq> [] \<and> list_all (\<lambda>c. \<not> is_ws c \<and> 32 \<le> byte c \<and> byte c < 128) st \<and> lower st \<in> set arp_states) arp_states"
    by code_simp
  then show "st \<in> set arp_states \<Longrightarrow> word st \<and> plain_line st \<and> lower st \<in> set arp_states"
    by (auto simp: list_all_iff word_def plain_line_def)
qed

lemma arp_line_print:
  assumes ok: "arp_row_ok e" and st: "st \<in> set arp_states"
  shows "arp_line (print_arp n st e) = Some e"
proof -
  have w: "word (ar_ip e)" "word (ar_mac e)" "word (ar_type e)"
    using ok quad_word mac_word by (simp_all add: arp_row_ok_def)
  have words: "words (print_arp n st e) = ar_ip e # ar_mac e # ar_type e # (if ar_port e = [] then [st] else [ar_port e, st])"
    using w ok state_words [OF st] words_blank_column [of n st]
    by (auto simp: print_arp_def words_column words_last arp_row_ok_def)
  obtain g where g: "ljust n (ar_ip e) @ '' '' = ar_ip e @ g" "g \<noteq> []" "hd g = CHR '' ''"
    using ljust_gap by blast
  have "\<not> word_char (CHR '' '')" by (simp add: word_char_def is_digit_def lower_char_def)
  then have "dotted_prefix 3 (print_arp n st e)"
    using quad_prefix [of "ar_ip e" "CHR '' ''"] ok g unfolding print_arp_def arp_row_ok_def
    by (metis append_assoc append_Cons list.collapse)
  moreover have "lstrip (print_arp n st e) = print_arp n st e"
    using w(1) by (cases "ar_ip e") (auto simp: lstrip_def print_arp_def ljust_def word_def)
  ultimately show ?thesis
    using ok state_words [OF st] by (auto simp: arp_line_def words arp_row_ok_def)
qed

lemma plain_append [simp]: "plain_line (a @ b) \<longleftrightarrow> plain_line a \<and> plain_line b" "plain_line []"
  "plain_line (c # s) \<longleftrightarrow> 32 \<le> byte c \<and> byte c < 128 \<and> plain_line s"
  by (auto simp: plain_line_def)

lemma plain_print: "arp_row_ok e \<Longrightarrow> st \<in> set arp_states \<Longrightarrow> plain_line (print_arp n st e)"
proof -
  have l: "plain_line (ljust n w) \<longleftrightarrow> plain_line w" for w by (simp add: ljust_def) (simp add: plain_line_def byte_def)
  show "arp_row_ok e \<Longrightarrow> st \<in> set arp_states \<Longrightarrow> plain_line (print_arp n st e)"
    using quad_word [of "ar_ip e"] mac_word [of "ar_mac e"] state_words [of st]
    by (auto simp: print_arp_def l arp_row_ok_def byte_def)
qed

lemma strip_fix: "s \<noteq> [] \<Longrightarrow> \<not> is_ws (hd s) \<Longrightarrow> \<not> is_ws (last s) \<Longrightarrow> strip s = s"
  by (simp add: strip_def lstrip_def rstrip_def dropWhile_eq_self_iff [THEN iffD2] hd_rev)

lemma hd_join: "w \<noteq> [] \<Longrightarrow> hd (join sep (w # ws)) = hd w" "w \<noteq> [] \<Longrightarrow> join sep (w # ws) \<noteq> []"
  by (cases ws; simp)+

lemma last_join: "ls \<noteq> [] \<Longrightarrow> last ls \<noteq> [] \<Longrightarrow> join sep ls \<noteq> [] \<and> last (join sep ls) = last (last ls)"
  by (induction sep ls rule: join.induct) simp_all

text \<open>
  C31: The table of an AOS-CX router is read back: whatever its header says, each row gives its address,
  hardware address, VLAN and port, with no port where the column is blank.
\<close>

theorem arp_table_read_back:
  assumes hdr: "hdr \<noteq> []" "hd hdr \<noteq> []" "\<not> is_ws (hd (hd hdr))" "\<forall>l \<in> set hdr. plain_line l \<and> \<not> dotted_prefix 3 (lstrip l)"
    and rows: "es \<noteq> []" "\<forall>e \<in> set es. arp_row_ok e" "\<forall>e \<in> set es. st e \<in> set arp_states"
  shows "parse_arp (join newline (hdr @ map (\<lambda>e. print_arp n (st e) e) es)) = es"
proof -
  let ?ls = "hdr @ map (\<lambda>e. print_arp n (st e) e) es"
  obtain es' e where e: "es = es' @ [e]" using rows(1) by (cases es rule: rev_cases) auto
  have last: "last ?ls = print_arp n (st e) e" by (simp add: e)
  have st: "word (st e)" "st e \<noteq> []" using rows state_words [of "st e"] by (auto simp: e word_def)
  have ne: "print_arp n (st e) e \<noteq> []" "\<not> is_ws (last (print_arp n (st e) e))"
    using st last_in_set [of "st e"] by (auto simp: print_arp_def word_def)
  have "strip (join newline ?ls) = join newline ?ls"
  proof (rule strip_fix)
    show "join newline ?ls \<noteq> []" "\<not> is_ws (hd (join newline ?ls))"
      using hdr hd_join [of "hd hdr" newline "tl hdr @ map (\<lambda>e. print_arp n (st e) e) es"] by (cases hdr; simp)+
    show "\<not> is_ws (last (join newline ?ls))" using last_join [of ?ls newline] ne last hdr(1) by simp
  qed
  moreover have "splitlines (join newline ?ls) = ?ls"
    using hdr rows plain_print ne last by (intro splitlines_join) auto
  moreover have "List.map_filter arp_line hdr = []"
    using hdr(4) by (induction hdr) (auto simp: List.map_filter_def arp_line_def)
  moreover have "List.map_filter arp_line (map (\<lambda>e. print_arp n (st e) e) es) = es"
    using rows(2,3) by (induction es) (auto simp: List.map_filter_def arp_line_print)
  ultimately show ?thesis by (simp add: parse_arp_def List.map_filter_def)
qed

text \<open>
  The \<open>show arp\<close> of Cisco begins every row with the word Internet, and its hardware addresses have
  dots: nothing of it is read, although \<open>_fetch_arp\<close> counts on the parser for both vendors.
\<close>

lemma cisco_arp_ignored:
  assumes "\<forall>l \<in> set (splitlines (strip text)). l = [] \<or> \<not> is_digit (hd l) \<and> \<not> is_ws (hd l)"
  shows "parse_arp text = []"
proof -
  have "arp_line l = None" if "l \<in> set (splitlines (strip text))" for l
  proof (cases l)
    case Nil
    have "lstrip ([] :: string) = []" by (simp add: lstrip_def)
    then show ?thesis using Nil by (simp add: arp_line_def dotted_prefix.simps [of 3 "[]"])
  next
    case (Cons c cs)
    then have "lstrip l = l" "\<not> is_digit c" using assms that by (auto simp: lstrip_def)
    then show ?thesis using Cons by (simp add: arp_line_def dotted_prefix.simps [of 3 "c # cs"])
  qed
  then show ?thesis by (auto simp: parse_arp_def List.map_filter_def filter_empty_conv)
qed

subsection \<open>The rows of the file\<close>

lemma by_ip_snoc: "by_ip (es @ [e]) = dset (ar_ip e) e (by_ip es)"
  by (simp add: by_ip_def)

lemma by_ip_distinct: "distinct (dkeys (by_ip es))"
  by (induction es rule: rev_induct) (simp_all add: by_ip_snoc distinct_update, simp add: by_ip_def)

lemma by_ip_last:
  "dget (by_ip es) ip = Some e \<longleftrightarrow> (\<exists>pre post. es = pre @ e # post \<and> ar_ip e = ip \<and> ip \<notin> ar_ip ` set post)"
proof (induction es rule: rev_induct)
  case (snoc x es)
  note IH = snoc
  show ?case
  proof
    assume a: "dget (by_ip (es @ [x])) ip = Some e"
    show "\<exists>pre post. es @ [x] = pre @ e # post \<and> ar_ip e = ip \<and> ip \<notin> ar_ip ` set post"
    proof (cases "ar_ip x = ip")
      case True
      then show ?thesis using a by (intro exI [of _ es] exI [of _ "[]"]) (simp add: by_ip_snoc)
    next
      case False
      then obtain pre post where "es = pre @ e # post" "ar_ip e = ip" "ip \<notin> ar_ip ` set post"
        using a snoc by (auto simp: by_ip_snoc)
      then show ?thesis using False by (intro exI [of _ pre] exI [of _ "post @ [x]"]) auto
    qed
  next
    assume "\<exists>pre post. es @ [x] = pre @ e # post \<and> ar_ip e = ip \<and> ip \<notin> ar_ip ` set post"
    then obtain pre post where p: "es @ [x] = pre @ e # post" "ar_ip e = ip" "ip \<notin> ar_ip ` set post" by blast
    show "dget (by_ip (es @ [x])) ip = Some e"
    proof (cases post rule: rev_cases)
      case Nil
      then show ?thesis using p by (simp add: by_ip_snoc)
    next
      case (snoc post' y)
      then have "y = x" "es = pre @ e # post'" using p(1) by auto
      then have "dget (by_ip es) ip = Some e" using IH p snoc by auto
      moreover have "ip \<noteq> ar_ip x" using p(3) snoc \<open>y = x\<close> by auto
      ultimately show ?thesis by (simp add: by_ip_snoc)
    qed
  qed
qed (simp add: by_ip_def)

text \<open>
  The file lists each host once, with the entry that the last router gave for its address, and
  exactly the hosts whose address is a valid one of a configured subnet and does not end in 1, 2, 3
  or 255.
\<close>

theorem csv_lists_each_host_once:
  "distinct (map hd (csv_rows es names subnets)) \<and>
   (row \<in> set (csv_rows es names subnets) \<longleftrightarrow>
     (\<exists>pre e post n a. es = pre @ e # post \<and> ar_ip e \<notin> ar_ip ` set post \<and>
        last_octet (ar_ip e) = Some n \<and> n \<notin> {1, 2, 3, 255} \<and> parse_ipv4 (ar_ip e) = Some a \<and>
        list_ex (in_network a) (List.map_filter parse_network subnets) \<and>
        row = [ar_ip e, ar_mac e, ar_type e, ar_port e, (case dget names (ar_ip e) of None \<Rightarrow> [] | Some d \<Rightarrow> d)]))"
proof
  have "map hd (map (\<lambda>(ip, e). [ip, ar_mac e, ar_type e, ar_port e, (case dget names ip of None \<Rightarrow> [] | Some n \<Rightarrow> n)])
      (filter (\<lambda>(ip, e). reported subnets ip) d)) = filter (reported subnets) (dkeys d)" for d :: "(string, arp_row) dict"
    by (induction d) auto
  then have "map hd (csv_rows es names subnets) = filter (reported subnets) (dkeys (by_ip es))"
    unfolding csv_rows_def .
  then show "distinct (map hd (csv_rows es names subnets))" using by_ip_distinct by simp
  have "row \<in> set (csv_rows es names subnets) \<longleftrightarrow> (\<exists>ip e. (ip, e) \<in> set (by_ip es) \<and> reported subnets ip \<and>
      row = [ip, ar_mac e, ar_type e, ar_port e, (case dget names ip of None \<Rightarrow> [] | Some d \<Rightarrow> d)])"
    by (auto simp: csv_rows_def)
  also have "\<dots> \<longleftrightarrow> (\<exists>ip e. dget (by_ip es) ip = Some e \<and> reported subnets ip \<and>
      row = [ip, ar_mac e, ar_type e, ar_port e, (case dget names ip of None \<Rightarrow> [] | Some d \<Rightarrow> d)])"
    by (simp add: dget_iff_mem [OF by_ip_distinct])
  also have "\<dots> \<longleftrightarrow> (\<exists>pre e post n a. es = pre @ e # post \<and> ar_ip e \<notin> ar_ip ` set post \<and>
        last_octet (ar_ip e) = Some n \<and> n \<notin> {1, 2, 3, 255} \<and> parse_ipv4 (ar_ip e) = Some a \<and>
        list_ex (in_network a) (List.map_filter parse_network subnets) \<and>
        row = [ar_ip e, ar_mac e, ar_type e, ar_port e, (case dget names (ar_ip e) of None \<Rightarrow> [] | Some d \<Rightarrow> d)])"
    unfolding by_ip_last reported_def by (fastforce split: option.splits)
  finally show "row \<in> set (csv_rows es names subnets) \<longleftrightarrow>
     (\<exists>pre e post n a. es = pre @ e # post \<and> ar_ip e \<notin> ar_ip ` set post \<and>
        last_octet (ar_ip e) = Some n \<and> n \<notin> {1, 2, 3, 255} \<and> parse_ipv4 (ar_ip e) = Some a \<and>
        list_ex (in_network a) (List.map_filter parse_network subnets) \<and>
        row = [ar_ip e, ar_mac e, ar_type e, ar_port e, (case dget names (ar_ip e) of None \<Rightarrow> [] | Some d \<Rightarrow> d)])" .
qed

subsection \<open>The history\<close>

lemma remove_each_files:
  "t_files (fold (remove_unless stuck) ps t) = filter (\<lambda>(k, v). stuck k \<or> k \<notin> set ps) (t_files t)"
proof (induction ps arbitrary: t)
  case (Cons q ps)
  then show ?case by (auto simp: remove_unless_files intro!: filter_cong)
qed simp

lemma arp_files_iff:
  "clean_dir d \<Longrightarrow> p \<in> set (arp_files t d) \<longleftrightarrow>
     has_key (t_files t) p \<and> (\<exists>n. clean_name n \<and> p = path_join d n \<and> name_matches arp_prefix csv_suffix n)"
  by (auto simp: arp_files_def glob_in_eq has_key_iff in_dir_iff path_join_name clean_name_def)

lemma arp_files_distinct: "clean_dir d \<Longrightarrow> distinct (dkeys (t_files t)) \<Longrightarrow> distinct (arp_files t d)"
  by (simp add: arp_files_def glob_in_eq)

lemma arp_cleanup_files:
  "0 < n \<Longrightarrow> t_files (arp_cleanup stuck n d t) = filter (\<lambda>(k, v). stuck k \<or> k \<notin> set (before_last n (arp_files t d))) (t_files t)"
  by (simp add: arp_cleanup_def remove_each_files)

lemma arp_cleanup_keeps:
  assumes "clean_dir d" "distinct (dkeys (t_files t))" "\<forall>p. \<not> stuck p" "0 < n"
  shows "arp_files (arp_cleanup stuck n d t) d = drop (length (arp_files t d) - nat n) (arp_files t d)"
proof -
  let ?B = "arp_files t d" and ?t = "arp_cleanup stuck n d t"
  let ?old = "before_last n ?B"
  have g: "glob_in ?t d arp_prefix csv_suffix = filter (\<lambda>p. p \<notin> set ?old) (glob_in t d arp_prefix csv_suffix)"
    using assms(3) by (simp add: glob_in_eq [OF assms(1)] arp_cleanup_files [OF assms(4)] dkeys_filter conj_commute)
  have m: "mtime_of ?t p = mtime_of t p" if "p \<notin> set ?old" for p
    using that by (simp add: mtime_of_def arp_cleanup_files [OF assms(4)] dget_filter_key)
  have "arp_files ?t d = sort_key (mtime_of t) (filter (\<lambda>p. p \<notin> set ?old) (glob_in t d arp_prefix csv_suffix))"
    unfolding arp_files_def [of ?t] g by (rule sort_key_same) (simp add: m)
  also have "\<dots> = filter (\<lambda>p. p \<notin> set ?old) ?B"
    by (simp only: filter_sort [symmetric] arp_files_def [of t d])
  finally have "arp_files ?t d = filter (\<lambda>p. p \<notin> set ?old) ?B" .
  then show ?thesis
    using filter_not_before [OF arp_files_distinct [OF assms(1,2)], of "length ?B - nat n"] assms(4) by (simp add: before_last_def)
qed

lemma arp_file_name: "clean_name (arp_file d)" "name_matches arp_prefix csv_suffix (arp_file d)"
proof -
  have p: "slash \<notin> set (padded w n)" for w n
  proof (induction w arbitrary: n)
    case (Suc w)
    have "digit_char k \<noteq> slash" if "k < 10" for k
      using digit_char_props(1) [OF that] by (auto simp: slash_def is_digit_def)
    from this [of "n mod 10"] show ?case using Suc by (auto dest: sym)
  qed simp
  show "clean_name (arp_file d)"
    by (simp add: clean_name_def arp_file_def arp_stamp_def p) (simp add: arp_prefix_def csv_suffix_def slash_def)
  show "name_matches arp_prefix csv_suffix (arp_file d)"
    by (simp add: name_matches_def arp_file_def startswith_iff endswith_iff)
qed

definition scan_bytes :: "string list list \<Rightarrow> string" where
  "scan_bytes rows = concat (map csv_line (csv_header # rows))"

definition run_rows :: "arp_env \<Rightarrow> arp_task \<Rightarrow> agent_state \<Rightarrow> string list \<Rightarrow> string list list" where
  "run_rows env task st subnets = csv_rows (fetch_all env task st 0 (at_routers task)) (nmap_scan env subnets) subnets"

lemma write_csv_done:
  assumes "clean_dir (at_output_dir task)" "rows \<noteq> []" "ao_mkdir env = None" "ao_write env = None"
  shows "\<exists>t'. write_csv env task rows t = (None, t') \<and> t_files t' =
    dset (path_join (at_output_dir task) (arp_file (ao_now env))) \<lparr>sf_bytes = scan_bytes rows, sf_mtime = ao_mtime env\<rparr> (t_files t)"
proof -
  have ne: "at_output_dir task \<noteq> []" using assms(1) by (simp add: clean_dir_def)
  have "dirname (path_join (at_output_dir task) (arp_file (ao_now env))) \<in> set (t_dirs (makedirs (at_output_dir task) t))"
    using dirname_join [OF assms(1) arp_file_name(1)] makedirs_exists [OF ne] by simp
  then show ?thesis using assms ne by (simp add: write_csv_def write_file_def scan_bytes_def)
qed

text \<open>
  C32: A run whose routers give hosts to report, on a disk that works, with a positive retention, an output
  directory without a slash at its end and a clock that is ahead of the files of earlier runs, ends well:
  its file is there with the header and the rows, and the location has its new time.  Of the history and the new
  file exactly as many remain as the retention says, or all if there are fewer; they are the newest ones
  and are as they were, and no file that is not of the history is touched.
\<close>

theorem arp_scan_is_kept:
  assumes dir: "clean_dir (at_output_dir task)" and files: "distinct (dkeys (t_files (aw_tree w)))"
    and older: "older_than (ao_mtime env) (at_output_dir task) (aw_tree w)"
    and disk: "ao_mkdir env = None" "ao_write env = None" "\<forall>p. \<not> ao_stuck env p" and keep: "0 < at_retention task"
    and subnets: "load_subnets env task = Inr subnets" "subnets \<noteq> []" and routers: "at_routers task \<noteq> []"
    and rows: "run_rows env task (aw_state w) subnets \<noteq> []"
  shows "\<exists>w'. arp_run env task w = (None, w') \<and>
    dget (t_files (aw_tree w')) (path_join (at_output_dir task) (arp_file (ao_now env))) =
      Some \<lparr>sf_bytes = scan_bytes (run_rows env task (aw_state w) subnets), sf_mtime = ao_mtime env\<rparr> \<and>
    dget (arp_last_run (aw_state w')) (at_name task) = Some (Some (ao_now env)) \<and>
    length (arp_files (aw_tree w') (at_output_dir task)) = min (nat (at_retention task))
      (card (insert (path_join (at_output_dir task) (arp_file (ao_now env))) (set (arp_files (aw_tree w) (at_output_dir task))))) \<and>
    distinct (arp_files (aw_tree w') (at_output_dir task)) \<and>
    (\<forall>p. p \<noteq> path_join (at_output_dir task) (arp_file (ao_now env)) \<longrightarrow>
       p \<in> set (arp_files (aw_tree w') (at_output_dir task)) \<or> p \<notin> set (arp_files (aw_tree w) (at_output_dir task)) \<longrightarrow>
       dget (t_files (aw_tree w')) p = dget (t_files (aw_tree w)) p) \<and>
    (\<forall>p q. p \<in> set (arp_files (aw_tree w') (at_output_dir task)) \<longrightarrow> q \<in> set (arp_files (aw_tree w) (at_output_dir task)) \<longrightarrow>
       q \<notin> set (arp_files (aw_tree w') (at_output_dir task)) \<longrightarrow> mtime_of (aw_tree w) q \<le> mtime_of (aw_tree w') p)"
proof -
  let ?d = "at_output_dir task" and ?n = "at_retention task" and ?rows = "run_rows env task (aw_state w) subnets"
  let ?new = "path_join ?d (arp_file (ao_now env))"
  obtain t1 where wr: "write_csv env task ?rows (aw_tree w) = (None, t1)"
    and t1: "t_files t1 = dset ?new \<lparr>sf_bytes = scan_bytes ?rows, sf_mtime = ao_mtime env\<rparr> (t_files (aw_tree w))"
    using write_csv_done [OF dir rows disk(1,2)] by blast
  let ?t2 = "arp_cleanup (ao_stuck env) ?n ?d t1"
  define w' where "w' = w\<lparr>aw_tree := ?t2, aw_state := set_arp_last_run (ao_now env) (at_name task) (aw_state w)\<rparr>"
  have es: "fetch_all env task (aw_state w) 0 (at_routers task) \<noteq> []"
    using rows by (auto simp: run_rows_def csv_rows_def by_ip_def)
  have run: "arp_run env task w = (None, w')"
    using subnets routers es wr by (simp add: arp_run_def run_rows_def w'_def)
  have d1: "distinct (dkeys (t_files t1))" using files by (simp add: t1 distinct_update)
  let ?B = "arp_files t1 ?d" and ?K = "arp_files ?t2 ?d"
  have K: "?K = drop (length ?B - nat ?n) ?B" by (rule arp_cleanup_keeps [OF dir d1 disk(3) keep])
  have sorted: "sorted (map (mtime_of t1) ?B)" by (simp add: arp_files_def)
  have new_in: "?new \<in> set ?B" using arp_file_name dir by (auto simp: arp_files_iff t1)
  have newest: "mtime_of t1 q < mtime_of t1 ?new" if q: "q \<in> set ?B" "q \<noteq> ?new" for q
  proof -
    obtain f where f: "dget (t_files (aw_tree w)) q = Some f" "in_dir ?d q"
      using q dir by (auto simp: arp_files_iff t1 has_key_def split: if_splits)
    then show ?thesis using older q(2) by (auto simp: older_than_def mtime_of_def t1)
  qed
  have kept: "?new \<notin> set (before_last ?n ?B)"
    using newest_not_before_last [OF arp_files_distinct [OF dir d1] sorted new_in newest] keep by simp
  have old: "before_last ?n ?B = take (length ?B - nat ?n) ?B" using keep by (simp add: before_last_def)
  have stored: "dget (t_files ?t2) p = (if p \<in> set (before_last ?n ?B) then None else dget (t_files t1) p)" for p
    using disk(3) by (simp add: arp_cleanup_files [OF keep] dget_filter_key)
  have gone: "mtime_of (aw_tree w) q \<le> mtime_of ?t2 p"
    if "p \<in> set ?K" "q \<in> set (arp_files (aw_tree w) ?d)" "q \<notin> set ?K" for p q
  proof -
    have q: "q \<in> set ?B" using that(2) dir by (auto simp: arp_files_iff t1)
    then have q': "q \<in> set (take (length ?B - nat ?n) ?B)"
      using that(3) unfolding K by (metis Un_iff append_take_drop_id set_append)
    have "mtime_of t1 q \<le> mtime_of t1 p"
      using sorted that(1) q' unfolding K
      by (metis append_take_drop_id image_eqI list.set_map map_append sorted_append)
    moreover have "q \<noteq> ?new" using q' kept by (auto simp: old)
    moreover have "p \<notin> set (before_last ?n ?B)"
      using that(1) arp_files_distinct [OF dir d1] unfolding K old
      by (metis disjoint_iff order_refl set_take_disj_set_drop_if_distinct)
    ultimately show ?thesis by (simp add: mtime_of_def stored t1)
  qed
  have B: "set ?B = insert ?new (set (arp_files (aw_tree w) ?d))"
  proof -
    have "\<exists>n. clean_name n \<and> ?new = path_join ?d n \<and> name_matches arp_prefix csv_suffix n" using arp_file_name by blast
    then show ?thesis using dir by (auto simp: arp_files_iff t1)
  qed
  have dK: "distinct ?K" using arp_files_distinct [OF dir d1] by (simp add: K distinct_drop)
  have "length ?K = min (nat ?n) (length ?B)" by (simp add: K)
  then have len: "length ?K = min (nat ?n) (card (insert ?new (set (arp_files (aw_tree w) ?d))))"
    using distinct_card [OF arp_files_distinct [OF dir d1]] by (simp add: B)
  have same: "dget (t_files ?t2) p = dget (t_files (aw_tree w)) p"
    if "p \<noteq> ?new" "p \<in> set ?K \<or> p \<notin> set (arp_files (aw_tree w) ?d)" for p
  proof -
    have "p \<notin> set (before_last ?n ?B)"
    proof
      assume q: "p \<in> set (before_last ?n ?B)"
      then have "p \<in> set ?B" by (auto simp: old dest: in_set_takeD)
      then have "p \<in> set ?K" using that B by auto
      then show False using q arp_files_distinct [OF dir d1] unfolding K old
        by (metis disjoint_iff order_refl set_take_disj_set_drop_if_distinct)
    qed
    then show ?thesis using that(1) by (simp add: stored t1)
  qed
  show ?thesis using run kept gone len dK same
    by (intro exI [of _ w']) (auto simp: w'_def stored t1 set_arp_last_run_def save_state_def)
qed

subsection \<open>A router and a run\<close>

definition demo_table :: string where
  "demo_table = join newline [''IPv4 Address  MAC  Port  Physical Port  State'', ''10.0.0.9  d0:8e:79:03:e0:a2  vlan218  lag13  reachable'']"

definition demo_router :: http where
  "demo_router rqs rq = Answer \<lparr>rp_status = 200, rp_token = None, rp_cookies = [],
     rp_content = (if is_login rq then [] else demo_table), rp_json = None\<rparr>"

definition no_napalm :: napalm_box where
  "no_napalm = \<lparr>nb_import = Some (''ImportError'', ''napalm''), nb_driver = (\<lambda>_. None), nb_open = (\<lambda>_. None),
     nb_alive = Inr None, nb_facts = Inr [], nb_config = Inr (Config_Text []), nb_cli = (\<lambda>_. Inr None), nb_arp = Inr []\<rparr>"

definition no_netmiko :: netmiko_box where
  "no_netmiko = \<lparr>kb_import = Some (''ImportError'', ''netmiko''), kb_connect = (\<lambda>_. None), kb_send = (\<lambda>_ _. Output []),
     kb_alive = Inr False, kb_prompt = Inr [],
     kb_flash = \<lparr>fb_import = None, fb_connect = None, fb_sftp = None, fb_scp = None\<rparr>\<rparr>"

definition demo_side :: device_side where
  "demo_side = \<lparr>ds_http = demo_router, ds_napalm = no_napalm, ds_netmiko = no_netmiko, ds_redact = id\<rparr>"

definition demo_arp_env :: arp_env where
  "demo_arp_env = \<lparr>ao_subnets = Inr (Some ''10.0.0.9''), ao_nmap = (\<lambda>_. None), ao_side = (\<lambda>_ _. demo_side), ao_mkdir = None,
     ao_write = None, ao_stuck = (\<lambda>_. False), ao_now = sample_now, ao_mtime = 100\<rparr>"

definition demo_arp_task :: arp_task where
  "demo_arp_task = \<lparr>at_name = ''east'', at_routers = [''10.0.0.1''], at_ip_list = ''/etc/nets'', at_output_dir = ''/var/arp'',
     at_retention = 30, at_user = ''admin'', at_password = ''pw'', at_options = default_options\<rparr>"

definition demo_arp_world :: arp_world where
  "demo_arp_world = \<lparr>aw_tree = \<lparr>t_files = [], t_dirs = []\<rparr>, aw_state = agent_data.extend empty_data \<lparr>store = open_json_store\<rparr>\<rparr>"

definition demo_entry :: arp_row where
  "demo_entry = \<lparr>ar_ip = ''10.0.0.9'', ar_mac = ''d0:8e:79:03:e0:a2'', ar_type = ''vlan218'', ar_port = ''lag13''\<rparr>"

theorem arp_table_read_back_witness:
  "parse_arp (join newline ([''IPv4 Address  MAC  Port  Physical Port  State''] @ [print_arp 20 ''reachable'' demo_entry])) = [demo_entry]"
proof -
  have "plain_line ''IPv4 Address  MAC  Port  Physical Port  State'' \<and> \<not> is_ws CHR ''I''
      \<and> \<not> dotted_prefix 3 (lstrip ''IPv4 Address  MAC  Port  Physical Port  State'')"
    by code_simp
  moreover have "arp_row_ok demo_entry" "''reachable'' \<in> set arp_states" unfolding arp_row_ok_def word_def by code_simp+
  ultimately show ?thesis
    using arp_table_read_back [where hdr = "[''IPv4 Address  MAC  Port  Physical Port  State'']" and es = "[demo_entry]"
      and st = "\<lambda>_. ''reachable''" and n = 20] by simp
qed

lemma demo_fetch: "fetch_arp demo_side (driver_for ''10.0.0.1'' ''admin'' ''pw'' False None None default_options) = [demo_entry]"
  by code_simp

lemma demo_run_rows: "run_rows demo_arp_env demo_arp_task (aw_state demo_arp_world) [''10.0.0.9''] \<noteq> []"
proof -
  have mode: "get_mode_for_host (aw_state demo_arp_world) ''10.0.0.1'' = ''auto''" "get_vendor_for_host (aw_state demo_arp_world) ''10.0.0.1'' = []"
    by code_simp+
  have "''auto'' \<notin> set skip_modes" by code_simp
  then have "fetch_all demo_arp_env demo_arp_task (aw_state demo_arp_world) 0 [''10.0.0.1''] = [demo_entry]"
    using demo_fetch by (simp add: mode arp_driver_def demo_arp_env_def demo_arp_task_def)
  moreover have "last_octet ''10.0.0.9'' = Some 9" by code_simp
  moreover obtain a where a: "parse_ipv4 ''10.0.0.9'' = Some a"
    using parse_ipv4_def [of "''10.0.0.9''"] by (simp add: parse_octet_def is_digit_def digit_val_def)
  moreover have "split_on (CHR ''/'') ''10.0.0.9'' = [''10.0.0.9'']" by simp
  ultimately show ?thesis
    by (simp add: run_rows_def csv_rows_def demo_arp_task_def by_ip_def reported_def demo_entry_def List.map_filter_def
        parse_network_def in_network_def prefix_mask_def)
qed

theorem arp_scan_is_kept_witness:
  "\<exists>w'. arp_run demo_arp_env demo_arp_task demo_arp_world = (None, w') \<and>
     has_key (t_files (aw_tree w')) (path_join ''/var/arp'' (arp_file sample_now))"
proof -
  have "load_subnets demo_arp_env demo_arp_task = Inr [''10.0.0.9'']" by code_simp
  moreover have "clean_dir ''/var/arp''" by code_simp
  ultimately show ?thesis
    using arp_scan_is_kept [where env = demo_arp_env and task = demo_arp_task and w = demo_arp_world and subnets = "[''10.0.0.9'']"]
      demo_run_rows
    by (fastforce simp: demo_arp_env_def demo_arp_task_def demo_arp_world_def older_than_def has_key_def)
qed

end
