(* ===== verification/Manual_Hosts.thy ===== *)
theory Manual_Hosts
  imports Atomic_File Py_Data
begin

text \<open>
  The registry of manually pinned hosts and their monitoring modes
  (\<open>aruba_agent/manual_hosts.py\<close>): operations, the loader's repairs, and the registry contract.
  Entries are records of the fields \<open>add\<close> writes.
\<close>

subsection \<open>The store\<close>

definition valid_modes :: "string list" where
  "valid_modes = [''icmp'', ''snmp_ro'', ''snmp_rw'', ''auto'']"

definition default_mode :: string where
  "default_mode = ''auto''"

record manual_host =
  mh_name :: string
  mh_host :: string
  mh_mode :: string
  mh_profile :: string
  mh_description :: string
  mh_added_by :: string
  mh_created :: string

definition coerce_mode :: "string \<Rightarrow> string" where
  "coerce_mode m = (if m \<in> set valid_modes then m else default_mode)"

definition accept_host :: "manual_host \<Rightarrow> (string \<times> manual_host) option" where
  "accept_host h = (if mh_name h = [] \<or> mh_host h = [] then None
     else Some (mh_name h, h\<lparr>mh_mode := coerce_mode (mh_mode h)\<rparr>))"

definition open_hosts :: "manual_host list disk \<Rightarrow> manual_host registry" where
  "open_hosts d = registry_open accept_host d"

definition add_host ::
    "faults \<Rightarrow> datetime \<Rightarrow> string \<Rightarrow> string \<Rightarrow> string \<Rightarrow> string \<Rightarrow> string \<Rightarrow> string
      \<Rightarrow> manual_host registry \<Rightarrow> bool result \<times> manual_host registry" where
  "add_host fail now name0 host0 mode profile description added_by reg =
     (let name = strip name0; host = strip host0
      in if name = [] \<or> host = [] then (Inr False, reg)
         else if has_key (entries reg) name then (Inr False, reg)
         else commit fail reg (dset name
           \<lparr>mh_name = name, mh_host = host, mh_mode = coerce_mode mode, mh_profile = strip profile,
             mh_description = strip description, mh_added_by = or_else added_by ''?'',
             mh_created = iso_seconds now\<rparr> (entries reg)) True)"

text \<open>A partial update: \<open>None\<close> leaves a field alone, a blank host is ignored.\<close>

definition updated_host ::
    "string option \<Rightarrow> string option \<Rightarrow> string option \<Rightarrow> string option \<Rightarrow> manual_host \<Rightarrow> manual_host" where
  "updated_host mode profile description host h =
     (let h1 = (case mode of None \<Rightarrow> h | Some m \<Rightarrow> h\<lparr>mh_mode := m\<rparr>);
          h2 = (case profile of None \<Rightarrow> h1 | Some p \<Rightarrow> h1\<lparr>mh_profile := strip p\<rparr>);
          h3 = (case description of None \<Rightarrow> h2 | Some t \<Rightarrow> h2\<lparr>mh_description := strip t\<rparr>)
      in case host of None \<Rightarrow> h3 | Some a \<Rightarrow> if strip a \<noteq> [] then h3\<lparr>mh_host := strip a\<rparr> else h3)"

definition update_host ::
    "faults \<Rightarrow> string \<Rightarrow> string option \<Rightarrow> string option \<Rightarrow> string option \<Rightarrow> string option
      \<Rightarrow> manual_host registry \<Rightarrow> bool result \<times> manual_host registry" where
  "update_host fail name mode profile description host reg =
     (case dget (entries reg) name of
        None \<Rightarrow> (Inr False, reg)
      | Some h \<Rightarrow>
          if (case mode of None \<Rightarrow> False | Some m \<Rightarrow> m \<notin> set valid_modes) then (Inr False, reg)
          else commit fail reg (dset name (updated_host mode profile description host h) (entries reg)) True)"

definition remove_host :: "faults \<Rightarrow> string \<Rightarrow> manual_host registry \<Rightarrow> bool result \<times> manual_host registry" where
  "remove_host fail name reg = (if \<not> has_key (entries reg) name then (Inr False, reg)
     else commit fail reg (ddel name (entries reg)) True)"

definition list_hosts :: "manual_host registry \<Rightarrow> manual_host list" where
  "list_hosts reg = dvals (entries reg)"

definition get_mode :: "string \<Rightarrow> manual_host registry \<Rightarrow> string option" where
  "get_mode host reg = map_option mh_mode (find (\<lambda>h. mh_host h = host) (dvals (entries reg)))"

definition get_snmp_profile :: "string \<Rightarrow> manual_host registry \<Rightarrow> string" where
  "get_snmp_profile host reg = (case find (\<lambda>h. mh_host h = host) (dvals (entries reg)) of
       None \<Rightarrow> [] | Some h \<Rightarrow> mh_profile h)"

subsection \<open>The registry contract\<close>

definition host_ok :: "string \<Rightarrow> manual_host \<Rightarrow> bool" where
  "host_ok k h \<longleftrightarrow> mh_name h = k \<and> k \<noteq> [] \<and> mh_host h \<noteq> [] \<and> mh_mode h \<in> set valid_modes"

interpretation hosts: json_registry accept_host host_ok
  by unfold_locales
    (auto simp: accept_host_def host_ok_def coerce_mode_def valid_modes_def default_mode_def split: if_splits)

datatype host_op =
    AddHost datetime string string string string string string
  | UpdateHost string "string option" "string option" "string option" "string option"
  | RemoveHost string

fun host_step :: "manual_host registry \<Rightarrow> faults \<times> host_op \<Rightarrow> bool result \<times> manual_host registry" where
  "host_step reg (fail, AddHost now n h m p d b) = add_host fail now n h m p d b reg"
| "host_step reg (fail, UpdateHost n m p d h) = update_host fail n m p d h reg"
| "host_step reg (fail, RemoveHost n) = remove_host fail n reg"

lemma host_ok_new:
  "name \<noteq> [] \<Longrightarrow> host \<noteq> [] \<Longrightarrow> host_ok name \<lparr>mh_name = name, mh_host = host, mh_mode = coerce_mode m,
     mh_profile = p, mh_description = d, mh_added_by = b, mh_created = t\<rparr>"
  by (simp add: host_ok_def coerce_mode_def default_mode_def valid_modes_def)

lemma host_ok_updated:
  "host_ok k h \<Longrightarrow> (case mode of None \<Rightarrow> True | Some m \<Rightarrow> m \<in> set valid_modes) \<Longrightarrow>
   host_ok k (updated_host mode p d a h)"
  by (auto simp: host_ok_def updated_host_def Let_def split: option.splits)

lemma host_step_orderly:
  "dict_ok host_ok (entries reg) \<Longrightarrow> orderly host_ok reg (host_step reg e)"
proof (cases "(reg, e)" rule: host_step.cases)
  case (2 r fail n m p d a)
  assume ok: "dict_ok host_ok (entries reg)"
  from 2 ok show ?thesis
    by (auto simp: update_host_def split: if_splits option.splits
        intro!: orderly_commit dict_ok_dset host_ok_updated dest: dict_okD)
qed (auto simp: add_host_def remove_host_def Let_def
    intro!: orderly_commit dict_ok_dset dict_ok_ddel host_ok_new)

interpretation host_machine: machine "\<lambda>reg e. snd (host_step reg e)" "\<lambda>reg. dict_ok host_ok (entries reg)" "\<lambda>_. True"
  by unfold_locales (rule orderly_inv [OF host_step_orderly])

lemma hosts_reachable:
  "dict_ok host_ok (entries (foldl (\<lambda>reg e. snd (host_step reg e)) (open_hosts d) es))"
  by (rule host_machine.run_inv) (simp_all add: open_hosts_def hosts.open_ok list_all_iff)

lemma host_step_changed:
  "host_step reg e = (Inr True, reg') \<Longrightarrow> synced reg'"
  by (cases "(reg, e)" rule: host_step.cases)
    (auto simp: add_host_def update_host_def remove_host_def Let_def dest!: arg_cong [where f = fst] commitD
      split: if_splits option.splits)

lemma host_step_refused: "host_step reg e = (Inr False, reg') \<Longrightarrow> reg' = reg"
  by (cases "(reg, e)" rule: host_step.cases)
    (auto simp: add_host_def update_host_def remove_host_def Let_def dest!: commitD
      split: if_splits option.splits)

lemma reopen_synced: "synced reg \<Longrightarrow> dict_ok host_ok (entries reg) \<Longrightarrow> open_hosts (backing reg) = reg"
  using hosts.restart [of reg] by (simp add: open_hosts_def registry_open_def)

lemma get_mode_valid: "dict_ok host_ok (entries reg) \<Longrightarrow> get_mode a reg = Some m \<Longrightarrow> m \<in> set valid_modes"
  unfolding get_mode_def dict_ok_def host_ok_def by (fastforce dest!: find_SomeD)

text \<open>
  C10: After any sequence of operations, disk faults included, starting from any file: a change that
  returned True is on disk, so that a restart gives back the registry exactly; one that returned
  False changed nothing; one that raised left the file as it was; and the mode the poller reads for
  a host is one of the four valid ones, whatever was typed or stored.
\<close>

theorem manual_hosts_durable:
  assumes "reg = foldl (\<lambda>reg e. snd (host_step reg e)) (open_hosts d) es"
    and "host_step reg e = (res, reg')"
  shows "(res = Inr True \<longrightarrow> open_hosts (backing reg') = reg')
    \<and> (res = Inr False \<longrightarrow> reg' = reg)
    \<and> (\<forall>x. res = Inl x \<longrightarrow> target (backing reg') = target (backing reg))
    \<and> (\<forall>a m. get_mode a reg' = Some m \<longrightarrow> m \<in> set valid_modes)"
proof -
  have ok: "dict_ok host_ok (entries reg)" unfolding assms(1) by (rule hosts_reachable)
  have o: "orderly host_ok reg (res, reg')" using host_step_orderly [OF ok, of e] assms(2) by simp
  have ok': "dict_ok host_ok (entries reg')" using orderly_inv [OF o ok] by simp
  show ?thesis
    using reopen_synced [OF _ ok'] get_mode_valid [OF ok'] orderly_failed [OF o]
      host_step_changed [of reg e reg'] host_step_refused [of reg e reg'] assms(2) by auto
qed

lemma manual_hosts_durable_witness:
  "\<exists>reg reg'. host_step reg (no_faults, UpdateHost ''edge'' (Some ''snmp_ro'') None None None) = (Inr True, reg')
    \<and> get_mode ''10.99.0.5'' reg' = Some ''snmp_ro'' \<and> open_hosts (backing reg') = reg'"
proof -
  define d :: "manual_host list disk" where "d = \<lparr>target = Missing, target_mode = 0, temp = None\<rparr>"
  define es where "es = [(no_faults, AddHost sample_now '' edge '' ''10.99.0.5'' ''ping'' '''' '''' '''')]"
  define reg where "reg = foldl (\<lambda>reg e. snd (host_step reg e)) (open_hosts d) es"
  define reg' where "reg' = snd (host_step reg (no_faults, UpdateHost ''edge'' (Some ''snmp_ro'') None None None))"
  have reg: "entries reg = [(''edge'', \<lparr>mh_name = ''edge'', mh_host = ''10.99.0.5'', mh_mode = ''auto'', mh_profile = '''',
     mh_description = '''', mh_added_by = ''?'', mh_created = iso_seconds sample_now\<rparr>)]"
    by (simp add: reg_def es_def d_def open_hosts_def registry_open_def load_entries_def add_host_def Let_def
        strip_def lstrip_def rstrip_def is_ws_def coerce_mode_def valid_modes_def default_mode_def)
  have s: "host_step reg (no_faults, UpdateHost ''edge'' (Some ''snmp_ro'') None None None) = (Inr True, reg')"
    by (rule prod_eqI) (simp_all add: reg'_def update_host_def reg valid_modes_def)
  have m: "get_mode ''10.99.0.5'' reg' = Some ''snmp_ro''"
    by (simp add: reg'_def get_mode_def update_host_def reg valid_modes_def updated_host_def)
  show ?thesis using s m manual_hosts_durable [OF reg_def s] by blast
qed

end
