(* ===== verification/Credentials.thy ===== *)
theory Credentials
  imports Py_Data "HOL-Library.Word"
begin

text \<open>
  The credential hashes of \<open>aruba_agent/local_auth.py\<close> (\<open>hash_password\<close>, \<open>verify_password\<close>) and
  \<open>aruba_agent/api_tokens.py\<close> (\<open>_hash_token\<close>, \<open>_verify_token\<close>): the two modules spell out the
  same functions, with another length of the derived key.

  \<open>hashlib.scrypt\<close> is a parameter, \<open>kdf\<close>: password, salt, N, r, p and length give the digest, or
  \<open>None\<close> when the library raises.  Random salts are arguments.  Base64 is modelled in full, with the
  lenient decoder of \<open>binascii.a2b_base64\<close>.
\<close>

type_synonym bytes = "8 word list"
type_synonym kdf = "string \<Rightarrow> bytes \<Rightarrow> int \<Rightarrow> int \<Rightarrow> int \<Rightarrow> nat \<Rightarrow> bytes option"

subsection \<open>URL-safe base64\<close>

definition b64_char :: "nat \<Rightarrow> char" where
  "b64_char v = (if v < 26 then char_of (65 + v) else if v < 52 then char_of (71 + v)
     else if v < 62 then char_of (v - 4) else if v = 62 then CHR ''-'' else CHR ''_'')"

text \<open>The sextet of a character: the decoder first maps \<open>-_\<close> to \<open>+/\<close>.\<close>

definition b64_val :: "char \<Rightarrow> nat option" where
  "b64_val c = (let n = (of_char c :: nat)
     in if 65 \<le> n \<and> n \<le> 90 then Some (n - 65)
        else if 97 \<le> n \<and> n \<le> 122 then Some (n - 71)
        else if 48 \<le> n \<and> n \<le> 57 then Some (n + 4)
        else if c = CHR ''-'' \<or> c = CHR ''+'' then Some 62
        else if c = CHR ''_'' \<or> c = CHR ''/'' then Some 63 else None)"

fun urlsafe_b64encode :: "bytes \<Rightarrow> string" where
  "urlsafe_b64encode [] = []"
| "urlsafe_b64encode [a] =
     [b64_char (unat a div 4), b64_char (unat a mod 4 * 16), CHR ''='', CHR ''='']"
| "urlsafe_b64encode [a, b] =
     [b64_char (unat a div 4), b64_char (unat a mod 4 * 16 + unat b div 16),
      b64_char (unat b mod 16 * 4), CHR ''='']"
| "urlsafe_b64encode (a # b # c # bs) =
     b64_char (unat a div 4) # b64_char (unat a mod 4 * 16 + unat b div 16)
     # b64_char (unat b mod 16 * 4 + unat c div 64) # b64_char (unat c mod 64) # urlsafe_b64encode bs"

definition b64e :: "bytes \<Rightarrow> string" where
  "b64e bs = rev (dropWhile (\<lambda>c. c = CHR ''='') (rev (urlsafe_b64encode bs)))"

text \<open>
  The decoder: \<open>q\<close> is the position in the group of four, \<open>left\<close> the bits carried over, \<open>pads\<close> the
  number of consecutive pad characters.  Other characters are skipped, a complete pad sequence ends
  the input, an incomplete last group is \<open>binascii.Error\<close>, a \<open>ValueError\<close> (\<open>None\<close>).
\<close>

fun b64_scan :: "nat \<Rightarrow> nat \<Rightarrow> nat \<Rightarrow> string \<Rightarrow> bytes option" where
  "b64_scan q left pads [] = (if q = 0 then Some [] else None)"
| "b64_scan q left pads (c # cs) =
     (if c = CHR ''='' then
        (if 2 \<le> q \<and> 4 \<le> q + (pads + 1) then Some []
         else b64_scan q left (if 2 \<le> q then pads + 1 else pads) cs)
      else case b64_val c of
        None \<Rightarrow> b64_scan q left pads cs
      | Some v \<Rightarrow>
          if q = 0 then b64_scan 1 v 0 cs
          else if q = 1 then map_option ((#) (word_of_nat (left * 4 + v div 16))) (b64_scan 2 (v mod 16) 0 cs)
          else if q = 2 then map_option ((#) (word_of_nat (left * 16 + v div 4))) (b64_scan 3 (v mod 4) 0 cs)
          else map_option ((#) (word_of_nat (left * 64 + v))) (b64_scan 0 0 0 cs))"

definition b64d :: "string \<Rightarrow> bytes option" where
  "b64d s = b64_scan 0 0 0 (s @ replicate ((4 - length s mod 4) mod 4) (CHR ''=''))"

subsection \<open>Hash strings\<close>

definition scrypt_n :: int where "scrypt_n = 16384"
definition scrypt_r :: int where "scrypt_r = 8"
definition scrypt_p :: int where "scrypt_p = 1"

definition hash_secret :: "kdf \<Rightarrow> nat \<Rightarrow> bytes \<Rightarrow> string \<Rightarrow> string result" where
  "hash_secret kdf dklen salt secret = (case kdf secret salt scrypt_n scrypt_r scrypt_p dklen of
       None \<Rightarrow> Inl ValueError
     | Some digest \<Rightarrow> Inr (''scrypt$N='' @ int_str scrypt_n @ ''$r='' @ int_str scrypt_r
         @ ''$p='' @ int_str scrypt_p @ ''$'' @ b64e salt @ ''$'' @ b64e digest))"

text \<open>\<open>int(part.split("=", 1)[1])\<close>: \<open>None\<close> for the \<open>IndexError\<close> and the \<open>ValueError\<close>.\<close>

fun after_eq :: "string \<Rightarrow> string option" where
  "after_eq [] = None"
| "after_eq (c # cs) = (if c = CHR ''='' then Some cs else after_eq cs)"

definition part_int :: "string \<Rightarrow> int option" where
  "part_int s = Option.bind (after_eq s) py_int"

definition parse_hash :: "string \<Rightarrow> (int \<times> int \<times> int \<times> bytes \<times> bytes) option" where
  "parse_hash encoded = (case split_on (CHR ''$'') encoded of
       [scheme, n_part, r_part, p_part, b64salt, b64hash] \<Rightarrow>
         if scheme \<noteq> ''scrypt'' then None
         else Option.bind (part_int n_part) (\<lambda>n. Option.bind (part_int r_part) (\<lambda>r.
           Option.bind (part_int p_part) (\<lambda>p. Option.bind (b64d b64salt) (\<lambda>salt.
           map_option (\<lambda>target. (n, r, p, salt, target)) (b64d b64hash)))))
     | _ \<Rightarrow> None)"

definition verify_secret :: "kdf \<Rightarrow> string \<Rightarrow> string \<Rightarrow> bool" where
  "verify_secret kdf secret encoded = (case parse_hash encoded of
       None \<Rightarrow> False
     | Some (n, r, p, salt, target) \<Rightarrow>
         (case kdf secret salt n r p (length target) of None \<Rightarrow> False | Some digest \<Rightarrow> digest = target))"

text \<open>What the code relies on: with the code's parameters scrypt gives a digest of the length asked for.\<close>

definition kdf_total :: "kdf \<Rightarrow> bool" where
  "kdf_total kdf \<longleftrightarrow> (\<forall>secret salt dklen. 0 < dklen \<longrightarrow>
     (\<exists>digest. kdf secret salt 16384 8 1 dklen = Some digest \<and> length digest = dklen))"

subsection \<open>Round trips\<close>

lemma b64_val_char [simp]: "v < 64 \<Longrightarrow> b64_val (b64_char v) = Some v"
  by (auto simp: b64_char_def b64_val_def Let_def)

lemma b64_char_neq [simp]:
  assumes "v < 64"
  shows "b64_char v \<noteq> CHR ''=''" "b64_char v \<noteq> CHR ''$''"
proof -
  have "b64_val (CHR ''='') = None" "b64_val (CHR ''$'') = None" by (simp_all add: b64_val_def)
  then show "b64_char v \<noteq> CHR ''=''" "b64_char v \<noteq> CHR ''$''"
    using b64_val_char [OF assms] by auto
qed

lemma unat_byte: "unat (a :: 8 word) < 256"
  using unsigned_less [of a, where ?'a = nat] by simp

lemma sextet_bounds [simp]:
  "unat (a :: 8 word) div 4 < 64"
  "unat (a :: 8 word) mod 4 * 16 < 64"
  "unat (a :: 8 word) mod 4 * 16 + unat (b :: 8 word) div 16 < 64"
  "unat (b :: 8 word) mod 16 * 4 < 64"
  "unat (b :: 8 word) mod 16 * 4 + unat (c :: 8 word) div 64 < 64"
  "unat (c :: 8 word) mod 64 < 64"
  using unat_byte [of a] unat_byte [of b] unat_byte [of c] by linarith+

lemma byte_digits [simp]:
  "unat (b :: 8 word) div 256 = 0" "unat b div 16 mod 16 = unat b div 16" "unat b div 64 mod 4 = unat b div 64"
  using unat_byte [of b] by simp_all

lemma nested_div [simp]: "(n :: nat) div 16 div 16 = n div 256" "(n :: nat) div 64 div 4 = n div 256"
  by (simp_all add: div_mult2_eq [symmetric])

text \<open>The encoding without its padding, and what the decoder makes of it.\<close>

fun b64_body :: "bytes \<Rightarrow> string" where
  "b64_body [] = []"
| "b64_body [a] = [b64_char (unat a div 4), b64_char (unat a mod 4 * 16)]"
| "b64_body [a, b] =
     [b64_char (unat a div 4), b64_char (unat a mod 4 * 16 + unat b div 16), b64_char (unat b mod 16 * 4)]"
| "b64_body (a # b # c # bs) =
     b64_char (unat a div 4) # b64_char (unat a mod 4 * 16 + unat b div 16)
     # b64_char (unat b mod 16 * 4 + unat c div 64) # b64_char (unat c mod 64) # b64_body bs"

lemma b64_body_chars: "c \<in> set (b64_body bs) \<Longrightarrow> \<exists>v < 64. c = b64_char v"
  by (induction bs rule: b64_body.induct) (auto intro: sextet_bounds)

lemma b64_body_clean: "CHR ''='' \<notin> set (b64_body bs)" "CHR ''$'' \<notin> set (b64_body bs)"
  using b64_body_chars b64_char_neq by metis+

lemma encode_body: "\<exists>n. urlsafe_b64encode bs = b64_body bs @ replicate n (CHR ''='')"
proof (induction bs rule: urlsafe_b64encode.induct)
  case (2 a) show ?case by (rule exI [of _ 2]) (simp add: numeral_2_eq_2)
next
  case (3 a b) show ?case by (rule exI [of _ 1]) simp
qed auto

lemma dropWhile_rev_pad:
  "c \<notin> set xs \<Longrightarrow> rev (dropWhile (\<lambda>x. x = c) (rev (xs @ replicate n c))) = xs"
proof -
  assume "c \<notin> set xs"
  moreover have "dropWhile (\<lambda>x. x = c) (replicate n c) = []" by (induction n) auto
  ultimately show ?thesis
    by (cases xs rule: rev_cases) (auto simp: dropWhile_append)
qed

lemma b64e_body: "b64e bs = b64_body bs"
proof -
  obtain n where n: "urlsafe_b64encode bs = b64_body bs @ replicate n (CHR ''='')" using encode_body by blast
  show ?thesis unfolding b64e_def n by (rule dropWhile_rev_pad) (rule b64_body_clean)
qed

lemma Suc4_mod_4: "Suc (Suc (Suc (Suc n))) mod 4 = n mod 4"
  by presburger

lemma b64_scan_body:
  "b64_scan 0 l 0 (b64_body bs @ replicate ((4 - length (b64_body bs) mod 4) mod 4) (CHR ''='')) = Some bs"
proof (induction bs arbitrary: l rule: b64_body.induct)
  case (2 a)
  show ?case by (simp add: numeral_2_eq_2 del: of_nat_add of_nat_mult)
next
  case (4 a b c bs)
  then show ?case by (simp add: Suc4_mod_4 del: of_nat_add of_nat_mult)
qed (simp_all del: of_nat_add of_nat_mult)

lemma b64d_b64e [simp]: "b64d (b64e bs) = Some bs"
  by (simp add: b64d_def b64e_body b64_scan_body)

lemma b64e_clean [simp]: "CHR ''$'' \<notin> set (b64e bs)"
  by (simp add: b64e_body b64_body_clean)

text \<open>What \<open>hash_secret\<close> prints is read back, and then verifies exactly the secrets with that digest.\<close>

lemma nat_str_clean [simp]: "CHR ''$'' \<notin> set (nat_str n)"
  using nat_str_digits [of "CHR ''$''" n] is_digit_not_special(7) by blast

lemma int_str_clean [simp]: "CHR ''$'' \<notin> set (int_str n)"
  by (simp add: int_str_def)

lemma part_int_print [simp]: "0 \<le> n \<Longrightarrow> part_int (c # CHR ''='' # int_str n) = (if c = CHR ''='' then py_int (CHR ''='' # int_str n) else Some n)"
  by (auto simp: part_int_def int_str_def py_int_nat_str)

lemma parse_hash_print:
  "parse_hash (''scrypt$N='' @ int_str 16384 @ ''$r='' @ int_str 8 @ ''$p='' @ int_str 1 @ ''$'' @ b64e salt @ ''$'' @ b64e digest)
     = Some (16384, 8, 1, salt, digest)"
proof -
  have "''scrypt$N='' @ int_str 16384 @ ''$r='' @ int_str 8 @ ''$p='' @ int_str 1 @ ''$'' @ b64e salt @ ''$'' @ b64e digest
    = join ''$'' [''scrypt'', ''N='' @ int_str 16384, ''r='' @ int_str 8, ''p='' @ int_str 1, b64e salt, b64e digest]"
    by simp
  then show ?thesis
    by (simp only: parse_hash_def) (subst split_join; auto)
qed

lemma hash_secret_nonempty: "hash_secret kdf dk salt secret = Inr h \<Longrightarrow> h \<noteq> []"
  by (auto simp: hash_secret_def split: option.splits)

lemma verify_hash:
  assumes "hash_secret kdf dk salt secret = Inr h" "kdf_total kdf" "0 < dk"
  shows "verify_secret kdf s h \<longleftrightarrow> kdf s salt 16384 8 1 dk = kdf secret salt 16384 8 1 dk"
proof -
  obtain digest where d: "kdf secret salt 16384 8 1 dk = Some digest" "length digest = dk"
    using assms(2,3) unfolding kdf_total_def by blast
  obtain digest' where d': "kdf s salt 16384 8 1 dk = Some digest'"
    using assms(2,3) unfolding kdf_total_def by blast
  have h: "h = ''scrypt$N='' @ int_str 16384 @ ''$r='' @ int_str 8 @ ''$p='' @ int_str 1 @ ''$'' @ b64e salt @ ''$'' @ b64e digest"
    using assms(1) d by (simp add: hash_secret_def scrypt_n_def scrypt_r_def scrypt_p_def)
  show ?thesis unfolding h verify_secret_def parse_hash_print using d d' by simp
qed

lemma hash_secret_total: "kdf_total kdf \<Longrightarrow> 0 < dk \<Longrightarrow> \<exists>h. hash_secret kdf dk salt secret = Inr h"
  unfolding kdf_total_def hash_secret_def scrypt_n_def scrypt_r_def scrypt_p_def
  by (metis (no_types, lifting) option.simps(5))

text \<open>A function of the kind the hypothesis describes.\<close>

definition sample_kdf :: kdf where
  "sample_kdf secret salt n r p dklen = (if dklen = 0 then None
     else Some (take dklen (map (\<lambda>c. of_char c) secret @ salt @ replicate dklen 0)))"

lemma sample_kdf_total: "kdf_total sample_kdf"
  by (auto simp: kdf_total_def sample_kdf_def min_def)

end
