(* ===== verification/Local_Auth.thy ===== *)
theory Local_Auth
  imports Atomic_File Credentials
begin

text \<open>
  The local user store (\<open>aruba_agent/local_auth.py\<close>): bootstrap, password check and change, TOTP
  enrolment with single-use recovery codes, passkeys, and user management, over the registry of
  Atomic\_File and the hashes of Credentials.

  Users are records of the fields the code writes; an absent key is \<open>None\<close>.
\<close>

subsection \<open>The store\<close>

record passkey =
  pk_id :: string
  pk_public_key :: string
  pk_sign_count :: int
  pk_name :: string
  pk_created :: string
  pk_last_used :: "string option"

record user =
  us_name :: string
  us_hash :: string
  us_must_change :: bool
  us_created :: string
  us_last_login :: "string option"
  us_totp_secret :: "string option"
  us_totp_recovery :: "string list option"
  us_totp_enrolled :: "string option"
  us_passkeys :: "passkey list option"

definition password_dklen :: nat where
  "password_dklen = 64"

definition default_username :: string where "default_username = ''admin''"
definition default_password :: string where "default_password = ''admin''"
definition min_password_len :: nat where "min_password_len = 8"

definition accept_user :: "user \<Rightarrow> (string \<times> user) option" where
  "accept_user u = (if us_name u = [] \<or> us_hash u = [] then None else Some (us_name u, u))"

definition open_users :: "user list disk \<Rightarrow> user registry" where
  "open_users d = registry_open accept_user d"

definition new_user :: "datetime \<Rightarrow> string \<Rightarrow> string \<Rightarrow> bool \<Rightarrow> user" where
  "new_user now name h must_change =
     \<lparr>us_name = name, us_hash = h, us_must_change = must_change, us_created = iso_seconds now,
       us_last_login = None, us_totp_secret = None, us_totp_recovery = None, us_totp_enrolled = None,
       us_passkeys = None\<rparr>"

text \<open>Replace a user's record and save; the shape of every change to an existing user.\<close>

definition put_user :: "faults \<Rightarrow> string \<Rightarrow> user \<Rightarrow> user registry \<Rightarrow> bool result \<times> user registry" where
  "put_user fail name u reg = commit fail reg (dset name u (entries reg)) True"

definition bootstrap_default_admin ::
    "kdf \<Rightarrow> faults \<Rightarrow> datetime \<Rightarrow> bytes \<Rightarrow> user registry \<Rightarrow> bool result \<times> user registry" where
  "bootstrap_default_admin kdf fail now salt reg =
     (if entries reg \<noteq> [] then (Inr False, reg)
      else case hash_secret kdf password_dklen salt default_password of
        Inl e \<Rightarrow> (Inl e, reg)
      | Inr h \<Rightarrow> put_user fail default_username (new_user now default_username h True) reg)"

text \<open>The dummy verification of an unknown user has no result, only a duration.\<close>

definition user_authenticate ::
    "kdf \<Rightarrow> faults \<Rightarrow> datetime \<Rightarrow> string \<Rightarrow> string \<Rightarrow> user registry \<Rightarrow> bool result \<times> user registry" where
  "user_authenticate kdf fail now name password reg =
     (if name = [] \<or> password = [] then (Inr False, reg)
      else case dget (entries reg) name of
        None \<Rightarrow> (Inr False, reg)
      | Some u \<Rightarrow>
          if \<not> verify_secret kdf password (us_hash u) then (Inr False, reg)
          else put_user fail name (u\<lparr>us_last_login := Some (iso_seconds now)\<rparr>) reg)"

definition must_change_password :: "string \<Rightarrow> user registry \<Rightarrow> bool" where
  "must_change_password name reg =
     (case dget (entries reg) name of None \<Rightarrow> False | Some u \<Rightarrow> us_must_change u)"

definition change_password ::
    "kdf \<Rightarrow> faults \<Rightarrow> bytes \<Rightarrow> string \<Rightarrow> string \<Rightarrow> user registry \<Rightarrow> bool result \<times> user registry" where
  "change_password kdf fail salt name password reg =
     (if length password < min_password_len then (Inr False, reg)
      else case dget (entries reg) name of
        None \<Rightarrow> (Inr False, reg)
      | Some u \<Rightarrow>
          (case hash_secret kdf password_dklen salt password of
             Inl e \<Rightarrow> (Inl e, reg)
           | Inr h \<Rightarrow> put_user fail name (u\<lparr>us_hash := h, us_must_change := False\<rparr>) reg))"

subsection \<open>TOTP and recovery codes\<close>

definition get_totp_secret :: "string \<Rightarrow> user registry \<Rightarrow> string option" where
  "get_totp_secret name reg = Option.bind (dget (entries reg) name) us_totp_secret"

definition totp_enabled :: "string \<Rightarrow> user registry \<Rightarrow> bool" where
  "totp_enabled name reg =
     (case get_totp_secret name reg of None \<Rightarrow> False | Some s \<Rightarrow> s \<noteq> [])"

definition enroll_totp ::
    "faults \<Rightarrow> datetime \<Rightarrow> string \<Rightarrow> string \<Rightarrow> string list \<Rightarrow> user registry \<Rightarrow> bool result \<times> user registry" where
  "enroll_totp fail now name secret hashes reg =
     (if secret = [] \<or> hashes = [] then (Inr False, reg)
      else case dget (entries reg) name of
        None \<Rightarrow> (Inr False, reg)
      | Some u \<Rightarrow> put_user fail name (u\<lparr>us_totp_secret := Some secret, us_totp_recovery := Some hashes,
          us_totp_enrolled := Some (iso_seconds now)\<rparr>) reg)"

definition disable_totp :: "faults \<Rightarrow> string \<Rightarrow> user registry \<Rightarrow> bool result \<times> user registry" where
  "disable_totp fail name reg = (case dget (entries reg) name of
       None \<Rightarrow> (Inr False, reg)
     | Some u \<Rightarrow>
         if us_totp_secret u = None \<and> us_totp_recovery u = None \<and> us_totp_enrolled u = None
         then (Inr False, reg)
         else put_user fail name
           (u\<lparr>us_totp_secret := None, us_totp_recovery := None, us_totp_enrolled := None\<rparr>) reg)"

definition normalize_code :: "string \<Rightarrow> string" where
  "normalize_code s = upper (filter (\<lambda>c. c \<noteq> CHR ''-'' \<and> c \<noteq> CHR '' '') s)"

definition recovery_hashes :: "user \<Rightarrow> string list" where
  "recovery_hashes u = (case us_totp_recovery u of None \<Rightarrow> [] | Some hs \<Rightarrow> hs)"

definition consume_recovery_code ::
    "kdf \<Rightarrow> faults \<Rightarrow> string \<Rightarrow> string \<Rightarrow> user registry \<Rightarrow> bool result \<times> user registry" where
  "consume_recovery_code kdf fail name candidate reg =
     (if candidate = [] then (Inr False, reg)
      else case dget (entries reg) name of
        None \<Rightarrow> (Inr False, reg)
      | Some u \<Rightarrow>
          (case find (verify_secret kdf (normalize_code candidate)) (recovery_hashes u) of
             None \<Rightarrow> (Inr False, reg)
           | Some h \<Rightarrow> put_user fail name
               (u\<lparr>us_totp_recovery := Some (remove1 h (recovery_hashes u))\<rparr>) reg))"

definition recovery_codes_remaining :: "string \<Rightarrow> user registry \<Rightarrow> nat" where
  "recovery_codes_remaining name reg =
     (case dget (entries reg) name of None \<Rightarrow> 0 | Some u \<Rightarrow> length (recovery_hashes u))"

subsection \<open>Passkeys\<close>

definition user_passkeys :: "user \<Rightarrow> passkey list" where
  "user_passkeys u = (case us_passkeys u of None \<Rightarrow> [] | Some ks \<Rightarrow> ks)"

definition add_passkey ::
    "faults \<Rightarrow> string \<Rightarrow> passkey \<Rightarrow> user registry \<Rightarrow> bool result \<times> user registry" where
  "add_passkey fail name pk reg = (case dget (entries reg) name of
       None \<Rightarrow> (Inr False, reg)
     | Some u \<Rightarrow> put_user fail name (u\<lparr>us_passkeys := Some (user_passkeys u @ [pk])\<rparr>) reg)"

text \<open>The rows of \<open>list_passkeys\<close>: identifier, name, creation, last use, counter; no key.\<close>

definition list_passkeys ::
    "string \<Rightarrow> user registry \<Rightarrow> (string \<times> string \<times> string \<times> string option \<times> int) list" where
  "list_passkeys name reg = (case dget (entries reg) name of None \<Rightarrow> []
     | Some u \<Rightarrow> map (\<lambda>k. (pk_id k, pk_name k, pk_created k, pk_last_used k, pk_sign_count k)) (user_passkeys u))"

definition get_passkey :: "string \<Rightarrow> string \<Rightarrow> user registry \<Rightarrow> passkey option" where
  "get_passkey name cid reg = Option.bind (dget (entries reg) name)
     (\<lambda>u. find (\<lambda>k. pk_id k = cid) (user_passkeys u))"

text \<open>Change the first element that satisfies a test, as the loops that return after a change do.\<close>

fun amend_first :: "('a \<Rightarrow> bool) \<Rightarrow> ('a \<Rightarrow> 'a) \<Rightarrow> 'a list \<Rightarrow> 'a list" where
  "amend_first P f [] = []"
| "amend_first P f (x # xs) = (if P x then f x # xs else x # amend_first P f xs)"

definition update_passkey_after_use ::
    "faults \<Rightarrow> datetime \<Rightarrow> string \<Rightarrow> string \<Rightarrow> int \<Rightarrow> user registry \<Rightarrow> bool result \<times> user registry" where
  "update_passkey_after_use fail now name cid n reg = (case dget (entries reg) name of
       None \<Rightarrow> (Inr False, reg)
     | Some u \<Rightarrow>
         if find (\<lambda>k. pk_id k = cid) (user_passkeys u) = None then (Inr False, reg)
         else put_user fail name (u\<lparr>us_passkeys := Some (amend_first (\<lambda>k. pk_id k = cid)
           (\<lambda>k. k\<lparr>pk_sign_count := n, pk_last_used := Some (iso_seconds now)\<rparr>) (user_passkeys u))\<rparr>) reg)"

definition remove_passkey ::
    "faults \<Rightarrow> string \<Rightarrow> string \<Rightarrow> user registry \<Rightarrow> bool result \<times> user registry" where
  "remove_passkey fail name cid reg = (case dget (entries reg) name of
       None \<Rightarrow> (Inr False, reg)
     | Some u \<Rightarrow>
         let new = filter (\<lambda>k. pk_id k \<noteq> cid) (user_passkeys u)
         in if length new = length (user_passkeys u) then (Inr False, reg)
            else put_user fail name (u\<lparr>us_passkeys := Some new\<rparr>) reg)"

definition list_credential_ids :: "string \<Rightarrow> user registry \<Rightarrow> string list" where
  "list_credential_ids name reg = (case dget (entries reg) name of None \<Rightarrow> []
     | Some u \<Rightarrow> filter (\<lambda>i. i \<noteq> []) (map pk_id (user_passkeys u)))"

definition find_user_by_credential_id :: "string \<Rightarrow> user registry \<Rightarrow> string option" where
  "find_user_by_credential_id cid reg =
     map_option fst (find (\<lambda>(name, u). \<exists>k \<in> set (user_passkeys u). pk_id k = cid) (entries reg))"

subsection \<open>User management\<close>

text \<open>The rows of \<open>list_users\<close>: name, must-change flag, creation, last login.\<close>

definition list_users :: "user registry \<Rightarrow> (string \<times> bool \<times> string \<times> string option) list" where
  "list_users reg = map (\<lambda>u. (us_name u, us_must_change u, us_created u, us_last_login u)) (dvals (entries reg))"

definition add_user ::
    "kdf \<Rightarrow> faults \<Rightarrow> datetime \<Rightarrow> bytes \<Rightarrow> string \<Rightarrow> string \<Rightarrow> bool \<Rightarrow> user registry \<Rightarrow> bool result \<times> user registry" where
  "add_user kdf fail now salt name password must_change reg =
     (if name = [] \<or> password = [] then (Inr False, reg)
      else if has_key (entries reg) name then (Inr False, reg)
      else case hash_secret kdf password_dklen salt password of
        Inl e \<Rightarrow> (Inl e, reg)
      | Inr h \<Rightarrow> put_user fail name (new_user now name h must_change) reg)"

definition remove_user :: "faults \<Rightarrow> string \<Rightarrow> user registry \<Rightarrow> bool result \<times> user registry" where
  "remove_user fail name reg =
     (if \<not> has_key (entries reg) name then (Inr False, reg)
      else if length (entries reg) \<le> 1 then (Inr False, reg)
      else commit fail reg (ddel name (entries reg)) True)"

end
