(* ===== verification/Api_Tokens.thy ===== *)
theory Api_Tokens
  imports Atomic_File Credentials
begin

text \<open>
  API tokens (\<open>aruba_agent/api_tokens.py\<close>): minting, revocation, authentication and scopes, over
  the registry of Atomic\_File and the hashes of Credentials.  The random bytes of a token, its
  identifier and its salt are arguments.
\<close>

subsection \<open>The store\<close>

record api_token =
  tk_id :: string
  tk_name :: string
  tk_scopes :: "string list"
  tk_hash :: string
  tk_created :: string
  tk_created_by :: string
  tk_last_used :: "string option"

definition token_prefix :: string where "token_prefix = ''aat_''"
definition token_dklen :: nat where "token_dklen = 32"

definition known_scopes :: "string list" where
  "known_scopes = [''state.read'', ''backup.trigger'', ''scanner.trigger'', ''arp.trigger'', ''snmp.test'']"

definition accept_token :: "api_token \<Rightarrow> (string \<times> api_token) option" where
  "accept_token t = (if tk_id t = [] \<or> tk_hash t = [] then None else Some (tk_id t, t))"

definition open_tokens :: "api_token list disk \<Rightarrow> api_token registry" where
  "open_tokens d = registry_open accept_token d"

text \<open>\<open>mint\<close> gives the identifier and the clear text.\<close>

definition mint_token ::
    "kdf \<Rightarrow> faults \<Rightarrow> datetime \<Rightarrow> bytes \<Rightarrow> bytes \<Rightarrow> bytes \<Rightarrow> string \<Rightarrow> string list \<Rightarrow> string
      \<Rightarrow> api_token registry \<Rightarrow> (string \<times> string) result \<times> api_token registry" where
  "mint_token kdf fail now secret_bytes id_bytes salt name scopes created_by reg =
     (let cleartext = token_prefix @ b64e secret_bytes; tid = ''tok_'' @ b64e id_bytes
      in case hash_secret kdf token_dklen salt cleartext of
           Inl e \<Rightarrow> (Inl e, reg)
         | Inr h \<Rightarrow> commit fail reg (dset tid
             \<lparr>tk_id = tid, tk_name = or_else (strip name) ''unnamed'', tk_scopes = dedupe scopes, tk_hash = h,
               tk_created = iso_seconds now, tk_created_by = or_else created_by ''?'', tk_last_used = None\<rparr>
             (entries reg)) (tid, cleartext))"

definition revoke_token :: "faults \<Rightarrow> string \<Rightarrow> api_token registry \<Rightarrow> bool result \<times> api_token registry" where
  "revoke_token fail tid reg = (if \<not> has_key (entries reg) tid then (Inr False, reg)
     else commit fail reg (ddel tid (entries reg)) True)"

text \<open>The rows of \<open>list_tokens\<close>: every field but the hash.\<close>

definition list_tokens ::
    "api_token registry \<Rightarrow> (string \<times> string \<times> string list \<times> string \<times> string \<times> string option) list" where
  "list_tokens reg = map (\<lambda>t. (tk_id t, tk_name t, tk_scopes t, tk_created t, tk_created_by t, tk_last_used t))
     (dvals (entries reg))"

record token_record =
  tr_id :: string
  tr_name :: string
  tr_scopes :: "string list"

text \<open>The first token, in the order they were minted, whose hash the clear text verifies.\<close>

definition token_authenticate ::
    "kdf \<Rightarrow> faults \<Rightarrow> datetime \<Rightarrow> string \<Rightarrow> api_token registry
      \<Rightarrow> token_record option result \<times> api_token registry" where
  "token_authenticate kdf fail now cleartext reg =
     (if \<not> startswith cleartext token_prefix then (Inr None, reg)
      else case find (\<lambda>(_, t). verify_secret kdf cleartext (tk_hash t)) (entries reg) of
        None \<Rightarrow> (Inr None, reg)
      | Some (tid, t) \<Rightarrow> commit fail reg (dset tid (t\<lparr>tk_last_used := Some (iso_seconds now)\<rparr>) (entries reg))
          (Some \<lparr>tr_id = tid, tr_name = tk_name t, tr_scopes = tk_scopes t\<rparr>))"

definition has_scope :: "token_record \<Rightarrow> string \<Rightarrow> bool" where
  "has_scope r required = (''*'' \<in> set (tr_scopes r) \<or> required \<in> set (tr_scopes r))"

subsection \<open>The registry contract\<close>

definition token_ok :: "string \<Rightarrow> api_token \<Rightarrow> bool" where
  "token_ok k t \<longleftrightarrow> tk_id t = k \<and> k \<noteq> [] \<and> tk_hash t \<noteq> []"

interpretation tokens: json_registry accept_token token_ok
  by unfold_locales (auto simp: accept_token_def token_ok_def split: if_splits)

datatype token_op =
    Mint datetime bytes bytes bytes string "string list" string
  | Revoke string
  | Use datetime string

text \<open>The registry after an operation; its answer does not matter to the registry.\<close>

fun token_step :: "kdf \<Rightarrow> api_token registry \<Rightarrow> faults \<times> token_op \<Rightarrow> api_token registry" where
  "token_step kdf reg (fail, Mint now b i s n sc by') = snd (mint_token kdf fail now b i s n sc by' reg)"
| "token_step kdf reg (fail, Revoke tid) = snd (revoke_token fail tid reg)"
| "token_step kdf reg (fail, Use now c) = snd (token_authenticate kdf fail now c reg)"

lemma mint_orderly: "dict_ok token_ok (entries reg) \<Longrightarrow> orderly token_ok reg (mint_token kdf fail now b i s n sc by' reg)"
  by (auto simp: mint_token_def Let_def token_ok_def dest: hash_secret_nonempty
      intro!: orderly_commit dict_ok_dset split: sum.split)

lemma revoke_orderly: "dict_ok token_ok (entries reg) \<Longrightarrow> orderly token_ok reg (revoke_token fail tid reg)"
  by (auto simp: revoke_token_def intro!: orderly_commit dict_ok_ddel)

lemma authenticate_orderly:
  assumes ok: "dict_ok token_ok (entries reg)"
  shows "orderly token_ok reg (token_authenticate kdf fail now c reg)"
proof (cases "find (\<lambda>(_, t). verify_secret kdf c (tk_hash t)) (entries reg)")
  case (Some kt)
  then have "(fst kt, snd kt) \<in> set (entries reg)" using find_SomeD by fastforce
  then have "token_ok (fst kt) (snd kt)" using ok by (auto simp: dict_ok_def)
  then have "token_ok (fst kt) ((snd kt)\<lparr>tk_last_used := Some x\<rparr>)" for x by (simp add: token_ok_def)
  then show ?thesis using Some ok
    by (auto simp: token_authenticate_def split: prod.split intro!: orderly_commit dict_ok_dset)
qed (auto simp: token_authenticate_def)

lemma token_step_inv: "dict_ok token_ok (entries reg) \<Longrightarrow> dict_ok token_ok (entries (token_step kdf reg e))"
  by (cases "(kdf, reg, e)" rule: token_step.cases)
    (auto intro: orderly_inv [OF mint_orderly] orderly_inv [OF revoke_orderly] orderly_inv [OF authenticate_orderly])

interpretation token_machine: machine "token_step kdf" "\<lambda>reg. dict_ok token_ok (entries reg)" "\<lambda>_. True" for kdf
  by unfold_locales (rule token_step_inv)

text \<open>An identifier once absent stays absent until a mint draws it again.\<close>

definition draws :: "string \<Rightarrow> token_op \<Rightarrow> bool" where
  "draws tid e = (case e of Mint _ _ i _ _ _ _ \<Rightarrow> ''tok_'' @ b64e i = tid | _ \<Rightarrow> False)"

lemma authenticate_keys: "has_key (entries (snd (token_authenticate kdf fail now c reg))) k = has_key (entries reg) k"
proof (cases "find (\<lambda>(_, t). verify_secret kdf c (tk_hash t)) (entries reg)")
  case (Some kt)
  then have "fst kt \<in> set (dkeys (entries reg))" using find_SomeD by fastforce
  then have "has_key (entries reg) (fst kt)" by (simp add: has_key_iff)
  then show ?thesis using Some by (auto simp: token_authenticate_def split: prod.split)
qed (simp add: token_authenticate_def)

lemma token_step_absent:
  "\<not> has_key (entries reg) tid \<Longrightarrow> \<not> draws tid (snd e) \<Longrightarrow> \<not> has_key (entries (token_step kdf reg e)) tid"
  by (cases "(kdf, reg, e)" rule: token_step.cases)
    (auto simp: authenticate_keys mint_token_def revoke_token_def Let_def draws_def split: sum.splits if_splits)

lemma tokens_absent:
  "\<not> has_key (entries reg) tid \<Longrightarrow> list_all (\<lambda>e. \<not> draws tid (snd e)) es \<Longrightarrow>
   \<not> has_key (entries (foldl (token_step kdf) reg es)) tid"
  by (induction es arbitrary: reg) (auto simp: token_step_absent)

lemma tokens_reachable: "dict_ok token_ok (entries (foldl (token_step kdf) (open_tokens d) es))"
  by (rule token_machine.run_inv) (simp_all add: open_tokens_def tokens.open_ok list_all_iff)

lemma reopen_tokens: "synced reg \<Longrightarrow> dict_ok token_ok (entries reg) \<Longrightarrow> open_tokens (backing reg) = reg"
  using tokens.restart [of reg] by (simp add: open_tokens_def registry_open_def)

lemma authenticated_present:
  assumes "fst (token_authenticate kdf fail now c reg) = Inr (Some r)"
  shows "\<exists>t. (tr_id r, t) \<in> set (entries reg) \<and> verify_secret kdf c (tk_hash t)
    \<and> tr_name r = tk_name t \<and> tr_scopes r = tk_scopes t"
proof (cases "find (\<lambda>(_, t). verify_secret kdf c (tk_hash t)) (entries reg)")
  case None
  then show ?thesis using assms by (simp add: token_authenticate_def split: if_splits)
next
  case (Some kt)
  obtain tid t where kt: "kt = (tid, t)" by (cases kt)
  have "r = \<lparr>tr_id = tid, tr_name = tk_name t, tr_scopes = tk_scopes t\<rparr>"
    using assms Some kt by (auto simp: token_authenticate_def split: if_splits dest: commit_result)
  then show ?thesis using find_SomeD [OF Some] kt by auto
qed

text \<open>
  Once a revocation has returned True, no clear text is ever accepted as that token again,
  whatever operations follow, disk faults included, until a mint draws the same identifier; the
  same holds in a process restarted from the file.
\<close>

theorem revoked_token_is_gone:
  assumes "reg = foldl (token_step kdf) (open_tokens d) es0"
    and "revoke_token fail tid reg = (Inr True, reg')"
    and "list_all (\<lambda>e. \<not> draws tid (snd e)) es"
    and "start \<in> {reg', open_tokens (backing reg')}"
    and "fst (token_authenticate kdf fail' now c (foldl (token_step kdf) start es)) = Inr (Some r)"
  shows "tr_id r \<noteq> tid"
proof -
  have ok: "dict_ok token_ok (entries reg)" unfolding assms(1) by (rule tokens_reachable)
  have c: "commit fail reg (ddel tid (entries reg)) True = (Inr True, reg')"
    using assms(2) by (auto simp: revoke_token_def split: if_splits)
  have ok': "dict_ok token_ok (entries reg')"
    using orderly_inv [OF revoke_orderly [OF ok, of fail tid] ok] assms(2) by simp
  have s: "start = reg'" using assms(4) reopen_tokens [OF _ ok'] commitD [OF c] by auto
  have "\<not> has_key (entries reg') tid" using commitD [OF c] by simp
  then have "\<not> has_key (entries (foldl (token_step kdf) start es)) tid"
    unfolding s using assms(3) by (rule tokens_absent)
  then show ?thesis using authenticated_present [OF assms(5)] by (force simp: has_key_iff)
qed

text \<open>
  A token just minted authenticates.  What authenticates is a stored token the clear text
  verifies against; and when no token minted earlier verifies it, it is the new one, carrying the
  requested scopes, so that it passes a scope check exactly for those, for any text, or for all with
  the wildcard.
\<close>

theorem minted_token_authenticates:
  assumes "kdf_total kdf" and "dict_ok token_ok (entries reg)" and "\<not> has_key (entries reg) tid"
    and "mint_token kdf fail now b i salt name scopes by' reg = (Inr (tid, clear), reg')"
  shows "\<exists>r. fst (token_authenticate kdf no_faults now' clear reg') = Inr (Some r)
    \<and> ((\<forall>(k, t) \<in> set (entries reg). \<not> verify_secret kdf clear (tk_hash t)) \<longrightarrow>
        tr_id r = tid \<and> (\<forall>s. has_scope r s \<longleftrightarrow> ''*'' \<in> set scopes \<or> s \<in> set scopes))"
proof -
  obtain h where h: "hash_secret kdf token_dklen salt (token_prefix @ b64e b) = Inr h"
    using hash_secret_total [OF assms(1), of token_dklen] by (auto simp: token_dklen_def)
  let ?t = "\<lparr>tk_id = ''tok_'' @ b64e i, tk_name = or_else (strip name) ''unnamed'', tk_scopes = dedupe scopes,
    tk_hash = h, tk_created = iso_seconds now, tk_created_by = or_else by' ''?'', tk_last_used = None\<rparr>"
  have c: "commit fail reg (dset (''tok_'' @ b64e i) ?t (entries reg)) (''tok_'' @ b64e i, token_prefix @ b64e b)
      = (Inr (tid, clear), reg')"
    using assms(4) by (simp add: mint_token_def Let_def h)
  have ids: "tid = ''tok_'' @ b64e i" "clear = token_prefix @ b64e b"
    using commitD [OF c] by auto
  have e: "entries reg' = entries reg @ [(tid, ?t)]"
    using commitD [OF c] dset_fresh [of tid "entries reg" ?t] assms(3) by (simp add: ids(1) has_key_iff)
  have v: "verify_secret kdf clear h" using verify_hash [OF h assms(1)] by (simp add: ids token_dklen_def)
  have p: "startswith clear token_prefix" by (simp add: ids startswith_def)
  let ?P = "\<lambda>(_ :: string, t). verify_secret kdf clear (tk_hash t)"
  have "?P (tid, ?t)" "(tid, ?t) \<in> set (entries reg')" using v by (simp_all add: e)
  then have "find ?P (entries reg') \<noteq> None" unfolding find_None_iff by blast
  then obtain kt where kt: "find ?P (entries reg') = Some kt" by blast
  show ?thesis
  proof (intro exI conjI impI)
    show "fst (token_authenticate kdf no_faults now' clear reg')
        = Inr (Some \<lparr>tr_id = fst kt, tr_name = tk_name (snd kt), tr_scopes = tk_scopes (snd kt)\<rparr>)"
      by (simp add: token_authenticate_def p kt split: prod.split)
    assume "\<forall>(k, t) \<in> set (entries reg). \<not> verify_secret kdf clear (tk_hash t)"
    then have "kt = (tid, ?t)" using find_SomeD [OF kt] by (auto simp: e)
    then show "tr_id \<lparr>tr_id = fst kt, tr_name = tk_name (snd kt), tr_scopes = tk_scopes (snd kt)\<rparr> = tid"
      "\<forall>s. has_scope \<lparr>tr_id = fst kt, tr_name = tk_name (snd kt), tr_scopes = tk_scopes (snd kt)\<rparr> s
        \<longleftrightarrow> ''*'' \<in> set scopes \<or> s \<in> set scopes"
      by (simp_all add: has_scope_def)
  qed
qed

definition empty_disk :: "'v list disk" where
  "empty_disk = \<lparr>target = Missing, target_mode = 0, temp = None\<rparr>"

lemma minted_token_authenticates_witness:
  "\<exists>reg' r. fst (token_authenticate sample_kdf no_faults sample_now ''aat_AQID'' reg') = Inr (Some r)
     \<and> tr_id r = ''tok_CQgH'' \<and> has_scope r ''no.such.scope''"
proof -
  define reg where "reg = open_tokens (empty_disk :: api_token list disk)"
  define m where "m = mint_token sample_kdf no_faults sample_now [1, 2, 3] [9, 8, 7] [] ''scraper''
    [''no.such.scope'', ''state.read''] ''admin'' reg"
  have e: "entries reg = []" by (simp add: reg_def open_tokens_def registry_open_def load_entries_def empty_disk_def)
  have b: "b64e [1, 2, 3] = ''AQID''" "b64e [9, 8, 7] = ''CQgH''"
    by code_simp+
  obtain h where h: "hash_secret sample_kdf token_dklen [] ''aat_AQID'' = Inr h"
    using hash_secret_total [OF sample_kdf_total, of token_dklen] by (auto simp: token_dklen_def)
  have "fst m = Inr (''tok_CQgH'', ''aat_AQID'')"
    by (simp add: m_def mint_token_def Let_def b token_prefix_def h)
  then have m: "mint_token sample_kdf no_faults sample_now [1, 2, 3] [9, 8, 7] [] ''scraper''
    [''no.such.scope'', ''state.read''] ''admin'' reg = (Inr (''tok_CQgH'', ''aat_AQID''), snd m)"
    by (simp add: m_def prod_eq_iff)
  have "\<not> has_key (entries reg) ''tok_CQgH''" "dict_ok token_ok (entries reg)" by (simp_all add: e)
  from minted_token_authenticates [OF sample_kdf_total this(2,1) m, of sample_now]
  show ?thesis by (auto simp: e)
qed

lemma revoked_token_is_gone_witness:
  "\<exists>reg reg' :: api_token registry. revoke_token no_faults ''tok_CQgH'' reg = (Inr True, reg')
     \<and> (\<forall>c r. fst (token_authenticate sample_kdf no_faults sample_now c reg') = Inr (Some r) \<longrightarrow> tr_id r \<noteq> ''tok_CQgH'')"
proof -
  define e0 where "e0 = Mint sample_now [1, 2, 3] [9, 8, 7] [] ''scraper'' [''state.read''] ''admin''"
  define reg where "reg = foldl (token_step sample_kdf) (open_tokens empty_disk) [(no_faults, e0)]"
  obtain h where h: "hash_secret sample_kdf token_dklen [] (token_prefix @ b64e [1, 2, 3]) = Inr h"
    using hash_secret_total [OF sample_kdf_total, of token_dklen] by (auto simp: token_dklen_def)
  have b: "b64e [9, 8, 7] = ''CQgH''" by code_simp
  have k: "has_key (entries reg) ''tok_CQgH''"
    by (simp add: reg_def e0_def mint_token_def Let_def h b)
  define reg' where "reg' = snd (revoke_token no_faults ''tok_CQgH'' reg)"
  have r: "revoke_token no_faults ''tok_CQgH'' reg = (Inr True, reg')"
    by (simp add: prod_eq_iff reg'_def revoke_token_def k)
  have "tr_id t \<noteq> ''tok_CQgH''"
    if "fst (token_authenticate sample_kdf no_faults sample_now c reg') = Inr (Some t)" for c t
    by (rule revoked_token_is_gone [OF reg_def r, of "[]" reg']) (use that in simp_all)
  then show ?thesis using r by blast
qed

end
