(* ===== verification/Radius.thy ===== *)
theory Radius
  imports Secrets
begin

text \<open>
  The RADIUS authenticator (\<open>aruba_agent/auth.py\<close>): what it reads from the \<open>[radius]\<close> section and
  the guards around one request.  The exchange with the server, through pyrad, is a parameter: the
  settings, user name and password give the reply code, or \<open>None\<close> when anything raises.
\<close>

record radius =
  ra_enabled :: bool
  ra_server :: "string option"
  ra_secret :: "string option"
  ra_port :: int
  ra_timeout :: int
  ra_retries :: int
  ra_nas_id :: string

definition none_if_empty :: "string \<Rightarrow> string option" where
  "none_if_empty s = (if s = [] then None else Some s)"

definition default_radius :: "string \<Rightarrow> radius" where
  "default_radius hostname = \<lparr>ra_enabled = False, ra_server = None, ra_secret = None, ra_port = 1812,
     ra_timeout = 5, ra_retries = 2, ra_nas_id = or_else hostname ''aruba-switch-manager''\<rparr>"

definition new_radius :: "fernet option \<Rightarrow> string \<Rightarrow> config \<Rightarrow> radius result" where
  "new_radius inst hostname c = (let d = default_radius hostname; sec = ''radius'' in
     if \<not> has_key (sections c) sec then Inr d
     else bind_r (config_getboolean c sec ''enabled'' False) (\<lambda>enabled.
       bind_r (config_get c sec ''server'' []) (\<lambda>server.
       bind_r (config_get c sec ''secret'' []) (\<lambda>raw.
       bind_r (config_getint c sec ''port'' 1812) (\<lambda>port.
       bind_r (config_getint c sec ''timeout'' 5) (\<lambda>timeout.
       bind_r (config_getint c sec ''retries'' 2) (\<lambda>retries.
       bind_r (config_get c sec ''nas_identifier'' (ra_nas_id d)) (\<lambda>nas.
       let server = none_if_empty (strip server); secret = none_if_empty (decrypt inst (strip raw))
       in Inr \<lparr>ra_enabled = (enabled \<and> server \<noteq> None \<and> secret \<noteq> None), ra_server = server,
            ra_secret = secret, ra_port = port, ra_timeout = timeout, ra_retries = retries,
            ra_nas_id = strip nas\<rparr>))))))))"

definition radius_configured :: "radius \<Rightarrow> bool" where
  "radius_configured r = (ra_enabled r \<and> ra_server r \<noteq> None \<and> ra_secret r \<noteq> None)"

definition access_accept :: nat where "access_accept = 2"

definition radius_authenticate ::
    "bool \<Rightarrow> (radius \<Rightarrow> string \<Rightarrow> string \<Rightarrow> nat option) \<Rightarrow> radius \<Rightarrow> string \<Rightarrow> string \<Rightarrow> bool" where
  "radius_authenticate pyrad server r name password =
     (if \<not> radius_configured r then False
      else if name = [] \<or> password = [] then False
      else if \<not> pyrad then False
      else server r name password = Some access_accept)"

lemma radius_authenticateD:
  "radius_authenticate pyrad server r name password \<Longrightarrow>
   radius_configured r \<and> name \<noteq> [] \<and> password \<noteq> [] \<and> server r name password = Some access_accept"
  by (simp add: radius_authenticate_def split: if_splits)

lemma enabled_is_configured:
  "new_radius inst host c = Inr r \<Longrightarrow> radius_configured r = ra_enabled r"
  by (auto simp: new_radius_def Let_def default_radius_def radius_configured_def bind_r_def
      split: if_splits sum.splits)

end
