(* ===== verification/Login_Limiter.thy ===== *)
theory Login_Limiter
  imports Complex_Main Prelude
begin

text \<open>
  The sliding-window login throttle of the web interface (\<open>_LoginRateLimiter\<close> in web/app.py),
  keyed by client address and by user name.  Time is the monotonic clock in seconds.
\<close>

subsection \<open>The limiter\<close>

record limiter =
  lm_max :: nat
  lm_window :: rat
  by_ip :: "(string, rat list) dict"
  by_user :: "(string, rat list) dict"

definition new_limiter :: "nat \<Rightarrow> rat \<Rightarrow> limiter" where
  "new_limiter max_failures window = \<lparr>lm_max = max_failures, lm_window = window, by_ip = [], by_user = []\<rparr>"

text \<open>The process-wide instance: five failures in fifteen minutes.\<close>

definition login_limiter :: limiter where
  "login_limiter = new_limiter 5 900"

text \<open>Reading a \<open>defaultdict(deque)\<close>.\<close>

definition deque :: "(string, rat list) dict \<Rightarrow> string \<Rightarrow> rat list" where
  "deque d k = (case dget d k of None \<Rightarrow> [] | Some q \<Rightarrow> q)"

definition prune :: "rat \<Rightarrow> rat \<Rightarrow> rat list \<Rightarrow> rat list" where
  "prune window now q = dropWhile (\<lambda>t. t < now - window) q"

definition is_locked :: "rat \<Rightarrow> string \<Rightarrow> string \<Rightarrow> limiter \<Rightarrow> bool \<times> limiter" where
  "is_locked now ip name l =
     (let qi = prune (lm_window l) now (deque (by_ip l) ip);
          qu = prune (lm_window l) now (deque (by_user l) name)
      in (lm_max l \<le> length qi \<or> lm_max l \<le> length qu,
          l\<lparr>by_ip := dset ip qi (by_ip l), by_user := dset name qu (by_user l)\<rparr>))"

definition record_failure :: "rat \<Rightarrow> string \<Rightarrow> string \<Rightarrow> limiter \<Rightarrow> limiter" where
  "record_failure now ip name l =
     l\<lparr>by_ip := dset ip (deque (by_ip l) ip @ [now]) (by_ip l),
       by_user := dset name (deque (by_user l) name @ [now]) (by_user l)\<rparr>"

definition record_success :: "string \<Rightarrow> string \<Rightarrow> limiter \<Rightarrow> limiter" where
  "record_success ip name l = l\<lparr>by_ip := ddel ip (by_ip l), by_user := ddel name (by_user l)\<rparr>"

lemma deque_dset [simp]: "deque (dset k q d) k' = (if k' = k then q else deque d k')"
  by (simp add: deque_def)

lemma deque_ddel [simp]: "deque (ddel k d) k' = (if k' = k then [] else deque d k')"
  by (simp add: deque_def)

lemma deque_Nil [simp]: "deque [] k = []"
  by (simp add: deque_def)

subsection \<open>The specification: failures since the last success, inside the window\<close>

datatype attempt = Check rat string string | Failure rat string string | Success string string

fun attempt_step :: "limiter \<Rightarrow> attempt \<Rightarrow> limiter" where
  "attempt_step l (Check now ip name) = snd (is_locked now ip name l)"
| "attempt_step l (Failure now ip name) = record_failure now ip name l"
| "attempt_step l (Success ip name) = record_success ip name l"

text \<open>The times of the failures under one key since its last success.\<close>

fun failures_by :: "(string \<Rightarrow> string \<Rightarrow> string) \<Rightarrow> string \<Rightarrow> attempt \<Rightarrow> rat list \<Rightarrow> rat list" where
  "failures_by key k (Check now ip name) ts = ts"
| "failures_by key k (Failure now ip name) ts = (if key ip name = k then ts @ [now] else ts)"
| "failures_by key k (Success ip name) ts = (if key ip name = k then [] else ts)"

definition failures :: "(string \<Rightarrow> string \<Rightarrow> string) \<Rightarrow> string \<Rightarrow> attempt list \<Rightarrow> rat list" where
  "failures key k as = fold (failures_by key k) as []"

definition recent :: "rat \<Rightarrow> rat list \<Rightarrow> nat" where
  "recent since ts = length (filter (\<lambda>t. since \<le> t) ts)"

text \<open>The clock readings of a sequence of attempts do not decrease.\<close>

fun clocked :: "rat \<Rightarrow> attempt list \<Rightarrow> rat option" where
  "clocked now [] = Some now"
| "clocked now (Check t _ _ # as) = (if now \<le> t then clocked t as else None)"
| "clocked now (Failure t _ _ # as) = (if now \<le> t then clocked t as else None)"
| "clocked now (Success _ _ # as) = clocked now as"

text \<open>A deque agrees with the history on everything a later look at the window can see.\<close>

definition agrees :: "rat \<Rightarrow> rat \<Rightarrow> rat list \<Rightarrow> rat list \<Rightarrow> bool" where
  "agrees window now q ts \<longleftrightarrow> sorted q \<and> (\<forall>t \<in> set q. t \<le> now)
     \<and> (\<forall>since. now - window \<le> since \<longrightarrow> filter (\<lambda>t. since \<le> t) q = filter (\<lambda>t. since \<le> t) ts)"

lemma filter_dropWhile_old:
  "c \<le> since \<Longrightarrow> filter (\<lambda>t. since \<le> t) (dropWhile (\<lambda>t. t < c) q) = filter (\<lambda>t. since \<le> (t :: rat)) q"
  by (induction q) auto

lemma agrees_later: "agrees w now q ts \<Longrightarrow> now \<le> now' \<Longrightarrow> agrees w now' q ts"
  by (auto simp: agrees_def)

lemma agrees_prune: "agrees w now q ts \<Longrightarrow> agrees w now (prune w now q) ts"
  by (auto simp: agrees_def prune_def filter_dropWhile_old sorted_dropWhile dest: set_dropWhileD)

lemma agrees_append: "agrees w now q ts \<Longrightarrow> agrees w now (q @ [now]) (ts @ [now])"
  by (auto simp: agrees_def sorted_append)

lemma agrees_Nil: "agrees w now [] []"
  by (simp add: agrees_def)

lemma filter_dropWhile_sorted:
  "sorted q \<Longrightarrow> dropWhile (\<lambda>t. t < c) q = filter (\<lambda>t. c \<le> t) (q :: rat list)"
proof (induction q)
  case (Cons a q)
  have "c \<le> a \<Longrightarrow> filter (\<lambda>t. c \<le> t) q = q" using Cons.prems by (intro filter_True) auto
  then show ?case using Cons by auto
qed simp

lemma agrees_count: "agrees w now q ts \<Longrightarrow> length (prune w now q) = recent (now - w) ts"
  by (simp add: agrees_def prune_def recent_def filter_dropWhile_sorted)

definition limiter_inv :: "rat \<Rightarrow> attempt list \<Rightarrow> limiter \<Rightarrow> bool" where
  "limiter_inv now as l \<longleftrightarrow>
     (\<forall>k. agrees (lm_window l) now (deque (by_ip l) k) (failures (\<lambda>ip name. ip) k as))
   \<and> (\<forall>k. agrees (lm_window l) now (deque (by_user l) k) (failures (\<lambda>ip name. name) k as))"

lemma attempt_step_consts [simp]:
  "lm_window (attempt_step l a) = lm_window l" "lm_max (attempt_step l a) = lm_max l"
  by (cases a; simp add: is_locked_def Let_def record_failure_def record_success_def)+

lemma failures_snoc: "failures key k (as @ [a]) = failures_by key k a (failures key k as)"
  by (simp add: failures_def)

lemma limiter_inv_step:
  assumes "limiter_inv now as l" and "clocked now [a] = Some now'"
  shows "limiter_inv now' (as @ [a]) (attempt_step l a)"
proof (cases a)
  case (Check t ip name)
  then have "now \<le> t" "now' = t" using assms(2) by (auto split: if_splits)
  then show ?thesis using assms(1) Check
    by (auto simp: limiter_inv_def failures_snoc is_locked_def Let_def intro: agrees_prune agrees_later)
next
  case (Failure t ip name)
  then have "now \<le> t" "now' = t" using assms(2) by (auto split: if_splits)
  then show ?thesis using assms(1) Failure
    by (auto simp: limiter_inv_def failures_snoc record_failure_def intro: agrees_append agrees_later)
next
  case (Success ip name)
  then show ?thesis using assms
    by (auto simp: limiter_inv_def failures_snoc record_success_def agrees_Nil)
qed

lemma clocked_append: "clocked now (as @ bs) = Option.bind (clocked now as) (\<lambda>t. clocked t bs)"
  by (induction now as rule: clocked.induct) auto

lemma clocked_le: "clocked now as = Some now' \<Longrightarrow> now \<le> now'"
  by (induction now as rule: clocked.induct) (auto split: if_splits)

lemma limiter_inv_run:
  "clocked t0 as = Some now \<Longrightarrow> limiter_inv now as (foldl attempt_step (new_limiter m w) as)"
proof (induction as arbitrary: now rule: rev_induct)
  case Nil
  show ?case by (simp add: limiter_inv_def new_limiter_def failures_def agrees_Nil)
next
  case (snoc a as)
  then obtain t where "clocked t0 as = Some t" "clocked t [a] = Some now"
    by (auto simp: clocked_append Option.bind_eq_Some_conv simp del: clocked.simps)
  then show ?case using limiter_inv_step snoc.IH by (simp del: clocked.simps)
qed

lemma limiter_consts_run:
  "lm_max (foldl attempt_step l as) = lm_max l" "lm_window (foldl attempt_step l as) = lm_window l"
  by (induction as arbitrary: l) simp_all

text \<open>
  C12: However the failures, successes and checks of all clients interleave, a login attempt is
  refused exactly when its address or its user name has had at least five failures in the last 900
  seconds since the last success under the same address, respectively name: the pruned deques
  compute the sliding window, and pruning never forgets a failure that still counts.
\<close>

theorem locked_iff_recent_failures:
  assumes "clocked t0 as = Some t" and "t \<le> now"
  shows "fst (is_locked now ip name (foldl attempt_step login_limiter as))
    \<longleftrightarrow> 5 \<le> recent (now - 900) (failures (\<lambda>ip name. ip) ip as)
       \<or> 5 \<le> recent (now - 900) (failures (\<lambda>ip name. name) name as)"
proof -
  let ?l = "foldl attempt_step login_limiter as"
  have "limiter_inv t as ?l" using limiter_inv_run [OF assms(1)] by (simp add: login_limiter_def)
  then have "agrees 900 t (deque (by_ip ?l) ip) (failures (\<lambda>ip name. ip) ip as)"
    "agrees 900 t (deque (by_user ?l) name) (failures (\<lambda>ip name. name) name as)"
    by (auto simp: limiter_inv_def limiter_consts_run login_limiter_def new_limiter_def)
  then have "agrees 900 now (deque (by_ip ?l) ip) (failures (\<lambda>ip name. ip) ip as)"
    "agrees 900 now (deque (by_user ?l) name) (failures (\<lambda>ip name. name) name as)"
    using assms(2) by (blast intro: agrees_later)+
  from this [THEN agrees_count] show ?thesis
    by (simp add: is_locked_def Let_def limiter_consts_run login_limiter_def new_limiter_def)
qed

lemma locked_iff_recent_failures_witness:
  "let as = map (\<lambda>n. Failure (of_nat n) (''10.0.0.'' @ nat_str n) ''admin'') [0..<5] in
     fst (is_locked (30 :: rat) ''192.0.2.1'' ''admin'' (foldl attempt_step login_limiter as))
     \<and> \<not> fst (is_locked (901 :: rat) ''192.0.2.1'' ''admin'' (foldl attempt_step login_limiter as))"
proof -
  define as where "as = map (\<lambda>n. Failure (of_nat n) (''10.0.0.'' @ nat_str n) ''admin'') [0..<5]"
  have c: "clocked (0 :: rat) as = Some 4" by (simp add: as_def upt_rec numeral_eq_Suc)
  have f: "failures (\<lambda>ip name. name) ''admin'' as = [0, 1, 2, 3, 4]"
    "failures (\<lambda>ip name. ip) ''192.0.2.1'' as = []"
    by (simp_all add: as_def failures_def upt_rec nat_str.simps digit_char_def)
  show ?thesis
    using locked_iff_recent_failures [OF c, of 30 "''192.0.2.1''" "''admin''"]
      locked_iff_recent_failures [OF c, of 901 "''192.0.2.1''" "''admin''"]
    unfolding as_def [symmetric] Let_def by (simp add: f recent_def)
qed

end
