(* ===== verification/Audit_Log.thy ===== *)
theory Audit_Log
  imports Prelude
begin

text \<open>
  The audit log's line format (\<open>aruba_agent/audit.py\<close>) and the process counters of
  \<open>aruba_agent/metrics.py\<close>.  A line is one event: time stamp, actor, event name and details.  The
  time stamp text (local time with its offset) is an argument; opening and rotating the file is not
  modelled.
\<close>

subsection \<open>Lines\<close>

definition anon :: string where "anon = ''-''"

definition needs_quote :: "string \<Rightarrow> bool" where
  "needs_quote s = list_ex (\<lambda>c. c = CHR '' '' \<or> c = CHR 0x22 \<or> c = CHR ''='' \<or> c = CHR 0x09) s"

text \<open>The two \<open>replace\<close> calls: every backslash is doubled, then every quote gets a backslash.\<close>

definition escape :: "string \<Rightarrow> string" where
  "escape s = concat (map (\<lambda>c. if c = CHR 0x22 then [CHR 0x5C, CHR 0x22] else [c])
     (concat (map (\<lambda>c. if c = CHR 0x5C then [CHR 0x5C, CHR 0x5C] else [c]) s)))"

definition audit_quote :: "string option \<Rightarrow> string" where
  "audit_quote v = (case v of None \<Rightarrow> anon
     | Some s \<Rightarrow> if s = [] then anon else if \<not> needs_quote s then s
         else [CHR 0x22] @ escape s @ [CHR 0x22])"

record audit_event =
  ae_event :: string
  ae_user :: "string option"
  ae_details :: "(string \<times> string option) list"

definition detail_text :: "string \<times> string option \<Rightarrow> string list" where
  "detail_text kv = (case snd kv of None \<Rightarrow> [] | Some v \<Rightarrow> [fst kv @ ''='' @ audit_quote (Some v)])"

definition audit_line :: "string \<Rightarrow> audit_event \<Rightarrow> string" where
  "audit_line ts e = join '' ''
     ([ts, ''user='' @ audit_quote (ae_user e), ''event='' @ audit_quote (Some (ae_event e))]
       @ concat (map detail_text (ae_details e)))"

subsection \<open>Counters\<close>

type_synonym counter_table = "(string, nat) dict"

definition initial_counters :: counter_table where
  "initial_counters = [(''login_failures_total'', 0), (''login_throttled_total'', 0),
     (''login_success_total'', 0), (''manual_trigger_total'', 0)]"

definition inc_counter :: "string \<Rightarrow> counter_table \<Rightarrow> counter_table" where
  "inc_counter name c = (case dget c name of None \<Rightarrow> c | Some n \<Rightarrow> dset name (n + 1) c)"

subsection \<open>Reading a line back\<close>

text \<open>
  A reader of the format: blanks separate fields outside quotes, a backslash inside quotes protects
  the next character.
\<close>

fun read_field :: "bool \<Rightarrow> string \<Rightarrow> string \<times> string list" where
  "read_field q [] = ([], [])"
| "read_field False (c # cs) =
     (if c = CHR '' '' then (case read_field False cs of (w, ws) \<Rightarrow> ([], w # ws))
      else if c = CHR 0x22 then (case read_field True cs of (w, ws) \<Rightarrow> (w, ws))
      else (case read_field False cs of (w, ws) \<Rightarrow> (c # w, ws)))"
| "read_field True (c # cs) =
     (if c = CHR 0x22 then read_field False cs
      else if c = CHR 0x5C then
        (case cs of [] \<Rightarrow> ([], []) | d # ds \<Rightarrow> (case read_field True ds of (w, ws) \<Rightarrow> (d # w, ws)))
      else (case read_field True cs of (w, ws) \<Rightarrow> (c # w, ws)))"

definition read_fields :: "string \<Rightarrow> string list" where
  "read_fields s = (case read_field False s of (w, ws) \<Rightarrow> w # ws)"

definition shown :: "string option \<Rightarrow> string" where
  "shown v = (case v of None \<Rightarrow> anon | Some s \<Rightarrow> or_else s anon)"

lemma escape_simps [simp]:
  "escape [] = []"
  "escape (c # cs) = (if c = CHR 0x22 then [CHR 0x5C, CHR 0x22]
     else if c = CHR 0x5C then [CHR 0x5C, CHR 0x5C] else [c]) @ escape cs"
  by (simp_all add: escape_def)

lemma read_escaped: "read_field True (escape s @ CHR 0x22 # rest) = (case read_field False rest of (w, ws) \<Rightarrow> (s @ w, ws))"
  by (induction s) (auto split: prod.splits)

lemma read_plain:
  "\<not> needs_quote s \<Longrightarrow> read_field False (s @ rest) = (case read_field False rest of (w, ws) \<Rightarrow> (s @ w, ws))"
  by (induction s) (auto simp: needs_quote_def split: prod.splits)

lemma read_quoted:
  "read_field False (audit_quote v @ rest) = (case read_field False rest of (w, ws) \<Rightarrow> (shown v @ w, ws))"
  by (auto simp: audit_quote_def shown_def anon_def read_escaped read_plain split: option.splits prod.splits)

text \<open>A key and its \<open>=\<close> sign are read as they are.\<close>

lemma read_key:
  "\<not> needs_quote k \<Longrightarrow> read_field False ((k @ ''='' @ audit_quote v) @ rest)
     = (case read_field False rest of (w, ws) \<Rightarrow> ((k @ ''='' @ shown v) @ w, ws))"
  using read_plain [of k "''='' @ audit_quote v @ rest"] read_quoted [of v rest]
  by (auto split: prod.splits)

lemma read_field_blank: "read_field False (CHR '' '' # rest) = ([], read_fields rest)"
  by (simp add: read_fields_def split: prod.split)

lemma read_joined:
  assumes "ws \<noteq> []" and "\<forall>(w, v) \<in> set ws. \<forall>rest. read_field False (w @ rest)
      = (case read_field False rest of (x, xs) \<Rightarrow> (v @ x, xs))"
  shows "read_fields (join '' '' (map fst ws)) = map snd ws"
  using assms
proof (induction ws)
  case (Cons wv ws)
  obtain w v where wv: "wv = (w, v)" by (cases wv)
  have w: "read_field False (w @ rest) = (case read_field False rest of (x, xs) \<Rightarrow> (v @ x, xs))" for rest
    using Cons.prems(2) wv by auto
  show ?case
  proof (cases ws)
    case Nil
    then show ?thesis using w [of "[]"] by (simp add: wv read_fields_def)
  next
    case (Cons x xs)
    then have "join '' '' (map fst (wv # ws)) = w @ CHR '' '' # join '' '' (map fst ws)" by (simp add: wv)
    moreover have "read_fields (join '' '' (map fst ws)) = map snd ws" using Cons.IH Cons.prems Cons by simp
    ultimately show ?thesis using w [of "CHR '' '' # join '' '' (map fst ws)"]
      by (simp add: read_fields_def [of "w @ _"] read_field_blank wv del: read_field.simps)
  qed
qed simp

definition event_fields :: "string \<Rightarrow> audit_event \<Rightarrow> string list" where
  "event_fields ts e = [ts, ''user='' @ shown (ae_user e), ''event='' @ shown (Some (ae_event e))]
     @ concat (map (\<lambda>(k, v). case v of None \<Rightarrow> [] | Some s \<Rightarrow> [k @ ''='' @ shown (Some s)]) (ae_details e))"

text \<open>The texts an event is made of, as they occur in its line.\<close>

definition event_texts :: "string \<Rightarrow> audit_event \<Rightarrow> string list" where
  "event_texts ts e = ts # ae_event e # (case ae_user e of None \<Rightarrow> [] | Some u \<Rightarrow> [u])
     @ concat (map (\<lambda>(k, v). case v of None \<Rightarrow> [] | Some s \<Rightarrow> [k, s]) (ae_details e))"

lemma set_join: "set (join sep ws) \<subseteq> set sep \<union> (\<Union>w \<in> set ws. set w)"
  "w \<in> set ws \<Longrightarrow> set w \<subseteq> set (join sep ws)"
  by (induction sep ws rule: join.induct) auto

lemma escape_mem: "c \<noteq> CHR 0x22 \<Longrightarrow> c \<noteq> CHR 0x5C \<Longrightarrow> c \<in> set (escape s) \<longleftrightarrow> c \<in> set s"
  by (induction s) auto

lemma quote_newline [simp]: "CHR 0x0A \<in> set (audit_quote v) \<longleftrightarrow> (\<exists>s. v = Some s \<and> CHR 0x0A \<in> set s)"
  by (auto simp: audit_quote_def anon_def escape_mem split: option.splits)

lemma join_newline: "CHR 0x0A \<in> set (join '' '' ws) \<longleftrightarrow> (\<exists>w \<in> set ws. CHR 0x0A \<in> set w)"
  using set_join(1) [of "'' ''" ws] set_join(2) [of _ ws "'' ''"] by auto

lemma split_on_sep: "c \<in> set s \<Longrightarrow> length (split_on c s) > 1"
  by (induction s) (auto split: list.splits)

text \<open>
  A line of the audit log reads back as the fields of its event, quotes and backslashes
  included.  It is a single line exactly when none of the texts holds a line feed: the quoting lets
  line feeds through, so a user name typed with one writes a second, forged line.
\<close>

theorem audit_line_reads_back:
  assumes "\<not> needs_quote ts" and "\<forall>(k, v) \<in> set (ae_details e). \<not> needs_quote k"
  shows "read_fields (audit_line ts e) = event_fields ts e
    \<and> (split_on (CHR 0x0A) (audit_line ts e) = [audit_line ts e]
        \<longleftrightarrow> (\<forall>t \<in> set (event_texts ts e). CHR 0x0A \<notin> set t))"
proof
  define ds where "ds = concat (map (\<lambda>(k, v). case v of None \<Rightarrow> []
    | Some s \<Rightarrow> [(k @ ''='' @ audit_quote (Some s), k @ ''='' @ shown (Some s))]) (ae_details e))"
  have f: "map fst ds = concat (map detail_text (ae_details e))"
    "map snd ds = concat (map (\<lambda>(k, v). case v of None \<Rightarrow> [] | Some s \<Rightarrow> [k @ ''='' @ shown (Some s)]) (ae_details e))"
    by (auto simp: ds_def map_concat detail_text_def intro!: arg_cong [where f = concat] split: option.split)
  let ?ws = "[(ts, ts), (''user='' @ audit_quote (ae_user e), ''user='' @ shown (ae_user e)),
    (''event='' @ audit_quote (Some (ae_event e)), ''event='' @ shown (Some (ae_event e)))] @ ds"
  have d: "\<exists>k t. w = k @ ''='' @ audit_quote t \<and> v = k @ ''='' @ shown t \<and> \<not> needs_quote k"
    if "(w, v) \<in> set ds" for w v
    using that assms(2) unfolding ds_def by (fastforce split: option.splits)
  have "read_field False (w @ rest) = (case read_field False rest of (x, xs) \<Rightarrow> (v @ x, xs))"
    if mem: "(w, v) \<in> set ?ws" for w v rest
  proof (cases "(w, v) \<in> set ds")
    case True
    then show ?thesis using d read_key by blast
  next
    case False
    then show ?thesis
      using mem read_plain [OF assms(1), of rest] read_key [of "''user''" "ae_user e" rest]
        read_key [of "''event''" "Some (ae_event e)" rest]
      by (auto simp: needs_quote_def)
  qed
  then have "\<forall>(w, v) \<in> set ?ws. \<forall>rest. read_field False (w @ rest) = (case read_field False rest of (x, xs) \<Rightarrow> (v @ x, xs))"
    by blast
  then have "read_fields (join '' '' (map fst ?ws)) = map snd ?ws" by (intro read_joined) simp_all
  then show "read_fields (audit_line ts e) = event_fields ts e"
    by (simp add: audit_line_def event_fields_def f)
  have "CHR 0x0A \<in> set (audit_line ts e) \<longleftrightarrow> (\<exists>t \<in> set (event_texts ts e). CHR 0x0A \<in> set t)"
    by (fastforce simp: audit_line_def event_texts_def join_newline detail_text_def split: option.splits)
  then show "split_on (CHR 0x0A) (audit_line ts e) = [audit_line ts e]
      \<longleftrightarrow> (\<forall>t \<in> set (event_texts ts e). CHR 0x0A \<notin> set t)"
    using split_on_no_sep [of "CHR 0x0A" "audit_line ts e"] split_on_sep [of "CHR 0x0A" "audit_line ts e"]
    by (metis One_nat_def length_Cons list.size(3) less_irrefl)
qed

definition forged_login :: audit_event where
  "forged_login = \<lparr>ae_event = ''login.failed'', ae_user = None,
     ae_details = [(''username'', Some (''a'' @ [CHR 0x0A] @ ''user=root event=login.success'')), (''ip'', Some ''10.0.0.5'')]\<rparr>"

lemma audit_line_reads_back_witness:
  "read_fields (audit_line ''2026-05-11T14:23:01-07:00'' forged_login)
     = event_fields ''2026-05-11T14:23:01-07:00'' forged_login
   \<and> split_on (CHR 0x0A) (audit_line ''2026-05-11T14:23:01-07:00'' forged_login)
     \<noteq> [audit_line ''2026-05-11T14:23:01-07:00'' forged_login]"
proof -
  have 1: "\<not> needs_quote ''2026-05-11T14:23:01-07:00''" by (simp add: needs_quote_def)
  have 2: "\<forall>(k, v) \<in> set (ae_details forged_login). \<not> needs_quote k"
    by (simp add: forged_login_def needs_quote_def)
  have "\<not> (\<forall>t \<in> set (event_texts ''2026-05-11T14:23:01-07:00'' forged_login). CHR 0x0A \<notin> set t)"
    by (simp add: forged_login_def event_texts_def)
  then show ?thesis using audit_line_reads_back [OF 1 2] by blast
qed

end
