(* ===== verification/Web_Auth.thy ===== *)
theory Web_Auth
  imports Local_Auth Api_Tokens Radius Login_Limiter Audit_Log
begin

text \<open>
  Authentication in the web interface (\<open>aruba_agent/web/app.py\<close>): sessions, the guards of the
  routes, login with its second factor, passkeys, and the account pages that change credentials.

  A handler takes the session of one browser and the state the server shares between requests, and
  returns the response, the session and the state; \<open>Crash\<close> is an exception that reaches Flask.
  Parameters: pyotp's verification, the WebAuthn library, the RADIUS server, scrypt, random values.
  Rendering, the CSRF token and log messages are not modelled.
\<close>

subsection \<open>Sessions, requests, responses\<close>

record session =
  ss_user :: "string option"
  ss_method :: "string option"
  ss_must_change :: bool
  ss_permanent :: bool
  ss_pending_user :: "string option"
  ss_pending_must_change :: bool
  ss_totp_secret :: "string option"
  ss_totp_codes :: "string list"
  ss_reg_challenge :: "bytes option"
  ss_auth_challenge :: "bytes option"
  ss_auth_hint :: string
  ss_new_token :: "(string \<times> string) option"
  ss_flashes :: "(string \<times> string) list"

definition empty_session :: session where
  "empty_session = \<lparr>ss_user = None, ss_method = None, ss_must_change = False, ss_permanent = False,
     ss_pending_user = None, ss_pending_must_change = False, ss_totp_secret = None, ss_totp_codes = [],
     ss_reg_challenge = None, ss_auth_challenge = None, ss_auth_hint = [], ss_new_token = None, ss_flashes = []\<rparr>"

definition present :: "string option \<Rightarrow> bool" where
  "present v = (case v of None \<Rightarrow> False | Some s \<Rightarrow> s \<noteq> [])"

definition flash :: "string \<Rightarrow> string \<Rightarrow> session \<Rightarrow> session" where
  "flash category msg s = s\<lparr>ss_flashes := ss_flashes s @ [(category, msg)]\<rparr>"

text \<open>The full session every way of logging in ends with.\<close>

definition full_session :: "string \<Rightarrow> string \<Rightarrow> bool \<Rightarrow> session" where
  "full_session name meth must_change = empty_session\<lparr>ss_user := Some name, ss_method := Some meth,
     ss_must_change := must_change, ss_permanent := True\<rparr>"

datatype place = Dashboard | LoginPage "string option" | Login2fa "string option" | ChangePasswordPage
  | SettingsAuth | SettingsTokens | Settings2fa | SettingsPasskeys | Internal string

datatype response = Redirect place | Page string nat | Json string nat | Abort nat | Crash

record request =
  rq_ip :: "string option"
  rq_host :: string
  rq_mono :: rat
  rq_now :: datetime
  rq_fail :: faults
  rq_salts :: "nat \<Rightarrow> bytes"

record env =
  e_kdf :: kdf
  e_pyotp :: bool
  e_totp :: "datetime \<Rightarrow> string \<Rightarrow> string \<Rightarrow> bool"
  e_pyrad :: bool
  e_radius :: "radius \<Rightarrow> string \<Rightarrow> string \<Rightarrow> nat option"
  e_assertion :: "string \<Rightarrow> bytes \<Rightarrow> passkey \<Rightarrow> string \<Rightarrow> string + int"
  e_attestation :: "string \<Rightarrow> bytes \<Rightarrow> string \<Rightarrow> string + passkey"

record web =
  w_users :: "user registry"
  w_tokens :: "api_token registry"
  w_radius :: radius
  w_local_enabled :: bool
  w_limiter :: limiter
  w_audit :: "audit_event list"
  w_counters :: counter_table

type_synonym outcome = "response \<times> session \<times> web"

definition client_ip :: "request \<Rightarrow> string" where
  "client_ip rq = (case rq_ip rq of None \<Rightarrow> ''unknown'' | Some ip \<Rightarrow> or_else ip ''unknown'')"

definition audit :: "string \<Rightarrow> string option \<Rightarrow> (string \<times> string option) list \<Rightarrow> web \<Rightarrow> web" where
  "audit event user details w = w\<lparr>w_audit := w_audit w @ [\<lparr>ae_event = event, ae_user = user, ae_details = details\<rparr>]\<rparr>"

definition count :: "string \<Rightarrow> web \<Rightarrow> web" where
  "count name w = w\<lparr>w_counters := inc_counter name (w_counters w)\<rparr>"

definition bool_text :: "bool \<Rightarrow> string" where
  "bool_text b = (if b then ''true'' else ''false'')"

text \<open>Only local paths are redirected to; the dashboard is at \<open>/\<close>.\<close>

definition safe_next :: "string \<Rightarrow> string" where
  "safe_next form = (let u = or_else form ''/'' in
     if \<not> startswith u ''/'' \<or> startswith u ''//'' then ''/'' else u)"

subsection \<open>Guards\<close>

text \<open>\<open>require_login\<close>: \<open>Some\<close> response refuses, \<open>None\<close> runs the route.\<close>

definition require_login :: "string \<Rightarrow> string \<Rightarrow> session \<Rightarrow> response option" where
  "require_login path endpoint s =
     (if \<not> present (ss_user s) then
        Some (if startswith path ''/api/'' then Json ''Authentication required'' 401
              else Redirect (LoginPage (Some path)))
      else if ss_must_change s \<and> endpoint \<notin> {''change_password'', ''change_password_post'', ''logout''} then
        Some (if startswith path ''/api/'' then Json ''Password change required'' 403
              else Redirect ChangePasswordPage)
      else None)"

text \<open>
  \<open>require_session_or_scope\<close>: a session, else a bearer token carrying the scope.  The last
  component is the token record stashed on the request.
\<close>

definition require_session_or_scope ::
    "env \<Rightarrow> request \<Rightarrow> string \<Rightarrow> string \<Rightarrow> string \<Rightarrow> session \<Rightarrow> web
      \<Rightarrow> (response option \<times> token_record option) \<times> web" where
  "require_session_or_scope env rq path header required s w =
     (if present (ss_user s) then
        ((if ss_must_change s then Some (Json ''Password change required'' 403) else None, None), w)
      else if startswith header ''Bearer '' then
        (case token_authenticate (e_kdf env) (rq_fail rq) (rq_now rq) (strip (drop 7 header)) (w_tokens w) of
           (Inl _, ts) \<Rightarrow> ((Some Crash, None), w\<lparr>w_tokens := ts\<rparr>)
         | (Inr None, ts) \<Rightarrow> ((Some (Json ''Invalid API token'' 401), None),
             audit ''token.auth_failed'' None [(''ip'', rq_ip rq), (''path'', Some path)] (w\<lparr>w_tokens := ts\<rparr>))
         | (Inr (Some r), ts) \<Rightarrow>
             if \<not> has_scope r required then
               ((Some (Json (''Token lacks required scope: '' @ required) 403), None),
                audit ''token.scope_denied'' None [(''token'', Some (tr_id r)), (''scope_required'', Some required),
                  (''ip'', rq_ip rq), (''path'', Some path)] (w\<lparr>w_tokens := ts\<rparr>))
             else ((None, Some r), w\<lparr>w_tokens := ts\<rparr>))
      else ((Some (Json ''Authentication required'' 401), None), w))"

definition audit_actor :: "session \<Rightarrow> token_record option \<Rightarrow> string" where
  "audit_actor s tok = (case ss_user s of
       Some (c # cs) \<Rightarrow> c # cs
     | _ \<Rightarrow> (case tok of None \<Rightarrow> ''?'' | Some r \<Rightarrow> ''token:'' @ tr_id r @ '':'' @ tr_name r))"

subsection \<open>Login\<close>

definition login_get :: "session \<Rightarrow> response" where
  "login_get s = (if present (ss_user s)
     then (if ss_must_change s then Redirect ChangePasswordPage else Redirect Dashboard)
     else Page ''login.html'' 200)"

text \<open>What follows accepted credentials.\<close>

definition login_accepted :: "request \<Rightarrow> string \<Rightarrow> string \<Rightarrow> string \<Rightarrow> bool \<Rightarrow> session \<Rightarrow> web \<Rightarrow> outcome" where
  "login_accepted rq name nxt meth must_change s w0 =
     (let ip = client_ip rq; w = w0\<lparr>w_limiter := record_success ip name (w_limiter w0)\<rparr>
      in if meth = ''local'' \<and> totp_enabled name (w_users w) then
           (Redirect (Login2fa (Some nxt)),
            empty_session\<lparr>ss_pending_user := Some name, ss_pending_must_change := must_change\<rparr>,
            audit ''login.password_ok_awaiting_2fa'' (Some name) [(''ip'', Some ip)] w)
         else
           (let s1 = full_session name meth must_change;
                w1 = audit ''login.success'' (Some name) [(''method'', Some meth), (''ip'', Some ip),
                  (''must_change'', Some (bool_text must_change))] (count ''login_success_total'' w)
            in if must_change
               then (Redirect ChangePasswordPage,
                 flash ''warning'' ''You're using a default password. Please set a new one.'' s1, w1)
               else (Redirect (Internal nxt), s1, w1)))"

definition login_refused :: "request \<Rightarrow> string \<Rightarrow> string \<Rightarrow> session \<Rightarrow> web \<Rightarrow> outcome" where
  "login_refused rq name nxt s w =
     (let ip = client_ip rq;
          w1 = audit ''login.failed'' None [(''username'', Some name), (''ip'', Some ip), (''reason'', Some ''bad_credentials'')] w;
          w2 = w1\<lparr>w_limiter := record_failure (rq_mono rq) ip name (w_limiter w1)\<rparr>
      in (Redirect (LoginPage (Some nxt)), flash ''error'' ''Invalid username or password.'' s,
          count ''login_failures_total'' w2))"

definition login_post :: "env \<Rightarrow> request \<Rightarrow> string \<Rightarrow> string \<Rightarrow> string \<Rightarrow> session \<Rightarrow> web \<Rightarrow> outcome" where
  "login_post env rq form_name password form_next s w0 =
     (let name = strip form_name; nxt = safe_next form_next; ip = client_ip rq in
      case is_locked (rq_mono rq) ip name (w_limiter w0) of (locked, lmt) \<Rightarrow>
      let w = w0\<lparr>w_limiter := lmt\<rparr> in
      if locked then
        (Page ''login.html'' 429, s, count ''login_throttled_total''
          (audit ''login.throttled'' None [(''username'', Some name), (''ip'', Some ip), (''reason'', Some ''too_many_failures'')] w))
      else if name = [] \<or> password = [] then
        (Redirect (LoginPage (Some nxt)), flash ''error'' ''Username and password are required.'' s, w)
      else if \<not> w_local_enabled w \<and> \<not> radius_configured (w_radius w) then
        (Redirect (LoginPage (Some nxt)),
         flash ''error'' ''Authentication service is not configured. Contact your administrator.'' s, w)
      else case (if w_local_enabled w
                 then user_authenticate (e_kdf env) (rq_fail rq) (rq_now rq) name password (w_users w)
                 else (Inr False, w_users w)) of
          (Inl _, us) \<Rightarrow> (Crash, s, w\<lparr>w_users := us\<rparr>)
        | (Inr ok, us) \<Rightarrow>
            let w = w\<lparr>w_users := us\<rparr> in
            if ok then login_accepted rq name nxt ''local'' (must_change_password name us) s w
            else if radius_authenticate (e_pyrad env) (e_radius env) (w_radius w) name password
            then login_accepted rq name nxt ''radius'' False s w
            else login_refused rq name nxt s w)"

definition login_2fa_get :: "session \<Rightarrow> response" where
  "login_2fa_get s = (if present (ss_pending_user s) then Page ''login_2fa.html'' 200 else Redirect (LoginPage None))"

text \<open>The second factor: a code if one was typed, else a recovery code.\<close>

definition check_second_factor ::
    "env \<Rightarrow> request \<Rightarrow> string \<Rightarrow> string \<Rightarrow> string \<Rightarrow> user registry \<Rightarrow> string option result \<times> user registry" where
  "check_second_factor env rq name code recovery us =
     (if code \<noteq> [] then
        (Inr (if e_pyotp env \<and> present (get_totp_secret name us)
                \<and> e_totp env (rq_now rq) (the (get_totp_secret name us)) code then Some ''totp'' else None), us)
      else if recovery \<noteq> [] then
        (case consume_recovery_code (e_kdf env) (rq_fail rq) name recovery us of
           (Inl e, us') \<Rightarrow> (Inl e, us')
         | (Inr ok, us') \<Rightarrow> (Inr (if ok then Some ''recovery'' else None), us'))
      else (Inr None, us))"

definition login_2fa_post :: "env \<Rightarrow> request \<Rightarrow> string \<Rightarrow> string \<Rightarrow> string \<Rightarrow> session \<Rightarrow> web \<Rightarrow> outcome" where
  "login_2fa_post env rq form_code form_recovery form_next s w =
     (case ss_pending_user s of
        None \<Rightarrow> (Redirect (LoginPage None), s, w)
      | Some name \<Rightarrow>
          if name = [] then (Redirect (LoginPage None), s, w)
          else let ip = client_ip rq; nxt = safe_next form_next in
            case check_second_factor env rq name (strip form_code) (strip form_recovery) (w_users w) of
              (Inl _, us) \<Rightarrow> (Crash, s, w\<lparr>w_users := us\<rparr>)
            | (Inr None, us) \<Rightarrow>
                (Redirect (Login2fa (Some nxt)), flash ''error'' ''Invalid 2FA code.'' s,
                 count ''login_failures_total''
                   (audit ''login.2fa_failed'' None [(''username'', Some name), (''ip'', Some ip)] (w\<lparr>w_users := us\<rparr>)))
            | (Inr (Some meth), us) \<Rightarrow>
                let mc = ss_pending_must_change s; s1 = full_session name ''local'' mc;
                    w1 = audit ''login.success'' (Some name) [(''method'', Some (''local+'' @ meth)), (''ip'', Some ip),
                      (''must_change'', Some (bool_text mc))] (count ''login_success_total'' (w\<lparr>w_users := us\<rparr>))
                in if mc then (Redirect ChangePasswordPage,
                       flash ''warning'' ''You're using a default password. Please set a new one.'' s1, w1)
                   else (Redirect (Internal nxt), s1, w1))"

definition logout :: "request \<Rightarrow> session \<Rightarrow> web \<Rightarrow> outcome" where
  "logout rq s w = (Redirect (LoginPage None), empty_session,
     if present (ss_user s) then audit ''logout'' (ss_user s) [(''ip'', rq_ip rq)] w else w)"

end
