(* ===== verification/Web_Accounts.thy ===== *)
theory Web_Accounts
  imports Web_Auth
begin

text \<open>
  The routes of web/app.py that change credentials: the password form, local users, API tokens,
  second-factor enrolment and passkeys, including the login with a passkey; and the dispatcher that
  puts the login guard in front of them.
\<close>

definition user_name :: "session \<Rightarrow> string" where
  "user_name s = (case ss_user s of None \<Rightarrow> [] | Some u \<Rightarrow> u)"

definition actor_ip :: "session \<Rightarrow> request \<Rightarrow> (string \<times> string option) list \<Rightarrow> string \<Rightarrow> web \<Rightarrow> web" where
  "actor_ip s rq details event w = audit event (ss_user s) (details @ [(''ip'', rq_ip rq)]) w"

definition quoted :: "string \<Rightarrow> string" where
  "quoted s = [CHR 0x27] @ s @ [CHR 0x27]"

subsection \<open>Passwords and users\<close>

definition change_password_post :: "env \<Rightarrow> request \<Rightarrow> string \<Rightarrow> string \<Rightarrow> string \<Rightarrow> session \<Rightarrow> web \<Rightarrow> outcome" where
  "change_password_post env rq current new_pw confirm s w =
     (let retry = (\<lambda>msg s w. (Redirect ChangePasswordPage, flash ''error'' msg s, w)); name = user_name s in
      if ss_method s \<noteq> Some ''local'' then
        (Redirect Dashboard, flash ''error'' ''Password changes for RADIUS users must be made on the RADIUS server.'' s, w)
      else case user_authenticate (e_kdf env) (rq_fail rq) (rq_now rq) name current (w_users w) of
          (Inl _, us) \<Rightarrow> (Crash, s, w\<lparr>w_users := us\<rparr>)
        | (Inr False, us) \<Rightarrow> retry ''Current password is incorrect.'' s (w\<lparr>w_users := us\<rparr>)
        | (Inr True, us) \<Rightarrow>
            if new_pw \<noteq> confirm then retry ''New passwords do not match.'' s (w\<lparr>w_users := us\<rparr>)
            else if length new_pw < 8 then retry ''New password must be at least 8 characters.'' s (w\<lparr>w_users := us\<rparr>)
            else if new_pw = current
            then retry ''New password must be different from the current one.'' s (w\<lparr>w_users := us\<rparr>)
            else (case Local_Auth.change_password (e_kdf env) (rq_fail rq) (rq_salts rq 0) name new_pw us of
                (Inl _, us') \<Rightarrow> (Crash, s, w\<lparr>w_users := us'\<rparr>)
              | (Inr False, us') \<Rightarrow> retry ''Could not update password.'' s (w\<lparr>w_users := us'\<rparr>)
              | (Inr True, us') \<Rightarrow> (Redirect Dashboard, flash ''success'' ''Password updated.'' (s\<lparr>ss_must_change := False\<rparr>),
                  audit ''password.changed'' (Some name) [(''ip'', rq_ip rq)] (w\<lparr>w_users := us'\<rparr>))))"

definition settings_user_add :: "env \<Rightarrow> request \<Rightarrow> string \<Rightarrow> string \<Rightarrow> session \<Rightarrow> web \<Rightarrow> outcome" where
  "settings_user_add env rq form_name password s w =
     (let name = strip form_name; err = (\<lambda>msg w. (Redirect SettingsAuth, flash ''error'' msg s, w)) in
      if name = [] \<or> password = [] then err ''Username and password are required.'' w
      else if length password < min_password_len
      then err (''Password must be at least '' @ nat_str min_password_len @ '' characters.'') w
      else case add_user (e_kdf env) (rq_fail rq) (rq_now rq) (rq_salts rq 0) name password False (w_users w) of
          (Inl _, us) \<Rightarrow> (Crash, s, w\<lparr>w_users := us\<rparr>)
        | (Inr False, us) \<Rightarrow> err (''Could not add user '' @ quoted name @ '' (name may already exist).'') (w\<lparr>w_users := us\<rparr>)
        | (Inr True, us) \<Rightarrow> (Redirect SettingsAuth, flash ''success'' (''User '' @ quoted name @ '' added.'') s,
            actor_ip s rq [(''target'', Some name)] ''user.add'' (w\<lparr>w_users := us\<rparr>)))"

definition settings_user_remove :: "request \<Rightarrow> string \<Rightarrow> session \<Rightarrow> web \<Rightarrow> outcome" where
  "settings_user_remove rq name s w =
     (if Some name = ss_user s then
        (Redirect SettingsAuth, flash ''error'' ''You can't remove the user you're signed in as.'' s, w)
      else case remove_user (rq_fail rq) name (w_users w) of
          (Inl _, us) \<Rightarrow> (Crash, s, w\<lparr>w_users := us\<rparr>)
        | (Inr False, us) \<Rightarrow> (Redirect SettingsAuth, flash ''error'' (''Could not remove '' @ quoted name @ '' (not found, or it's the last user).'') s, w\<lparr>w_users := us\<rparr>)
        | (Inr True, us) \<Rightarrow> (Redirect SettingsAuth, flash ''success'' (''User '' @ quoted name @ '' removed.'') s,
            actor_ip s rq [(''target'', Some name)] ''user.remove'' (w\<lparr>w_users := us\<rparr>)))"

subsection \<open>API tokens\<close>

definition settings_api_tokens_mint ::
    "env \<Rightarrow> request \<Rightarrow> string \<Rightarrow> string list \<Rightarrow> bytes \<Rightarrow> bytes \<Rightarrow> session \<Rightarrow> web \<Rightarrow> outcome" where
  "settings_api_tokens_mint env rq form_name scopes secret_bytes id_bytes s w =
     (let name = strip form_name in
      if name = [] then (Redirect SettingsTokens, flash ''error'' ''Token name is required.'' s, w)
      else if scopes = [] then (Redirect SettingsTokens, flash ''error'' ''Pick at least one scope.'' s, w)
      else case mint_token (e_kdf env) (rq_fail rq) (rq_now rq) secret_bytes id_bytes (rq_salts rq 0) name scopes
            (case ss_user s of None \<Rightarrow> ''?'' | Some u \<Rightarrow> u) (w_tokens w) of
          (Inl _, ts) \<Rightarrow> (Crash, s, w\<lparr>w_tokens := ts\<rparr>)
        | (Inr (tid, clear), ts) \<Rightarrow>
            (Redirect SettingsTokens,
             flash ''success'' (''Token '' @ quoted name @ '' created. Copy it now '' @ em_dash @ '' it won't be shown again.'') (s\<lparr>ss_new_token := Some (clear, tid)\<rparr>),
             actor_ip s rq [(''token'', Some tid), (''name'', Some name), (''scopes'', Some (join '','' scopes))]
               ''token.mint'' (w\<lparr>w_tokens := ts\<rparr>)))"

text \<open>The regular expressions of the routes; a dollar sign also matches before a final line feed.\<close>

definition id_char :: "char \<Rightarrow> bool" where
  "id_char c = (is_digit c \<or> c = CHR ''_'' \<or> c = CHR ''-''
     \<or> (let n = (of_char c :: nat) in 65 \<le> n \<and> n \<le> 90 \<or> 97 \<le> n \<and> n \<le> 122))"

definition id_text :: "string \<Rightarrow> bool" where
  "id_text s = (let t = (if endswith s [CHR 0x0A] then butlast s else s) in t \<noteq> [] \<and> list_all id_char t)"

definition settings_api_tokens_revoke :: "request \<Rightarrow> string \<Rightarrow> session \<Rightarrow> web \<Rightarrow> outcome" where
  "settings_api_tokens_revoke rq tid s w =
     (if \<not> (startswith tid ''tok_'' \<and> id_text (drop 4 tid)) then (Abort 400, s, w)
      else case revoke_token (rq_fail rq) tid (w_tokens w) of
          (Inl _, ts) \<Rightarrow> (Crash, s, w\<lparr>w_tokens := ts\<rparr>)
        | (Inr False, ts) \<Rightarrow> (Redirect SettingsTokens, flash ''error'' (''Token '' @ tid @ '' not found.'') s, w\<lparr>w_tokens := ts\<rparr>)
        | (Inr True, ts) \<Rightarrow> (Redirect SettingsTokens, flash ''success'' (''Token '' @ tid @ '' revoked.'') s,
            actor_ip s rq [(''token'', Some tid)] ''token.revoke'' (w\<lparr>w_tokens := ts\<rparr>)))"

subsection \<open>Second-factor enrolment\<close>

definition hex_upper :: "bytes \<Rightarrow> string" where
  "hex_upper bs = concat (map (\<lambda>b. map (\<lambda>d. if d < 10 then digit_char d else char_of (55 + d))
     [unat b div 16, unat b mod 16]) bs)"

text \<open>\<open>raws\<close>: the ten random strings of four bytes.\<close>

definition generate_recovery_codes :: "bytes list \<Rightarrow> string list" where
  "generate_recovery_codes raws = map (\<lambda>bs. let raw = hex_upper bs in take 4 raw @ ''-'' @ drop 4 raw) raws"

definition settings_2fa_begin :: "env \<Rightarrow> request \<Rightarrow> string \<Rightarrow> bytes list \<Rightarrow> session \<Rightarrow> web \<Rightarrow> outcome" where
  "settings_2fa_begin env rq secret raws s w =
     (if ss_method s \<noteq> Some ''local'' then
        (Redirect Settings2fa, flash ''error'' ''2FA enrolment is only available for local accounts. RADIUS accounts authenticate against the RADIUS server's second factor.'' s, w)
      else if \<not> e_pyotp env then (Redirect Settings2fa, flash ''error'' ''Server is missing pyotp / qrcode. Run: sudo pip3 install pyotp qrcode'' s, w)
      else (Redirect Settings2fa,
        s\<lparr>ss_totp_secret := Some secret, ss_totp_codes := generate_recovery_codes raws\<rparr>,
        audit ''2fa.enroll_begin'' (Some (user_name s)) [(''ip'', rq_ip rq)] w))"

text \<open>Each code is hashed without its dashes, in upper case, with a salt of its own.\<close>

fun hash_codes :: "kdf \<Rightarrow> (nat \<Rightarrow> bytes) \<Rightarrow> nat \<Rightarrow> string list \<Rightarrow> string list result" where
  "hash_codes kdf salts n [] = Inr []"
| "hash_codes kdf salts n (c # cs) =
     bind_r (hash_secret kdf password_dklen (salts n) (upper (filter (\<lambda>x. x \<noteq> CHR ''-'') c))) (\<lambda>h.
     bind_r (hash_codes kdf salts (n + 1) cs) (\<lambda>hs. Inr (h # hs)))"

definition settings_2fa_confirm :: "env \<Rightarrow> request \<Rightarrow> string \<Rightarrow> session \<Rightarrow> web \<Rightarrow> outcome" where
  "settings_2fa_confirm env rq form_code s w =
     (let name = user_name s; err = (\<lambda>msg w. (Redirect Settings2fa, flash ''error'' msg s, w)) in
      if \<not> present (ss_totp_secret s) then err ''No pending enrolment. Start over.'' w
      else let secret = the (ss_totp_secret s) in
        if \<not> (e_pyotp env \<and> e_totp env (rq_now rq) secret (strip form_code))
        then err ''That code didn't match. Try again.'' w
        else case hash_codes (e_kdf env) (rq_salts rq) 0 (ss_totp_codes s) of
          Inl _ \<Rightarrow> (Crash, s, w)
        | Inr hashes \<Rightarrow>
            (case enroll_totp (rq_fail rq) (rq_now rq) name secret hashes (w_users w) of
               (Inl _, us) \<Rightarrow> (Crash, s, w\<lparr>w_users := us\<rparr>)
             | (Inr False, us) \<Rightarrow> err ''Could not save 2FA enrolment.'' (w\<lparr>w_users := us\<rparr>)
             | (Inr True, us) \<Rightarrow> (Redirect Settings2fa,
                 flash ''success'' ''2FA enrolled. From your next login you'll be prompted for a 6-digit code.'' (s\<lparr>ss_totp_secret := None, ss_totp_codes := []\<rparr>),
                 audit ''2fa.enrolled'' (Some name) [(''ip'', rq_ip rq)] (w\<lparr>w_users := us\<rparr>))))"

definition settings_2fa_disable :: "env \<Rightarrow> request \<Rightarrow> string \<Rightarrow> session \<Rightarrow> web \<Rightarrow> outcome" where
  "settings_2fa_disable env rq form_code s w =
     (let name = user_name s; secret = get_totp_secret name (w_users w) in
      if \<not> (e_pyotp env \<and> present secret \<and> e_totp env (rq_now rq) (the secret) (strip form_code))
      then (Redirect Settings2fa, flash ''error'' ''Enter a valid current 2FA code to disable.'' s, w)
      else case disable_totp (rq_fail rq) name (w_users w) of
          (Inl _, us) \<Rightarrow> (Crash, s, w\<lparr>w_users := us\<rparr>)
        | (Inr _, us) \<Rightarrow> (Redirect Settings2fa, flash ''success'' ''2FA disabled.'' s,
            audit ''2fa.disabled'' (Some name) [(''ip'', rq_ip rq)] (w\<lparr>w_users := us\<rparr>)))"

subsection \<open>Passkeys\<close>

text \<open>\<open>challenge\<close> is what the WebAuthn library drew, \<open>None\<close> when it is not installed.\<close>

definition settings_passkeys_register_begin :: "bytes option \<Rightarrow> session \<Rightarrow> web \<Rightarrow> outcome" where
  "settings_passkeys_register_begin challenge s w =
     (if ss_method s \<noteq> Some ''local'' then (Json ''Passkeys are only available for local accounts.'' 400, s, w)
      else case challenge of None \<Rightarrow> (Json ''error'' 500, s, w)
      | Some ch \<Rightarrow> (Json ''options'' 200, s\<lparr>ss_reg_challenge := Some ch\<rparr>, w))"

definition settings_passkeys_register_complete ::
    "env \<Rightarrow> request \<Rightarrow> string \<Rightarrow> string \<Rightarrow> session \<Rightarrow> web \<Rightarrow> outcome" where
  "settings_passkeys_register_complete env rq form_name attestation s0 w =
     (let name = user_name s0; s = s0\<lparr>ss_reg_challenge := None\<rparr> in
      case ss_reg_challenge s0 of
        None \<Rightarrow> (Json ''No pending registration challenge. Start over.'' 400, s, w)
      | Some ch \<Rightarrow>
          (case e_attestation env (rq_host rq) ch attestation of
             Inl reason \<Rightarrow> (Json reason 400, s,
               audit ''passkey.enroll_failed'' (Some name) [(''ip'', rq_ip rq), (''reason'', Some reason)] w)
           | Inr pk0 \<Rightarrow>
               let pk = pk0\<lparr>pk_name := or_else (take 60 (strip form_name)) ''Unnamed passkey''\<rparr> in
               (case add_passkey (rq_fail rq) name pk (w_users w) of
                  (Inl _, us) \<Rightarrow> (Crash, s, w\<lparr>w_users := us\<rparr>)
                | (Inr False, us) \<Rightarrow> (Json ''Could not persist passkey.'' 500, s, w\<lparr>w_users := us\<rparr>)
                | (Inr True, us) \<Rightarrow> (Json ''ok'' 200, s,
                    audit ''passkey.enrolled'' (Some name) [(''ip'', rq_ip rq), (''name'', Some (pk_name pk))] (w\<lparr>w_users := us\<rparr>)))))"

definition settings_passkeys_remove :: "request \<Rightarrow> string \<Rightarrow> session \<Rightarrow> web \<Rightarrow> outcome" where
  "settings_passkeys_remove rq cid s w =
     (if \<not> id_text cid \<or> 512 < length cid then (Abort 400, s, w)
      else case remove_passkey (rq_fail rq) (user_name s) cid (w_users w) of
          (Inl _, us) \<Rightarrow> (Crash, s, w\<lparr>w_users := us\<rparr>)
        | (Inr False, us) \<Rightarrow> (Redirect SettingsPasskeys, flash ''error'' ''Passkey not found.'' s, w\<lparr>w_users := us\<rparr>)
        | (Inr True, us) \<Rightarrow> (Redirect SettingsPasskeys, flash ''success'' ''Passkey removed.'' s,
            audit ''passkey.removed'' (Some (user_name s)) [(''ip'', rq_ip rq), (''credential_id'', Some (take 16 cid))]
              (w\<lparr>w_users := us\<rparr>)))"

definition login_passkey_begin :: "string \<Rightarrow> bytes option \<Rightarrow> session \<Rightarrow> web \<Rightarrow> outcome" where
  "login_passkey_begin form_name challenge s w = (case challenge of
       None \<Rightarrow> (Json ''error'' 500, s, w)
     | Some ch \<Rightarrow> (Json ''options'' 200, s\<lparr>ss_auth_challenge := Some ch, ss_auth_hint := strip form_name\<rparr>, w))"

text \<open>The options sent to the browser list the named user's credentials.\<close>

definition allow_credentials :: "string \<Rightarrow> web \<Rightarrow> string list option" where
  "allow_credentials form_name w = (let name = strip form_name;
       ids = (if name = [] then [] else list_credential_ids name (w_users w))
     in if ids = [] then None else Some ids)"

definition login_passkey_complete :: "env \<Rightarrow> request \<Rightarrow> string \<Rightarrow> string \<Rightarrow> session \<Rightarrow> web \<Rightarrow> outcome" where
  "login_passkey_complete env rq cid assertion s0 w =
     (let ip = client_ip rq; hint = ss_auth_hint s0; s = s0\<lparr>ss_auth_challenge := None, ss_auth_hint := []\<rparr> in
      case ss_auth_challenge s0 of
        None \<Rightarrow> (Json ''No pending authentication challenge.'' 400, s, w)
      | Some ch \<Rightarrow>
          if cid = [] then (Json ''Malformed assertion.'' 400, s, w)
          else (case find_user_by_credential_id cid (w_users w) of
            None \<Rightarrow> (Json ''Unknown passkey.'' 401, s,
              audit ''passkey.auth_failed'' None [(''ip'', Some ip), (''reason'', Some ''unknown_credential'')] w)
          | Some owner \<Rightarrow>
              if hint \<noteq> [] \<and> hint \<noteq> owner then
                (Json ''Passkey does not match the username.'' 401, s,
                 audit ''passkey.auth_failed'' None [(''ip'', Some ip), (''reason'', Some ''username_mismatch''),
                   (''claimed'', Some hint), (''owner'', Some owner)] w)
              else (case get_passkey owner cid (w_users w) of
                None \<Rightarrow> (Json ''Passkey lookup failed.'' 500, s, w)
              | Some stored \<Rightarrow>
                  (case e_assertion env (rq_host rq) ch stored assertion of
                     Inl reason \<Rightarrow> (Json reason 401, s, count ''login_failures_total''
                       (audit ''passkey.auth_failed'' (Some owner) [(''ip'', Some ip), (''reason'', Some reason)] w))
                   | Inr n \<Rightarrow>
                       (case update_passkey_after_use (rq_fail rq) (rq_now rq) owner cid n (w_users w) of
                          (Inl _, us) \<Rightarrow> (Crash, s, w\<lparr>w_users := us\<rparr>)
                        | (Inr _, us) \<Rightarrow>
                            let mc = must_change_password owner us
                            in (Json ''ok'' 200, full_session owner ''local'' mc,
                                audit ''login.success'' (Some owner) [(''method'', Some ''local+passkey''), (''ip'', Some ip),
                                  (''must_change'', Some (bool_text mc))]
                                  (count ''login_success_total'' (w\<lparr>w_users := us\<rparr>))))))))"

subsection \<open>The dispatcher\<close>

datatype route =
    LoginForm string string string
  | SecondFactor string string string
  | Logout
  | ChangePw string string string
  | UserAdd string string
  | UserRemove string
  | TokensPage
  | TokenMint string "string list" bytes bytes
  | TokenRevoke string
  | TotpBegin string "bytes list"
  | TotpConfirm string
  | TotpDisable string
  | PkRegBegin "bytes option"
  | PkRegComplete string string
  | PkRemove string
  | PkLoginBegin string "bytes option"
  | PkLoginComplete string string

text \<open>Path and endpoint of the routes behind \<open>require_login\<close>.\<close>

definition guarded :: "route \<Rightarrow> (string \<times> string) option" where
  "guarded r = (case r of
       ChangePw _ _ _ \<Rightarrow> Some (''/change-password'', ''change_password_post'')
     | UserAdd _ _ \<Rightarrow> Some (''/settings/auth/users/add'', ''settings_user_add'')
     | UserRemove n \<Rightarrow> Some (''/settings/auth/users/'' @ n @ ''/remove'', ''settings_user_remove'')
     | TokensPage \<Rightarrow> Some (''/settings/api-tokens'', ''settings_api_tokens'')
     | TokenMint _ _ _ _ \<Rightarrow> Some (''/settings/api-tokens/mint'', ''settings_api_tokens_mint'')
     | TokenRevoke t \<Rightarrow> Some (''/settings/api-tokens/'' @ t @ ''/revoke'', ''settings_api_tokens_revoke'')
     | TotpBegin _ _ \<Rightarrow> Some (''/settings/2fa/begin'', ''settings_2fa_begin'')
     | TotpConfirm _ \<Rightarrow> Some (''/settings/2fa/confirm'', ''settings_2fa_confirm'')
     | TotpDisable _ \<Rightarrow> Some (''/settings/2fa/disable'', ''settings_2fa_disable'')
     | PkRegBegin _ \<Rightarrow> Some (''/settings/passkeys/register/begin'', ''settings_passkeys_register_begin'')
     | PkRegComplete _ _ \<Rightarrow> Some (''/settings/passkeys/register/complete'', ''settings_passkeys_register_complete'')
     | PkRemove c \<Rightarrow> Some (''/settings/passkeys/'' @ c @ ''/remove'', ''settings_passkeys_remove'')
     | _ \<Rightarrow> None)"

fun handle :: "env \<Rightarrow> request \<Rightarrow> route \<Rightarrow> session \<Rightarrow> web \<Rightarrow> outcome" where
  "handle env rq (LoginForm name pw nxt) s w = login_post env rq name pw nxt s w"
| "handle env rq (SecondFactor code recovery nxt) s w = login_2fa_post env rq code recovery nxt s w"
| "handle env rq Logout s w = logout rq s w"
| "handle env rq (ChangePw current new_pw confirm) s w = change_password_post env rq current new_pw confirm s w"
| "handle env rq (UserAdd name pw) s w = settings_user_add env rq name pw s w"
| "handle env rq (UserRemove name) s w = settings_user_remove rq name s w"
| "handle env rq TokensPage s w = (Page ''settings_api_tokens.html'' 200, s\<lparr>ss_new_token := None, ss_flashes := []\<rparr>, w)"
| "handle env rq (TokenMint name scopes b i) s w = settings_api_tokens_mint env rq name scopes b i s w"
| "handle env rq (TokenRevoke tid) s w = settings_api_tokens_revoke rq tid s w"
| "handle env rq (TotpBegin secret raws) s w = settings_2fa_begin env rq secret raws s w"
| "handle env rq (TotpConfirm code) s w = settings_2fa_confirm env rq code s w"
| "handle env rq (TotpDisable code) s w = settings_2fa_disable env rq code s w"
| "handle env rq (PkRegBegin ch) s w = settings_passkeys_register_begin ch s w"
| "handle env rq (PkRegComplete name att) s w = settings_passkeys_register_complete env rq name att s w"
| "handle env rq (PkRemove cid) s w = settings_passkeys_remove rq cid s w"
| "handle env rq (PkLoginBegin name ch) s w = login_passkey_begin name ch s w"
| "handle env rq (PkLoginComplete cid assertion) s w = login_passkey_complete env rq cid assertion s w"

definition serve :: "env \<Rightarrow> request \<Rightarrow> route \<Rightarrow> session \<Rightarrow> web \<Rightarrow> outcome" where
  "serve env rq r s w = (case guarded r of
       None \<Rightarrow> handle env rq r s w
     | Some (path, endpoint) \<Rightarrow>
         (case require_login path endpoint s of
            Some resp \<Rightarrow> (resp, s, w)
          | None \<Rightarrow> handle env rq r s w))"

end
