(* ===== verification/Local_Auth_Proofs.thy ===== *)
theory Local_Auth_Proofs
  imports Local_Auth
begin

text \<open>
  What the user store promises: good entries and at least one user whatever happens, durability of
  every change, passwords that verify after a change, and recovery codes that work once.
\<close>

subsection \<open>The registry contract\<close>

definition user_ok :: "string \<Rightarrow> user \<Rightarrow> bool" where
  "user_ok k u \<longleftrightarrow> us_name u = k \<and> k \<noteq> [] \<and> us_hash u \<noteq> []"

interpretation users: json_registry accept_user user_ok
  by unfold_locales (auto simp: accept_user_def user_ok_def split: if_splits)

datatype auth_op =
    Bootstrap datetime bytes
  | Authenticate datetime string string
  | ChangePassword bytes string string
  | EnrollTotp datetime string string "string list"
  | DisableTotp string
  | ConsumeCode string string
  | AddPasskey string passkey
  | UsePasskey datetime string string int
  | RemovePasskey string string
  | AddUser datetime bytes string string bool
  | RemoveUser string

fun auth_step :: "kdf \<Rightarrow> user registry \<Rightarrow> faults \<times> auth_op \<Rightarrow> bool result \<times> user registry" where
  "auth_step kdf reg (fail, Bootstrap now salt) = bootstrap_default_admin kdf fail now salt reg"
| "auth_step kdf reg (fail, Authenticate now n p) = user_authenticate kdf fail now n p reg"
| "auth_step kdf reg (fail, ChangePassword salt n p) = change_password kdf fail salt n p reg"
| "auth_step kdf reg (fail, EnrollTotp now n s hs) = enroll_totp fail now n s hs reg"
| "auth_step kdf reg (fail, DisableTotp n) = disable_totp fail n reg"
| "auth_step kdf reg (fail, ConsumeCode n c) = consume_recovery_code kdf fail n c reg"
| "auth_step kdf reg (fail, AddPasskey n k) = add_passkey fail n k reg"
| "auth_step kdf reg (fail, UsePasskey now n c k) = update_passkey_after_use fail now n c k reg"
| "auth_step kdf reg (fail, RemovePasskey n c) = remove_passkey fail n c reg"
| "auth_step kdf reg (fail, AddUser now salt n p m) = add_user kdf fail now salt n p m reg"
| "auth_step kdf reg (fail, RemoveUser n) = remove_user fail n reg"

lemmas auth_defs = bootstrap_default_admin_def user_authenticate_def change_password_def enroll_totp_def
  disable_totp_def consume_recovery_code_def add_passkey_def update_passkey_after_use_def remove_passkey_def
  add_user_def remove_user_def

text \<open>An operation refuses, files one good record, or drops one of at least two users.\<close>

inductive auth_effect :: "faults \<Rightarrow> user registry \<Rightarrow> bool result \<times> user registry \<Rightarrow> bool" where
  refused: "res \<noteq> Inr True \<Longrightarrow> auth_effect fail reg (res, reg)"
| stored: "user_ok k u \<Longrightarrow> auth_effect fail reg (put_user fail k u reg)"
| dropped: "1 < length (entries reg) \<Longrightarrow> auth_effect fail reg (commit fail reg (ddel k (entries reg)) True)"

inductive_cases auth_effectE: "auth_effect fail reg x"

lemma user_ok_new: "k \<noteq> [] \<Longrightarrow> h \<noteq> [] \<Longrightarrow> user_ok k (new_user now k h m)"
  by (simp add: user_ok_def new_user_def)

lemma user_ok_amended:
  "user_ok k u \<Longrightarrow> us_name u' = us_name u \<Longrightarrow> us_hash u' \<noteq> [] \<Longrightarrow> user_ok k u'"
  by (simp add: user_ok_def)

lemma auth_step_effect:
  assumes ok: "dict_ok user_ok (entries reg)"
  shows "auth_effect (fst e) reg (auth_step kdf reg e)"
proof -
  have hash: "dget (entries reg) k = Some u \<Longrightarrow> us_hash u \<noteq> []" for k u
    using dict_okD [OF ok] by (auto simp: user_ok_def)
  show ?thesis
    by (cases "(kdf, reg, e)" rule: auth_step.cases)
      (auto simp: auth_defs Let_def default_username_def dest: hash_secret_nonempty hash
        split: if_splits option.splits sum.splits
        intro!: refused dropped stored user_ok_new user_ok_amended [OF dict_okD [OF ok]])
qed

lemma auth_effect_orderly: "auth_effect fail reg x \<Longrightarrow> dict_ok user_ok (entries reg) \<Longrightarrow> orderly user_ok reg x"
  by (erule auth_effect.cases) (auto simp: put_user_def intro: orderly_commit dict_ok_dset dict_ok_ddel)

lemma ddel_length: "distinct (dkeys d) \<Longrightarrow> length d \<le> Suc (length (ddel k d))"
proof (induction d)
  case (Cons kv d)
  have "k \<notin> set (dkeys d) \<Longrightarrow> ddel k d = d" by (induction d) auto
  with Cons show ?case by (cases "fst kv = k") auto
qed simp

lemma auth_effect_nonempty:
  assumes "auth_effect fail reg x" "dict_ok user_ok (entries reg)" "entries reg \<noteq> []"
  shows "entries (snd x) \<noteq> []"
  using assms(1)
proof cases
  case (stored k u)
  have "dget (dset k u (entries reg)) k \<noteq> None" by simp
  then show ?thesis using stored by (auto simp: put_user_def simp del: dget_dset)
next
  case (dropped k)
  then show ?thesis using ddel_length [OF dict_ok_distinct [OF assms(2)], of k] by auto
qed (use assms(3) in auto)

definition auth_inv :: "user registry \<Rightarrow> bool" where
  "auth_inv reg \<longleftrightarrow> dict_ok user_ok (entries reg) \<and> entries reg \<noteq> []"

interpretation auth_machine: machine "\<lambda>reg e. snd (auth_step kdf reg e)" auth_inv "\<lambda>_. True" for kdf
  unfolding auth_inv_def
  by unfold_locales
    (metis auth_step_effect auth_effect_nonempty auth_effect_orderly orderly_inv)

lemma bootstrap_inv:
  assumes "kdf_total kdf"
  shows "auth_inv (snd (bootstrap_default_admin kdf fail now salt (open_users d)))"
proof (cases "entries (open_users d) = []")
  case True
  obtain h where h: "hash_secret kdf password_dklen salt default_password = Inr h"
    using hash_secret_total [OF assms, of password_dklen] by (auto simp: password_dklen_def)
  have "user_ok default_username (new_user now default_username h True)"
    using hash_secret_nonempty [OF h] by (intro user_ok_new) (simp_all add: default_username_def)
  then show ?thesis
    by (simp add: auth_inv_def bootstrap_default_admin_def True h put_user_def dict_ok_def)
next
  case False
  then show ?thesis
    using users.open_ok [of d] by (simp add: auth_inv_def bootstrap_default_admin_def open_users_def)
qed

lemma reopen_users: "synced reg \<Longrightarrow> dict_ok user_ok (entries reg) \<Longrightarrow> open_users (backing reg) = reg"
  using users.restart [of reg] by (simp add: open_users_def registry_open_def)

lemma auth_effect_synced: "auth_effect fail reg (Inr True, reg') \<Longrightarrow> synced reg'"
  by (erule auth_effect.cases) (auto simp: put_user_def dest: commitD [OF sym])

lemma put_userD: "put_user fail k u reg = (res, reg') \<Longrightarrow> entries reg' = dset k u (entries reg)"
  unfolding put_user_def by (drule commitD) simp

subsection \<open>The properties\<close>

text \<open>
  Whatever the users file holds, once the bootstrap has run the store is never empty again,
  whichever operations follow and whichever disk writes fail: the last user cannot be removed.  A
  change that returned True survives a restart exactly; one that raised left the file as it was.
\<close>

theorem local_auth_never_empty:
  assumes "kdf_total kdf"
    and "reg = foldl (\<lambda>reg e. snd (auth_step kdf reg e))
      (snd (bootstrap_default_admin kdf fail now salt (open_users d))) es"
    and "auth_step kdf reg e = (res, reg')"
  shows "list_users reg' \<noteq> []
    \<and> (res = Inr True \<longrightarrow> open_users (backing reg') = reg')
    \<and> (\<forall>x. res = Inl x \<longrightarrow> target (backing reg') = target (backing reg))"
proof -
  have inv: "auth_inv reg" unfolding assms(2)
    by (rule auth_machine.run_inv) (simp_all add: bootstrap_inv assms(1) list_all_iff)
  then have ok: "dict_ok user_ok (entries reg)" by (simp add: auth_inv_def)
  have eff: "auth_effect (fst e) reg (res, reg')" using auth_step_effect [OF ok, of e kdf] assms(3) by simp
  note o = auth_effect_orderly [OF eff ok]
  have "auth_inv reg'" using auth_machine.step_inv [OF inv, of kdf e] assms(3) by simp
  then show ?thesis
    using reopen_users [OF auth_effect_synced] eff orderly_failed [OF o]
    by (auto simp: auth_inv_def list_users_def)
qed

lemma change_password_success:
  assumes "change_password kdf fail salt name new reg = (Inr True, reg')"
  shows "\<exists>u h. hash_secret kdf password_dklen salt new = Inr h \<and> 8 \<le> length new
    \<and> put_user fail name (u\<lparr>us_hash := h, us_must_change := False\<rparr>) reg = (Inr True, reg')"
proof (cases "length new < min_password_len \<or> dget (entries reg) name = None")
  case True
  then show ?thesis using assms by (auto simp: change_password_def split: if_splits)
next
  case False
  then obtain u where u: "dget (entries reg) name = Some u" by blast
  show ?thesis
  proof (cases "hash_secret kdf password_dklen salt new")
    case (Inr h)
    then show ?thesis using assms False u
      by (intro exI [of _ u] exI [of _ h]) (simp add: change_password_def min_password_len_def)
  qed (use assms False u in \<open>simp add: change_password_def\<close>)
qed

text \<open>
  After a successful password change the user logs in with exactly the passwords whose scrypt
  digest under the new salt is that of the new password, no longer has to change it, and no other
  user is affected.
\<close>

theorem changed_password_authenticates:
  assumes "kdf_total kdf"
    and "change_password kdf fail salt name new reg = (Inr True, reg')"
    and "name \<noteq> []"
  shows "(p \<noteq> [] \<longrightarrow> (fst (user_authenticate kdf no_faults now name p reg') = Inr True
        \<longleftrightarrow> kdf p salt 16384 8 1 64 = kdf new salt 16384 8 1 64))
    \<and> fst (user_authenticate kdf no_faults now name new reg') = Inr True
    \<and> \<not> must_change_password name reg'
    \<and> (\<forall>other. other \<noteq> name \<longrightarrow> dget (entries reg') other = dget (entries reg) other)"
proof -
  from assms(2) obtain u h where h: "hash_secret kdf password_dklen salt new = Inr h" "8 \<le> length new"
    and c: "put_user fail name (u\<lparr>us_hash := h, us_must_change := False\<rparr>) reg = (Inr True, reg')"
    using change_password_success [OF assms(2)] by metis
  have e: "entries reg' = dset name (u\<lparr>us_hash := h, us_must_change := False\<rparr>) (entries reg)"
    by (rule put_userD [OF c])
  have "verify_secret kdf s h \<longleftrightarrow> kdf s salt 16384 8 1 64 = kdf new salt 16384 8 1 64" for s
    using verify_hash [OF h(1) assms(1)] by (simp add: password_dklen_def)
  then have auth: "fst (user_authenticate kdf no_faults now name s reg') = Inr True
      \<longleftrightarrow> kdf s salt 16384 8 1 64 = kdf new salt 16384 8 1 64" if "s \<noteq> []" for s
    using that assms(3) by (simp add: user_authenticate_def put_user_def e)
  have "new \<noteq> []" using h(2) by auto
  then show ?thesis using auth [of new] auth [of p]
    by (simp add: must_change_password_def e)
qed

lemma changed_password_authenticates_witness:
  "\<exists>reg'. fst (user_authenticate sample_kdf no_faults sample_now ''admin'' ''s3cret-pw'' reg') = Inr True
     \<and> \<not> must_change_password ''admin'' reg'"
proof -
  define reg :: "user registry" where
    "reg = \<lparr>entries = [(''admin'', new_user sample_now ''admin'' ''x'' True)],
       backing = \<lparr>target = Missing, target_mode = 0, temp = None\<rparr>\<rparr>"
  define reg' where "reg' = snd (change_password sample_kdf no_faults [] ''admin'' ''s3cret-pw'' reg)"
  obtain h where h: "hash_secret sample_kdf password_dklen [] ''s3cret-pw'' = Inr h"
    using hash_secret_total [OF sample_kdf_total, of password_dklen] by (auto simp: password_dklen_def)
  have "change_password sample_kdf no_faults [] ''admin'' ''s3cret-pw'' reg = (Inr True, reg')"
    by (rule prod_eqI)
      (simp_all add: reg'_def change_password_def min_password_len_def h put_user_def reg_def)
  then show ?thesis
    using changed_password_authenticates [OF sample_kdf_total _, of no_faults "[]" "''admin''" "''s3cret-pw''" reg reg' "''s3cret-pw''"]
    by blast
qed

subsection \<open>Recovery codes\<close>

lemma length_filter_remove1:
  "find P xs = Some h \<Longrightarrow> length (filter P xs) = Suc (length (filter P (remove1 h xs)))"
  by (induction xs) (auto split: if_splits dest: find_SomeD)

lemma length_remove1_find: "find P xs = Some h \<Longrightarrow> length xs = Suc (length (remove1 h xs))"
  by (induction xs) (auto split: if_splits)

lemma find_None_filter: "find P xs = None \<longleftrightarrow> filter P xs = []"
  by (auto simp: find_None_iff filter_empty_conv)

lemma consume_success:
  assumes "consume_recovery_code kdf fail name c reg = (Inr True, reg')"
  shows "\<exists>u h. dget (entries reg) name = Some u
    \<and> find (verify_secret kdf (normalize_code c)) (recovery_hashes u) = Some h
    \<and> put_user fail name (u\<lparr>us_totp_recovery := Some (remove1 h (recovery_hashes u))\<rparr>) reg = (Inr True, reg')"
proof (cases "dget (entries reg) name")
  case None
  then show ?thesis using assms by (simp add: consume_recovery_code_def split: if_splits)
next
  case (Some u)
  then show ?thesis using assms
    by (cases "find (verify_secret kdf (normalize_code c)) (recovery_hashes u)")
      (simp_all add: consume_recovery_code_def split: if_splits)
qed

text \<open>The stored hashes a candidate code still matches.\<close>

definition matching_hashes :: "kdf \<Rightarrow> string \<Rightarrow> string \<Rightarrow> user registry \<Rightarrow> string list" where
  "matching_hashes kdf name candidate reg = (case dget (entries reg) name of None \<Rightarrow> []
     | Some u \<Rightarrow> filter (verify_secret kdf (normalize_code candidate)) (recovery_hashes u))"

text \<open>
  C11: A recovery code is accepted exactly when it matches a stored hash, and each acceptance uses up
  one: the hashes it matches and the codes remaining both go down by one, so a code that matched one
  hash is refused from then on, however it is written (case, dashes, blanks).
\<close>

theorem recovery_code_single_use:
  assumes "c \<noteq> []"
  shows "(fst (consume_recovery_code kdf no_faults name c reg) = Inr True \<longleftrightarrow> matching_hashes kdf name c reg \<noteq> [])
    \<and> (consume_recovery_code kdf fail name c reg = (Inr True, reg') \<longrightarrow>
        length (matching_hashes kdf name c reg) = Suc (length (matching_hashes kdf name c reg'))
      \<and> recovery_codes_remaining name reg = Suc (recovery_codes_remaining name reg')
      \<and> (length (matching_hashes kdf name c reg) = 1 \<and> normalize_code c' = normalize_code c \<longrightarrow>
           fst (consume_recovery_code kdf fail' name c' reg') = Inr False))"
proof (intro conjI impI)
  have "find P xs \<noteq> None \<longleftrightarrow> filter P xs \<noteq> []" for P and xs :: "string list"
    by (simp add: find_None_filter)
  then show "fst (consume_recovery_code kdf no_faults name c reg) = Inr True \<longleftrightarrow> matching_hashes kdf name c reg \<noteq> []"
    using assms
    by (simp add: consume_recovery_code_def matching_hashes_def put_user_def find_None_filter split: option.split)
      (metis find_None_filter option.distinct(1))
next
  assume a: "consume_recovery_code kdf fail name c reg = (Inr True, reg')"
  then obtain u h where u: "dget (entries reg) name = Some u"
    and h: "find (verify_secret kdf (normalize_code c)) (recovery_hashes u) = Some h"
    and p: "put_user fail name (u\<lparr>us_totp_recovery := Some (remove1 h (recovery_hashes u))\<rparr>) reg = (Inr True, reg')"
    using consume_success [OF a] by metis
  have e: "entries reg' = dset name (u\<lparr>us_totp_recovery := Some (remove1 h (recovery_hashes u))\<rparr>) (entries reg)"
    by (rule put_userD [OF p])
  have r: "recovery_hashes (u\<lparr>us_totp_recovery := Some hs\<rparr>) = hs" for hs
    by (simp add: recovery_hashes_def)
  show 1: "length (matching_hashes kdf name c reg) = Suc (length (matching_hashes kdf name c reg'))"
    using length_filter_remove1 [OF h] by (simp add: matching_hashes_def u e r)
  show "recovery_codes_remaining name reg = Suc (recovery_codes_remaining name reg')"
    using length_remove1_find [OF h] by (simp add: recovery_codes_remaining_def u e r)
  assume b: "length (matching_hashes kdf name c reg) = 1 \<and> normalize_code c' = normalize_code c"
  then have "find (verify_secret kdf (normalize_code c')) (remove1 h (recovery_hashes u)) = None"
    using 1 by (simp add: find_None_filter matching_hashes_def e r)
  then show "fst (consume_recovery_code kdf fail' name c' reg') = Inr False"
    by (simp add: consume_recovery_code_def e r)
qed

lemma recovery_code_single_use_witness:
  "\<exists>reg reg'. consume_recovery_code sample_kdf no_faults ''admin'' ''ab1c-de2f'' reg = (Inr True, reg')
     \<and> fst (consume_recovery_code sample_kdf no_faults ''admin'' ''AB1C DE2F'' reg') = Inr False"
proof -
  obtain h where h: "hash_secret sample_kdf password_dklen [] ''AB1CDE2F'' = Inr h"
    using hash_secret_total [OF sample_kdf_total, of password_dklen] by (auto simp: password_dklen_def)
  define u where "u = (new_user sample_now ''admin'' ''x'' False)\<lparr>us_totp_recovery := Some [h]\<rparr>"
  define reg :: "user registry" where
    "reg = \<lparr>entries = [(''admin'', u)], backing = \<lparr>target = Missing, target_mode = 0, temp = None\<rparr>\<rparr>"
  define reg' where "reg' = snd (consume_recovery_code sample_kdf no_faults ''admin'' ''ab1c-de2f'' reg)"
  have n: "normalize_code ''ab1c-de2f'' = ''AB1CDE2F''" "normalize_code ''AB1C DE2F'' = ''AB1CDE2F''"
    by code_simp+
  have v: "verify_secret sample_kdf ''AB1CDE2F'' h"
    using verify_hash [OF h sample_kdf_total] by (simp add: password_dklen_def)
  have m: "matching_hashes sample_kdf ''admin'' ''ab1c-de2f'' reg = [h]"
    by (simp add: matching_hashes_def reg_def u_def recovery_hashes_def n v)
  have 1: "(fst (consume_recovery_code sample_kdf no_faults ''admin'' ''ab1c-de2f'' reg) = Inr True
      \<longleftrightarrow> matching_hashes sample_kdf ''admin'' ''ab1c-de2f'' reg \<noteq> [])
    \<and> (consume_recovery_code sample_kdf no_faults ''admin'' ''ab1c-de2f'' reg = (Inr True, reg') \<longrightarrow>
        length (matching_hashes sample_kdf ''admin'' ''ab1c-de2f'' reg) = Suc (length (matching_hashes sample_kdf ''admin'' ''ab1c-de2f'' reg'))
      \<and> recovery_codes_remaining ''admin'' reg = Suc (recovery_codes_remaining ''admin'' reg')
      \<and> (length (matching_hashes sample_kdf ''admin'' ''ab1c-de2f'' reg) = 1
          \<and> normalize_code ''AB1C DE2F'' = normalize_code ''ab1c-de2f'' \<longrightarrow>
           fst (consume_recovery_code sample_kdf no_faults ''admin'' ''AB1C DE2F'' reg') = Inr False))"
    by (rule recovery_code_single_use) simp
  have c: "consume_recovery_code sample_kdf no_faults ''admin'' ''ab1c-de2f'' reg = (Inr True, reg')"
    using 1 m by (simp add: prod_eq_iff reg'_def)
  show ?thesis using 1 c by (auto simp: m n)
qed

lemma local_auth_never_empty_witness:
  "\<exists>reg reg' :: user registry. auth_step sample_kdf reg (no_faults, RemoveUser ''admin'') = (Inr False, reg')
     \<and> list_users reg' \<noteq> []"
proof -
  define d :: "user list disk" where "d = \<lparr>target = Missing, target_mode = 0, temp = None\<rparr>"
  define reg where "reg = foldl (\<lambda>reg e. snd (auth_step sample_kdf reg e))
    (snd (bootstrap_default_admin sample_kdf no_faults sample_now [] (open_users d))) []"
  obtain h where h: "hash_secret sample_kdf password_dklen [] default_password = Inr h"
    using hash_secret_total [OF sample_kdf_total, of password_dklen] by (auto simp: password_dklen_def)
  have e: "entries reg = [(''admin'', new_user sample_now ''admin'' h True)]"
    by (simp add: reg_def d_def open_users_def registry_open_def load_entries_def bootstrap_default_admin_def h
        put_user_def default_username_def)
  have "auth_step sample_kdf reg (no_faults, RemoveUser ''admin'') = (Inr False, reg)"
    by (simp add: remove_user_def e)
  then show ?thesis
    using local_auth_never_empty [OF sample_kdf_total reg_def] by blast
qed

end
