(* ===== verification/Web_Auth_Proofs.thy ===== *)
theory Web_Auth_Proofs
  imports Web_Accounts Local_Auth_Proofs
begin

text \<open>
  What a session of the web interface proves about its owner: no full session without credentials,
  no way around a forced password change, and what throttles the second factor.
\<close>

subsection \<open>Evidence\<close>

text \<open>What the inputs of one request show, judged against the state the request meets.\<close>

datatype evidence =
    PasswordOk string bool
  | RadiusOk string
  | FactorOk string
  | PasskeyOk string

definition knows_password :: "kdf \<Rightarrow> string \<Rightarrow> string \<Rightarrow> user registry \<Rightarrow> bool" where
  "knows_password kdf name password us = (case dget (entries us) name of None \<Rightarrow> False
     | Some u \<Rightarrow> verify_secret kdf password (us_hash u))"

definition has_factor :: "env \<Rightarrow> request \<Rightarrow> string \<Rightarrow> string \<Rightarrow> string \<Rightarrow> user registry \<Rightarrow> bool" where
  "has_factor env rq name code recovery us =
     ((case get_totp_secret name us of None \<Rightarrow> False | Some k \<Rightarrow> e_totp env (rq_now rq) k code)
      \<or> matching_hashes (e_kdf env) name recovery us \<noteq> [])"

definition proves_passkey :: "env \<Rightarrow> request \<Rightarrow> string \<Rightarrow> string \<Rightarrow> string \<Rightarrow> session \<Rightarrow> web \<Rightarrow> bool" where
  "proves_passkey env rq owner cid assertion s w =
     (find_user_by_credential_id cid (w_users w) = Some owner
      \<and> (case (ss_auth_challenge s, get_passkey owner cid (w_users w)) of
           (Some ch, Some stored) \<Rightarrow> (case e_assertion env (rq_host rq) ch stored assertion of Inl _ \<Rightarrow> False | Inr _ \<Rightarrow> True)
         | _ \<Rightarrow> False))"

fun shown_by :: "env \<Rightarrow> request \<Rightarrow> route \<Rightarrow> session \<Rightarrow> web \<Rightarrow> evidence list" where
  "shown_by env rq (LoginForm name pw nxt) s w =
     (if w_local_enabled w \<and> knows_password (e_kdf env) (strip name) pw (w_users w)
      then [PasswordOk (strip name) (totp_enabled (strip name) (w_users w))] else [])
     @ (if radius_configured (w_radius w) \<and> e_radius env (w_radius w) (strip name) pw = Some access_accept
        then [RadiusOk (strip name)] else [])"
| "shown_by env rq (SecondFactor code recovery nxt) s w = (case ss_pending_user s of None \<Rightarrow> []
     | Some name \<Rightarrow> if has_factor env rq name (strip code) (strip recovery) (w_users w) then [FactorOk name] else [])"
| "shown_by env rq (PkLoginComplete cid assertion) s w =
     (case find_user_by_credential_id cid (w_users w) of None \<Rightarrow> []
      | Some owner \<Rightarrow> if proves_passkey env rq owner cid assertion s w then [PasskeyOk owner] else [])"
| "shown_by env rq _ s w = []"

text \<open>
  The sessions one browser can have, with the evidence its requests gave so far.  The shared state
  is arbitrary at every request: other clients, restarts and edited files come between.
\<close>

inductive browses :: "env \<Rightarrow> session \<Rightarrow> evidence list \<Rightarrow> bool" for env where
  fresh: "browses env empty_session []"
| request: "browses env s ev \<Longrightarrow> serve env rq r s w = (resp, s', w')
    \<Longrightarrow> browses env s' (ev @ shown_by env rq r s w)"

inductive_cases browsesE: "browses env s ev"

text \<open>What entitles a user to a session obtained by a method.\<close>

definition entitled :: "string \<Rightarrow> string option \<Rightarrow> evidence list \<Rightarrow> bool" where
  "entitled u meth ev \<longleftrightarrow>
     (meth = Some ''radius'' \<and> RadiusOk u \<in> set ev)
   \<or> (meth = Some ''local'' \<and> (PasswordOk u False \<in> set ev \<or> PasskeyOk u \<in> set ev
        \<or> (\<exists>a b c x. ev = a @ PasswordOk u x # b @ FactorOk u # c)))"

definition session_ok :: "session \<Rightarrow> evidence list \<Rightarrow> bool" where
  "session_ok s ev \<longleftrightarrow>
     (\<forall>u. ss_user s = Some u \<longrightarrow> entitled u (ss_method s) ev)
   \<and> (\<forall>u. ss_pending_user s = Some u \<longrightarrow> (\<exists>x. PasswordOk u x \<in> set ev))"

lemma entitled_more: "entitled u m ev \<Longrightarrow> entitled u m (ev @ ev')"
  unfolding entitled_def by (fastforce simp: append_assoc)

lemma session_ok_same:
  "session_ok s ev \<Longrightarrow> ss_user s' = ss_user s \<Longrightarrow> ss_method s' = ss_method s \<Longrightarrow>
   ss_pending_user s' = ss_pending_user s \<Longrightarrow> session_ok s' (ev @ ev')"
  using entitled_more by (fastforce simp: session_ok_def)

lemma session_ok_empty [simp]: "session_ok empty_session ev"
  by (simp add: session_ok_def empty_session_def)

lemma session_ok_full: "entitled u (Some m) ev \<Longrightarrow> session_ok (full_session u m mc) ev"
  by (simp add: session_ok_def full_session_def empty_session_def)

lemma flash_fields [simp]:
  "ss_user (flash c m s) = ss_user s" "ss_method (flash c m s) = ss_method s"
  "ss_pending_user (flash c m s) = ss_pending_user s" "ss_must_change (flash c m s) = ss_must_change s"
  by (simp_all add: flash_def)

lemma session_ok_flash [simp]: "session_ok (flash c m s) ev = session_ok s ev"
  by (simp add: session_ok_def)

text \<open>The routes behind the guard leave the identity of the session alone.\<close>

lemmas account_defs = change_password_post_def settings_user_add_def settings_user_remove_def
  settings_api_tokens_mint_def settings_api_tokens_revoke_def settings_2fa_begin_def
  settings_2fa_confirm_def settings_2fa_disable_def settings_passkeys_register_begin_def
  settings_passkeys_register_complete_def settings_passkeys_remove_def login_passkey_begin_def

definition same_identity :: "session \<Rightarrow> session \<Rightarrow> bool" where
  "same_identity s s' \<longleftrightarrow> ss_user s' = ss_user s \<and> ss_method s' = ss_method s \<and> ss_pending_user s' = ss_pending_user s"

lemma handle_identity:
  assumes "handle env rq r s w = (resp, s', w')"
    and "\<nexists>n p x. r = LoginForm n p x" "\<nexists>a b c. r = SecondFactor a b c" "r \<noteq> Logout" "\<nexists>a b. r = PkLoginComplete a b"
  shows "same_identity s s'"
  using assms
  by (cases r) (auto simp: same_identity_def account_defs Let_def split: if_splits option.splits sum.splits prod.splits bool.splits)

subsection \<open>Every way to a session\<close>

lemma authenticate_knows:
  "user_authenticate kdf fail now name pw us = (Inr True, us') \<Longrightarrow> knows_password kdf name pw us"
  by (auto simp: user_authenticate_def knows_password_def split: if_splits option.splits)

lemma authenticate_totp:
  assumes "user_authenticate kdf fail now name pw us = (res, us')"
  shows "totp_enabled name us' = totp_enabled name us"
proof (cases "dget (entries us) name")
  case None
  then show ?thesis using assms by (simp add: user_authenticate_def split: if_splits)
next
  case (Some u)
  have "us' = us \<or> put_user fail name (u\<lparr>us_last_login := Some (iso_seconds now)\<rparr>) us = (res, us')"
    using assms Some by (auto simp: user_authenticate_def split: if_splits)
  then show ?thesis
  proof
    assume "put_user fail name (u\<lparr>us_last_login := Some (iso_seconds now)\<rparr>) us = (res, us')"
    from put_userD [OF this] show ?thesis by (simp add: totp_enabled_def get_totp_secret_def Some)
  qed simp
qed

lemma login_accepted_ok:
  assumes "login_accepted rq name nxt meth mc s w = (resp, s', w')"
    and "meth = ''local'' \<Longrightarrow> PasswordOk name (totp_enabled name (w_users w)) \<in> set ev"
    and "meth \<noteq> ''local'' \<Longrightarrow> meth = ''radius'' \<and> RadiusOk name \<in> set ev"
  shows "session_ok s' ev"
proof (cases "meth = ''local'' \<and> totp_enabled name (w_users w)")
  case True
  then have "s' = empty_session\<lparr>ss_pending_user := Some name, ss_pending_must_change := mc\<rparr>"
    using assms(1) by (auto simp: login_accepted_def Let_def)
  then show ?thesis using True assms(2) by (auto simp: session_ok_def empty_session_def)
next
  case False
  then have "entitled name (Some meth) ev"
    using assms(2,3) by (cases "meth = ''local''") (auto simp: entitled_def)
  from session_ok_full [OF this] False show ?thesis
    using assms(1) by (auto simp: login_accepted_def Let_def split: if_splits)
qed

lemma login_post_ok:
  assumes "session_ok s ev" and "login_post env rq n p x s w = (resp, s', w')"
  shows "session_ok s' (ev @ shown_by env rq (LoginForm n p x) s w)"
proof -
  let ?ev = "ev @ shown_by env rq (LoginForm n p x) s w"
  let ?name = "strip n"
  have same: "session_ok s ?ev" by (rule session_ok_same [OF assms(1)]) simp_all
  obtain locked lmt where l: "is_locked (rq_mono rq) (client_ip rq) ?name (w_limiter w) = (locked, lmt)"
    by fastforce
  define auth where "auth = (if w_local_enabled w
    then user_authenticate (e_kdf env) (rq_fail rq) (rq_now rq) ?name p (w_users w) else (Inr False, w_users w))"
  obtain res us where a: "auth = (res, us)" by fastforce
  define w1 where "w1 = w\<lparr>w_limiter := lmt, w_users := us\<rparr>"
  show ?thesis
  proof (cases "locked \<or> ?name = [] \<or> p = [] \<or> (\<not> w_local_enabled w \<and> \<not> radius_configured (w_radius w))
      \<or> (\<exists>e. res = Inl e)")
    case True
    then have "s' = s \<or> (\<exists>c m. s' = flash c m s)"
      using assms(2) l a by (auto simp: login_post_def Let_def auth_def split: if_splits)
    then show ?thesis using same by auto
  next
    case False
    then obtain ok where r: "res = Inr ok" by (cases res) auto
    have step: "(if ok then login_accepted rq ?name (safe_next x) ''local'' (must_change_password ?name us) s w1
        else if radius_authenticate (e_pyrad env) (e_radius env) (w_radius w) ?name p
        then login_accepted rq ?name (safe_next x) ''radius'' False s w1
        else login_refused rq ?name (safe_next x) s w1) = (resp, s', w')"
      using assms(2) l a r False
      by (cases "w_local_enabled w") (simp_all add: login_post_def Let_def auth_def w1_def split: if_splits)
    show ?thesis
    proof (cases ok)
      case True
      then have au: "w_local_enabled w"
        "user_authenticate (e_kdf env) (rq_fail rq) (rq_now rq) ?name p (w_users w) = (Inr True, us)"
        using a r by (auto simp: auth_def split: if_splits)
      then have "PasswordOk ?name (totp_enabled ?name (w_users w1)) \<in> set ?ev"
        using authenticate_knows [OF au(2)] authenticate_totp [OF au(2)] by (simp add: w1_def)
      then show ?thesis using step True by (intro login_accepted_ok [of rq ?name "safe_next x" "''local''" _ s w1 resp s' w']) auto
    next
      case no: False
      show ?thesis
      proof (cases "radius_authenticate (e_pyrad env) (e_radius env) (w_radius w) ?name p")
        case True
        then have "RadiusOk ?name \<in> set ?ev" using radius_authenticateD [OF True] by simp
        then show ?thesis using step no True
          by (intro login_accepted_ok [of rq ?name "safe_next x" "''radius''" _ s w1 resp s' w']) auto
      next
        case False
        then show ?thesis using step no same by (auto simp: login_refused_def Let_def)
      qed
    qed
  qed
qed

lemma second_factor_shown:
  assumes "check_second_factor env rq name code recovery us = (Inr (Some m), us')"
  shows "has_factor env rq name code recovery us"
proof (cases "code = []")
  case False
  then show ?thesis using assms
    by (auto simp: check_second_factor_def has_factor_def present_def split: if_splits option.splits)
next
  case True
  then have r: "recovery \<noteq> []" using assms by (auto simp: check_second_factor_def)
  then have "consume_recovery_code (e_kdf env) (rq_fail rq) name recovery us = (Inr True, us')"
    using assms True by (auto simp: check_second_factor_def split: prod.splits sum.splits if_splits)
  from consume_success [OF this] show ?thesis
    by (auto simp: has_factor_def matching_hashes_def find_None_filter [symmetric])
qed

lemma login_2fa_post_ok:
  assumes "session_ok s ev" and "login_2fa_post env rq c r x s w = (resp, s', w')"
  shows "session_ok s' (ev @ shown_by env rq (SecondFactor c r x) s w)"
proof -
  let ?ev = "ev @ shown_by env rq (SecondFactor c r x) s w"
  have same: "session_ok s ?ev" by (rule session_ok_same [OF assms(1)]) simp_all
  show ?thesis
  proof (cases "\<exists>name. ss_pending_user s = Some name \<and> name \<noteq> []")
    case False
    then show ?thesis using assms(2) same by (auto simp: login_2fa_post_def split: option.splits)
  next
    case True
    then obtain name where p: "ss_pending_user s = Some name" "name \<noteq> []" by blast
    obtain res us where cf: "check_second_factor env rq name (strip c) (strip r) (w_users w) = (res, us)" by fastforce
    show ?thesis
    proof (cases "\<exists>m. res = Inr (Some m)")
      case False
      then have "s' = s \<or> s' = flash ''error'' ''Invalid 2FA code.'' s"
        using assms(2) p cf by (auto simp: login_2fa_post_def Let_def split: sum.splits option.splits)
      then show ?thesis using same by auto
    next
      case True
      then obtain m where m: "res = Inr (Some m)" by blast
      have f: "shown_by env rq (SecondFactor c r x) s w = [FactorOk name]"
        using second_factor_shown [of env rq name] cf m p by simp
      obtain y a e where ae: "ev = a @ PasswordOk name y # e"
        using assms(1) p by (meson session_ok_def split_list)
      have "entitled name (Some ''local'') ?ev"
        unfolding entitled_def
        by (intro disjI2 conjI refl exI [of _ a] exI [of _ e] exI [of _ "[]"] exI [of _ y])
          (simp add: ae f del: shown_by.simps)
      from session_ok_full [OF this] show ?thesis
        using assms(2) p cf m by (auto simp: login_2fa_post_def Let_def split: if_splits)
    qed
  qed
qed

lemma login_passkey_complete_ok:
  assumes "session_ok s ev" and "login_passkey_complete env rq cid a s w = (resp, s', w')"
  shows "session_ok s' (ev @ shown_by env rq (PkLoginComplete cid a) s w)"
proof -
  let ?ev = "ev @ shown_by env rq (PkLoginComplete cid a) s w"
  have same: "session_ok (s\<lparr>ss_auth_challenge := None, ss_auth_hint := []\<rparr>) ?ev"
    by (rule session_ok_same [OF assms(1)]) simp_all
  have "s' = s\<lparr>ss_auth_challenge := None, ss_auth_hint := []\<rparr>
    \<or> (\<exists>owner. find_user_by_credential_id cid (w_users w) = Some owner
         \<and> proves_passkey env rq owner cid a s w \<and> (\<exists>mc. s' = full_session owner ''local'' mc))"
    using assms(2)
    by (auto simp: login_passkey_complete_def Let_def proves_passkey_def
        split: option.split_asm if_split_asm sum.split_asm prod.split_asm)
  then show ?thesis
  proof (elim disjE exE conjE)
    fix owner mc
    assume o: "s' = full_session owner ''local'' mc" "find_user_by_credential_id cid (w_users w) = Some owner"
      "proves_passkey env rq owner cid a s w"
    then have "entitled owner (Some ''local'') ?ev" by (simp add: entitled_def)
    then show ?thesis using o(1) session_ok_full by simp
  qed (use same in simp)
qed

lemma serve_ok:
  assumes "session_ok s ev" and "serve env rq r s w = (resp, s', w')"
  shows "session_ok s' (ev @ shown_by env rq r s w)"
proof (cases "handle env rq r s w = (resp, s', w')")
  case False
  then have "s' = s" using assms(2) by (auto simp: serve_def split: option.splits prod.splits)
  then show ?thesis using session_ok_same [OF assms(1)] by simp
next
  case h: True
  show ?thesis
  proof (cases "(\<nexists>n p x. r = LoginForm n p x) \<and> (\<nexists>a b c. r = SecondFactor a b c) \<and> r \<noteq> Logout
      \<and> (\<nexists>a b. r = PkLoginComplete a b)")
    case True
    then have "same_identity s s'" using handle_identity [OF h] by blast
    then show ?thesis using session_ok_same [OF assms(1)] by (simp add: same_identity_def)
  next
    case False
    then show ?thesis
      using h assms(1) login_post_ok login_2fa_post_ok login_passkey_complete_ok by (auto simp: logout_def)
  qed
qed

text \<open>
  C13: In one browser's history, whatever other clients do to the users, tokens and settings between
  its requests, a session for a user was earned: over RADIUS by an Access-Accept for that user; as a
  local user by the right password while the user had no second factor, or by the right password
  followed later by a valid second factor, or by a passkey of that user.
\<close>

theorem session_needs_credentials:
  assumes "browses env s ev" and "ss_user s = Some u"
  shows "(ss_method s = Some ''radius'' \<and> RadiusOk u \<in> set ev)
    \<or> (ss_method s = Some ''local'' \<and>
        (PasswordOk u False \<in> set ev \<or> PasskeyOk u \<in> set ev
         \<or> (\<exists>a b c x. ev = a @ PasswordOk u x # b @ FactorOk u # c)))"
proof -
  have "session_ok s ev"
    using assms(1) by induction (use serve_ok in \<open>simp_all\<close>)
  then show ?thesis using assms(2) by (auto simp: session_ok_def entitled_def)
qed

subsection \<open>A concrete site\<close>

definition sample_env :: env where
  "sample_env = \<lparr>e_kdf = sample_kdf, e_pyotp = True, e_totp = (\<lambda>_ secret code. code = ''123456''),
     e_pyrad = False, e_radius = (\<lambda>_ _ _. None), e_assertion = (\<lambda>_ _ _ _. Inl []), e_attestation = (\<lambda>_ _ _. Inl [])\<rparr>"

definition sample_rq :: request where
  "sample_rq = \<lparr>rq_ip = Some ''10.0.0.9'', rq_host = ''nms'', rq_mono = 0, rq_now = sample_now,
     rq_fail = no_faults, rq_salts = (\<lambda>_. [])\<rparr>"

definition sample_web :: "user \<Rightarrow> web" where
  "sample_web u = \<lparr>w_users = \<lparr>entries = [(us_name u, u)], backing = empty_disk\<rparr>,
     w_tokens = open_tokens empty_disk, w_radius = default_radius [], w_local_enabled = True,
     w_limiter = login_limiter, w_audit = [], w_counters = initial_counters\<rparr>"

definition enrolled_user :: "string \<Rightarrow> user" where
  "enrolled_user h = (new_user sample_now ''admin'' h False)\<lparr>us_totp_secret := Some ''JBSWY3DP''\<rparr>"

lemma sample_web_simps [simp]:
  "entries (w_users (sample_web u)) = [(us_name u, u)]" "w_local_enabled (sample_web u)"
  "w_limiter (sample_web u) = login_limiter" "e_kdf sample_env = sample_kdf" "e_pyotp sample_env"
  "e_totp sample_env t k c = (c = ''123456'')" "rq_mono sample_rq = 0" "rq_now sample_rq = sample_now"
  "rq_fail sample_rq = no_faults"
  by (simp_all add: sample_web_def sample_env_def sample_rq_def)

lemma enrolled_simps [simp]:
  "us_name (enrolled_user h) = ''admin''" "us_hash (enrolled_user h) = h"
  "us_totp_secret (enrolled_user h) = Some ''JBSWY3DP''" "\<not> us_must_change (enrolled_user h)"
  by (simp_all add: enrolled_user_def new_user_def)

lemma strip_words [simp]: "strip ''admin'' = ''admin''" "strip ''123456'' = ''123456''" "strip [] = []"
  by (simp_all add: strip_def lstrip_def rstrip_def is_ws_def)

lemma session_needs_credentials_witness:
  "\<exists>s ev. browses sample_env s ev \<and> ss_user s = Some ''admin''
     \<and> (\<exists>a b c x. ev = a @ PasswordOk ''admin'' x # b @ FactorOk ''admin'' # c)"
proof -
  obtain h where h: "hash_secret sample_kdf password_dklen [] ''s3cret-pw'' = Inr h"
    using hash_secret_total [OF sample_kdf_total, of password_dklen] by (auto simp: password_dklen_def)
  have v: "verify_secret sample_kdf ''s3cret-pw'' h"
    using verify_hash [OF h sample_kdf_total] by (simp add: password_dklen_def)
  define w where "w = sample_web (enrolled_user h)"
  define r1 where "r1 = LoginForm ''admin'' ''s3cret-pw'' []"
  define r2 where "r2 = SecondFactor ''123456'' [] []"
  define s1 where "s1 = empty_session\<lparr>ss_pending_user := Some ''admin'', ss_pending_must_change := False\<rparr>"
  have "fst (snd (serve sample_env sample_rq r1 empty_session w)) = s1"
    by (simp add: serve_def guarded_def r1_def login_post_def Let_def is_locked_def login_limiter_def
        new_limiter_def prune_def w_def user_authenticate_def v put_user_def commit_no_faults login_accepted_def totp_enabled_def
        get_totp_secret_def must_change_password_def s1_def)
  then obtain p1 w1 where 1: "serve sample_env sample_rq r1 empty_session w = (p1, s1, w1)" by (metis prod.collapse)
  have "fst (snd (serve sample_env sample_rq r2 s1 w)) = full_session ''admin'' ''local'' False"
    by (simp add: serve_def guarded_def r2_def s1_def login_2fa_post_def Let_def check_second_factor_def
        present_def get_totp_secret_def w_def)
  then obtain p2 w2 where 2: "serve sample_env sample_rq r2 s1 w = (p2, full_session ''admin'' ''local'' False, w2)"
    by (metis prod.collapse)
  have b: "browses sample_env (full_session ''admin'' ''local'' False)
      (([] @ shown_by sample_env sample_rq r1 empty_session w) @ shown_by sample_env sample_rq r2 s1 w)"
    by (rule request [OF request [OF fresh 1] 2])
  have "knows_password sample_kdf ''admin'' ''s3cret-pw'' (w_users w)" by (simp add: w_def knows_password_def v)
  moreover have "totp_enabled ''admin'' (w_users w)" by (simp add: w_def totp_enabled_def get_totp_secret_def)
  ultimately have ev: "PasswordOk ''admin'' False \<notin> set (([] @ shown_by sample_env sample_rq r1 empty_session w) @ shown_by sample_env sample_rq r2 s1 w)"
    "PasskeyOk ''admin'' \<notin> set (([] @ shown_by sample_env sample_rq r1 empty_session w) @ shown_by sample_env sample_rq r2 s1 w)"
    by (simp_all add: r1_def r2_def w_def split: option.split)
  have u: "ss_user (full_session ''admin'' ''local'' False) = Some ''admin''"
    "ss_method (full_session ''admin'' ''local'' False) = Some ''local''"
    by (simp_all add: full_session_def)
  have "Some ''local'' \<noteq> Some ''radius''" by simp
  then show ?thesis using session_needs_credentials [OF b u(1)] b u ev by metis
qed

subsection \<open>The second factor is not throttled\<close>

definition guess :: "env \<Rightarrow> session \<times> web \<Rightarrow> request \<times> string \<Rightarrow> session \<times> web" where
  "guess env sw rc = snd (login_2fa_post env (fst rc) (snd rc) [] [] (fst sw) (snd sw))"

definition right_code :: "env \<Rightarrow> string \<Rightarrow> web \<Rightarrow> request \<times> string \<Rightarrow> bool" where
  "right_code env u w rc = (present (get_totp_secret u (w_users w))
     \<and> e_totp env (rq_now (fst rc)) (the (get_totp_secret u (w_users w))) (strip (snd rc)))"

lemma wrong_guess:
  assumes "ss_pending_user s = Some u" "u \<noteq> []" "strip (snd rc) \<noteq> []" "\<not> right_code env u w rc"
    and "guess env (s, w) rc = (s', w')"
  shows "ss_pending_user s' = Some u \<and> w_users w' = w_users w \<and> w_limiter w' = w_limiter w"
  using assms
  by (auto simp: guess_def right_code_def login_2fa_post_def Let_def check_second_factor_def audit_def count_def)

lemma wrong_guesses:
  "ss_pending_user s = Some u \<Longrightarrow> u \<noteq> [] \<Longrightarrow> \<forall>rc \<in> set rcs. strip (snd rc) \<noteq> [] \<and> \<not> right_code env u w rc \<Longrightarrow>
   foldl (guess env) (s, w) rcs = (s', w') \<Longrightarrow>
   ss_pending_user s' = Some u \<and> w_users w' = w_users w \<and> w_limiter w' = w_limiter w"
proof (induction rcs arbitrary: s w)
  case (Cons rc rcs)
  obtain s1 w1 where 1: "guess env (s, w) rc = (s1, w1)" by fastforce
  have k: "ss_pending_user s1 = Some u" "w_users w1 = w_users w" "w_limiter w1 = w_limiter w"
    using wrong_guess [OF Cons.prems(1,2) _ _ 1] Cons.prems(3) by auto
  have "\<forall>x \<in> set rcs. strip (snd x) \<noteq> [] \<and> \<not> right_code env u w1 x"
    using Cons.prems(3) k(2) by (simp add: right_code_def)
  from Cons.IH [OF k(1) Cons.prems(2) this] show ?case using Cons.prems(4) 1 k by simp
qed simp

text \<open>
  Guessing the second factor is never throttled: after any number of wrong codes, with the
  password step passed once, the limiter has recorded nothing and the right code still opens the
  session.
\<close>

theorem second_factor_never_throttled:
  assumes "ss_pending_user s = Some u" "u \<noteq> []" "e_pyotp env"
    and "\<forall>rc \<in> set wrong. strip (snd rc) \<noteq> [] \<and> \<not> right_code env u w rc"
    and "strip (snd rc) \<noteq> []" "right_code env u w rc"
    and "foldl (guess env) (s, w) (wrong @ [rc]) = (s', w')"
  shows "ss_user s' = Some u \<and> w_limiter w' = w_limiter w"
proof -
  obtain s1 w1 where 1: "foldl (guess env) (s, w) wrong = (s1, w1)" by fastforce
  note k = wrong_guesses [OF assms(1,2,4) 1]
  have "guess env (s1, w1) rc = (s', w')" using assms(7) 1 by simp
  then show ?thesis using k assms(2,3,5,6)
    by (auto simp: guess_def right_code_def login_2fa_post_def Let_def check_second_factor_def audit_def count_def
        full_session_def flash_def split: if_splits)
qed

lemma second_factor_never_throttled_witness:
  "\<exists>s w s' w'. foldl (guess sample_env) (s, w)
       (replicate 100000 (sample_rq, ''000000'') @ [(sample_rq, ''123456'')]) = (s', w')
     \<and> ss_user s' = Some ''admin'' \<and> w_limiter w' = login_limiter"
proof -
  define s where "s = empty_session\<lparr>ss_pending_user := Some ''admin''\<rparr>"
  define w where "w = sample_web (enrolled_user [])"
  have t: "get_totp_secret ''admin'' (w_users w) = Some ''JBSWY3DP''" by (simp add: w_def get_totp_secret_def)
  have z: "strip ''000000'' = ''000000''" by (simp add: strip_def lstrip_def rstrip_def is_ws_def)
  obtain s' w' where f: "foldl (guess sample_env) (s, w)
    (replicate 100000 (sample_rq, ''000000'') @ [(sample_rq, ''123456'')]) = (s', w')" by fastforce
  have "ss_user s' = Some ''admin'' \<and> w_limiter w' = w_limiter w"
    by (rule second_factor_never_throttled [OF _ _ _ _ _ _ f])
      (auto simp: s_def right_code_def t z present_def dest: in_set_replicate [THEN iffD1])
  then show ?thesis using f by (auto simp: w_def)
qed

subsection \<open>A forced password change cannot be put off\<close>

lemma change_knows:
  assumes "Local_Auth.change_password kdf fail salt u new us = (Inr True, us')" "kdf_total kdf"
  shows "knows_password kdf u new us' \<and> \<not> must_change_password u us'"
proof -
  obtain x h where h: "hash_secret kdf password_dklen salt new = Inr h"
    and c: "put_user fail u (x\<lparr>us_hash := h, us_must_change := False\<rparr>) us = (Inr True, us')"
    using change_password_success [OF assms(1)] by metis
  have "verify_secret kdf new h" using verify_hash [OF h assms(2)] by (simp add: password_dklen_def)
  then show ?thesis using put_userD [OF c] by (simp add: knows_password_def must_change_password_def)
qed

text \<open>The password form lifts the flag only after a real change.\<close>

lemma change_password_post_lifts:
  assumes "change_password_post env rq cur new conf s w = (resp, s', w')"
    and "ss_must_change s" "\<not> ss_must_change s'" "ss_user s = Some u" "kdf_total (e_kdf env)"
  shows "conf = new \<and> 8 \<le> length new \<and> new \<noteq> cur \<and> knows_password (e_kdf env) u cur (w_users w)
    \<and> knows_password (e_kdf env) u new (w_users w') \<and> \<not> must_change_password u (w_users w')"
proof -
  have n: "user_name s = u" using assms(4) by (simp add: user_name_def)
  obtain ra us where a0: "user_authenticate (e_kdf env) (rq_fail rq) (rq_now rq) u cur (w_users w) = (ra, us)"
    by fastforce
  obtain rc us' where c0: "Local_Auth.change_password (e_kdf env) (rq_fail rq) (rq_salts rq 0) u new us = (rc, us')"
    by fastforce
  have ra: "ra = Inr True"
  proof (rule ccontr)
    assume "ra \<noteq> Inr True"
    then have "(\<exists>e. ra = Inl e) \<or> ra = Inr False" by (cases ra) auto
    then have "ss_must_change s' = ss_must_change s"
      using assms(1) a0 n by (elim disjE exE) (simp_all add: change_password_post_def Let_def split: if_split_asm, auto)
    then show False using assms(2,3) by simp
  qed
  have f: "conf = new \<and> 8 \<le> length new \<and> new \<noteq> cur"
  proof (rule ccontr)
    assume "\<not> (conf = new \<and> 8 \<le> length new \<and> new \<noteq> cur)"
    then have "ss_must_change s' = ss_must_change s"
      using assms(1) a0 n ra by (simp add: change_password_post_def Let_def split: if_split_asm) auto
    then show False using assms(2,3) by simp
  qed
  have rc: "rc = Inr True"
  proof (rule ccontr)
    assume "rc \<noteq> Inr True"
    then have "(\<exists>e. rc = Inl e) \<or> rc = Inr False" by (cases rc) auto
    then have "ss_must_change s' = ss_must_change s"
      using assms(1) a0 c0 n ra f
      by (elim disjE exE) (simp_all add: change_password_post_def Let_def split: if_split_asm, auto)
    then show False using assms(2,3) by simp
  qed
  have w: "w_users w' = us'"
    using assms(1-3) a0 c0 n ra rc f
    by (simp add: change_password_post_def Let_def audit_def split: if_split_asm) auto
  note a = a0 [unfolded ra] and c = c0 [unfolded rc]
  show ?thesis using authenticate_knows [OF a] change_knows [OF c assms(5)] w f by simp
qed

text \<open>
  A session flagged for a password change can do nothing behind the login guard but change its
  password: every other account route answers with the password page and leaves the session and the
  server untouched.  The flag is lifted only when the current password was right and the new one is
  different, confirmed, at least eight characters long and, from then on, the stored password.
\<close>

theorem forced_change_is_forced:
  assumes "kdf_total (e_kdf env)" and "ss_must_change s" and "ss_user s = Some u" "u \<noteq> []"
    and "guarded r \<noteq> None" and "serve env rq r s w = (resp, s', w')"
  shows "((\<nexists>cur new conf. r = ChangePw cur new conf) \<longrightarrow>
        resp = Redirect ChangePasswordPage \<and> s' = s \<and> w' = w)
    \<and> (\<not> ss_must_change s' \<longrightarrow> (\<exists>cur new. r = ChangePw cur new new \<and> 8 \<le> length new \<and> new \<noteq> cur
        \<and> knows_password (e_kdf env) u cur (w_users w) \<and> knows_password (e_kdf env) u new (w_users w')
        \<and> \<not> must_change_password u (w_users w')))"
proof (cases "\<exists>cur new conf. r = ChangePw cur new conf")
  case True
  then obtain cur new conf where r: "r = ChangePw cur new conf" by blast
  have "change_password_post env rq cur new conf s w = (resp, s', w')"
    using assms(2-4,6) by (simp add: serve_def guarded_def r require_login_def present_def)
  from change_password_post_lifts [OF this assms(2) _ assms(3,1)] show ?thesis using r by auto
next
  case False
  have "resp = Redirect ChangePasswordPage \<and> s' = s \<and> w' = w"
    using False assms(2-6)
    by (cases r) (auto simp: serve_def guarded_def require_login_def present_def startswith_def)
  then show ?thesis using assms(2) by simp
qed

lemma forced_change_is_forced_witness:
  "fst (serve sample_env sample_rq (UserAdd ''eve'' ''longenough'')
     (full_session ''admin'' ''local'' True) (sample_web (enrolled_user [])))
   = Redirect ChangePasswordPage"
proof -
  let ?s = "full_session ''admin'' ''local'' True" and ?w = "sample_web (enrolled_user [])"
  obtain resp s' w' where s: "serve sample_env sample_rq (UserAdd ''eve'' ''longenough'') ?s ?w = (resp, s', w')"
    by (metis prod.collapse)
  have "ss_must_change ?s" "ss_user ?s = Some ''admin''" by (simp_all add: full_session_def)
  from forced_change_is_forced [OF _ this _ _ s] sample_kdf_total
  show ?thesis by (simp add: s guarded_def)
qed

subsection \<open>Tokens\<close>

text \<open>
  C14: A route open to API tokens runs without a session only for a bearer token that verifies
  against a stored token carrying the scope the route requires, or the wildcard; a session gets
  through only when no password change is due.
\<close>

theorem bearer_needs_scope:
  assumes "require_session_or_scope env rq path header required s w = ((None, tok), w')"
  shows "if present (ss_user s) then \<not> ss_must_change s \<and> tok = None \<and> w' = w
    else startswith header ''Bearer '' \<and>
      (\<exists>tid t. (tid, t) \<in> set (entries (w_tokens w)) \<and> verify_secret (e_kdf env) (strip (drop 7 header)) (tk_hash t)
        \<and> (''*'' \<in> set (tk_scopes t) \<or> required \<in> set (tk_scopes t))
        \<and> tok = Some \<lparr>tr_id = tid, tr_name = tk_name t, tr_scopes = tk_scopes t\<rparr>)"
proof (cases "present (ss_user s)")
  case True
  then show ?thesis using assms by (auto simp: require_session_or_scope_def split: if_splits)
next
  case False
  obtain res ts where a: "token_authenticate (e_kdf env) (rq_fail rq) (rq_now rq) (strip (drop 7 header)) (w_tokens w) = (res, ts)"
    by fastforce
  have "startswith header ''Bearer ''" "\<exists>r. res = Inr (Some r) \<and> has_scope r required \<and> tok = Some r"
    using assms False a
    by (auto simp: require_session_or_scope_def split: if_split_asm sum.split_asm option.split_asm)
  then obtain r where r: "res = Inr (Some r)" "has_scope r required" "tok = Some r" and h: "startswith header ''Bearer ''"
    by blast
  have "fst (token_authenticate (e_kdf env) (rq_fail rq) (rq_now rq) (strip (drop 7 header)) (w_tokens w)) = Inr (Some r)"
    using a r by simp
  from authenticated_present [OF this] obtain t where
    "(tr_id r, t) \<in> set (entries (w_tokens w))" "verify_secret (e_kdf env) (strip (drop 7 header)) (tk_hash t)"
    "tr_name r = tk_name t" "tr_scopes r = tk_scopes t" by blast
  then show ?thesis using False h r
    by (simp add: has_scope_def) (rule exI [of _ "tr_id r"], rule exI [of _ t], simp)
qed

lemma bearer_needs_scope_witness:
  "\<exists>w w' tok. require_session_or_scope sample_env sample_rq ''/api/state'' ''Bearer aat_x'' ''state.read'' empty_session w
       = ((None, Some tok), w') \<and> tr_id tok = ''tok_1'' \<and> (tr_id tok \<in> set (dkeys (entries (w_tokens w))))"
proof -
  obtain h where h: "hash_secret sample_kdf token_dklen [] ''aat_x'' = Inr h"
    using hash_secret_total [OF sample_kdf_total, of token_dklen] by (auto simp: token_dklen_def)
  have v: "verify_secret sample_kdf ''aat_x'' h"
    using verify_hash [OF h sample_kdf_total] by (simp add: token_dklen_def)
  define t where "t = \<lparr>tk_id = ''tok_1'', tk_name = ''scraper'', tk_scopes = [''state.read''], tk_hash = h,
    tk_created = [], tk_created_by = [], tk_last_used = None\<rparr>"
  define w where "w = (sample_web (enrolled_user []))\<lparr>w_tokens := \<lparr>entries = [(''tok_1'', t)], backing = empty_disk\<rparr>\<rparr>"
  have p: "\<not> present (ss_user empty_session)" by (simp add: present_def empty_session_def)
  have st: "strip (drop 7 ''Bearer aat_x'') = ''aat_x''"
    by (simp add: strip_def lstrip_def rstrip_def is_ws_def)
  define x where "x = require_session_or_scope sample_env sample_rq ''/api/state'' ''Bearer aat_x'' ''state.read'' empty_session w"
  have "fst x = (None, Some \<lparr>tr_id = ''tok_1'', tr_name = ''scraper'', tr_scopes = [''state.read'']\<rparr>)"
    unfolding x_def require_session_or_scope_def st
    by (simp add: p startswith_def token_authenticate_def token_prefix_def w_def t_def v commit_no_faults has_scope_def)
  then have x: "require_session_or_scope sample_env sample_rq ''/api/state'' ''Bearer aat_x'' ''state.read'' empty_session w
      = ((None, Some \<lparr>tr_id = ''tok_1'', tr_name = ''scraper'', tr_scopes = [''state.read'']\<rparr>), snd x)"
    unfolding x_def by (metis prod.collapse)
  from bearer_needs_scope [OF x] p have "''tok_1'' \<in> set (dkeys (entries (w_tokens w)))" by force
  then show ?thesis using x by force
qed

end
