(* ===== verification/Traps_Proofs.thy ===== *)
theory Traps_Proofs
  imports Traps
begin

text \<open>
  The receiver against a reference that keeps the whole history of alerts: pruning the table of
  recent alerts is never visible in what is mailed.
\<close>

subsection \<open>Arrivals and the reference\<close>

record arrival =
  ar_switches :: "(string, switch_state) dict"
  ar_now :: rat
  ar_ts :: datetime
  ar_saved :: bool
  ar_source :: string
  ar_oid :: string
  ar_varbinds :: varbinds
  ar_hint :: string

definition receive :: "arrival \<Rightarrow> trap_world \<Rightarrow> trap_world" where
  "receive a w = snd (handle_trap (ar_switches a) (ar_now a) (ar_ts a) (ar_saved a) (ar_source a) (ar_oid a)
     (ar_varbinds a) (ar_hint a) w)"

definition ar_trap :: "arrival \<Rightarrow> trap" where
  "ar_trap a = classify_trap (ar_oid a) (ar_varbinds a) (ar_hint a)"

definition ar_switch :: "arrival \<Rightarrow> string" where
  "ar_switch a = host_to_switch (ar_switches a) (ar_source a)"

definition ar_key :: "arrival \<Rightarrow> string \<times> string" where
  "ar_key a = (ar_switch a, tp_name (ar_trap a))"

definition ar_doc :: "arrival \<Rightarrow> trap_doc" where
  "ar_doc a = \<lparr>td_ts = ar_ts a, td_source = ar_source a, td_switch = ar_switch a, td_trap = ar_trap a,
     td_varbinds = ar_varbinds a, td_message = summarize (ar_trap a) (ar_switch a) (ar_varbinds a)\<rparr>"

definition ar_mail :: "arrival \<Rightarrow> string \<times> string" where
  "ar_mail a = (trap_subject (ar_trap a) (ar_switch a), summarize (ar_trap a) (ar_switch a) (ar_varbinds a))"

text \<open>The reference: mail unless the last mail for the same switch and trap is too recent.\<close>

definition due :: "int \<Rightarrow> rat \<Rightarrow> rat option \<Rightarrow> bool" where
  "due dedup now last_mail = (case last_mail of None \<Rightarrow> True | Some t \<Rightarrow> of_int dedup \<le> now - t)"

fun alerts_of :: "string \<Rightarrow> int \<Rightarrow> (string \<times> string \<Rightarrow> rat option) \<Rightarrow> arrival list \<Rightarrow> arrival list" where
  "alerts_of policy dedup h [] = []"
| "alerts_of policy dedup h (a # as) =
     (if should_alert (ar_trap a) policy \<and> due dedup (ar_now a) (h (ar_key a))
      then a # alerts_of policy dedup (h(ar_key a := Some (ar_now a))) as
      else alerts_of policy dedup h as)"

subsection \<open>Pruning is invisible\<close>

fun key_ok :: "rat \<Rightarrow> int \<Rightarrow> rat option \<Rightarrow> rat option \<Rightarrow> bool" where
  "key_ok now dedup entry None = (entry = None)"
| "key_ok now dedup entry (Some t) = (entry = Some t \<or> entry = None \<and> t \<le> now - of_int dedup)"

definition table_ok :: "rat \<Rightarrow> int \<Rightarrow> recent_alerts \<Rightarrow> (string \<times> string \<Rightarrow> rat option) \<Rightarrow> bool" where
  "table_ok now dedup recent h \<longleftrightarrow> distinct (dkeys recent) \<and> (\<forall>k. key_ok now dedup (dget recent k) (h k))"

lemma key_ok_later: "key_ok now d e l \<Longrightarrow> now \<le> now' \<Longrightarrow> key_ok now' d e l"
  by (cases l) auto

lemma table_ok_later: "table_ok now d r h \<Longrightarrow> now \<le> now' \<Longrightarrow> table_ok now' d r h"
  unfolding table_ok_def using key_ok_later by blast

lemma dget_filter:
  "distinct (dkeys r) \<Longrightarrow> dget (filter (\<lambda>(k, v). P v) r) k = (case dget r k of None \<Rightarrow> None | Some v \<Rightarrow> if P v then Some v else None)"
  by (induction r) (auto split: option.splits simp: map_of_eq_None_iff)

lemma distinct_filter_keys: "distinct (dkeys r) \<Longrightarrow> distinct (dkeys (filter P r))"
  by (induction r) auto

lemma rate_ok_spec:
  assumes "table_ok now d r h" "of_int d \<le> now" "rate_ok now k d r = (ok, r')"
  shows "ok = due d now (h k)" "table_ok now d r' (if ok then h(k := Some now) else h)"
proof -
  have dist: "distinct (dkeys r)" using assms(1) by (simp add: table_ok_def)
  have keys: "key_ok now d (dget r q) (h q)" for q using assms(1) unfolding table_ok_def by blast
  note k = keys [of k]
  show ok: "ok = due d now (h k)"
    using assms(2,3) k by (cases "h k") (auto simp: rate_ok_def due_def Let_def split: if_splits)
  let ?r = "dset k now r"
  have d2: "distinct (dkeys ?r)" using dist by (simp add: distinct_update)
  have kd: "key_ok now d (dget ?r q) ((h(k := Some now)) q)" for q
    using keys [of q] by (cases "q = k") simp_all
  then have t: "table_ok now d ?r (h(k := Some now))" unfolding table_ok_def using d2 by blast
  have "key_ok now d (case dget ?r q of None \<Rightarrow> None | Some v \<Rightarrow> if now - of_int d \<le> v then Some v else None)
      ((h(k := Some now)) q)" for q
    using keys [of q] by (cases "q = k"; cases "h q") (auto split: option.splits)
  then have "table_ok now d (filter (\<lambda>(k, v). now - of_int d \<le> v) ?r) (h(k := Some now))"
    unfolding table_ok_def dget_filter [OF d2] using distinct_filter_keys [OF d2] by blast
  then show "table_ok now d r' (if ok then h(k := Some now) else h)"
    using assms(1,3) t by (auto simp: rate_ok_def Let_def split: if_splits option.splits)
qed

lemma receive_spec:
  assumes "table_ok (ar_now a) (rv_dedup (tw_receiver w)) (rv_recent (tw_receiver w)) h"
    and "of_int (rv_dedup (tw_receiver w)) \<le> ar_now a"
  defines "send \<equiv> should_alert (ar_trap a) (rv_policy (tw_receiver w)) \<and> due (rv_dedup (tw_receiver w)) (ar_now a) (h (ar_key a))"
  shows "tw_stored (receive a w) = tw_stored w @ (if ar_saved a then [ar_doc a] else [])"
    "tw_notifier (receive a w) = (if send then case_prod notifier_send (ar_mail a) (tw_notifier w) else tw_notifier w)"
    "rv_policy (tw_receiver (receive a w)) = rv_policy (tw_receiver w)"
    "rv_dedup (tw_receiver (receive a w)) = rv_dedup (tw_receiver w)"
    "table_ok (ar_now a) (rv_dedup (tw_receiver w)) (rv_recent (tw_receiver (receive a w)))
       (if send then h(ar_key a := Some (ar_now a)) else h)"
proof -
  obtain ok r' where r: "rate_ok (ar_now a) (ar_key a) (rv_dedup (tw_receiver w)) (rv_recent (tw_receiver w)) = (ok, r')"
    by fastforce
  have R: "rate_ok (ar_now a) (ar_switch a, tp_name (ar_trap a)) (rv_dedup (tw_receiver w)) (rv_recent (tw_receiver w)) = (ok, r')"
    using r by (simp add: ar_key_def)
  note spec = rate_ok_spec [OF assms(1,2) r]
  have h: "receive a w = (let w1 = (if ar_saved a then w\<lparr>tw_stored := tw_stored w @ [ar_doc a]\<rparr> else w) in
      if \<not> should_alert (ar_trap a) (rv_policy (tw_receiver w)) then w1
      else w1\<lparr>tw_receiver := (tw_receiver w)\<lparr>rv_recent := r'\<rparr>,
        tw_notifier := (if ok then case_prod notifier_send (ar_mail a) (tw_notifier w) else tw_notifier w)\<rparr>)"
    unfolding receive_def handle_trap_def Let_def ar_trap_def [symmetric] ar_switch_def [symmetric] R
    by (simp add: ar_doc_def ar_mail_def)
  show "tw_stored (receive a w) = tw_stored w @ (if ar_saved a then [ar_doc a] else [])"
    "tw_notifier (receive a w) = (if send then case_prod notifier_send (ar_mail a) (tw_notifier w) else tw_notifier w)"
    "rv_policy (tw_receiver (receive a w)) = rv_policy (tw_receiver w)"
    "rv_dedup (tw_receiver (receive a w)) = rv_dedup (tw_receiver w)"
    unfolding h by (auto simp: Let_def send_def spec(1))
  show "table_ok (ar_now a) (rv_dedup (tw_receiver w)) (rv_recent (tw_receiver (receive a w)))
       (if send then h(ar_key a := Some (ar_now a)) else h)"
    unfolding h using spec(2) assms(1) by (auto simp: Let_def send_def spec(1))
qed

lemma receives_spec:
  assumes "table_ok now (rv_dedup (tw_receiver w)) (rv_recent (tw_receiver w)) h"
    and "of_int (rv_dedup (tw_receiver w)) \<le> now" "sorted (now # map ar_now as)"
  shows "tw_stored (fold receive as w) = tw_stored w @ map ar_doc (filter ar_saved as)
    \<and> tw_notifier (fold receive as w)
      = fold (\<lambda>(s, b). notifier_send s b) (map ar_mail (alerts_of (rv_policy (tw_receiver w)) (rv_dedup (tw_receiver w)) h as)) (tw_notifier w)"
  using assms
proof (induction as arbitrary: w h now)
  case (Cons a as)
  have n: "now \<le> ar_now a" "of_int (rv_dedup (tw_receiver w)) \<le> ar_now a" using Cons.prems(2,3) by auto
  note s = receive_spec [OF table_ok_later [OF Cons.prems(1) n(1)] n(2)]
  have "sorted (ar_now a # map ar_now as)" using Cons.prems(3) by simp
  from Cons.IH [OF _ _ this, of "receive a w"] s n show ?case by (auto simp: case_prod_unfold)
qed simp

text \<open>
  C15: Over any sequence of traps, with a clock that does not run backwards, every trap the store
  accepts is stored, in order; and with a working mail server the mails are those of the reference
  that remembers every alert: a trap the policy wants mailed is mailed unless one for the same
  switch and trap went out less than the window ago.  Pruning the table is never visible.
\<close>

theorem trap_alerts_match_reference:
  assumes "rv_recent (tw_receiver w) = []" and "notifier_works (tw_notifier w)"
    and "sorted (map ar_now as)" and "\<forall>a \<in> set as. of_int (rv_dedup (tw_receiver w)) \<le> ar_now a"
  shows "tw_stored (fold receive as w) = tw_stored w @ map ar_doc (filter ar_saved as)
    \<and> outbox_texts (tw_notifier (fold receive as w)) = outbox_texts (tw_notifier w)
        @ map ar_mail (alerts_of (rv_policy (tw_receiver w)) (rv_dedup (tw_receiver w)) (\<lambda>_. None) as)"
proof (cases as)
  case (Cons a as')
  have "table_ok (ar_now a) (rv_dedup (tw_receiver w)) (rv_recent (tw_receiver w)) (\<lambda>_. None)"
    by (simp add: table_ok_def assms(1))
  moreover have "of_int (rv_dedup (tw_receiver w)) \<le> ar_now a" "sorted (ar_now a # map ar_now as)"
    using assms(3,4) Cons by auto
  ultimately show ?thesis using receives_spec [of "ar_now a" w "\<lambda>_. None" as] smtp.sends assms(2) by simp
qed simp

definition sample_receiver :: receiver where
  "sample_receiver = \<lparr>rv_enabled = True, rv_bind = ''0.0.0.0'', rv_port = 162, rv_communities = [''public''],
     rv_policy = ''critical'', rv_dedup = 300, rv_v3_profiles = [], rv_recent = [], rv_v3_users = [], rv_learned = []\<rparr>"

definition sample_arrival :: "rat \<Rightarrow> string \<Rightarrow> arrival" where
  "sample_arrival now oid = \<lparr>ar_switches = [], ar_now = now, ar_ts = sample_now, ar_saved = True,
     ar_source = ''10.0.0.1'', ar_oid = oid, ar_varbinds = [], ar_hint = []\<rparr>"

definition sample_arrivals :: "arrival list" where
  "sample_arrivals = [sample_arrival 1000 ''1.3.6.1.6.3.1.1.5.1'', sample_arrival 1100 ''1.3.6.1.6.3.1.1.5.1'',
     sample_arrival 1200 ''1.3.6.1.6.3.1.1.5.5'', sample_arrival 1400 ''1.3.6.1.6.3.1.1.5.1'']"

definition sample_traps :: trap_world where
  "sample_traps = \<lparr>tw_receiver = sample_receiver, tw_stored = [], tw_notifier = sample_notifier\<rparr>"

lemma sample_alerts:
  "map ar_now (alerts_of ''critical'' 300 (\<lambda>_. None) sample_arrivals) = [1000, 1200, 1400]"
  by code_simp

theorem trap_alerts_match_reference_witness:
  "length (outbox_texts (tw_notifier (fold receive sample_arrivals sample_traps))) = 3
   \<and> length (tw_stored (fold receive sample_arrivals sample_traps)) = 4"
proof -
  have "rv_recent (tw_receiver sample_traps) = []" "notifier_works (tw_notifier sample_traps)"
    "sorted (map ar_now sample_arrivals)"
    "\<forall>a \<in> set sample_arrivals. of_int (rv_dedup (tw_receiver sample_traps)) \<le> ar_now a"
    by (simp_all add: sample_traps_def sample_receiver_def sample_arrivals_def sample_arrival_def
        sample_notifier_def notifier_works_def)
  note f = trap_alerts_match_reference [OF this]
  have "length (alerts_of ''critical'' 300 (\<lambda>_. None) sample_arrivals) = 3"
    using arg_cong [OF sample_alerts, of length] by simp
  then show ?thesis using f
    by (simp add: sample_traps_def sample_receiver_def outbox_texts_def sample_notifier_def)
      (simp add: sample_arrivals_def sample_arrival_def)
qed

end
