(* ===== verification/Config_Push.thy ===== *)
theory Config_Push
  imports Atomic_File Cli_Drivers
begin

text \<open>
  Configuration changes in batches: the store of command templates,
  \<open>aruba_agent/config_templates.py\<close>, and the push of commands to the switches of one vendor,
  \<open>aruba_agent/tasks/config_push.py\<close>.

  Templates are records of the fields \<open>save_template\<close> writes.  What netmiko and a device answer is an
  argument of the push; the calls made on a device are recorded as its trace.  The order in which the pool
  gets its devices done is an argument too.
\<close>

subsection \<open>Templates\<close>

record template =
  tp_name :: string
  tp_vendor :: string
  tp_description :: string
  tp_commands :: string
  tp_added_by :: string
  tp_created :: string
  tp_updated :: string

definition valid_vendors :: "string list" where
  "valid_vendors = [''aruba_cx'', ''cisco_ios'', ''arista_eos'']"

definition accept_template :: "template \<Rightarrow> (string \<times> template) option" where
  "accept_template t = (if tp_name t = [] \<or> tp_vendor t \<notin> set valid_vendors then None else Some (tp_name t, t))"

definition open_templates :: "template list disk \<Rightarrow> template registry" where
  "open_templates d = registry_open accept_template d"

definition list_templates :: "template registry \<Rightarrow> template list" where
  "list_templates reg = sort_key (\<lambda>t. [tp_vendor t, tp_name t]) (dvals (entries reg))"

definition get_template :: "string \<Rightarrow> template registry \<Rightarrow> template option" where
  "get_template name reg = dget (entries reg) name"

definition save_template ::
    "faults \<Rightarrow> datetime \<Rightarrow> string \<Rightarrow> string \<Rightarrow> string \<Rightarrow> string \<Rightarrow> string \<Rightarrow> template registry \<Rightarrow> bool result \<times> template registry" where
  "save_template fail now name0 vendor0 commands description added_by reg =
     (let name = strip name0; vendor = strip vendor0 in
      if name = [] \<or> vendor \<notin> set valid_vendors \<or> strip commands = [] then (Inr False, reg)
      else let old = dget (entries reg) name in commit fail reg (dset name
        \<lparr>tp_name = name, tp_vendor = vendor, tp_description = strip description, tp_commands = commands,
         tp_added_by = or_else added_by (case old of None \<Rightarrow> [] | Some t \<Rightarrow> tp_added_by t),
         tp_created = or_else (case old of None \<Rightarrow> [] | Some t \<Rightarrow> tp_created t) (iso_seconds now),
         tp_updated = iso_seconds now\<rparr> (entries reg)) True)"

definition remove_template :: "faults \<Rightarrow> string \<Rightarrow> template registry \<Rightarrow> bool result \<times> template registry" where
  "remove_template fail name reg = (if \<not> has_key (entries reg) name then (Inr False, reg)
     else commit fail reg (ddel name (entries reg)) True)"

definition template_ok :: "string \<Rightarrow> template \<Rightarrow> bool" where
  "template_ok k t = (tp_name t = k \<and> k \<noteq> [] \<and> tp_vendor t \<in> set valid_vendors)"

interpretation templates: json_registry accept_template template_ok
  by unfold_locales (auto simp: accept_template_def template_ok_def split: if_splits)

datatype template_op = Save_Template datetime string string string string string | Remove_Template string

fun template_step :: "template registry \<Rightarrow> faults \<times> template_op \<Rightarrow> bool result \<times> template registry" where
  "template_step reg (fail, Save_Template now n v c d b) = save_template fail now n v c d b reg"
| "template_step reg (fail, Remove_Template n) = remove_template fail n reg"

lemma template_step_orderly:
  "dict_ok template_ok (entries reg) \<Longrightarrow> orderly template_ok reg (template_step reg e)"
  by (cases "(reg, e)" rule: template_step.cases)
    (auto simp: save_template_def remove_template_def Let_def template_ok_def
      intro!: orderly_commit dict_ok_dset dict_ok_ddel)

interpretation template_machine: machine "\<lambda>reg e. snd (template_step reg e)" "\<lambda>reg. dict_ok template_ok (entries reg)" "\<lambda>_. True"
  by unfold_locales (rule orderly_inv [OF template_step_orderly])

lemma templates_reachable:
  "dict_ok template_ok (entries (foldl (\<lambda>reg e. snd (template_step reg e)) (open_templates d) es))"
  by (rule template_machine.run_inv) (simp_all add: open_templates_def templates.open_ok list_all_iff)

lemma save_template_kept:
  assumes "dict_ok template_ok (entries reg)" "save_template fail now name vendor commands desc by_user reg = (Inr True, reg')"
  shows "open_templates (backing reg') = reg' \<and> map_option tp_commands (get_template (strip name) reg') = Some commands"
proof -
  have ok: "dict_ok template_ok (entries reg')"
    using template_machine.step_inv [OF assms(1), of "(fail, Save_Template now name vendor commands desc by_user)"] assms(2) by simp
  have "synced reg'" "map_option tp_commands (dget (entries reg') (strip name)) = Some commands"
    using assms(2) by (auto simp: save_template_def Let_def dest!: commitD split: if_splits)
  then show ?thesis using templates.restart [OF _ ok] by (simp add: open_templates_def registry_open_def get_template_def)
qed

subsection \<open>The push to one device\<close>

definition netmiko_type :: "string \<Rightarrow> string option" where
  "netmiko_type vendor = map_of [(''aruba_cx'', ''aruba_aoscx''), (''aruba_os'', ''hp_procurve''),
     (''cisco_ios'', ''cisco_ios''), (''arista_eos'', ''arista_eos'')] vendor"

definition parse_commands :: "string \<Rightarrow> string list" where
  "parse_commands text = filter (\<lambda>l. strip l \<noteq> []) (map rstrip (splitlines text))"

record push_target =
  pt_name :: "string option"
  pt_host :: "string option"

record push_creds =
  pc_username :: string
  pc_password :: string
  pc_secret :: string

record push_params =
  pp_device_type :: string
  pp_host :: "string option"
  pp_username :: string
  pp_password :: string
  pp_timeout :: nat
  pp_secret :: "string option"

text \<open>A step of the conversation ends with an exception or with its output.\<close>

record push_side =
  ps_connect :: "push_params \<Rightarrow> raised option"
  ps_enable :: "raised option"
  ps_config :: "string list \<Rightarrow> nat \<Rightarrow> raised + string"
  ps_save :: "raised + string"
  ps_timing :: "string \<Rightarrow> raised + string"
  ps_elapsed :: rat

datatype push_call = Connect push_params | Enable | Send_Config "string list" | Save_Config | Send_Timing string | Disconnect

record push_result =
  pr_name :: "string option"
  pr_host :: "string option"
  pr_ok :: bool
  pr_output :: string
  pr_error :: string
  pr_duration :: rat

definition shown_name :: "push_target \<Rightarrow> string option" where
  "shown_name t = (case pt_name t of Some n \<Rightarrow> if n = [] then pt_host t else Some n | None \<Rightarrow> pt_host t)"

definition save_fallback :: "string \<Rightarrow> string" where
  "save_fallback vendor = (if vendor \<in> {''aruba_cx'', ''aruba_os''} then ''write memory'' else ''copy running-config startup-config'')"

definition push_save :: "push_side \<Rightarrow> string \<Rightarrow> (raised + string) \<times> push_call list" where
  "push_save side vendor = (case ps_save side of
       Inr out \<Rightarrow> (Inr out, [Save_Config])
     | Inl _ \<Rightarrow> (case ps_timing side (save_fallback vendor) of
         Inr out \<Rightarrow> (Inr out, [Save_Config, Send_Timing (save_fallback vendor)])
       | Inl e \<Rightarrow> (Inl (''RuntimeError'', ''save-to-startup failed: '' @ snd e), [Save_Config, Send_Timing (save_fallback vendor)])))"

definition push_session ::
    "push_side \<Rightarrow> string \<Rightarrow> string list \<Rightarrow> bool \<Rightarrow> bool \<Rightarrow> nat \<Rightarrow> (raised + string) \<times> push_call list" where
  "push_session side vendor commands secret sav read_timeout =
     (let en = (if secret \<and> vendor = ''cisco_ios'' then [Enable] else []) in
      if en \<noteq> [] \<and> ps_enable side \<noteq> None then (Inl (the (ps_enable side)), en)
      else case ps_config side commands read_timeout of
        Inl e \<Rightarrow> (Inl e, en @ [Send_Config commands])
      | Inr out \<Rightarrow> if \<not> sav then (Inr out, en @ [Send_Config commands])
          else (case push_save side vendor of (r, calls) \<Rightarrow>
            (map_sum id (\<lambda>s. out @ newline @ s) r, en @ [Send_Config commands] @ calls)))"

definition push_one ::
    "push_side \<Rightarrow> push_target \<Rightarrow> string \<Rightarrow> string \<Rightarrow> string list \<Rightarrow> push_creds \<Rightarrow> bool \<Rightarrow> nat \<Rightarrow> nat \<Rightarrow> push_result \<times> push_call list" where
  "push_one side t device_type vendor commands creds sav conn_timeout read_timeout =
     (let params = \<lparr>pp_device_type = device_type, pp_host = pt_host t, pp_username = pc_username creds, pp_password = pc_password creds,
            pp_timeout = conn_timeout, pp_secret = nonempty (pc_secret creds)\<rparr>;
          outcome = (case ps_connect side params of
             Some e \<Rightarrow> (Inl e, [Connect params])
           | None \<Rightarrow> (case push_session side vendor commands (pc_secret creds \<noteq> []) sav read_timeout of
               (r, calls) \<Rightarrow> (r, Connect params # calls @ [Disconnect])))
      in (\<lparr>pr_name = shown_name t, pr_host = pt_host t, pr_ok = (case fst outcome of Inl _ \<Rightarrow> False | Inr _ \<Rightarrow> True),
           pr_output = (case fst outcome of Inl _ \<Rightarrow> [] | Inr out \<Rightarrow> out),
           pr_error = (case fst outcome of Inl e \<Rightarrow> exc_text e | Inr _ \<Rightarrow> []),
           pr_duration = round_digits (ps_elapsed side) 1\<rparr>, snd outcome))"

subsection \<open>The batch\<close>

definition refused :: "string \<Rightarrow> push_target \<Rightarrow> push_result \<times> push_call list" where
  "refused why t = (\<lparr>pr_name = shown_name t, pr_host = pt_host t, pr_ok = False, pr_output = [], pr_error = why, pr_duration = 0\<rparr>, [])"

text \<open>\<open>order\<close> is the order of \<open>as_completed\<close>, as positions in the list of targets.\<close>

definition push_to_switches ::
    "string option \<Rightarrow> (nat \<Rightarrow> push_side) \<Rightarrow> nat list \<Rightarrow> push_target list \<Rightarrow> string \<Rightarrow> string \<Rightarrow> push_creds \<Rightarrow> bool \<Rightarrow> nat \<Rightarrow> nat
      \<Rightarrow> (push_result \<times> push_call list) list" where
  "push_to_switches no_netmiko side order targets vendor commands creds sav conn_timeout read_timeout =
     (case netmiko_type vendor of
        None \<Rightarrow> map (refused (''unsupported vendor: '' @ vendor)) targets
      | Some device_type \<Rightarrow>
          let cmds = parse_commands commands in
          if cmds = [] then map (refused ''no commands to send'') targets
          else case no_netmiko of
            Some e \<Rightarrow> map (refused (''netmiko unavailable: '' @ e)) targets
          | None \<Rightarrow> map (\<lambda>i. push_one (side i) (targets ! i) device_type vendor cmds creds sav conn_timeout read_timeout) order)"

subsection \<open>What a push reports\<close>

text \<open>
  The calls a push may make inside a connection: the privileged mode for Cisco with an enable secret,
  the commands in one go, and, when asked, the saving, with the vendor's command after a saving that
  raised.
\<close>

definition enabling :: "string \<Rightarrow> push_creds \<Rightarrow> push_call list" where
  "enabling vendor creds = (if vendor = ''cisco_ios'' \<and> pc_secret creds \<noteq> [] then [Enable] else [])"

definition saving :: "push_side \<Rightarrow> string \<Rightarrow> bool \<Rightarrow> push_call list" where
  "saving side vendor sav = (if \<not> sav then [] else Save_Config # (case ps_save side of Inr _ \<Rightarrow> []
     | Inl _ \<Rightarrow> [Send_Timing (if vendor = ''aruba_cx'' \<or> vendor = ''aruba_os'' then ''write memory'' else ''copy running-config startup-config'')]))"

text \<open>Every step that the push of one device takes returns.\<close>

definition all_steps_return :: "push_side \<Rightarrow> push_params \<Rightarrow> string \<Rightarrow> string list \<Rightarrow> push_creds \<Rightarrow> bool \<Rightarrow> nat \<Rightarrow> bool" where
  "all_steps_return side p vendor commands creds sav rt = (ps_connect side p = None \<and> (enabling vendor creds \<noteq> [] \<longrightarrow> ps_enable side = None) \<and>
     (\<exists>out. ps_config side commands rt = Inr out) \<and>
     (sav \<longrightarrow> (\<exists>out. ps_save side = Inr out) \<or> (\<exists>cmd out. Send_Timing cmd \<in> set (saving side vendor sav) \<and> ps_timing side cmd = Inr out)))"

text \<open>What a result and the trace of its device say together.\<close>

definition push_faithful ::
    "push_side \<Rightarrow> string \<Rightarrow> string \<Rightarrow> string list \<Rightarrow> push_creds \<Rightarrow> bool \<Rightarrow> nat \<Rightarrow> nat \<Rightarrow> push_target \<Rightarrow> push_result \<times> push_call list \<Rightarrow> bool" where
  "push_faithful side device_type vendor commands creds sav ct rt t x = (case x of (r, calls) \<Rightarrow>
     let p = \<lparr>pp_device_type = device_type, pp_host = pt_host t, pp_username = pc_username creds, pp_password = pc_password creds,
           pp_timeout = ct, pp_secret = nonempty (pc_secret creds)\<rparr>;
         whole = enabling vendor creds @ Send_Config commands # saving side vendor sav in
     pr_host r = pt_host t \<and> pr_name r = shown_name t \<and>
     (pr_ok r \<longleftrightarrow> all_steps_return side p vendor commands creds sav rt) \<and>
     (if ps_connect side p \<noteq> None then calls = [Connect p]
      else \<exists>part missing. whole = part @ missing \<and> calls = Connect p # part @ [Disconnect] \<and> (pr_ok r \<longrightarrow> missing = [])) \<and>
     (pr_ok r \<longrightarrow> pr_error r = []) \<and> (\<not> pr_ok r \<longrightarrow> pr_output r = []))"

lemma save_trace:
  assumes "push_save side vendor = (r, calls)"
  shows "calls = saving side vendor True \<and> ((\<exists>out. r = Inr out) \<longleftrightarrow> (\<exists>out. ps_save side = Inr out) \<or>
    (\<exists>cmd out. Send_Timing cmd \<in> set (saving side vendor True) \<and> ps_timing side cmd = Inr out))"
proof (cases "ps_save side")
  case (Inl e)
  then show ?thesis using assms by (cases "ps_timing side (save_fallback vendor)") (auto simp: push_save_def saving_def save_fallback_def)
next
  case (Inr out)
  then have "r = Inr out" "calls = [Save_Config]" using assms by (simp_all add: push_save_def)
  then show ?thesis using Inr by (simp add: saving_def)
qed

lemma session_trace:
  assumes "push_session side vendor commands (pc_secret creds \<noteq> []) sav rt = (r, calls)"
  shows "\<exists>missing. enabling vendor creds @ Send_Config commands # saving side vendor sav = calls @ missing \<and>
    ((\<exists>out. r = Inr out) \<longrightarrow> missing = []) \<and>
    ((\<exists>out. r = Inr out) \<longleftrightarrow> (enabling vendor creds \<noteq> [] \<longrightarrow> ps_enable side = None) \<and> (\<exists>out. ps_config side commands rt = Inr out) \<and>
     (sav \<longrightarrow> (\<exists>out. ps_save side = Inr out) \<or> (\<exists>cmd out. Send_Timing cmd \<in> set (saving side vendor sav) \<and> ps_timing side cmd = Inr out)))"
proof (cases "enabling vendor creds \<noteq> [] \<and> ps_enable side \<noteq> None")
  case True
  then show ?thesis using assms by (auto simp: push_session_def enabling_def Let_def split: if_splits)
next
  case False
  note noen = False
  then have en: "enabling vendor creds \<noteq> [] \<longrightarrow> ps_enable side = None" by blast
  show ?thesis
  proof (cases "ps_config side commands rt")
    case (Inl e)
    then have "calls = enabling vendor creds @ [Send_Config commands]" "r = Inl e"
      using assms noen by (auto simp: push_session_def enabling_def Let_def split: if_splits)
    then show ?thesis using Inl by auto
  next
    case (Inr out)
    obtain r' calls' where s: "push_save side vendor = (r', calls')" by fastforce
    have e: "push_session side vendor commands (pc_secret creds \<noteq> []) sav rt = (if \<not> sav then (Inr out, enabling vendor creds @ [Send_Config commands])
        else (map_sum id (\<lambda>s. out @ newline @ s) r', enabling vendor creds @ Send_Config commands # calls'))"
      using noen Inr s by (auto simp: push_session_def enabling_def Let_def)
    have m: "(\<exists>x. map_sum id (\<lambda>s. out @ newline @ s) r' = Inr x) \<longleftrightarrow> (\<exists>x. r' = Inr x)" by (cases r') simp_all
    have "calls = enabling vendor creds @ Send_Config commands # saving side vendor sav"
      using assms save_trace [OF s] unfolding e by (auto simp: saving_def split: if_splits)
    moreover have "(\<exists>out. r = Inr out) \<longleftrightarrow> (sav \<longrightarrow> (\<exists>out. ps_save side = Inr out) \<or>
        (\<exists>cmd out. Send_Timing cmd \<in> set (saving side vendor sav) \<and> ps_timing side cmd = Inr out))"
      using assms save_trace [OF s] m unfolding e by (cases sav) auto
    ultimately show ?thesis using en Inr by simp
  qed
qed

lemma push_one_faithful: "push_faithful side dt vendor commands creds sav ct rt t (push_one side t dt vendor commands creds sav ct rt)"
proof -
  define p where "p = \<lparr>pp_device_type = dt, pp_host = pt_host t, pp_username = pc_username creds,
      pp_password = pc_password creds, pp_timeout = ct, pp_secret = nonempty (pc_secret creds)\<rparr>"
  note one = push_one_def Let_def p_def [symmetric]
  obtain r calls where s: "push_session side vendor commands (pc_secret creds \<noteq> []) sav rt = (r, calls)" by fastforce
  note trace = session_trace [OF s]
  show ?thesis
  proof (cases "ps_connect side p")
    case (Some e)
    then show ?thesis by (simp add: push_faithful_def all_steps_return_def one)
  next
    case None
    have ok: "(case r of Inl _ \<Rightarrow> False | Inr _ \<Rightarrow> True) \<longleftrightarrow> (\<exists>out. r = Inr out)" by (cases r) simp_all
    have "all_steps_return side p vendor commands creds sav rt \<longleftrightarrow> (\<exists>out. r = Inr out)"
      using trace None by (simp add: all_steps_return_def) blast
    then show ?thesis using trace None s by (auto simp: push_faithful_def one ok split: sum.splits)
  qed
qed

text \<open>
  C33: A push reports every target once, in the order they get done.  For an unknown vendor, a text
  without commands or without netmiko no device is contacted and all are reported as failed.  Otherwise
  a device gets, on one connection that is closed again, nothing but the privileged mode (Cisco with an
  enable secret), exactly the commands of the text, and the saving if and only if it was asked for; a
  failure cuts this short, and a device is reported as done exactly if no step failed for good.
\<close>

theorem push_reports_what_happened:
  assumes order: "mset order = mset [0..<length targets]"
  shows "if netmiko_type vendor = None \<or> parse_commands commands = [] \<or> nm \<noteq> None
    then \<exists>why. why \<noteq> [] \<and> push_to_switches nm side order targets vendor commands creds sav ct rt =
      map (\<lambda>t. (\<lparr>pr_name = shown_name t, pr_host = pt_host t, pr_ok = False, pr_output = [], pr_error = why, pr_duration = 0\<rparr>, [])) targets
    else mset (map (pr_host \<circ> fst) (push_to_switches nm side order targets vendor commands creds sav ct rt)) = mset (map pt_host targets) \<and>
      list_all2 (\<lambda>i. push_faithful (side i) (the (netmiko_type vendor)) vendor (parse_commands commands) creds sav ct rt (targets ! i))
        order (push_to_switches nm side order targets vendor commands creds sav ct rt)"
proof (cases "netmiko_type vendor = None \<or> parse_commands commands = [] \<or> nm \<noteq> None")
  case True
  have "push_to_switches nm side order targets vendor commands creds sav ct rt \<in>
      {map (refused (''unsupported vendor: '' @ vendor)) targets, map (refused ''no commands to send'') targets,
       map (refused (''netmiko unavailable: '' @ the nm)) targets}"
    using True by (auto simp: push_to_switches_def Let_def split: option.splits)
  then obtain why where "why \<noteq> []" "push_to_switches nm side order targets vendor commands creds sav ct rt = map (refused why) targets" by auto
  then show ?thesis unfolding if_P [OF True] by (intro exI [of _ why]) (simp add: refused_def fun_eq_iff)
next
  case False
  then obtain dt where dt: "netmiko_type vendor = Some dt" by auto
  let ?one = "\<lambda>i. push_one (side i) (targets ! i) dt vendor (parse_commands commands) creds sav ct rt"
  have p: "push_to_switches nm side order targets vendor commands creds sav ct rt = map ?one order"
    using False dt by (simp add: push_to_switches_def Let_def)
  have "mset (map (pr_host \<circ> fst) (map ?one order)) = image_mset (\<lambda>i. pt_host (targets ! i)) (mset order)"
    by (simp add: push_one_def Let_def comp_def)
  also have "\<dots> = mset (map pt_host (map ((!) targets) [0..<length targets]))" unfolding order by (simp add: comp_def)
  finally have "mset (map (pr_host \<circ> fst) (map ?one order)) = mset (map pt_host targets)" unfolding map_nth .
  moreover have "list_all2 (\<lambda>i. push_faithful (side i) dt vendor (parse_commands commands) creds sav ct rt (targets ! i)) order (map ?one order)"
    by (simp add: list_all2_conv_all_nth push_one_faithful)
  ultimately show ?thesis unfolding if_not_P [OF False] p by (simp add: dt)
qed

definition demo_push_side :: "nat \<Rightarrow> push_side" where
  "demo_push_side i = \<lparr>ps_connect = \<lambda>_. if i = 0 then Some (''TimeoutError'', ''down'') else None, ps_enable = None, ps_config = \<lambda>_ _. Inr ''done'',
     ps_save = Inl (''NotImplementedError'', ''no''), ps_timing = \<lambda>_. Inr ''saved'', ps_elapsed = 1\<rparr>"

definition demo_targets :: "push_target list" where
  "demo_targets = [\<lparr>pt_name = Some ''sw1'', pt_host = Some ''10.0.0.1''\<rparr>, \<lparr>pt_name = None, pt_host = Some ''10.0.0.2''\<rparr>]"

theorem push_reports_what_happened_witness:
  "case push_to_switches None demo_push_side [1, 0] demo_targets ''aruba_cx'' ''vlan 5'' \<lparr>pc_username = ''u'', pc_password = ''p'', pc_secret = []\<rparr> True 30 60 of
     xs \<Rightarrow> mset (map (pr_host \<circ> fst) xs) = {# Some ''10.0.0.1'', Some ''10.0.0.2'' #} \<and>
       (\<exists>p. snd (hd xs) = [Connect p, Send_Config [''vlan 5''], Save_Config, Send_Timing ''write memory'', Disconnect])"
proof -
  let ?c = "\<lparr>pc_username = ''u'', pc_password = ''p'', pc_secret = []\<rparr>"
  let ?xs = "push_to_switches None demo_push_side [1, 0] demo_targets ''aruba_cx'' ''vlan 5'' ?c True 30 60"
  have o: "mset [1, 0] = mset [0..<length demo_targets]" by (simp add: demo_targets_def)
  have c: "parse_commands ''vlan 5'' = [''vlan 5'']" "netmiko_type ''aruba_cx'' = Some ''aruba_aoscx''" by code_simp+
  have "mset (map (pr_host \<circ> fst) ?xs) = mset (map pt_host demo_targets)"
    "list_all2 (\<lambda>i. push_faithful (demo_push_side i) ''aruba_aoscx'' ''aruba_cx'' [''vlan 5''] ?c True 30 60 (demo_targets ! i)) [1, 0] ?xs"
    using push_reports_what_happened [OF o, of "''aruba_cx''" "''vlan 5''" None demo_push_side ?c True 30 60] c by simp_all
  moreover have "\<exists>p. snd (hd ?xs) = [Connect p, Send_Config [''vlan 5''], Save_Config, Send_Timing ''write memory'', Disconnect]"
    using calculation(2) by (auto simp: list_all2_Cons1 push_faithful_def all_steps_return_def demo_push_side_def enabling_def saving_def Let_def)
  ultimately show ?thesis by (simp add: demo_targets_def)
qed

text \<open>
  The push knows the switches of ArubaOS, the template store does not take templates for them.
\<close>

lemma aruba_os_template_refused:
  "netmiko_type ''aruba_os'' \<noteq> None \<and> save_template fail now name ''aruba_os'' commands desc by_user reg = (Inr False, reg)"
  by (simp add: netmiko_type_def save_template_def Let_def valid_vendors_def strip_def lstrip_def rstrip_def is_ws_def)

lemma save_failure_hides_push:
  "ps_connect side p = None \<Longrightarrow> ps_config side cmds rt = Inr out \<Longrightarrow> ps_save side = Inl e1 \<Longrightarrow> ps_timing side (save_fallback vendor) = Inl e2 \<Longrightarrow>
   fst (push_session side vendor cmds False True rt) = Inl (''RuntimeError'', ''save-to-startup failed: '' @ snd e2)"
  by (simp add: push_session_def push_save_def)

end
