(* ===== verification/Firmware.thy ===== *)
theory Firmware
  imports Drivers
begin

text \<open>
  The firmware updater, \<open>aruba_agent/tasks/firmware.py\<close>: the status of every switch, then the upload of
  the image to the switches that do not have the target version.

  The switches are the HTTP functions of the two phases; the image travels in the upload request, whose
  body is not modelled, and neither are the
  progress messages of the log.  The pools are sequences.
\<close>

subsection \<open>The status of a switch\<close>

record updater =
  fu_ips :: "string list"
  fu_user :: string
  fu_password :: string
  fu_target :: string
  fu_image :: string

record fw_row =
  fr_ip :: string
  fr_status :: "json option"
  fr_error :: "string option"
  fr_version :: "string option"

definition cx_open :: "updater \<Rightarrow> string \<Rightarrow> string option \<Rightarrow> driver" where
  "cx_open u ip preferred = driver_for ip (fu_user u) (fu_password u) False preferred None default_options"

definition needs_cx :: "string \<Rightarrow> driver \<Rightarrow> string" where
  "needs_cx what d = what @ '' requires AOS-CX (got '' @ drv_vendor d @ '')''"

definition truthy_status :: "json option \<Rightarrow> bool" where
  "truthy_status j = (case j of None \<Rightarrow> False | Some v \<Rightarrow> truthy v)"

definition check_session :: "http \<Rightarrow> (string \<Rightarrow> string) \<Rightarrow> string \<Rightarrow> cx \<Rightarrow> fw_row result \<times> cx" where
  "check_session net redact ip s = (if cx_logged_in s
     then (case cx_firmware net redact s of (r, s1) \<Rightarrow>
       (bind_r r (\<lambda>st. Inr \<lparr>fr_ip = ip, fr_status = st, fr_error = (if truthy_status st then None else Some (cx_error s1)),
          fr_version = cx_version s\<rparr>), s1))
     else (Inr \<lparr>fr_ip = ip, fr_status = None, fr_error = Some (cx_error s), fr_version = Some ''v10.13''\<rparr>, s))"

definition check_status :: "http \<Rightarrow> (string \<Rightarrow> string) \<Rightarrow> updater \<Rightarrow> string \<Rightarrow> fw_row result \<times> http_request list" where
  "check_status net redact u ip = (case cx_open u ip None of
       Aruba_CX s \<Rightarrow> (case with_session (cx_login net redact) (cx_logout net) (check_session net redact ip) s of (r, s1) \<Rightarrow> (r, cx_sent s1))
     | d \<Rightarrow> (Inr \<lparr>fr_ip = ip, fr_status = None, fr_error = Some (needs_cx ''firmware updater'' d), fr_version = Some ''v10.13''\<rparr>, []))"

subsection \<open>The upload\<close>

datatype fw_outcome = Updated | Already | Not_Done string

text \<open>\<open>x in fw.get(k, "")\<close>: a substring, an element or a key.\<close>

definition named_in :: "string \<Rightarrow> json option \<Rightarrow> bool result" where
  "named_in x v = (case v of
       None \<Rightarrow> Inr (contains [] x)
     | Some (JStr t) \<Rightarrow> Inr (contains t x)
     | Some (JArr vs) \<Rightarrow> Inr (JStr x \<in> set vs)
     | Some (JObj kvs) \<Rightarrow> Inr (x \<in> fst ` set kvs)
     | Some _ \<Rightarrow> Inl TypeError)"

definition has_target :: "string \<Rightarrow> json option \<Rightarrow> json option \<Rightarrow> bool result" where
  "has_target x prim sec = bind_r (named_in x prim) (\<lambda>b. if b then Inr True else named_in x sec)"

text \<open>The image to write: the one that is not booted.  \<open>booted\<close> may be any value, it is only compared.\<close>

definition other_partition :: "json option \<Rightarrow> string" where
  "other_partition booted = (if booted = None \<or> booted = Some (JStr ''primary'') then ''secondary'' else ''primary'')"

definition upload_request :: "cx \<Rightarrow> string \<Rightarrow> string \<Rightarrow> http_request" where
  "upload_request s base part = cx_request s POST (base @ ''firmware?image='' @ part) [] [] None 900"

definition upload_session :: "http \<Rightarrow> string option \<Rightarrow> string \<Rightarrow> cx \<Rightarrow> fw_outcome \<times> cx" where
  "upload_session net unreadable part s = (case (cx_logged_in s, cx_base s) of
       (True, Some base) \<Rightarrow> (case unreadable of
           Some e \<Rightarrow> (Not_Done e, s)
         | None \<Rightarrow> (case cx_send net (upload_request s base part) s of
             (Raises e, s1) \<Rightarrow> (Not_Done e, s1)
           | (Answer r, s1) \<Rightarrow> if rp_status r \<in> {200, 201, 202} then (Updated, s1)
               else (Not_Done (''HTTP '' @ int_str (rp_status r)), s1)))
     | _ \<Rightarrow> (Not_Done (''Login failed: '' @ cx_error s), s))"

definition upload :: "http \<Rightarrow> (string \<Rightarrow> string) \<Rightarrow> string option \<Rightarrow> updater \<Rightarrow> fw_row \<Rightarrow> fw_outcome result \<times> http_request list" where
  "upload net redact unreadable u row = (case fr_status row of
       None \<Rightarrow> (Inr (Not_Done ''No firmware status from Phase 1''), [])
     | Some fw \<Rightarrow> if \<not> truthy fw then (Inr (Not_Done ''No firmware status from Phase 1''), [])
         else case bind_r (json_get fw ''primary_version'') (\<lambda>prim. bind_r (json_get fw ''secondary_version'') (\<lambda>sec.
             bind_r (json_get fw ''booted_image'') (\<lambda>booted. bind_r (has_target (fu_target u) prim sec) (\<lambda>b. Inr (b, booted))))) of
           Inl e \<Rightarrow> (Inl e, [])
         | Inr (True, _) \<Rightarrow> (Inr Already, [])
         | Inr (False, booted) \<Rightarrow> (case cx_open u (fr_ip row) (fr_version row) of
               Aruba_CX s \<Rightarrow> (case with_session (cx_login net redact) (cx_logout net)
                   (upload_session net unreadable (other_partition booted)) s of (r, s1) \<Rightarrow> (Inr r, cx_sent s1))
             | d \<Rightarrow> (Inr (Not_Done (needs_cx ''firmware upload'' d)), [])))"

subsection \<open>The run\<close>

record fw_env =
  fv_http :: "bool \<Rightarrow> nat \<Rightarrow> http"
  fv_redact :: "string \<Rightarrow> string"
  fv_exists :: bool
  fv_unreadable :: "nat \<Rightarrow> string option"

definition check_all :: "fw_env \<Rightarrow> updater \<Rightarrow> fw_row list result" where
  "check_all env u = fold_r (\<lambda>(i, ip) rows. bind_r (fst (check_status (fv_http env False i) (fv_redact env) u ip)) (\<lambda>row. Inr (rows @ [row])))
     (zip [0..<length (fu_ips u)] (fu_ips u)) []"

definition upload_all :: "fw_env \<Rightarrow> updater \<Rightarrow> fw_row list \<Rightarrow> (string \<times> fw_outcome) list result" where
  "upload_all env u rows = fold_r (\<lambda>(i, row) outs. bind_r (fst (upload (fv_http env True i) (fv_redact env) (fv_unreadable env i) u row))
       (\<lambda>o'. Inr (outs @ [(fr_ip row, o')]))) (zip [0..<length rows] rows) []"

text \<open>An exception of a worker comes out of \<open>fut.result()\<close> and ends the run.\<close>

definition firmware_run :: "fw_env \<Rightarrow> updater \<Rightarrow> (string \<times> fw_outcome) list option result" where
  "firmware_run env u = (if fu_target u = [] \<or> fu_image u = [] \<or> \<not> fv_exists env then Inr None
     else bind_r (check_all env u) (\<lambda>rows. map_sum id Some (upload_all env u rows)))"

subsection \<open>What an upload sends\<close>

definition writes_image :: "string \<Rightarrow> http_request \<Rightarrow> bool" where
  "writes_image part rq = endswith (rq_url rq) (''firmware?image='' @ part)"

definition is_upload :: "http_request \<Rightarrow> bool" where
  "is_upload rq = (writes_image ''primary'' rq \<or> writes_image ''secondary'' rq)"

text \<open>Whether some image was sent and the switch took it.\<close>

definition image_taken :: "http \<Rightarrow> http_request list \<Rightarrow> bool" where
  "image_taken net sent = (\<exists>pre rq post r. sent = pre @ rq # post \<and> is_upload rq \<and> net pre rq = Answer r \<and> rp_status r \<in> {200, 201, 202})"

definition quiet :: "http_request \<Rightarrow> bool" where
  "quiet rq = (\<exists>h v. rq_url rq = rest_base h v @ ''login'' \<or> rq_url rq = rest_base h v @ ''logout'')"

lemma quiet_no_image: "quiet rq \<Longrightarrow> \<not> is_upload rq"
  using same_last [of "rq_url rq" "''firmware?image=primary''"] same_last [of "rq_url rq" "''firmware?image=secondary''"]
  by (auto simp: quiet_def is_upload_def writes_image_def)

lemma upload_writes:
  "part \<in> {''primary'', ''secondary''} \<Longrightarrow> is_upload (upload_request s b part)"
  "part \<in> {''primary'', ''secondary''} \<Longrightarrow> p \<in> {''primary'', ''secondary''} \<Longrightarrow> writes_image p (upload_request s b part) \<longleftrightarrow> p = part"
  by (auto simp: is_upload_def writes_image_def upload_request_def endswith_iff_append append_eq_append_conv2)

lemma try_versions_sent:
  "\<exists>L. cx_sent (snd (try_versions net redact vers s)) = cx_sent s @ L \<and> list_all quiet L \<and>
     (fst (try_versions net redact vers s) \<longrightarrow> (\<exists>v. cx_base (snd (try_versions net redact vers s)) = Some (rest_base (cx_host s) v)))"
proof (induction vers arbitrary: s)
  case (Cons v vers)
  obtain a s1 where send: "cx_send net (login_request s v) s = (a, s1)" by fastforce
  have s1: "cx_sent s1 = cx_sent s @ [login_request s v]" "cx_host s1 = cx_host s" using send_result [OF send] by auto
  have q: "quiet (login_request s v)" by (auto simp: quiet_def login_request_def)
  show ?case
  proof (cases a)
    case (Raises e)
    then show ?thesis using send s1 q Cons.IH [of "s1\<lparr>cx_error := redact e\<rparr>"] by (auto simp: Let_def)
  next
    case (Answer r)
    then show ?thesis using send s1 q Cons.IH [of s1] by (auto simp: logged_in_as_def)
  qed
qed simp

lemma logout_sent:
  "\<forall>b. cx_base s = Some b \<longrightarrow> (\<exists>v. b = rest_base h v) \<Longrightarrow> \<exists>L. cx_sent (cx_logout net s) = cx_sent s @ L \<and> list_all quiet L"
  by (auto simp: cx_logout_def logout_request_def quiet_def cx_send_def Let_def cx_request_def split: option.splits http_answer.splits)

text \<open>The requests of an upload: logins and logouts around one that writes the image, if the login succeeds.\<close>

lemma upload_trace:
  assumes "with_session (cx_login net redact) (cx_logout net) (upload_session net unreadable part) (new_cx h us pw ver pref) = (r, s')"
  shows "r \<noteq> Already \<and> (\<exists>pre post. list_all quiet pre \<and> list_all quiet post \<and>
    (if fst (cx_login net redact (new_cx h us pw ver pref)) \<and> unreadable = None
     then \<exists>s b. cx_sent s' = pre @ upload_request s b part # post \<and>
        (r = Updated \<longleftrightarrow> (\<exists>a. net pre (upload_request s b part) = Answer a \<and> rp_status a \<in> {200, 201, 202}))
     else cx_sent s' = pre @ post \<and> r \<noteq> Updated))"
proof -
  let ?s0 = "new_cx h us pw ver pref"
  let ?s1 = "snd (cx_login net redact ?s0)"
  have h0: "cx_host ?s0 = h" "cx_sent ?s0 = []" "cx_base ?s0 = None" "\<not> cx_logged_in ?s0" by (simp_all add: new_cx_def)
  obtain L where L: "cx_sent ?s1 = L" "list_all quiet L"
    and base: "fst (cx_login net redact ?s0) \<longrightarrow> (\<exists>v. cx_base ?s1 = Some (rest_base h v))"
    using try_versions_sent [of net redact "cx_versions ?s0" ?s0] h0 by (auto simp: cx_login_def)
  have on: "cx_logged_in ?s1 = fst (cx_login net redact ?s0)" "cx_base ?s1 = None \<longleftrightarrow> \<not> fst (cx_login net redact ?s0)"
    using try_versions_sound [of ?s0 net redact "cx_versions ?s0"] h0 by (auto simp: cx_login_def prod_eq_iff)
  have b1: "\<forall>b. cx_base ?s1 = Some b \<longrightarrow> (\<exists>v. b = rest_base h v)" using base on(2) by force
  obtain s2 where u: "upload_session net unreadable part ?s1 = (r, s2)" and s': "s' = cx_logout net s2"
    using assms by (auto simp: with_session_def split: prod.splits)
  have "r \<noteq> Already" using u
    by (auto simp: upload_session_def split: option.splits bool.splits prod.splits http_answer.splits if_splits)
  moreover have "\<exists>pre post. list_all quiet pre \<and> list_all quiet post \<and>
    (if fst (cx_login net redact ?s0) \<and> unreadable = None
     then \<exists>s b. cx_sent s' = pre @ upload_request s b part # post \<and>
        (r = Updated \<longleftrightarrow> (\<exists>a. net pre (upload_request s b part) = Answer a \<and> rp_status a \<in> {200, 201, 202}))
     else cx_sent s' = pre @ post \<and> r \<noteq> Updated)"
  proof (cases "fst (cx_login net redact ?s0) \<and> unreadable = None")
    case False
    then have "s2 = ?s1" "r \<noteq> Updated" using u on by (auto simp: upload_session_def split: option.splits bool.splits)
    moreover obtain P where "cx_sent (cx_logout net ?s1) = L @ P" "list_all quiet P" using logout_sent [OF b1, of net] L(1) by auto
    ultimately show ?thesis unfolding if_not_P [OF False] s' using L(2) by blast
  next
    case True
    then obtain v where b: "cx_base ?s1 = Some (rest_base h v)" using base by auto
    let ?rq = "upload_request ?s1 (rest_base h v) part"
    obtain a s3 where send: "cx_send net ?rq ?s1 = (a, s3)" by fastforce
    have s3: "cx_sent s3 = L @ [?rq]" "cx_base s3 = cx_base ?s1" "a = net L ?rq"
      using send_result [OF send] L by auto
    have r: "s2 = s3" "r = Updated \<longleftrightarrow> (\<exists>x. a = Answer x \<and> rp_status x \<in> {200, 201, 202})"
      using u True on(1) b send by (auto simp: upload_session_def split: http_answer.splits if_splits)
    obtain P where P: "cx_sent (cx_logout net s3) = cx_sent s3 @ P" "list_all quiet P"
      using logout_sent [of s3 h net] b1 s3(2) by auto
    then have "cx_sent s' = L @ ?rq # P" using r(1) s' s3(1) by simp
    moreover have "r = Updated \<longleftrightarrow> (\<exists>x. net L ?rq = Answer x \<and> rp_status x \<in> {200, 201, 202})" using r(2) s3(3) by simp
    ultimately show ?thesis unfolding if_P [OF True] using L(2) P(2) by (intro exI conjI)
  qed
  ultimately show ?thesis by blast
qed

definition other_image :: "string \<Rightarrow> string" where
  "other_image b = (if b = ''primary'' then ''secondary'' else ''primary'')"

lemma json_get_truthy: "json_get fw k = Inr (Some v) \<Longrightarrow> truthy fw"
  by (cases fw) auto

text \<open>
  C34: To a switch whose two images are named in its status, and that has the target version in one of
  them, no request is sent.  To any other one the image is sent exactly once if the login succeeds and
  the image file can be read, and not at all otherwise; it is written to the image that is not booted;
  the switch counts as updated exactly if it took the image.
\<close>

theorem running_image_spared:
  assumes up: "upload net redact unreadable u row = (res, sent)"
    and fw: "fr_status row = Some fw" "json_get fw ''primary_version'' = Inr (Some (JStr p))"
      "json_get fw ''secondary_version'' = Inr (Some (JStr q))" "json_get fw ''booted_image'' = Inr (Some (JStr b))" "b \<in> {''primary'', ''secondary''}"
  shows "if contains p (fu_target u) \<or> contains q (fu_target u) then res = Inr Already \<and> sent = []
    else length (filter is_upload sent) =
        (if fst (cx_login net redact (new_cx (fr_ip row) (fu_user u) (fu_password u) False (fr_version row))) \<and> unreadable = None then 1 else 0) \<and>
      (\<forall>rq \<in> set sent. is_upload rq \<longrightarrow> rq_method rq = POST \<and> writes_image (other_image b) rq \<and> \<not> writes_image b rq) \<and>
      res \<noteq> Inr Already \<and> (res = Inr Updated \<longleftrightarrow> image_taken net sent)"
proof (cases "contains p (fu_target u) \<or> contains q (fu_target u)")
  case True
  then show ?thesis using up fw json_get_truthy [OF fw(2)]
    by (cases "contains p (fu_target u)") (auto simp: upload_def has_target_def named_in_def)
next
  case False
  let ?s0 = "new_cx (fr_ip row) (fu_user u) (fu_password u) False (fr_version row)" and ?o = "other_image b"
  have o: "other_partition (Some (JStr b)) = ?o" "?o \<in> {''primary'', ''secondary''}" "?o \<noteq> b"
    using fw(5) by (auto simp: other_partition_def other_image_def)
  obtain r s' where ws: "with_session (cx_login net redact) (cx_logout net) (upload_session net unreadable ?o) ?s0 = (r, s')"
    "sent = cx_sent s'" "res = Inr r"
    using up fw(1-4) False json_get_truthy [OF fw(2)] unfolding o(1) [symmetric]
    by (auto simp: upload_def has_target_def named_in_def cx_open_def driver_for_def split: prod.splits)
  obtain pre post where t: "r \<noteq> Already" "list_all quiet pre" "list_all quiet post"
    "if fst (cx_login net redact ?s0) \<and> unreadable = None
     then \<exists>s x. sent = pre @ upload_request s x ?o # post \<and>
        (r = Updated \<longleftrightarrow> (\<exists>a. net pre (upload_request s x ?o) = Answer a \<and> rp_status a \<in> {200, 201, 202}))
     else sent = pre @ post \<and> r \<noteq> Updated"
    using upload_trace [OF ws(1)] unfolding ws(2) by blast
  have none: "filter is_upload pre = []" "filter is_upload post = []" "\<forall>rq \<in> set pre \<union> set post. \<not> is_upload rq"
    using t(2,3) quiet_no_image by (auto simp: list_all_iff filter_empty_conv)
  show ?thesis
  proof (cases "fst (cx_login net redact ?s0) \<and> unreadable = None")
    case False
    then have "sent = pre @ post" "r \<noteq> Updated" using t(4) by auto
    moreover from this have "\<not> image_taken net sent" using none(3) by (auto simp: image_taken_def dest: arg_cong [where f = set])
    ultimately show ?thesis using False \<open>\<not> (contains p (fu_target u) \<or> contains q (fu_target u))\<close> none t(1) ws(3) by auto
  next
    case True
    then obtain s x where s: "sent = pre @ upload_request s x ?o # post"
      "r = Updated \<longleftrightarrow> (\<exists>a. net pre (upload_request s x ?o) = Answer a \<and> rp_status a \<in> {200, 201, 202})"
      using t(4) by auto
    let ?rq = "upload_request s x ?o"
    have up1: "is_upload ?rq" "writes_image ?o ?rq" "\<not> writes_image b ?rq" "rq_method ?rq = POST"
      using upload_writes o(2,3) fw(5) by (auto simp: upload_request_def)
    have "image_taken net sent \<longleftrightarrow> r = Updated"
    proof
      assume "image_taken net sent"
      then obtain pre' rq post' a where i: "sent = pre' @ rq # post'" "is_upload rq" "net pre' rq = Answer a" "rp_status a \<in> {200, 201, 202}"
        by (auto simp: image_taken_def)
      have "pre' = pre \<and> rq = ?rq"
        using i(1,2) none(3) up1(1) unfolding s(1) by (auto simp: append_eq_append_conv2 append_eq_Cons_conv Cons_eq_append_conv)
      then show "r = Updated" using s(2) i(3,4) by blast
    qed (use s up1(1) in \<open>auto simp: image_taken_def\<close>)
    then show ?thesis using True \<open>\<not> (contains p (fu_target u) \<or> contains q (fu_target u))\<close> none t(1) ws(3) up1 by (auto simp: s(1))
  qed
qed

subsection \<open>A run ends on one bad answer\<close>

lemma bad_page_ends_run:
  assumes "fu_ips u = ip # ips" "fst (check_status (fv_http env False 0) (fv_redact env) u ip) = Inl e"
    and "fu_target u \<noteq> []" "fu_image u \<noteq> []" "fv_exists env"
  shows "firmware_run env u = Inl e"
  using assms by (simp add: firmware_run_def check_all_def upt_rec [of 0])

definition demo_switch_http :: http where
  "demo_switch_http rqs rq = Answer \<lparr>rp_status = 200, rp_token = None, rp_cookies = [], rp_content = [], rp_json = None\<rparr>"

definition demo_updater :: updater where
  "demo_updater = \<lparr>fu_ips = [''10.0.0.1''], fu_user = ''admin'', fu_password = ''pw'', fu_target = ''FL.10.13'', fu_image = ''/fw.swi''\<rparr>"

definition demo_row :: fw_row where
  "demo_row = \<lparr>fr_ip = ''10.0.0.1'', fr_status = Some (JObj [(''primary_version'', JStr ''FL.10.10''),
     (''secondary_version'', JStr ''FL.10.09''), (''booted_image'', JStr ''primary'')]), fr_error = None, fr_version = Some ''v10.13''\<rparr>"

lemma non_json_status: "fst (check_status demo_switch_http id demo_updater ''10.0.0.1'') = Inl ValueError"
  by code_simp

lemma demo_upload: "fst (upload demo_switch_http id None demo_updater demo_row) = Inr Updated"
  by code_simp

theorem running_image_spared_witness:
  "\<exists>sent. upload demo_switch_http id None demo_updater demo_row = (Inr Updated, sent) \<and>
     (\<forall>rq \<in> set sent. is_upload rq \<longrightarrow> writes_image ''secondary'' rq) \<and> image_taken demo_switch_http sent"
proof -
  obtain sent where up: "upload demo_switch_http id None demo_updater demo_row = (Inr Updated, sent)"
    using demo_upload by (cases "upload demo_switch_http id None demo_updater demo_row") simp
  obtain fw where fw: "fr_status demo_row = Some fw" "json_get fw ''primary_version'' = Inr (Some (JStr ''FL.10.10''))"
    "json_get fw ''secondary_version'' = Inr (Some (JStr ''FL.10.09''))" "json_get fw ''booted_image'' = Inr (Some (JStr ''primary''))"
    by (simp add: demo_row_def)
  have "\<not> contains ''FL.10.10'' (fu_target demo_updater)" "\<not> contains ''FL.10.09'' (fu_target demo_updater)" "other_image ''primary'' = ''secondary''"
    by code_simp+
  then show ?thesis using running_image_spared [OF up fw] up by auto
qed

end
