(* ===== verification/Ini_Text.thy ===== *)
theory Ini_Text
  imports Config Py_Text
begin

text \<open>
  The text of \<open>config.ini\<close>: \<open>ConfigParser._read\<close> line by line, with the options the program gives
  (\<open>inline_comment_prefixes=("#", ";")\<close>, everything else by default), and \<open>ConfigParser.write\<close>.  Parsing
  errors of any kind are \<open>ConfigError\<close>.
\<close>

subsection \<open>Lines\<close>

text \<open>Iterating over a text file: the lines with their line feeds.\<close>

fun raw_lines :: "string \<Rightarrow> string list" where
  "raw_lines [] = []"
| "raw_lines (c # s) = (if c = CHR 0x0A then [c] # raw_lines s
     else case raw_lines s of [] \<Rightarrow> [[c]] | l # ls \<Rightarrow> (c # l) # ls)"

text \<open>
  The start of an inline comment.  The loop of the library looks at the first occurrence of both
  characters, then at the second ones, and so on, and stops at the first round in which one of them
  stands at the start of the line or after white space.
\<close>

definition comment_at :: "string \<Rightarrow> nat \<Rightarrow> bool" where
  "comment_at line i = (i = 0 \<or> is_ws (line ! (i - 1)))"

fun first_comment :: "(nat \<Rightarrow> bool) \<Rightarrow> nat list \<Rightarrow> nat list \<Rightarrow> nat option" where
  "first_comment P (i # is) (j # js) = (if P i \<and> P j then Some (min i j) else if P i then Some i else if P j then Some j
     else first_comment P is js)"
| "first_comment P (i # is) [] = (if P i then Some i else first_comment P is [])"
| "first_comment P [] (j # js) = (if P j then Some j else first_comment P [] js)"
| "first_comment P [] [] = None"

definition places :: "char \<Rightarrow> string \<Rightarrow> nat list" where
  "places c line = filter (\<lambda>i. line ! i = c) [0..<length line]"

definition comment_start :: "string \<Rightarrow> nat option" where
  "comment_start line = (if startswith (strip line) ''#'' \<or> startswith (strip line) '';'' then Some 0
     else first_comment (comment_at line) (places CHR ''#'' line) (places CHR '';'' line))"

definition line_value :: "string \<Rightarrow> string" where
  "line_value line = strip (case comment_start line of None \<Rightarrow> line | Some i \<Rightarrow> take i line)"

text \<open>A section header, up to the last closing bracket, and an option with its value.\<close>

definition section_name :: "string \<Rightarrow> string option" where
  "section_name v = (if startswith v ''['' then
       (case dropWhile (\<lambda>c. c \<noteq> CHR '']'') (rev (tl v)) of [] \<Rightarrow> None | _ # r \<Rightarrow> if r = [] then None else Some (rev r))
     else None)"

definition option_split :: "string \<Rightarrow> (string \<times> string) option" where
  "option_split v = (let name = takeWhile (\<lambda>c. c \<notin> {CHR ''='', CHR '':''}) v; rest = dropWhile (\<lambda>c. c \<notin> {CHR ''='', CHR '':''}) v in
     if rest = [] \<or> rstrip name = [] then None else Some (lower (rstrip name), strip (tl rest)))"

subsection \<open>The reader\<close>

text \<open>Values are lists of lines until the end; \<open>ir_added\<close> are the options of this file.\<close>

record ini_reader =
  ir_defaults :: "(string, string list) dict"
  ir_sections :: "(string, (string, string list) dict) dict"
  ir_section :: "string option"
  ir_option :: "string option"
  ir_indent :: nat
  ir_added :: "(string \<times> string) list"

definition default_name :: string where
  "default_name = ''DEFAULT''"

definition options_of :: "string \<Rightarrow> ini_reader \<Rightarrow> (string, string list) dict" where
  "options_of sec r = (if sec = default_name then ir_defaults r else case dget (ir_sections r) sec of None \<Rightarrow> [] | Some os \<Rightarrow> os)"

definition with_options :: "string \<Rightarrow> (string, string list) dict \<Rightarrow> ini_reader \<Rightarrow> ini_reader" where
  "with_options sec os r = (if sec = default_name then r\<lparr>ir_defaults := os\<rparr> else r\<lparr>ir_sections := dset sec os (ir_sections r)\<rparr>)"

definition append_line :: "string \<Rightarrow> string \<Rightarrow> string \<Rightarrow> ini_reader \<Rightarrow> ini_reader" where
  "append_line sec opt l r = (case dget (options_of sec r) opt of None \<Rightarrow> r
     | Some ls \<Rightarrow> with_options sec (dset opt (ls @ [l]) (options_of sec r)) r)"

definition enter_section :: "string \<Rightarrow> ini_reader \<Rightarrow> ini_reader result" where
  "enter_section sec r =
     (if has_key (ir_sections r) sec then Inl ConfigError
      else Inr ((if sec = default_name then r else r\<lparr>ir_sections := dset sec [] (ir_sections r)\<rparr>)
        \<lparr>ir_section := Some sec, ir_option := None\<rparr>))"

definition enter_option :: "string \<Rightarrow> string \<Rightarrow> ini_reader \<Rightarrow> ini_reader result" where
  "enter_option sec v r = (case option_split v of None \<Rightarrow> Inl ConfigError
     | Some (opt, val) \<Rightarrow> if (sec, opt) \<in> set (ir_added r) then Inl ConfigError
         else Inr ((with_options sec (dset opt [val] (options_of sec r)) r)\<lparr>ir_option := Some opt, ir_added := (sec, opt) # ir_added r\<rparr>))"

definition ini_line :: "string \<Rightarrow> ini_reader \<Rightarrow> ini_reader result" where
  "ini_line line r = (let v = line_value line; indent = length (takeWhile is_ws line) in
     if v = [] then
       Inr (case (comment_start line, ir_section r, ir_option r) of (None, Some sec, Some opt) \<Rightarrow> append_line sec opt [] r | _ \<Rightarrow> r)
     else case (ir_section r, ir_option r) of
       (Some sec, Some opt) \<Rightarrow> if ir_indent r < indent then Inr (append_line sec opt v r)
           else (case section_name v of Some s \<Rightarrow> enter_section s (r\<lparr>ir_indent := indent\<rparr>) | None \<Rightarrow> enter_option sec v (r\<lparr>ir_indent := indent\<rparr>))
     | (sec, _) \<Rightarrow> (case section_name v of Some s \<Rightarrow> enter_section s (r\<lparr>ir_indent := indent\<rparr>)
           | None \<Rightarrow> (case sec of None \<Rightarrow> Inl ConfigError | Some s \<Rightarrow> enter_option s v (r\<lparr>ir_indent := indent\<rparr>))))"

definition joined :: "(string, string list) dict \<Rightarrow> options" where
  "joined os = map (\<lambda>(k, ls). (k, rstrip (join newline ls))) os"

definition config_of :: "ini_reader \<Rightarrow> config" where
  "config_of r = \<lparr>defaults = joined (ir_defaults r), sections = map (\<lambda>(s, os). (s, joined os)) (ir_sections r)\<rparr>"

definition empty_reader :: ini_reader where
  "empty_reader = \<lparr>ir_defaults = [], ir_sections = [], ir_section = None, ir_option = None, ir_indent = 0, ir_added = []\<rparr>"

definition parse_ini :: "string \<Rightarrow> config result" where
  "parse_ini text = bind_r (fold_r ini_line (raw_lines (universal_newlines text)) empty_reader) (\<lambda>r. Inr (config_of r))"

subsection \<open>The writer\<close>

definition option_line :: "string \<times> string \<Rightarrow> string" where
  "option_line kv = fst kv @ '' = '' @ concat (map (\<lambda>c. if c = CHR 0x0A then [CHR 0x0A, CHR 0x09] else [c]) (snd kv)) @ newline"

definition section_text :: "string \<Rightarrow> options \<Rightarrow> string" where
  "section_text sec os = ''['' @ sec @ '']'' @ newline @ concat (map option_line os) @ newline"

definition print_ini :: "config \<Rightarrow> string" where
  "print_ini c = (if defaults c = [] then [] else section_text default_name (defaults c))
     @ concat (map (\<lambda>(s, os). section_text s os) (sections c))"

subsection \<open>Lines of a text\<close>

declare newline_def [simp]

lemma raw_lines_line: "CHR 0x0A \<notin> set a \<Longrightarrow> raw_lines (a @ CHR 0x0A # b) = (a @ newline) # raw_lines b"
  by (induction a) auto

lemma concat_raw_lines [simp]: "concat (raw_lines t) = t"
  by (induction t) (auto split: list.splits)

lemma raw_lines_append: "h = [] \<or> last h = CHR 0x0A \<Longrightarrow> raw_lines (h @ b) = raw_lines h @ raw_lines b"
proof (induction h)
  case (Cons c h)
  have "raw_lines h \<noteq> []" if "h \<noteq> []" using concat_raw_lines [of h] that by force
  then show ?case using Cons by (cases "h = []") (auto split: list.splits)
qed simp

lemma universal_newlines_plain: "CHR 0x0D \<notin> set t \<Longrightarrow> universal_newlines t = t"
  by (induction t) auto

lemma universal_newlines_no_cr: "CHR 0x0D \<notin> set (universal_newlines t)"
  by (induction t rule: universal_newlines.induct) (auto split: list.splits)

subsection \<open>Texts without comments\<close>

text \<open>No comment starts in the text; \<open>w\<close> says whether one could start right at its beginning.\<close>

fun clean :: "bool \<Rightarrow> string \<Rightarrow> bool" where
  "clean w [] = True"
| "clean w (c # s) = (\<not> (w \<and> (c = CHR ''#'' \<or> c = CHR '';'')) \<and> clean (is_ws c) s)"

lemma clean_append: "clean w (a @ b) \<longleftrightarrow> clean w a \<and> clean (if a = [] then w else is_ws (last a)) b"
  by (induction w a rule: clean.induct) auto

lemma clean_nth: "clean w s \<Longrightarrow> i < length s \<Longrightarrow> s ! i = CHR ''#'' \<or> s ! i = CHR '';'' \<Longrightarrow> if i = 0 then \<not> w else \<not> is_ws (s ! (i - 1))"
proof (induction w s arbitrary: i rule: clean.induct)
  case (2 w c s)
  show ?case
  proof (cases i)
    case (Suc j)
    then have "if j = 0 then \<not> is_ws c else \<not> is_ws (s ! (j - 1))" using 2(1) [of j] 2(2-4) by simp
    then show ?thesis using Suc by (cases j) simp_all
  qed (use 2 in auto)
qed simp

lemma first_comment_None: "\<forall>i \<in> set is \<union> set js. \<not> P i \<Longrightarrow> first_comment P is js = None"
  by (induction P "is" js rule: first_comment.induct) auto

lemma clean_lstrip: "clean True s \<Longrightarrow> lstrip s = [] \<or> hd (lstrip s) \<notin> {CHR ''#'', CHR '';''}"
proof (induction s)
  case (Cons c s)
  then show ?case by (cases "is_ws c") (auto simp: lstrip_def)
qed (simp add: lstrip_def)

lemma clean_comment: assumes "clean True s" shows "comment_start s = None"
proof -
  have "\<forall>i \<in> set (places CHR ''#'' s) \<union> set (places CHR '';'' s). \<not> comment_at s i"
  proof
    fix i assume "i \<in> set (places CHR ''#'' s) \<union> set (places CHR '';'' s)"
    then have "i < length s" "s ! i = CHR ''#'' \<or> s ! i = CHR '';''" by (auto simp: places_def)
    from clean_nth [OF assms this] show "\<not> comment_at s i" by (simp add: comment_at_def split: if_splits)
  qed
  moreover have "strip s = [] \<or> hd (strip s) \<notin> {CHR ''#'', CHR '';''}"
  proof (cases "strip s = []")
    case False
    then have "hd (strip s) = hd (lstrip s)" "lstrip s \<noteq> []" using rstrip_hd [of "lstrip s"] by (auto simp: strip_def rstrip_def)
    then show ?thesis using clean_lstrip [OF assms] by simp
  qed simp
  then have "\<not> startswith (strip s) ''#''" "\<not> startswith (strip s) '';''"
    by (cases "strip s"; auto simp: startswith_def)+
  ultimately show ?thesis by (simp add: comment_start_def first_comment_None)
qed

lemma clean_value: "clean True s \<Longrightarrow> line_value s = strip s"
  by (simp add: line_value_def clean_comment)

text \<open>Stripping around a text that is stripped already.\<close>

definition stripped :: "string \<Rightarrow> bool" where
  "stripped s = (s = [] \<or> \<not> is_ws (hd s) \<and> \<not> is_ws (last s))"

lemma rstrip_last: "s \<noteq> [] \<Longrightarrow> \<not> is_ws (last s) \<Longrightarrow> rstrip s = s"
  by (cases s rule: rev_cases) (simp_all add: rstrip_def)

lemma rstrip_ws: "\<forall>c \<in> set w. is_ws c \<Longrightarrow> rstrip (s @ w) = rstrip s"
  by (induction w rule: rev_induct) (simp_all add: rstrip_def)

lemma stripped_strip: "stripped s \<Longrightarrow> strip s = s"
  by (cases "s = []") (simp_all add: stripped_def strip_def lstrip_fix [THEN iffD2] rstrip_last, simp add: rstrip_def lstrip_def)

lemma strip_around: "stripped s \<Longrightarrow> \<forall>c \<in> set a. is_ws c \<Longrightarrow> \<forall>c \<in> set b. is_ws c \<Longrightarrow> strip (a @ s @ b) = s"
proof -
  assume s: "stripped s" and a: "\<forall>c \<in> set a. is_ws c" and b: "\<forall>c \<in> set b. is_ws c"
  have "lstrip (a @ s @ b) = (if s = [] then [] else s @ b)"
    using s a b by (cases s) (auto simp: lstrip_def stripped_def dropWhile_append2)
  moreover have "rstrip s = s" using s by (cases "s = []") (simp_all add: stripped_def rstrip_last, simp add: rstrip_def)
  ultimately show "strip (a @ s @ b) = s" using b by (simp add: strip_def rstrip_ws) (simp add: rstrip_def)
qed

lemma is_ws_simps [simp]: "is_ws CHR 0x0A" "is_ws CHR '' ''" "is_ws CHR 0x09" "\<not> is_ws CHR ''[''" "\<not> is_ws CHR '']''" "\<not> is_ws CHR ''=''"
  by (simp_all add: is_ws_def)

subsection \<open>What the reader does with the lines of the writer\<close>

definition key_ok :: "string \<Rightarrow> bool" where
  "key_ok k = (k \<noteq> [] \<and> stripped k \<and> lower k = k \<and> clean True k \<and> hd k \<noteq> CHR ''['' \<and> set k \<inter> {CHR ''='', CHR '':'', CHR 0x0A, CHR 0x0D} = {})"

definition value_ok :: "string \<Rightarrow> bool" where
  "value_ok v = (rstrip v = v \<and> CHR 0x0D \<notin> set v \<and> (\<forall>l \<in> set (split_on (CHR 0x0A) v). stripped l \<and> clean True l))"

definition name_ok :: "string \<Rightarrow> bool" where
  "name_ok s = (s \<noteq> [] \<and> clean False s \<and> set s \<inter> {CHR 0x0A, CHR 0x0D} = {})"

lemma ini_blank: "ini_line newline r = Inr (case (ir_section r, ir_option r) of (Some sec, Some opt) \<Rightarrow> append_line sec opt [] r | _ \<Rightarrow> r)"
proof -
  have "comment_start newline = None" "line_value newline = []"
    using clean_comment [of newline] by (simp_all add: line_value_def) (simp add: strip_def lstrip_def rstrip_def)
  then show ?thesis by (simp add: ini_line_def split: option.splits)
qed

lemma ini_header:
  assumes s: "name_ok s" and r: "ir_indent r = 0"
  shows "ini_line (''['' @ s @ '']'' @ newline) r = enter_section s r"
proof -
  have st: "stripped (''['' @ s @ '']'')" by (simp add: stripped_def)
  have "clean True (''['' @ s @ '']'' @ newline)" using s by (auto simp: clean_append name_ok_def)
  then have v: "line_value (''['' @ s @ '']'' @ newline) = ''['' @ s @ '']''"
    using clean_value strip_around [OF st, of "[]" newline] by simp
  have "section_name (''['' @ s @ '']'') = Some s" using s by (simp add: section_name_def startswith_def name_ok_def)
  moreover have "r\<lparr>ir_indent := 0\<rparr> = r" using r by simp
  note this [simp]
  ultimately show ?thesis using r unfolding ini_line_def Let_def v by (simp split: option.splits)
qed

lemma option_line_split:
  assumes k: "key_ok k" and l: "stripped l" "clean True l"
  shows "line_value (k @ '' = '' @ l @ newline) \<noteq> [] \<and> section_name (line_value (k @ '' = '' @ l @ newline)) = None \<and>
    option_split (line_value (k @ '' = '' @ l @ newline)) = Some (k, l)"
proof -
  obtain c cs where kc: "k = c # cs" "c \<noteq> CHR ''[''" "\<not> is_ws c" using k by (cases k) (auto simp: key_ok_def stripped_def)
  have cl: "clean True (k @ '' = '' @ l @ newline)" using k l by (auto simp: clean_append key_ok_def)
  have free: "\<And>c. c \<in> set k \<Longrightarrow> c \<noteq> CHR ''='' \<and> c \<noteq> CHR '':''" using k by (auto simp: key_ok_def)
  have name: "takeWhile (\<lambda>c. c \<notin> {CHR ''='', CHR '':''}) (k @ '' ='' @ x) = k @ '' ''"
    "dropWhile (\<lambda>c. c \<notin> {CHR ''='', CHR '':''}) (k @ '' ='' @ x) = ''='' @ x" for x
    using free by (simp_all add: takeWhile_append2 dropWhile_append2)
  have ks: "rstrip (k @ '' '') = k" "lower k = k" "k \<noteq> []"
    using k rstrip_ws [of "'' ''" k] rstrip_last [of k] by (auto simp: key_ok_def stripped_def)
  obtain x where v: "strip (k @ '' = '' @ l @ newline) = k @ '' ='' @ x" "strip x = l"
  proof (cases "l = []")
    case True
    have "stripped (k @ '' ='')" using kc by (simp add: stripped_def)
    then have "strip (k @ '' = '' @ l @ newline) = k @ '' ='' @ []" using strip_around [of "k @ '' =''" "[]" "'' '' @ newline"] True by simp
    then show thesis using that [of "[]"] True by (simp add: strip_def lstrip_def rstrip_def)
  next
    case False
    then have "stripped (k @ '' = '' @ l)" using kc l by (simp add: stripped_def)
    then have "strip (k @ '' = '' @ l @ newline) = k @ '' ='' @ ('' '' @ l)" using strip_around [of "k @ '' = '' @ l" "[]" newline] by simp
    then show thesis using that [of "'' '' @ l"] strip_around [OF l(1), of "'' ''" "[]"] by simp
  qed
  have "option_split (k @ '' ='' @ x) = Some (k, l)"
    unfolding option_split_def Let_def name using ks v(2) by simp
  then show ?thesis unfolding clean_value [OF cl] v(1) using kc by (simp add: section_name_def startswith_def)
qed

lemma ini_option:
  assumes k: "key_ok k" and l: "stripped l" "clean True l" and r: "ir_indent r = 0" "ir_section r = Some sec"
  shows "ini_line (k @ '' = '' @ l @ newline) r = enter_option sec (line_value (k @ '' = '' @ l @ newline)) r"
proof -
  have i: "takeWhile is_ws (k @ '' = '' @ l @ newline) = []" using k by (cases k) (auto simp: key_ok_def stripped_def)
  have "r\<lparr>ir_indent := 0\<rparr> = r" using r by simp
  note this [simp]
  show ?thesis using option_line_split [OF k l] r unfolding ini_line_def Let_def i by (simp split: option.splits)
qed

lemma ini_continuation:
  assumes l: "stripped l" "clean True l" and r: "ir_indent r = 0" "ir_section r = Some sec" "ir_option r = Some opt"
  shows "ini_line (CHR 0x09 # l @ newline) r = Inr (append_line sec opt l r)"
proof -
  have "clean True (CHR 0x09 # l @ newline)" using l by (simp add: clean_append)
  then have v: "line_value (CHR 0x09 # l @ newline) = l" "comment_start (CHR 0x09 # l @ newline) = None"
    using clean_value clean_comment strip_around [OF l(1), of "[CHR 0x09]" newline] by simp_all
  show ?thesis using r unfolding ini_line_def Let_def v by (cases "l = []") simp_all
qed

subsection \<open>Reading back what was written\<close>

definition option_lines :: "string \<times> string \<Rightarrow> string list" where
  "option_lines kv = (case split_on (CHR 0x0A) (snd kv) of [] \<Rightarrow> []
     | l # ls \<Rightarrow> (fst kv @ '' = '' @ l @ newline) # map (\<lambda>l. CHR 0x09 # l @ newline) ls)"

lemma raw_continuations:
  "CHR 0x0A \<notin> set a \<Longrightarrow> raw_lines (a @ concat (map (\<lambda>c. if c = CHR 0x0A then [CHR 0x0A, CHR 0x09] else [c]) v) @ CHR 0x0A # b) =
     (a @ hd (split_on (CHR 0x0A) v) @ newline) # map (\<lambda>l. CHR 0x09 # l @ newline) (tl (split_on (CHR 0x0A) v)) @ raw_lines b"
proof (induction v arbitrary: a)
  case Nil
  then show ?case by (simp add: raw_lines_line)
next
  case (Cons c v)
  obtain l ls where s: "split_on (CHR 0x0A) v = l # ls" by (cases "split_on (CHR 0x0A) v") simp_all
  show ?case
  proof (cases "c = CHR 0x0A")
    case True
    then show ?thesis using Cons.IH [of "[CHR 0x09]"] Cons.prems s raw_lines_line [of a] by simp
  next
    case False
    then show ?thesis using Cons.IH [of "a @ [c]"] Cons.prems s by simp
  qed
qed

lemma raw_option_line: "CHR 0x0A \<notin> set (fst kv) \<Longrightarrow> raw_lines (option_line kv @ b) = option_lines kv @ raw_lines b"
  using raw_continuations [of "fst kv @ '' = ''" "snd kv" b]
  by (cases "split_on (CHR 0x0A) (snd kv)") (simp_all add: option_line_def option_lines_def)

lemma options_with [simp]:
  "options_of sec (with_options sec os r) = os" "with_options sec os (with_options sec os' r) = with_options sec os r"
  "ir_section (with_options sec os r) = ir_section r" "ir_option (with_options sec os r) = ir_option r"
  "ir_indent (with_options sec os r) = ir_indent r" "ir_added (with_options sec os r) = ir_added r"
  by (simp_all add: options_of_def with_options_def)

lemma with_options_record [simp]:
  "with_options sec os (r\<lparr>ir_option := x\<rparr>) = (with_options sec os r)\<lparr>ir_option := x\<rparr>"
  "with_options sec os (r\<lparr>ir_added := y\<rparr>) = (with_options sec os r)\<lparr>ir_added := y\<rparr>"
  "options_of sec (r\<lparr>ir_option := x\<rparr>) = options_of sec r" "options_of sec (r\<lparr>ir_added := y\<rparr>) = options_of sec r"
  by (simp_all add: options_of_def with_options_def)

lemma dset_same: "dget d k = Some v \<Longrightarrow> dset k v d = d"
  by (induction d) (auto split: if_splits)

lemma with_same: "options_of sec r \<noteq> [] \<Longrightarrow> with_options sec (options_of sec r) r = r"
  by (auto simp: options_of_def with_options_def dset_same split: option.splits)

lemma dset_last: "k \<notin> set (dkeys Q) \<Longrightarrow> dset k v (Q @ [(k, a)]) = Q @ [(k, v)]"
  by (induction Q) auto

lemma dget_last: "k \<notin> set (dkeys Q) \<Longrightarrow> dget (Q @ [(k, a)]) k = Some a"
  by (induction Q) auto

lemma continuations_run:
  assumes "\<forall>l \<in> set ls. stripped l \<and> clean True l" "ir_indent r = 0" "ir_section r = Some sec" "ir_option r = Some opt"
    "options_of sec r = Q @ [(opt, a)]" "opt \<notin> set (dkeys Q)"
  shows "fold_r ini_line (map (\<lambda>l. CHR 0x09 # l @ newline) ls) r = Inr (with_options sec (Q @ [(opt, a @ ls)]) r)"
  using assms
proof (induction ls arbitrary: r a)
  case Nil
  then show ?case using with_same [of sec r] by simp
next
  case (Cons l ls)
  have app: "append_line sec opt l r = with_options sec (Q @ [(opt, a @ [l])]) r"
    unfolding append_line_def Cons.prems(5) dget_last [OF Cons.prems(6)] by (simp add: dset_last [OF Cons.prems(6)])
  have "ini_line (CHR 0x09 # l @ newline) r = Inr (append_line sec opt l r)" using Cons.prems by (intro ini_continuation) simp_all
  then show ?case using Cons.IH [of "append_line sec opt l r" "a @ [l]"] Cons.prems by (simp add: app)
qed

lemma fold_r_append: "fold_r f (xs @ ys) s = bind_r (fold_r f xs s) (fold_r f ys)"
  by (induction xs arbitrary: s) (auto simp: bind_r_def split: sum.splits)

definition lines_of :: "options \<Rightarrow> (string, string list) dict" where
  "lines_of os = map (\<lambda>(k, v). (k, split_on (CHR 0x0A) v)) os"

lemma option_run:
  assumes k: "key_ok k" and v: "value_ok v" and r: "ir_indent r = 0" "ir_section r = Some sec"
    and new: "k \<notin> set (dkeys (options_of sec r))" "(sec, k) \<notin> set (ir_added r)"
  shows "fold_r ini_line (option_lines (k, v)) r = Inr ((with_options sec (options_of sec r @ lines_of [(k, v)]) r)
    \<lparr>ir_option := Some k, ir_added := (sec, k) # ir_added r\<rparr>)"
proof -
  obtain l ls where s: "split_on (CHR 0x0A) v = l # ls" by (cases "split_on (CHR 0x0A) v") simp_all
  have ok: "stripped l" "clean True l" "\<forall>l \<in> set ls. stripped l \<and> clean True l" using v s by (simp_all add: value_ok_def)
  let ?r = "(with_options sec (options_of sec r @ [(k, [l])]) r)\<lparr>ir_option := Some k, ir_added := (sec, k) # ir_added r\<rparr>"
  have "ini_line (k @ '' = '' @ l @ newline) r = Inr ?r"
    using ini_option [OF k ok(1,2) r] option_line_split [OF k ok(1,2)] new by (simp add: enter_option_def dset_fresh)
  moreover have "fold_r ini_line (map (\<lambda>l. CHR 0x09 # l @ newline) ls) ?r = Inr (with_options sec (options_of sec r @ [(k, [l] @ ls)]) ?r)"
    by (rule continuations_run) (use ok r new in simp_all)
  ultimately show ?thesis using s by (simp add: option_lines_def lines_of_def)
qed

definition options_ok :: "options \<Rightarrow> bool" where
  "options_ok os = (distinct (dkeys os) \<and> (\<forall>(k, v) \<in> set os. key_ok k \<and> value_ok v))"

lemma options_run:
  assumes "options_ok os" "ir_indent r = 0" "ir_section r = Some sec" "os \<noteq> []"
    "\<forall>k \<in> set (dkeys os). k \<notin> set (dkeys (options_of sec r)) \<and> (sec, k) \<notin> set (ir_added r)"
  shows "fold_r ini_line (concat (map option_lines os)) r = Inr ((with_options sec (options_of sec r @ lines_of os) r)
    \<lparr>ir_option := Some (fst (last os)), ir_added := rev (map (Pair sec) (dkeys os)) @ ir_added r\<rparr>)"
  using assms
proof (induction os arbitrary: r)
  case (Cons kv os)
  obtain k v where kv: "kv = (k, v)" by (cases kv)
  let ?r = "(with_options sec (options_of sec r @ lines_of [(k, v)]) r)\<lparr>ir_option := Some k, ir_added := (sec, k) # ir_added r\<rparr>"
  have one: "fold_r ini_line (option_lines (k, v)) r = Inr ?r"
    by (rule option_run) (use Cons.prems kv in \<open>auto simp: options_ok_def\<close>)
  show ?case
  proof (cases "os = []")
    case True
    then show ?thesis using one kv by simp
  next
    case False
    have "fold_r ini_line (concat (map option_lines os)) ?r = Inr ((with_options sec (options_of sec ?r @ lines_of os) ?r)
      \<lparr>ir_option := Some (fst (last os)), ir_added := rev (map (Pair sec) (dkeys os)) @ ir_added ?r\<rparr>)"
      by (rule Cons.IH) (use Cons.prems kv False in \<open>auto simp: options_ok_def lines_of_def\<close>)
    then show ?thesis using one kv False by (simp add: fold_r_append lines_of_def)
  qed
qed simp

lemma join_snoc: "ls \<noteq> [] \<Longrightarrow> join sep (ls @ [x]) = join sep ls @ sep @ x"
  by (induction sep ls rule: join.induct) auto

lemma joined_lines [simp]: "options_ok os \<Longrightarrow> joined (lines_of os) = os"
  by (auto simp: joined_def lines_of_def join_split options_ok_def value_ok_def intro!: map_idI)

lemma joined_blank: "os \<noteq> [] \<Longrightarrow> options_ok os \<Longrightarrow>
  joined (dset (fst (last os)) (split_on (CHR 0x0A) (snd (last os)) @ [[]]) (lines_of os)) = os"
proof (cases os rule: rev_cases)
  case (snoc ys y)
  assume ok: "options_ok os"
  have "dset (fst y) (split_on (CHR 0x0A) (snd y) @ [[]]) (lines_of ys @ [(fst y, split_on (CHR 0x0A) (snd y))]) =
      lines_of ys @ [(fst y, split_on (CHR 0x0A) (snd y) @ [[]])]"
    by (rule dset_last) (use ok snoc in \<open>force simp: options_ok_def lines_of_def\<close>)
  moreover have "options_ok ys" "rstrip (snd y) = snd y" using ok snoc by (auto simp: options_ok_def value_ok_def)
  ultimately show ?thesis using snoc joined_lines [of ys] rstrip_ws [of newline "snd y"] join_split
    by (simp add: joined_def lines_of_def join_snoc case_prod_beta)
qed simp

text \<open>One section.\<close>

definition section_lines :: "string \<Rightarrow> options \<Rightarrow> string list" where
  "section_lines sec os = (''['' @ sec @ '']'' @ newline) # concat (map option_lines os) @ [newline]"

definition set_section :: "string \<Rightarrow> options \<Rightarrow> config \<Rightarrow> config" where
  "set_section sec os c = (if sec = default_name then c\<lparr>defaults := os\<rparr> else c\<lparr>sections := sections c @ [(sec, os)]\<rparr>)"

lemma config_of_with:
  "config_of (with_options sec os r) = (if sec = default_name then (config_of r)\<lparr>defaults := joined os\<rparr>
     else (config_of r)\<lparr>sections := dset sec (joined os) (sections (config_of r))\<rparr>)"
proof -
  have "map (\<lambda>(s, os). (s, joined os)) (dset sec os d) = dset sec (joined os) (map (\<lambda>(s, os). (s, joined os)) d)" for d
    by (induction d) auto
  then show ?thesis by (simp add: config_of_def with_options_def)
qed

lemma config_of_record [simp]:
  "config_of (r\<lparr>ir_option := x\<rparr>) = config_of r" "config_of (r\<lparr>ir_added := y\<rparr>) = config_of r"
  "config_of (r\<lparr>ir_section := z\<rparr>) = config_of r" "config_of (r\<lparr>ir_indent := i\<rparr>) = config_of r"
  by (simp_all add: config_of_def)

lemma section_run:
  assumes os: "options_ok os" and s: "name_ok sec" and r: "ir_indent r = 0"
    and new: "sec \<notin> set (dkeys (ir_sections r))" "\<forall>k. (sec, k) \<notin> set (ir_added r)" "sec = default_name \<Longrightarrow> ir_defaults r = []"
  shows "\<exists>r'. fold_r ini_line (section_lines sec os) r = Inr r' \<and> config_of r' = set_section sec os (config_of r) \<and>
    ir_indent r' = 0 \<and> fst ` set (ir_added r') \<subseteq> insert sec (fst ` set (ir_added r))"
proof -
  define r1 where "r1 = (if sec = default_name then r else r\<lparr>ir_sections := dset sec [] (ir_sections r)\<rparr>)\<lparr>ir_section := Some sec, ir_option := None\<rparr>"
  have "fold_r ini_line [''['' @ sec @ '']'' @ newline] r = Inr r1"
    using ini_header [OF s r] new(1) by (simp add: enter_section_def r1_def has_key_iff)
  then have start: "fold_r ini_line (section_lines sec os) r = fold_r ini_line (concat (map option_lines os) @ [newline]) r1"
    by (auto simp: section_lines_def bind_r_def split: sum.splits)
  have r1: "ir_indent r1 = 0" "ir_section r1 = Some sec" "options_of sec r1 = []" "ir_added r1 = ir_added r" "ir_option r1 = None"
    using r new by (auto simp: r1_def options_of_def)
  have c1: "config_of r1 = set_section sec [] (config_of r)"
    using new by (auto simp: r1_def set_section_def config_of_def dset_fresh joined_def)
  have upd: "config_of (with_options sec x r1) = set_section sec (joined x) (config_of r)" for x
  proof -
    have "sec \<notin> set (dkeys (sections (config_of r)))" using new(1) by (force simp: config_of_def)
    then show ?thesis by (simp add: config_of_with c1 set_section_def dset_last)
  qed
  show ?thesis
  proof (cases "os = []")
    case True
    then show ?thesis using start ini_blank [of r1] r1 c1 by (simp add: subset_insertI)
  next
    case False
    let ?r2 = "(with_options sec (lines_of os) r1)\<lparr>ir_option := Some (fst (last os)), ir_added := rev (map (Pair sec) (dkeys os)) @ ir_added r1\<rparr>"
    have o: "fold_r ini_line (concat (map option_lines os)) r1 = Inr ?r2"
      using options_run [OF os r1(1,2) False] r1 new by simp
    obtain ys y where ys: "os = ys @ [y]" using False by (cases os rule: rev_cases) simp_all
    have "fst y \<notin> set (dkeys (lines_of ys))" using os ys by (force simp: options_ok_def lines_of_def)
    then have "dget (lines_of os) (fst (last os)) = Some (split_on (CHR 0x0A) (snd (last os)))"
      using dget_last [of "fst y" "lines_of ys" "split_on (CHR 0x0A) (snd y)"] ys by (simp add: lines_of_def case_prod_beta)
    then have b: "append_line sec (fst (last os)) [] ?r2 =
        (with_options sec (dset (fst (last os)) (split_on (CHR 0x0A) (snd (last os)) @ [[]]) (lines_of os)) r1)
          \<lparr>ir_option := Some (fst (last os)), ir_added := rev (map (Pair sec) (dkeys os)) @ ir_added r1\<rparr>"
      by (simp add: append_line_def)
    have "fold_r ini_line (concat (map option_lines os) @ [newline]) r1 = Inr (append_line sec (fst (last os)) [] ?r2)"
      using ini_blank [of ?r2] r1 by (simp add: fold_r_append o)
    then show ?thesis using start b upd joined_blank [OF False os] r1 by auto
  qed
qed

text \<open>A whole configuration, below a header of comments.\<close>

definition opens_section :: "string \<Rightarrow> bool" where
  "opens_section line = (startswith (lstrip line) ''['' \<and> CHR '']'' \<in> set (lstrip line))"

definition header_ok :: "string \<Rightarrow> bool" where
  "header_ok h = ((h = [] \<or> last h = CHR 0x0A) \<and> CHR 0x0D \<notin> set h \<and> (\<forall>l \<in> set (raw_lines h). line_value l = [] \<and> \<not> opens_section l))"

definition ini_ok :: "config \<Rightarrow> bool" where
  "ini_ok c = (options_ok (defaults c) \<and> default_name \<notin> set (dkeys (sections c)) \<and> dict_ok (\<lambda>s os. name_ok s \<and> options_ok os) (sections c))"

lemma raw_options:
  "options_ok os \<Longrightarrow> raw_lines (concat (map option_line os) @ b) = concat (map option_lines os) @ raw_lines b"
  by (induction os) (auto simp: raw_option_line options_ok_def key_ok_def)

lemma raw_section: "name_ok s \<Longrightarrow> options_ok os \<Longrightarrow> raw_lines (section_text s os @ b) = section_lines s os @ raw_lines b"
  using raw_lines_line [of "''['' @ s @ '']''" "concat (map option_line os) @ newline @ b"] raw_options [of os "newline @ b"]
  by (simp add: section_text_def section_lines_def name_ok_def)

lemma sections_run:
  assumes "distinct (dkeys ss)" "\<forall>(s, os) \<in> set ss. name_ok s \<and> options_ok os" "default_name \<notin> set (dkeys ss)" "ir_indent r = 0"
    "\<forall>s \<in> set (dkeys ss). s \<notin> set (dkeys (sections (config_of r))) \<and> s \<notin> fst ` set (ir_added r)"
  shows "\<exists>r'. fold_r ini_line (concat (map (\<lambda>(s, os). section_lines s os) ss)) r = Inr r' \<and>
    config_of r' = (config_of r)\<lparr>sections := sections (config_of r) @ ss\<rparr>"
  using assms
proof (induction ss arbitrary: r)
  case (Cons so ss)
  obtain s os where so: "so = (s, os)" by (cases so)
  have ok: "options_ok os" "name_ok s" "s \<noteq> default_name" using Cons.prems so by auto
  have "set (dkeys (sections (config_of r))) = set (dkeys (ir_sections r))" by (force simp: config_of_def)
  then have new: "s \<notin> set (dkeys (ir_sections r))" "\<forall>k. (s, k) \<notin> set (ir_added r)" using Cons.prems(5) so by (auto simp: image_iff)
  obtain r1 where r1: "fold_r ini_line (section_lines s os) r = Inr r1" "config_of r1 = set_section s os (config_of r)"
    "ir_indent r1 = 0" "fst ` set (ir_added r1) \<subseteq> insert s (fst ` set (ir_added r))"
    using section_run [OF ok(1,2) Cons.prems(4) new] ok(3) by blast
  have "\<forall>t \<in> set (dkeys ss). t \<notin> set (dkeys (sections (config_of r1))) \<and> t \<notin> fst ` set (ir_added r1)"
  proof
    fix t assume t: "t \<in> set (dkeys ss)"
    then have "t \<noteq> s" "t \<notin> set (dkeys (sections (config_of r)))" "t \<notin> fst ` set (ir_added r)" using Cons.prems(1,5) so by auto
    then show "t \<notin> set (dkeys (sections (config_of r1))) \<and> t \<notin> fst ` set (ir_added r1)"
      using r1(2) subsetD [OF r1(4), of t] ok(3) by (simp add: set_section_def, blast)
  qed
  then obtain r' where "fold_r ini_line (concat (map (\<lambda>(s, os). section_lines s os) ss)) r1 = Inr r'"
    "config_of r' = (config_of r1)\<lparr>sections := sections (config_of r1) @ ss\<rparr>"
    using Cons.IH [of r1] Cons.prems r1(3) by auto
  then show ?case using so r1 ok(3) by (simp add: fold_r_append set_section_def)
qed simp

lemma header_run: "header_ok h \<Longrightarrow> ir_option r = None \<Longrightarrow> fold_r ini_line (raw_lines h) r = Inr r"
  by (rule fold_r_id) (auto simp: header_ok_def ini_line_def split: option.splits)

lemma name_ok_default: "name_ok default_name"
  by (simp add: name_ok_def default_name_def is_ws_def)

lemma no_cr: "ini_ok c \<Longrightarrow> CHR 0x0D \<notin> set (print_ini c)"
proof -
  assume ok: "ini_ok c"
  have o: "CHR 0x0D \<notin> set (option_line (k, v))" if "key_ok k" "value_ok v" for k v
    using that by (auto simp: option_line_def key_ok_def value_ok_def split: if_splits)
  have s: "CHR 0x0D \<notin> set (section_text s os)" if "name_ok s" "options_ok os" for s os
  proof -
    have "\<forall>kv \<in> set os. CHR 0x0D \<notin> set (option_line kv)" using o that(2) by (auto simp: options_ok_def)
    then show ?thesis using that(1) by (auto simp: section_text_def name_ok_def)
  qed
  have "\<forall>so \<in> set (sections c). CHR 0x0D \<notin> set (section_text (fst so) (snd so))" using ok s by (auto simp: ini_ok_def dict_ok_def)
  moreover have "CHR 0x0D \<notin> set (section_text default_name (defaults c))" using ok s name_ok_default by (simp add: ini_ok_def)
  ultimately show ?thesis by (auto simp: print_ini_def)
qed

lemma raw_sections: "\<forall>(s, os) \<in> set ss. name_ok s \<and> options_ok os \<Longrightarrow>
  raw_lines (concat (map (\<lambda>(s, os). section_text s os) ss)) = concat (map (\<lambda>(s, os). section_lines s os) ss)"
  by (induction ss) (auto simp: raw_section)

lemma raw_print: "ini_ok c \<Longrightarrow> raw_lines (print_ini c) = (if defaults c = [] then [] else section_lines default_name (defaults c))
    @ concat (map (\<lambda>(s, os). section_lines s os) (sections c))"
  using raw_sections [of "sections c"] name_ok_default by (auto simp: print_ini_def raw_section ini_ok_def dict_ok_def)

lemma config_eqI: "defaults a = defaults b \<Longrightarrow> sections a = sections b \<Longrightarrow> (a :: config) = b"
  by (cases a; cases b) simp

lemma parse_print:
  assumes c: "ini_ok c" and h: "header_ok h"
  shows "parse_ini (h @ print_ini c) = Inr c"
proof -
  have u: "universal_newlines (h @ print_ini c) = h @ print_ini c"
    using no_cr [OF c] h by (intro universal_newlines_plain) (simp add: header_ok_def)
  have r: "raw_lines (h @ print_ini c) = raw_lines h @ raw_lines (print_ini c)"
    using h by (intro raw_lines_append) (simp add: header_ok_def)
  have e: "config_of empty_reader = \<lparr>defaults = [], sections = []\<rparr>" by (simp add: config_of_def empty_reader_def joined_def)
  obtain r1 where r1: "fold_r ini_line (if defaults c = [] then [] else section_lines default_name (defaults c)) empty_reader = Inr r1"
    "config_of r1 = \<lparr>defaults = defaults c, sections = []\<rparr>" "ir_indent r1 = 0" "fst ` set (ir_added r1) \<subseteq> {default_name}"
  proof (cases "defaults c = []")
    case True
    then show thesis using that [of empty_reader] e by (simp add: empty_reader_def)
  next
    case False
    have "options_ok (defaults c)" using c by (simp add: ini_ok_def)
    then show thesis using False that e section_run [of "defaults c" default_name empty_reader] name_ok_default
      by (auto simp: empty_reader_def set_section_def)
  qed
  have "\<exists>r'. fold_r ini_line (concat (map (\<lambda>(s, os). section_lines s os) (sections c))) r1 = Inr r' \<and>
    config_of r' = (config_of r1)\<lparr>sections := sections (config_of r1) @ sections c\<rparr>"
  proof (rule sections_run)
    show "\<forall>s \<in> set (dkeys (sections c)). s \<notin> set (dkeys (sections (config_of r1))) \<and> s \<notin> fst ` set (ir_added r1)"
    proof
      fix s assume s: "s \<in> set (dkeys (sections c))"
      then have "s \<noteq> default_name" using c unfolding ini_ok_def by metis
      then have "s \<notin> fst ` set (ir_added r1)" using r1(4) by blast
      then show "s \<notin> set (dkeys (sections (config_of r1))) \<and> s \<notin> fst ` set (ir_added r1)" using r1(2) by simp
    qed
  qed (use c r1 in \<open>auto simp: ini_ok_def dict_ok_def\<close>)
  then obtain r' where r': "fold_r ini_line (concat (map (\<lambda>(s, os). section_lines s os) (sections c))) r1 = Inr r'" "config_of r' = c"
    using r1(2) by (auto intro: config_eqI)
  have "fold_r ini_line (raw_lines h) empty_reader = Inr empty_reader" by (rule header_run [OF h]) (simp add: empty_reader_def)
  then show ?thesis unfolding parse_ini_def u r raw_print [OF c] using r1(1) r' by (simp add: fold_r_append)
qed

text \<open>The header of a file that can be read consists of comments and blank lines.\<close>

definition header_of :: "string \<Rightarrow> string" where
  "header_of text = concat (takeWhile (\<lambda>l. \<not> opens_section l) (raw_lines (universal_newlines text)))"

lemma raw_lines_prefix: "raw_lines u = xs @ ys \<Longrightarrow> raw_lines (concat xs) = xs"
proof (induction u arbitrary: xs)
  case (Cons c u)
  show ?case
  proof (cases xs)
    case (Cons x xs')
    note x = this
    show ?thesis
    proof (cases "c = CHR 0x0A \<or> raw_lines u = []")
      case True
      then have "c = CHR 0x0A \<and> x = [c] \<and> raw_lines u = xs' @ ys \<or> c \<noteq> CHR 0x0A \<and> x = [c] \<and> xs' = []"
        using Cons.prems x by (auto split: if_splits)
      then show ?thesis using Cons.IH [of xs'] x by auto
    next
      case False
      then obtain l ls where l: "raw_lines u = l # ls" by (cases "raw_lines u") auto
      then have "x = c # l" "ls = xs' @ ys" using Cons.prems x False by auto
      then show ?thesis using Cons.IH [of "l # xs'"] l x False by simp
    qed
  qed simp
qed simp

lemma lstrip_prefix: "\<forall>c \<in> set w. is_ws c \<Longrightarrow> \<not> is_ws d \<Longrightarrow> t = w @ d # x \<Longrightarrow> lstrip t = d # x"
  by (simp add: lstrip_def dropWhile_append2)

lemma section_opens: "section_name (line_value l) = Some s \<Longrightarrow> opens_section l"
proof -
  assume a: "section_name (line_value l) = Some s"
  obtain k where k: "line_value l = strip (take k l)"
    by (cases "comment_start l") (simp_all add: line_value_def, metis order_refl take_all)
  obtain rest where r: "line_value l = CHR ''['' # rest" "CHR '']'' \<in> set rest"
  proof -
    obtain rest where rest: "line_value l = CHR ''['' # rest" using a
      by (cases "line_value l") (auto simp: section_name_def startswith_def split: if_splits)
    have "dropWhile (\<lambda>c. c \<noteq> CHR '']'') (rev rest) \<noteq> []"
    proof
      assume e: "dropWhile (\<lambda>c. c \<noteq> CHR '']'') (rev rest) = []"
      have "section_name (line_value l) = None" unfolding section_name_def rest list.sel(3) e by simp
      then show False using a by simp
    qed
    then have "CHR '']'' \<in> set rest" unfolding dropWhile_eq_Nil_conv by auto
    then show thesis using that rest by blast
  qed
  have sub: "\<exists>b. t = takeWhile is_ws t @ strip t @ b" for t
  proof -
    have "lstrip t = rstrip (lstrip t) @ rev (takeWhile is_ws (rev (lstrip t)))"
      by (metis rev_append rev_rev_ident rstrip_def takeWhile_dropWhile_id)
    then show ?thesis by (metis lstrip_def strip_def takeWhile_dropWhile_id)
  qed
  obtain b where b: "take k l = takeWhile is_ws (take k l) @ strip (take k l) @ b" using sub by blast
  define w where "w = takeWhile is_ws (take k l)"
  have w: "\<forall>c \<in> set w. is_ws c" by (auto simp: w_def dest: set_takeWhileD)
  have "l = w @ CHR ''['' # rest @ b @ drop k l"
  proof -
    have "take k l = w @ (CHR ''['' # rest) @ b" using b unfolding w_def [symmetric] k [symmetric] r(1) .
    then show ?thesis using append_take_drop_id [of k l] by simp
  qed
  then have "lstrip l = CHR ''['' # rest @ b @ drop k l"
    by (rule lstrip_prefix [OF w is_ws_simps(4)])
  then show ?thesis using r(2) by (simp add: opens_section_def startswith_def)
qed

lemma header_lines_empty:
  "fold_r ini_line ls r = Inr r' \<Longrightarrow> ir_section r = None \<Longrightarrow> l \<in> set (takeWhile (\<lambda>l. \<not> opens_section l) ls) \<Longrightarrow> line_value l = []"
proof (induction ls)
  case (Cons x ls)
  have nx: "\<not> opens_section x" using Cons.prems(3) by (auto split: if_splits)
  then have ns: "section_name (line_value x) = None" using section_opens by fastforce
  obtain r1 where r1: "ini_line x r = Inr r1" "fold_r ini_line ls r1 = Inr r'"
    using Cons.prems(1) by (auto simp: bind_r_def split: sum.splits)
  have "line_value x = []"
  proof (rule ccontr)
    assume "line_value x \<noteq> []"
    then have "ini_line x r = Inl ConfigError" using ns Cons.prems(2) by (simp add: ini_line_def)
    then show False using r1 by simp
  qed
  moreover from this have "r1 = r" using r1(1) Cons.prems(2) by (simp add: ini_line_def split: option.splits)
  ultimately show ?case using Cons r1(2) nx by auto
qed simp

lemma header_of_ok:
  assumes "parse_ini t = Inr c" "header_of t = [] \<or> last (header_of t) = CHR 0x0A"
  shows "header_ok (header_of t)"
proof -
  let ?u = "universal_newlines t" and ?P = "\<lambda>l. \<not> opens_section l"
  have rl: "raw_lines (header_of t) = takeWhile ?P (raw_lines ?u)"
    unfolding header_of_def by (rule raw_lines_prefix [where ys = "dropWhile ?P (raw_lines ?u)"]) simp
  obtain r' where "fold_r ini_line (raw_lines ?u) empty_reader = Inr r'"
    using assms(1) by (auto simp: parse_ini_def bind_r_def split: sum.splits)
  then have "\<forall>l \<in> set (takeWhile ?P (raw_lines ?u)). line_value l = []"
    using header_lines_empty by (fastforce simp: empty_reader_def)
  moreover have "set (header_of t) \<subseteq> set ?u"
  proof -
    have "set (concat (takeWhile ?P (raw_lines ?u))) \<subseteq> set (concat (raw_lines ?u))"
      unfolding set_concat by (rule UN_mono) (auto dest: set_takeWhileD)
    then show ?thesis by (simp only: header_of_def concat_raw_lines)
  qed
  then have "CHR 0x0D \<notin> set (header_of t)" using universal_newlines_no_cr by blast
  ultimately show ?thesis using assms(2) rl by (auto simp: header_ok_def dest: set_takeWhileD)
qed

lemma header_kept:
  assumes c: "ini_ok c" and h: "header_ok h"
  shows "header_of (h @ print_ini c) = h"
proof -
  have u: "universal_newlines (h @ print_ini c) = h @ print_ini c"
    using no_cr [OF c] h by (intro universal_newlines_plain) (simp add: header_ok_def)
  have r: "raw_lines (h @ print_ini c) = raw_lines h @ raw_lines (print_ini c)"
    using h by (intro raw_lines_append) (simp add: header_ok_def)
  have o: "opens_section (''['' @ s @ '']'' @ newline)" for s
    by (simp add: opens_section_def lstrip_def startswith_def)
  have p: "raw_lines (print_ini c) = [] \<or> opens_section (hd (raw_lines (print_ini c)))"
    using o by (cases "sections c") (auto simp: raw_print [OF c] section_lines_def)
  have "takeWhile (\<lambda>l. \<not> opens_section l) (raw_lines h @ raw_lines (print_ini c)) = raw_lines h"
    using h p by (cases "raw_lines (print_ini c)") (auto simp: header_ok_def takeWhile_append2 takeWhile_tail takeWhile_eq_all_conv)
  then show ?thesis unfolding header_of_def u r by simp
qed

end
