(* ===== verification/Ini_Parsed.thy ===== *)
theory Ini_Parsed
  imports Ini_Text
begin

text \<open>
  What \<open>configparser\<close> has read it can write and read again, but for comment signs.  A value that starts
  with a comment sign right after its equals sign is read as it stands, and so is a sign that the search
  for inline comments passes over; both start a comment in the text that is written.
\<close>

subsection \<open>Configurations without comment signs at the start of a word\<close>

definition plain_options :: "options \<Rightarrow> bool" where
  "plain_options os = list_all (\<lambda>(k, v). clean True k \<and> \<not> startswith k ''['' \<and> list_all (clean True) (split_on (CHR 0x0A) v)) os"

definition no_comment_signs :: "config \<Rightarrow> bool" where
  "no_comment_signs c = (plain_options (defaults c) \<and> list_all (\<lambda>(s, os). clean False s \<and> plain_options os) (sections c))"

subsection \<open>Characters\<close>

lemma lower_char_cases: "lower_char c = c \<or> 65 \<le> (of_char c :: nat) \<and> of_char c \<le> (90 :: nat) \<and> of_char (lower_char c) = (of_char c + 32 :: nat)"
  by (auto simp: lower_char_def Let_def)

lemma lower_char_lower [simp]: "lower_char (lower_char c) = lower_char c"
proof (cases "lower_char c = c")
  case False
  then have "\<not> (of_char (lower_char c) \<le> (90 :: nat))" using lower_char_cases [of c] by linarith
  then show ?thesis unfolding lower_char_def [of "lower_char c"] Let_def by simp
qed simp

lemma lower_lower [simp]: "lower (lower s) = lower s"
  by (simp add: lower_def)

lemma lower_char_ws: "is_ws (lower_char c) \<longleftrightarrow> is_ws c"
  using lower_char_cases [of c] by (auto simp: is_ws_def Let_def)

lemma lower_char_sign: "d \<in> {CHR ''='', CHR '':'', CHR 0x0A, CHR 0x0D} \<Longrightarrow> lower_char c = d \<longleftrightarrow> c = d"
proof -
  assume d: "d \<in> {CHR ''='', CHR '':'', CHR 0x0A, CHR 0x0D}"
  have "of_char CHR ''='' = (61 :: nat)" "of_char CHR '':'' = (58 :: nat)" "of_char CHR 0x0A = (10 :: nat)" "of_char CHR 0x0D = (13 :: nat)"
    by code_simp+
  then have "of_char d < (65 :: nat)" using d by auto
  then show ?thesis using lower_char_cases [of c] lower_char_cases [of d] by auto
qed

subsection \<open>The pieces of a line\<close>

definition one_line :: "string \<Rightarrow> bool" where
  "one_line s = (set s \<inter> {CHR 0x0A, CHR 0x0D} = {})"

definition line_ok :: "string \<Rightarrow> bool" where
  "line_ok l = (CHR 0x0D \<notin> set l \<and> CHR 0x0A \<notin> set (butlast l))"

lemma raw_lines_ok: "CHR 0x0D \<notin> set t \<Longrightarrow> l \<in> set (raw_lines t) \<Longrightarrow> line_ok l"
proof (induction t arbitrary: l)
  case (Cons c t)
  show ?case
  proof (cases "c = CHR 0x0A")
    case True
    then show ?thesis using Cons by (auto simp: line_ok_def)
  next
    case False
    show ?thesis
    proof (cases "raw_lines t")
      case Nil
      then show ?thesis using False Cons.prems by (auto simp: line_ok_def)
    next
      case (Cons x xs)
      then have x: "line_ok x" "\<forall>y \<in> set xs. line_ok y" using Cons.IH Cons.prems(1) by auto
      then have "line_ok (c # x)" using False Cons.prems(1) by (cases x) (auto simp: line_ok_def)
      then show ?thesis using x Cons.prems(2) False Cons by auto
    qed
  qed
qed simp

lemma strip_infix: "\<exists>a b. s = a @ strip s @ b"
proof -
  have "lstrip s = rstrip (lstrip s) @ rev (takeWhile is_ws (rev (lstrip s)))"
    by (metis rev_append rev_rev_ident rstrip_def takeWhile_dropWhile_id)
  moreover have "s = takeWhile is_ws s @ lstrip s" by (simp add: lstrip_def)
  ultimately show ?thesis by (metis strip_def)
qed

lemma rstrip_ends: "rstrip s = [] \<or> \<not> is_ws (last (rstrip s))"
  using hd_dropWhile [of is_ws "rev s"] by (auto simp: rstrip_def last_rev)

lemma stripped_strip_it [simp]: "stripped (strip s)"
proof (cases "strip s = []")
  case False
  then have "hd (strip s) = hd (lstrip s)" "lstrip s \<noteq> []"
    using rstrip_hd [of "lstrip s"] by (auto simp: strip_def rstrip_def)
  then have "\<not> is_ws (hd (strip s))" using hd_dropWhile [of is_ws s] by (simp add: lstrip_def)
  then show ?thesis using rstrip_ends [of "lstrip s"] False by (simp add: stripped_def strip_def)
qed (simp add: stripped_def)

lemma strip_one_line: "CHR 0x0D \<notin> set s \<Longrightarrow> CHR 0x0A \<notin> set (butlast s) \<Longrightarrow> one_line (strip s)"
proof -
  assume s: "CHR 0x0D \<notin> set s" "CHR 0x0A \<notin> set (butlast s)"
  obtain a b where ab: "s = a @ strip s @ b" using strip_infix by blast
  have "CHR 0x0D \<notin> set (strip s)" using s(1) ab by (metis Un_iff set_append)
  moreover have "CHR 0x0A \<notin> set (strip s)"
  proof
    assume n: "CHR 0x0A \<in> set (strip s)"
    then obtain x y where xy: "strip s = x @ CHR 0x0A # y" by (meson split_list)
    have "y \<noteq> []" using stripped_strip_it [of s] xy by (auto simp: stripped_def)
    then have "CHR 0x0A \<in> set (butlast s)" using ab unfolding xy by (auto simp: butlast_append)
    then show False using s(2) by blast
  qed
  ultimately show ?thesis by (simp add: one_line_def)
qed

lemma line_value_ok: "line_ok l \<Longrightarrow> stripped (line_value l) \<and> one_line (line_value l)"
proof -
  assume l: "line_ok l"
  have "one_line (strip (take i l))" for i
  proof (rule strip_one_line)
    show "CHR 0x0D \<notin> set (take i l)" using l by (auto simp: line_ok_def dest: in_set_takeD)
    show "CHR 0x0A \<notin> set (butlast (take i l))" using l
      by (cases "i < length l") (auto simp: line_ok_def butlast_take in_set_conv_nth nth_butlast)
  qed
  from this [of "length l"] this show ?thesis by (auto simp: line_value_def split: option.splits)
qed

definition parsed_key :: "string \<Rightarrow> bool" where
  "parsed_key k = (k \<noteq> [] \<and> stripped k \<and> lower k = k \<and> set k \<inter> {CHR ''='', CHR '':'', CHR 0x0A, CHR 0x0D} = {})"

lemma rstrip_prefix: "\<exists>ws. s = rstrip s @ ws"
proof -
  have "s = rev (takeWhile is_ws (rev s) @ dropWhile is_ws (rev s))" by simp
  then have "s = rstrip s @ rev (takeWhile is_ws (rev s))" unfolding rev_append rstrip_def .
  then show ?thesis ..
qed

lemma parsed_name:
  assumes "stripped (n @ x)" "one_line n" "set n \<inter> {CHR ''='', CHR '':''} = {}" "rstrip n \<noteq> []"
  shows "parsed_key (lower (rstrip n))"
proof -
  obtain ws where n: "n = rstrip n @ ws" using rstrip_prefix by blast
  have "hd (n @ x) = hd (rstrip n)" using assms(4) n by (metis append_assoc hd_append2)
  moreover have "n @ x \<noteq> []" using assms(4) by (auto simp: rstrip_def)
  ultimately have "\<not> is_ws (hd (rstrip n))" using assms(1) unfolding stripped_def by metis
  then have s: "stripped (lower (rstrip n))" using assms(4) rstrip_ends [of n]
    by (simp add: stripped_def lower_def hd_map last_map lower_char_ws)
  have "set (rstrip n) \<subseteq> set n" using n by (metis Un_iff set_append subsetI)
  then have "c \<notin> {CHR ''='', CHR '':'', CHR 0x0A, CHR 0x0D}" if "c \<in> set (rstrip n)" for c
    using that assms(2,3) by (auto simp: one_line_def)
  then have "d \<notin> {CHR ''='', CHR '':'', CHR 0x0A, CHR 0x0D}" if "d \<in> set (lower (rstrip n))" for d
  proof -
    obtain x where x: "x \<in> set (rstrip n)" "lower_char x = d" using \<open>d \<in> set (lower (rstrip n))\<close> by (auto simp: lower_def)
    then show ?thesis using lower_char_sign [of d x] \<open>\<And>c. c \<in> set (rstrip n) \<Longrightarrow> c \<notin> {CHR ''='', CHR '':'', CHR 0x0A, CHR 0x0D}\<close> by blast
  qed
  then have "set (lower (rstrip n)) \<inter> {CHR ''='', CHR '':'', CHR 0x0A, CHR 0x0D} = {}" by blast
  then show ?thesis using s assms(4) by (simp add: parsed_key_def lower_def comp_def)
qed

lemma option_split_ok:
  assumes "option_split v = Some (k, w)" "stripped v" "one_line v"
  shows "parsed_key k \<and> stripped w \<and> one_line w"
proof -
  let ?P = "\<lambda>c. c \<notin> {CHR ''='', CHR '':''}"
  define n d where "n = takeWhile ?P v" and "d = dropWhile ?P v"
  have v: "v = n @ d" by (simp add: n_def d_def)
  have k: "k = lower (rstrip n)" "rstrip n \<noteq> []" "w = strip (tl d)" "d \<noteq> []"
    using assms(1) by (auto simp: option_split_def Let_def n_def d_def split: if_splits)
  have "set n \<inter> {CHR ''='', CHR '':''} = {}" using set_takeWhileD by (fastforce simp: n_def)
  then have key: "parsed_key k" using parsed_name [of n d] assms(2,3) k(2) by (auto simp: v k(1) one_line_def)
  have "one_line (tl d)" using assms(3) list.set_sel(2) [OF k(4)] unfolding v one_line_def by auto
  then have "one_line (strip (tl d))" by (intro strip_one_line) (auto simp: one_line_def dest: in_set_butlastD)
  then show ?thesis using key k(3) by simp
qed

lemma section_name_ok: "section_name v = Some s \<Longrightarrow> one_line v \<Longrightarrow> s \<noteq> [] \<and> one_line s"
proof -
  assume a: "section_name v = Some s" "one_line v"
  then obtain x r where r: "dropWhile (\<lambda>c. c \<noteq> CHR '']'') (rev (tl v)) = x # r" "r \<noteq> []" "s = rev r"
    by (auto simp: section_name_def split: if_splits list.splits)
  have "set r \<subseteq> set v" using set_dropWhileD [of _ "\<lambda>c. c \<noteq> CHR '']''" "rev (tl v)"] r(1) by (metis list.set_intros(2) list.set_sel(2) list.sel(2) set_rev subsetI)
  then show ?thesis using a(2) r(2,3) by (auto simp: one_line_def)
qed

subsection \<open>The reader keeps to such pieces\<close>

definition lines_ok :: "string \<Rightarrow> string list \<Rightarrow> bool" where
  "lines_ok k ls = (parsed_key k \<and> ls \<noteq> [] \<and> (\<forall>l \<in> set ls. stripped l \<and> one_line l))"

definition reader_ok :: "ini_reader \<Rightarrow> bool" where
  "reader_ok r = (dict_ok lines_ok (ir_defaults r) \<and>
     dict_ok (\<lambda>s os. s \<noteq> [] \<and> one_line s \<and> dict_ok lines_ok os) (ir_sections r) \<and> default_name \<notin> set (dkeys (ir_sections r)) \<and>
     (\<forall>s. ir_section r = Some s \<longrightarrow> s = default_name \<or> s \<noteq> [] \<and> one_line s))"

lemma reader_options: "reader_ok r \<Longrightarrow> dict_ok lines_ok (options_of sec r)"
  by (auto simp: reader_ok_def options_of_def dest: dict_okD split: option.splits)

lemma with_options_ok:
  "reader_ok r \<Longrightarrow> dict_ok lines_ok os \<Longrightarrow> sec = default_name \<or> sec \<noteq> [] \<and> one_line sec \<Longrightarrow> reader_ok (with_options sec os r)"
  by (auto simp: reader_ok_def with_options_def AList.update_keys dom_update intro!: dict_ok_dset)

lemma append_line_ok:
  "reader_ok r \<Longrightarrow> stripped l \<Longrightarrow> one_line l \<Longrightarrow> sec = default_name \<or> sec \<noteq> [] \<and> one_line sec \<Longrightarrow> reader_ok (append_line sec opt l r)"
proof -
  assume r: "reader_ok r" and l: "stripped l" "one_line l" and s: "sec = default_name \<or> sec \<noteq> [] \<and> one_line sec"
  note os = reader_options [OF r, of sec]
  show ?thesis
  proof (cases "dget (options_of sec r) opt")
    case (Some ls)
    have "lines_ok opt (ls @ [l])" using dict_okD [OF os Some] l by (auto simp: lines_ok_def)
    then show ?thesis using Some with_options_ok [OF r dict_ok_dset [OF os] s] by (simp add: append_line_def)
  qed (use r in \<open>simp add: append_line_def\<close>)
qed

lemma enter_section_ok: "reader_ok r \<Longrightarrow> s \<noteq> [] \<Longrightarrow> one_line s \<Longrightarrow> enter_section s r = Inr r' \<Longrightarrow> reader_ok r'"
proof -
  assume r: "reader_ok r" and s: "s \<noteq> []" "one_line s" and step: "enter_section s r = Inr r'"
  have "default_name \<notin> set (dkeys (dset s [] (ir_sections r)))" if "s \<noteq> default_name"
    using r that has_key_dset [of s "[]" "ir_sections r" default_name] by (simp only: reader_ok_def has_key_iff) blast
  then show ?thesis using r s step
    by (auto simp: enter_section_def reader_ok_def simp del: set_map intro!: dict_ok_dset split: if_splits)
qed

lemma enter_option_ok:
  assumes "reader_ok r" "sec = default_name \<or> sec \<noteq> [] \<and> one_line sec" "stripped v" "one_line v" "enter_option sec v r = Inr r'"
  shows "reader_ok r'"
proof -
  obtain k w where k: "option_split v = Some (k, w)"
    and r': "r' = (with_options sec (dset k [w] (options_of sec r)) r)\<lparr>ir_option := Some k, ir_added := (sec, k) # ir_added r\<rparr>"
    using assms(5) by (auto simp: enter_option_def split: option.splits if_splits)
  have "lines_ok k [w]" using option_split_ok [OF k assms(3,4)] by (simp add: lines_ok_def)
  then have "reader_ok (with_options sec (dset k [w] (options_of sec r)) r)"
    using with_options_ok [OF assms(1) dict_ok_dset [OF reader_options [OF assms(1)]] assms(2)] by blast
  then show ?thesis by (simp add: r' reader_ok_def)
qed

lemma ini_line_ok:
  assumes r: "reader_ok r" and l: "line_ok l" and step: "ini_line l r = Inr r'"
  shows "reader_ok r'"
proof -
  let ?v = "line_value l" and ?n = "length (takeWhile is_ws l)"
  have v: "stripped ?v" "one_line ?v" using line_value_ok [OF l] by blast+
  have sec: "s = default_name \<or> s \<noteq> [] \<and> one_line s" if "ir_section r = Some s" for s using r that by (simp add: reader_ok_def)
  have ind: "reader_ok (r\<lparr>ir_indent := i\<rparr>)" for i using r by (simp add: reader_ok_def)
  have fresh: "reader_ok r'" if "section_name ?v = Some s" "enter_section s (r\<lparr>ir_indent := i\<rparr>) = Inr r'" for s i
    using enter_section_ok [OF ind _ _ that(2)] section_name_ok [OF that(1) v(2)] by blast
  have opt: "reader_ok r'" if "ir_section r = Some s" "enter_option s ?v (r\<lparr>ir_indent := i\<rparr>) = Inr r'" for s i
    using enter_option_ok [OF ind sec [OF that(1)] v that(2)] .
  have add: "reader_ok (append_line s k x r)" if "ir_section r = Some s" "x = [] \<or> x = ?v" for s k x
    using append_line_ok [OF r _ _ sec [OF that(1)]] that(2) v by (auto simp: stripped_def one_line_def)
  show ?thesis
  proof (cases "?v = []")
    case True
    then show ?thesis using step r add by (auto simp: ini_line_def split: option.splits)
  next
    case False
    then show ?thesis using step add fresh opt
      by (auto simp: ini_line_def Let_def split: option.splits if_splits)
  qed
qed

lemma fold_ini_ok: "reader_ok r \<Longrightarrow> \<forall>l \<in> set ls. line_ok l \<Longrightarrow> fold_r ini_line ls r = Inr r' \<Longrightarrow> reader_ok r'"
  by (induction ls arbitrary: r) (auto simp: bind_r_def intro: ini_line_ok split: sum.splits)

subsection \<open>What has been read can be written\<close>

lemma split_value:
  assumes "ls \<noteq> []" "\<forall>l \<in> set ls. stripped l \<and> one_line l"
  shows "list_all stripped (split_on (CHR 0x0A) (rstrip (join newline ls)))"
  using assms
proof (induction ls rule: rev_induct)
  case (snoc x ls)
  have x: "stripped x" "one_line x" using snoc.prems by simp_all
  show ?case
  proof (cases "x = []")
    case False
    have e: "join newline (ls @ [x]) = (if ls = [] then [] else join newline ls @ newline) @ x" by (simp add: join_snoc)
    have "join newline (ls @ [x]) \<noteq> []" "\<not> is_ws (last (join newline (ls @ [x])))" unfolding e using x(1) False by (simp_all add: stripped_def)
    then have "rstrip (join newline (ls @ [x])) = join newline (ls @ [x])" by (rule rstrip_last)
    then show ?thesis using split_join [of "ls @ [x]" "CHR 0x0A"] snoc.prems(2) by (auto simp: one_line_def list_all_iff)
  next
    case True
    note x0 = this
    show ?thesis
    proof (cases "ls = []")
      case False
      have "rstrip (join newline (ls @ [x])) = rstrip (join newline ls)"
        using False True rstrip_ws [of newline "join newline ls"] by (simp add: join_snoc)
      then show ?thesis using snoc.IH [OF False] snoc.prems(2) by simp
    qed (simp add: x0 rstrip_def stripped_def)
  qed
qed simp

lemma joined_ok:
  assumes "dict_ok lines_ok os" "plain_options (joined os)"
  shows "options_ok (joined os)"
proof -
  have keys: "dkeys (joined os) = dkeys os" by (simp add: joined_def comp_def case_prod_unfold)
  have "key_ok k \<and> value_ok v" if kv: "(k, v) \<in> set (joined os)" for k v
  proof -
    obtain ls where ls: "(k, ls) \<in> set os" "v = rstrip (join newline ls)" using kv by (auto simp: joined_def)
    have ok: "lines_ok k ls" using assms(1) ls(1) by (auto simp: dict_ok_def)
    have plain: "clean True k" "\<not> startswith k ''[''" "list_all (clean True) (split_on (CHR 0x0A) v)"
      using assms(2) kv by (auto simp: plain_options_def list_all_iff)
    have "key_ok k" using ok plain(1,2) by (cases k) (auto simp: lines_ok_def parsed_key_def key_ok_def startswith_def)
    moreover have "CHR 0x0D \<notin> set v"
    proof
      assume "CHR 0x0D \<in> set v"
      then have "CHR 0x0D \<in> set (join newline ls)"
        unfolding ls(2) using rstrip_prefix [of "join newline ls"] by (metis Un_iff set_append)
      moreover have "set (join newline xs) \<subseteq> insert (CHR 0x0A) (\<Union> (set ` set xs))" for xs
        by (induction newline xs rule: join.induct) auto
      ultimately obtain l where "l \<in> set ls" "CHR 0x0D \<in> set l" by fastforce
      then show False using ok by (auto simp: lines_ok_def one_line_def)
    qed
    moreover have "list_all stripped (split_on (CHR 0x0A) v)" using split_value [of ls] ok by (simp add: lines_ok_def ls(2))
    ultimately show ?thesis using plain(3) by (simp add: value_ok_def list_all_iff ls(2))
  qed
  then show ?thesis using assms(1) keys by (auto simp: options_ok_def dict_ok_def)
qed

text \<open>Every text that is read as a configuration without such comment signs can be written back.\<close>

lemma parsed_ok:
  assumes p: "parse_ini t = Inr c" and plain: "no_comment_signs c"
  shows "ini_ok c"
proof -
  obtain r where r: "fold_r ini_line (raw_lines (universal_newlines t)) empty_reader = Inr r" "c = config_of r"
    using p by (auto simp: parse_ini_def bind_r_def split: sum.splits)
  have "reader_ok empty_reader" by (simp add: reader_ok_def empty_reader_def)
  moreover have "\<forall>l \<in> set (raw_lines (universal_newlines t)). line_ok l"
    using raw_lines_ok universal_newlines_no_cr by blast
  ultimately have ok: "reader_ok r" using fold_ini_ok r(1) by blast
  have keys: "dkeys (sections c) = dkeys (ir_sections r)" by (simp add: r(2) config_of_def comp_def case_prod_unfold)
  have "options_ok (defaults c)" using joined_ok [of "ir_defaults r"] ok plain by (simp add: reader_ok_def no_comment_signs_def r(2) config_of_def)
  moreover have "name_ok s \<and> options_ok os" if "(s, os) \<in> set (sections c)" for s os
  proof -
    have "(s, os) \<in> (\<lambda>(s, os). (s, joined os)) ` set (ir_sections r)" using that by (simp add: r(2) config_of_def)
    then obtain os' where os': "(s, os') \<in> set (ir_sections r)" "os = joined os'" by force
    have "s \<noteq> [] \<and> one_line s \<and> dict_ok lines_ok os'" using ok os'(1) unfolding reader_ok_def dict_ok_def by blast
    moreover have "clean False s" "plain_options os" using plain that by (auto simp: no_comment_signs_def list_all_iff)
    ultimately show ?thesis using joined_ok [of os'] by (simp add: name_ok_def one_line_def os'(2))
  qed
  ultimately show ?thesis using ok keys by (auto simp: ini_ok_def reader_ok_def dict_ok_def)
qed

text \<open>A section follows the header, so its last line is ended.\<close>

lemma header_ended:
  assumes "parse_ini t = Inr c" "sections c \<noteq> []"
  shows "header_of t = [] \<or> last (header_of t) = CHR 0x0A"
proof -
  let ?ls = "raw_lines (universal_newlines t)"
  let ?P = "\<lambda>l. \<not> opens_section l"
  have "\<exists>l \<in> set ?ls. opens_section l"
  proof (rule ccontr)
    assume none: "\<not> (\<exists>l \<in> set ?ls. opens_section l)"
    obtain r where r: "fold_r ini_line ?ls empty_reader = Inr r" "c = config_of r"
      using assms(1) by (auto simp: parse_ini_def bind_r_def split: sum.splits)
    have eq: "takeWhile ?P ?ls = ?ls" using none by (simp add: takeWhile_eq_all_conv)
    have "\<forall>l \<in> set (takeWhile ?P ?ls). line_value l = []" using header_lines_empty [OF r(1)] by (simp add: empty_reader_def)
    then have "\<forall>l \<in> set ?ls. line_value l = []" unfolding eq .
    then have "fold_r ini_line ?ls empty_reader = Inr empty_reader"
      by (intro fold_r_id) (simp add: ini_line_def empty_reader_def split: option.splits)
    then have "r = empty_reader" using r(1) by simp
    then show False using r(2) assms(2) by (simp add: config_of_def empty_reader_def)
  qed
  then have d: "dropWhile ?P ?ls \<noteq> []" by (simp add: dropWhile_eq_Nil_conv)
  have ends: "\<forall>l \<in> set xs. l \<noteq> [] \<and> last l = CHR 0x0A" if "raw_lines u = xs @ ys" "ys \<noteq> []" for u xs ys
    using that
  proof (induction u arbitrary: xs)
    case (Cons a u)
    show ?case
    proof (cases xs)
      case (Cons x xs')
      note x = this
      show ?thesis
      proof (cases "a = CHR 0x0A")
        case True
        then show ?thesis using Cons.IH [of xs'] Cons.prems x by auto
      next
        case False
        then show ?thesis using Cons.IH Cons.prems x
          by (cases "raw_lines u") (auto simp: append_eq_Cons_conv Cons_eq_append_conv)
      qed
    qed simp
  qed simp
  have "\<forall>l \<in> set (takeWhile ?P ?ls). l \<noteq> [] \<and> last l = CHR 0x0A" using ends [OF _ d] by (metis takeWhile_dropWhile_id)
  then have "concat (takeWhile ?P ?ls) = [] \<or> last (concat (takeWhile ?P ?ls)) = CHR 0x0A"
    by (cases "takeWhile ?P ?ls" rule: rev_cases) auto
  then show ?thesis by (simp add: header_of_def)
qed

end
