(* ===== verification/Config_Editor.thy ===== *)
theory Config_Editor
  imports Ini_Parsed Atomic_File
begin

text \<open>
  The editor of the settings pages, \<open>aruba_agent/config_editor.py\<close>: \<open>config.ini\<close> is read from the disk, one
  section of it changed, and the file written back below its header of comments.

  The disk is that of the atomic writes and holds the text of the file; \<open>Corrupt\<close> is a file that is not
  UTF-8, \<open>unreadable\<close> one that cannot be opened for reading.
\<close>

subsection \<open>Reading\<close>

definition no_config :: config where
  "no_config = \<lparr>defaults = [], sections = []\<rparr>"

definition editor_read :: "bool \<Rightarrow> string disk \<Rightarrow> config result" where
  "editor_read unreadable d = (case target d of
       Missing \<Rightarrow> Inr no_config
     | Corrupt \<Rightarrow> if unreadable then Inr no_config else Inl ValueError
     | Holds t \<Rightarrow> if unreadable then Inr no_config else parse_ini t)"

definition editor_header :: "bool \<Rightarrow> string disk \<Rightarrow> string result" where
  "editor_header unreadable d = (case target d of
       Missing \<Rightarrow> Inr []
     | Corrupt \<Rightarrow> if unreadable then Inr [] else Inl ValueError
     | Holds t \<Rightarrow> if unreadable then Inr [] else Inr (header_of t))"

subsection \<open>Writing\<close>

text \<open>\<open>0o640\<close>\<close>

definition config_mode :: nat where
  "config_mode = 416"

definition editor_save :: "faults \<Rightarrow> config \<Rightarrow> string \<Rightarrow> string disk \<Rightarrow> unit result \<times> string disk" where
  "editor_save fail c header d =
     (let text = header @ print_ini c; mode = (if target d = Missing then config_mode else target_mode d) in
      case run_steps fail mode text [MkDir, MkTemp] d of
        (False, d1) \<Rightarrow> (Inl OSError, d1)
      | (True, d1) \<Rightarrow> (case run_steps fail mode text [FChmod, Dump, FSync, Replace] d1 of
            (False, d2) \<Rightarrow> (Inl OSError, if fail Unlink then d2 else step_effect mode text Unlink d2)
          | (True, d2) \<Rightarrow> (Inr (), if fail Chmod then d2 else step_effect mode text Chmod d2)))"

text \<open>\<open>add_section\<close> for a section that is not there, \<open>set\<close> for every value, \<open>remove_option\<close>.\<close>

definition with_section :: "string \<Rightarrow> config \<Rightarrow> config result" where
  "with_section sec c = (if has_key (sections c) sec then Inr c
     else if sec = default_name then Inl ValueError
     else Inr (c\<lparr>sections := dset sec [] (sections c)\<rparr>))"

definition text_value :: "string option \<Rightarrow> string" where
  "text_value v = (case v of None \<Rightarrow> [] | Some s \<Rightarrow> s)"

definition set_values :: "string \<Rightarrow> (string \<times> string option) list \<Rightarrow> config \<Rightarrow> config result" where
  "set_values sec = fold_r (\<lambda>(k, v). config_set sec k (text_value v))"

definition remove_key :: "string \<Rightarrow> config \<Rightarrow> string \<Rightarrow> config" where
  "remove_key sec c k = (case dget (sections c) sec of
       None \<Rightarrow> c
     | Some os \<Rightarrow> if has_key os (lower k) then c\<lparr>sections := dset sec (ddel (lower k) os) (sections c)\<rparr> else c)"

definition edited :: "string \<Rightarrow> (string \<times> string option) list \<Rightarrow> string list \<Rightarrow> config \<Rightarrow> config result" where
  "edited sec vals gone c = bind_r (with_section sec c) (\<lambda>c1. bind_r (set_values sec vals c1) (\<lambda>c2. Inr (foldl (remove_key sec) c2 gone)))"

definition update_section ::
    "faults \<Rightarrow> bool \<Rightarrow> string \<Rightarrow> (string \<times> string option) list \<Rightarrow> string list \<Rightarrow> string disk \<Rightarrow> unit result \<times> string disk" where
  "update_section fail unreadable sec vals gone d =
     (case bind_r (editor_read unreadable d) (\<lambda>c. bind_r (editor_header unreadable d) (\<lambda>h.
         bind_r (edited sec vals gone c) (\<lambda>c'. Inr (c', h)))) of
        Inl e \<Rightarrow> (Inl e, d)
      | Inr (c', h) \<Rightarrow> editor_save fail c' h d)"

text \<open>\<open>os.access\<close> on the file and on its directory.\<close>

definition editor_writable :: "bool \<Rightarrow> bool \<Rightarrow> string disk \<Rightarrow> bool" where
  "editor_writable file_ok dir_ok d = (if target d \<noteq> Missing then file_ok \<and> dir_ok else dir_ok)"

subsection \<open>The write\<close>

lemma editor_save_spec:
  assumes "editor_save fail c h d = (r, d')"
  shows "r = Inr () \<and> target d' = Holds (h @ print_ini c) \<and> target_mode d' = (if target d = Missing then config_mode else target_mode d) \<or>
    r = Inl OSError \<and> target d' = target d \<and> target_mode d' = target_mode d"
  using assms by (auto simp: editor_save_def Let_def split: if_splits)

subsection \<open>The change\<close>

definition own :: "config \<Rightarrow> string \<Rightarrow> string \<Rightarrow> string option" where
  "own c s k = (case dget (sections c) s of None \<Rightarrow> None | Some os \<Rightarrow> dget os k)"

lemma with_section_spec:
  assumes "with_section sec c = Inr c1"
  shows "defaults c1 = defaults c \<and> has_key (sections c1) sec \<and> own c1 = own c"
proof (cases "has_key (sections c) sec")
  case False
  then have "c1 = c\<lparr>sections := dset sec [] (sections c)\<rparr>" using assms by (simp add: with_section_def split: if_splits)
  then show ?thesis using False by (auto simp: own_def has_key_def fun_eq_iff)
qed (use assms in \<open>simp add: with_section_def\<close>)

lemma config_set_own:
  assumes "config_set sec k v c = Inr c'"
  shows "defaults c' = defaults c \<and> has_key (sections c') sec \<and> own c' = (\<lambda>s j. if s = sec \<and> j = lower k then Some v else own c s j)"
  using assms by (auto simp: config_set_def own_def has_key_def fun_eq_iff split: if_splits option.splits)

definition last_value :: "(string \<times> string option) list \<Rightarrow> string \<Rightarrow> string option" where
  "last_value vals = map_of (rev (map (\<lambda>(k, v). (lower k, text_value v)) vals))"

lemma set_values_own:
  assumes "set_values sec vals c = Inr c'"
  shows "defaults c' = defaults c \<and> own c' = (\<lambda>s j. if s = sec \<and> last_value vals j \<noteq> None then last_value vals j else own c s j)"
  using assms
proof (induction vals arbitrary: c)
  case (Cons kv vals)
  obtain k v where kv: "kv = (k, v)" by (cases kv)
  obtain c1 where c1: "config_set sec k (text_value v) c = Inr c1" "set_values sec vals c1 = Inr c'"
    using Cons.prems kv by (auto simp: set_values_def bind_r_def split: sum.splits)
  have l: "last_value (kv # vals) j = (case last_value vals j of None \<Rightarrow> if j = lower k then Some (text_value v) else None | Some x \<Rightarrow> Some x)" for j
    by (simp add: last_value_def kv map_add_def split: option.splits)
  show ?case using Cons.IH [OF c1(2)] config_set_own [OF c1(1)] by (auto simp: l fun_eq_iff split: option.splits)
qed (simp add: set_values_def last_value_def)

lemma remove_key_own: "defaults (remove_key sec c k) = defaults c \<and>
   own (remove_key sec c k) = (\<lambda>s j. if s = sec \<and> j = lower k then None else own c s j)"
  by (auto simp: remove_key_def own_def has_key_def fun_eq_iff split: option.splits)

lemma remove_keys_own: "defaults (foldl (remove_key sec) c gone) = defaults c \<and>
   own (foldl (remove_key sec) c gone) = (\<lambda>s j. if s = sec \<and> j \<in> lower ` set gone then None else own c s j)"
  by (induction gone arbitrary: c) (auto simp: remove_key_own fun_eq_iff)

lemma edited_spec:
  assumes "edited sec vals gone c = Inr c'"
  shows "defaults c' = defaults c \<and> own c' = (\<lambda>s j. if s = sec \<and> j \<in> lower ` set gone then None
    else if s = sec \<and> last_value vals j \<noteq> None then last_value vals j else own c s j)"
proof -
  obtain c1 c2 where c: "with_section sec c = Inr c1" "set_values sec vals c1 = Inr c2" "c' = foldl (remove_key sec) c2 gone"
    using assms by (auto simp: edited_def bind_r_def split: sum.splits)
  show ?thesis using with_section_spec [OF c(1)] set_values_own [OF c(2)] remove_keys_own [of sec c2 gone] c(3)
    by (auto simp: fun_eq_iff)
qed

subsection \<open>The change keeps the configuration writable\<close>

lemma options_ok_dict: "options_ok os = dict_ok (\<lambda>k v. key_ok k \<and> value_ok v) os"
  by (simp add: options_ok_def dict_ok_def)

lemma ini_ok_section:
  "ini_ok c \<Longrightarrow> name_ok sec \<Longrightarrow> sec \<noteq> default_name \<Longrightarrow> options_ok os \<Longrightarrow> ini_ok (c\<lparr>sections := dset sec os (sections c)\<rparr>)"
  using has_key_dset [of sec os "sections c" default_name] by (simp add: ini_ok_def dict_ok_dset has_key_iff dom_update)

lemma ini_ok_options: "ini_ok c \<Longrightarrow> dget (sections c) sec = Some os \<Longrightarrow> options_ok os \<and> name_ok sec \<and> sec \<noteq> default_name"
  by (force simp: ini_ok_def dest: dict_okD map_of_SomeD)

lemma config_set_ok:
  "config_set sec k v c = Inr c' \<Longrightarrow> ini_ok c \<Longrightarrow> key_ok (lower k) \<Longrightarrow> value_ok v \<Longrightarrow> ini_ok c'"
  using ini_ok_options [of c sec]
  by (auto simp: config_set_def options_ok_dict intro!: ini_ok_section dict_ok_dset split: if_splits option.splits)

lemma set_values_ok:
  "set_values sec vals c = Inr c' \<Longrightarrow> ini_ok c \<Longrightarrow> \<forall>(k, v) \<in> set vals. key_ok (lower k) \<and> value_ok (text_value v) \<Longrightarrow> ini_ok c'"
proof (induction vals arbitrary: c)
  case (Cons kv vals)
  obtain k v where kv: "kv = (k, v)" by (cases kv)
  obtain c1 where c1: "config_set sec k (text_value v) c = Inr c1" "set_values sec vals c1 = Inr c'"
    using Cons.prems(1) kv by (auto simp: set_values_def bind_r_def split: sum.splits)
  then show ?case using Cons.IH [OF c1(2)] config_set_ok [OF c1(1)] Cons.prems kv by simp
qed (simp add: set_values_def)

lemma remove_key_ok: "ini_ok c \<Longrightarrow> ini_ok (remove_key sec c k)"
  using ini_ok_options [of c sec]
  by (auto simp: remove_key_def options_ok_dict intro!: ini_ok_section dict_ok_ddel split: option.splits)

lemma edited_ok:
  assumes "edited sec vals gone c = Inr c'" "ini_ok c" "name_ok sec"
    "\<forall>(k, v) \<in> set vals. key_ok (lower k) \<and> value_ok (text_value v)"
  shows "ini_ok c'"
proof -
  obtain c1 c2 where c: "with_section sec c = Inr c1" "set_values sec vals c1 = Inr c2" "c' = foldl (remove_key sec) c2 gone"
    using assms(1) by (auto simp: edited_def bind_r_def split: sum.splits)
  have "ini_ok c1" using c(1) assms(2,3)
    by (auto simp: with_section_def options_ok_def intro!: ini_ok_section split: if_splits)
  then have "ini_ok c2" using set_values_ok [OF c(2)] assms(4) by blast
  then show ?thesis unfolding c(3) by (induction gone arbitrary: c2) (simp_all add: remove_key_ok)
qed

subsection \<open>A setting is read back\<close>

text \<open>A disk whose file is read as a configuration that can be written and read again.\<close>

definition settled :: "string disk \<Rightarrow> config \<Rightarrow> bool" where
  "settled d c = (case target d of Holds t \<Rightarrow> parse_ini t = Inr c \<and> ini_ok c \<and> header_ok (header_of t) | _ \<Rightarrow> False)"

lemma settled_read: "settled d c \<Longrightarrow> editor_read False d = Inr c \<and> (\<exists>h. editor_header False d = Inr h \<and> header_ok h) \<and> target d \<noteq> Missing \<and> ini_ok c"
  by (auto simp: settled_def editor_read_def editor_header_def split: content.splits)

lemma settledI:
  "target d = Holds t \<Longrightarrow> parse_ini t = Inr c \<Longrightarrow> ini_ok c \<Longrightarrow> header_of t = [] \<or> last (header_of t) = CHR 0x0A \<Longrightarrow> settled d c"
  using header_of_ok [of t c] by (simp add: settled_def)

lemma editor_save_settled:
  assumes "editor_save fail c h d = (r, d')" "ini_ok c" "header_ok h"
  shows "if r = Inr () then settled d' c \<and> editor_header False d' = Inr h \<and> (target d \<noteq> Missing \<longrightarrow> target_mode d' = target_mode d)
    else target d' = target d \<and> target_mode d' = target_mode d"
  using editor_save_spec [OF assms(1)] parse_print [OF assms(2,3)] header_kept [OF assms(2,3)] assms(2,3)
  by (auto simp: settled_def editor_header_def)

lemma update_section_settled:
  assumes d: "settled d c" and change: "name_ok sec" "\<forall>(k, v) \<in> set vals. key_ok (lower k) \<and> value_ok (text_value v)"
    and saved: "update_section fail False sec vals gone d = (r, d')"
  shows "if r = Inr () then (\<exists>c'. edited sec vals gone c = Inr c' \<and> settled d' c') \<and>
      editor_header False d' = editor_header False d \<and> target_mode d' = target_mode d
    else target d' = target d \<and> target_mode d' = target_mode d"
proof -
  obtain h where rd: "editor_read False d = Inr c" "editor_header False d = Inr h" "header_ok h" "target d \<noteq> Missing" "ini_ok c"
    using settled_read [OF d] by blast
  show ?thesis
  proof (cases "edited sec vals gone c")
    case (Inl e)
    then show ?thesis using saved rd by (auto simp: update_section_def)
  next
    case (Inr c')
    have "editor_save fail c' h d = (r, d')" using saved rd Inr by (simp add: update_section_def)
    from editor_save_settled [OF this edited_ok [OF Inr rd(5) change] rd(3)] show ?thesis using rd Inr by auto
  qed
qed

text \<open>
  A disk whose file the program reads, without comment signs at the start of a word and with a line feed at
  the end of its header.
\<close>

definition editable :: "string disk \<Rightarrow> config \<Rightarrow> bool" where
  "editable d c = (case target d of Holds t \<Rightarrow> parse_ini t = Inr c \<and> no_comment_signs c \<and> (header_of t = [] \<or> last (header_of t) = CHR 0x0A)
     | _ \<Rightarrow> False)"

lemma editable_settled: "editable d c \<Longrightarrow> settled d c"
  by (auto simp: editable_def intro: settledI parsed_ok split: content.splits)

lemma editor_save_works: "fst (editor_save no_faults c h d) = Inr ()"
  by (simp add: editor_save_def Let_def)

text \<open>
  C35: A change of the settings file that the program can read.  When it succeeds the file is the old header
  and the text of the old configuration with the section changed, with the old mode; when it fails the file
  is the old one; and without a failing step it succeeds unless the change itself is refused.  The new file is
  read as the changed configuration, under the old header, on conditions that the editor does not check: the
  old file has no comment sign at the start of a word (it can pass right after an equals sign) and its header
  ends with a line feed; the name of the section has no line feed, carriage return or comment sign at the
  start of a word; the names of the options are names the reader takes; and the new values are stripped lines
  without carriage return and without comment sign at the start of a word.
\<close>

theorem settings_read_back:
  assumes ini: "target d = Holds t" "parse_ini t = Inr c"
    and saved: "update_section fail False sec vals gone d = (r, d')"
  shows "(if r = Inr () then (\<exists>c'. target d' = Holds (header_of t @ print_ini c') \<and> target_mode d' = target_mode d \<and> defaults c' = defaults c \<and>
        own c' = (\<lambda>s k. if s = sec \<and> k \<in> lower ` set gone then None
          else if s = sec \<and> last_value vals k \<noteq> None then last_value vals k else own c s k) \<and>
        (no_comment_signs c \<and> (header_of t = [] \<or> last (header_of t) = CHR 0x0A) \<and>
         name_ok sec \<and> (\<forall>(k, v) \<in> set vals. key_ok (lower k) \<and> value_ok (text_value v)) \<longrightarrow>
           editor_read False d' = Inr c' \<and> editor_header False d' = editor_header False d))
     else target d' = target d \<and> target_mode d' = target_mode d) \<and>
    ((\<forall>st. \<not> fail st) \<longrightarrow> r = bind_r (edited sec vals gone c) (\<lambda>_. Inr ()))"
proof -
  have rd: "editor_read False d = Inr c" "editor_header False d = Inr (header_of t)" by (simp_all add: editor_read_def editor_header_def ini)
  show ?thesis
  proof (cases "edited sec vals gone c")
    case (Inl e)
    then show ?thesis using saved rd by (auto simp: update_section_def)
  next
    case (Inr c')
    have save: "editor_save fail c' (header_of t) d = (r, d')" using saved rd Inr by (simp add: update_section_def)
    have works: "(\<forall>st. \<not> fail st) \<longrightarrow> r = Inr ()"
    proof
      assume "\<forall>st. \<not> fail st"
      then have "fail = no_faults" by auto
      then show "r = Inr ()" using save editor_save_works [of c' "header_of t" d] by simp
    qed
    have read: "editor_read False d' = Inr c' \<and> editor_header False d' = editor_header False d"
      if "r = Inr ()" and ok: "no_comment_signs c \<and> (header_of t = [] \<or> last (header_of t) = CHR 0x0A) \<and>
         name_ok sec \<and> (\<forall>(k, v) \<in> set vals. key_ok (lower k) \<and> value_ok (text_value v))"
    proof -
      have "settled d c" using settledI [OF ini] parsed_ok [OF ini(2)] ok by blast
      from update_section_settled [OF this _ _ saved] ok \<open>r = Inr ()\<close>
      obtain c'' where "edited sec vals gone c = Inr c''" "settled d' c''" "editor_header False d' = editor_header False d" by auto
      then show ?thesis using Inr settled_read by auto
    qed
    show ?thesis
    proof (cases "r = Inr ()")
      case True
      then have "target d' = Holds (header_of t @ print_ini c')" "target_mode d' = target_mode d"
        using editor_save_spec [OF save] ini(1) by simp_all
      then show ?thesis unfolding if_P [OF True] using edited_spec [OF Inr] read [OF True] True Inr by auto
    qed (use editor_save_spec [OF save] works in auto)
  qed
qed

subsection \<open>What does not come back\<close>

text \<open>A value that starts with a number sign is read while it stands right after the equals sign.\<close>

lemma hash_value_lost:
  "map_option (\<lambda>c. own c ''radius'' ''secret'') (case parse_ini (''[radius]'' @ newline @ ''secret=#1'' @ newline) of Inl _ \<Rightarrow> None | Inr c \<Rightarrow> Some c) = Some (Some ''#1'') \<and>
   (case update_section no_faults False ''web'' [(''port'', Some ''80'')] [] \<lparr>target = Holds (''[radius]'' @ newline @ ''secret=#1'' @ newline), target_mode = 416, temp = None\<rparr> of
      (r, d) \<Rightarrow> r = Inr () \<and> (case editor_read False d of Inl _ \<Rightarrow> False | Inr c \<Rightarrow> own c ''radius'' ''secret'' = Some []))"
  by code_simp

text \<open>A carriage return in a value ends its line for the next reader.\<close>

lemma return_injects:
  "case update_section no_faults False ''smtp'' [(''from'', Some (''a'' @ [CHR 0x0D] @ ''[local_auth]'' @ [CHR 0x0D] @ ''enabled = false''))] []
      \<lparr>target = Missing, target_mode = 0, temp = None\<rparr> of
    (r, d) \<Rightarrow> r = Inr () \<and> (case editor_read False d of Inl _ \<Rightarrow> False | Inr c \<Rightarrow> own c ''local_auth'' ''enabled'' = Some ''false'')"
  by code_simp

text \<open>A file that cannot be opened for reading counts as empty, and everything in it is overwritten.\<close>

lemma unreadable_overwritten:
  assumes "edited sec vals gone no_config = Inr c'" "update_section fail True sec vals gone d = (Inr (), d')"
  shows "target d' = Holds (print_ini c')"
  using assms editor_save_spec [of fail c' "[]" d "Inr ()" d']
  by (cases "target d") (auto simp: update_section_def editor_read_def editor_header_def)

text \<open>A header whose last line is not ended swallows the first section, and the file cannot be read again.\<close>

lemma open_header_breaks:
  "case update_section no_faults False ''web'' [(''port'', Some ''80'')] [] \<lparr>target = Holds ''# agent'', target_mode = 416, temp = None\<rparr> of
    (r, d) \<Rightarrow> r = Inr () \<and> editor_read False d = Inl ConfigError"
  by code_simp

definition demo_ini :: string where
  "demo_ini = ''# Agent'' @ newline @ ''[web]'' @ newline @ ''Port = 8080 ; old'' @ newline @ ''[smtp]'' @ newline @ ''to = a,'' @ newline @ ''  b'' @ newline"

theorem settings_read_back_witness:
  "case update_section no_faults False ''web'' [(''PORT'', Some ''9090'')] [''host''] \<lparr>target = Holds demo_ini, target_mode = 416, temp = None\<rparr> of
    (r, d) \<Rightarrow> r = Inr () \<and> (\<exists>c. editor_read False d = Inr c \<and> own c ''web'' ''port'' = Some ''9090'' \<and> own c ''smtp'' ''to'' = Some (''a,'' @ newline @ ''b'')) \<and>
      editor_header False d = Inr (''# Agent'' @ newline)"
proof -
  let ?d = "\<lparr>target = Holds demo_ini, target_mode = 416, temp = None\<rparr> :: string disk"
  obtain r d' where u: "update_section no_faults False ''web'' [(''PORT'', Some ''9090'')] [''host''] ?d = (r, d')" by fastforce
  have r: "r = Inr ()"
  proof -
    have "fst (update_section no_faults False ''web'' [(''PORT'', Some ''9090'')] [''host''] ?d) = Inr ()" by code_simp
    then show ?thesis using u by simp
  qed
  define c where "c = \<lparr>defaults = [], sections = [(''web'', [(''port'', ''8080'')]), (''smtp'', [(''to'', ''a,'' @ newline @ ''b'')])]\<rparr>"
  have p: "parse_ini demo_ini = Inr c" unfolding c_def by code_simp
  have h: "header_of demo_ini = ''# Agent'' @ newline" by code_simp
  have i: "no_comment_signs c" unfolding c_def by code_simp
  have n: "name_ok ''web''" by code_simp
  have v: "\<forall>(k, v) \<in> set [(''PORT'', Some ''9090'')]. key_ok (lower k) \<and> value_ok (text_value v)" by code_simp
  have l: "last_value [(''PORT'', Some ''9090'')] ''port'' = Some ''9090''" by code_simp
  have hl: "header_of demo_ini = [] \<or> last (header_of demo_ini) = CHR 0x0A" unfolding h by simp
  have g: "lower ''host'' = ''host''" by code_simp
  have smtp: "own c ''smtp'' ''to'' = Some (''a,'' @ newline @ ''b'')" by (simp add: c_def own_def)
  have tgt: "target ?d = Holds demo_ini" by simp
  obtain c' where c': "editor_read False d' = Inr c'" "own c' = (\<lambda>s k. if s = ''web'' \<and> k \<in> lower ` set [''host''] then None
      else if s = ''web'' \<and> last_value [(''PORT'', Some ''9090'')] k \<noteq> None then last_value [(''PORT'', Some ''9090'')] k else own c s k)"
    and hdr: "editor_header False d' = editor_header False ?d"
    using settings_read_back [OF tgt p u] i hl n v unfolding if_P [OF r] by blast
  have "own c' ''web'' ''port'' = Some ''9090''" "own c' ''smtp'' ''to'' = Some (''a,'' @ newline @ ''b'')"
    unfolding c'(2) using l g smtp by simp_all
  moreover have "editor_header False d' = Inr (''# Agent'' @ newline)" using hdr h by (simp add: editor_header_def)
  ultimately show ?thesis using u r c'(1) by simp
qed

end
