(* ===== verification/Secrets_Migration.thy ===== *)
theory Secrets_Migration
  imports Secrets Config_Editor
begin

text \<open>
  The migration of \<open>config.ini\<close>, \<open>migrate_config\<close> in \<open>aruba_agent/secrets_store.py\<close>: the text is read, every
  listed secret that is still readable encrypted, and the text rewritten below its header, after a copy
  of the old one.

  The rewritten text is read again by the whole program, so what the migration keeps is what the new text
  parses to.  Beyond \<open>fernet_sound\<close> this rests on \<open>fernet_text\<close>: Fernet tokens are URL-safe base64.
\<close>

subsection \<open>The file\<close>

text \<open>
  The text of the file, \<open>Corrupt\<close> when it is not UTF-8, and the one-time copy with its mode.  A copy that
  fails leaves no file.
\<close>

record config_file =
  cfile :: "string disk"
  bak :: "(string \<times> nat) option"

type_synonym migration = "nat \<times> config \<times> (string \<times> string) list"

definition migrate_key :: "fernet \<Rightarrow> string \<Rightarrow> string \<Rightarrow> migration \<Rightarrow> migration result" where
  "migrate_key f sec key m = (case m of (n, c, changed) \<Rightarrow>
     (case config_raw c sec key of
        None \<Rightarrow> Inr m
      | Some v \<Rightarrow> if v = [] \<or> is_encrypted v then Inr m
          else bind_r (config_set sec key (sm_encrypt f n v) c)
                 (\<lambda>c'. Inr (Suc n, c', changed @ [(sec, key)]))))"

definition migrate_section :: "fernet \<Rightarrow> string \<Rightarrow> migration \<Rightarrow> migration result" where
  "migrate_section f sec m = fold_r (migrate_key f sec) (fields_for_section sec) m"

definition migrate_fields :: "fernet \<Rightarrow> nat \<Rightarrow> config \<Rightarrow> migration result" where
  "migrate_fields f n c = fold_r (migrate_section f) (dkeys (sections c)) (n, c, [])"

definition migrate_config ::
    "faults \<Rightarrow> bool \<Rightarrow> fernet \<Rightarrow> nat \<Rightarrow> config_file \<Rightarrow> (string \<times> string) list result \<times> config_file" where
  "migrate_config fail copy_fails f n cf = (case target (cfile cf) of
       Missing \<Rightarrow> (Inr [], cf)
     | Corrupt \<Rightarrow> (Inl ValueError, cf)
     | Holds text \<Rightarrow> (case bind_r (parse_ini text) (migrate_fields f n) of
         Inl e \<Rightarrow> (Inl e, cf)
       | Inr (_, c', changed) \<Rightarrow>
           if changed = [] then (Inr [], cf)
           else let mode = target_mode (cfile cf); doc = header_of text @ print_ini c';
               cf1 = (if bak cf = None \<and> \<not> copy_fails then cf\<lparr>bak := Some (text, mode)\<rparr> else cf)
             in case run_steps fail mode doc [MkTemp] (cfile cf1) of
                 (False, d) \<Rightarrow> (Inl OSError, cf1\<lparr>cfile := d\<rparr>)
               | (True, d) \<Rightarrow>
                   (case run_steps fail mode doc [FChmod, Dump, FSync, Replace] d of
                      (False, d2) \<Rightarrow> (Inl OSError,
                        cf1\<lparr>cfile := if fail Unlink then d2 else step_effect mode doc Unlink d2\<rparr>)
                    | (True, d2) \<Rightarrow> (Inr changed,
                        cf1\<lparr>cfile := if fail Chmod then d2 else step_effect mode doc Chmod d2\<rparr>))))"

subsection \<open>Tokens are written as they are\<close>

definition base64_chars :: string where
  "base64_chars = ''ABCDEFGHIJKLMNOPQRSTUVWXYZabcdefghijklmnopqrstuvwxyz0123456789-_=''"

definition fernet_text :: "fernet \<Rightarrow> bool" where
  "fernet_text f \<longleftrightarrow> (\<forall>n p. set (f_encrypt f n p) \<subseteq> set base64_chars)"

lemma token_chars:
  assumes "fernet_text f" "\<not> is_encrypted p" "c \<in> set (sm_encrypt f n p)"
  shows "\<not> is_ws c \<and> c \<notin> {CHR ''#'', CHR '';'', CHR 0x0A, CHR 0x0D}"
proof -
  have "list_all (\<lambda>c. \<not> is_ws c \<and> c \<notin> {CHR ''#'', CHR '';'', CHR 0x0A, CHR 0x0D}) (enc_prefix @ base64_chars)" by code_simp
  moreover have "c \<in> set (enc_prefix @ base64_chars)"
    using assms unfolding sm_encrypt_def fernet_text_def by (auto split: if_splits)
  ultimately show ?thesis unfolding list_all_iff by blast
qed

lemma plain_clean: "\<forall>c \<in> set s. c \<noteq> CHR ''#'' \<and> c \<noteq> CHR '';'' \<Longrightarrow> clean w s"
  by (induction w s rule: clean.induct) auto

lemma token_value_ok: "fernet_text f \<Longrightarrow> \<not> is_encrypted p \<Longrightarrow> value_ok (sm_encrypt f n p)"
proof -
  let ?t = "sm_encrypt f n p"
  assume f: "fernet_text f" "\<not> is_encrypted p"
  note t = token_chars [OF f, of _ n]
  have "CHR 0x0A \<notin> set ?t" "CHR 0x0D \<notin> set ?t" using t by blast+
  moreover have "?t = [] \<or> \<not> is_ws (last ?t) \<and> \<not> is_ws (hd ?t)" using t last_in_set hd_in_set by blast
  moreover have "clean True ?t" using t by (intro plain_clean) blast
  moreover have "rstrip ?t = ?t" using rstrip_last [of ?t] calculation(3) by (cases "?t = []") (simp_all, simp add: rstrip_def)
  ultimately show ?thesis
    using split_join [of "[?t]" "CHR 0x0A"] by (auto simp: value_ok_def stripped_def)
qed

lemma field_key_ok: "k \<in> set (fields_for_section s) \<Longrightarrow> key_ok k"
proof -
  have A: "list_all key_ok (concat (map snd sensitive_fields))" by code_simp
  have B: "set (wildcard_fields s fs) \<subseteq> set (concat (map snd fs))" for fs
    by (induction fs) (auto split: if_splits)
  assume k: "k \<in> set (fields_for_section s)"
  have "k \<in> set (concat (map snd sensitive_fields))"
  proof (cases "map_of sensitive_fields s")
    case None
    then show ?thesis using k B [of sensitive_fields] by (auto simp: fields_for_section_def)
  next
    case (Some fs)
    then show ?thesis using k map_of_SomeD [OF Some] by (force simp: fields_for_section_def)
  qed
  then show ?thesis using A by (simp only: list_all_iff)
qed

subsection \<open>The migration moves a configuration along a preorder\<close>

definition protected :: "string option \<Rightarrow> bool" where
  "protected v = (case v of None \<Rightarrow> True | Some v \<Rightarrow> v = [] \<or> is_encrypted v)"

text \<open>
  Same sections, every option decrypts as before, protected values and options that are not
  secret keep their text, a new text has no percent sign, the configuration can be written as before,
  and nothing changed unless a change was recorded.
\<close>

definition migrates :: "fernet \<Rightarrow> migration \<Rightarrow> migration \<Rightarrow> bool" where
  "migrates f m m' = (case m of (n, c, ch) \<Rightarrow> case m' of (n', c', ch') \<Rightarrow>
     dkeys (sections c') = dkeys (sections c)
   \<and> (\<forall>s k. map_option (sm_decrypt f) (config_raw c' s k) = map_option (sm_decrypt f) (config_raw c s k))
   \<and> (\<forall>s k. protected (config_raw c s k) \<or> lower k \<notin> set (fields_for_section s)
        \<longrightarrow> config_raw c' s k = config_raw c s k)
   \<and> (\<forall>s k v. config_raw c' s k = Some v \<longrightarrow> config_raw c s k = Some v \<or> CHR ''%'' \<notin> set v)
   \<and> (ini_ok c \<longrightarrow> ini_ok c')
   \<and> length ch \<le> length ch' \<and> (length ch' = length ch \<longrightarrow> m' = m))"

lemma migrates_refl: "migrates f m m"
  by (simp add: migrates_def split: prod.splits)

lemma migrates_trans: "migrates f a b \<Longrightarrow> migrates f b c \<Longrightarrow> migrates f a c"
proof -
  assume ab: "migrates f a b" and bc: "migrates f b c"
  obtain n1 c1 h1 n2 c2 h2 n3 c3 h3 where abc: "a = (n1, c1, h1)" "b = (n2, c2, h2)" "c = (n3, c3, h3)"
    by (metis prod_cases3)
  have keep: "config_raw c3 s k = config_raw c1 s k"
    if "protected (config_raw c1 s k) \<or> lower k \<notin> set (fields_for_section s)" for s k
  proof -
    have "config_raw c2 s k = config_raw c1 s k" using ab that unfolding migrates_def abc prod.case by blast
    moreover have "config_raw c3 s k = config_raw c2 s k"
      using bc that calculation unfolding migrates_def abc prod.case by metis
    ultimately show ?thesis by simp
  qed
  have new: "config_raw c1 s k = Some v \<or> CHR ''%'' \<notin> set v" if "config_raw c3 s k = Some v" for s k v
    using ab bc that unfolding migrates_def abc prod.case by blast
  have ini: "ini_ok c1 \<longrightarrow> ini_ok c3" using ab bc unfolding migrates_def abc prod.case by blast
  have "length h1 \<le> length h2" "length h2 \<le> length h3"
    "length h2 = length h1 \<longrightarrow> b = a" "length h3 = length h2 \<longrightarrow> c = b"
    using ab bc unfolding migrates_def abc prod.case by blast+
  then have len: "length h3 = length h1 \<longrightarrow> c = a" "length h1 \<le> length h3"
    by (metis le_antisym, linarith)
  show ?thesis using ab bc keep len new ini unfolding migrates_def abc prod.case by metis
qed

lemma migrate_key_step:
  assumes f: "fernet_sound f" "fernet_text f" and key: "key \<in> set (fields_for_section sec)"
    and sec: "sec \<in> set (dkeys (sections (fst (snd m))))"
  shows "\<exists>m'. migrate_key f sec key m = Inr m' \<and> migrates f m m' \<and> protected (config_raw (fst (snd m')) sec key)"
proof -
  obtain n c ch where m: "m = (n, c, ch)" by (cases m)
  show ?thesis
  proof (cases "protected (config_raw c sec key)")
    case True
    then have "migrate_key f sec key m = Inr m"
      by (auto simp: migrate_key_def m protected_def split: option.splits)
    then show ?thesis using True migrates_refl by (fastforce simp: m)
  next
    case False
    then obtain v where v: "config_raw c sec key = Some v" "v \<noteq> []" "\<not> is_encrypted v"
      by (auto simp: protected_def split: option.splits)
    obtain os where os: "dget (sections c) sec = Some os"
      using sec weak_map_of_SomeI by (fastforce simp: m)
    let ?t = "sm_encrypt f n v"
    let ?c = "c\<lparr>sections := dset sec (dset (lower key) ?t os) (sections c)\<rparr>"
    have set: "config_set sec key ?t c = Inr ?c"
      using sm_encrypt_plain [OF f(1) v(3)] os by (simp add: config_set_def)
    have step: "migrate_key f sec key m = Inr (Suc n, ?c, ch @ [(sec, key)])"
      using v set by (simp add: migrate_key_def m)
    have raw: "config_raw ?c s k = (if s = sec \<and> lower k = lower key then Some ?t else config_raw c s k)"
      for s k by (rule config_raw_set [OF set])
    have same: "config_raw c s k = Some v" if "s = sec" "lower k = lower key" for s k
      using v(1) unfolding config_raw_def that .
    have lk: "lower key = key" using key by (rule fields_lower)
    have "migrates f m (Suc n, ?c, ch @ [(sec, key)])"
      unfolding migrates_def m prod.case
    proof (intro conjI allI impI)
      show "dkeys (sections ?c) = dkeys (sections c)"
        using os by (simp add: update_keys) (metis fst_conv map_of_SomeD imageI)
      show "map_option (sm_decrypt f) (config_raw ?c s k) = map_option (sm_decrypt f) (config_raw c s k)" for s k
        using f(1) v(3) same [of s k] by (simp add: raw sm_decrypt_plain)
      show "config_raw ?c s k = config_raw c s k"
        if "protected (config_raw c s k) \<or> lower k \<notin> set (fields_for_section s)" for s k
        using that v same [of s k] key lk by (auto simp: raw [unfolded lk] protected_def)
      show "config_raw c s k = Some w \<or> CHR ''%'' \<notin> set w" if "config_raw ?c s k = Some w" for s k w
        using that sm_encrypt_plain [OF f(1) v(3)] by (auto simp: raw split: if_splits)
      show "ini_ok ?c" if "ini_ok c"
        by (rule config_set_ok [OF set that]) (simp_all add: lk field_key_ok [OF key] token_value_ok [OF f(2) v(3)])
    qed simp_all
    moreover have "protected (config_raw ?c sec key)"
      using raw [of sec key] sm_encrypt_encrypted [OF v(2)] by (simp add: protected_def)
    ultimately show ?thesis using step by (metis fst_conv snd_conv)
  qed
qed

lemma migrates_keys: "migrates f m m' \<Longrightarrow> dkeys (sections (fst (snd m'))) = dkeys (sections (fst (snd m)))"
  by (cases m; cases m') (simp add: migrates_def)

lemma migrates_protected:
  "migrates f m m' \<Longrightarrow> protected (config_raw (fst (snd m)) s k) \<Longrightarrow> protected (config_raw (fst (snd m')) s k)"
  by (cases m; cases m') (simp add: migrates_def)

lemma migrate_section_step:
  assumes f: "fernet_sound f" "fernet_text f" and sec: "sec \<in> set (dkeys (sections (fst (snd m))))"
  shows "\<exists>m'. migrate_section f sec m = Inr m' \<and> migrates f m m'
    \<and> (\<forall>key \<in> set (fields_for_section sec). protected (config_raw (fst (snd m')) sec key))"
  unfolding migrate_section_def
proof (rule fold_r_progress [where P = "\<lambda>m. sec \<in> set (dkeys (sections (fst (snd m))))"])
  show "\<exists>s'. migrate_key f sec x s = Inr s' \<and> migrates f s s' \<and> protected (config_raw (fst (snd s')) sec x)"
    if "x \<in> set (fields_for_section sec)" "sec \<in> set (dkeys (sections (fst (snd s))))" for x s
    by (rule migrate_key_step [OF f that])
qed (use sec in \<open>auto simp: migrates_keys simp del: set_map intro: migrates_refl migrates_trans migrates_protected\<close>)

lemma migrate_fields_ok:
  assumes f: "fernet_sound f" "fernet_text f"
  shows "\<exists>m'. migrate_fields f n c = Inr m' \<and> migrates f (n, c, []) m'
    \<and> (\<forall>sec \<in> set (dkeys (sections c)). \<forall>key \<in> set (fields_for_section sec).
         protected (config_raw (fst (snd m')) sec key))"
  unfolding migrate_fields_def
proof (rule fold_r_progress [where P = "\<lambda>m. dkeys (sections (fst (snd m))) = dkeys (sections c)"])
  show "\<exists>s'. migrate_section f x s = Inr s' \<and> migrates f s s'
      \<and> (\<forall>key \<in> set (fields_for_section x). protected (config_raw (fst (snd s')) x key))"
    if "x \<in> set (dkeys (sections c))" "dkeys (sections (fst (snd s))) = dkeys (sections c)" for x s
    by (rule migrate_section_step [OF f]) (use that in simp)
qed (auto simp: migrates_keys intro: migrates_refl migrates_trans migrates_protected)

lemma migrate_fields_done:
  assumes "\<forall>sec \<in> set (dkeys (sections c)). \<forall>key \<in> set (fields_for_section sec). protected (config_raw c sec key)"
  shows "migrate_fields f n c = Inr (n, c, [])"
  unfolding migrate_fields_def
proof (rule fold_r_id, rule ballI)
  fix sec assume "sec \<in> set (dkeys (sections c))"
  then have "\<forall>key \<in> set (fields_for_section sec). migrate_key f sec key (n, c, []) = Inr (n, c, [])"
    using assms by (auto simp: migrate_key_def protected_def split: option.splits)
  then show "migrate_section f sec (n, c, []) = Inr (n, c, [])"
    unfolding migrate_section_def by (rule fold_r_id)
qed

subsection \<open>The write\<close>

lemma run_write_steps:
  "run_steps fail mode doc [MkTemp] d = (ok, d1) \<Longrightarrow> target d1 = target d \<and> target_mode d1 = target_mode d"
  "run_steps fail mode doc [FChmod, Dump, FSync, Replace] d1 = (ok', d2) \<Longrightarrow> target d2 = target d1 \<or>
     (ok' \<and> (temp d1 \<noteq> None \<longrightarrow> target d2 = Holds doc))"
  by (auto split: if_splits option.splits)

lemma mktemp_temp: "run_steps fail mode doc [MkTemp] d = (True, d1) \<Longrightarrow> temp d1 \<noteq> None"
  by (auto split: if_splits)

lemma migrate_config_text:
  assumes "target (cfile cf) = Holds t" "parse_ini t = Inr c" "migrate_fields f n c = Inr (n', c', changed)"
  shows "target (cfile (snd (migrate_config fail copy_fails f n cf))) = Holds t \<or>
    changed \<noteq> [] \<and> target (cfile (snd (migrate_config fail copy_fails f n cf))) = Holds (header_of t @ print_ini c')"
proof (cases "changed = []")
  case True
  then show ?thesis by (simp add: migrate_config_def bind_r_def assms)
next
  case False
  let ?m = "target_mode (cfile cf)" and ?d = "header_of t @ print_ini c'"
  let ?cf = "if bak cf = None \<and> \<not> copy_fails then cf\<lparr>bak := Some (t, ?m)\<rparr> else cf"
  have cfe: "cfile ?cf = cfile cf" by simp
  obtain ok d1 where 1: "run_steps fail ?m ?d [MkTemp] (cfile cf) = (ok, d1)" by fastforce
  obtain ok2 d2 where 2: "run_steps fail ?m ?d [FChmod, Dump, FSync, Replace] d1 = (ok2, d2)" by fastforce
  have t: "target d1 = Holds t" using run_write_steps(1) [OF 1] assms(1) by auto
  have t2: "target d2 \<in> {Holds t, Holds ?d}" if "ok"
    using run_write_steps(2) [OF 2] mktemp_temp [OF 1 [unfolded eqTrueI [OF that]]] by (metis t insertCI)
  show ?thesis
    using t t2 False 1 2
    by (cases ok; cases ok2) (simp_all add: migrate_config_def bind_r_def assms Let_def cfe del: run_steps.simps)
qed

lemma migrate_config_no_faults:
  assumes "target (cfile cf) = Holds t" "parse_ini t = Inr c" "migrate_fields f n c = Inr (n', c', changed)" "changed \<noteq> []"
  shows "migrate_config no_faults copy_fails f n cf = (Inr changed,
    cf\<lparr>cfile := (cfile cf)\<lparr>target := Holds (header_of t @ print_ini c'), temp := None\<rparr>,
       bak := if bak cf = None \<and> \<not> copy_fails then Some (t, target_mode (cfile cf)) else bak cf\<rparr>)"
  using assms by (simp add: migrate_config_def bind_r_def Let_def)

text \<open>The text that is written is read as the migrated configuration.\<close>

lemma migrated_read:
  assumes ini: "parse_ini t = Inr c" "no_comment_signs c"
    and m: "migrate_fields f n c = Inr (n', c', changed)" "migrates f (n, c, []) (n', c', changed)" "changed \<noteq> []"
  shows "parse_ini (header_of t @ print_ini c') = Inr c' \<and> header_of (header_of t @ print_ini c') = header_of t"
proof -
  have "sections c \<noteq> []" using m(1,3) by (auto simp: migrate_fields_def)
  then have h: "header_ok (header_of t)" using header_of_ok [OF ini(1)] header_ended [OF ini(1)] by blast
  have "ini_ok c'" using m(2) parsed_ok [OF ini] unfolding migrates_def prod.case by blast
  then show ?thesis using parse_print header_kept h by blast
qed

lemma migrated_file:
  assumes f: "fernet_sound f" "fernet_text f"
    and ini: "target (cfile cf) = Holds t" "parse_ini t = Inr c" "no_comment_signs c"
  obtains t' n' c' ch where "target (cfile (snd (migrate_config fail copy_fails f n cf))) = Holds t'"
    "parse_ini t' = Inr c'" "header_of t' = header_of t" "migrates f (n, c, []) (n', c', ch)"
proof -
  obtain n1 c1 ch where m: "migrate_fields f n c = Inr (n1, c1, ch)" "migrates f (n, c, []) (n1, c1, ch)"
    using migrate_fields_ok [OF f, of n c] by (metis prod_cases3)
  show thesis
    using migrate_config_text [OF ini(1,2) m(1), of fail copy_fails]
  proof
    assume "target (cfile (snd (migrate_config fail copy_fails f n cf))) = Holds t"
    then show thesis using that ini(2) migrates_refl by blast
  next
    assume a: "ch \<noteq> [] \<and> target (cfile (snd (migrate_config fail copy_fails f n cf))) = Holds (header_of t @ print_ini c1)"
    then show thesis using that migrated_read [OF ini(2,3) m] m(2) by blast
  qed
qed

text \<open>What an option without a percent sign is read as depends on its decrypted text alone.\<close>

lemma migrates_get:
  assumes m: "migrates f (n, c, []) (n', c', ch)" and plain: "\<forall>v. config_raw c sec key = Some v \<longrightarrow> CHR ''%'' \<notin> set v"
  shows "cfg_get (Some f) c' sec key d = cfg_get (Some f) c sec key d"
proof -
  have dec: "map_option (sm_decrypt f) (config_raw c' sec key) = map_option (sm_decrypt f) (config_raw c sec key)"
    and new: "\<And>v. config_raw c' sec key = Some v \<Longrightarrow> config_raw c sec key = Some v \<or> CHR ''%'' \<notin> set v"
    using m unfolding migrates_def prod.case by blast+
  show ?thesis
  proof (cases "config_raw c sec key")
    case None
    then show ?thesis using dec by (simp add: cfg_get_def config_get_def)
  next
    case (Some v)
    then obtain v' where v': "config_raw c' sec key = Some v'" "sm_decrypt f v' = sm_decrypt f v" using dec by auto
    have "CHR ''%'' \<notin> set v" "CHR ''%'' \<notin> set v'" using new [OF v'(1)] plain Some by auto
    then show ?thesis using config_get_plain [OF Some] config_get_plain [OF v'(1)] v'(2) by (simp add: cfg_get_def bind_r_def)
  qed
qed

text \<open>A file for the instances below.\<close>

definition sample_ini :: string where
  "sample_ini = ''# agent'' @ newline @ ''[smtp]'' @ newline @ ''host = mail'' @ newline @ ''password = pw'' @ newline @
     ''[credentials.aruba_os]'' @ newline @ ''password = aos'' @ newline"

definition sample_config :: config where
  "sample_config = \<lparr>defaults = [], sections =
     [(''smtp'', [(''host'', ''mail''), (''password'', ''pw'')]),
      (''credentials.aruba_os'', [(''password'', ''aos'')])]\<rparr>"

definition config_at :: "string \<Rightarrow> config_file" where
  "config_at t = \<lparr>cfile = \<lparr>target = Holds t, target_mode = 416, temp = None\<rparr>, bak = None\<rparr>"

lemma sample_read: "parse_ini sample_ini = Inr sample_config" "no_comment_signs sample_config"
  by code_simp+

lemma sample_text: "fernet_text sample_fernet"
proof -
  have digits: "c \<in> set base64_chars" if "is_digit c" for c
  proof -
    have "48 \<le> (of_char c :: nat)" "of_char c < (58 :: nat)" using that by (simp_all add: is_digit_def Let_def)
    then have "of_char c \<in> set [48..<58 :: nat]" unfolding set_upt atLeastLessThan_iff by blast
    moreover have "c = char_of (of_char c :: nat)" by simp
    ultimately have "c \<in> set (map char_of [48..<58 :: nat])" unfolding set_map by (rule rev_image_eqI)
    moreover have "list_all (\<lambda>c. c \<in> set base64_chars) (map char_of [48..<58 :: nat])" by code_simp
    ultimately show ?thesis unfolding list_all_iff by blast
  qed
  have "set (padded k m) \<subseteq> set base64_chars" for k m
    using padded_digits [of k m] digits by (auto simp: list_all_iff simp del: padded.simps padded_digits)
  then show ?thesis unfolding fernet_text_def sample_fernet_def by (auto simp del: padded.simps)
qed

subsection \<open>Properties\<close>

text \<open>
  C5: The migration loses no secret.  The file is one that the program reads, and none of its sections, option
  names and values has a comment sign (a number sign or semicolon) at the start of a word, which the reader
  lets pass right after an equals sign only.  Then, whichever steps of the migration fail, also midway through
  the rewrite, the text on disk is again one the program reads, with the same header and sections; every option
  decrypts to what it decrypted to before, options that are not secret keep their text, and every option
  whose text has no percent sign is read as before by the decrypting reader.  The copy beside the file holds
  the old text and, once written, is never overwritten.
\<close>

theorem migration_keeps_secrets:
  assumes f: "fernet_sound f" "fernet_text f"
    and ini: "target (cfile cf) = Holds t" "parse_ini t = Inr c" "no_comment_signs c"
    and run: "cf' = snd (migrate_config fail copy_fails f n cf)"
  shows "(\<exists>t' c'. target (cfile cf') = Holds t' \<and> parse_ini t' = Inr c' \<and> header_of t' = header_of t
      \<and> dkeys (sections c') = dkeys (sections c)
      \<and> (\<forall>sec key. map_option (decrypt (Some f)) (config_raw c' sec key)
                 = map_option (decrypt (Some f)) (config_raw c sec key))
      \<and> (\<forall>sec key. lower key \<notin> set (fields_for_section sec) \<longrightarrow> config_raw c' sec key = config_raw c sec key)
      \<and> (\<forall>sec key d. (\<forall>v. config_raw c sec key = Some v \<longrightarrow> CHR ''%'' \<notin> set v)
           \<longrightarrow> cfg_get (Some f) c' sec key d = cfg_get (Some f) c sec key d))
    \<and> (bak cf \<noteq> None \<longrightarrow> bak cf' = bak cf)
    \<and> (bak cf' \<noteq> bak cf \<longrightarrow> bak cf' = Some (t, target_mode (cfile cf)))"
proof (intro conjI)
  obtain n' c' ch where m: "migrate_fields f n c = Inr (n', c', ch)" using migrate_fields_ok [OF f, of n c] by (metis prod_cases3)
  show "bak cf \<noteq> None \<longrightarrow> bak cf' = bak cf" "bak cf' \<noteq> bak cf \<longrightarrow> bak cf' = Some (t, target_mode (cfile cf))"
    by (simp_all add: run migrate_config_def bind_r_def ini m Let_def del: run_steps.simps split: prod.splits bool.splits)
  obtain t' n' c' ch where t': "target (cfile cf') = Holds t'" "parse_ini t' = Inr c'" "header_of t' = header_of t"
    and g: "migrates f (n, c, []) (n', c', ch)"
    using migrated_file [OF f ini] run by metis
  have d: "decrypt (Some f) = sm_decrypt f" by (rule ext) simp
  have "dkeys (sections c') = dkeys (sections c)"
    "\<forall>sec key. map_option (decrypt (Some f)) (config_raw c' sec key) = map_option (decrypt (Some f)) (config_raw c sec key)"
    "\<forall>sec key. lower key \<notin> set (fields_for_section sec) \<longrightarrow> config_raw c' sec key = config_raw c sec key"
    using g unfolding d migrates_def prod.case by blast+
  with t' migrates_get [OF g] show "\<exists>t' c'. target (cfile cf') = Holds t' \<and> parse_ini t' = Inr c' \<and> header_of t' = header_of t
      \<and> dkeys (sections c') = dkeys (sections c)
      \<and> (\<forall>sec key. map_option (decrypt (Some f)) (config_raw c' sec key)
                 = map_option (decrypt (Some f)) (config_raw c sec key))
      \<and> (\<forall>sec key. lower key \<notin> set (fields_for_section sec) \<longrightarrow> config_raw c' sec key = config_raw c sec key)
      \<and> (\<forall>sec key d. (\<forall>v. config_raw c sec key = Some v \<longrightarrow> CHR ''%'' \<notin> set v)
           \<longrightarrow> cfg_get (Some f) c' sec key d = cfg_get (Some f) c sec key d)" by blast
qed

theorem migration_keeps_secrets_witness:
  "\<exists>t' c'. target (cfile (snd (migrate_config no_faults False sample_fernet 0 (config_at sample_ini)))) = Holds t' \<and> parse_ini t' = Inr c' \<and>
     cfg_get (Some sample_fernet) c' ''smtp'' ''password'' [] = Inr ''pw''"
proof -
  have tgt: "target (cfile (config_at sample_ini)) = Holds sample_ini" by (simp add: config_at_def)
  have raw: "config_raw sample_config ''smtp'' ''password'' = Some ''pw''" by code_simp
  have "\<not> is_encrypted ''pw''" by code_simp
  then have old: "cfg_get (Some sample_fernet) sample_config ''smtp'' ''password'' [] = Inr ''pw''"
    using config_get_plain [OF raw] by (simp add: cfg_get_def sm_decrypt_plain)
  have "\<forall>v. config_raw sample_config ''smtp'' ''password'' = Some v \<longrightarrow> CHR ''%'' \<notin> set v" by (simp add: raw)
  then show ?thesis
    using migration_keeps_secrets [OF sample_sound sample_text tgt sample_read refl, of no_faults False 0] old by metis
qed

text \<open>
  The migration protects every listed field, once.  When the file system works, it succeeds,
  afterwards no listed secret of any section is left in cleartext, the file keeps its mode, and a
  second run finds nothing to do and leaves the file alone.
\<close>

theorem migration_encrypts_once:
  assumes f: "fernet_sound f" "fernet_text f"
    and ini: "target (cfile cf) = Holds t" "parse_ini t = Inr c" "no_comment_signs c"
    and run: "migrate_config no_faults copy_fails f n cf = (res, cf')"
  shows "\<exists>changed t' c'. res = Inr changed \<and> target (cfile cf') = Holds t' \<and> parse_ini t' = Inr c'
    \<and> (\<forall>sec \<in> set (dkeys (sections c')). \<forall>key \<in> set (fields_for_section sec).
         config_raw c' sec key \<in> {None, Some []} \<or> is_encrypted (the (config_raw c' sec key)))
    \<and> target_mode (cfile cf') = target_mode (cfile cf)
    \<and> migrate_config fail copy_fails' f n' cf' = (Inr [], cf')"
proof -
  obtain n1 c1 ch where m: "migrate_fields f n c = Inr (n1, c1, ch)" "migrates f (n, c, []) (n1, c1, ch)"
    and p: "\<forall>sec \<in> set (dkeys (sections c)). \<forall>key \<in> set (fields_for_section sec). protected (config_raw c1 sec key)"
    using migrate_fields_ok [OF f, of n c] by (metis prod_cases3 fst_conv snd_conv)
  have k: "dkeys (sections c1) = dkeys (sections c)" and same: "ch = [] \<longrightarrow> c1 = c"
    using m(2) unfolding migrates_def prod.case by simp_all
  have e: "config_raw c1 s q \<in> {None, Some []} \<or> is_encrypted (the (config_raw c1 s q))"
    if "s \<in> set (dkeys (sections c1))" "q \<in> set (fields_for_section s)" for s q
    using p k that by (fastforce simp: protected_def split: option.splits)
  have again: "migrate_fields f n' c1 = Inr (n', c1, [])"
    by (rule migrate_fields_done) (use p k in simp)
  obtain t' where r: "res = Inr ch" "target (cfile cf') = Holds t'" "target_mode (cfile cf') = target_mode (cfile cf)" "parse_ini t' = Inr c1"
  proof (cases "ch = []")
    case True
    then show thesis using that [of t] run ini m(1) same by (simp add: migrate_config_def bind_r_def)
  next
    case False
    then show thesis
      using that [of "header_of t @ print_ini c1"] run migrate_config_no_faults [OF ini(1,2) m(1) False] migrated_read [OF ini(2,3) m False] by auto
  qed
  then have "migrate_config fail copy_fails' f n' cf' = (Inr [], cf')"
    using again by (simp add: migrate_config_def bind_r_def)
  with r e show ?thesis by blast
qed

theorem migration_encrypts_once_witness:
  "\<exists>changed. fst (migrate_config no_faults False sample_fernet 0 (config_at sample_ini)) = Inr changed"
  using migration_encrypts_once [OF sample_sound sample_text, of "config_at sample_ini" sample_ini sample_config False 0
      "fst (migrate_config no_faults False sample_fernet 0 (config_at sample_ini))"
      "snd (migrate_config no_faults False sample_fernet 0 (config_at sample_ini))"] sample_read
  by (auto simp: config_at_def)

text \<open>
  Passwords of sections the list does not name stay readable.  The AOS-8 and ArubaOS driver
  accounts and the per-switch sections are read through the decrypting reader, but the migration
  leaves their passwords in cleartext in the file.
\<close>

theorem migration_leaves_driver_passwords:
  assumes f: "fernet_sound f" "fernet_text f"
    and ini: "target (cfile cf) = Holds t" "parse_ini t = Inr c" "no_comment_signs c"
    and sec: "sec \<in> {''credentials.aruba_os'', ''credentials.aos8''} \<or> startswith sec ''switch.''"
    and pw: "config_raw c sec ''password'' = Some pw"
  shows "\<exists>t' c'. target (cfile (snd (migrate_config fail copy_fails f n cf))) = Holds t' \<and> parse_ini t' = Inr c'
    \<and> config_raw c' sec ''password'' = Some pw"
proof -
  have w: "wildcard_fields sec sensitive_fields = []" if "\<not> startswith sec ''snmp.''"
    using that by (simp add: sensitive_fields_def endswith_def)
  have mo: "map_of sensitive_fields sec = None \<and> \<not> startswith sec ''snmp.''"
  proof (cases "startswith sec ''switch.''")
    case True
    then obtain r where r: "sec = ''switch.'' @ r" by (metis append_take_drop_id startswith_def)
    show ?thesis unfolding r by (simp add: sensitive_fields_def startswith_def)
  next
    case False
    then have "sec = ''credentials.aruba_os'' \<or> sec = ''credentials.aos8''" using sec by blast
    then show ?thesis by (elim disjE) (simp_all only:, simp_all add: sensitive_fields_def startswith_def)
  qed
  then have "fields_for_section sec = []" by (simp add: fields_for_section_def w)
  moreover obtain t' n' c' ch where t': "target (cfile (snd (migrate_config fail copy_fails f n cf))) = Holds t'" "parse_ini t' = Inr c'"
    and m: "migrates f (n, c, []) (n', c', ch)"
    using migrated_file [OF f ini] by metis
  ultimately have "config_raw c' sec ''password'' = Some pw"
    using pw unfolding migrates_def prod.case by simp
  with t' show ?thesis by blast
qed

theorem migration_leaves_driver_passwords_witness:
  "\<exists>t' c'. target (cfile (snd (migrate_config no_faults False sample_fernet 0 (config_at sample_ini)))) = Holds t' \<and> parse_ini t' = Inr c'
    \<and> config_raw c' ''credentials.aruba_os'' ''password'' = Some ''aos''"
  by (rule migration_leaves_driver_passwords [OF sample_sound sample_text _ sample_read])
    (simp_all add: config_at_def sample_config_def config_raw_def lower_def lower_char_def)

text \<open>
  The migration changes a password with a percent sign.  Before it, the reader interpolates the
  text of the file, so the password written as a%%b, as the file format requires, is a%b; the
  migration encrypts the text without interpolating it, and the same reader then returns a%%b.
\<close>

definition percent_ini :: string where
  "percent_ini = ''[smtp]'' @ newline @ ''password = a%%b'' @ newline"

theorem migration_changes_percent_password:
  assumes f: "fernet_sound f" "fernet_text f" and tgt: "target (cfile cf) = Holds percent_ini"
  shows "map_sum id (\<lambda>c. cfg_get (Some f) c ''smtp'' ''password'' []) (parse_ini percent_ini) = Inr (Inr ''a%b'')
    \<and> (\<exists>t' c'. target (cfile (snd (migrate_config no_faults copy_fails f n cf))) = Holds t' \<and> parse_ini t' = Inr c'
        \<and> cfg_get (Some f) c' ''smtp'' ''password'' [] = Inr ''a%%b'')"
proof -
  let ?t = "sm_encrypt f n ''a%%b''"
  define c where "c = \<lparr>defaults = [], sections = [(''smtp'', [(''password'', ''a%%b'')])]\<rparr>"
  let ?c = "\<lparr>defaults = [], sections = [(''smtp'', [(''password'', ?t)])]\<rparr>"
  have p: "parse_ini percent_ini = Inr c" "no_comment_signs c" unfolding c_def by code_simp+
  have l: "lower ''password'' = ''password''" by (simp add: lower_def lower_char_def)
  have ne: "\<not> is_encrypted ''a%%b''" by (simp add: is_encrypted_def enc_prefix_def startswith_def)
  have pc: "CHR ''%'' \<notin> set ?t" by (rule sm_encrypt_plain [OF f(1) ne])
  have raw: "config_raw c ''smtp'' ''password'' = Some ''a%%b''" "config_raw ?c ''smtp'' ''password'' = Some ?t"
    by (simp_all add: config_raw_def c_def l)
  have "config_set ''smtp'' ''password'' ?t c = Inr ?c"
    using pc by (simp add: config_set_def c_def l)
  then have k: "migrate_key f ''smtp'' ''password'' (n, c, []) = Inr (Suc n, ?c, [(''smtp'', ''password'')])"
    using raw(1) ne by (simp add: migrate_key_def)
  have fs: "dkeys (sections c) = [''smtp'']" "fields_for_section ''smtp'' = [''password'']"
    by (simp_all add: c_def fields_for_section_def sensitive_fields_def)
  have m: "migrate_fields f n c = Inr (Suc n, ?c, [(''smtp'', ''password'')])"
    using k by (simp add: migrate_fields_def migrate_section_def fs)
  obtain m' where m': "migrate_fields f n c = Inr m'" "migrates f (n, c, []) m'" using migrate_fields_ok [OF f, of n c] by blast
  then have "migrates f (n, c, []) (Suc n, ?c, [(''smtp'', ''password'')])" using m by simp
  from migrated_read [OF p m this] have r: "parse_ini (header_of percent_ini @ print_ini ?c) = Inr ?c" by simp
  have "cfg_get (Some f) c ''smtp'' ''password'' [] = Inr ''a%b''"
    by (simp add: cfg_get_def config_get_def raw sm_decrypt_def enc_prefix_def startswith_def)
  moreover have "cfg_get (Some f) ?c ''smtp'' ''password'' [] = Inr ''a%%b''"
    using config_get_plain [OF raw(2) pc] f(1) ne by (simp add: cfg_get_def)
  ultimately show ?thesis using migrate_config_no_faults [OF tgt p(1) m] r p(1) by simp
qed

theorem migration_changes_percent_password_witness:
  "map_sum id (\<lambda>c. cfg_get (Some sample_fernet) c ''smtp'' ''password'' []) (parse_ini percent_ini) = Inr (Inr ''a%b'')"
  using migration_changes_percent_password [OF sample_sound sample_text, of "config_at percent_ini"]
  by (simp add: config_at_def)

text \<open>
  The comment signs the migration does not keep: a value that starts with one right after its equals sign is
  read, and is blank once the migration has encrypted a password elsewhere in the file.
\<close>

lemma migration_loses_comment_value:
  "let t = ''[web]'' @ newline @ ''banner=#1 site'' @ newline @ ''[smtp]'' @ newline @ ''password = pw'' @ newline;
     f = \<lparr>f_encrypt = \<lambda>n. rev, f_decrypt = \<lambda>t. Some (rev t)\<rparr> in
   map_sum id (\<lambda>c. own c ''web'' ''banner'') (parse_ini t) = Inr (Some ''#1 site'') \<and>
   (case migrate_config no_faults False f 0 (config_at t) of (r, cf) \<Rightarrow>
      r = Inr [(''smtp'', ''password'')] \<and> map_sum id (\<lambda>c. own c ''web'' ''banner'') (editor_read False (cfile cf)) = Inr (Some []))"
  by code_simp

end
