(* ===== verification/Web_Settings.thy ===== *)
theory Web_Settings
  imports Config_Editor Secrets Scope Audit_Log
begin

text \<open>
  The settings pages of \<open>aruba_agent/web/app.py\<close> over the editor of \<open>config.ini\<close>: what a page shows of the
  live configuration, and what a posted form does to it.

  A form maps field names to texts.  The handler of a form gives an answer, and \<open>settings_post\<close> carries it
  out on the disk of the editor.  Flash messages are named, not spelled out, and the redirects behind
  them are left out; the login guard is in Web_Auth.  The pages of the controllers and of the subnet
  check, which also act on the monitor and on another file, and the test sends are not modelled.
\<close>

subsection \<open>Forms\<close>

type_synonym form = "string \<Rightarrow> string option"

text \<open>\<open>f.get(k) or d\<close>, check boxes, and \<open>int(f.get(k) or d)\<close>.\<close>

definition raw_field :: "form \<Rightarrow> string \<Rightarrow> string" where
  "raw_field f k = text_value (f k)"

definition field :: "form \<Rightarrow> string \<Rightarrow> string \<Rightarrow> string" where
  "field f k d = or_else (raw_field f k) d"

definition plain :: "form \<Rightarrow> string \<Rightarrow> string" where
  "plain f k = strip (raw_field f k)"

definition ticked :: "form \<Rightarrow> string \<Rightarrow> bool" where
  "ticked f k = (f k = Some ''on'')"

definition yes_no :: "bool \<Rightarrow> string" where
  "yes_no b = (if b then ''true'' else ''false'')"

definition form_int :: "form \<Rightarrow> string \<Rightarrow> string \<Rightarrow> int option" where
  "form_int f k d = py_int (field f k d)"

text \<open>\<open>_csv\<close>, \<open>_validate_hhmm\<close>, \<open>_validate_cidrs\<close>, \<open>_validate_ips\<close>: the addresses are IPv4.\<close>

definition comma_list :: "string \<Rightarrow> string list" where
  "comma_list s = filter (\<lambda>x. x \<noteq> []) (map strip (split_on (CHR '','') s))"

definition comma_text :: "string \<Rightarrow> string" where
  "comma_text s = join '','' (comma_list s)"

definition number_of :: "string \<Rightarrow> nat" where
  "number_of s = foldl (\<lambda>a c. 10 * a + digit_val c) 0 s"

definition validate_hhmm :: "string \<Rightarrow> string option" where
  "validate_hhmm s = (case split_on (CHR '':'') (strip s) of
       [h, m] \<Rightarrow> if isdigit_str h \<and> isdigit_str m \<and> length h \<le> 2 \<and> length m = 2 \<and> number_of h \<le> 23 \<and> number_of m \<le> 59
           then Some (padded 2 (number_of h) @ '':'' @ padded 2 (number_of m)) else None
     | _ \<Rightarrow> None)"

definition bad_cidrs :: "string \<Rightarrow> string list" where
  "bad_cidrs s = filter (\<lambda>x. parse_network x = None) (comma_list s)"

definition bad_ips :: "string \<Rightarrow> string list" where
  "bad_ips s = filter (\<lambda>x. parse_ipv4 x = None) (comma_list s)"

text \<open>\<open>re.match\<close> of \<open>^[...]+$\<close>: the dollar sign also matches before a line feed at the end.\<close>

definition full_match :: "string \<Rightarrow> string \<Rightarrow> bool" where
  "full_match extra s = (let b = (if s \<noteq> [] \<and> last s = CHR 0x0A then butlast s else s) in
     b \<noteq> [] \<and> list_all (\<lambda>c. is_digit c \<or> (97 \<le> byte (lower_char c) \<and> byte (lower_char c) \<le> 122) \<or> c \<in> set extra) b)"

definition profile_name :: "string \<Rightarrow> bool" where
  "profile_name = full_match ''_-''"

definition location_name :: "string \<Rightarrow> bool" where
  "location_name = full_match ''._-''"

subsection \<open>Answers\<close>

datatype key_file = No_File | No_Stat | Mode nat

record settings_env =
  se_editor :: bool
  se_file_ok :: bool
  se_dir_ok :: bool
  se_unreadable :: bool
  se_fail :: faults
  se_manager :: "fernet option"
  se_nonce :: nat
  se_key_file :: "string \<Rightarrow> key_file"
  se_token :: string

type_synonym audit_note = "(string \<times> (string \<times> string) list) option"

datatype form_answer = Refuse string | Bad_Request
  | Change "(string \<times> (string \<times> string) list \<times> string list) list" audit_note
  | Drop_Section string audit_note

text \<open>\<open>_enc\<close>, and \<open>live[sec][key]\<close> when the section has the option, else the empty text.\<close>

definition enc :: "settings_env \<Rightarrow> nat \<Rightarrow> string \<Rightarrow> string" where
  "enc env i v = (if v = [] then [] else if is_encrypted v then v
     else (case se_manager env of None \<Rightarrow> v | Some f \<Rightarrow> sm_encrypt f (se_nonce env + i) v))"

definition stored :: "config \<Rightarrow> string \<Rightarrow> string \<Rightarrow> string result" where
  "stored c sec key = config_get c sec key []"

text \<open>A new secret when one was typed, the stored one otherwise.\<close>

definition kept_secret :: "settings_env \<Rightarrow> nat \<Rightarrow> string \<Rightarrow> config \<Rightarrow> string \<Rightarrow> string \<Rightarrow> string result" where
  "kept_secret env i typed c sec key = bind_r (stored c sec key) (\<lambda>old. Inr (if typed \<noteq> [] then enc env i typed else old))"

definition saved_note :: "string \<Rightarrow> (string \<times> string) list \<Rightarrow> audit_note" where
  "saved_note sec details = Some (''settings.'' @ sec @ ''.save'', details)"

subsection \<open>The handlers\<close>

definition auth_post :: "settings_env \<Rightarrow> form \<Rightarrow> config result \<Rightarrow> form_answer result" where
  "auth_post env f live0 =
     (let local = [(''enabled'', yes_no (ticked f ''local_enabled'')),
                   (''store_file'', strip (field f ''local_store_file'' ''/var/lib/aruba-agent/users.json''))];
          radius = [(''enabled'', yes_no (ticked f ''radius_enabled'')), (''server'', plain f ''radius_server''),
                    (''port'', strip (field f ''radius_port'' ''1812'')), (''nas_identifier'', strip (field f ''radius_nas'' ''aruba-switch-manager'')),
                    (''timeout'', strip (field f ''radius_timeout'' ''5'')), (''retries'', strip (field f ''radius_retries'' ''2''))];
          typed = raw_field f ''radius_secret''
      in bind_r live0 (\<lambda>live.
         bind_r (if strip typed \<noteq> [] then Inr (enc env 0 typed) else stored live ''radius'' ''secret'') (\<lambda>secret.
         Inr (if ticked f ''radius_enabled'' \<and> plain f ''radius_server'' = [] then Refuse ''RADIUS server is required''
           else if ticked f ''radius_enabled'' \<and> secret = [] then Refuse ''RADIUS shared secret is required''
           else if \<not> ticked f ''local_enabled'' \<and> \<not> ticked f ''radius_enabled'' then Refuse ''At least one auth backend must be enabled''
           else Change [(''local_auth'', local, []), (''radius'', radius @ [(''secret'', secret)], [])]
             (saved_note ''auth'' [(''local_enabled'', yes_no (ticked f ''local_enabled'')), (''radius_enabled'', yes_no (ticked f ''radius_enabled''))])))))"

definition email_post :: "settings_env \<Rightarrow> form \<Rightarrow> config result \<Rightarrow> form_answer result" where
  "email_post env f live0 = bind_r live0 (\<lambda>live.
     let typed = raw_field f ''smtp_password'';
         vals = [(''enabled'', yes_no (ticked f ''smtp_enabled'')), (''host'', plain f ''smtp_host''), (''port'', strip (field f ''smtp_port'' ''587'')),
                 (''use_tls'', yes_no (ticked f ''smtp_use_tls'')), (''username'', plain f ''smtp_username''), (''from'', plain f ''smtp_from''),
                 (''to'', plain f ''smtp_to'')]
     in bind_r (if typed \<noteq> [] then Inr (enc env 0 typed) else stored live ''smtp'' ''password'') (\<lambda>pw.
        Inr (if ticked f ''smtp_enabled'' \<and> plain f ''smtp_host'' = [] then Refuse ''SMTP host is required''
          else Change [(''smtp'', vals @ [(''password'', pw)], [])] (saved_note ''smtp'' [(''host'', plain f ''smtp_host'')]))))"

definition snmp_post :: "form \<Rightarrow> config result \<Rightarrow> form_answer result" where
  "snmp_post f live0 =
     (let dflt = plain f ''default_profile'';
          saving = Change [(''snmp'', [(''enabled'', yes_no (ticked f ''enabled'')), (''default_profile'', dflt)], [])]
            (saved_note ''snmp'' [(''default_profile'', dflt)])
      in if dflt = [] then Inr saving
         else bind_r live0 (\<lambda>live. Inr (if has_key (sections live) (''snmp.'' @ dflt) then saving else Refuse ''Default profile does not exist'')))"

definition engine_id :: "form \<Rightarrow> string" where
  "engine_id f = filter (\<lambda>c. c \<noteq> CHR '':'') (plain f ''context_engine_id'')"

definition snmp_profile_post :: "settings_env \<Rightarrow> string \<Rightarrow> form \<Rightarrow> config result \<Rightarrow> form_answer result" where
  "snmp_profile_post env name f live0 =
     (if \<not> profile_name name then Inr Bad_Request
      else let sec = ''snmp.'' @ name in
      case (form_int f ''port'' ''161'', form_int f ''timeout'' ''2'', form_int f ''retries'' ''1'') of
        (Some port, Some timeout, Some retries) \<Rightarrow>
          if \<not> (1 \<le> port \<and> port \<le> 65535) \<or> timeout < 1 \<or> retries < 0 then Inr (Refuse ''Port, timeout, retries must be valid integers'')
          else bind_r live0 (\<lambda>live.
            bind_r (stored live sec ''auth_password'') (\<lambda>old_auth. bind_r (stored live sec ''priv_password'') (\<lambda>old_priv.
            let new_auth = raw_field f ''auth_password''; new_priv = raw_field f ''priv_password''; cei = engine_id f in
            Inr (if cei \<noteq> [] \<and> (\<not> list_all hex_digit cei \<or> odd (length cei)) then Refuse ''Context engine ID must be an even-length hex string''
              else if plain f ''username'' = [] then Refuse ''Username is required''
              else Change [(sec, [(''username'', plain f ''username''), (''context_name'', plain f ''context_name''), (''context_engine_id'', cei),
                  (''auth_protocol'', upper (strip (field f ''auth_protocol'' ''SHA''))),
                  (''auth_password'', if new_auth \<noteq> [] then enc env 0 new_auth else old_auth),
                  (''priv_protocol'', upper (strip (field f ''priv_protocol'' ''AES128''))),
                  (''priv_password'', if new_priv \<noteq> [] then enc env 1 new_priv else old_priv),
                  (''port'', int_str port), (''timeout'', int_str timeout), (''retries'', int_str retries)], [])]
                (saved_note ''snmp_profile'' [(''profile'', name)])))))
      | _ \<Rightarrow> Inr (Refuse ''Port, timeout, retries must be valid integers''))"

definition new_profile :: "(string \<times> string) list" where
  "new_profile = [(''username'', []), (''context_name'', []), (''context_engine_id'', []), (''auth_protocol'', ''SHA''), (''auth_password'', []),
     (''priv_protocol'', ''AES128''), (''priv_password'', []), (''port'', ''161''), (''timeout'', ''2''), (''retries'', ''1'')]"

definition snmp_profile_add :: "form \<Rightarrow> config result \<Rightarrow> form_answer result" where
  "snmp_profile_add f live0 = (let name = plain f ''name'' in
     if name = [] \<or> \<not> profile_name name then Inr (Refuse ''Profile name must be alphanumeric'')
     else bind_r live0 (\<lambda>live. Inr (if has_key (sections live) (''snmp.'' @ name) then Refuse ''Profile already exists''
       else Change [(''snmp.'' @ name, new_profile, [])] (Some (''settings.snmp_profile.add'', [(''profile'', name)])))))"

definition snmp_profile_remove :: "string \<Rightarrow> config result \<Rightarrow> form_answer result" where
  "snmp_profile_remove name live0 =
     (if \<not> profile_name name then Inr Bad_Request
      else bind_r live0 (\<lambda>live.
        if \<not> has_key (sections live) (''snmp.'' @ name) then Inr (Refuse ''Profile does not exist'')
        else bind_r (stored live ''snmp'' ''default_profile'') (\<lambda>dflt.
          Inr (if strip dflt = name then Refuse ''Profile is set as the default''
            else Drop_Section (''snmp.'' @ name) (Some (''settings.snmp_profile.remove'', [(''profile'', name)])))))) "

definition credentials_post :: "settings_env \<Rightarrow> form \<Rightarrow> config result \<Rightarrow> form_answer result" where
  "credentials_post env f live0 =
     (if plain f ''username'' = [] then Inr (Refuse ''Username is required'')
      else bind_r live0 (\<lambda>live. bind_r (kept_secret env 0 (raw_field f ''password'') live ''credentials'' ''password'') (\<lambda>pw.
        Inr (Change [(''credentials'', [(''username'', plain f ''username''), (''password'', pw)], [])]
          (saved_note ''credentials'' [(''username'', plain f ''username'')])))))"

text \<open>The key file must exist and be closed to group and others: \<open>mode & 0o077\<close>.\<close>

definition key_refused :: "settings_env \<Rightarrow> string \<Rightarrow> string option" where
  "key_refused env path = (if path = [] then None else case se_key_file env path of
       No_File \<Rightarrow> Some ''SSH key file not found''
     | No_Stat \<Rightarrow> Some ''Could not stat SSH key file''
     | Mode m \<Rightarrow> if m mod 64 \<noteq> 0 then Some ''SSH key file is readable by group or other'' else None)"

definition cisco_post :: "settings_env \<Rightarrow> form \<Rightarrow> config result \<Rightarrow> form_answer result" where
  "cisco_post env f live0 =
     (let nap = strip (field f ''napalm_driver'' ''ios''); key = plain f ''key_file''; sec = ''credentials.cisco'' in
      if nap \<notin> {''ios'', ''iosxr'', ''nxos_ssh''} then Inr (Refuse ''Unknown NAPALM driver'')
      else case key_refused env key of Some why \<Rightarrow> Inr (Refuse why)
      | None \<Rightarrow> bind_r live0 (\<lambda>live. bind_r (kept_secret env 0 (raw_field f ''password'') live sec ''password'') (\<lambda>pw.
          bind_r (kept_secret env 1 (raw_field f ''enable_secret'') live sec ''enable_secret'') (\<lambda>en.
          Inr (Change [(sec, [(''username'', plain f ''username''), (''password'', pw), (''enable_secret'', en), (''napalm_driver'', nap), (''key_file'', key)], [])]
            (saved_note ''credentials_cisco'' [(''username'', plain f ''username''), (''napalm_driver'', nap), (''key_file_set'', if key = [] then ''False'' else ''True'')]))))))"

definition arista_post :: "settings_env \<Rightarrow> form \<Rightarrow> config result \<Rightarrow> form_answer result" where
  "arista_post env f live0 =
     (let tr = lower (strip (field f ''transport'' ''https'')); raw = plain f ''port''; sec = ''credentials.arista'';
          port = (if raw = [] then Some [] else case py_int raw of None \<Rightarrow> None | Some n \<Rightarrow> if 1 \<le> n \<and> n \<le> 65535 then Some (int_str n) else None)
      in if tr \<notin> {''https'', ''http''} then Inr (Refuse ''Transport must be https or http'')
      else case port of None \<Rightarrow> Inr (Refuse ''Port must be an integer 1-65535'')
      | Some p \<Rightarrow> bind_r live0 (\<lambda>live. bind_r (kept_secret env 0 (raw_field f ''password'') live sec ''password'') (\<lambda>pw.
          bind_r (kept_secret env 1 (raw_field f ''enable_password'') live sec ''enable_password'') (\<lambda>en.
          Inr (Change [(sec, [(''username'', plain f ''username''), (''password'', pw), (''enable_password'', en), (''transport'', tr), (''port'', p)], [])]
            (saved_note ''credentials_arista'' [(''username'', plain f ''username''), (''transport'', tr)]))))))"

definition scanner_post :: "form \<Rightarrow> form_answer" where
  "scanner_post f = (case validate_hhmm (raw_field f ''schedule'') of
       None \<Rightarrow> Refuse ''Schedule must be HH:MM''
     | Some sched \<Rightarrow>
         if bad_cidrs (raw_field f ''subnets'') \<noteq> [] then Refuse ''Invalid subnet(s)''
         else (case (form_int f ''icmp_timeout'' ''8'', form_int f ''api_workers'' ''16'') of
             (Some timeout, Some workers) \<Rightarrow>
               if timeout < 1 \<or> workers < 1 then Refuse ''ICMP timeout and API workers must be positive integers''
               else Change [(''scanner'', [(''enabled'', yes_no (ticked f ''enabled'')), (''schedule'', sched),
                   (''subnets'', comma_text (raw_field f ''subnets'')), (''exclude_suffixes'', comma_text (raw_field f ''exclude_suffixes'')),
                   (''filter_keywords'', comma_text (raw_field f ''filter_keywords'')), (''device_file'', plain f ''device_file''),
                   (''ip_list_output'', plain f ''ip_list_output''), (''icmp_timeout'', int_str timeout),
                   (''verify_via_api'', yes_no (ticked f ''verify_via_api'')), (''api_workers'', int_str workers)], [])] (saved_note ''scanner'' [])
           | _ \<Rightarrow> Refuse ''ICMP timeout and API workers must be positive integers''))"

definition webserver_post :: "form \<Rightarrow> form_answer" where
  "webserver_post f = (case form_int f ''interval_minutes'' ''60'' of
       None \<Rightarrow> Refuse ''Interval must be a positive number of minutes''
     | Some n \<Rightarrow> if n < 1 then Refuse ''Interval must be a positive number of minutes''
         else Change [(''webserver_health'', [(''enabled'', yes_no (ticked f ''enabled'')), (''host'', plain f ''host''), (''interval_minutes'', int_str n),
             (''command'', strip (field f ''command'' ''show web-server statistics'')), (''device_type'', strip (field f ''device_type'' ''aruba_os'')),
             (''fail_patterns'', join '', '' (comma_list (map (\<lambda>c. if c = CHR '';'' then CHR '','' else c) (raw_field f ''fail_patterns''))))], [])]
           (saved_note ''webserver_health'' []))"

definition backup_post :: "form \<Rightarrow> form_answer" where
  "backup_post f = (case validate_hhmm (raw_field f ''schedule'') of
       None \<Rightarrow> Refuse ''Schedule must be HH:MM''
     | Some sched \<Rightarrow> (case form_int f ''retention_days'' ''7'' of
           None \<Rightarrow> Refuse ''Retention days must be a positive integer''
         | Some n \<Rightarrow> if n < 1 then Refuse ''Retention days must be a positive integer''
             else let api = plain f ''api_version'' in
               Change [(''backup'', [(''enabled'', yes_no (ticked f ''enabled'')), (''schedule'', sched), (''ip_list'', plain f ''ip_list''),
                   (''backup_path'', plain f ''backup_path''), (''retention_days'', int_str n)] @ (if api = [] then [] else [(''api_version'', api)]),
                   if api = [] then [''api_version''] else [])] (saved_note ''backup'' [])))"

definition firmware_post :: "form \<Rightarrow> form_answer" where
  "firmware_post f = (case form_int f ''max_workers'' ''2'' of
       None \<Rightarrow> Refuse ''Max workers must be a positive integer''
     | Some n \<Rightarrow> if n < 1 then Refuse ''Max workers must be a positive integer''
         else Change [(''firmware'', [(''ip_list'', plain f ''ip_list''), (''target_version'', plain f ''target_version''),
             (''image_path'', plain f ''image_path''), (''max_workers'', int_str n)], [])] (saved_note ''firmware'' []))"

definition web_post :: "settings_env \<Rightarrow> form \<Rightarrow> config result \<Rightarrow> form_answer result" where
  "web_post env f live0 = (case (form_int f ''port'' ''8080'', form_int f ''threads'' ''8'', form_int f ''session_timeout_hours'' ''8'') of
       (Some port, Some threads, Some timeout) \<Rightarrow>
         if \<not> (1 \<le> port \<and> port \<le> 65535) \<or> threads < 1 \<or> timeout < 1 then Inr (Refuse ''Port, threads, and session timeout must be positive integers'')
         else bind_r live0 (\<lambda>live. bind_r (stored live ''web'' ''secret_key'') (\<lambda>old. Inr
           (Change [(''web'', [(''host'', strip (field f ''host'' ''127.0.0.1'')), (''port'', int_str port), (''threads'', int_str threads),
               (''secret_key'', if ticked f ''regenerate_secret'' then enc env 0 (se_token env) else old),
               (''session_timeout_hours'', int_str timeout), (''secure_cookies'', yes_no (ticked f ''secure_cookies'')),
               (''trust_proxy_headers'', yes_no (ticked f ''trust_proxy_headers''))], []),
             (''agent'', [(''state_file'', strip (field f ''state_file'' ''/var/lib/aruba-agent/state.json''))], [])]
             (saved_note ''web'' [(''secret_regenerated'', yes_no (ticked f ''regenerate_secret''))]))))
     | _ \<Rightarrow> Inr (Refuse ''Port, threads, and session timeout must be positive integers''))"

definition arp_dir :: "string \<Rightarrow> string" where
  "arp_dir loc = ''/var/lib/aruba-agent/arp/'' @ loc"

definition arp_save :: "string \<Rightarrow> form \<Rightarrow> form_answer" where
  "arp_save loc f = (if \<not> location_name loc then Bad_Request
     else case validate_hhmm (raw_field f ''schedule'') of
       None \<Rightarrow> Refuse ''Schedule must be HH:MM''
     | Some sched \<Rightarrow> if bad_ips (raw_field f ''routers'') \<noteq> [] then Refuse ''Invalid router IP(s)''
         else Change [(''arp.'' @ loc, [(''enabled'', yes_no (ticked f ''enabled'')), (''schedule'', sched), (''routers'', comma_text (raw_field f ''routers'')),
             (''ip_list'', plain f ''ip_list''), (''output_dir'', strip (field f ''output_dir'' (arp_dir loc)))], [])] None)"

definition arp_add :: "form \<Rightarrow> config result \<Rightarrow> form_answer result" where
  "arp_add f live0 = (let name = lower (plain f ''location_name'') in
     if name = [] \<or> \<not> location_name name then Inr (Refuse ''Location name must be alphanumeric'')
     else bind_r live0 (\<lambda>live. Inr (if has_key (sections live) (''arp.'' @ name) then Refuse ''Location already exists''
       else Change [(''arp.'' @ name, [(''enabled'', ''true''), (''schedule'', ''01:00''), (''routers'', []),
         (''ip_list'', ''/etc/aruba-agent/subnets/'' @ name @ ''_ip_list.txt''), (''output_dir'', arp_dir name)], [])] None)))"

definition arp_remove :: "string \<Rightarrow> config result \<Rightarrow> form_answer result" where
  "arp_remove loc live0 = (if \<not> location_name loc then Inr Bad_Request
     else bind_r live0 (\<lambda>live. Inr (if \<not> has_key (sections live) (''arp.'' @ loc) then Refuse ''Location does not exist''
       else Drop_Section (''arp.'' @ loc) None)))"

subsection \<open>Carrying an answer out\<close>

datatype settings_page = Auth_Page | Email_Page | Snmp_Page | Profile_Page string | Profile_Add | Profile_Remove string | Credentials_Page
  | Cisco_Page | Arista_Page | Scanner_Page | Webserver_Page | Backup_Page | Firmware_Page | Web_Page | Arp_Page string | Arp_Add | Arp_Remove string

fun settings_answer :: "settings_env \<Rightarrow> settings_page \<Rightarrow> form \<Rightarrow> config result \<Rightarrow> form_answer result" where
  "settings_answer env Auth_Page f live = auth_post env f live"
| "settings_answer env Email_Page f live = email_post env f live"
| "settings_answer env Snmp_Page f live = snmp_post f live"
| "settings_answer env (Profile_Page name) f live = snmp_profile_post env name f live"
| "settings_answer env Profile_Add f live = snmp_profile_add f live"
| "settings_answer env (Profile_Remove name) f live = snmp_profile_remove name live"
| "settings_answer env Credentials_Page f live = credentials_post env f live"
| "settings_answer env Cisco_Page f live = cisco_post env f live"
| "settings_answer env Arista_Page f live = arista_post env f live"
| "settings_answer env Scanner_Page f live = Inr (scanner_post f)"
| "settings_answer env Webserver_Page f live = Inr (webserver_post f)"
| "settings_answer env Backup_Page f live = Inr (backup_post f)"
| "settings_answer env Firmware_Page f live = Inr (firmware_post f)"
| "settings_answer env Web_Page f live = web_post env f live"
| "settings_answer env (Arp_Page loc) f live = Inr (arp_save loc f)"
| "settings_answer env Arp_Add f live = arp_add f live"
| "settings_answer env (Arp_Remove loc) f live = arp_remove loc live"

definition some_values :: "(string \<times> string) list \<Rightarrow> (string \<times> string option) list" where
  "some_values vs = map (\<lambda>(k, v). (k, Some v)) vs"

text \<open>The sections of a form are written one after the other, each with a file write of its own.\<close>

fun apply_changes :: "settings_env \<Rightarrow> (string \<times> (string \<times> string) list \<times> string list) list \<Rightarrow> string disk \<Rightarrow> unit result \<times> string disk" where
  "apply_changes env [] d = (Inr (), d)"
| "apply_changes env ((sec, vs, gone) # cs) d =
     (case update_section (se_fail env) (se_unreadable env) sec (some_values vs) gone d of
        (Inl e, d1) \<Rightarrow> (Inl e, d1)
      | (Inr _, d1) \<Rightarrow> apply_changes env cs d1)"

definition drop_section :: "settings_env \<Rightarrow> string \<Rightarrow> string disk \<Rightarrow> unit result \<times> string disk" where
  "drop_section env sec d =
     (case bind_r (editor_read (se_unreadable env) d) (\<lambda>c. bind_r (editor_header (se_unreadable env) d) (\<lambda>h. Inr (c, h))) of
        Inl e \<Rightarrow> (Inl e, d)
      | Inr (c, h) \<Rightarrow> editor_save (se_fail env) (c\<lparr>sections := ddel sec (sections c)\<rparr>) h d)"

datatype settings_reply = Flash_Error string | Aborted_400 | Saved | Server_Error

definition settings_post :: "settings_env \<Rightarrow> settings_page \<Rightarrow> form \<Rightarrow> string disk \<Rightarrow> settings_reply \<times> audit_note \<times> string disk" where
  "settings_post env page f d =
     (if \<not> se_editor env then (Flash_Error ''Settings editor disabled'', None, d)
      else if \<not> editor_writable (se_file_ok env) (se_dir_ok env) d then (Flash_Error ''Config file is not writable'', None, d)
      else case settings_answer env page f (editor_read (se_unreadable env) d) of
        Inl e \<Rightarrow> (Server_Error, None, d)
      | Inr (Refuse why) \<Rightarrow> (Flash_Error why, None, d)
      | Inr Bad_Request \<Rightarrow> (Aborted_400, None, d)
      | Inr (Change cs note) \<Rightarrow> (case apply_changes env cs d of
            (Inl e, d1) \<Rightarrow> (Server_Error, None, d1) | (Inr _, d1) \<Rightarrow> (Saved, note, d1))
      | Inr (Drop_Section sec note) \<Rightarrow> (case drop_section env sec d of
            (Inl e, d1) \<Rightarrow> (Server_Error, None, d1) | (Inr _, d1) \<Rightarrow> (Saved, note, d1)))"

subsection \<open>What the pages show\<close>

text \<open>\<open>.get(k, d)\<close> of the section, a flag \<open>.get(k, d).lower() == "true"\<close>, and whether something is set.\<close>

datatype shown_item = Shows string string string | Flags string string string | Tells_Set string string

datatype view_value = View_Text string | View_Flag bool

definition show_one :: "config \<Rightarrow> string \<Rightarrow> shown_item \<Rightarrow> (string \<times> view_value) result" where
  "show_one c sec s = (case s of
       Shows name k d \<Rightarrow> bind_r (config_get c sec k d) (\<lambda>v. Inr (name, View_Text v))
     | Flags name k d \<Rightarrow> bind_r (config_get c sec k d) (\<lambda>v. Inr (name, View_Flag (lower v = ''true'')))
     | Tells_Set name k \<Rightarrow> bind_r (config_get c sec k []) (\<lambda>v. Inr (name, View_Flag (strip v \<noteq> []))))"

definition show_all :: "config \<Rightarrow> string \<Rightarrow> shown_item list \<Rightarrow> (string \<times> view_value) list result" where
  "show_all c sec ss = fold_r (\<lambda>s acc. bind_r (show_one c sec s) (\<lambda>x. Inr (acc @ [x]))) ss []"

definition auth_views :: "(string \<times> shown_item list) list" where
  "auth_views = [(''local_auth'', [Flags ''local_enabled'' ''enabled'' ''true'', Shows ''local_store_file'' ''store_file'' ''/var/lib/aruba-agent/users.json'']),
     (''radius'', [Flags ''radius_enabled'' ''enabled'' ''false'', Shows ''radius_server'' ''server'' [], Shows ''radius_port'' ''port'' ''1812'',
       Shows ''radius_nas'' ''nas_identifier'' ''aruba-switch-manager'', Shows ''radius_timeout'' ''timeout'' ''5'',
       Shows ''radius_retries'' ''retries'' ''2'', Tells_Set ''radius_secret_set'' ''secret''])]"

definition email_views :: "(string \<times> shown_item list) list" where
  "email_views = [(''smtp'', [Flags ''smtp_enabled'' ''enabled'' ''false'', Shows ''smtp_host'' ''host'' [], Shows ''smtp_port'' ''port'' ''587'',
     Flags ''smtp_use_tls'' ''use_tls'' ''true'', Shows ''smtp_username'' ''username'' [], Shows ''smtp_from'' ''from'' [],
     Shows ''smtp_to'' ''to'' [], Tells_Set ''smtp_password_set'' ''password''])]"

definition profile_views :: "shown_item list" where
  "profile_views = [Shows ''username'' ''username'' [], Shows ''context_name'' ''context_name'' [], Shows ''context_engine_id'' ''context_engine_id'' [],
     Shows ''auth_protocol'' ''auth_protocol'' ''SHA'', Shows ''priv_protocol'' ''priv_protocol'' ''AES128'', Shows ''port'' ''port'' ''161'',
     Shows ''timeout'' ''timeout'' ''2'', Shows ''retries'' ''retries'' ''1'',
     Tells_Set ''auth_password_set'' ''auth_password'', Tells_Set ''priv_password_set'' ''priv_password'']"

definition credentials_views :: "(string \<times> shown_item list) list" where
  "credentials_views = [(''credentials'', [Shows ''username'' ''username'' [], Tells_Set ''password_set'' ''password''])]"

definition cisco_views :: "(string \<times> shown_item list) list" where
  "cisco_views = [(''credentials.cisco'', [Shows ''username'' ''username'' [], Tells_Set ''password_set'' ''password'',
     Tells_Set ''enable_secret_set'' ''enable_secret'', Shows ''napalm_driver'' ''napalm_driver'' ''ios'', Shows ''key_file'' ''key_file'' []])]"

definition arista_views :: "(string \<times> shown_item list) list" where
  "arista_views = [(''credentials.arista'', [Shows ''username'' ''username'' [], Tells_Set ''password_set'' ''password'',
     Tells_Set ''enable_password_set'' ''enable_password'', Shows ''transport'' ''transport'' ''https'', Shows ''port'' ''port'' []])]"

definition scanner_views :: "(string \<times> shown_item list) list" where
  "scanner_views = [(''scanner'', [Flags ''enabled'' ''enabled'' ''true'', Shows ''schedule'' ''schedule'' ''00:00'', Shows ''subnets'' ''subnets'' [],
     Shows ''exclude_suffixes'' ''exclude_suffixes'' ''1,2,3,255'', Shows ''filter_keywords'' ''filter_keywords'' ''6100,6300,Aruba'',
     Shows ''device_file'' ''device_file'' ''/var/lib/aruba-agent/network_devices.csv'',
     Shows ''ip_list_output'' ''ip_list_output'' ''/var/lib/aruba-agent/ip_list.txt'', Shows ''icmp_timeout'' ''icmp_timeout'' ''8'',
     Flags ''verify_via_api'' ''verify_via_api'' ''true'', Shows ''api_workers'' ''api_workers'' ''16''])]"

definition controllers_views :: "(string \<times> shown_item list) list" where
  "controllers_views = [(''controllers'', [Flags ''enabled'' ''enabled'' ''false'', Shows ''hosts'' ''hosts'' [], Flags ''monitor'' ''monitor'' ''true'',
     Shows ''monitor_mode'' ''monitor_mode'' ''auto'', Flags ''backup'' ''backup'' ''true'', Shows ''backup_mode'' ''backup_mode'' ''running-config''])]"

definition webserver_views :: "(string \<times> shown_item list) list" where
  "webserver_views = [(''webserver_health'', [Flags ''enabled'' ''enabled'' ''false'', Shows ''host'' ''host'' [], Shows ''interval_minutes'' ''interval_minutes'' ''60'',
     Shows ''command'' ''command'' ''show web-server statistics'', Shows ''device_type'' ''device_type'' ''aruba_os'',
     Shows ''fail_patterns'' ''fail_patterns'' ''not responding, error in fetching''])]"

definition backup_views :: "(string \<times> shown_item list) list" where
  "backup_views = [(''backup'', [Flags ''enabled'' ''enabled'' ''true'', Shows ''schedule'' ''schedule'' ''02:00'',
     Shows ''ip_list'' ''ip_list'' ''/var/lib/aruba-agent/ip_list.txt'', Shows ''backup_path'' ''backup_path'' ''/var/lib/aruba-agent/backups'',
     Shows ''retention_days'' ''retention_days'' ''7'', Shows ''api_version'' ''api_version'' []])]"

definition firmware_views :: "(string \<times> shown_item list) list" where
  "firmware_views = [(''firmware'', [Shows ''ip_list'' ''ip_list'' ''/var/lib/aruba-agent/ip_list.txt'', Shows ''target_version'' ''target_version'' [],
     Shows ''image_path'' ''image_path'' [], Shows ''max_workers'' ''max_workers'' ''2''])]"

definition web_views :: "(string \<times> shown_item list) list" where
  "web_views = [(''web'', [Shows ''host'' ''host'' ''127.0.0.1'', Shows ''port'' ''port'' ''8080'', Shows ''threads'' ''threads'' ''8'',
       Shows ''session_timeout_hours'' ''session_timeout_hours'' ''8'', Flags ''secure_cookies'' ''secure_cookies'' ''true'',
       Flags ''trust_proxy_headers'' ''trust_proxy_headers'' ''true'', Tells_Set ''secret_key_set'' ''secret_key'']),
     (''agent'', [Shows ''state_file'' ''state_file'' ''/var/lib/aruba-agent/state.json''])]"

definition arp_views :: "string \<Rightarrow> shown_item list" where
  "arp_views name = [Flags ''enabled'' ''enabled'' ''true'', Shows ''schedule'' ''schedule'' ''01:00'', Shows ''routers'' ''routers'' [],
     Shows ''ip_list'' ''ip_list'' [], Shows ''output_dir'' ''output_dir'' (arp_dir name)]"

text \<open>The lists of the SNMP profiles and of the ARP locations, by name.\<close>

definition summary_views :: "shown_item list" where
  "summary_views = [Shows ''username'' ''username'' [], Shows ''auth_protocol'' ''auth_protocol'' ''SHA'', Shows ''priv_protocol'' ''priv_protocol'' ''AES128'',
     Shows ''context_name'' ''context_name'' [], Tells_Set ''auth_set'' ''auth_password'', Tells_Set ''priv_set'' ''priv_password'']"

definition named_sections :: "string \<Rightarrow> config \<Rightarrow> string list" where
  "named_sections p c = filter (\<lambda>s. startswith s p) (dkeys (sections c))"

type_synonym named_view = "string \<times> (string \<times> view_value) list"

definition show_named :: "config \<Rightarrow> string \<Rightarrow> (string \<Rightarrow> shown_item list) \<Rightarrow> string list \<Rightarrow> named_view list result" where
  "show_named c p specs names = fold_r (\<lambda>s acc. bind_r (show_all c s (specs (drop (length p) s))) (\<lambda>x. Inr (acc @ [(drop (length p) s, x)]))) names []"

definition profile_list :: "config \<Rightarrow> named_view list result" where
  "profile_list c = bind_r (show_named c ''snmp.'' (\<lambda>_. summary_views) (filter (\<lambda>s. s \<noteq> ''snmp.'') (named_sections ''snmp.'' c)))
     (\<lambda>ps. Inr (sort_key fst ps))"

definition arp_locations :: "config \<Rightarrow> named_view list result" where
  "arp_locations c = bind_r (show_named c ''arp.'' arp_views (named_sections ''arp.'' c)) (\<lambda>ls. Inr (sort_key fst ls))"

definition has_option :: "config \<Rightarrow> string \<Rightarrow> string \<Rightarrow> bool" where
  "has_option c sec k = (config_raw c sec k \<noteq> None)"

definition legacy_creds :: "config \<Rightarrow> bool" where
  "legacy_creds c = list_ex (has_option c ''snmp'') [''username'', ''auth_password'', ''priv_password'', ''context_name'']"

datatype settings_view = Auth_View | Email_View | Snmp_View | Profile_View string | Credentials_View | Cisco_View | Arista_View | Scanner_View
  | Controllers_View | Webserver_View | Backup_View | Firmware_View | Web_View | Arp_View

datatype view = View_Sections "(string \<times> view_value) list" | View_Snmp "(string \<times> view_value) list" "named_view list" bool
  | View_Named "named_view list" | View_Aborts nat | View_Missing

definition show_sections :: "config \<Rightarrow> (string \<times> shown_item list) list \<Rightarrow> view result" where
  "show_sections c ss = bind_r (fold_r (\<lambda>(sec, specs) acc. bind_r (show_all c sec specs) (\<lambda>x. Inr (acc @ x))) ss []) (\<lambda>v. Inr (View_Sections v))"

definition snmp_view :: "config \<Rightarrow> view result" where
  "snmp_view c = bind_r (profile_list c) (\<lambda>ps.
     bind_r (show_all c ''snmp'' [Flags ''enabled'' ''enabled'' ''false'', Shows ''default_profile'' ''default_profile'' ''default'']) (\<lambda>v.
     Inr (View_Snmp v ps (legacy_creds c \<and> ps = []))))"

definition profile_view :: "string \<Rightarrow> config \<Rightarrow> view result" where
  "profile_view name c = (if has_key (sections c) (''snmp.'' @ name) then show_sections c [(''snmp.'' @ name, profile_views)] else Inr View_Missing)"

fun settings_get :: "settings_view \<Rightarrow> config \<Rightarrow> view result" where
  "settings_get Auth_View c = show_sections c auth_views"
| "settings_get Email_View c = show_sections c email_views"
| "settings_get Snmp_View c = snmp_view c"
| "settings_get (Profile_View name) c = profile_view name c"
| "settings_get Credentials_View c = show_sections c credentials_views"
| "settings_get Cisco_View c = show_sections c cisco_views"
| "settings_get Arista_View c = show_sections c arista_views"
| "settings_get Scanner_View c = show_sections c scanner_views"
| "settings_get Controllers_View c = show_sections c controllers_views"
| "settings_get Webserver_View c = show_sections c webserver_views"
| "settings_get Backup_View c = show_sections c backup_views"
| "settings_get Firmware_View c = show_sections c firmware_views"
| "settings_get Web_View c = show_sections c web_views"
| "settings_get Arp_View c = bind_r (arp_locations c) (\<lambda>ls. Inr (View_Named ls))"

definition settings_show :: "settings_env \<Rightarrow> settings_view \<Rightarrow> string disk \<Rightarrow> view result" where
  "settings_show env v d = (if \<not> se_editor env then Inr (View_Aborts 404)
     else if (case v of Profile_View name \<Rightarrow> \<not> profile_name name | _ \<Rightarrow> False) then Inr (View_Aborts 400)
     else bind_r (editor_read (se_unreadable env) d) (settings_get v))"

end
