(* ===== verification/Settings_Proofs.thy ===== *)
theory Settings_Proofs
  imports Web_Settings
begin

text \<open>
  What the settings pages guarantee: no page shows a secret, a form puts a typed secret into the file encrypted
  (unless it starts like an encrypted one), and what a form changes is read back.
\<close>

subsection \<open>No page shows a secret\<close>

text \<open>Two configurations that differ in the texts of secret fields only, and not in whether those are blank.\<close>

definition same_but_secrets :: "config \<Rightarrow> config \<Rightarrow> bool" where
  "same_but_secrets c1 c2 = (dkeys (sections c1) = dkeys (sections c2) \<and>
     (\<forall>sec k. has_option c1 sec k = has_option c2 sec k) \<and>
     (\<forall>sec k d. if lower k \<in> set (fields_for_section sec)
        then map_sum id (\<lambda>v. strip v = []) (config_get c1 sec k d) = map_sum id (\<lambda>v. strip v = []) (config_get c2 sec k d)
        else config_get c1 sec k d = config_get c2 sec k d))"

definition discreet :: "string \<Rightarrow> shown_item \<Rightarrow> bool" where
  "discreet sec s = (case s of Shows n k d \<Rightarrow> lower k \<notin> set (fields_for_section sec) | Flags n k d \<Rightarrow> lower k \<notin> set (fields_for_section sec) | Tells_Set n k \<Rightarrow> True)"

lemma fold_r_cong: "(\<And>x. x \<in> set xs \<Longrightarrow> f x = g x) \<Longrightarrow> fold_r f xs s = fold_r g xs s"
proof (induction xs arbitrary: s)
  case (Cons x xs)
  then have "fold_r f xs = fold_r g xs" by (intro ext) simp
  then show ?case using Cons.prems by simp
qed simp

lemma show_one_same: "same_but_secrets c1 c2 \<Longrightarrow> discreet sec s \<Longrightarrow> show_one c1 sec s = show_one c2 sec s"
proof (cases s)
  case (Tells_Set n k)
  assume "same_but_secrets c1 c2"
  then have "map_sum id (\<lambda>v. strip v = []) (config_get c1 sec k []) = map_sum id (\<lambda>v. strip v = []) (config_get c2 sec k [])"
    unfolding same_but_secrets_def by (metis (no_types, lifting))
  then show ?thesis using Tells_Set
    by (cases "config_get c1 sec k []"; cases "config_get c2 sec k []") (auto simp: show_one_def)
qed (auto simp: same_but_secrets_def discreet_def show_one_def)

lemma show_all_same: "same_but_secrets c1 c2 \<Longrightarrow> list_all (discreet sec) ss \<Longrightarrow> show_all c1 sec ss = show_all c2 sec ss"
  unfolding show_all_def by (rule fold_r_cong) (simp add: show_one_same list_all_iff)

lemma show_sections_same:
  "same_but_secrets c1 c2 \<Longrightarrow> list_all (\<lambda>(sec, ss). list_all (discreet sec) ss) vs \<Longrightarrow> show_sections c1 vs = show_sections c2 vs"
  unfolding show_sections_def by (rule arg_cong [where f = "\<lambda>r. bind_r r _"], rule fold_r_cong)
    (auto simp: list_all_iff show_all_same)

lemma snmp_fields: "fields_for_section (''snmp.'' @ name) = [''auth_password'', ''priv_password'']"
  by (auto simp: fields_for_section_def sensitive_fields_def endswith_def startswith_def)

lemma arp_fields: "fields_for_section (''arp.'' @ name) = []"
  by (auto simp: fields_for_section_def sensitive_fields_def endswith_def startswith_def)

lemma named_same:
  assumes "same_but_secrets c1 c2" "\<And>name. list_all (discreet (p @ name)) (specs name)" "\<forall>s \<in> set names. startswith s p"
  shows "show_named c1 p specs names = show_named c2 p specs names"
  unfolding show_named_def
proof (rule fold_r_cong, rule ext)
  fix s acc assume "s \<in> set names"
  then have "s = p @ drop (length p) s" using assms(3) by (metis append_take_drop_id startswith_def)
  then have "show_all c1 s (specs (drop (length p) s)) = show_all c2 s (specs (drop (length p) s))"
    using show_all_same [OF assms(1), of s] assms(2) [of "drop (length p) s"] by simp
  then show "bind_r (show_all c1 s (specs (drop (length p) s))) (\<lambda>x. Inr (acc @ [(drop (length p) s, x)])) =
    bind_r (show_all c2 s (specs (drop (length p) s))) (\<lambda>x. Inr (acc @ [(drop (length p) s, x)]))" by simp
qed

lemma tables_discreet:
  "list_all (\<lambda>vs. list_all (\<lambda>(sec, ss). list_all (discreet sec) ss) vs) [auth_views, email_views, credentials_views, cisco_views, arista_views,
     scanner_views, controllers_views, webserver_views, backup_views, firmware_views, web_views]"
  by code_simp

lemma profile_discreet: "list_all (discreet (''snmp.'' @ name)) profile_views" "list_all (discreet (''snmp.'' @ name)) summary_views"
  unfolding profile_views_def summary_views_def discreet_def snmp_fields by (simp_all add: lower_def lower_char_def)

lemma arp_discreet: "list_all (discreet (''arp.'' @ name)) (arp_views name)"
  unfolding arp_views_def discreet_def arp_fields by simp

text \<open>
  C37: Two configurations that differ in their secrets only give the same settings pages: whoever looks at
  the pages learns which secrets are set and nothing else about them.
\<close>

theorem settings_pages_hide_secrets:
  assumes same: "same_but_secrets c1 c2"
  shows "settings_get v c1 = settings_get v c2"
proof -
  have tables: "show_sections c1 vs = show_sections c2 vs"
    if "vs \<in> {auth_views, email_views, credentials_views, cisco_views, arista_views, scanner_views, controllers_views,
      webserver_views, backup_views, firmware_views, web_views}" for vs
    using that tables_discreet show_sections_same [OF same, of vs] by auto
  have secs: "dkeys (sections c1) = dkeys (sections c2)" "has_option c1 = has_option c2"
    using same by (auto simp: same_but_secrets_def fun_eq_iff)
  have keys: "has_key (sections c1) s = has_key (sections c2) s" for s using secs by (simp add: has_key_iff)
  have named: "named_sections p c1 = named_sections p c2" for p by (simp add: named_sections_def secs)
  have in_named: "\<forall>s \<in> set (named_sections p c). startswith s p" for p c by (simp add: named_sections_def)
  show ?thesis
  proof (cases v)
    case Snmp_View
    have "list_all (discreet ''snmp'') [Flags ''enabled'' ''enabled'' ''false'', Shows ''default_profile'' ''default_profile'' ''default'']" by code_simp
    moreover have "profile_list c1 = profile_list c2"
      unfolding profile_list_def named
      by (rule arg_cong [where f = "\<lambda>r. bind_r r _"], rule named_same [OF same profile_discreet(2)]) (use in_named in auto)
    ultimately show ?thesis using Snmp_View show_all_same [OF same, of "''snmp''"] by (simp add: snmp_view_def legacy_creds_def secs)
  next
    case (Profile_View name)
    then show ?thesis using show_sections_same [OF same, of "[(''snmp.'' @ name, profile_views)]"] profile_discreet(1) [of name] keys
      by (simp add: profile_view_def)
  next
    case Arp_View
    have "arp_locations c1 = arp_locations c2"
      unfolding arp_locations_def named
      by (rule arg_cong [where f = "\<lambda>r. bind_r r _"], rule named_same [OF same arp_discreet]) (use in_named in auto)
    then show ?thesis using Arp_View by simp
  qed (simp_all add: tables)
qed

definition demo_smtp :: "string \<Rightarrow> config" where
  "demo_smtp pw = \<lparr>defaults = [], sections = [(''smtp'', [(''host'', ''mail''), (''password'', pw)])]\<rparr>"

theorem settings_pages_hide_secrets_witness:
  "settings_get Email_View (demo_smtp ''enc:1'') = settings_get Email_View (demo_smtp ''enc:22'') \<and>
   demo_smtp ''enc:1'' \<noteq> demo_smtp ''enc:22''"
proof -
  have f: "fields_for_section ''smtp'' = [''password'']" by code_simp
  have raw: "config_raw (demo_smtp pw) sec k = (if sec = ''smtp'' then (if lower k = ''host'' then Some ''mail'' else if lower k = ''password'' then Some pw else None) else None)"
    for pw sec k by (simp add: config_raw_def demo_smtp_def)
  have get: "config_get (demo_smtp pw) sec k d = Inr (case config_raw (demo_smtp pw) sec k of None \<Rightarrow> d | Some v \<Rightarrow> v)" if "CHR ''%'' \<notin> set pw" for pw sec k d
    using that by (auto simp: config_get_def raw split: option.splits if_splits)
  have pcts: "CHR ''%'' \<notin> set ''enc:1''" "CHR ''%'' \<notin> set ''enc:22''" by simp_all
  have st: "strip ''enc:1'' \<noteq> []" "strip ''enc:22'' \<noteq> []" by code_simp+
  have "same_but_secrets (demo_smtp ''enc:1'') (demo_smtp ''enc:22'')"
    unfolding same_but_secrets_def
  proof (intro conjI allI)
    fix sec k d
    show "if lower k \<in> set (fields_for_section sec)
       then map_sum id (\<lambda>v. strip v = []) (config_get (demo_smtp ''enc:1'') sec k d) = map_sum id (\<lambda>v. strip v = []) (config_get (demo_smtp ''enc:22'') sec k d)
       else config_get (demo_smtp ''enc:1'') sec k d = config_get (demo_smtp ''enc:22'') sec k d"
      unfolding get [OF pcts(1)] get [OF pcts(2)] raw using f st by auto
  next
    fix sec k show "has_option (demo_smtp ''enc:1'') sec k = has_option (demo_smtp ''enc:22'') sec k" by (simp add: has_option_def raw)
  qed (simp add: demo_smtp_def)
  from settings_pages_hide_secrets [OF this] show ?thesis by (intro conjI) (blast, simp add: demo_smtp_def)
qed

subsection \<open>What a form changes\<close>

definition change_ok :: "string \<times> (string \<times> string) list \<times> string list \<Rightarrow> bool" where
  "change_ok ch = (case ch of (sec, vs, gone) \<Rightarrow> name_ok sec \<and> (\<forall>(k, v) \<in> set vs. key_ok k \<and> value_ok v))"

text \<open>What the options of the sections are after some of the changes.\<close>

definition changed :: "(string \<Rightarrow> string \<Rightarrow> string option) \<Rightarrow> string \<times> (string \<times> string) list \<times> string list \<Rightarrow> string \<Rightarrow> string \<Rightarrow> string option" where
  "changed opts ch = (case ch of (sec, vs, gone) \<Rightarrow> (\<lambda>s k. if s = sec \<and> k \<in> lower ` set gone then None
     else if s = sec \<and> last_value (some_values vs) k \<noteq> None then last_value (some_values vs) k else opts s k))"

lemma apply_changes_settled:
  assumes "settled d c" "\<forall>ch \<in> set cs. change_ok ch" "\<not> se_unreadable env" "apply_changes env cs d = (r, d')"
  shows "\<exists>n c'. settled d' c' \<and> own c' = foldl changed (own c) (take n cs) \<and> defaults c' = defaults c \<and> (r = Inr () \<longrightarrow> n = length cs) \<and>
    editor_header False d' = editor_header False d \<and> target_mode d' = target_mode d"
  using assms(1,2,4)
proof (induction cs arbitrary: d c)
  case Nil
  then show ?case by auto
next
  case (Cons ch cs)
  obtain sec vs gone where ch: "ch = (sec, vs, gone)" by (cases ch)
  obtain r1 d1 where u: "update_section (se_fail env) False sec (some_values vs) gone d = (r1, d1)" by fastforce
  have ok: "name_ok sec" "\<forall>(k, v) \<in> set (some_values vs). key_ok (lower k) \<and> value_ok (text_value v)"
    using Cons.prems(2) ch by (auto simp: change_ok_def some_values_def text_value_def key_ok_def)
  note one = update_section_settled [OF Cons.prems(1) ok u]
  show ?case
  proof (cases r1)
    case (Inl e)
    then have "d' = d1" "r = Inl e" using Cons.prems(3) u ch assms(3) by simp_all
    moreover have "target d1 = target d" "target_mode d1 = target_mode d" using one Inl by simp_all
    moreover from this have "settled d1 c" "editor_header False d1 = editor_header False d"
      using Cons.prems(1) by (simp_all add: settled_def editor_header_def)
    ultimately show ?thesis by (intro exI [of _ 0] exI [of _ c]) simp
  next
    case (Inr x)
    then obtain c1 where c1: "edited sec (some_values vs) gone c = Inr c1" "settled d1 c1"
      "editor_header False d1 = editor_header False d" "target_mode d1 = target_mode d" using one by auto
    have "apply_changes env cs d1 = (r, d')" using Cons.prems(3) u ch assms(3) Inr by simp
    then obtain n c' where n: "settled d' c'" "own c' = foldl changed (own c1) (take n cs)" "defaults c' = defaults c1" "r = Inr () \<longrightarrow> n = length cs"
      "editor_header False d' = editor_header False d1" "target_mode d' = target_mode d1"
      using Cons.IH [OF c1(2)] Cons.prems(2) by auto
    have "own c1 = changed (own c) ch" "defaults c1 = defaults c" using edited_spec [OF c1(1)] by (simp_all add: changed_def ch)
    then show ?thesis using n c1(3,4) by (intro exI [of _ "Suc n"] exI [of _ c']) simp
  qed
qed

subsection \<open>What a form puts into a secret option\<close>

text \<open>
  What a form may put into a secret option: nothing, the stored text as the program reads it, the encryption
  of a text of the form or of the fresh session key, or a text of the form that looks encrypted already.
\<close>

definition may_hold :: "settings_env \<Rightarrow> fernet \<Rightarrow> form \<Rightarrow> config \<Rightarrow> string \<Rightarrow> string \<Rightarrow> string \<Rightarrow> bool" where
  "may_hold env m f live sec k v = (v = [] \<or> config_get live sec k [] = Inr v \<or>
     (\<exists>typed i. (typed = se_token env \<or> (\<exists>n. f n = Some typed)) \<and> (v = enc_prefix @ f_encrypt m i typed \<or> is_encrypted typed \<and> v = typed)))"

definition sealed :: "settings_env \<Rightarrow> fernet \<Rightarrow> form \<Rightarrow> config \<Rightarrow> string \<Rightarrow> string \<times> string \<Rightarrow> bool" where
  "sealed env m f live sec kv = (lower (fst kv) \<in> set (fields_for_section sec) \<longrightarrow> may_hold env m f live sec (fst kv) (snd kv))"

definition sealed_change :: "settings_env \<Rightarrow> fernet \<Rightarrow> form \<Rightarrow> config \<Rightarrow> string \<times> (string \<times> string) list \<times> string list \<Rightarrow> bool" where
  "sealed_change env m f live ch = (case ch of (sec, vs, gone) \<Rightarrow> list_all (sealed env m f live sec) vs)"

lemma enc_typed: "se_manager env = Some m \<Longrightarrow> typed = se_token env \<or> (\<exists>n. f n = Some typed) \<Longrightarrow> may_hold env m f live sec k (enc env i typed)"
  by (auto simp: may_hold_def enc_def sm_encrypt_def)

lemma sealed_enc [simp]: "se_manager env = Some m \<Longrightarrow> sealed env m f live sec (k, enc env i (raw_field f n))"
proof -
  assume m: "se_manager env = Some m"
  have "may_hold env m f live sec k (enc env i (raw_field f n))"
  proof (cases "f n")
    case None
    then show ?thesis by (simp add: may_hold_def enc_def raw_field_def text_value_def)
  next
    case (Some t)
    then have t: "raw_field f n = t" by (simp add: raw_field_def text_value_def)
    have "\<exists>n. f n = Some t" using Some by blast
    then show ?thesis unfolding t using enc_typed [OF m] by blast
  qed
  then show ?thesis by (simp add: sealed_def)
qed

lemma sealed_token [simp]: "se_manager env = Some m \<Longrightarrow> sealed env m f live sec (k, enc env i (se_token env))"
  by (simp add: sealed_def enc_typed)

lemma sealed_stored: "stored live sec k = Inr v \<Longrightarrow> sealed env m f live sec (k, v)"
  by (simp add: sealed_def stored_def may_hold_def)

lemma sealed_kept:
  "se_manager env = Some m \<Longrightarrow> kept_secret env i (raw_field f n) live sec k = Inr v \<Longrightarrow> sealed env m f live sec (k, v)"
  by (auto simp: kept_secret_def bind_r_def sealed_stored split: sum.splits if_splits)

lemma sealed_public: "lower k \<notin> set (fields_for_section sec) \<Longrightarrow> sealed env m f live sec (k, v)"
  by (simp add: sealed_def)

lemma sealed_blank: "sealed env m f live sec (k, [])"
  by (simp add: sealed_def may_hold_def)

text \<open>The options that the forms write have lower-case names.\<close>

lemma lower_keys:
  "lower ''agent'' = ''agent''" "lower ''api_version'' = ''api_version''" "lower ''api_workers'' = ''api_workers''"
  "lower ''auth_password'' = ''auth_password''" "lower ''auth_protocol'' = ''auth_protocol''" "lower ''backup'' = ''backup''"
  "lower ''backup_path'' = ''backup_path''" "lower ''command'' = ''command''" "lower ''context_engine_id'' = ''context_engine_id''"
  "lower ''context_name'' = ''context_name''" "lower ''credentials'' = ''credentials''" "lower ''default_profile'' = ''default_profile''"
  "lower ''device_file'' = ''device_file''" "lower ''device_type'' = ''device_type''" "lower ''enable_password'' = ''enable_password''"
  "lower ''enable_secret'' = ''enable_secret''" "lower ''enabled'' = ''enabled''" "lower ''exclude_suffixes'' = ''exclude_suffixes''"
  "lower ''fail_patterns'' = ''fail_patterns''" "lower ''filter_keywords'' = ''filter_keywords''" "lower ''firmware'' = ''firmware''"
  "lower ''from'' = ''from''" "lower ''host'' = ''host''" "lower ''icmp_timeout'' = ''icmp_timeout''"
  "lower ''image_path'' = ''image_path''" "lower ''interval_minutes'' = ''interval_minutes''" "lower ''ip_list'' = ''ip_list''"
  "lower ''ip_list_output'' = ''ip_list_output''" "lower ''key_file'' = ''key_file''" "lower ''key_file_set'' = ''key_file_set''"
  "lower ''local_auth'' = ''local_auth''" "lower ''local_enabled'' = ''local_enabled''" "lower ''max_workers'' = ''max_workers''"
  "lower ''napalm_driver'' = ''napalm_driver''" "lower ''nas_identifier'' = ''nas_identifier''" "lower ''output_dir'' = ''output_dir''"
  "lower ''password'' = ''password''" "lower ''port'' = ''port''" "lower ''priv_password'' = ''priv_password''"
  "lower ''priv_protocol'' = ''priv_protocol''" "lower ''profile'' = ''profile''" "lower ''radius'' = ''radius''"
  "lower ''radius_enabled'' = ''radius_enabled''" "lower ''retention_days'' = ''retention_days''" "lower ''retries'' = ''retries''"
  "lower ''routers'' = ''routers''" "lower ''scanner'' = ''scanner''" "lower ''schedule'' = ''schedule''" "lower ''secret'' = ''secret''"
  "lower ''secret_key'' = ''secret_key''" "lower ''secret_regenerated'' = ''secret_regenerated''"
  "lower ''secure_cookies'' = ''secure_cookies''" "lower ''server'' = ''server''"
  "lower ''session_timeout_hours'' = ''session_timeout_hours''" "lower ''smtp'' = ''smtp''" "lower ''snmp'' = ''snmp''"
  "lower ''state_file'' = ''state_file''" "lower ''store_file'' = ''store_file''" "lower ''subnets'' = ''subnets''"
  "lower ''target_version'' = ''target_version''" "lower ''threads'' = ''threads''" "lower ''timeout'' = ''timeout''"
  "lower ''to'' = ''to''" "lower ''transport'' = ''transport''" "lower ''trust_proxy_headers'' = ''trust_proxy_headers''"
  "lower ''use_tls'' = ''use_tls''" "lower ''username'' = ''username''" "lower ''verify_via_api'' = ''verify_via_api''"
  "lower ''web'' = ''web''" "lower ''webserver_health'' = ''webserver_health''"
  by code_simp+

lemma public_fields:
  "set (fields_for_section ''local_auth'') = {}" "set (fields_for_section ''radius'') = {''secret''}" "set (fields_for_section ''smtp'') = {''password''}"
  "set (fields_for_section ''snmp'') = {''auth_password'', ''priv_password''}" "set (fields_for_section (''snmp.'' @ name)) = {''auth_password'', ''priv_password''}"
  "set (fields_for_section ''credentials'') = {''password''}" "set (fields_for_section ''credentials.cisco'') = {''password'', ''enable_secret''}"
  "set (fields_for_section ''credentials.arista'') = {''password'', ''enable_password''}" "set (fields_for_section ''scanner'') = {}"
  "set (fields_for_section ''webserver_health'') = {}" "set (fields_for_section ''backup'') = {}" "set (fields_for_section ''firmware'') = {}"
  "set (fields_for_section ''web'') = {''secret_key''}" "set (fields_for_section ''agent'') = {}" "set (fields_for_section (''arp.'' @ name)) = {}"
  unfolding snmp_fields arp_fields by code_simp+

lemmas named_fields = public_fields(5,15) [unfolded append.simps]

lemma bind_r_InrE: "bind_r x f = Inr y \<Longrightarrow> (\<And>z. x = Inr z \<Longrightarrow> f z = Inr y \<Longrightarrow> P) \<Longrightarrow> P"
  by (auto simp: bind_r_def split: sum.splits)

lemma auth_sealed: "auth_post env f (Inr live) = Inr (Change cs note) \<Longrightarrow> se_manager env = Some m \<Longrightarrow> list_all (sealed_change env m f live) cs"
  by (auto simp: auth_post_def Let_def sealed_change_def sealed_public lower_keys public_fields named_fields sealed_stored elim!: bind_r_InrE split: if_splits)

lemma email_sealed: "email_post env f (Inr live) = Inr (Change cs note) \<Longrightarrow> se_manager env = Some m \<Longrightarrow> list_all (sealed_change env m f live) cs"
  by (auto simp: email_post_def Let_def sealed_change_def sealed_public lower_keys public_fields named_fields sealed_stored elim!: bind_r_InrE split: if_splits)

lemma credentials_sealed:
  "credentials_post env f (Inr live) = Inr (Change cs note) \<Longrightarrow> se_manager env = Some m \<Longrightarrow> list_all (sealed_change env m f live) cs"
  by (auto simp: credentials_post_def sealed_change_def sealed_public lower_keys public_fields named_fields sealed_kept elim!: bind_r_InrE split: if_splits)

lemma cisco_sealed:
  "cisco_post env f (Inr live) = Inr (Change cs note) \<Longrightarrow> se_manager env = Some m \<Longrightarrow> list_all (sealed_change env m f live) cs"
  by (auto simp: cisco_post_def Let_def sealed_change_def sealed_public lower_keys public_fields named_fields sealed_kept elim!: bind_r_InrE split: if_splits option.splits)

lemma arista_sealed:
  "arista_post env f (Inr live) = Inr (Change cs note) \<Longrightarrow> se_manager env = Some m \<Longrightarrow> list_all (sealed_change env m f live) cs"
  unfolding arista_post_def Let_def
  by (auto simp: sealed_change_def sealed_public lower_keys public_fields named_fields sealed_kept elim!: bind_r_InrE split: if_splits option.splits)

lemma snmp_sealed: "snmp_post f (Inr live) = Inr (Change cs note) \<Longrightarrow> list_all (sealed_change env m f live) cs"
  by (auto simp: snmp_post_def Let_def sealed_change_def sealed_public lower_keys public_fields named_fields split: if_splits)

lemma profile_sealed:
  "snmp_profile_post env name f (Inr live) = Inr (Change cs note) \<Longrightarrow> se_manager env = Some m \<Longrightarrow> list_all (sealed_change env m f live) cs"
  unfolding snmp_profile_post_def Let_def
  by (auto simp: sealed_change_def sealed_public lower_keys public_fields named_fields sealed_stored elim!: bind_r_InrE split: if_splits option.splits)

lemma profile_add_sealed: "snmp_profile_add f (Inr live) = Inr (Change cs note) \<Longrightarrow> list_all (sealed_change env m f live) cs"
  by (auto simp: snmp_profile_add_def Let_def sealed_change_def new_profile_def sealed_public sealed_blank lower_keys public_fields named_fields split: if_splits)

lemma web_sealed: "web_post env f (Inr live) = Inr (Change cs note) \<Longrightarrow> se_manager env = Some m \<Longrightarrow> list_all (sealed_change env m f live) cs"
  unfolding web_post_def
  by (auto simp: sealed_change_def sealed_public lower_keys public_fields named_fields sealed_stored elim!: bind_r_InrE split: if_splits option.splits)

lemma plain_sealed:
  "scanner_post f = Change cs note \<Longrightarrow> list_all (sealed_change env m f live) cs" "webserver_post f = Change cs note \<Longrightarrow> list_all (sealed_change env m f live) cs"
  "backup_post f = Change cs note \<Longrightarrow> list_all (sealed_change env m f live) cs" "firmware_post f = Change cs note \<Longrightarrow> list_all (sealed_change env m f live) cs"
  "arp_save loc f = Change cs note \<Longrightarrow> list_all (sealed_change env m f live) cs" "arp_add f (Inr live) = Inr (Change cs note) \<Longrightarrow> list_all (sealed_change env m f live) cs"
  by (auto simp: scanner_post_def webserver_post_def backup_post_def firmware_post_def arp_save_def arp_add_def Let_def
      sealed_change_def sealed_public lower_keys public_fields named_fields list_all_iff split: if_splits option.splits)

lemma answer_sealed:
  assumes "settings_answer env page f (Inr live) = Inr (Change cs note)" "se_manager env = Some m"
  shows "list_all (sealed_change env m f live) cs"
  using assms
  by (cases page)
    (simp_all add: auth_sealed email_sealed snmp_sealed profile_sealed profile_add_sealed credentials_sealed cisco_sealed arista_sealed web_sealed
      plain_sealed, auto simp: snmp_profile_remove_def arp_remove_def elim!: bind_r_InrE split: if_splits)

definition still_sealed :: "settings_env \<Rightarrow> fernet \<Rightarrow> form \<Rightarrow> config \<Rightarrow> (string \<Rightarrow> string \<Rightarrow> string option) \<Rightarrow> bool" where
  "still_sealed env m f live opts = (\<forall>sec k. k \<in> set (fields_for_section sec) \<longrightarrow>
     (case opts sec k of None \<Rightarrow> True | Some v \<Rightarrow> own live sec k = Some v \<or> may_hold env m f live sec k v))"

lemma last_value_mem: "last_value (some_values vs) k = Some v \<Longrightarrow> \<exists>k'. (k', v) \<in> set vs \<and> lower k' = k"
  unfolding last_value_def some_values_def text_value_def by (drule map_of_SomeD) (clarsimp, blast)

lemma may_hold_lower: "may_hold env m f live sec (lower k) v = may_hold env m f live sec k v"
proof -
  have "config_raw live sec (lower k) = config_raw live sec k" unfolding config_raw_def lower_lower ..
  then show ?thesis by (simp add: may_hold_def config_get_def)
qed

lemma changed_guarded:
  "still_sealed env m f live opts \<Longrightarrow> sealed_change env m f live ch \<Longrightarrow> still_sealed env m f live (changed opts ch)"
proof -
  assume g: "still_sealed env m f live opts" and s: "sealed_change env m f live ch"
  obtain sec vs gone where ch: "ch = (sec, vs, gone)" by (cases ch)
  have v: "may_hold env m f live sec k v"
    if lv: "last_value (some_values vs) k = Some v" and k: "k \<in> set (fields_for_section sec)" for k v
  proof -
    obtain k' where k': "(k', v) \<in> set vs" "lower k' = k" using last_value_mem [OF lv] by blast
    then have "may_hold env m f live sec k' v" using s ch k by (auto simp: sealed_change_def sealed_def list_all_iff)
    then show ?thesis using may_hold_lower [of env m f live sec k' v] k'(2) by simp
  qed
  show "still_sealed env m f live (changed opts ch)"
    using g v unfolding still_sealed_def changed_def ch by (auto split: option.splits)
qed

lemma changes_guarded:
  "still_sealed env m f live opts \<Longrightarrow> list_all (sealed_change env m f live) cs \<Longrightarrow> still_sealed env m f live (foldl changed opts cs)"
  by (induction cs arbitrary: opts) (simp_all add: changed_guarded)

lemma drop_section_settled:
  assumes "settled d c" "\<not> se_unreadable env" "drop_section env sec d = (r, d')"
  shows "\<exists>c'. settled d' c' \<and> (c' = c \<or> c' = c\<lparr>sections := ddel sec (sections c)\<rparr>) \<and> (r = Inr () \<longrightarrow> c' = c\<lparr>sections := ddel sec (sections c)\<rparr>)"
proof -
  obtain h where rd: "editor_read False d = Inr c" "editor_header False d = Inr h" "header_ok h" "target d \<noteq> Missing" "ini_ok c"
    using settled_read [OF assms(1)] by blast
  let ?c = "c\<lparr>sections := ddel sec (sections c)\<rparr>"
  have "default_name \<notin> set (dkeys (ddel sec (sections c)))" using rd(5) by (auto simp: ini_ok_def AList.delete_eq)
  then have ok: "ini_ok ?c" using rd(5) by (simp add: ini_ok_def dict_ok_ddel)
  have "editor_save (se_fail env) ?c h d = (r, d')" using assms(2,3) rd by (auto simp: drop_section_def split: prod.splits sum.splits)
  from editor_save_settled [OF this ok rd(3)] show ?thesis
    using assms(1) by (cases "r = Inr ()") (auto simp: settled_def)
qed

lemma sealed_on_disk:
  assumes ini: "settled d live" and env: "\<not> se_unreadable env" "se_manager env = Some m"
    and ok: "\<forall>cs nt. settings_answer env page f (Inr live) = Inr (Change cs nt) \<longrightarrow> (\<forall>ch \<in> set cs. change_ok ch)"
    and post: "settings_post env page f d = (reply, note, d')"
  shows "\<exists>c'. settled d' c' \<and> still_sealed env m f live (own c')"
proof -
  have start: "still_sealed env m f live (own live)" by (simp add: still_sealed_def split: option.splits)
  have rd: "editor_read (se_unreadable env) d = Inr live" using settled_read [OF ini] env(1) by simp
  show ?thesis
  proof (cases "se_editor env \<and> editor_writable (se_file_ok env) (se_dir_ok env) d")
    case False
    then have "d' = d" using post by (auto simp: settings_post_def split: if_splits)
    then show ?thesis using ini start by blast
  next
    case True
    note on = post [unfolded settings_post_def rd]
    show ?thesis
    proof (cases "settings_answer env page f (Inr live)")
      case (Inl e)
      then have "d' = d" using on True by simp
      then show ?thesis using ini start by blast
    next
      case (Inr a)
      show ?thesis
      proof (cases a)
        case (Change cs nt)
        then have ok: "\<forall>ch \<in> set cs. change_ok ch" and sealed: "list_all (sealed_change env m f live) cs"
          using ok Inr answer_sealed [of env page f live cs nt m] env(2) by auto
        obtain r where r: "apply_changes env cs d = (r, d')" using on True Inr Change by (auto split: prod.splits sum.splits)
        obtain n c' where "settled d' c'" "own c' = foldl changed (own live) (take n cs)"
          using apply_changes_settled [OF ini ok env(1) r] by blast
        moreover have "list_all (sealed_change env m f live) (take n cs)"
          using sealed by (auto simp: list_all_iff dest: in_set_takeD)
        ultimately show ?thesis using changes_guarded [OF start] by metis
      next
        case (Drop_Section sec nt)
        obtain r where r: "drop_section env sec d = (r, d')" using on True Inr Drop_Section by (auto split: prod.splits sum.splits)
        obtain c' where c': "settled d' c'" "c' = live \<or> c' = live\<lparr>sections := ddel sec (sections live)\<rparr>"
          using drop_section_settled [OF ini env(1) r] by blast
        have "still_sealed env m f live (own (live\<lparr>sections := ddel sec (sections live)\<rparr>))"
          by (auto simp: still_sealed_def own_def split: option.splits)
        then show ?thesis using c' start by blast
      qed (use on True Inr ini start in auto)
    qed
  qed
qed

text \<open>
  C36: With secrets managed, whatever is posted to whichever settings page over whatever configuration: each text
  that the page hands to the editor for a secret option is blank, or the encryption of a text of the form or
  of the fresh session key, or the stored text as the program reads it, or, the one exception to encrypting
  what was typed, a text of the form that itself starts with the prefix of encrypted values.  The file
  afterwards has in each secret option what it had, or such a text, on conditions that the program does not check:
  the file is readable and editable (no comment sign at the start of a word, a line feed at the end of the header),
  and in the changes no value has a carriage return, a comment sign at the start of a word or a line that
  is not stripped, and no section name a line feed, carriage return or comment sign (change_ok).
\<close>

theorem secrets_stay_sealed:
  assumes env: "se_manager env = Some m" and live: "editor_read (se_unreadable env) d = Inr live"
    and post: "settings_post env page f d = (reply, note, d')"
  shows "(\<forall>cs nt. settings_answer env page f (Inr live) = Inr (Change cs nt) \<longrightarrow>
       (\<forall>sec vs gone k v. (sec, vs, gone) \<in> set cs \<and> (k, v) \<in> set vs \<and> lower k \<in> set (fields_for_section sec) \<longrightarrow> may_hold env m f live sec k v)) \<and>
    (\<not> se_unreadable env \<and> editable d live \<and>
       (\<forall>cs nt. settings_answer env page f (Inr live) = Inr (Change cs nt) \<longrightarrow> (\<forall>ch \<in> set cs. change_ok ch)) \<longrightarrow>
     (\<exists>c'. editor_read False d' = Inr c' \<and> (\<forall>sec k v. k \<in> set (fields_for_section sec) \<and> own c' sec k = Some v \<longrightarrow>
        own live sec k = Some v \<or> may_hold env m f live sec k v)))"
proof (intro conjI allI impI, goal_cases)
  case (1 cs nt sec vs gone k v)
  then have "sealed_change env m f live (sec, vs, gone)"
    using answer_sealed [of env page f live cs nt m] env by (auto simp: list_all_iff)
  then have "sealed env m f live sec (k, v)" using 1 by (auto simp: sealed_change_def list_all_iff)
  then show ?case using 1 by (simp add: sealed_def)
next
  case 2
  then obtain c' where c': "settled d' c'" "still_sealed env m f live (own c')"
    using sealed_on_disk [OF editable_settled _ env _ post] by blast
  have "own live sec k = Some v \<or> may_hold env m f live sec k v"
    if "k \<in> set (fields_for_section sec)" "own c' sec k = Some v" for sec k v
    using c'(2) that unfolding still_sealed_def by fastforce
  then show ?case using settled_read [OF c'(1)] by blast
qed

subsection \<open>What a form changes is read back\<close>

text \<open>
  C38: A form whose answer is a change is posted.  Afterwards the file is read as the old configuration with the
  changes of the form applied, under the old header and with the old mode: all of them when the page says that
  they were saved, else the first few.  Only a saved form is audited.  This is so on conditions that the program
  does not check: the file is readable and editable (no comment sign at the start of a word, a line feed at the
  end of the header), and in the changes no value has a carriage return, a comment sign at the start of a word
  or a line that is not stripped, and no section name a line feed, carriage return or comment sign (change_ok);
  without the last one the page can say saved over a file that can no longer be read
  (lemma profile_breaks_config below).
\<close>

theorem settings_take_effect:
  assumes ini: "editable d live" and env: "\<not> se_unreadable env"
    and ans: "settings_answer env page f (Inr live) = Inr (Change cs nt)" "\<forall>ch \<in> set cs. change_ok ch"
    and post: "settings_post env page f d = (reply, note, d')"
  shows "\<exists>n c'. editor_read False d' = Inr c' \<and> own c' = foldl changed (own live) (take n cs) \<and> (reply = Saved \<longrightarrow> n = length cs) \<and>
    editor_header False d' = editor_header False d \<and> target_mode d' = target_mode d \<and> (note \<noteq> None \<longrightarrow> reply = Saved \<and> note = nt)"
proof -
  note ini = editable_settled [OF ini]
  have rd: "editor_read (se_unreadable env) d = Inr live" using settled_read [OF ini] env by simp
  note on = post [unfolded settings_post_def rd]
  show ?thesis
  proof (cases "se_editor env \<and> editor_writable (se_file_ok env) (se_dir_ok env) d")
    case False
    then have "d' = d" "reply \<noteq> Saved" "note = None" using on by (auto split: if_splits)
    then show ?thesis using settled_read [OF ini] by (intro exI [of _ 0] exI [of _ live]) simp
  next
    case True
    obtain r where r: "apply_changes env cs d = (r, d')" "reply = (case r of Inl e \<Rightarrow> Server_Error | Inr _ \<Rightarrow> Saved)"
      "note = (case r of Inl e \<Rightarrow> None | Inr _ \<Rightarrow> nt)"
      using on True ans(1) by (cases "apply_changes env cs d"; cases "fst (apply_changes env cs d)") auto
    obtain n c' where n: "settled d' c'" "own c' = foldl changed (own live) (take n cs)" "r = Inr () \<longrightarrow> n = length cs"
      "editor_header False d' = editor_header False d" "target_mode d' = target_mode d"
      using apply_changes_settled [OF ini ans(2) env r(1)] by blast
    then show ?thesis using settled_read [OF n(1)] r(2,3) by (intro exI [of _ n] exI [of _ c']) (auto split: sum.splits)
  qed
qed

subsection \<open>Examples\<close>

definition demo_env :: settings_env where
  "demo_env = \<lparr>se_editor = True, se_file_ok = True, se_dir_ok = True, se_unreadable = False, se_fail = no_faults,
     se_manager = Some \<lparr>f_encrypt = \<lambda>n. rev, f_decrypt = \<lambda>t. Some (rev t)\<rparr>, se_nonce = 0, se_key_file = (\<lambda>_. No_File), se_token = ''token''\<rparr>"

definition demo_form :: form where
  "demo_form k = map_of [(''smtp_enabled'', ''on''), (''smtp_host'', '' mail ''), (''smtp_to'', ''ops''), (''smtp_password'', ''pw'')] k"

definition demo_text :: string where
  "demo_text = ''# Agent'' @ newline @ ''[smtp]'' @ newline @ ''host = old'' @ newline @ ''password = enc:1'' @ newline @ ''[web]'' @ newline @ ''port = 80'' @ newline"

definition demo_live :: config where
  "demo_live = \<lparr>defaults = [], sections = [(''smtp'', [(''host'', ''old''), (''password'', ''enc:1'')]), (''web'', [(''port'', ''80'')])]\<rparr>"

definition demo_config_disk :: "string disk" where
  "demo_config_disk = \<lparr>target = Holds demo_text, target_mode = 416, temp = None\<rparr>"

definition demo_changes :: "(string \<times> (string \<times> string) list \<times> string list) list" where
  "demo_changes = [(''smtp'', [(''enabled'', ''true''), (''host'', ''mail''), (''port'', ''587''), (''use_tls'', ''false''), (''username'', []),
     (''from'', []), (''to'', ''ops''), (''password'', ''enc:wp'')], [])]"

lemma demo_editable: "editable demo_config_disk demo_live"
proof -
  have "parse_ini demo_text = Inr demo_live" by code_simp
  moreover have "no_comment_signs demo_live" unfolding demo_live_def by code_simp
  moreover have "header_of demo_text = ''# Agent'' @ newline" by code_simp
  ultimately show ?thesis by (simp add: editable_def demo_config_disk_def)
qed

lemma demo_mail_answer: "settings_answer demo_env Email_Page demo_form (Inr demo_live) = Inr (Change demo_changes (Some (''settings.smtp.save'', [(''host'', ''mail'')])))"
  by code_simp

lemma demo_changes_ok: "\<forall>ch \<in> set demo_changes. change_ok ch"
  by code_simp

lemma demo_reply: "fst (settings_post demo_env Email_Page demo_form demo_config_disk) = Saved"
  by code_simp

theorem secrets_stay_sealed_witness:
  "case settings_post demo_env Email_Page demo_form demo_config_disk of (reply, note, d') \<Rightarrow>
     reply = Saved \<and> (\<exists>c'. editor_read False d' = Inr c' \<and> (\<forall>v. own c' ''smtp'' ''password'' = Some v \<longrightarrow>
       v = ''enc:1'' \<or> may_hold demo_env (the (se_manager demo_env)) demo_form demo_live ''smtp'' ''password'' v))"
proof -
  obtain reply nt d' where post: "settings_post demo_env Email_Page demo_form demo_config_disk = (reply, nt, d')"
    by (cases "settings_post demo_env Email_Page demo_form demo_config_disk") auto
  have env: "\<not> se_unreadable demo_env" "se_manager demo_env = Some (the (se_manager demo_env))" by (simp_all add: demo_env_def)
  have ok: "\<forall>cs nt. settings_answer demo_env Email_Page demo_form (Inr demo_live) = Inr (Change cs nt) \<longrightarrow> (\<forall>ch \<in> set cs. change_ok ch)"
    using demo_changes_ok unfolding demo_mail_answer by simp
  have k: "''password'' \<in> set (fields_for_section ''smtp'')" by (simp add: public_fields)
  have old: "own demo_live ''smtp'' ''password'' = Some ''enc:1''" by code_simp
  have live: "editor_read (se_unreadable demo_env) demo_config_disk = Inr demo_live"
    using settled_read [OF editable_settled [OF demo_editable]] env(1) by simp
  obtain c' where "editor_read False d' = Inr c'" "\<forall>sec k v. k \<in> set (fields_for_section sec) \<and> own c' sec k = Some v \<longrightarrow>
      own demo_live sec k = Some v \<or> may_hold demo_env (the (se_manager demo_env)) demo_form demo_live sec k v"
    using secrets_stay_sealed [OF env(2) live post] env(1) demo_editable ok by blast
  then have "editor_read False d' = Inr c' \<and> (\<forall>v. own c' ''smtp'' ''password'' = Some v \<longrightarrow>
      v = ''enc:1'' \<or> may_hold demo_env (the (se_manager demo_env)) demo_form demo_live ''smtp'' ''password'' v)"
    using k old by (metis option.inject)
  then show ?thesis using post demo_reply by auto
qed

theorem settings_take_effect_witness:
  "case settings_post demo_env Email_Page demo_form demo_config_disk of (reply, note, d') \<Rightarrow>
     reply = Saved \<and> (\<exists>c'. editor_read False d' = Inr c' \<and> own c' ''smtp'' ''host'' = Some ''mail'' \<and> own c' ''web'' ''port'' = Some ''80'')"
proof -
  obtain reply nt d' where post: "settings_post demo_env Email_Page demo_form demo_config_disk = (reply, nt, d')"
    by (cases "settings_post demo_env Email_Page demo_form demo_config_disk") auto
  have env: "\<not> se_unreadable demo_env" by (simp add: demo_env_def)
  have rep: "reply = Saved" using demo_reply post by simp
  obtain n c' where c': "editor_read False d' = Inr c'" "own c' = foldl changed (own demo_live) (take n demo_changes)"
    "reply = Saved \<longrightarrow> n = length demo_changes"
    using settings_take_effect [OF demo_editable env demo_mail_answer demo_changes_ok post] by blast
  have "own c' = changed (own demo_live) (hd demo_changes)" using c'(2,3) rep by (simp add: demo_changes_def)
  moreover have "changed (own demo_live) (hd demo_changes) ''smtp'' ''host'' = Some ''mail''" "changed (own demo_live) (hd demo_changes) ''web'' ''port'' = Some ''80''"
    by code_simp+
  ultimately show ?thesis using post rep c'(1) by simp
qed

text \<open>The pattern of a profile name accepts a line feed at the end; the section it names breaks the file.\<close>

lemma profile_breaks_config:
  "case settings_post demo_env (Profile_Page (''a'' @ newline)) (\<lambda>k. if k = ''username'' then Some ''u'' else None) demo_config_disk of
     (reply, note, d') \<Rightarrow> reply = Saved \<and> editor_read False d' = Inl ConfigError"
  by code_simp

text \<open>The two sections of the sign-in page are written one by one: a percent sign stops the second.\<close>

lemma half_saved_auth:
  "case settings_post demo_env Auth_Page (\<lambda>k. map_of [(''radius_enabled'', ''on''), (''radius_server'', ''10.0.0.1''), (''radius_secret'', ''s''), (''radius_nas'', ''50%'')] k)
      demo_config_disk of
     (reply, note, d') \<Rightarrow> reply = Server_Error \<and> note = None \<and> (case editor_read False d' of Inl _ \<Rightarrow> False
       | Inr c \<Rightarrow> own c ''local_auth'' ''enabled'' = Some ''false'' \<and> own c ''radius'' ''enabled'' = None)"
  by code_simp

text \<open>A secret that starts like an encrypted one is stored as it was typed, and read as blank.\<close>

lemma typed_prefix_kept: "enc env i (enc_prefix @ t) = enc_prefix @ t"
  by (simp add: enc_def)

lemma arp_unaudited: "settings_answer env (Arp_Page loc) f live = Inr (Change cs note) \<Longrightarrow> note = None"
  by (auto simp: arp_save_def split: if_splits option.splits)

end
