(* ===== verification/Subnet_Health.thy ===== *)
theory Subnet_Health
  imports Secrets Scanner Cli_Drivers Atomic_File Py_Text
begin

text \<open>
  The two jobs that watch the network over a command line: the utilization of the wireless subnets,
  \<open>aruba_agent/tasks/subnet_health.py\<close>, and the web server of a controller,
  \<open>aruba_agent/tasks/webserver_health.py\<close>.

  The devices are arguments: what connecting and each form of the command give; the privileged mode and
  the clearing of the buffer, whose failures are ignored, are part of the device.  Mails are values, their
  text is not modelled.  Percentages are exact; \<open>ValueError\<close> also stands for the overflow of \<open>int(inf)\<close>.
\<close>

subsection \<open>A command on a device\<close>

record show_side =
  sh_connect :: "raised option"
  sh_timed :: "raised + string option"
  sh_plain :: "raised + string option"

definition show_output :: "show_side \<Rightarrow> raised + string" where
  "show_output side = (case sh_connect side of
       Some e \<Rightarrow> Inl e
     | None \<Rightarrow> map_sum id str_or_empty (case sh_timed side of
           Inl e \<Rightarrow> if fst e = ''TypeError'' then sh_plain side else Inl e
         | Inr out \<Rightarrow> Inr out))"

record show_params =
  sp_device_type :: string
  sp_host :: string
  sp_username :: string
  sp_password :: string
  sp_timeout :: int
  sp_secret :: "string option"

text \<open>\<open>_num(v, d)\<close>, and \<open>int\<close> of it.\<close>

definition number :: "string \<Rightarrow> rat \<Rightarrow> py_float" where
  "number v d = (case py_float v of None \<Rightarrow> Fin d | Some x \<Rightarrow> x)"

definition whole_number :: "string \<Rightarrow> rat \<Rightarrow> int result" where
  "whole_number v d = (case number v d of Fin x \<Rightarrow> Inr (trunc_rat x) | _ \<Rightarrow> Inl ValueError)"

text \<open>\<open>re.split(r"[,\\s]+", v)\<close> without the blank pieces.\<close>

definition listed_words :: "string \<Rightarrow> string list" where
  "listed_words v = words (map (\<lambda>c. if c = CHR '','' then CHR '' '' else c) v)"

subsection \<open>The subnet task\<close>

record subnet_task =
  su_distros :: "string list"
  su_device_type :: string
  su_command :: string
  su_username :: string
  su_password :: string
  su_enable :: string
  su_low :: py_float
  su_high :: py_float
  su_usable :: int
  su_timeout :: int
  su_file :: string
  su_inline :: string
  su_ignore :: "string list"

definition new_subnet_task :: "fernet option \<Rightarrow> config \<Rightarrow> subnet_task result" where
  "new_subnet_task inst c =
     (let g = (\<lambda>k d. config_get c ''subnet_health'' k d); cr = (\<lambda>k d. config_get c ''credentials'' k d) in
      bind_r (g ''distros'' []) (\<lambda>distros.
      bind_r (g ''device_type'' ''aruba_aoscx'') (\<lambda>dt.
      bind_r (g ''arp_command'' ''show arp'') (\<lambda>cmd.
      bind_r (g ''username'' []) (\<lambda>u.
      bind_r (if u \<noteq> [] then Inr u else cr ''username'' ''admin'') (\<lambda>user.
      bind_r (g ''password'' []) (\<lambda>p.
      bind_r (if decrypt inst p \<noteq> [] then Inr p else cr ''password'' []) (\<lambda>pw.
      bind_r (g ''enable_secret'' []) (\<lambda>en.
      bind_r (g ''low_pct'' ''10'') (\<lambda>low.
      bind_r (g ''high_pct'' ''90'') (\<lambda>high.
      bind_r (g ''usable_per_subnet'' ''254'') (\<lambda>us. bind_r (whole_number us 254) (\<lambda>usable.
      bind_r (g ''timeout'' ''30'') (\<lambda>t. bind_r (whole_number t 30) (\<lambda>timeout.
      bind_r (g ''subnets_file'' []) (\<lambda>path.
      bind_r (g ''subnets'' []) (\<lambda>inline.
      bind_r (g ''ignore'' []) (\<lambda>ign.
      Inr \<lparr>su_distros = listed_words distros, su_device_type = strip (or_else dt ''aruba_aoscx''), su_command = strip (or_else cmd ''show arp''),
        su_username = strip user, su_password = decrypt inst pw, su_enable = decrypt inst en, su_low = number low 10, su_high = number high 90,
        su_usable = usable, su_timeout = timeout, su_file = strip path, su_inline = inline,
        su_ignore = map lower (listed_words ign)\<rparr>))))))))))))))))))"

text \<open>A line of the list: a comment, \<open>label cidr\<close>, or \<open>cidr\<close>; a network that was listed before is dropped.\<close>

type_synonym subnet = "string \<times> ipv4 \<times> nat"

definition net_text :: "ipv4 \<times> nat \<Rightarrow> string" where
  "net_text net = ip_str (fst net) @ ''/'' @ nat_str (snd net)"

definition subnet_line :: "string \<Rightarrow> subnet option" where
  "subnet_line line0 = (let line = strip line0 in
     if line = [] \<or> startswith line ''#'' then None
     else case words line of
       label # cidr # _ \<Rightarrow> map_option (\<lambda>net. (label, net)) (parse_network cidr)
     | [cidr] \<Rightarrow> map_option (\<lambda>net. (net_text net, net)) (parse_network cidr)
     | [] \<Rightarrow> None)"

fun add_subnets :: "(ipv4 \<times> nat) list \<Rightarrow> string list \<Rightarrow> subnet list" where
  "add_subnets seen [] = []"
| "add_subnets seen (line # ls) = (case subnet_line line of
       None \<Rightarrow> add_subnets seen ls
     | Some (label, net) \<Rightarrow> if net \<in> set seen then add_subnets seen ls else (label, net) # add_subnets (net # seen) ls)"

definition listed_lines :: "string content \<Rightarrow> string list result" where
  "listed_lines f = (case f of Missing \<Rightarrow> Inr [] | Corrupt \<Rightarrow> Inl ValueError | Holds t \<Rightarrow> Inr (splitlines (universal_newlines t)))"

text \<open>The file system gives \<open>Missing\<close> for a file that does not exist or cannot be opened.\<close>

definition subnets_of :: "(string \<Rightarrow> string content) \<Rightarrow> subnet_task \<Rightarrow> subnet list result" where
  "subnets_of files t = bind_r (if su_file t = [] then Inr [] else listed_lines (files (su_file t))) (\<lambda>ls.
     Inr (add_subnets [] (ls @ split_on (CHR 0x0A) (map (\<lambda>c. if c = CHR '','' then CHR 0x0A else c) (su_inline t)))))"

subsection \<open>The addresses in a table\<close>

text \<open>\<open>_IPV4.findall\<close>: four groups of one to three digits, between word boundaries, from the left.\<close>

fun quad_at :: "nat \<Rightarrow> string \<Rightarrow> (string \<times> string) option" where
  "quad_at n s = (let ds = takeWhile is_digit s; rest = dropWhile is_digit s in
     if ds = [] \<or> 3 < length ds then None
     else case n of
       0 \<Rightarrow> if rest \<noteq> [] \<and> word_char (hd rest) then None else Some (ds, rest)
     | Suc m \<Rightarrow> if rest = [] \<or> hd rest \<noteq> CHR ''.'' then None
         else map_option (\<lambda>(t, r). (ds @ ''.'' @ t, r)) (quad_at m (tl rest)))"

declare quad_at.simps [simp del]

lemma quad_at_split: "quad_at n s = Some (t, r) \<Longrightarrow> s = t @ r \<and> t \<noteq> []"
proof (induction n s arbitrary: t rule: quad_at.induct)
  case (1 n s)
  let ?ds = "takeWhile is_digit s" and ?rest = "dropWhile is_digit s"
  have s: "s = ?ds @ ?rest" by simp
  have ds: "\<not> (?ds = [] \<or> 3 < length ?ds)" using "1.prems" by (auto simp: quad_at.simps [of n s] Let_def split: if_splits)
  show ?case
  proof (cases n)
    case 0
    then show ?thesis using "1.prems" ds by (auto simp: quad_at.simps [of 0 s] Let_def split: if_splits)
  next
    case (Suc m)
    have e: "(if ?rest = [] \<or> hd ?rest \<noteq> CHR ''.'' then None
        else map_option (\<lambda>(t, r). (?ds @ ''.'' @ t, r)) (quad_at m (tl ?rest))) = Some (t, r)"
      using "1.prems" ds unfolding Suc quad_at.simps [of "Suc m" s] Let_def by (simp only: if_False nat.case)
    then have rest: "?rest \<noteq> []" "hd ?rest = CHR ''.''" by (metis option.distinct(1))+
    then obtain t' where t': "quad_at m (tl ?rest) = Some (t', r)" "t = ?ds @ ''.'' @ t'"
    proof -
      have "map_option (\<lambda>(t, r). (?ds @ ''.'' @ t, r)) (quad_at m (tl ?rest)) = Some (t, r)" using e rest by (metis (no_types, lifting))
      then show thesis using that by (cases "quad_at m (tl ?rest)") auto
    qed
    have "tl ?rest = t' @ r" using "1.IH" [OF refl refl ds Suc _ t'(1)] rest by simp
    then have "?rest = ''.'' @ t' @ r" using rest by (cases ?rest) simp_all
    then show ?thesis using s t'(2) ds by (metis append_assoc append_is_Nil_conv)
  qed
qed

function find_quads :: "bool \<Rightarrow> string \<Rightarrow> string list" where
  "find_quads inside [] = []"
| "find_quads inside (c # s) = (case (if inside then None else quad_at 3 (c # s)) of
       Some (t, r) \<Rightarrow> t # find_quads True r
     | None \<Rightarrow> find_quads (word_char c) s)"
  by pat_completeness auto
termination
  by (relation "measure (length \<circ> snd)") (auto dest!: quad_at_split split: if_splits,
    metis Suc_n_not_le_n length_Cons length_append length_greater_0_conv less_add_same_cancel2)

text \<open>The addresses of all distros, each once, and what went wrong.\<close>

definition subnet_params :: "subnet_task \<Rightarrow> string \<Rightarrow> show_params" where
  "subnet_params t host = \<lparr>sp_device_type = su_device_type t, sp_host = host, sp_username = su_username t, sp_password = su_password t,
     sp_timeout = su_timeout t, sp_secret = nonempty (su_enable t)\<rparr>"

definition collect_one :: "(show_params \<Rightarrow> show_side) \<Rightarrow> subnet_task \<Rightarrow> string \<Rightarrow> string list \<times> string list \<Rightarrow> string list \<times> string list" where
  "collect_one net t host s = (case s of (ips, errs) \<Rightarrow> (case show_output (net (subnet_params t host)) of
       Inl e \<Rightarrow> (ips, errs @ [host @ '': '' @ exc_text e])
     | Inr out \<Rightarrow> (dedupe (ips @ find_quads False out), errs)))"

definition collect_active :: "raised option \<Rightarrow> (show_params \<Rightarrow> show_side) \<Rightarrow> subnet_task \<Rightarrow> string list \<times> string list" where
  "collect_active no_netmiko net t = (case no_netmiko of
       Some e \<Rightarrow> ([], [''netmiko not installed ('' @ snd e @ '')''])
     | None \<Rightarrow> foldl (\<lambda>s host. collect_one net t host s) ([], []) (su_distros t))"

subsection \<open>The evaluation\<close>

record subnet_row =
  sr_label :: string
  sr_net :: "ipv4 \<times> nat"
  sr_count :: nat
  sr_usable :: int
  sr_pct :: rat

definition ignored :: "subnet_task \<Rightarrow> subnet \<Rightarrow> bool" where
  "ignored t s = (lower (net_text (snd s)) \<in> set (su_ignore t) \<or> lower (fst s) \<in> set (su_ignore t))"

definition active_in :: "string list \<Rightarrow> ipv4 \<times> nat \<Rightarrow> nat" where
  "active_in ips net = length (filter (\<lambda>a. in_network a net) (List.map_filter parse_ipv4 ips))"

definition used_pct :: "subnet_task \<Rightarrow> nat \<Rightarrow> rat" where
  "used_pct t n = (if su_usable t = 0 then 0 else of_nat n / of_int (su_usable t) * 100)"

definition subnet_row_of :: "subnet_task \<Rightarrow> string list \<Rightarrow> subnet \<Rightarrow> subnet_row" where
  "subnet_row_of t ips s = (let n = active_in ips (snd s) in
     \<lparr>sr_label = fst s, sr_net = snd s, sr_count = n, sr_usable = su_usable t, sr_pct = round_digits (used_pct t n) 1\<rparr>)"

definition too_low :: "subnet_task \<Rightarrow> string list \<Rightarrow> subnet \<Rightarrow> bool" where
  "too_low t ips s = fl_less (Fin (used_pct t (active_in ips (snd s)))) (su_low t)"

definition too_high :: "subnet_task \<Rightarrow> string list \<Rightarrow> subnet \<Rightarrow> bool" where
  "too_high t ips s = fl_less (su_high t) (Fin (used_pct t (active_in ips (snd s))))"

fun evaluate_subnets :: "subnet_task \<Rightarrow> string list \<Rightarrow> subnet list \<Rightarrow> subnet_row list \<times> subnet_row list" where
  "evaluate_subnets t ips [] = ([], [])"
| "evaluate_subnets t ips (s # ss) = (case evaluate_subnets t ips ss of (low, high) \<Rightarrow>
     if ignored t s then (low, high)
     else if too_low t ips s then (subnet_row_of t ips s # low, high)
     else if too_high t ips s then (low, subnet_row_of t ips s # high)
     else (low, high))"

datatype subnet_mail = Collect_Failed "string list" "string list"
  | Utilization "subnet_row list" "subnet_row list" "string list" "string list"

text \<open>The rows of a mail: the lowest first, the highest first.\<close>

definition subnet_mail_of :: "subnet_task \<Rightarrow> subnet_row list \<times> subnet_row list \<Rightarrow> string list \<Rightarrow> subnet_mail option" where
  "subnet_mail_of t r errs = (case r of (low, high) \<Rightarrow> if low = [] \<and> high = [] then None
     else Some (Utilization (sort_key sr_pct low) (sort_key (\<lambda>x. - sr_pct x) high) errs (su_distros t)))"

definition subnet_run :: "(string \<Rightarrow> string content) \<Rightarrow> raised option \<Rightarrow> (show_params \<Rightarrow> show_side) \<Rightarrow> subnet_task \<Rightarrow> subnet_mail option result" where
  "subnet_run files no_netmiko net t = bind_r (subnets_of files t) (\<lambda>subnets.
     Inr (if su_distros t = [] \<or> subnets = [] then None
       else case collect_active no_netmiko net t of (ips, errs) \<Rightarrow>
         if ips = [] then Some (Collect_Failed (su_distros t) errs)
         else subnet_mail_of t (evaluate_subnets t ips subnets) errs))"

subsection \<open>The web server of a controller\<close>

record watch_task =
  wt_host :: string
  wt_command :: string
  wt_device_type :: string
  wt_username :: string
  wt_password :: string
  wt_enable :: string
  wt_timeout :: int
  wt_fails :: "string list"

definition fail_texts :: "string \<Rightarrow> string list" where
  "fail_texts v = (let ps = map lower (filter (\<lambda>p. p \<noteq> []) (map strip (split_on (CHR '','') v))) in
     if ps = [] then [''not responding'', ''error in fetching''] else ps)"

definition new_watch_task :: "fernet option \<Rightarrow> config \<Rightarrow> watch_task result" where
  "new_watch_task inst c =
     (let g = (\<lambda>k d. config_get c ''webserver_health'' k d); a8 = (\<lambda>k d. config_get c ''credentials.aos8'' k d);
          cr = (\<lambda>k d. config_get c ''credentials'' k d) in
      bind_r (g ''host'' []) (\<lambda>host.
      bind_r (g ''command'' ''show web-server statistics'') (\<lambda>cmd.
      bind_r (g ''device_type'' ''aruba_os'') (\<lambda>dt.
      bind_r (g ''username'' []) (\<lambda>u. bind_r (if u \<noteq> [] then Inr u else a8 ''username'' []) (\<lambda>u2.
      bind_r (if u2 \<noteq> [] then Inr u2 else cr ''username'' ''admin'') (\<lambda>user.
      bind_r (g ''password'' []) (\<lambda>p. bind_r (if decrypt inst p \<noteq> [] then Inr p else a8 ''password'' []) (\<lambda>p2.
      bind_r (if decrypt inst p2 \<noteq> [] then Inr p2 else cr ''password'' []) (\<lambda>pw.
      bind_r (g ''enable_secret'' []) (\<lambda>e. bind_r (if decrypt inst e \<noteq> [] then Inr e else a8 ''enable_secret'' []) (\<lambda>en.
      bind_r (g ''timeout'' ''30'') (\<lambda>t. bind_r (whole_number t 30) (\<lambda>timeout.
      bind_r (g ''fail_patterns'' []) (\<lambda>pats.
      Inr \<lparr>wt_host = strip host, wt_command = strip (or_else cmd ''show web-server statistics''), wt_device_type = strip (or_else dt ''aruba_os''),
        wt_username = strip user, wt_password = decrypt inst pw, wt_enable = decrypt inst en, wt_timeout = timeout,
        wt_fails = fail_texts pats\<rparr>)))))))))))))))"

definition watch_params :: "watch_task \<Rightarrow> show_params" where
  "watch_params t = \<lparr>sp_device_type = wt_device_type t, sp_host = wt_host t, sp_username = wt_username t, sp_password = wt_password t,
     sp_timeout = wt_timeout t, sp_secret = nonempty (wt_enable t)\<rparr>"

text \<open>\<open>_run_command\<close>: whether it ran, its output, the error.\<close>

definition run_command :: "raised option \<Rightarrow> (show_params \<Rightarrow> show_side) \<Rightarrow> watch_task \<Rightarrow> bool \<times> string \<times> string" where
  "run_command no_netmiko net t = (case no_netmiko of
       Some e \<Rightarrow> (False, [], ''netmiko not installed ('' @ snd e @ '')'')
     | None \<Rightarrow> (case show_output (net (watch_params t)) of
           Inl e \<Rightarrow> (False, [], exc_text e) | Inr out \<Rightarrow> (True, out, [])))"

definition server_healthy :: "watch_task \<Rightarrow> bool \<times> string \<times> string \<Rightarrow> bool" where
  "server_healthy t r = (case r of (ok, out, err) \<Rightarrow>
     ok \<and> strip (lower out) \<noteq> [] \<and> \<not> list_ex (\<lambda>p. contains (lower out) p) (wt_fails t))"

text \<open>The mail: the host, the command, and what is wrong.\<close>

definition watch_run :: "raised option \<Rightarrow> (show_params \<Rightarrow> show_side) \<Rightarrow> watch_task \<Rightarrow> (string \<times> string \<times> string) option" where
  "watch_run no_netmiko net t = (if wt_host t = [] then None
     else case run_command no_netmiko net t of (ok, out, err) \<Rightarrow>
       if server_healthy t (ok, out, err) then None
       else Some (wt_host t, wt_command t, or_else err (or_else (strip out) ''empty response'')))"

end
