(* ===== verification/Subnet_Proofs.thy ===== *)
theory Subnet_Proofs
  imports Subnet_Health Scanner_Proofs
begin

text \<open>
  The subnet check: an address text that is accepted is the canonical text of its address, hence the
  texts that are counted are the hosts; and what a run reports.
\<close>

subsection \<open>One text per address\<close>

lemma digit_back: "is_digit c \<Longrightarrow> digit_char (digit_val c) = c \<and> digit_val c < 10 \<and> (digit_val c = 0 \<longleftrightarrow> c = CHR ''0'')"
proof -
  assume d: "is_digit c"
  have "char_of (48::nat) = CHR ''0''" by code_simp
  moreover have "of_char CHR ''0'' = (48::nat)" by code_simp
  ultimately have "of_char c = (48::nat) \<longleftrightarrow> c = CHR ''0''" by (metis char_of_char)
  then show ?thesis using d by (auto simp: is_digit_def digit_val_def digit_char_def Let_def)
qed

lemma nat_str_value:
  "s \<noteq> [] \<Longrightarrow> list_all is_digit s \<Longrightarrow> length s = 1 \<or> hd s \<noteq> CHR ''0'' \<Longrightarrow>
   nat_str (foldl (\<lambda>a c. 10 * a + digit_val c) 0 s) = s \<and> (hd s \<noteq> CHR ''0'' \<longrightarrow> 0 < foldl (\<lambda>a c. 10 * a + digit_val c) 0 s)"
proof (induction s rule: rev_induct)
  case (snoc c s)
  have c: "digit_char (digit_val c) = c" "digit_val c < 10" "digit_val c = 0 \<longleftrightarrow> c = CHR ''0''"
    using digit_back [of c] snoc.prems(2) by simp_all
  show ?case
  proof (cases "s = []")
    case True
    then show ?thesis using c nat_str.simps [of "digit_val c"] by auto
  next
    case False
    let ?v = "foldl (\<lambda>a c. 10 * a + digit_val c) 0 s"
    have "hd s \<noteq> CHR ''0''" using snoc.prems(3) False by simp
    then have v: "nat_str ?v = s" "0 < ?v" using snoc.IH snoc.prems(2) False by auto
    have "(10 * ?v + digit_val c) div 10 = ?v" "(10 * ?v + digit_val c) mod 10 = digit_val c" using c(2) by simp_all
    then have "nat_str (10 * ?v + digit_val c) = nat_str ?v @ [digit_char (digit_val c)]"
      using v(2) by (simp add: nat_str.simps [of "10 * ?v + digit_val c"])
    then show ?thesis using v c(1) by simp
  qed
qed simp

lemma octet_text: "parse_octet s = Some n \<Longrightarrow> s = nat_str n \<and> n < 256"
proof -
  assume p: "parse_octet s = Some n"
  have "s \<noteq> []" "list_all is_digit s" "n = foldl (\<lambda>a c. 10 * a + digit_val c) 0 s" "n < 256"
    using p by (auto simp: parse_octet_def Let_def split: if_splits)
  moreover have "length s = 1 \<or> hd s \<noteq> CHR ''0''" using p by (cases s) (auto simp: parse_octet_def split: if_splits)
  ultimately show ?thesis using nat_str_value [of s] by simp
qed

lemma octets_inj:
  assumes "ipv4_of_octets a b c d = ipv4_of_octets a' b' c' d'" "a < 256" "b < 256" "c < 256" "d < 256" "a' < 256" "b' < 256" "c' < 256" "d' < 256"
  shows "a = a' \<and> b = b' \<and> c = c' \<and> d = d'"
proof -
  have digit: "x = x' \<and> y = y'" if e: "x * 256 + y = x' * 256 + y'" and y: "y < 256" "y' < 256" for x x' y y' :: nat
  proof -
    have "(x * 256 + y) div 256 = x" "(x' * 256 + y') div 256 = x'" "(x * 256 + y) mod 256 = y" "(x' * 256 + y') mod 256 = y'" using y by simp_all
    then show ?thesis using e by metis
  qed
  have lt: "((p * 256 + q) * 256 + r) * 256 + s < 2 ^ 32" if "p < 256" "q < 256" "r < 256" "s < 256" for p q r s :: nat
  proof -
    have "p \<le> 255" "q \<le> 255" "r \<le> 255" "s \<le> 255" using that by simp_all
    define x y where "x = p * 256 + q" and "y = x * 256 + r"
    have "x \<le> 65535" unfolding x_def using \<open>p \<le> 255\<close> \<open>q \<le> 255\<close> by linarith
    then have "y \<le> 16777215" unfolding y_def using \<open>r \<le> 255\<close> by linarith
    then have "y * 256 + s < 4294967296" using \<open>s \<le> 255\<close> by linarith
    then show ?thesis by (simp add: x_def y_def)
  qed
  have "((a * 256 + b) * 256 + c) * 256 + d = ((a' * 256 + b') * 256 + c') * 256 + d'"
  proof -
    have "unat (of_nat (((a * 256 + b) * 256 + c) * 256 + d) :: ipv4) = unat (of_nat (((a' * 256 + b') * 256 + c') * 256 + d') :: ipv4)"
      using assms(1) unfolding ipv4_of_octets_def by simp
    moreover have "unat (of_nat x :: ipv4) = x" if "x < 2 ^ 32" for x using that by (simp add: unsigned_of_nat take_bit_nat_eq_self)
    ultimately show ?thesis using lt assms(2-) by metis
  qed
  then show ?thesis using digit assms(2-) by metis
qed

lemma parse_ipv4_inj: "parse_ipv4 s = Some w \<Longrightarrow> parse_ipv4 s' = Some w \<Longrightarrow> s = s'"
proof -
  assume p: "parse_ipv4 s = Some w" "parse_ipv4 s' = Some w"
  have parts: "\<exists>a b c d. split_on (CHR ''.'') t = map nat_str [a, b, c, d] \<and> w = ipv4_of_octets a b c d \<and> a < 256 \<and> b < 256 \<and> c < 256 \<and> d < 256"
    if t: "parse_ipv4 t = Some w" for t
  proof -
    obtain a b c d where m: "map parse_octet (split_on (CHR ''.'') t) = [Some a, Some b, Some c, Some d]" "w = ipv4_of_octets a b c d"
      using t by (auto simp: parse_ipv4_def split: list.splits option.splits)
    then obtain sa sb sc sd where "split_on (CHR ''.'') t = [sa, sb, sc, sd]" "parse_octet sa = Some a" "parse_octet sb = Some b"
      "parse_octet sc = Some c" "parse_octet sd = Some d"
      by (auto simp: map_eq_Cons_conv)
    then show ?thesis using octet_text m(2) by (intro exI [of _ a] exI [of _ b] exI [of _ c] exI [of _ d]) auto
  qed
  obtain a b c d where 1: "split_on (CHR ''.'') s = map nat_str [a, b, c, d]" "w = ipv4_of_octets a b c d" "a < 256" "b < 256" "c < 256" "d < 256"
    using parts [OF p(1)] by blast
  obtain a' b' c' d' where 2: "split_on (CHR ''.'') s' = map nat_str [a', b', c', d']" "w = ipv4_of_octets a' b' c' d'" "a' < 256" "b' < 256" "c' < 256" "d' < 256"
    using parts [OF p(2)] by blast
  have "a = a' \<and> b = b' \<and> c = c' \<and> d = d'" using octets_inj [of a b c d a' b' c' d'] 1 2 by simp
  then have "split_on (CHR ''.'') s = split_on (CHR ''.'') s'" using 1(1) 2(1) by simp
  then show ?thesis by (metis join_split)
qed

lemma active_count:
  assumes "distinct ips"
  shows "active_in ips net = card {a. in_network a net \<and> (\<exists>x \<in> set ips. parse_ipv4 x = Some a)}"
proof -
  have d: "distinct (List.map_filter parse_ipv4 ips)"
    using assms by (induction ips) (auto simp: List.map_filter_def dest: parse_ipv4_inj)
  have s: "set (List.map_filter parse_ipv4 ips) = {a. \<exists>x \<in> set ips. parse_ipv4 x = Some a}"
    by (force simp: List.map_filter_def)
  have "active_in ips net = card (set (filter (\<lambda>a. in_network a net) (List.map_filter parse_ipv4 ips)))"
    using distinct_card [OF distinct_filter [OF d]] by (simp add: active_in_def)
  also have "set (filter (\<lambda>a. in_network a net) (List.map_filter parse_ipv4 ips)) = {a. in_network a net \<and> (\<exists>x \<in> set ips. parse_ipv4 x = Some a)}"
    using s by auto
  finally show ?thesis .
qed

subsection \<open>What is collected\<close>

text \<open>The address texts in what the distros answered.\<close>

definition seen_texts :: "(show_params \<Rightarrow> show_side) \<Rightarrow> subnet_task \<Rightarrow> string set" where
  "seen_texts net t = {x. \<exists>h \<in> set (su_distros t). \<exists>out. show_output (net (subnet_params t h)) = Inr out \<and> x \<in> set (find_quads False out)}"

lemma collect_one_step:
  assumes "distinct (fst s)"
  shows "distinct (fst (collect_one net t h s)) \<and>
    set (fst (collect_one net t h s)) = set (fst s) \<union> {x. \<exists>out. show_output (net (subnet_params t h)) = Inr out \<and> x \<in> set (find_quads False out)}"
  using assms by (cases s) (auto simp: collect_one_def split: sum.splits)

lemma collected:
  "distinct (fst (collect_active None net t)) \<and> set (fst (collect_active None net t)) = seen_texts net t"
proof -
  have "distinct (fst (foldl (\<lambda>s h. collect_one net t h s) s hs)) \<and>
      set (fst (foldl (\<lambda>s h. collect_one net t h s) s hs)) =
        set (fst s) \<union> {x. \<exists>h \<in> set hs. \<exists>out. show_output (net (subnet_params t h)) = Inr out \<and> x \<in> set (find_quads False out)}"
    if "distinct (fst s)" for s hs
    using that
  proof (induction hs arbitrary: s)
    case (Cons h hs)
    show ?case using Cons.IH [of "collect_one net t h s"] collect_one_step [OF Cons.prems, of net t h] by auto
  qed simp
  from this [of "([], [])" "su_distros t"] show ?thesis by (simp add: collect_active_def seen_texts_def)
qed

text \<open>The hosts of a subnet that some distro has seen.\<close>

definition hosts_in :: "(show_params \<Rightarrow> show_side) \<Rightarrow> subnet_task \<Rightarrow> subnet \<Rightarrow> ipv4 set" where
  "hosts_in net t s = {a. in_network a (snd s) \<and> (\<exists>x \<in> seen_texts net t. parse_ipv4 x = Some a)}"

definition subnet_pct :: "(show_params \<Rightarrow> show_side) \<Rightarrow> subnet_task \<Rightarrow> subnet \<Rightarrow> rat" where
  "subnet_pct net t s = used_pct t (card (hosts_in net t s))"

definition below :: "(show_params \<Rightarrow> show_side) \<Rightarrow> subnet_task \<Rightarrow> subnet \<Rightarrow> bool" where
  "below net t s = (\<not> ignored t s \<and> fl_less (Fin (subnet_pct net t s)) (su_low t))"

definition above :: "(show_params \<Rightarrow> show_side) \<Rightarrow> subnet_task \<Rightarrow> subnet \<Rightarrow> bool" where
  "above net t s = (\<not> ignored t s \<and> \<not> below net t s \<and> fl_less (su_high t) (Fin (subnet_pct net t s)))"

lemma evaluated:
  assumes "ips = fst (collect_active None net t)"
  shows "fst (evaluate_subnets t ips ss) = map (subnet_row_of t ips) (filter (below net t) ss) \<and>
    snd (evaluate_subnets t ips ss) = map (subnet_row_of t ips) (filter (above net t) ss)"
proof (induction ss)
  case (Cons s ss)
  have "active_in ips (snd s) = card (hosts_in net t s)"
    using active_count [of ips "snd s"] collected [of net t] assms by (simp add: hosts_in_def)
  then have "below net t s = (\<not> ignored t s \<and> too_low t ips s)" "above net t s = (\<not> ignored t s \<and> \<not> too_low t ips s \<and> too_high t ips s)"
    by (auto simp: below_def above_def too_low_def too_high_def subnet_pct_def)
  then show ?case using Cons by (cases "evaluate_subnets t ips ss") auto
qed simp

text \<open>
  C39: A run that reads its subnets and has distros to ask reports a failed collection exactly when no distro
  showed an address; otherwise it mails exactly the subnets, not ignored, whose number of distinct
  hosts is below or above the watermarks, each with that number, and stays quiet when there are none.
\<close>

theorem subnet_alarms_exact:
  assumes ok: "subnets_of files t = Inr ss" "su_distros t \<noteq> []" "ss \<noteq> []"
  shows "\<exists>errs. subnet_run files None net t = Inr (
     if seen_texts net t = {} then Some (Collect_Failed (su_distros t) errs)
     else if filter (below net t) ss = [] \<and> filter (above net t) ss = [] then None
     else Some (Utilization
       (sort_key sr_pct (map (\<lambda>s. \<lparr>sr_label = fst s, sr_net = snd s, sr_count = card (hosts_in net t s), sr_usable = su_usable t,
          sr_pct = round_digits (subnet_pct net t s) 1\<rparr>) (filter (below net t) ss)))
       (sort_key (\<lambda>x. - sr_pct x) (map (\<lambda>s. \<lparr>sr_label = fst s, sr_net = snd s, sr_count = card (hosts_in net t s), sr_usable = su_usable t,
          sr_pct = round_digits (subnet_pct net t s) 1\<rparr>) (filter (above net t) ss))) errs (su_distros t)))"
proof -
  obtain ips errs where c: "collect_active None net t = (ips, errs)" by fastforce
  have set_ips: "distinct ips" "set ips = seen_texts net t" using collected [of net t] c by simp_all
  have row: "subnet_row_of t ips = (\<lambda>s. \<lparr>sr_label = fst s, sr_net = snd s, sr_count = card (hosts_in net t s), sr_usable = su_usable t,
      sr_pct = round_digits (subnet_pct net t s) 1\<rparr>)"
    using active_count [OF set_ips(1)] set_ips(2) by (intro ext) (simp add: subnet_row_of_def hosts_in_def subnet_pct_def Let_def)
  obtain low high where e: "evaluate_subnets t ips ss = (low, high)" by fastforce
  have lh: "low = map (subnet_row_of t ips) (filter (below net t) ss)" "high = map (subnet_row_of t ips) (filter (above net t) ss)"
    using evaluated [of ips net t ss] c e by simp_all
  have em: "seen_texts net t = {} \<longleftrightarrow> ips = []" using set_ips(2) by auto
  show ?thesis
    unfolding subnet_run_def ok(1) bind_r_simps c em
    by (intro exI [of _ errs]) (simp add: ok(2,3) e subnet_mail_of_def lh row)
qed

definition lab_task :: subnet_task where
  "lab_task = \<lparr>su_distros = [''d1''], su_device_type = ''aruba_aoscx'', su_command = ''show arp'', su_username = ''admin'', su_password = ''pw'',
     su_enable = [], su_low = Fin 10, su_high = Fin 90, su_usable = 254, su_timeout = 30, su_file = ''/subnets.txt'', su_inline = [], su_ignore = []\<rparr>"

definition lab_files :: "string \<Rightarrow> string content" where
  "lab_files path = Holds (''# wireless'' @ newline @ ''lab 10.0.0.0/30'' @ newline)"

definition lab_net :: "show_params \<Rightarrow> show_side" where
  "lab_net p = \<lparr>sh_connect = None, sh_timed = Inr (Some ''10.0.0.2  aa:bb  vlan1''), sh_plain = Inr None\<rparr>"

theorem subnet_alarms_exact_witness:
  "\<exists>low errs. subnet_run lab_files None lab_net lab_task = Inr (Some (Utilization low [] errs [''d1''])) \<and> map sr_count low = [1]"
proof -
  let ?s = "(''lab'', 0x0A000000 :: ipv4, 30 :: nat)"
  have "words ''lab 10.0.0.0/30'' = [''lab'', ''10.0.0.0/30'']" by code_simp
  moreover have "strip ''lab 10.0.0.0/30'' = ''lab 10.0.0.0/30''" by code_simp
  ultimately have line: "subnet_line ''lab 10.0.0.0/30'' = Some ?s" by (simp add: subnet_line_def lab_network startswith_def)
  have comment: "subnet_line ''# wireless'' = None" "subnet_line [] = None" by code_simp+
  have "splitlines (universal_newlines (''# wireless'' @ newline @ ''lab 10.0.0.0/30'' @ newline)) = [''# wireless'', ''lab 10.0.0.0/30'']" by code_simp
  then have ss: "subnets_of lab_files lab_task = Inr [?s]"
    by (simp add: subnets_of_def lab_task_def lab_files_def listed_lines_def line comment)
  have d: "su_distros lab_task \<noteq> []" by (simp add: lab_task_def)
  have "find_quads False ''10.0.0.2  aa:bb  vlan1'' = [''10.0.0.2'']" by code_simp
  then have seen: "seen_texts lab_net lab_task = {''10.0.0.2''}" by (simp add: seen_texts_def lab_net_def lab_task_def show_output_def str_or_empty_def)
  have "parse_ipv4 ''10.0.0.2'' = Some 0x0A000002" using parse_ip_str [of "0x0A000002"] by (simp only: lab_address)
  moreover have "in_network 0x0A000002 (0x0A000000, 30)" by (simp add: in_network_def prefix_mask_def mask_eq_exp_minus_1)
  ultimately have "hosts_in lab_net lab_task ?s = {0x0A000002}" by (auto simp: hosts_in_def seen)
  then have c: "card (hosts_in lab_net lab_task ?s) = 1" by simp
  have "\<not> ignored lab_task ?s" by (simp add: ignored_def lab_task_def)
  then have b: "below lab_net lab_task ?s" using c by (simp add: below_def subnet_pct_def used_pct_def lab_task_def)
  then have a: "\<not> above lab_net lab_task ?s" by (simp add: above_def)
  have f: "filter (below lab_net lab_task) [?s] = [?s]" "filter (above lab_net lab_task) [?s] = []" "seen_texts lab_net lab_task \<noteq> {}"
    using a b seen by simp_all
  have dd: "su_distros lab_task = [''d1'']" by (simp add: lab_task_def)
  have "sort_key g [x] = [x]" for g :: "subnet_row \<Rightarrow> rat" and x by simp
  note one = this
  obtain errs where run: "subnet_run lab_files None lab_net lab_task = Inr (Some (Utilization
      [\<lparr>sr_label = fst ?s, sr_net = snd ?s, sr_count = card (hosts_in lab_net lab_task ?s), sr_usable = su_usable lab_task,
        sr_pct = round_digits (subnet_pct lab_net lab_task ?s) 1\<rparr>] [] errs [''d1'']))"
    using subnet_alarms_exact [OF ss d, of lab_net] unfolding f(1,2) if_not_P [OF f(3)] list.map one dd by (auto simp only: list.distinct sort_key_simps simp_thms if_False)
  show ?thesis by (intro exI conjI, rule run) (simp add: c)
qed

end
