(* ===== verification/Health.thy ===== *)
theory Health
  imports Interfaces
begin

text \<open>
  Device health: the collection of CPU, memory and temperature over SNMP, \<open>aruba_agent/health.py\<close>, and
  the poll task \<open>aruba_agent/tasks/health_poll.py\<close>.

  Readings are Python floats, as the devices' texts may say \<open>inf\<close> or \<open>nan\<close>.  The SNMP agent is an argument:
  \<open>hs_walk\<close> and \<open>hs_get\<close> give \<open>None\<close> for an exception as for no answer, which the code treats alike.
\<close>

subsection \<open>Floats\<close>

text \<open>The arithmetic of the readings; the divisors of the code are positive or the NaN.\<close>

definition fl_of :: "(rat \<Rightarrow> rat \<Rightarrow> rat) \<Rightarrow> (py_float \<Rightarrow> py_float \<Rightarrow> py_float) \<Rightarrow> py_float \<Rightarrow> py_float \<Rightarrow> py_float" where
  "fl_of f g a b = (case (a, b) of (Fin x, Fin y) \<Rightarrow> Fin (f x y) | _ \<Rightarrow> if a = NaN \<or> b = NaN then NaN else g a b)"

definition fl_add :: "py_float \<Rightarrow> py_float \<Rightarrow> py_float" where
  "fl_add = fl_of (+) (\<lambda>a b. if a = PosInf \<and> b = NegInf \<or> a = NegInf \<and> b = PosInf then NaN
     else if a = PosInf \<or> b = PosInf then PosInf else NegInf)"

text \<open>Times a positive number, and divided by a number that is positive, infinite or the NaN.\<close>

definition fl_scale :: "rat \<Rightarrow> py_float \<Rightarrow> py_float" where
  "fl_scale k a = (case a of Fin x \<Rightarrow> Fin (k * x) | _ \<Rightarrow> a)"

definition fl_ratio :: "py_float \<Rightarrow> py_float \<Rightarrow> py_float" where
  "fl_ratio = fl_of (/) (\<lambda>a b. if b = PosInf then (case a of Fin x \<Rightarrow> Fin 0 | _ \<Rightarrow> NaN) else a)"

definition fl_max :: "py_float \<Rightarrow> py_float \<Rightarrow> py_float" where
  "fl_max a b = (if fl_less a b then b else a)"

definition fl_min :: "py_float \<Rightarrow> py_float \<Rightarrow> py_float" where
  "fl_min a b = (if fl_less b a then b else a)"

definition fl_round1 :: "py_float \<Rightarrow> py_float" where
  "fl_round1 a = (case a of Fin x \<Rightarrow> Fin (round_digits x 1) | _ \<Rightarrow> a)"

subsection \<open>The helpers\<close>

text \<open>\<open>_num\<close> of a text or of \<open>None\<close>.\<close>

definition num :: "string option \<Rightarrow> py_float option" where
  "num v = (case v of None \<Rightarrow> None | Some s \<Rightarrow> py_float (strip s))"

definition mem_pct :: "py_float option \<Rightarrow> py_float option \<Rightarrow> py_float option" where
  "mem_pct used whole = (case (used, whole) of
       (Some u, Some t) \<Rightarrow> if fl_le t (Fin 0) then None
         else Some (fl_round1 (fl_min (Fin 100) (fl_max (Fin 0) (fl_scale 100 (fl_ratio u t)))))
     | _ \<Rightarrow> None)"

definition average :: "string list \<Rightarrow> py_float option" where
  "average vs = (case List.map_filter (num \<circ> Some) vs of [] \<Rightarrow> None
     | n # ns \<Rightarrow> Some (fl_round1 (fl_scale (1 / of_nat (length (n # ns))) (foldl fl_add (Fin 0) (n # ns)))))"

definition biggest :: "py_float list \<Rightarrow> py_float option" where
  "biggest ns = (case ns of [] \<Rightarrow> None | n # ns \<Rightarrow> Some (foldl fl_max n ns))"

definition max_temp :: "string list \<Rightarrow> py_float option" where
  "max_temp vs = map_option fl_round1 (biggest (List.map_filter (num \<circ> Some) vs))"

subsection \<open>The columns\<close>

definition oid_cpu :: string where "oid_cpu = ''1.3.6.1.2.1.25.3.3.1.2''"
definition oid_temp_value :: string where "oid_temp_value = ''1.3.6.1.2.1.99.1.1.1.4''"
definition oid_temp_type :: string where "oid_temp_type = ''1.3.6.1.2.1.99.1.1.1.1''"
definition oid_temp_scale :: string where "oid_temp_scale = ''1.3.6.1.2.1.99.1.1.1.2''"
definition oid_temp_prec :: string where "oid_temp_prec = ''1.3.6.1.2.1.99.1.1.1.3''"
definition oid_store_type :: string where "oid_store_type = ''1.3.6.1.2.1.25.2.3.1.2''"
definition oid_store_size :: string where "oid_store_size = ''1.3.6.1.2.1.25.2.3.1.5''"
definition oid_store_used :: string where "oid_store_used = ''1.3.6.1.2.1.25.2.3.1.6''"
definition oid_ram :: string where "oid_ram = ''1.3.6.1.2.1.25.2.1.2''"

record vendor_oids =
  vo_cpu_get :: "string option"
  vo_cpu_walk :: "string list"
  vo_mem_total :: "(string \<times> string) option"
  vo_mem_free :: "(string \<times> string) option"
  vo_temp_walk :: "string list"

definition no_oids :: vendor_oids where
  "no_oids = \<lparr>vo_cpu_get = None, vo_cpu_walk = [], vo_mem_total = None, vo_mem_free = None, vo_temp_walk = []\<rparr>"

text \<open>\<open>VENDOR_OIDS\<close>: the pairs are used and total, and used and free memory.\<close>

definition vendor_oids_of :: "string \<Rightarrow> vendor_oids" where
  "vendor_oids_of vendor =
     (if vendor = ''aruba_cx'' then no_oids\<lparr>vo_cpu_walk := [oid_cpu]\<rparr>
      else if vendor = ''aruba_os'' then no_oids\<lparr>vo_cpu_get := Some ''1.3.6.1.4.1.11.2.14.11.5.1.9.6.1.0'',
        vo_mem_total := Some (''1.3.6.1.4.1.11.2.14.11.5.1.1.2.1.1.1.7.1'', ''1.3.6.1.4.1.11.2.14.11.5.1.1.2.1.1.1.5.1'')\<rparr>
      else if vendor = ''cisco_ios'' then no_oids\<lparr>vo_cpu_walk := [''1.3.6.1.4.1.9.9.109.1.1.1.1.8''],
        vo_mem_free := Some (''1.3.6.1.4.1.9.9.48.1.1.1.5.1'', ''1.3.6.1.4.1.9.9.48.1.1.1.6.1''),
        vo_temp_walk := [''1.3.6.1.4.1.9.9.13.1.3.1.3'']\<rparr>
      else no_oids)"

record health_snmp =
  hs_walk :: "string list \<Rightarrow> (string, column) dict option"
  hs_get :: "string \<Rightarrow> string option"

definition health_walk :: "health_snmp \<Rightarrow> string list \<Rightarrow> (string, column) dict" where
  "health_walk s oids = (case hs_walk s oids of None \<Rightarrow> [] | Some w \<Rightarrow> w)"

definition col :: "(string, column) dict \<Rightarrow> string \<Rightarrow> column" where
  "col w oid = (case dget w oid of None \<Rightarrow> [] | Some c \<Rightarrow> c)"

definition col_values :: "(string, column) dict \<Rightarrow> string list \<Rightarrow> string list" where
  "col_values w oids = concat (map (\<lambda>c. dvals (col w c)) oids)"

subsection \<open>Temperatures of the entity sensors\<close>

definition scale_exp :: "int \<Rightarrow> int" where
  "scale_exp n = (case map_of [(1, -24), (2, -21), (3, -18), (4, -15), (5, -12), (6, -9), (7, -6), (8, -3), (9, 0),
     (10, 3), (11, 6), (12, 9), (13, 12), (14, 15)] n of None \<Rightarrow> 0 | Some e \<Rightarrow> e)"

text \<open>\<open>int(str(d.get(idx, default)).strip() or default)\<close>, the default when it is no number.\<close>

definition sensor_int :: "column \<Rightarrow> string \<Rightarrow> int \<Rightarrow> int" where
  "sensor_int c idx d = (case dget c idx of None \<Rightarrow> d | Some v \<Rightarrow>
     if strip v = [] then d else case py_int (strip v) of None \<Rightarrow> d | Some n \<Rightarrow> n)"

text \<open>A divisor that is no float any more (\<open>10 ** 309\<close>) raises.\<close>

definition sensor_reading :: "(string, column) dict \<Rightarrow> string \<Rightarrow> py_float option result" where
  "sensor_reading w idx = (case num (dget (col w oid_temp_value) idx) of
       None \<Rightarrow> Inr None
     | Some v \<Rightarrow> let reading = fl_scale (scale10 1 (scale_exp (sensor_int (col w oid_temp_scale) idx 9))) v;
           prec = sensor_int (col w oid_temp_prec) idx 0 in
         if 308 < prec then Inl ValueError
         else Inr (Some (if 0 < prec then fl_scale (scale10 1 (- prec)) reading else reading)))"

definition entity_temp :: "(string, column) dict \<Rightarrow> py_float option result" where
  "entity_temp w = bind_r (fold_r (\<lambda>(idx, t) acc.
       if strip t \<noteq> ''8'' then Inr acc
       else bind_r (sensor_reading w idx) (\<lambda>r. Inr (case r of None \<Rightarrow> acc | Some x \<Rightarrow> acc @ [x]))) (col w oid_temp_type) [])
     (\<lambda>ts. Inr (map_option fl_round1 (biggest ts)))"

subsection \<open>The storage table\<close>

definition storage_pct :: "(string, column) dict \<Rightarrow> py_float option" where
  "storage_pct w = (let pct = (\<lambda>idx. mem_pct (num (dget (col w oid_store_used) idx)) (num (dget (col w oid_store_size) idx))) in
     case find (\<lambda>(idx, t). endswith (strip t) oid_ram) (col w oid_store_type) of
       Some (idx, t) \<Rightarrow> pct idx
     | None \<Rightarrow> (case List.map_filter (pct \<circ> fst) (col w oid_store_size) of [] \<Rightarrow> None | p # _ \<Rightarrow> Some p))"

subsection \<open>The collection\<close>

definition or_try :: "'a option \<Rightarrow> 'a option \<Rightarrow> 'a option" where
  "or_try a b = (case a of None \<Rightarrow> b | Some x \<Rightarrow> Some x)"

record health =
  h_cpu :: "py_float option"
  h_memory :: "py_float option"
  h_temperature :: "py_float option"

definition walk_average :: "health_snmp \<Rightarrow> string list \<Rightarrow> py_float option" where
  "walk_average s oids = (if oids = [] then None else average (col_values (health_walk s oids) oids))"

definition read_cpu :: "health_snmp \<Rightarrow> vendor_oids \<Rightarrow> py_float option" where
  "read_cpu s v = or_try (or_try (case vo_cpu_get v of None \<Rightarrow> None | Some oid \<Rightarrow> num (hs_get s oid)) (walk_average s (vo_cpu_walk v)))
     (walk_average s [oid_cpu])"

definition read_memory :: "health_snmp \<Rightarrow> vendor_oids \<Rightarrow> py_float option" where
  "read_memory s v = or_try (or_try
     (case vo_mem_total v of None \<Rightarrow> None | Some (used, whole) \<Rightarrow> mem_pct (num (hs_get s used)) (num (hs_get s whole)))
     (case vo_mem_free v of None \<Rightarrow> None | Some (used, free) \<Rightarrow> (case (num (hs_get s used), num (hs_get s free)) of
        (Some u, Some f) \<Rightarrow> mem_pct (Some u) (Some (fl_add u f)) | _ \<Rightarrow> None)))
     (storage_pct (health_walk s [oid_store_type, oid_store_size, oid_store_used]))"

definition read_temperature :: "health_snmp \<Rightarrow> vendor_oids \<Rightarrow> py_float option" where
  "read_temperature s v = or_try (if vo_temp_walk v = [] then None else max_temp (col_values (health_walk s (vo_temp_walk v)) (vo_temp_walk v)))
     (case entity_temp (health_walk s [oid_temp_type, oid_temp_value, oid_temp_scale, oid_temp_prec]) of Inl _ \<Rightarrow> None | Inr t \<Rightarrow> t)"

definition health_collect :: "health_snmp \<Rightarrow> string \<Rightarrow> health" where
  "health_collect s vendor = (let v = vendor_oids_of vendor in
     \<lparr>h_cpu = read_cpu s v, h_memory = read_memory s v, h_temperature = read_temperature s v\<rparr>)"

subsection \<open>The poll task\<close>

record health_task =
  he_enabled :: bool
  he_seconds :: int
  he_workers :: int
  he_jitter :: py_float
  he_record :: bool
  he_include :: "string list"
  he_exclude :: "string list"
  he_current :: "(string, health \<times> string) dict"
  he_running :: bool

definition new_health_task :: "config \<Rightarrow> health_task result" where
  "new_health_task c =
     bind_r (task_flag c ''health'' ''enabled'' ''false'') (\<lambda>en.
     bind_r (task_int c ''health'' ''poll_seconds'' ''300'') (\<lambda>secs.
     bind_r (task_int c ''health'' ''max_workers'' ''8'') (\<lambda>workers.
     bind_r (task_float c ''health'' ''jitter_seconds'' ''2'') (\<lambda>jitter.
     bind_r (task_flag c ''health'' ''record_metrics'' ''true'') (\<lambda>rec.
     bind_r (task_csv c ''health'' ''include'') (\<lambda>incl.
     bind_r (task_csv c ''health'' ''exclude'') (\<lambda>excl.
     Inr \<lparr>he_enabled = en, he_seconds = max 60 secs, he_workers = max 1 workers, he_jitter = jitter, he_record = rec,
       he_include = incl, he_exclude = excl, he_current = [], he_running = False\<rparr>)))))))"

definition health_eligible :: "health_task \<Rightarrow> (string, switch_state) dict \<Rightarrow> switch_state list" where
  "health_eligible t sws = filter (polled_switch (he_include t) (he_exclude t)) (dvals sws)"

text \<open>What the environment gives to a poll: the agent, the store's stamp and whether it can be reached.\<close>

record health_env =
  ev_snmp :: "string \<Rightarrow> string \<Rightarrow> health_snmp"
  ev_stamp :: int
  ev_up :: bool

definition health_readings :: "health \<Rightarrow> (string \<times> py_float) list" where
  "health_readings h = List.map_filter (\<lambda>(n, v). map_option (Pair n) v) [(''cpu'', h_cpu h), (''memory'', h_memory h), (''temperature'', h_temperature h)]"

definition health_poll_one :: "health_env \<Rightarrow> switch_state \<Rightarrow> health_task \<times> mongo \<Rightarrow> nat \<times> health_task \<times> mongo" where
  "health_poll_one env sw tm = (case tm of (t, m) \<Rightarrow>
     let h = health_collect (ev_snmp env (sw_host sw) (sw_snmp_profile sw)) (sw_vendor sw) in
     if health_readings h = [] then (0, t, m)
     else (length (health_readings h), t\<lparr>he_current := dset (sw_name sw) (h, sw_host sw) (he_current t)\<rparr>,
       if he_record t then fold (\<lambda>(n, x). record_metric (ev_up env) (ev_stamp env) (sw_name sw) (''health.'' @ n) x None) (health_readings h) m else m))"

definition health_sweep :: "(switch_state \<times> health_env) list \<Rightarrow> health_task \<times> mongo \<Rightarrow> health_task \<times> mongo" where
  "health_sweep polls tm = fold (\<lambda>(sw, env) tm. snd (health_poll_one env sw tm)) polls tm"

definition health_run :: "(switch_state \<Rightarrow> health_env) option \<Rightarrow> (string, switch_state) dict \<Rightarrow> health_task \<Rightarrow> mongo \<Rightarrow> health_task \<times> mongo" where
  "health_run snmp sws t m = (if \<not> he_enabled t then (t, m)
     else case snmp of None \<Rightarrow> (t, m)
     | Some env \<Rightarrow> if he_running t then (t, m)
       else let elig = health_eligible t sws in
         if elig = [] then (t, m)
         else (case health_sweep (map (\<lambda>sw. (sw, env sw)) elig) (t\<lparr>he_running := True\<rparr>, m) of
             (t1, m1) \<Rightarrow> (t1\<lparr>he_running := False\<rparr>, m1)))"

definition health_current :: "health_task \<Rightarrow> string \<Rightarrow> (health \<times> string) option" where
  "health_current t name = dget (he_current t) name"

definition health_samples :: "health_task \<Rightarrow> sample list" where
  "health_samples t = concat (map (\<lambda>(name, (h, host)).
     map (\<lambda>(n, x). \<lparr>s_device = name, s_host = host, s_metric = n, s_value = Some x, s_instance = []\<rparr>) (health_readings h)) (he_current t))"

subsection \<open>Memory is a percentage\<close>

lemma fl_clamp: "\<exists>x. fl_min (Fin 100) (fl_max (Fin 0) a) = Fin x \<and> 0 \<le> x \<and> x \<le> 100"
  by (cases a) (auto simp: fl_min_def fl_max_def)

lemma mem_pct_range: "mem_pct u t = Some p \<Longrightarrow> \<exists>x. p = Fin x \<and> 0 \<le> x \<and> x \<le> 100"
proof -
  assume m: "mem_pct u t = Some p"
  obtain a where a: "p = fl_round1 (fl_min (Fin 100) (fl_max (Fin 0) a))" using m by (auto simp: mem_pct_def split: option.splits if_splits)
  obtain x where x: "fl_min (Fin 100) (fl_max (Fin 0) a) = Fin x" "0 \<le> x" "x \<le> 100" using fl_clamp by blast
  show ?thesis using round_digits_bounds [of 0 x 100 1] x a by (simp add: fl_round1_def)
qed

lemma storage_pct_range: "storage_pct w = Some p \<Longrightarrow> \<exists>x. p = Fin x \<and> 0 \<le> x \<and> x \<le> 100"
proof -
  assume s: "storage_pct w = Some p"
  have "\<exists>u t. mem_pct u t = Some p"
  proof (cases "find (\<lambda>(idx, t). endswith (strip t) oid_ram) (col w oid_store_type)")
    case None
    let ?f = "\<lambda>kv. mem_pct (num (dget (col w oid_store_used) (fst kv))) (num (dget (col w oid_store_size) (fst kv)))"
    have "p \<in> set (List.map_filter ?f (col w oid_store_size))"
      using s None by (auto simp: storage_pct_def Let_def comp_def split: list.splits)
    then show ?thesis by (force simp: List.map_filter_def)
  qed (use s in \<open>auto simp: storage_pct_def Let_def\<close>)
  then show ?thesis using mem_pct_range by blast
qed

lemma read_memory_range: "read_memory s v = Some p \<Longrightarrow> \<exists>x. p = Fin x \<and> 0 \<le> x \<and> x \<le> 100"
  unfolding read_memory_def or_try_def
  by (auto split: option.splits dest!: mem_pct_range storage_pct_range)

text \<open>What a task holds for a switch: a reading, its memory a percentage whatever the device says, from a switch \<open>Q\<close> accepts.\<close>

definition percent :: "py_float option \<Rightarrow> bool" where
  "percent v = (case v of None \<Rightarrow> True | Some (Fin x) \<Rightarrow> 0 \<le> x \<and> x \<le> 100 | Some _ \<Rightarrow> False)"

definition health_ok :: "(string \<Rightarrow> string \<Rightarrow> bool) \<Rightarrow> string \<Rightarrow> health \<times> string \<Rightarrow> bool" where
  "health_ok Q k e = (health_readings (fst e) \<noteq> [] \<and> percent (h_memory (fst e)) \<and> Q k (snd e))"

lemma read_memory_percent [simp]: "percent (read_memory s v)"
  by (cases "read_memory s v") (auto simp: percent_def dest: read_memory_range)

lemma health_poll_ok:
  "dict_ok (health_ok Q) (he_current (fst tm)) \<Longrightarrow> Q (sw_name sw) (sw_host sw) \<Longrightarrow>
   dict_ok (health_ok Q) (he_current (fst (snd (health_poll_one env sw tm))))"
  by (cases tm) (auto simp: health_poll_one_def Let_def health_ok_def health_collect_def intro!: dict_ok_dset)

lemma health_poll_frame [simp]:
  "he_include (fst (snd (health_poll_one env sw tm))) = he_include (fst tm)"
  "he_exclude (fst (snd (health_poll_one env sw tm))) = he_exclude (fst tm)"
  by (cases tm; simp add: health_poll_one_def Let_def)+

lemma health_sweep_ok:
  "dict_ok (health_ok Q) (he_current (fst tm)) \<Longrightarrow> \<forall>(sw, env) \<in> set polls. Q (sw_name sw) (sw_host sw) \<Longrightarrow>
   dict_ok (health_ok Q) (he_current (fst (health_sweep polls tm)))
   \<and> he_include (fst (health_sweep polls tm)) = he_include (fst tm) \<and> he_exclude (fst (health_sweep polls tm)) = he_exclude (fst tm)"
  unfolding health_sweep_def
proof (induction polls arbitrary: tm)
  case (Cons p polls)
  obtain sw env where p: "p = (sw, env)" by fastforce
  show ?case using Cons.IH [OF health_poll_ok [OF Cons.prems(1), of sw env]] Cons.prems(2) p by simp
qed simp

text \<open>The task over its runs: each gets the agent, or none, and the switches there are.\<close>

type_synonym health_event = "(switch_state \<Rightarrow> health_env) option \<times> (string, switch_state) dict"

definition health_step :: "health_task \<times> mongo \<Rightarrow> health_event \<Rightarrow> health_task \<times> mongo" where
  "health_step tm e = (case tm of (t, m) \<Rightarrow> health_run (fst e) (snd e) t m)"

definition may_read :: "string list \<Rightarrow> string list \<Rightarrow> (string \<Rightarrow> string \<Rightarrow> bool) \<Rightarrow> health_event \<Rightarrow> bool" where
  "may_read incl excl Q e = (\<forall>sw \<in> set (dvals (snd e)). polled_switch incl excl sw \<longrightarrow> Q (sw_name sw) (sw_host sw))"

definition held_ok :: "string list \<Rightarrow> string list \<Rightarrow> (string \<Rightarrow> string \<Rightarrow> bool) \<Rightarrow> health_task \<Rightarrow> bool" where
  "held_ok incl excl Q t = (he_include t = incl \<and> he_exclude t = excl \<and> dict_ok (health_ok Q) (he_current t))"

lemma health_run_ok:
  assumes h: "held_ok incl excl Q t" and r: "may_read incl excl Q (snmp, sws)"
  shows "held_ok incl excl Q (fst (health_run snmp sws t m))"
proof (cases "he_enabled t \<and> snmp \<noteq> None \<and> \<not> he_running t \<and> health_eligible t sws \<noteq> []")
  case False
  then show ?thesis using h by (auto simp: health_run_def Let_def split: option.splits)
next
  case True
  then obtain env where c: "snmp = Some env" by blast
  let ?tm = "(t\<lparr>he_running := True\<rparr>, m)" and ?polls = "map (\<lambda>sw. (sw, env sw)) (health_eligible t sws)"
  obtain t1 m1 where s: "health_sweep ?polls ?tm = (t1, m1)" by fastforce
  have "\<forall>(sw, env) \<in> set ?polls. Q (sw_name sw) (sw_host sw)"
    using h r by (auto simp: health_eligible_def held_ok_def may_read_def)
  then have "dict_ok (health_ok Q) (he_current t1) \<and> he_include t1 = he_include t \<and> he_exclude t1 = he_exclude t"
    using health_sweep_ok [of Q ?tm ?polls] h s by (simp add: held_ok_def)
  then show ?thesis using h True c s by (simp add: health_run_def Let_def held_ok_def)
qed

interpretation health_runs: machine health_step "\<lambda>tm. held_ok incl excl Q (fst tm)" "may_read incl excl Q" for incl excl Q
  by unfold_locales (auto simp: health_step_def health_run_ok)

lemma new_health_task_empty: "new_health_task c = Inr t \<Longrightarrow> he_current t = []"
  by (auto simp: new_health_task_def bind_r_def split: sum.splits)

text \<open>
  C40: What the threshold evaluator is given, from the start and after any sequence of runs with any answers of
  the devices: every sample is of a switch that was there in some run and that the task may poll, under its
  name and address; a memory sample is a finite percentage, although a device can say an infinity, no number, or
  more used than there is; and it is of the switch's own entry.
\<close>

theorem health_samples_sound:
  assumes "new_health_task c = Inr t" and "s \<in> set (health_samples (fst (foldl health_step (t, m) es)))"
  shows "(\<exists>e \<in> set es. \<exists>sw \<in> set (health_eligible t (snd e)). s_device s = sw_name sw \<and> s_host s = sw_host sw)
    \<and> (s_metric s = ''memory'' \<longrightarrow> (\<exists>x. s_value s = Some (Fin x) \<and> 0 \<le> x \<and> x \<le> 100))
    \<and> s_metric s \<in> {''cpu'', ''memory'', ''temperature''} \<and> s_instance s = []"
proof -
  let ?Q = "\<lambda>k h. \<exists>e \<in> set es. \<exists>sw \<in> set (health_eligible t (snd e)). k = sw_name sw \<and> h = sw_host sw"
  have "list_all (may_read (he_include t) (he_exclude t) ?Q) es"
    by (auto simp: list_all_iff may_read_def health_eligible_def)
  then have "held_ok (he_include t) (he_exclude t) ?Q (fst (foldl health_step (t, m) es))"
    using health_runs.run_inv new_health_task_empty [OF assms(1)] by (simp add: held_ok_def)
  then have ok: "\<forall>(k, e) \<in> set (he_current (fst (foldl health_step (t, m) es))). health_ok ?Q k e"
    by (simp add: held_ok_def dict_ok_def)
  obtain k h host n x where e: "(k, h, host) \<in> set (he_current (fst (foldl health_step (t, m) es)))"
    "(n, x) \<in> set (health_readings h)" "s = \<lparr>s_device = k, s_host = host, s_metric = n, s_value = Some x, s_instance = []\<rparr>"
    using assms(2) by (auto simp: health_samples_def)
  then have "health_ok ?Q k (h, host)" using ok by blast
  then have q: "?Q k host" "percent (h_memory h)" by (simp_all add: health_ok_def)
  have "n \<in> {''cpu'', ''memory'', ''temperature''}" "n = ''memory'' \<Longrightarrow> h_memory h = Some x"
    using e(2) by (cases "h_cpu h"; cases "h_memory h"; cases "h_temperature h"; auto simp: health_readings_def List.map_filter_def)+
  then show ?thesis using q e(3) by (auto simp: percent_def split: option.splits py_float.splits)
qed

definition lab_health :: health_snmp where
  "lab_health = \<lparr>hs_walk = \<lambda>oids. Some [(oid_store_type, [(''1'', oid_ram)]), (oid_store_size, [(''1'', ''10'')]), (oid_store_used, [(''1'', ''inf'')])],
     hs_get = \<lambda>_. None\<rparr>"

definition lab_event :: health_event where
  "lab_event = (Some (\<lambda>_. \<lparr>ev_snmp = \<lambda>_ _. lab_health, ev_stamp = 0, ev_up = True\<rparr>), [(''sw1'', new_switch ''sw1'' ''10.0.0.1'' ''auto'')])"

definition lab_config :: config where
  "lab_config = \<lparr>defaults = [], sections = [(''health'', [(''enabled'', ''true''), (''record_metrics'', ''false'')])]\<rparr>"

definition lab_poller :: health_task where
  "lab_poller = \<lparr>he_enabled = True, he_seconds = 300, he_workers = 8, he_jitter = Fin 2, he_record = False, he_include = [],
     he_exclude = [], he_current = [], he_running = False\<rparr>"

definition lab_store :: mongo where
  "lab_store = \<lparr>mg_client = False, mg_devices = [], mg_runtime = None, mg_metrics = [], mg_counters = [], mg_fdb = [], mg_neighbors = [], mg_traps = []\<rparr>"

lemma lab_poller_new: "new_health_task lab_config = Inr lab_poller"
  by code_simp

lemma lab_sample: "health_samples (fst (foldl health_step (lab_poller, lab_store) [lab_event])) =
    [\<lparr>s_device = ''sw1'', s_host = ''10.0.0.1'', s_metric = ''memory'', s_value = Some (Fin 100), s_instance = []\<rparr>]"
  by code_simp

theorem health_samples_sound_witness:
  "\<exists>s \<in> set (health_samples (fst (foldl health_step (lab_poller, lab_store) [lab_event]))).
     s_metric s = ''memory'' \<and> (\<exists>x. s_value s = Some (Fin x) \<and> 0 \<le> x \<and> x \<le> 100)"
proof (intro bexI conjI)
  let ?s = "\<lparr>s_device = ''sw1'', s_host = ''10.0.0.1'', s_metric = ''memory'', s_value = Some (Fin 100), s_instance = []\<rparr>"
  show "?s \<in> set (health_samples (fst (foldl health_step (lab_poller, lab_store) [lab_event])))" by (simp only: lab_sample) simp
  show "s_metric ?s = ''memory''" by simp
  then show "\<exists>x. s_value ?s = Some (Fin x) \<and> 0 \<le> x \<and> x \<le> 100"
    using health_samples_sound [OF lab_poller_new, of ?s lab_store "[lab_event]"] lab_sample by simp
qed

end
