(* ===== verification/Spec2Isabelle.thy ===== *)
theory Spec2Isabelle
  imports Agent_State_Proofs Scheduler Alert_Batcher Switch_Poller_Proofs Thresholds_Proofs
    Snmp_Walk Mongo_Proofs L2_Proofs Interface_Proofs Scanner_Proofs Drivers Arp_Proofs
    Manual_Hosts Web_Auth_Proofs Traps_Proofs Backup_Proofs Config_Push Firmware Secrets_Migration Settings_Proofs
    Subnet_Proofs Health
begin

text \<open>
  Verification of the Aruba Network Agent (src/aruba_agent): a Python service that polls switches,
  evaluates thresholds, receives traps, backs up configurations, discovers devices and serves a
  dashboard.  The theories model the program function by function; each opens with what it holds.

  \<^bold>\<open>The program and the theories\<close>

  \<^item> Python values.  Prelude (strings, numbers as text, insertion-ordered dictionaries, exceptions as
    values of a sum, and the locale \<open>machine\<close> of runs that keep an invariant), Py_Data (dates, JSON
    values), Py_Float (floats as exact rationals with the infinities and NaN), Py_Text (UTF-8 bytes,
    lines, rows of tables), Scope (IPv4 addresses and networks as 32-bit words), Hex.
  \<^item> Shared state.  Agent_State models state.py: switches, backup report, inventory and last runs, the
    snapshot it writes and the loader.  Json_Store and Mongo_Store are the two backends of store/;
    Atomic_File is the temporary file, \<open>fsync\<close> and rename that the registries use, with every failing
    step.  The locale of Atomic_File is interpreted for the four JSON registries.
  \<^item> Configuration and secrets.  Config is configparser as the program uses it, Secrets is
    secrets_store.py: the encrypted form, the readers and the master key, Secrets_Migration its rewrite of
    the text of config.ini.
  \<^item> Time.  Scheduler is scheduler.py: daily and interval jobs of a tick; the tasks below are the jobs.
  \<^item> Polling.  Switch_Poller is monitors/switch_poller.py: the ladder of reachability checks, the failure
    counter, alerts and the manager of the monitors.  Detector is drivers/detector.py and
    snmp_profiles.py, Snmp_Walk the paginated walk of snmp.py.
  \<^item> Devices.  Cx_Session is cx_session.py and drivers/aruba_cx.py, Cli_Drivers the four drivers over
    NAPALM and netmiko, Drivers the protocol of drivers/base.py with drivers/factory.py.
  \<^item> Tasks.  Backup_Files, Backup_Task, Config_Diff (tasks/backup.py, config_diff.py); Scanner
    (tasks/scanner.py); Arp (tasks/arp.py); Fdb, Lldp, L2_Discovery (fdb.py, lldp.py,
    tasks/l2_discovery.py); Interfaces, Interface_Poll (interfaces.py, tasks/interface_poll.py);
    Thresholds (thresholds.py, thresholds_store.py, tasks/threshold_eval.py);
    Config_Push (the pushing of configurations), Firmware (the updates), Subnet_Health
    (tasks/subnet_health.py, tasks/webserver_health.py), Health (health.py, tasks/health_poll.py).
  \<^item> Alerts.  Alert_Batcher is alert_batcher.py and notifier.py, with timers and monitor threads as an
    inductive step relation; Traps is traps.py and trap_receiver.py.
  \<^item> Users.  Local_Auth, Api_Tokens, Radius, Login_Limiter, Audit_Log, Manual_Hosts and Credentials are
    the modules of those names; Web_Auth and Web_Accounts are the routes of web/app.py for login,
    second factor, passkeys, accounts and tokens; Ini_Text and Config_Editor are the text
    syntax of configparser and config_editor.py, Ini_Parsed shows which texts can be written back; Web_Settings is the settings pages and their forms.

  The tasks read the state through its lookups by host (mode, vendor, name), write their results back
  through its setters, and every write of the state is a snapshot in the store.  A device is reached
  through the driver that the factory picks from the detected vendor.  Mails go through the notifier,
  those of the poller through the batcher.  The web routes act on the registries and on the state.

  \<^bold>\<open>What the lemmas show\<close>

  \<^item> State and stores: a crash at any step of a save loses at most the last change, a restart restores
    what was stable, and both backends give back what was put in.
  \<^item> Secrets and users: whatever fails, the migration leaves a file in which every secret decrypts as
    before and options without percent and comment signs are read as before, a session needs credentials and
    every configured factor, a token needs its scope, codes work once, the limiter
    locks exactly on recent failures.
  \<^item> Poller: it refines a counter of consecutive failures, a device is down exactly from the threshold
    on; the batcher loses and repeats no event under any interleaving.
  \<^item> Thresholds: an alert starts exactly when a breach has lasted its time; rules that are saved are
    valid and read back.
  \<^item> Backups and ARP history: what is reported as saved verifies and decrypts to what the device gave,
    and the rotation keeps the newest files.
  \<^item> Discovery: the walk ends and reads whole columns, the records stored are well formed, the order of
    the workers does not matter, the scan lists exactly the answering switches, the coverage guard
    holds, the table of a router is read back.
  \<^item> Devices: no block of calls leaves a REST session behind unless the switch refuses twice, the
    password travels in login requests only.
  \<^item> Settings and pushes: a settings page tells nothing of a secret but whether it is set, a typed secret is
    written encrypted unless it starts like an encrypted one, a saved form reads back as the changes it made,
    for files and values without comment signs, carriage returns and the like, which the pages do not
    check; a push reports what happened on the device and sends nothing else, a firmware update leaves the running image alone.
  \<^item> Health: the subnets reported are exactly those outside the marks, by the distinct hosts of the
    tables, and a failed collection reports none; a memory sample is a percentage whatever a device says.
  \<^item> Several theorems state behaviour that the code probably does not intend; the manifest lists them as
    findings.

  The locales state what a client relies on: \<open>machine\<close> (invariants of runs), the registry of
  Atomic_File (durability), \<open>device_rows\<close> of L2_Discovery (rows kept per device) and \<open>switch_driver\<close> of
  Drivers (login, logout and calls); each is interpreted on the model's definitions.

  \<^bold>\<open>Bounds and fuel\<close>

  Loops are structural or have a measure.  The interpolation of configparser has depth 10, the bound of
  the library; the walk of a column stops at the row limit 8192 of the code, and \<open>walk_always_ends\<close> shows
  that it ends for every agent.

  \<^bold>\<open>Abstractions\<close>

  Strings are ASCII, with the UTF-8 bytes of the dashes and arrows of messages.  Floats are exact: no
  rounding beyond the roundings the code asks for.  An operation reads the clock once and, under the
  lock of its object, is one step; worker pools are sequences.  The order in which Python walks a set
  is the order of first occurrence.  The syntax of JSON files is not modelled,
  values are; that of INI files is in Ini_Text.
  Times have no UTC offset, addresses are IPv4.  The directories of hosts hold files only, and the names
  that go into \<open>glob\<close> have none of its special characters.

  Arguments of the definitions stand for code that is not in the repository: Fernet, scrypt, SHA-256,
  pysnmp, pymongo, requests, NAPALM, netmiko, paramiko, pyrad, pyotp, WebAuthn, SMTP, difflib, ping, DNS,
  nmap, the file system's failures, random bytes and the clock.  \<open>redact\<close>, a list of regular expressions,
  is an argument as well.

  \<^bold>\<open>Not modelled\<close>

  The help page (help_store.py) and the calls of the WebAuthn library (passkeys.py), whose answers are arguments of the
  routes; the settings forms of the controllers and of the subnet check, which also act on the monitor
  and on another file, and the test sends; the remaining pages and API routes of web/app.py, which render
  what the modelled objects give.  main.py wires the parts together and parses the command line;
  scripts/ is a build script.  The logging set-up of the audit log, the Prometheus rendering of the
  metrics and the pysnmp transports are I/O.
\<close>

end
